(* ===== verification/Prelude.thy ===== *)
theory Prelude
  imports Main "HOL-Library.Word"
begin

unbundle bit_operations_syntax

section \<open>Prelude: machine types, constants and shared lemmas\<close>

text \<open>
  This theory names the machine types of the Tinkerforge protocol stack
  (\<^verbatim>\<open>software/src/bindings\<close>) and collects the facts on lists, words and natural
  numbers that several components use. Bytes are 8-bit words. Small unsigned counters that index
  arrays are natural numbers whose conversion to \<^verbatim>\<open>uint8_t\<close> is written out with
  \<open>to_u8\<close>. Return codes are C \<^verbatim>\<open>int\<close>s and therefore HOL integers: \<open>AND\<close> and
  \<open>OR\<close> on them are two's complement, as in C.
\<close>

type_synonym byte = "8 word"
type_synonym u16 = "16 word"
type_synonym u32 = "32 word"
type_synonym u64 = "64 word"

subsection \<open>Collections used by the proofs\<close>

named_theorems pb_simps \<open>how the packet buffer operations act on the abstract byte list\<close>
named_theorems pb_intros \<open>the packet buffer invariant is kept\<close>
named_theorems spitfp_frame \<open>fields an operation leaves unchanged\<close>
named_theorems hal_frame \<open>fields of the HAL state an operation leaves unchanged\<close>

subsection \<open>Return codes (errors.h) and limits (macros.h)\<close>

definition TF_E_OK :: int where "TF_E_OK = 0"
definition TF_E_TIMEOUT :: int where "TF_E_TIMEOUT = -1"
definition TF_E_INVALID_PARAMETER :: int where "TF_E_INVALID_PARAMETER = -2"
definition TF_E_NOT_SUPPORTED :: int where "TF_E_NOT_SUPPORTED = -3"
definition TF_E_UNKNOWN_ERROR_CODE :: int where "TF_E_UNKNOWN_ERROR_CODE = -4"
definition TF_E_STREAM_OUT_OF_SYNC :: int where "TF_E_STREAM_OUT_OF_SYNC = -5"
definition TF_E_INVALID_CHAR_IN_UID :: int where "TF_E_INVALID_CHAR_IN_UID = -6"
definition TF_E_UID_TOO_LONG :: int where "TF_E_UID_TOO_LONG = -7"
definition TF_E_UID_OVERFLOW :: int where "TF_E_UID_OVERFLOW = -8"
definition TF_E_TOO_MANY_DEVICES :: int where "TF_E_TOO_MANY_DEVICES = -9"
definition TF_E_DEVICE_NOT_FOUND :: int where "TF_E_DEVICE_NOT_FOUND = -10"
definition TF_E_WRONG_DEVICE_TYPE :: int where "TF_E_WRONG_DEVICE_TYPE = -11"
definition TF_E_LOCKED :: int where "TF_E_LOCKED = -12"
definition TF_E_PORT_NOT_FOUND :: int where "TF_E_PORT_NOT_FOUND = -13"
definition TF_E_NULL :: int where "TF_E_NULL = -14"
definition TF_E_DEVICE_ALREADY_IN_USE :: int where "TF_E_DEVICE_ALREADY_IN_USE = -15"
definition TF_E_WRONG_RESPONSE_LENGTH :: int where "TF_E_WRONG_RESPONSE_LENGTH = -16"
definition TF_E_NOT_INITIALIZED :: int where "TF_E_NOT_INITIALIZED = -17"
definition TF_E_INTERNAL_STREAM_HAS_NO_DATA :: int where "TF_E_INTERNAL_STREAM_HAS_NO_DATA = -128"

lemmas tf_e_defs =
  TF_E_OK_def TF_E_TIMEOUT_def TF_E_INVALID_PARAMETER_def TF_E_NOT_SUPPORTED_def
  TF_E_UNKNOWN_ERROR_CODE_def TF_E_STREAM_OUT_OF_SYNC_def TF_E_INVALID_CHAR_IN_UID_def
  TF_E_UID_TOO_LONG_def TF_E_UID_OVERFLOW_def TF_E_TOO_MANY_DEVICES_def
  TF_E_DEVICE_NOT_FOUND_def TF_E_WRONG_DEVICE_TYPE_def TF_E_LOCKED_def TF_E_PORT_NOT_FOUND_def
  TF_E_NULL_def TF_E_DEVICE_ALREADY_IN_USE_def TF_E_WRONG_RESPONSE_LENGTH_def
  TF_E_NOT_INITIALIZED_def TF_E_INTERNAL_STREAM_HAS_NO_DATA_def

abbreviation (input) TF_TFP_MIN_MESSAGE_LENGTH :: nat where "TF_TFP_MIN_MESSAGE_LENGTH \<equiv> 8"
abbreviation (input) TF_TFP_MAX_MESSAGE_LENGTH :: nat where "TF_TFP_MAX_MESSAGE_LENGTH \<equiv> 80"
abbreviation (input) TF_SPITFP_HEADER_LENGTH :: nat where "TF_SPITFP_HEADER_LENGTH \<equiv> 2"
abbreviation (input) TF_SPITFP_PROTOCOL_OVERHEAD :: nat where "TF_SPITFP_PROTOCOL_OVERHEAD \<equiv> 3"
abbreviation (input) TF_SPITFP_MIN_MESSAGE_LENGTH :: nat where "TF_SPITFP_MIN_MESSAGE_LENGTH \<equiv> 11"
abbreviation (input) TF_SPITFP_MAX_MESSAGE_LENGTH :: nat where "TF_SPITFP_MAX_MESSAGE_LENGTH \<equiv> 83"

subsection \<open>Conversions to machine types\<close>

text \<open>Storing an \<^verbatim>\<open>int\<close> into a \<^verbatim>\<open>uint8_t\<close> keeps it modulo 256.\<close>

definition to_u8 :: "nat \<Rightarrow> nat" where
  "to_u8 n = n mod 256"

lemma to_u8_small [simp]: "n < 256 \<Longrightarrow> to_u8 n = n"
  by (simp add: to_u8_def)

lemma to_u8_less: "to_u8 n < 256"
  by (simp add: to_u8_def)

text \<open>The same for an \<^verbatim>\<open>int\<close> expression that may be negative.\<close>

definition u8_of_int :: "int \<Rightarrow> nat" where
  "u8_of_int i = nat (i mod 256)"

lemma u8_of_int_small: "0 \<le> i \<Longrightarrow> i < 256 \<Longrightarrow> u8_of_int i = nat i"
  by (simp add: u8_of_int_def)

lemma u8_of_int_diff [simp]: "b \<le> a \<Longrightarrow> a - b < 256 \<Longrightarrow> u8_of_int (int a - int b) = a - b"
  by (simp add: u8_of_int_def flip: of_nat_diff)

lemma unat_byte_less [simp]: "unat (b :: byte) < 256"
  using unsigned_less [of b] by simp

lemma unat_byte_le: "unat (b :: byte) \<le> 255"
  using unat_byte_less [of b] by linarith

subsection \<open>Bit fields of a byte\<close>

lemma u8_of_uint_diff: "n \<le> unat b \<Longrightarrow> u8_of_int (uint (b :: byte) - int n) = unat b - n"
  using u8_of_int_diff [of n "unat b"] unat_byte_less [of b] by (simp add: less_imp_diff_less)

lemma unat_of_nat_u32: "n < 2 ^ 32 \<Longrightarrow> unat (of_nat n :: u32) = n"
  by (simp only: unat_of_nat len_of_numeral_defs) (simp add: take_bit_eq_mod)

lemma no_high_bits: "unat (w :: byte) < 2 ^ k \<Longrightarrow> k \<le> n \<Longrightarrow> \<not> bit w n"
proof -
  assume "unat w < 2 ^ k" and "k \<le> n"
  then have "unat w < 2 ^ n" by (meson less_le_trans one_le_numeral power_increasing)
  then have "\<not> bit (unat w) n" by (simp add: bit_iff_odd)
  then show ?thesis by (auto simp: bit_simps dest: bit_imp_le_length)
qed

lemma low_nibble_less: "unat ((b :: byte) AND 15) < 16"
proof -
  have "b AND 15 = take_bit 4 b" by (simp add: take_bit_eq_mask mask_eq_exp_minus_1)
  then have "unat (b AND 15) = take_bit 4 (unat b)" by (simp add: unsigned_take_bit_eq)
  then show ?thesis by (simp add: take_bit_eq_mod)
qed

lemma high_nibble_less: "unat (drop_bit 4 (b :: byte)) < 16"
  using unat_byte_less [of b] by (simp add: drop_bit_eq_div unat_div_distrib less_mult_imp_div_less)

text \<open>Two sequence numbers of four bits packed into one byte are read back.\<close>

lemma pack_nibbles:
  assumes "unat (a :: byte) < 16"
  shows "(a OR push_bit 4 b) AND 15 = a"
    and "unat b < 16 \<Longrightarrow> drop_bit 4 (a OR push_bit 4 b) = b"
proof -
  have a: "bit a n \<Longrightarrow> n < 4" for n using assms no_high_bits [of a 4 n] by (auto simp: not_less [symmetric])
  have m: "(15 :: byte) = mask 4" by (simp add: mask_eq_exp_minus_1)
  show "(a OR push_bit 4 b) AND 15 = a"
    unfolding m by (rule bit_word_eqI) (auto simp: bit_simps dest: a)
  show "drop_bit 4 (a OR push_bit 4 b) = b" if "unat b < 16"
  proof -
    have b: "bit b n \<Longrightarrow> n < 4" for n using that no_high_bits [of b 4 n] by (auto simp: not_less [symmetric])
    show ?thesis by (rule bit_word_eqI) (auto simp: bit_simps dest: a b)
  qed
qed

subsection \<open>Overwriting a segment of an array\<close>

text \<open>\<open>write_at off bs xs\<close> is \<^verbatim>\<open>memcpy(xs + off, bs, sizeof bs)\<close>.\<close>

definition write_at :: "nat \<Rightarrow> 'a list \<Rightarrow> 'a list \<Rightarrow> 'a list" where
  "write_at off bs xs = take off xs @ bs @ drop (off + length bs) xs"

lemma length_write_at [simp]:
  "off + length bs \<le> length xs \<Longrightarrow> length (write_at off bs xs) = length xs"
  by (simp add: write_at_def)

lemma nth_write_at:
  assumes "off + length bs \<le> length xs" and "i < length xs"
  shows "write_at off bs xs ! i =
    (if off \<le> i \<and> i < off + length bs then bs ! (i - off) else xs ! i)"
proof -
  have "length (take off xs) = off" using assms by simp
  then show ?thesis
    using assms by (auto simp: write_at_def nth_append)
qed

lemma write_at_Nil [simp]: "write_at off [] xs = xs"
  by (simp add: write_at_def)

subsection \<open>Searching a list\<close>

lemma length_takeWhile_less_iff:
  "length (takeWhile P xs) < length xs \<longleftrightarrow> (\<exists>x \<in> set xs. \<not> P x)"
  by (induction xs) auto

end
