(* ===== verification/Pearson_Hash.thy ===== *)
theory Pearson_Hash
  imports Prelude
begin

section \<open>The Pearson checksum (pearson_hash.c, pearson_hash.h)\<close>

text \<open>
  The SPITFP checksum of a packet. The lemmas show that the table is a permutation of the bytes,
  hence that one hashing step is injective in the running value and in the next byte, and that a
  packet differing in exactly one byte never has the same checksum.
\<close>

definition tf_pearson_permutation :: "byte list" where
  "tf_pearson_permutation = [
    1, 87, 49, 12, 176, 178, 102, 166, 121, 193, 6, 84, 249, 230, 44, 163,
    14, 197, 213, 181, 161, 85, 218, 80, 64, 239, 24, 226, 236, 142, 38, 200,
    110, 177, 104, 103, 141, 253, 255, 50, 77, 101, 81, 18, 45, 96, 31, 222,
    25, 107, 190, 70, 86, 237, 240, 34, 72, 242, 20, 214, 244, 227, 149, 235,
    97, 234, 57, 22, 60, 250, 82, 175, 208, 5, 127, 199, 111, 62, 135, 248,
    174, 169, 211, 58, 66, 154, 106, 195, 245, 171, 17, 187, 182, 179, 0, 243,
    132, 56, 148, 75, 128, 133, 158, 100, 130, 126, 91, 13, 153, 246, 216, 219,
    119, 68, 223, 78, 83, 88, 201, 99, 122, 11, 92, 32, 136, 114, 52, 10,
    138, 30, 48, 183, 156, 35, 61, 26, 143, 74, 251, 94, 129, 162, 63, 152,
    170, 7, 115, 167, 241, 206, 3, 150, 55, 59, 151, 220, 90, 53, 23, 131,
    125, 173, 15, 238, 79, 95, 89, 16, 105, 137, 225, 224, 217, 160, 37, 123,
    118, 73, 2, 157, 46, 116, 9, 145, 134, 228, 207, 212, 202, 215, 69, 229,
    27, 188, 67, 124, 168, 252, 42, 4, 29, 108, 21, 247, 19, 205, 39, 203,
    233, 40, 186, 147, 198, 192, 155, 33, 164, 191, 98, 204, 165, 180, 117, 76,
    140, 36, 210, 172, 41, 54, 159, 8, 185, 232, 113, 196, 231, 47, 146, 120,
    51, 65, 28, 144, 254, 221, 93, 189, 194, 139, 112, 43, 71, 109, 184, 209]"

definition TF_PEARSON_HASH :: "byte \<Rightarrow> byte \<Rightarrow> byte" where
  "TF_PEARSON_HASH cur nxt = tf_pearson_permutation ! unat (cur XOR nxt)"

text \<open>The checksum loops of \<^verbatim>\<open>spitfp.c\<close>: the running value starts at 0.\<close>

definition pearson_checksum :: "byte list \<Rightarrow> byte" where
  "pearson_checksum bs = foldl TF_PEARSON_HASH 0 bs"

lemma length_tf_pearson_permutation: "length tf_pearson_permutation = 256"
  by (simp add: tf_pearson_permutation_def)

lemma distinct_map_unat_permutation: "distinct (map unat tf_pearson_permutation)"
  by (simp add: tf_pearson_permutation_def)

lemma distinct_tf_pearson_permutation: "distinct tf_pearson_permutation"
  using distinct_map_unat_permutation by (simp add: distinct_map)

lemma TF_PEARSON_HASH_eq_iff:
  "TF_PEARSON_HASH a x = TF_PEARSON_HASH b y \<longleftrightarrow> a XOR x = b XOR y"
proof -
  have "unat (a XOR x) < length tf_pearson_permutation"
    and "unat (b XOR y) < length tf_pearson_permutation"
    by (simp_all add: length_tf_pearson_permutation)
  then show ?thesis
    by (simp add: TF_PEARSON_HASH_def nth_eq_iff_index_eq [OF distinct_tf_pearson_permutation]
        flip: word_unat_eq_iff)
qed

lemma xor_byte_cancel_left [simp]: "(a :: byte) XOR x = a XOR y \<longleftrightarrow> x = y"
  by (metis xor.assoc xor.left_neutral xor_self_eq)

lemma xor_byte_cancel_right [simp]: "(a :: byte) XOR x = b XOR x \<longleftrightarrow> a = b"
  by (metis xor.commute xor_byte_cancel_left)

lemma foldl_pearson_inj: "foldl TF_PEARSON_HASH a bs = foldl TF_PEARSON_HASH b bs \<longleftrightarrow> a = b"
  by (induction bs arbitrary: a b) (simp_all add: TF_PEARSON_HASH_eq_iff)

lemma pearson_checksum_snoc: "pearson_checksum (bs @ [b]) = TF_PEARSON_HASH (pearson_checksum bs) b"
  by (simp add: pearson_checksum_def)

lemma pearson_checksum_update:
  assumes "i < length bs"
  shows "pearson_checksum (bs[i := y]) = pearson_checksum bs \<longleftrightarrow> bs ! i = y"
proof -
  have "pearson_checksum (take i bs @ y # drop (Suc i) bs) =
      pearson_checksum (take i bs @ bs ! i # drop (Suc i) bs) \<longleftrightarrow> bs ! i = y"
    by (auto simp: pearson_checksum_def foldl_pearson_inj TF_PEARSON_HASH_eq_iff)
  then show ?thesis
    using assms by (simp add: upd_conv_take_nth_drop flip: id_take_nth_drop)
qed

text \<open>
  Claim C30. The checksum detects every corruption of a single byte: two byte sequences that differ
  at exactly one position have different checksums, wherever that position is.
\<close>

theorem pearson_detects_single_byte:
  "pearson_checksum (us @ [x] @ vs) = pearson_checksum (us @ [y] @ vs) \<longleftrightarrow> x = y"
  by (simp add: pearson_checksum_def foldl_pearson_inj TF_PEARSON_HASH_eq_iff)

end
