(* ===== verification/Base58.thy ===== *)
theory Base58
  imports Prelude
begin

section \<open>Base58 device identifiers (base58.c)\<close>

text \<open>
  Device UIDs are 32-bit numbers that are shown and entered in base 58. This theory models the
  encoder, the decoder and its two overflow-checked helpers, and proves that the helpers detect
  overflow exactly, that the decoder computes the positional value or reports the right error, and
  that decoding inverts encoding for every 32-bit value. A C string is the list of the characters
  before its terminator.
\<close>

definition BASE58_ALPHABET :: string where
  "BASE58_ALPHABET = ''123456789abcdefghijkmnopqrstuvwxyzABCDEFGHJKLMNPQRSTUVWXYZ''"

abbreviation (input) TF_BASE58_MAX_STR_SIZE :: nat where "TF_BASE58_MAX_STR_SIZE \<equiv> 7"

abbreviation NUL :: char where "NUL \<equiv> CHR 0x00"

text \<open>The C string held by a character array: everything before the first terminator.\<close>

definition c_str :: "char list \<Rightarrow> string" where
  "c_str cs = takeWhile (\<lambda>c. c \<noteq> NUL) cs"

subsection \<open>Encoding\<close>

function encode_loop :: "u32 \<Rightarrow> nat \<Rightarrow> char list \<Rightarrow> u32 \<times> nat \<times> char list" where
  "encode_loop value i reverse_str =
     (if value \<ge> 58
      then encode_loop (value div 58) (Suc i)
             (reverse_str[i := BASE58_ALPHABET ! unat (value mod 58)])
      else (value, i, reverse_str))"
  by pat_completeness auto
termination
  by (relation "measure (\<lambda>(v, i, r). unat v)")
    (simp_all add: word_le_nat_alt unat_div_distrib)

declare encode_loop.simps [simp del]

definition tf_base58_encode :: "u32 \<Rightarrow> char list" where
  "tf_base58_encode value =
     (case encode_loop value 0 (replicate TF_BASE58_MAX_STR_SIZE NUL) of
        (v, i, r) \<Rightarrow>
          let reverse_str = r[i := BASE58_ALPHABET ! unat v]
          in map (\<lambda>k. if k \<le> i then reverse_str ! (i - k) else NUL)
               [0..<TF_BASE58_MAX_STR_SIZE])"

subsection \<open>Checked arithmetic\<close>

definition uint32_add :: "u32 \<Rightarrow> u32 \<Rightarrow> u32 option" where
  "uint32_add a b = (if (-1) - a < b then None else Some (a + b))"

definition uint32_multiply :: "u32 \<Rightarrow> u32 \<Rightarrow> u32 option" where
  "uint32_multiply a b =
     (let a0 = a AND 0xFFFF; a1 = drop_bit 16 a;
          b0 = b AND 0xFFFF; b1 = drop_bit 16 b
      in if a1 > 0 \<and> b1 > 0 then None
         else let c1 = a1 * b0 + a0 * b1
              in if c1 > 0xFFFF then None
                 else uint32_add (push_bit 16 c1) (a0 * b0))"

subsection \<open>Decoding\<close>

text \<open>The inner loop: the first index of the character in the alphabet, 58 when it is absent.\<close>

definition alphabet_index :: "char \<Rightarrow> nat" where
  "alphabet_index c = length (takeWhile (\<lambda>a. a \<noteq> c) BASE58_ALPHABET)"

fun decode_loop :: "string \<Rightarrow> nat \<Rightarrow> u32 \<Rightarrow> u32 \<Rightarrow> int + u32" where
  "decode_loop str 0 value base = Inr value"
| "decode_loop str (Suc i) value base =
     (let k = alphabet_index (str ! i)
      in if k = 58 then Inl TF_E_INVALID_CHAR_IN_UID
         else case uint32_multiply (of_nat k) base of
           None \<Rightarrow> Inl TF_E_UID_OVERFLOW
         | Some nxt \<Rightarrow>
             (case uint32_add value nxt of
                None \<Rightarrow> Inl TF_E_UID_OVERFLOW
              | Some value' \<Rightarrow>
                  if i > 0
                  then (case uint32_multiply base 58 of
                          None \<Rightarrow> Inl TF_E_UID_OVERFLOW
                        | Some base' \<Rightarrow> decode_loop str i value' base')
                  else decode_loop str i value' base))"

text \<open>The return code and the value left in \<^verbatim>\<open>*ret_value\<close>, which held \<open>old\<close> before.\<close>

definition tf_base58_decode :: "string \<Rightarrow> u32 \<Rightarrow> int \<times> u32" where
  "tf_base58_decode str old =
     (if length str > 6 then (TF_E_UID_TOO_LONG, old)
      else case decode_loop str (length str) 0 1 of
             Inl e \<Rightarrow> (e, 0)
           | Inr value \<Rightarrow> (TF_E_OK, value))"

subsection \<open>The checked helpers are exact\<close>

lemma unat_u32_max: "unat (-1 :: u32) = 2 ^ 32 - 1"
  by (simp add: unsigned_minus_1_eq_mask mask_eq_exp_minus_1)

lemma unat_u32_less: "unat (a :: u32) < 2 ^ 32"
  using unsigned_less [of a, where ?'a = nat] by simp

lemma uint32_add_exact:
  "uint32_add a b = (if unat a + unat b < 2 ^ 32 then Some (a + b) else None)"
proof -
  have "unat ((-1) - a :: u32) = 2 ^ 32 - 1 - unat a"
    using unat_u32_less [of a] unat_u32_max by (simp add: unat_sub_if_size)
  then show ?thesis
    using unat_u32_less [of a] by (auto simp: uint32_add_def word_less_nat_alt)
qed

lemma unat_and_FFFF: "unat (a AND 0xFFFF :: u32) = unat a mod 2 ^ 16"
proof -
  have "(0xFFFF :: u32) = mask 16" by (simp add: mask_eq_exp_minus_1)
  then have "a AND 0xFFFF = take_bit 16 a" by (simp only: take_bit_eq_mask)
  then show ?thesis by (simp only: unsigned_take_bit_eq) (simp add: take_bit_eq_mod)
qed

lemma unat_drop_16: "unat (drop_bit 16 a :: u32) = unat a div 2 ^ 16"
  by (simp only: unat_drop_bit_eq) (simp add: drop_bit_eq_div)

text \<open>The schoolbook split of a 32-bit product into 16-bit halves.\<close>

lemma product_halves:
  fixes x y :: nat
  shows "x * y = (x div 2 ^ 16) * (y div 2 ^ 16) * 2 ^ 32
    + ((x div 2 ^ 16) * (y mod 2 ^ 16) + (x mod 2 ^ 16) * (y div 2 ^ 16)) * 2 ^ 16
    + (x mod 2 ^ 16) * (y mod 2 ^ 16)"
proof -
  have "x * y = (x div 2 ^ 16 * 2 ^ 16 + x mod 2 ^ 16) * (y div 2 ^ 16 * 2 ^ 16 + y mod 2 ^ 16)"
    by simp
  then show ?thesis by (simp only: algebra_simps) simp
qed

lemma half_product_less: "x < 2 ^ 16 \<Longrightarrow> y < 2 ^ 16 \<Longrightarrow> x * y < (2 ^ 32 :: nat)"
  using mult_strict_mono [of x "2 ^ 16" y "2 ^ 16"] by simp

lemma unat_push_16: "unat (c :: u32) \<le> 0xFFFF \<Longrightarrow> unat (push_bit 16 c) = unat c * 2 ^ 16"
  by (simp add: push_bit_eq_mult unat_word_ariths)

text \<open>Reassembling the product from the checked middle and low parts.\<close>

lemma assemble_product:
  fixes a b c l :: u32
  assumes "unat a * unat b = unat c * 2 ^ 16 + unat l"
  shows "(if c > 0xFFFF then None else uint32_add (push_bit 16 c) l) =
    (if unat a * unat b < 2 ^ 32 then Some (a * b) else None)"
proof (cases "unat c \<le> 0xFFFF")
  case True
  then have p: "unat (push_bit 16 c) + unat l = unat a * unat b"
    using assms by (simp add: unat_push_16)
  have "push_bit 16 c + l = a * b"
    using p by (simp add: word_unat_eq_iff unat_word_ariths)
  with True p show ?thesis
    by (simp add: uint32_add_exact word_less_nat_alt)
qed (use assms in \<open>simp add: word_less_nat_alt\<close>)

lemma uint32_multiply_exact:
  "uint32_multiply a b = (if unat a * unat b < 2 ^ 32 then Some (a * b) else None)"
proof -
  let ?x1 = "unat a div 2 ^ 16" and ?x0 = "unat a mod 2 ^ 16"
  let ?y1 = "unat b div 2 ^ 16" and ?y0 = "unat b mod 2 ^ 16"
  let ?c1 = "drop_bit 16 a * (b AND 0xFFFF) + (a AND 0xFFFF) * drop_bit 16 b"
  have le: "?x1 < 2 ^ 16" "?y1 < 2 ^ 16" "?x0 < 2 ^ 16" "?y0 < 2 ^ 16"
    using unat_u32_less [of a] unat_u32_less [of b] by simp_all
  have lo: "unat ((a AND 0xFFFF) * (b AND 0xFFFF)) = ?x0 * ?y0"
    using half_product_less [OF le(3) le(4)] by (simp add: unat_word_ariths unat_and_FFFF)
  show ?thesis
  proof (cases "?x1 > 0 \<and> ?y1 > 0")
    case True
    then have "2 ^ 32 \<le> ?x1 * ?y1 * 2 ^ 32" by simp
    then have "2 ^ 32 \<le> unat a * unat b" using product_halves [of "unat a" "unat b"] by linarith
    with True show ?thesis
      by (simp add: uint32_multiply_def word_less_nat_alt unat_drop_16 Let_def)
  next
    case False
    then have z: "?x1 * ?y1 = 0" by auto
    then have "?x1 * ?y0 = 0 \<or> ?x0 * ?y1 = 0" by auto
    then have c1: "unat ?c1 = ?x1 * ?y0 + ?x0 * ?y1"
      using half_product_less [OF le(1) le(4)] half_product_less [OF le(3) le(2)]
      by (auto simp: unat_word_ariths unat_and_FFFF unat_drop_16)
    have prod: "unat a * unat b = unat ?c1 * 2 ^ 16 + ?x0 * ?y0"
      using product_halves [of "unat a" "unat b"] z c1 by simp
    have "uint32_multiply a b = (if ?c1 > 0xFFFF then None
        else uint32_add (push_bit 16 ?c1) ((a AND 0xFFFF) * (b AND 0xFFFF)))"
      using False by (auto simp: uint32_multiply_def word_less_nat_alt unat_drop_16 Let_def)
    then show ?thesis
      using prod lo by (simp only: assemble_product)
  qed
qed

subsection \<open>The decoder computes the positional value\<close>

text \<open>The mathematical value of a string of alphabet characters, without any bound.\<close>

definition base58_value :: "string \<Rightarrow> nat" where
  "base58_value s = foldl (\<lambda>acc c. 58 * acc + alphabet_index c) 0 s"

definition valid_uid :: "string \<Rightarrow> bool" where
  "valid_uid s = list_all (\<lambda>c. c \<in> set BASE58_ALPHABET) s"

lemma length_BASE58_ALPHABET [simp]: "length BASE58_ALPHABET = 58"
  by (simp add: BASE58_ALPHABET_def)

lemma distinct_BASE58_ALPHABET: "distinct BASE58_ALPHABET"
  by (simp add: BASE58_ALPHABET_def)

lemma alphabet_index_less: "alphabet_index c < 58 \<longleftrightarrow> c \<in> set BASE58_ALPHABET"
  using length_takeWhile_less_iff [of "\<lambda>a. a \<noteq> c" BASE58_ALPHABET]
  by (auto simp: alphabet_index_def)

lemma alphabet_index_eq_58: "alphabet_index c = 58 \<longleftrightarrow> c \<notin> set BASE58_ALPHABET"
proof -
  have "alphabet_index c \<le> 58"
    unfolding alphabet_index_def by (metis length_BASE58_ALPHABET length_takeWhile_le)
  then show ?thesis using alphabet_index_less [of c] by auto
qed

lemma alphabet_index_nth: "k < 58 \<Longrightarrow> alphabet_index (BASE58_ALPHABET ! k) = k"
proof -
  assume k: "k < 58"
  let ?c = "BASE58_ALPHABET ! k"
  have "alphabet_index ?c < 58" using k by (simp add: alphabet_index_less)
  moreover have "BASE58_ALPHABET ! alphabet_index ?c = ?c"
    using calculation unfolding alphabet_index_def
    by (metis (mono_tags, lifting) length_BASE58_ALPHABET nth_length_takeWhile)
  ultimately show ?thesis
    using k distinct_BASE58_ALPHABET by (simp add: nth_eq_iff_index_eq)
qed

lemma base58_value_append:
  "base58_value (xs @ ys) = base58_value xs * 58 ^ length ys + base58_value ys"
proof (induction ys rule: rev_induct)
  case (snoc y ys)
  then show ?case
    by (simp add: base58_value_def algebra_simps flip: append_assoc)
qed (simp add: base58_value_def)

lemma base58_value_Nil [simp]: "base58_value [] = 0"
  by (simp add: base58_value_def)

lemma base58_value_Cons:
  "base58_value (c # s) = alphabet_index c * 58 ^ length s + base58_value s"
  using base58_value_append [of "[c]" s] by (simp add: base58_value_def)

lemma base58_value_less: "valid_uid s \<Longrightarrow> base58_value s < 58 ^ length s"
proof (induction s)
  case (Cons c s)
  then have "alphabet_index c \<le> 57" and "base58_value s < 58 ^ length s"
    using alphabet_index_less [of c] by (auto simp: valid_uid_def)
  then have "alphabet_index c * 58 ^ length s + base58_value s < 57 * 58 ^ length s + 58 ^ length s"
    by (intro add_le_less_mono mult_le_mono1)
  then show ?case by (simp add: base58_value_Cons)
qed simp

lemma valid_uid_Cons [simp]: "valid_uid (c # s) \<longleftrightarrow> c \<in> set BASE58_ALPHABET \<and> valid_uid s"
  by (simp add: valid_uid_def)

text \<open>One iteration that cannot overflow: at most five digits have been read after it.\<close>

lemma decode_step_fits:
  assumes "c \<in> set BASE58_ALPHABET" and "valid_uid s"
    and "unat value = base58_value s" and "unat base = 58 ^ length s"
    and "alphabet_index c * 58 ^ length s + base58_value s < 2 ^ 32"
  shows "uint32_multiply (of_nat (alphabet_index c)) base = Some (of_nat (alphabet_index c) * base)"
    and "uint32_add value (of_nat (alphabet_index c) * base) =
      Some (of_nat (base58_value (c # s)))"
proof -
  let ?k = "alphabet_index c"
  have k: "?k < 58" using assms(1) by (simp add: alphabet_index_less)
  then have uk: "unat (of_nat ?k :: u32) = ?k"
    by (simp add: unat_of_nat)
  have small: "?k * 58 ^ length s < 2 ^ 32" using assms(5) by linarith
  show "uint32_multiply (of_nat ?k) base = Some (of_nat ?k * base)"
    using small uk assms(4) by (simp add: uint32_multiply_exact)
  have "unat (of_nat ?k * base) = ?k * 58 ^ length s"
    using small uk assms(4) by (simp add: unat_word_ariths)
  then have sum: "unat value + unat (of_nat ?k * base) = base58_value (c # s)"
    using assms(3) by (simp add: base58_value_Cons)
  have "value + of_nat ?k * base = of_nat (unat value + unat (of_nat ?k * base))"
    by (rule word_arith_nat_add)
  then have "value + of_nat ?k * base = of_nat (base58_value (c # s))"
    by (simp only: sum)
  then show "uint32_add value (of_nat ?k * base) = Some (of_nat (base58_value (c # s)))"
    using assms(5) sum by (simp add: uint32_add_exact base58_value_Cons)
qed

text \<open>The leftmost iteration, the only one that can overflow.\<close>

lemma decode_step_overflow:
  assumes "c \<in> set BASE58_ALPHABET"
    and "unat value = base58_value s" and "unat base = 58 ^ length s"
    and "\<not> alphabet_index c * 58 ^ length s + base58_value s < 2 ^ 32"
  shows "case uint32_multiply (of_nat (alphabet_index c)) base of
      None \<Rightarrow> True | Some nxt \<Rightarrow> uint32_add value nxt = None"
proof -
  let ?k = "alphabet_index c"
  have "?k < 58" using assms(1) by (simp add: alphabet_index_less)
  then have uk: "unat (of_nat ?k :: u32) = ?k" by (simp add: unat_of_nat)
  then show ?thesis
    using assms(2-4) by (auto simp: uint32_multiply_exact uint32_add_exact unat_word_ariths)
qed

lemma pow58_small: "n \<le> 5 \<Longrightarrow> (58 :: nat) ^ n < 2 ^ 32"
  using power_increasing [of n 5 "58 :: nat"] by simp

lemma decode_loop_leftmost:
  assumes "c \<in> set BASE58_ALPHABET" and "valid_uid s"
    and "unat v = base58_value s" and "unat base = 58 ^ length s"
  shows "decode_loop (c # s) (Suc 0) v base =
    (if base58_value (c # s) < 2 ^ 32 then Inr (of_nat (base58_value (c # s)))
     else Inl TF_E_UID_OVERFLOW)"
proof (cases "base58_value (c # s) < 2 ^ 32")
  case True
  then have "alphabet_index c * 58 ^ length s + base58_value s < 2 ^ 32"
    by (simp only: base58_value_Cons)
  note fits = decode_step_fits [OF assms this]
  show ?thesis
    using fits True assms(1) alphabet_index_eq_58 [of c] by (simp add: Let_def)
next
  case False
  then have "\<not> alphabet_index c * 58 ^ length s + base58_value s < 2 ^ 32"
    by (simp only: base58_value_Cons not_False_eq_True)
  note over = decode_step_overflow [OF assms(1,3,4) this]
  show ?thesis
    using over False assms(1) alphabet_index_eq_58 [of c]
    by (auto simp: Let_def split: option.splits)
qed

lemma decode_loop_spec:
  assumes "i \<le> length str" and "length str \<le> 6" and "valid_uid (drop i str)"
    and "unat v = base58_value (drop i str)" and "base58_value (drop i str) < 2 ^ 32"
    and "i > 0 \<longrightarrow> unat base = 58 ^ (length str - i)"
  shows "decode_loop str i v base =
    (if \<not> valid_uid (take i str) then Inl TF_E_INVALID_CHAR_IN_UID
     else if base58_value str < 2 ^ 32 then Inr (of_nat (base58_value str))
     else Inl TF_E_UID_OVERFLOW)"
  using assms
proof (induction i arbitrary: v base)
  case 0
  then show ?case
    by (simp add: valid_uid_def word_unat_eq_iff unat_of_nat)
next
  case (Suc i)
  let ?c = "str ! i" and ?s = "drop (Suc i) str"
  have d: "drop i str = ?c # ?s" and t: "take (Suc i) str = take i str @ [?c]"
    using Suc.prems(1) by (simp_all add: Cons_nth_drop_Suc take_Suc_conv_app_nth)
  have ub: "unat base = 58 ^ length ?s" using Suc.prems(6) by simp
  consider (invalid) "?c \<notin> set BASE58_ALPHABET"
    | (leftmost) "?c \<in> set BASE58_ALPHABET" "i = 0"
    | (inner) "?c \<in> set BASE58_ALPHABET" "i > 0" by blast
  then show ?case
  proof cases
    case invalid
    then show ?thesis
      using t by (simp add: alphabet_index_eq_58 valid_uid_def)
  next
    case leftmost
    then have "str = ?c # ?s" using d by simp
    with leftmost show ?thesis
      using decode_loop_leftmost [OF leftmost(1) Suc.prems(3,4) ub] t
      by (simp add: valid_uid_def)
  next
    case inner
    then have len: "Suc (length ?s) \<le> 5" using Suc.prems(1,2) by simp
    have vs: "valid_uid (?c # ?s)" using inner Suc.prems(3) by simp
    then have small: "base58_value (?c # ?s) < 2 ^ 32"
      using base58_value_less [of "?c # ?s"] pow58_small [OF len] by simp
    then have "alphabet_index ?c * 58 ^ length ?s + base58_value ?s < 2 ^ 32"
      by (simp only: base58_value_Cons)
    note fits = decode_step_fits [OF inner(1) Suc.prems(3,4) ub this]
    have "unat base * unat (58 :: u32) = 58 ^ Suc (length ?s)" using ub by simp
    then have base: "uint32_multiply base 58 = Some (base * 58)"
      and ubase: "unat (base * 58) = 58 ^ (length str - i)"
      using pow58_small [OF len] Suc.prems(1)
      by (simp_all add: uint32_multiply_exact unat_word_ariths Suc_diff_Suc)
    note IH = Suc.IH [of "of_nat (base58_value (?c # ?s))" "base * 58"]
    show ?thesis
      using IH Suc.prems(1,2) vs small ubase fits base inner t alphabet_index_eq_58 [of ?c]
      by (simp add: Let_def valid_uid_def d unat_of_nat)
  qed
qed

lemma base58_decode_eq:
  "tf_base58_decode str old =
    (if length str > 6 then (TF_E_UID_TOO_LONG, old)
     else if \<not> valid_uid str then (TF_E_INVALID_CHAR_IN_UID, 0)
     else if base58_value str \<ge> 2 ^ 32 then (TF_E_UID_OVERFLOW, 0)
     else (TF_E_OK, of_nat (base58_value str)))"
proof (cases "length str > 6")
  case False
  then show ?thesis
    using decode_loop_spec [of "length str" str 0 1]
    by (simp add: tf_base58_decode_def valid_uid_def)
qed (simp add: tf_base58_decode_def)

text \<open>
  Claim C28. Decoding a UID string is exact: it succeeds precisely for strings of at most six
  alphabet characters whose positional value is below \<open>2 ^ 32\<close>, and then yields that value;
  the three refusals are reported in the order too long, invalid character, overflow.
\<close>

theorem tf_base58_decode_exact:
  "fst (tf_base58_decode str old) =
    (if length str > 6 then TF_E_UID_TOO_LONG
     else if \<not> valid_uid str then TF_E_INVALID_CHAR_IN_UID
     else if base58_value str \<ge> 2 ^ 32 then TF_E_UID_OVERFLOW
     else TF_E_OK) \<and>
   (fst (tf_base58_decode str old) = TF_E_OK \<longleftrightarrow>
      length str \<le> 6 \<and> valid_uid str \<and> unat (snd (tf_base58_decode str old)) = base58_value str)"
proof -
  have "base58_value str < 2 ^ 32" if "unat (snd (tf_base58_decode str old)) = base58_value str"
    using that unat_u32_less by metis
  then show ?thesis
    by (auto simp: base58_decode_eq unat_of_nat tf_e_defs)
qed

subsection \<open>The encoder writes the base 58 digits\<close>

fun base58_digits :: "nat \<Rightarrow> nat list" where
  "base58_digits n = (if n < 58 then [n] else base58_digits (n div 58) @ [n mod 58])"

declare base58_digits.simps [simp del]

abbreviation digit_char :: "nat \<Rightarrow> char" where
  "digit_char k \<equiv> BASE58_ALPHABET ! k"

lemma base58_digits_less: "\<forall>d \<in> set (base58_digits n). d < 58"
proof (induction n rule: base58_digits.induct)
  case (1 n)
  then show ?case by (subst base58_digits.simps) auto
qed

lemma length_base58_digits: "n < 58 ^ Suc k \<Longrightarrow> length (base58_digits n) \<le> Suc k"
proof (induction k arbitrary: n)
  case 0
  then show ?case by (simp add: base58_digits.simps [of n])
next
  case (Suc k)
  then have "n div 58 < 58 ^ Suc k" by (simp add: less_mult_imp_div_less mult.commute)
  then have "length (base58_digits (n div 58)) \<le> Suc k" by (rule Suc.IH)
  then show ?case by (simp add: base58_digits.simps [of n])
qed

lemma base58_value_digits: "base58_value (map digit_char (base58_digits n)) = n"
proof (induction n rule: base58_digits.induct)
  case (1 n)
  show ?case
  proof (cases "n < 58")
    case True
    then show ?thesis
      by (simp add: base58_digits.simps [of n] base58_value_def alphabet_index_nth)
  next
    case False
    have "base58_value (map digit_char (base58_digits n)) = n div 58 * 58 + n mod 58"
      using False "1.IH" by (subst base58_digits.simps)
        (simp add: base58_value_append base58_value_Cons alphabet_index_nth)
    then show ?thesis by simp
  qed
qed

lemma encode_loop_spec:
  assumes "i + length (base58_digits (unat v)) \<le> length r"
    and "encode_loop v i r = (v', i', r')"
  shows "i' = i + length (base58_digits (unat v)) - 1 \<and>
    take (Suc i') (r'[i' := digit_char (unat v')]) =
      take i r @ rev (map digit_char (base58_digits (unat v)))"
  using assms
proof (induction v i r rule: encode_loop.induct)
  case (1 v i r)
  show ?case
  proof (cases "v \<ge> 58")
    case True
    have d: "base58_digits (unat v) = base58_digits (unat (v div 58)) @ [unat (v mod 58)]"
      using True by (subst base58_digits.simps)
        (simp add: word_le_nat_alt unat_div_distrib unat_mod_distrib)
    have step: "encode_loop (v div 58) (Suc i) (r[i := digit_char (unat (v mod 58))]) = (v', i', r')"
      using "1.prems"(2) True by (simp add: encode_loop.simps [of v i r])
    have "take (Suc i) (r[i := digit_char (unat (v mod 58))]) =
        take i r @ [digit_char (unat (v mod 58))]"
      using "1.prems"(1) d by (simp add: take_Suc_conv_app_nth)
    with "1.IH" [OF True _ step] "1.prems"(1) d show ?thesis by auto
  next
    case False
    then have "base58_digits (unat v) = [unat v]"
      by (subst base58_digits.simps) (simp add: word_le_nat_alt)
    with False "1.prems" show ?thesis
      by (simp add: encode_loop.simps [of v i r] take_Suc_conv_app_nth)
  qed
qed

lemma length_encode_loop: "length (snd (snd (encode_loop v i r))) = length r"
proof (induction v i r rule: encode_loop.induct)
  case (1 v i r)
  then show ?case by (subst encode_loop.simps) auto
qed

lemma reverse_copy:
  assumes "i < length r" and "length r = n"
  shows "map (\<lambda>k. if k \<le> i then r ! (i - k) else z) [0..<n] = rev (take (Suc i) r) @ replicate (n - Suc i) z"
  using assms by (intro nth_equalityI) (auto simp: nth_append rev_nth)

lemma tf_base58_encode_digits:
  "tf_base58_encode v =
    map digit_char (base58_digits (unat v)) @ replicate (7 - length (base58_digits (unat v))) NUL"
proof -
  let ?ds = "base58_digits (unat v)"
  obtain v' i r where loop: "encode_loop v 0 (replicate 7 NUL) = (v', i, r)"
    by (metis prod_cases3)
  have "unat v < 58 ^ Suc 5" using unat_u32_less [of v] by simp
  then have len: "length ?ds \<le> 6" using length_base58_digits [of "unat v" 5] by simp
  have pos: "length ?ds > 0" by (subst base58_digits.simps) simp
  have r: "length r = 7" using length_encode_loop [of v 0 "replicate 7 NUL"] loop by simp
  have spec: "i = length ?ds - 1" "take (Suc i) (r[i := digit_char (unat v')]) = rev (map digit_char ?ds)"
    using encode_loop_spec [OF _ loop] len by auto
  have "tf_base58_encode v =
      rev (take (Suc i) (r[i := digit_char (unat v')])) @ replicate (7 - Suc i) NUL"
    using loop r spec(1) len by (simp add: tf_base58_encode_def Let_def reverse_copy)
  then show ?thesis using spec pos by simp
qed

lemma NUL_not_in_alphabet: "NUL \<notin> set BASE58_ALPHABET"
  by (simp add: BASE58_ALPHABET_def)

lemma digit_chars_valid: "valid_uid (map digit_char (base58_digits n))"
  using base58_digits_less [of n] by (auto simp: valid_uid_def list_all_iff)

lemma c_str_encode: "c_str (tf_base58_encode v) = map digit_char (base58_digits (unat v))"
proof -
  have "\<forall>c \<in> set (map digit_char (base58_digits (unat v))). c \<noteq> NUL"
    using digit_chars_valid [of "unat v"] NUL_not_in_alphabet
    by (auto simp: valid_uid_def list_all_iff)
  then show ?thesis
    by (simp add: c_str_def tf_base58_encode_digits takeWhile_append)
qed

text \<open>
  Claim C29. For every 32-bit UID the encoder writes a terminated string of at most six alphabet
  characters into its seven byte buffer, and decoding that string returns the UID.
\<close>

theorem tf_base58_roundtrip:
  "length (tf_base58_encode v) = 7 \<and> last (tf_base58_encode v) = NUL \<and>
   tf_base58_decode (c_str (tf_base58_encode v)) old = (TF_E_OK, v)"
proof -
  let ?ds = "base58_digits (unat v)"
  have "unat v < 58 ^ Suc 5" using unat_u32_less [of v] by simp
  then have len: "length ?ds \<le> 6" using length_base58_digits [of "unat v" 5] by simp
  then have arr: "length (tf_base58_encode v) = 7" "last (tf_base58_encode v) = NUL"
    by (simp_all add: tf_base58_encode_digits)
  have "tf_base58_decode (c_str (tf_base58_encode v)) old = (TF_E_OK, of_nat (unat v))"
    using len digit_chars_valid [of "unat v"] unat_u32_less [of v]
    by (simp add: c_str_encode base58_decode_eq base58_value_digits)
  then show ?thesis using arr by simp
qed

end
