(* ===== verification/Hal_Interface.thy ===== *)
theory Hal_Interface
  imports Prelude
begin

unbundle bit_operations_syntax

section \<open>The hardware abstraction layer (hal_common.h) and its clock\<close>

text \<open>
  The protocol stack reaches the hardware through six functions that every board implements
  ("To be implemented by the specific HAL" in \<^verbatim>\<open>hal_common.h\<close>). They are a record of
  functions over an abstract world \<open>'w\<close>, so that everything above is executable for any world and
  nothing is assumed about the SPI peer. What the stack may rely on is stated by \<open>hal_ok\<close> (a
  successful transfer returns as many bytes as were sent, return codes are never positive) and
  \<open>hal_clock\<close> (time comes from a cycle counter that strictly advances). The ESP32 implementation
  is shown to satisfy the first in the theory on that HAL.
\<close>

record 'w hal_ops =
  hal_chip_select :: "nat \<Rightarrow> bool \<Rightarrow> 'w \<Rightarrow> int \<times> 'w"
  hal_transceive :: "nat \<Rightarrow> byte list \<Rightarrow> 'w \<Rightarrow> int \<times> byte list \<times> 'w"
  hal_current_time_us :: "'w \<Rightarrow> u32 \<times> 'w"
  hal_sleep_us :: "u32 \<Rightarrow> 'w \<Rightarrow> 'w"
  hal_get_port_name :: "nat \<Rightarrow> char"

text \<open>The comparison is on the wrapped difference, with half the range counting as elapsed.\<close>

definition deadline_passed :: "u32 \<Rightarrow> u32 \<Rightarrow> bool" where
  "deadline_passed now deadline_us \<longleftrightarrow> now - deadline_us < 0xFFFFFFFF div 2"

definition tf_hal_deadline_elapsed :: "'w hal_ops \<Rightarrow> u32 \<Rightarrow> 'w \<Rightarrow> bool \<times> 'w" where
  "tf_hal_deadline_elapsed ops deadline_us w =
     (case hal_current_time_us ops w of (now, w') \<Rightarrow> (deadline_passed now deadline_us, w'))"

subsection \<open>What the stack relies on\<close>

definition hal_ok :: "'w hal_ops \<Rightarrow> bool" where
  "hal_ok ops \<longleftrightarrow>
     (\<forall>p en w. fst (hal_chip_select ops p en w) \<le> TF_E_OK) \<and>
     (\<forall>p bs w. case hal_transceive ops p bs w of (rc, rs, w') \<Rightarrow>
        rc \<le> TF_E_OK \<and> length rs \<le> length bs \<and> (rc = TF_E_OK \<longrightarrow> length rs = length bs))"

text \<open>
  \<open>cyc w\<close> counts CPU cycles, \<open>c\<close> of them make a microsecond. Every call takes at least one cycle
  to read the time, no call turns time back, and no call lasts more than \<open>2 ^ 28\<close> microseconds.
\<close>

definition hal_clock :: "'w hal_ops \<Rightarrow> ('w \<Rightarrow> nat) \<Rightarrow> nat \<Rightarrow> bool" where
  "hal_clock ops cyc c \<longleftrightarrow> 0 < c \<and>
     (\<forall>w. case hal_current_time_us ops w of (t, w') \<Rightarrow>
        cyc w < cyc w' \<and> cyc w' \<le> cyc w + 2 ^ 28 * c \<and> t = of_nat (cyc w' div c)) \<and>
     (\<forall>p en w. cyc w \<le> cyc (snd (hal_chip_select ops p en w)) \<and>
        cyc (snd (hal_chip_select ops p en w)) \<le> cyc w + 2 ^ 28 * c) \<and>
     (\<forall>p bs w. cyc w \<le> cyc (snd (snd (hal_transceive ops p bs w))) \<and>
        cyc (snd (snd (hal_transceive ops p bs w))) \<le> cyc w + 2 ^ 28 * c) \<and>
     (\<forall>us w. cyc w \<le> cyc (hal_sleep_us ops us w) \<and>
        cyc (hal_sleep_us ops us w) \<le> cyc w + 2 ^ 28 * c)"

lemma hal_ok_transceive:
  assumes "hal_ok ops" and "hal_transceive ops p bs w = (rc, rs, w')"
  shows "rc \<le> 0" and "length rs \<le> length bs" and "rc = 0 \<Longrightarrow> length rs = length bs"
proof -
  have "case hal_transceive ops p bs w of (rc, rs, w') \<Rightarrow>
      rc \<le> TF_E_OK \<and> length rs \<le> length bs \<and> (rc = TF_E_OK \<longrightarrow> length rs = length bs)"
    using assms(1) by (simp add: hal_ok_def)
  then show "rc \<le> 0" "length rs \<le> length bs" "rc = 0 \<Longrightarrow> length rs = length bs"
    using assms(2) by (simp_all add: TF_E_OK_def)
qed

lemma hal_ok_chip_select: "hal_ok ops \<Longrightarrow> hal_chip_select ops p en w = (rc, w') \<Longrightarrow> rc \<le> 0"
  unfolding hal_ok_def TF_E_OK_def by (metis fst_conv)

text \<open>A HAL with an idle bus and a clock that counts one cycle per reading.\<close>

definition idle_hal :: "nat hal_ops" where
  "idle_hal = \<lparr>hal_chip_select = \<lambda>p en w. (0, w), hal_transceive = \<lambda>p bs w. (0, map (\<lambda>b. 0) bs, w),
     hal_current_time_us = \<lambda>w. (of_nat (w + 1), w + 1), hal_sleep_us = \<lambda>us w. w,
     hal_get_port_name = \<lambda>p. CHR ''A''\<rparr>"

lemma idle_hal_ok: "hal_ok idle_hal" "hal_clock idle_hal id 1"
  by (simp_all add: idle_hal_def hal_ok_def hal_clock_def TF_E_OK_def)

subsection \<open>Deadlines under wrap-around\<close>

text \<open>
  With \<open>t\<close> and \<open>d\<close> as true times in microseconds the wrapped comparison is right as long as the two
  are less than about 35 minutes apart.
\<close>

lemma deadline_passed_late:
  assumes "d \<le> t" and "t < d + (2 ^ 31 - 1)"
  shows "deadline_passed (of_nat t) (of_nat d)"
proof -
  have "of_nat t - of_nat d = (of_nat (t - d) :: u32)" using assms(1) by simp
  moreover have "unat (of_nat (t - d) :: u32) = t - d"
    using assms by (intro unat_of_nat_u32) simp
  ultimately have "unat (of_nat t - of_nat d :: u32) < 0x7FFFFFFF" using assms by simp
  then show ?thesis by (simp add: deadline_passed_def word_less_nat_alt)
qed

lemma deadline_passed_early:
  assumes "t < d" and "d \<le> t + (2 ^ 31 + 1)"
  shows "\<not> deadline_passed (of_nat t) (of_nat d)"
proof -
  let ?n = "2 ^ 32 - (d - t)"
  have "(of_nat (?n + d) :: u32) = of_nat (2 ^ 32 + t)" using assms by simp
  then have "(of_nat ?n :: u32) + of_nat d = of_nat t + of_nat (2 ^ 32)"
    by (simp only: of_nat_add add.commute)
  moreover have "(of_nat (2 ^ 32) :: u32) = 0" by simp
  ultimately have "(of_nat t - of_nat d :: u32) = of_nat ?n" by (metis add.right_neutral add_diff_cancel_right')
  moreover have "unat (of_nat ?n :: u32) = ?n" using assms by (intro unat_of_nat_u32) simp
  ultimately have "unat (of_nat t - of_nat d :: u32) = ?n" by (simp only:)
  then have "unat (of_nat t - of_nat d :: u32) \<ge> 0x7FFFFFFF" using assms by simp
  then show ?thesis by (simp add: deadline_passed_def word_less_nat_alt)
qed

text \<open>
  A deadline is reported as elapsed exactly when the current time has reached it, also
  across the overflow of the 32-bit microsecond counter, as long as the two true times are less than
  half the counter's range apart.
\<close>

lemma deadline_elapsed_exact:
  assumes "hal_current_time_us ops w = (of_nat t, w')"
    and "t < d + (2 ^ 31 - 1)" and "d \<le> t + (2 ^ 31 + 1)"
  shows "tf_hal_deadline_elapsed ops (of_nat d) w = (d \<le> t, w')"
  using assms deadline_passed_late [of d t] deadline_passed_early [of t d]
  by (cases "d \<le> t") (simp_all add: tf_hal_deadline_elapsed_def)

lemma u32_five: "(4294967301 :: u32) = 5"
  by simp

end
