(* ===== verification/Endian_Convert.thy ===== *)
theory Endian_Convert
  imports Prelude
begin

unbundle bit_operations_syntax

section \<open>Little endian conversion (endian_convert.c)\<close>

text \<open>
  All integers of the protocol are little endian on the wire. The C code converts between the
  host's representation and the wire through unions and byte pointers, so the model makes the
  object representation explicit: \<open>mem_bytes h\<close> is how a host of endianness \<open>h\<close> lays a word out
  in memory, \<open>of_mem h\<close> reads it back. Signed integers are their two's complement bit patterns and
  floats their 32-bit patterns, which is what the casts and unions of the source operate on. The
  locale \<open>byte_codec\<close> is the contract of a fixed width wire format; the word formats and the
  packet header interpret it.
\<close>

datatype endianness = Little_Endian | Big_Endian

subsection \<open>Object representations\<close>

definition le_bytes :: "nat \<Rightarrow> 'a::len word \<Rightarrow> byte list" where
  "le_bytes n w = map (\<lambda>i. ucast (drop_bit (8 * i) w)) [0..<n]"

primrec le_word :: "byte list \<Rightarrow> 'a::len word" where
  "le_word [] = 0"
| "le_word (b # bs) = ucast b OR push_bit 8 (le_word bs)"

fun mem_bytes :: "endianness \<Rightarrow> nat \<Rightarrow> 'a::len word \<Rightarrow> byte list" where
  "mem_bytes Little_Endian n w = le_bytes n w"
| "mem_bytes Big_Endian n w = rev (le_bytes n w)"

fun of_mem :: "endianness \<Rightarrow> byte list \<Rightarrow> 'a::len word" where
  "of_mem Little_Endian bs = le_word bs"
| "of_mem Big_Endian bs = le_word (rev bs)"

subsection \<open>Conversions to the wire\<close>

definition tf_leconvert_uint16_to :: "endianness \<Rightarrow> u16 \<Rightarrow> u16" where
  "tf_leconvert_uint16_to h native =
     of_mem h [ucast (drop_bit 0 native AND 0xFF), ucast (drop_bit 8 native AND 0xFF)]"

definition tf_leconvert_int16_to :: "endianness \<Rightarrow> u16 \<Rightarrow> u16" where
  "tf_leconvert_int16_to h native = tf_leconvert_uint16_to h native"

definition tf_leconvert_uint32_to :: "endianness \<Rightarrow> u32 \<Rightarrow> u32" where
  "tf_leconvert_uint32_to h native =
     of_mem h [ucast (drop_bit 0 native AND 0xFF), ucast (drop_bit 8 native AND 0xFF),
               ucast (drop_bit 16 native AND 0xFF), ucast (drop_bit 24 native AND 0xFF)]"

definition tf_leconvert_int32_to :: "endianness \<Rightarrow> u32 \<Rightarrow> u32" where
  "tf_leconvert_int32_to h native = tf_leconvert_uint32_to h native"

definition tf_leconvert_uint64_to :: "endianness \<Rightarrow> u64 \<Rightarrow> u64" where
  "tf_leconvert_uint64_to h native =
     of_mem h [ucast (drop_bit 0 native AND 0xFF), ucast (drop_bit 8 native AND 0xFF),
               ucast (drop_bit 16 native AND 0xFF), ucast (drop_bit 24 native AND 0xFF),
               ucast (drop_bit 32 native AND 0xFF), ucast (drop_bit 40 native AND 0xFF),
               ucast (drop_bit 48 native AND 0xFF), ucast (drop_bit 56 native AND 0xFF)]"

definition tf_leconvert_int64_to :: "endianness \<Rightarrow> u64 \<Rightarrow> u64" where
  "tf_leconvert_int64_to h native = tf_leconvert_uint64_to h native"

definition tf_leconvert_float_to :: "endianness \<Rightarrow> u32 \<Rightarrow> u32" where
  "tf_leconvert_float_to h native = tf_leconvert_uint32_to h native"

subsection \<open>Conversions from the wire\<close>

definition tf_leconvert_uint16_from :: "endianness \<Rightarrow> u16 \<Rightarrow> u16" where
  "tf_leconvert_uint16_from h little =
     (let bytes = mem_bytes h 2 little
      in push_bit 8 (ucast (bytes ! 1)) OR ucast (bytes ! 0))"

definition tf_leconvert_int16_from :: "endianness \<Rightarrow> u16 \<Rightarrow> u16" where
  "tf_leconvert_int16_from h little = tf_leconvert_uint16_from h little"

definition tf_leconvert_uint32_from :: "endianness \<Rightarrow> u32 \<Rightarrow> u32" where
  "tf_leconvert_uint32_from h little =
     (let bytes = mem_bytes h 4 little
      in push_bit 24 (ucast (bytes ! 3)) OR push_bit 16 (ucast (bytes ! 2)) OR
         push_bit 8 (ucast (bytes ! 1)) OR ucast (bytes ! 0))"

definition tf_leconvert_int32_from :: "endianness \<Rightarrow> u32 \<Rightarrow> u32" where
  "tf_leconvert_int32_from h little = tf_leconvert_uint32_from h little"

definition tf_leconvert_uint64_from :: "endianness \<Rightarrow> u64 \<Rightarrow> u64" where
  "tf_leconvert_uint64_from h little =
     (let bytes = mem_bytes h 8 little
      in push_bit 56 (ucast (bytes ! 7)) OR push_bit 48 (ucast (bytes ! 6)) OR
         push_bit 40 (ucast (bytes ! 5)) OR push_bit 32 (ucast (bytes ! 4)) OR
         push_bit 24 (ucast (bytes ! 3)) OR push_bit 16 (ucast (bytes ! 2)) OR
         push_bit 8 (ucast (bytes ! 1)) OR ucast (bytes ! 0))"

definition tf_leconvert_int64_from :: "endianness \<Rightarrow> u64 \<Rightarrow> u64" where
  "tf_leconvert_int64_from h little = tf_leconvert_uint64_from h little"

definition tf_leconvert_float_from :: "endianness \<Rightarrow> u32 \<Rightarrow> u32" where
  "tf_leconvert_float_from h little = tf_leconvert_uint32_from h little"

subsection \<open>Bits of the representations\<close>

lemma length_le_bytes [simp]: "length (le_bytes n w) = n"
  by (simp add: le_bytes_def)

lemma nth_le_bytes [simp]: "i < n \<Longrightarrow> le_bytes n w ! i = ucast (drop_bit (8 * i) w)"
  by (simp add: le_bytes_def)

lemma bit_le_word:
  "bit (le_word bs :: 'a::len word) k \<longleftrightarrow>
    k < LENGTH('a) \<and> k < 8 * length bs \<and> bit (bs ! (k div 8)) (k mod 8)"
proof (induction bs arbitrary: k)
  case (Cons b bs)
  show ?case
  proof (cases "k < 8")
    case True
    then show ?thesis
      by (simp add: bit_simps)
  next
    case False
    then have "k div 8 = Suc ((k - 8) div 8)" and "k mod 8 = (k - 8) mod 8"
      by (simp_all add: div_if mod_if)
    moreover have "\<not> bit b k" using False by (auto dest: bit_imp_le_length)
    ultimately show ?thesis
      using False by (auto simp: bit_simps Cons.IH)
  qed
qed simp

lemma le_word_le_bytes: "8 * n = LENGTH('a) \<Longrightarrow> le_word (le_bytes n w) = (w :: 'a::len word)"
  by (rule bit_word_eqI) (auto simp: bit_le_word bit_simps)

lemma le_bytes_le_word:
  assumes "length bs = n" and "8 * n \<le> LENGTH('a)"
  shows "le_bytes n (le_word bs :: 'a::len word) = bs"
proof (rule nth_equalityI)
  fix i assume i: "i < length (le_bytes n (le_word bs :: 'a word))"
  show "le_bytes n (le_word bs :: 'a word) ! i = bs ! i"
    using i assms by (intro bit_word_eqI) (auto simp: bit_simps bit_le_word)
qed (simp add: assms)

lemma length_mem_bytes [simp]: "length (mem_bytes h n w) = n"
  by (cases h) simp_all

lemma of_mem_mem_bytes: "8 * n = LENGTH('a) \<Longrightarrow> of_mem h (mem_bytes h n w) = (w :: 'a::len word)"
  by (cases h) (simp_all add: le_word_le_bytes)

lemma mem_bytes_of_mem:
  "length bs = n \<Longrightarrow> 8 * n \<le> LENGTH('a) \<Longrightarrow> mem_bytes h n (of_mem h bs :: 'a::len word) = bs"
  by (cases h) (simp_all add: le_bytes_le_word)

subsection \<open>The conversion functions in terms of the representations\<close>

lemma ucast_byte_mask: "(ucast (w AND 0xFF :: 'a::len word) :: byte) = ucast w"
proof -
  have "(0xFF :: 'a word) = mask 8" by (simp add: mask_eq_exp_minus_1)
  then have "w AND 0xFF = take_bit 8 w" by (simp only: take_bit_eq_mask)
  then show ?thesis
    by (intro bit_word_eqI) (auto simp: bit_simps dest: bit_imp_le_length)
qed

lemma leconvert_to_eq:
  "tf_leconvert_uint16_to h x = of_mem h (le_bytes 2 x)"
  "tf_leconvert_uint32_to h y = of_mem h (le_bytes 4 y)"
  "tf_leconvert_uint64_to h z = of_mem h (le_bytes 8 z)"
  by (simp_all add: tf_leconvert_uint16_to_def tf_leconvert_uint32_to_def
      tf_leconvert_uint64_to_def le_bytes_def ucast_byte_mask upt_rec numeral_eq_Suc
      del: drop_bit_eq_div)

lemma le_word_nth:
  "length bs = 2 \<Longrightarrow> (le_word bs :: u16) = push_bit 8 (ucast (bs ! 1)) OR ucast (bs ! 0)"
  "length bs = 4 \<Longrightarrow> (le_word bs :: u32) =
     push_bit 24 (ucast (bs ! 3)) OR push_bit 16 (ucast (bs ! 2)) OR
     push_bit 8 (ucast (bs ! 1)) OR ucast (bs ! 0)"
  "length bs = 8 \<Longrightarrow> (le_word bs :: u64) =
     push_bit 56 (ucast (bs ! 7)) OR push_bit 48 (ucast (bs ! 6)) OR
     push_bit 40 (ucast (bs ! 5)) OR push_bit 32 (ucast (bs ! 4)) OR
     push_bit 24 (ucast (bs ! 3)) OR push_bit 16 (ucast (bs ! 2)) OR
     push_bit 8 (ucast (bs ! 1)) OR ucast (bs ! 0)"
  by (auto simp: numeral_eq_Suc length_Suc_conv push_bit_or ac_simps)

lemma leconvert_from_eq:
  "tf_leconvert_uint16_from h x = le_word (mem_bytes h 2 x)"
  "tf_leconvert_uint32_from h y = le_word (mem_bytes h 4 y)"
  "tf_leconvert_uint64_from h z = le_word (mem_bytes h 8 z)"
  by (simp_all add: tf_leconvert_uint16_from_def tf_leconvert_uint32_from_def
      tf_leconvert_uint64_from_def le_word_nth Let_def del: le_word.simps)

lemmas leconvert_alias_defs =
  tf_leconvert_int16_to_def tf_leconvert_int32_to_def tf_leconvert_int64_to_def
  tf_leconvert_float_to_def tf_leconvert_int16_from_def tf_leconvert_int32_from_def
  tf_leconvert_int64_from_def tf_leconvert_float_from_def

text \<open>
  On a host of either endianness, converting a 16, 32 or 64-bit value to the wire lays
  its bytes out in memory least significant first, and converting back returns the value; the
  signed and floating point variants agree with them on the bit patterns.
\<close>

lemma leconvert_wire_format:
  fixes x :: u16 and y :: u32 and z :: u64
  shows "mem_bytes h 2 (tf_leconvert_uint16_to h x) = le_bytes 2 x \<and>
    mem_bytes h 4 (tf_leconvert_uint32_to h y) = le_bytes 4 y \<and>
    mem_bytes h 8 (tf_leconvert_uint64_to h z) = le_bytes 8 z \<and>
    tf_leconvert_uint16_from h (tf_leconvert_int16_to h x) = x \<and>
    tf_leconvert_int16_from h (tf_leconvert_uint16_to h x) = x \<and>
    tf_leconvert_uint32_from h (tf_leconvert_int32_to h y) = y \<and>
    tf_leconvert_int32_from h (tf_leconvert_uint32_to h y) = y \<and>
    tf_leconvert_float_from h (tf_leconvert_float_to h y) = y \<and>
    tf_leconvert_uint64_from h (tf_leconvert_int64_to h z) = z \<and>
    tf_leconvert_int64_from h (tf_leconvert_uint64_to h z) = z"
  by (simp add: leconvert_alias_defs leconvert_to_eq leconvert_from_eq mem_bytes_of_mem
      le_word_le_bytes)

subsection \<open>The contract of a fixed width wire format\<close>

locale byte_codec =
  fixes enc :: "'v \<Rightarrow> byte list" and dec :: "byte list \<Rightarrow> 'v"
    and width :: nat and valid :: "'v \<Rightarrow> bool"
  assumes length_enc: "valid v \<Longrightarrow> length (enc v) = width"
    and dec_enc: "valid v \<Longrightarrow> dec (enc v) = v"
begin

lemma enc_inject: "valid v \<Longrightarrow> valid w \<Longrightarrow> enc v = enc w \<longleftrightarrow> v = w"
  using dec_enc by metis

lemma dec_prefix: "valid v \<Longrightarrow> dec (take width (enc v @ rest)) = v"
  by (simp add: length_enc dec_enc)

lemma drop_enc: "valid v \<Longrightarrow> drop width (enc v @ rest) = rest"
  by (simp add: length_enc)

end

interpretation u16_codec: byte_codec "le_bytes 2 :: u16 \<Rightarrow> byte list" le_word 2 "\<lambda>_. True"
  by unfold_locales (simp_all add: le_word_le_bytes)

interpretation u32_codec: byte_codec "le_bytes 4 :: u32 \<Rightarrow> byte list" le_word 4 "\<lambda>_. True"
  by unfold_locales (simp_all add: le_word_le_bytes)

interpretation u64_codec: byte_codec "le_bytes 8 :: u64 \<Rightarrow> byte list" le_word 8 "\<lambda>_. True"
  by unfold_locales (simp_all add: le_word_le_bytes)

end
