(* ===== verification/Packet_Buffer.thy ===== *)
theory Packet_Buffer
  imports Endian_Convert
begin

unbundle bit_operations_syntax

section \<open>The receive ring buffer (packet_buffer.c)\<close>

text \<open>
  The SPITFP layer receives into a ring buffer of 84 bytes, of which 83 can be in use. The theory
  models every operation of the C file but the debug print, relates them to a list of bytes
  (\<open>pb_list\<close>), and shows that any sequence of operations behaves as a bounded first-in first-out
  queue. The contract is the locale \<open>byte_fifo\<close>. Indices are \<^verbatim>\<open>uint8_t\<close>; the conversions
  back to 8 bits are written where the source makes them.
\<close>

abbreviation (input) TF_PACKET_BUFFER_SIZE :: nat where "TF_PACKET_BUFFER_SIZE \<equiv> 84"

record TF_PacketBuffer =
  pb_start :: nat
  pb_end :: nat
  pb_buffer :: "byte list"

text \<open>The ESP32 cores are little endian.\<close>

definition target_endian :: endianness where
  "target_endian = Little_Endian"

subsection \<open>Basic operations\<close>

definition tf_packet_buffer_get_size :: "TF_PacketBuffer \<Rightarrow> nat" where
  "tf_packet_buffer_get_size pb = TF_PACKET_BUFFER_SIZE - 1"

definition tf_packet_buffer_get_used :: "TF_PacketBuffer \<Rightarrow> nat" where
  "tf_packet_buffer_get_used pb =
     (if pb_end pb < pb_start pb
      then u8_of_int (int (TF_PACKET_BUFFER_SIZE + pb_end pb) - int (pb_start pb))
      else u8_of_int (int (pb_end pb) - int (pb_start pb)))"

definition tf_packet_buffer_get_free :: "TF_PacketBuffer \<Rightarrow> nat" where
  "tf_packet_buffer_get_free pb =
     u8_of_int (int (tf_packet_buffer_get_size pb) - int (tf_packet_buffer_get_used pb))"

definition tf_packet_buffer_is_empty :: "TF_PacketBuffer \<Rightarrow> bool" where
  "tf_packet_buffer_is_empty pb = (tf_packet_buffer_get_used pb = 0)"

definition tf_packet_buffer_is_full :: "TF_PacketBuffer \<Rightarrow> bool" where
  "tf_packet_buffer_is_full pb = (tf_packet_buffer_get_free pb = 0)"

definition tf_packet_buffer_push :: "TF_PacketBuffer \<Rightarrow> byte \<Rightarrow> bool \<times> TF_PacketBuffer" where
  "tf_packet_buffer_push pb data =
     (let write_idx = pb_end pb;
          e1 = to_u8 (pb_end pb + 1);
          e2 = (if e1 \<ge> TF_PACKET_BUFFER_SIZE then 0 else e1)
      in if e2 = pb_start pb
         then (False, pb\<lparr>pb_end := (if e2 = 0 then TF_PACKET_BUFFER_SIZE - 1 else e2 - 1)\<rparr>)
         else (True, pb\<lparr>pb_end := e2, pb_buffer := (pb_buffer pb)[write_idx := data]\<rparr>))"

definition tf_packet_buffer_remove :: "TF_PacketBuffer \<Rightarrow> nat \<Rightarrow> TF_PacketBuffer" where
  "tf_packet_buffer_remove pb num =
     (let incr = min (tf_packet_buffer_get_used pb) num;
          s1 = to_u8 (pb_start pb + incr)
      in pb\<lparr>pb_start := (if s1 \<ge> TF_PACKET_BUFFER_SIZE then s1 - TF_PACKET_BUFFER_SIZE else s1)\<rparr>)"

definition tf_packet_buffer_peek :: "TF_PacketBuffer \<Rightarrow> bool \<times> byte" where
  "tf_packet_buffer_peek pb =
     (if tf_packet_buffer_is_empty pb then (False, 0) else (True, pb_buffer pb ! pb_start pb))"

definition tf_packet_buffer_pop :: "TF_PacketBuffer \<Rightarrow> bool \<times> byte \<times> TF_PacketBuffer" where
  "tf_packet_buffer_pop pb =
     (case tf_packet_buffer_peek pb of (ok, data) \<Rightarrow>
        if \<not> ok then (False, data, pb) else (True, data, tf_packet_buffer_remove pb 1))"

definition tf_packet_buffer_peek_offset :: "TF_PacketBuffer \<Rightarrow> nat \<Rightarrow> bool \<times> byte" where
  "tf_packet_buffer_peek_offset pb offset =
     (if tf_packet_buffer_get_used pb \<le> offset then (False, 0)
      else if pb_start pb + offset \<ge> TF_PACKET_BUFFER_SIZE
      then (True, pb_buffer pb ! (pb_start pb + offset - TF_PACKET_BUFFER_SIZE))
      else (True, pb_buffer pb ! (pb_start pb + offset)))"

definition tf_packet_buffer_poke :: "TF_PacketBuffer \<Rightarrow> byte \<Rightarrow> bool \<times> TF_PacketBuffer" where
  "tf_packet_buffer_poke pb data =
     (if tf_packet_buffer_is_empty pb then (False, pb)
      else (True, pb\<lparr>pb_buffer := (pb_buffer pb)[pb_start pb := data]\<rparr>))"

definition tf_packet_buffer_poke_offset ::
  "TF_PacketBuffer \<Rightarrow> byte \<Rightarrow> nat \<Rightarrow> bool \<times> TF_PacketBuffer" where
  "tf_packet_buffer_poke_offset pb data offset =
     (if tf_packet_buffer_get_used pb \<le> offset then (False, pb)
      else if pb_start pb + offset \<ge> TF_PACKET_BUFFER_SIZE
      then (True, pb\<lparr>pb_buffer :=
              (pb_buffer pb)[pb_start pb + offset - TF_PACKET_BUFFER_SIZE := data]\<rparr>)
      else (True, pb\<lparr>pb_buffer := (pb_buffer pb)[pb_start pb + offset := data]\<rparr>))"

definition tf_packet_buffer_create :: TF_PacketBuffer where
  "tf_packet_buffer_create =
     \<lparr>pb_start = 0, pb_end = 0, pb_buffer = replicate TF_PACKET_BUFFER_SIZE 0\<rparr>"

text \<open>
  The view hands out up to two chunks of the buffer and advances the end before they are filled.
  A chunk pointer is its offset into the buffer; \<open>None\<close> is the null pointer of a missing second
  chunk. The whole result is \<open>None\<close> when the C function returns false, leaving its out
  parameters unset.
\<close>

record array_view =
  first_chunk :: nat
  first_len :: nat
  second_chunk :: "nat option"
  second_len :: nat

definition tf_packet_buffer_free_array_view ::
  "TF_PacketBuffer \<Rightarrow> nat \<Rightarrow> (array_view \<times> TF_PacketBuffer) option" where
  "tf_packet_buffer_free_array_view pb len =
     (if len > tf_packet_buffer_get_free pb then None
      else if pb_end pb + len \<ge> TF_PACKET_BUFFER_SIZE
      then let fl = u8_of_int (int TF_PACKET_BUFFER_SIZE - int (pb_end pb));
               sl = u8_of_int (int len - int fl)
           in Some (\<lparr>first_chunk = pb_end pb, first_len = fl, second_chunk = Some 0,
                     second_len = sl\<rparr>, pb\<lparr>pb_end := sl\<rparr>)
      else Some (\<lparr>first_chunk = pb_end pb, first_len = len, second_chunk = None,
                  second_len = 0\<rparr>, pb\<lparr>pb_end := to_u8 (pb_end pb + len)\<rparr>))"

subsection \<open>Reading several bytes\<close>

primrec tf_packet_buffer_pop_n :: "TF_PacketBuffer \<Rightarrow> nat \<Rightarrow> byte list \<times> TF_PacketBuffer" where
  "tf_packet_buffer_pop_n pb 0 = ([], pb)"
| "tf_packet_buffer_pop_n pb (Suc count) =
     (case tf_packet_buffer_pop_n pb count of (dest, pb1) \<Rightarrow>
        case tf_packet_buffer_pop pb1 of (_, data, pb2) \<Rightarrow> (dest @ [data], pb2))"

definition tf_packet_buffer_peek_offset_n :: "TF_PacketBuffer \<Rightarrow> nat \<Rightarrow> nat \<Rightarrow> byte list" where
  "tf_packet_buffer_peek_offset_n pb count offset =
     map (\<lambda>i. snd (tf_packet_buffer_peek_offset pb (to_u8 (offset + i)))) [0..<count]"

subsection \<open>Typed reads\<close>

text \<open>
  A multi-byte read pops into the object representation of the result and converts it. Signed
  values and floats are bit patterns; a \<^verbatim>\<open>bool\<close> object is true when its byte is not 0.
\<close>

definition tf_packet_buffer_read_uint8_t :: "TF_PacketBuffer \<Rightarrow> byte \<times> TF_PacketBuffer" where
  "tf_packet_buffer_read_uint8_t pb =
     (case tf_packet_buffer_pop pb of (_, data, pb') \<Rightarrow> (data, pb'))"

definition tf_packet_buffer_read_int8_t :: "TF_PacketBuffer \<Rightarrow> byte \<times> TF_PacketBuffer" where
  "tf_packet_buffer_read_int8_t pb =
     (case tf_packet_buffer_pop pb of (_, data, pb') \<Rightarrow> (data, pb'))"

definition tf_packet_buffer_read_uint16_t :: "TF_PacketBuffer \<Rightarrow> u16 \<times> TF_PacketBuffer" where
  "tf_packet_buffer_read_uint16_t pb =
     (case tf_packet_buffer_pop_n pb 2 of (bs, pb') \<Rightarrow>
        (tf_leconvert_uint16_from target_endian (of_mem target_endian bs), pb'))"

definition tf_packet_buffer_read_uint32_t :: "TF_PacketBuffer \<Rightarrow> u32 \<times> TF_PacketBuffer" where
  "tf_packet_buffer_read_uint32_t pb =
     (case tf_packet_buffer_pop_n pb 4 of (bs, pb') \<Rightarrow>
        (tf_leconvert_uint32_from target_endian (of_mem target_endian bs), pb'))"

definition tf_packet_buffer_read_uint64_t :: "TF_PacketBuffer \<Rightarrow> u64 \<times> TF_PacketBuffer" where
  "tf_packet_buffer_read_uint64_t pb =
     (case tf_packet_buffer_pop_n pb 8 of (bs, pb') \<Rightarrow>
        (tf_leconvert_uint64_from target_endian (of_mem target_endian bs), pb'))"

definition tf_packet_buffer_read_int16_t :: "TF_PacketBuffer \<Rightarrow> u16 \<times> TF_PacketBuffer" where
  "tf_packet_buffer_read_int16_t pb =
     (case tf_packet_buffer_pop_n pb 2 of (bs, pb') \<Rightarrow>
        (tf_leconvert_int16_from target_endian (of_mem target_endian bs), pb'))"

definition tf_packet_buffer_read_int32_t :: "TF_PacketBuffer \<Rightarrow> u32 \<times> TF_PacketBuffer" where
  "tf_packet_buffer_read_int32_t pb =
     (case tf_packet_buffer_pop_n pb 4 of (bs, pb') \<Rightarrow>
        (tf_leconvert_int32_from target_endian (of_mem target_endian bs), pb'))"

definition tf_packet_buffer_read_int64_t :: "TF_PacketBuffer \<Rightarrow> u64 \<times> TF_PacketBuffer" where
  "tf_packet_buffer_read_int64_t pb =
     (case tf_packet_buffer_pop_n pb 8 of (bs, pb') \<Rightarrow>
        (tf_leconvert_int64_from target_endian (of_mem target_endian bs), pb'))"

definition tf_packet_buffer_read_char :: "TF_PacketBuffer \<Rightarrow> byte \<times> TF_PacketBuffer" where
  "tf_packet_buffer_read_char pb =
     (case tf_packet_buffer_pop_n pb 1 of (bs, pb') \<Rightarrow> (hd bs, pb'))"

definition tf_packet_buffer_read_float :: "TF_PacketBuffer \<Rightarrow> u32 \<times> TF_PacketBuffer" where
  "tf_packet_buffer_read_float pb =
     (case tf_packet_buffer_pop_n pb 4 of (bs, pb') \<Rightarrow>
        (tf_leconvert_float_from target_endian (of_mem target_endian bs), pb'))"

definition tf_packet_buffer_read_bool :: "TF_PacketBuffer \<Rightarrow> bool \<times> TF_PacketBuffer" where
  "tf_packet_buffer_read_bool pb =
     (case tf_packet_buffer_pop_n pb 1 of (bs, pb') \<Rightarrow> (hd bs \<noteq> 0, pb'))"

text \<open>
  Bit arrays hold eight flags per byte, least significant bit first. The loop carries the byte last
  read; \<open>i\<close> is the next index.
\<close>

fun read_bool_array_loop ::
  "TF_PacketBuffer \<Rightarrow> byte \<Rightarrow> nat \<Rightarrow> nat \<Rightarrow> bool list \<times> TF_PacketBuffer" where
  "read_bool_array_loop pb b i 0 = ([], pb)"
| "read_bool_array_loop pb b i (Suc n) =
     (let (b', pb') = (if i mod 8 = 0 then (case tf_packet_buffer_pop pb of (_, d, p) \<Rightarrow> (d, p))
                       else (b, pb));
          flag = (b' AND push_bit (i mod 8) 1 \<noteq> 0)
      in case read_bool_array_loop pb' b' (Suc i) n of (rest, pb'') \<Rightarrow> (flag # rest, pb''))"

definition tf_packet_buffer_read_bool_array ::
  "TF_PacketBuffer \<Rightarrow> nat \<Rightarrow> bool list \<times> TF_PacketBuffer" where
  "tf_packet_buffer_read_bool_array pb count = read_bool_array_loop pb 0 0 count"

subsection \<open>Typed peeks\<close>

definition tf_packet_buffer_peek_uint8_t :: "TF_PacketBuffer \<Rightarrow> nat \<Rightarrow> byte" where
  "tf_packet_buffer_peek_uint8_t pb offset = snd (tf_packet_buffer_peek_offset pb offset)"

definition tf_packet_buffer_peek_int8_t :: "TF_PacketBuffer \<Rightarrow> nat \<Rightarrow> byte" where
  "tf_packet_buffer_peek_int8_t pb offset = snd (tf_packet_buffer_peek_offset pb offset)"

definition tf_packet_buffer_peek_uint16_t :: "TF_PacketBuffer \<Rightarrow> nat \<Rightarrow> u16" where
  "tf_packet_buffer_peek_uint16_t pb offset =
     tf_leconvert_uint16_from target_endian
       (of_mem target_endian (tf_packet_buffer_peek_offset_n pb 2 offset))"

definition tf_packet_buffer_peek_uint32_t :: "TF_PacketBuffer \<Rightarrow> nat \<Rightarrow> u32" where
  "tf_packet_buffer_peek_uint32_t pb offset =
     tf_leconvert_uint32_from target_endian
       (of_mem target_endian (tf_packet_buffer_peek_offset_n pb 4 offset))"

definition tf_packet_buffer_peek_uint64_t :: "TF_PacketBuffer \<Rightarrow> nat \<Rightarrow> u64" where
  "tf_packet_buffer_peek_uint64_t pb offset =
     tf_leconvert_uint64_from target_endian
       (of_mem target_endian (tf_packet_buffer_peek_offset_n pb 8 offset))"

definition tf_packet_buffer_peek_int16_t :: "TF_PacketBuffer \<Rightarrow> nat \<Rightarrow> u16" where
  "tf_packet_buffer_peek_int16_t pb offset =
     tf_leconvert_int16_from target_endian
       (of_mem target_endian (tf_packet_buffer_peek_offset_n pb 2 offset))"

definition tf_packet_buffer_peek_int32_t :: "TF_PacketBuffer \<Rightarrow> nat \<Rightarrow> u32" where
  "tf_packet_buffer_peek_int32_t pb offset =
     tf_leconvert_int32_from target_endian
       (of_mem target_endian (tf_packet_buffer_peek_offset_n pb 4 offset))"

definition tf_packet_buffer_peek_int64_t :: "TF_PacketBuffer \<Rightarrow> nat \<Rightarrow> u64" where
  "tf_packet_buffer_peek_int64_t pb offset =
     tf_leconvert_int64_from target_endian
       (of_mem target_endian (tf_packet_buffer_peek_offset_n pb 8 offset))"

definition tf_packet_buffer_peek_char :: "TF_PacketBuffer \<Rightarrow> nat \<Rightarrow> byte" where
  "tf_packet_buffer_peek_char pb offset = hd (tf_packet_buffer_peek_offset_n pb 1 offset)"

definition tf_packet_buffer_peek_float :: "TF_PacketBuffer \<Rightarrow> nat \<Rightarrow> u32" where
  "tf_packet_buffer_peek_float pb offset =
     tf_leconvert_float_from target_endian
       (of_mem target_endian (tf_packet_buffer_peek_offset_n pb 4 offset))"

definition tf_packet_buffer_peek_bool :: "TF_PacketBuffer \<Rightarrow> nat \<Rightarrow> bool" where
  "tf_packet_buffer_peek_bool pb offset = (hd (tf_packet_buffer_peek_offset_n pb 1 offset) \<noteq> 0)"

fun peek_bool_array_loop :: "TF_PacketBuffer \<Rightarrow> nat \<Rightarrow> byte \<Rightarrow> nat \<Rightarrow> nat \<Rightarrow> bool list" where
  "peek_bool_array_loop pb offset b i 0 = []"
| "peek_bool_array_loop pb offset b i (Suc n) =
     (let b' = (if i mod 8 = 0 then snd (tf_packet_buffer_peek_offset pb offset) else b)
      in (b' AND push_bit (i mod 8) 1 \<noteq> 0) # peek_bool_array_loop pb offset b' (Suc i) n)"

definition tf_packet_buffer_peek_bool_array :: "TF_PacketBuffer \<Rightarrow> nat \<Rightarrow> nat \<Rightarrow> bool list" where
  "tf_packet_buffer_peek_bool_array pb count offset = peek_bool_array_loop pb offset 0 0 count"

subsection \<open>Invariant and abstraction\<close>

definition pb_inv :: "TF_PacketBuffer \<Rightarrow> bool" where
  "pb_inv pb \<longleftrightarrow> length (pb_buffer pb) = TF_PACKET_BUFFER_SIZE \<and>
     pb_start pb < TF_PACKET_BUFFER_SIZE \<and> pb_end pb < TF_PACKET_BUFFER_SIZE"

definition pb_list :: "TF_PacketBuffer \<Rightarrow> byte list" where
  "pb_list pb = map (\<lambda>i. pb_buffer pb ! ((pb_start pb + i) mod TF_PACKET_BUFFER_SIZE))
     [0..<tf_packet_buffer_get_used pb]"

lemma get_used_eq:
  "pb_inv pb \<Longrightarrow> tf_packet_buffer_get_used pb =
    (if pb_end pb < pb_start pb then 84 + pb_end pb - pb_start pb else pb_end pb - pb_start pb)"
  by (auto simp: pb_inv_def tf_packet_buffer_get_used_def u8_of_int_small)

lemma length_pb_list [simp]: "length (pb_list pb) = tf_packet_buffer_get_used pb"
  by (simp add: pb_list_def)

lemma get_used_le: "pb_inv pb \<Longrightarrow> tf_packet_buffer_get_used pb \<le> 83"
  by (auto simp: get_used_eq pb_inv_def)

lemma nth_pb_list:
  "i < tf_packet_buffer_get_used pb \<Longrightarrow>
    pb_list pb ! i = pb_buffer pb ! ((pb_start pb + i) mod 84)"
  by (simp add: pb_list_def)

lemma pb_list_eqI:
  assumes "tf_packet_buffer_get_used pb = length xs"
    and "\<And>i. i < length xs \<Longrightarrow> pb_buffer pb ! ((pb_start pb + i) mod 84) = xs ! i"
  shows "pb_list pb = xs"
  using assms by (intro nth_equalityI) (simp_all add: nth_pb_list)

subsection \<open>The operations on the abstract list\<close>

lemma get_free_eq [pb_simps]:
  "pb_inv pb \<Longrightarrow> tf_packet_buffer_get_free pb = 83 - length (pb_list pb)"
  using get_used_le [of pb]
  by (auto simp: tf_packet_buffer_get_free_def tf_packet_buffer_get_size_def u8_of_int_small)

lemma is_empty_eq [pb_simps]: "tf_packet_buffer_is_empty pb \<longleftrightarrow> pb_list pb = []"
  by (simp add: tf_packet_buffer_is_empty_def flip: length_0_conv)

lemma pb_inv_create [pb_intros]: "pb_inv tf_packet_buffer_create"
  by (simp add: pb_inv_def tf_packet_buffer_create_def)

lemma pb_list_create [pb_simps]: "pb_list tf_packet_buffer_create = []"
  by (simp add: pb_list_def tf_packet_buffer_get_used_def tf_packet_buffer_create_def u8_of_int_def)

lemma pb_inv_remove [pb_intros]: "pb_inv pb \<Longrightarrow> pb_inv (tf_packet_buffer_remove pb n)"
  using get_used_le [of pb] by (auto simp: pb_inv_def tf_packet_buffer_remove_def Let_def)

lemma get_used_remove:
  assumes "pb_inv pb"
  shows "tf_packet_buffer_get_used (tf_packet_buffer_remove pb n) = tf_packet_buffer_get_used pb - n"
proof -
  have "pb_inv (tf_packet_buffer_remove pb n)" using assms by (rule pb_inv_remove)
  then show ?thesis
    using assms get_used_le [OF assms]
    by (auto simp: get_used_eq tf_packet_buffer_remove_def Let_def pb_inv_def min_def)
qed

lemma pb_list_remove [pb_simps]:
  assumes "pb_inv pb"
  shows "pb_list (tf_packet_buffer_remove pb n) = drop n (pb_list pb)"
proof (rule pb_list_eqI)
  show "tf_packet_buffer_get_used (tf_packet_buffer_remove pb n) = length (drop n (pb_list pb))"
    using assms by (simp add: get_used_remove)
  fix i assume i: "i < length (drop n (pb_list pb))"
  then have n: "n + i < tf_packet_buffer_get_used pb" by simp
  have "(pb_start (tf_packet_buffer_remove pb n) + i) mod 84 = (pb_start pb + (n + i)) mod 84"
    using n get_used_le [OF assms] assms
    by (auto simp: tf_packet_buffer_remove_def Let_def min_def pb_inv_def mod_if)
  then show "pb_buffer (tf_packet_buffer_remove pb n) !
      ((pb_start (tf_packet_buffer_remove pb n) + i) mod 84) = drop n (pb_list pb) ! i"
    using n by (simp add: nth_pb_list tf_packet_buffer_remove_def Let_def)
qed

lemma peek_offset_eq [pb_simps]:
  "pb_inv pb \<Longrightarrow> tf_packet_buffer_peek_offset pb offset =
    (if offset < length (pb_list pb) then (True, pb_list pb ! offset) else (False, 0))"
  using get_used_le [of pb]
  by (auto simp: tf_packet_buffer_peek_offset_def nth_pb_list pb_inv_def mod_if)

lemma peek_eq [pb_simps]:
  "pb_inv pb \<Longrightarrow> tf_packet_buffer_peek pb =
    (case pb_list pb of [] \<Rightarrow> (False, 0) | x # _ \<Rightarrow> (True, x))"
  using nth_pb_list [of 0 pb]
  by (auto simp: tf_packet_buffer_peek_def is_empty_eq pb_inv_def split: list.splits
      simp flip: length_pb_list)

lemma pop_eq [pb_simps]:
  "pb_inv pb \<Longrightarrow> tf_packet_buffer_pop pb =
    (case pb_list pb of [] \<Rightarrow> (False, 0, pb) | x # _ \<Rightarrow> (True, x, tf_packet_buffer_remove pb 1))"
  by (simp add: tf_packet_buffer_pop_def peek_eq split: list.splits)

lemma ring_index_inj:
  fixes i j s :: nat
  assumes "i < 84" and "j < 84"
  shows "(s + i) mod 84 = (s + j) mod 84 \<longleftrightarrow> i = j"
proof -
  have "i = j" if "i < 84" "j < 84" "i \<le> j" "(s + j) mod 84 = (s + i) mod 84" for i j
  proof -
    have "84 dvd j - i" using that(3,4) mod_eq_dvd_iff_nat [of "s + i" "s + j" 84] by simp
    then show ?thesis using that by (auto dest: dvd_imp_le)
  qed
  then show ?thesis using assms by (metis linear)
qed

lemma ring_index_end:
  "pb_inv pb \<Longrightarrow> (pb_start pb + tf_packet_buffer_get_used pb) mod 84 = pb_end pb"
  by (auto simp: pb_inv_def get_used_eq mod_if)

lemma push_effect:
  assumes "pb_inv pb"
  shows "tf_packet_buffer_push pb b = (False, pb) \<and> length (pb_list pb) = 83 \<or>
    (\<exists>pb'. tf_packet_buffer_push pb b = (True, pb') \<and> pb_inv pb' \<and>
       length (pb_list pb) < 83 \<and> pb_list pb' = pb_list pb @ [b])"
proof -
  let ?e = "if pb_end pb + 1 = 84 then 0 else pb_end pb + 1"
  show ?thesis
  proof (cases "?e = pb_start pb")
    case True
    then show ?thesis
      using assms by (auto simp: tf_packet_buffer_push_def Let_def pb_inv_def get_used_eq split: if_splits)
  next
    case False
    define pb' where "pb' = pb\<lparr>pb_end := ?e, pb_buffer := (pb_buffer pb)[pb_end pb := b]\<rparr>"
    have inv: "pb_inv pb'" using assms by (auto simp: pb'_def pb_inv_def)
    have used: "tf_packet_buffer_get_used pb' = Suc (tf_packet_buffer_get_used pb)"
      using assms inv False by (auto simp: get_used_eq pb_inv_def pb'_def)
    have "pb_list pb' = pb_list pb @ [b]"
    proof (rule pb_list_eqI)
      fix i assume "i < length (pb_list pb @ [b])"
      then have "i \<le> tf_packet_buffer_get_used pb" by simp
      moreover from this have "(pb_start pb + i) mod 84 = pb_end pb \<longleftrightarrow> i = tf_packet_buffer_get_used pb"
        using ring_index_inj [of i "tf_packet_buffer_get_used pb" "pb_start pb"]
          get_used_le [OF assms] ring_index_end [OF assms] by simp
      ultimately show "pb_buffer pb' ! ((pb_start pb' + i) mod 84) = (pb_list pb @ [b]) ! i"
        using assms by (auto simp: pb'_def nth_append nth_pb_list pb_inv_def)
    qed (simp add: used)
    moreover have "tf_packet_buffer_push pb b = (True, pb')"
      using assms False by (auto simp: tf_packet_buffer_push_def pb'_def Let_def pb_inv_def)
    ultimately show ?thesis using inv used get_used_le [OF inv] by simp
  qed
qed

lemma push_eq [pb_simps]:
  assumes "pb_inv pb"
  shows "fst (tf_packet_buffer_push pb b) \<longleftrightarrow> length (pb_list pb) < 83"
    and "pb_list (snd (tf_packet_buffer_push pb b)) =
      (if length (pb_list pb) < 83 then pb_list pb @ [b] else pb_list pb)"
  using push_effect [OF assms, of b] by auto

lemma pb_inv_push [pb_intros]: "pb_inv pb \<Longrightarrow> pb_inv (snd (tf_packet_buffer_push pb b))"
  using push_effect [of pb b] by auto

lemma ring_write:
  fixes b :: byte
  assumes "pb_inv pb" and "k < tf_packet_buffer_get_used pb"
  defines "pb' \<equiv> pb\<lparr>pb_buffer := (pb_buffer pb)[(pb_start pb + k) mod 84 := b]\<rparr>"
  shows "pb_inv pb'" and "pb_list pb' = (pb_list pb)[k := b]"
proof -
  show "pb_inv pb'" using assms(1) by (simp add: pb'_def pb_inv_def)
  have used: "tf_packet_buffer_get_used pb' = tf_packet_buffer_get_used pb"
    by (simp add: pb'_def tf_packet_buffer_get_used_def)
  show "pb_list pb' = (pb_list pb)[k := b]"
  proof (rule pb_list_eqI)
    fix i assume "i < length ((pb_list pb)[k := b])"
    then have i: "i < tf_packet_buffer_get_used pb" by simp
    then have "(pb_start pb + k) mod 84 = (pb_start pb + i) mod 84 \<longleftrightarrow> k = i"
      using ring_index_inj [of k i "pb_start pb"] assms(2) get_used_le [OF assms(1)] by simp
    then show "pb_buffer pb' ! ((pb_start pb' + i) mod 84) = (pb_list pb)[k := b] ! i"
      using assms(1) i by (simp add: pb'_def nth_list_update nth_pb_list pb_inv_def)
  qed (simp add: used)
qed

lemma poke_offset_effect:
  assumes "pb_inv pb"
  shows "fst (tf_packet_buffer_poke_offset pb b k) \<longleftrightarrow> k < length (pb_list pb)"
    and "pb_inv (snd (tf_packet_buffer_poke_offset pb b k))"
    and "pb_list (snd (tf_packet_buffer_poke_offset pb b k)) = (pb_list pb)[k := b]"
proof -
  have idx: "(pb_start pb + k) mod 84 =
      (if pb_start pb + k \<ge> 84 then pb_start pb + k - 84 else pb_start pb + k)"
    if "k < tf_packet_buffer_get_used pb"
    using that get_used_le [OF assms] assms by (auto simp: pb_inv_def mod_if)
  show "fst (tf_packet_buffer_poke_offset pb b k) \<longleftrightarrow> k < length (pb_list pb)"
    by (auto simp: tf_packet_buffer_poke_offset_def)
  show "pb_inv (snd (tf_packet_buffer_poke_offset pb b k))"
    using assms by (auto simp: tf_packet_buffer_poke_offset_def pb_inv_def)
  show "pb_list (snd (tf_packet_buffer_poke_offset pb b k)) = (pb_list pb)[k := b]"
  proof (cases "k < tf_packet_buffer_get_used pb")
    case True
    then have "snd (tf_packet_buffer_poke_offset pb b k) =
        pb\<lparr>pb_buffer := (pb_buffer pb)[(pb_start pb + k) mod 84 := b]\<rparr>"
      using idx by (simp add: tf_packet_buffer_poke_offset_def)
    then show ?thesis using ring_write(2) [OF assms True] by simp
  qed (simp add: tf_packet_buffer_poke_offset_def list_update_beyond)
qed

lemma poke_eq_poke_offset:
  "pb_inv pb \<Longrightarrow> tf_packet_buffer_poke pb b = tf_packet_buffer_poke_offset pb b 0"
  by (auto simp: tf_packet_buffer_poke_def tf_packet_buffer_poke_offset_def
      tf_packet_buffer_is_empty_def pb_inv_def)

lemmas poke_offset_list [pb_simps] = poke_offset_effect(1,3)
lemmas pb_inv_poke_offset [pb_intros] = poke_offset_effect(2)

subsection \<open>Receiving into the free space\<close>

text \<open>Bytes that the HAL stores through a chunk pointer of the view.\<close>

definition pb_write :: "TF_PacketBuffer \<Rightarrow> nat \<Rightarrow> byte list \<Rightarrow> TF_PacketBuffer" where
  "pb_write pb off bs = pb\<lparr>pb_buffer := write_at off bs (pb_buffer pb)\<rparr>"

lemma free_array_view_Some:
  assumes "pb_inv pb" and "len \<le> tf_packet_buffer_get_free pb"
  obtains v pb1 where "tf_packet_buffer_free_array_view pb len = Some (v, pb1)"
    and "first_chunk v = pb_end pb" and "first_len v + second_len v = len"
    and "first_chunk v + first_len v \<le> 84" and "second_len v \<le> pb_end pb"
    and "second_chunk v = (if pb_end pb + len \<ge> 84 then Some 0 else None)"
    and "second_chunk v = None \<Longrightarrow> second_len v = 0"
    and "second_chunk v = Some 0 \<Longrightarrow> first_chunk v + first_len v = 84"
    and "pb1 = pb\<lparr>pb_end := (pb_end pb + len) mod 84\<rparr>"
proof -
  have len: "len \<le> 83" "len + tf_packet_buffer_get_used pb \<le> 83"
    using assms get_used_le [OF assms(1)] by (simp_all add: get_free_eq)
  show ?thesis
  proof (cases "pb_end pb + len \<ge> 84")
    case True
    let ?fl = "84 - pb_end pb"
    have "u8_of_int (84 - int (pb_end pb)) = ?fl"
      and "u8_of_int (int len - (84 - int (pb_end pb))) = pb_end pb + len - 84"
      using True len assms(1) by (auto simp: u8_of_int_small pb_inv_def)
    then have "tf_packet_buffer_free_array_view pb len =
        Some (\<lparr>first_chunk = pb_end pb, first_len = ?fl, second_chunk = Some 0,
               second_len = len - ?fl\<rparr>, pb\<lparr>pb_end := (pb_end pb + len) mod 84\<rparr>)"
      using True assms len by (auto simp: tf_packet_buffer_free_array_view_def Let_def pb_inv_def mod_if)
    then show ?thesis
      by (rule that) (use True assms(1) len in \<open>auto simp: pb_inv_def\<close>)
  next
    case False
    then have "tf_packet_buffer_free_array_view pb len =
        Some (\<lparr>first_chunk = pb_end pb, first_len = len, second_chunk = None, second_len = 0\<rparr>,
          pb\<lparr>pb_end := (pb_end pb + len) mod 84\<rparr>)"
      using assms by (auto simp: tf_packet_buffer_free_array_view_def Let_def pb_inv_def)
    then show ?thesis
      by (rule that) (use False assms(1) in \<open>auto simp: pb_inv_def\<close>)
  qed
qed

lemma two_chunk_write:
  fixes buf :: "'a list"
  assumes "length buf = 84" and "e < 84" and "e + length xs \<le> 84" and "length ys \<le> e"
    and "ys = [] \<or> e + length xs = 84"
  defines "buf' \<equiv> write_at 0 ys (write_at e xs buf)"
  shows "j < length xs + length ys \<Longrightarrow> buf' ! ((e + j) mod 84) = (xs @ ys) ! j"
    and "k < 84 \<Longrightarrow> \<forall>j < length xs + length ys. k \<noteq> (e + j) mod 84 \<Longrightarrow> buf' ! k = buf ! k"
proof -
  have nth: "buf' ! k = (if k < length ys then ys ! k
      else if e \<le> k \<and> k < e + length xs then xs ! (k - e) else buf ! k)" if "k < 84" for k
    using assms that by (auto simp: nth_write_at)
  show "buf' ! ((e + j) mod 84) = (xs @ ys) ! j" if "j < length xs + length ys"
  proof (cases "j < length xs")
    case True
    then show ?thesis using assms nth [of "e + j"] by (simp add: nth_append)
  next
    case False
    then have "(e + j) mod 84 = j - length xs" using that assms by (auto simp: mod_if)
    moreover have "j - length xs < length ys" using False that by linarith
    ultimately show ?thesis
      using False assms(2,4) nth [of "j - length xs"] by (simp add: nth_append)
  qed
  show "buf' ! k = buf ! k" if k: "k < 84" and free: "\<forall>j < length xs + length ys. k \<noteq> (e + j) mod 84"
  proof -
    have "\<not> k < length ys"
    proof
      assume "k < length ys"
      then have "e + length xs = 84" using assms(5) by auto
      then have "e + (length xs + k) = k + 84" by simp
      then have "k = (e + (length xs + k)) mod 84" using k by (metis mod_add_self2 mod_less)
      with \<open>k < length ys\<close> free show False by (metis nat_add_left_cancel_less)
    qed
    moreover have "\<not> (e \<le> k \<and> k < e + length xs)"
      using free k by (metis add_diff_inverse_nat linorder_not_less mod_less nat_add_left_cancel_less
          trans_less_add1)
    ultimately show ?thesis using nth [OF k] by auto
  qed
qed

text \<open>
  After both chunks have been filled the buffer holds exactly the new bytes behind the old ones.
\<close>

lemma free_array_view_fill:
  assumes "pb_inv pb" and "len \<le> tf_packet_buffer_get_free pb"
    and "tf_packet_buffer_free_array_view pb len = Some (v, pb1)"
    and "length xs = first_len v" and "length ys = second_len v"
  defines "pb2 \<equiv> pb_write (pb_write pb1 (first_chunk v) xs) 0 ys"
  shows "pb_inv pb2" and "pb_list pb2 = pb_list pb @ xs @ ys"
proof -
  obtain v' pb1' where view: "tf_packet_buffer_free_array_view pb len = Some (v', pb1')"
    and v: "first_chunk v' = pb_end pb" "first_len v' + second_len v' = len"
      "first_chunk v' + first_len v' \<le> 84" "second_len v' \<le> pb_end pb"
      "second_chunk v' = (if pb_end pb + len \<ge> 84 then Some 0 else None)"
      "second_chunk v' = None \<Longrightarrow> second_len v' = 0"
      "second_chunk v' = Some 0 \<Longrightarrow> first_chunk v' + first_len v' = 84"
    and pb1: "pb1' = pb\<lparr>pb_end := (pb_end pb + len) mod 84\<rparr>"
    using free_array_view_Some [OF assms(1,2)] by metis
  have [simp]: "v' = v" "pb1' = pb1" using view assms(3) by simp_all
  have len: "len + tf_packet_buffer_get_used pb \<le> 83"
    using assms(2) get_used_le [OF assms(1)] by (simp add: get_free_eq [OF assms(1)])
  have buf: "length (pb_buffer pb) = 84" "pb_start pb < 84" "pb_end pb < 84"
    using assms(1) by (simp_all add: pb_inv_def)
  have fit: "pb_end pb + length xs \<le> 84" "length ys \<le> pb_end pb"
    using v assms(4,5) by simp_all
  let ?b1 = "write_at (pb_end pb) xs (pb_buffer pb)"
  have b1: "length ?b1 = 84" using fit buf by simp
  have pb2: "pb2 = pb\<lparr>pb_end := (pb_end pb + len) mod 84, pb_buffer := write_at 0 ys ?b1\<rparr>"
    using pb1 v(1) by (simp add: pb2_def pb_write_def)
  show inv: "pb_inv pb2"
    using buf b1 fit by (simp add: pb2 pb_inv_def)
  have used: "tf_packet_buffer_get_used pb2 = tf_packet_buffer_get_used pb + len"
    using get_used_eq [OF inv] get_used_eq [OF assms(1)] len buf
    by (auto simp: pb2 mod_if split: if_splits)
  show "pb_list pb2 = pb_list pb @ xs @ ys"
  proof (rule pb_list_eqI)
    show "tf_packet_buffer_get_used pb2 = length (pb_list pb @ xs @ ys)"
      using used v assms(4,5) by simp
    fix i assume "i < length (pb_list pb @ xs @ ys)"
    then have i: "i < tf_packet_buffer_get_used pb + len" using v assms(4,5) by simp
    have ys: "ys = [] \<or> pb_end pb + length xs = 84" using v assms(4,5) by (auto split: if_splits)
    note wr = two_chunk_write [OF buf(1,3) fit ys]
    let ?u = "tf_packet_buffer_get_used pb"
    have e: "(pb_end pb + j) mod 84 = (pb_start pb + (?u + j)) mod 84" for j
      by (metis ring_index_end [OF assms(1)] mod_add_left_eq add.assoc)
    show "pb_buffer pb2 ! ((pb_start pb2 + i) mod 84) = (pb_list pb @ xs @ ys) ! i"
    proof (cases "i < ?u")
      case True
      have "\<forall>j < length xs + length ys. (pb_start pb + i) mod 84 \<noteq> (pb_end pb + j) mod 84"
        using True len v assms(4,5) ring_index_inj [of i _ "pb_start pb"] by (auto simp: e)
      then show ?thesis using True wr(2) by (simp add: pb2 nth_append nth_pb_list)
    next
      case False
      then obtain j where "i = ?u + j" by (metis le_Suc_ex not_less)
      then show ?thesis
        using i v assms(4,5) wr(1) [of j] by (simp add: pb2 nth_append_right e)
    qed
  qed
qed

subsection \<open>Reads on the abstract list\<close>

lemma pop_effect:
  assumes "pb_inv pb"
  shows "tf_packet_buffer_pop pb =
    (pb_list pb \<noteq> [], if pb_list pb = [] then 0 else hd (pb_list pb), tf_packet_buffer_remove pb 1)"
proof (cases "pb_list pb")
  case Nil
  then have "tf_packet_buffer_get_used pb = 0" by (simp flip: length_pb_list)
  then have "tf_packet_buffer_remove pb 1 = pb"
    using assms by (simp add: tf_packet_buffer_remove_def pb_inv_def Let_def)
  with Nil assms show ?thesis by (simp add: pop_eq)
qed (simp add: pop_eq assms)

lemma pop_n_effect:
  assumes "pb_inv pb" and "n \<le> length (pb_list pb)"
  shows "fst (tf_packet_buffer_pop_n pb n) = take n (pb_list pb) \<and>
    pb_inv (snd (tf_packet_buffer_pop_n pb n)) \<and>
    pb_list (snd (tf_packet_buffer_pop_n pb n)) = drop n (pb_list pb)"
  using assms(2)
proof (induction n)
  case (Suc n)
  then obtain dest pb1 where pb1: "tf_packet_buffer_pop_n pb n = (dest, pb1)"
    and IH: "dest = take n (pb_list pb)" "pb_inv pb1" "pb_list pb1 = drop n (pb_list pb)"
    by (cases "tf_packet_buffer_pop_n pb n") auto
  have "pb_list pb1 \<noteq> []" "hd (pb_list pb1) = pb_list pb ! n"
    using Suc.prems IH(3) by (simp_all add: hd_drop_conv_nth)
  then show ?case
    using IH pb1 Suc.prems
    by (simp add: pop_effect pb_inv_remove pb_list_remove take_Suc_conv_app_nth)
qed (simp add: assms(1))

lemmas pop_n_list [pb_simps] =
  pop_n_effect [THEN conjunct1] pop_n_effect [THEN conjunct2, THEN conjunct2]

lemma pb_inv_pop_n [pb_intros]: "pb_inv pb \<Longrightarrow> pb_inv (snd (tf_packet_buffer_pop_n pb n))"
  by (induction n) (auto simp: pop_effect pb_inv_remove split: prod.splits)

lemma peek_offset_n_eq [pb_simps]:
  assumes "pb_inv pb" and "offset + count \<le> length (pb_list pb)"
  shows "tf_packet_buffer_peek_offset_n pb count offset = take count (drop offset (pb_list pb))"
proof (rule nth_equalityI)
  fix i assume "i < length (tf_packet_buffer_peek_offset_n pb count offset)"
  then show "tf_packet_buffer_peek_offset_n pb count offset ! i = take count (drop offset (pb_list pb)) ! i"
    using assms get_used_le [OF assms(1)]
    by (simp add: tf_packet_buffer_peek_offset_n_def peek_offset_eq)
qed (use assms in \<open>simp add: tf_packet_buffer_peek_offset_n_def\<close>)

lemma from_memory:
  "length bs = 2 \<Longrightarrow> tf_leconvert_uint16_from h (of_mem h bs) = le_word bs"
  "length bs = 4 \<Longrightarrow> tf_leconvert_uint32_from h (of_mem h bs) = le_word bs"
  "length bs = 8 \<Longrightarrow> tf_leconvert_uint64_from h (of_mem h bs) = le_word bs"
  by (simp_all add: leconvert_from_eq mem_bytes_of_mem)

lemmas read_defs =
  tf_packet_buffer_read_uint8_t_def tf_packet_buffer_read_int8_t_def
  tf_packet_buffer_read_uint16_t_def tf_packet_buffer_read_uint32_t_def
  tf_packet_buffer_read_uint64_t_def tf_packet_buffer_read_int16_t_def
  tf_packet_buffer_read_int32_t_def tf_packet_buffer_read_int64_t_def
  tf_packet_buffer_read_char_def tf_packet_buffer_read_float_def tf_packet_buffer_read_bool_def

lemma read_uint8_effect:
  assumes "pb_inv pb" and "pb_list pb = b # bs"
  obtains pb' where "tf_packet_buffer_read_uint8_t pb = (b, pb')" and "pb_inv pb'" and "pb_list pb' = bs"
  using assms by (auto simp: tf_packet_buffer_read_uint8_t_def pop_effect pb_inv_remove pb_list_remove)

lemma read_uint32_effect:
  assumes "pb_inv pb" and "pb_list pb = xs @ ys" and "length xs = 4"
  obtains pb' where "tf_packet_buffer_read_uint32_t pb = (le_word xs, pb')" and "pb_inv pb'"
    and "pb_list pb' = ys"
proof -
  obtain bs pb' where pop: "tf_packet_buffer_pop_n pb 4 = (bs, pb')" by fastforce
  have "4 \<le> length (pb_list pb)" using assms by simp
  then have "bs = xs" "pb_inv pb'" "pb_list pb' = ys"
    using pop_n_effect [OF assms(1), of 4] assms pop by simp_all
  then show ?thesis
    using that pop assms(3) by (simp add: tf_packet_buffer_read_uint32_t_def from_memory)
qed

lemma read_words_effect:
  assumes "pb_inv pb" and "pb_list pb = bs @ ys"
  shows "length bs = 2 \<Longrightarrow> \<exists>pb'. tf_packet_buffer_read_uint16_t pb = (le_word bs, pb') \<and>
      tf_packet_buffer_read_int16_t pb = (le_word bs, pb') \<and> pb_inv pb' \<and> pb_list pb' = ys"
    and "length bs = 4 \<Longrightarrow> \<exists>pb'. tf_packet_buffer_read_uint32_t pb = (le_word bs, pb') \<and>
      tf_packet_buffer_read_int32_t pb = (le_word bs, pb') \<and>
      tf_packet_buffer_read_float pb = (le_word bs, pb') \<and> pb_inv pb' \<and> pb_list pb' = ys"
    and "length bs = 8 \<Longrightarrow> \<exists>pb'. tf_packet_buffer_read_uint64_t pb = (le_word bs, pb') \<and>
      tf_packet_buffer_read_int64_t pb = (le_word bs, pb') \<and> pb_inv pb' \<and> pb_list pb' = ys"
proof -
  have pop: "tf_packet_buffer_pop_n pb (length bs) = (bs, snd (tf_packet_buffer_pop_n pb (length bs)))"
    and rest: "pb_list (snd (tf_packet_buffer_pop_n pb (length bs))) = ys"
    using pop_n_effect [OF assms(1), of "length bs"] assms(2)
    by (simp_all add: prod_eq_iff)
  note inv = pb_inv_pop_n [OF assms(1), of "length bs"]
  note unf = read_defs leconvert_alias_defs from_memory
  show "\<exists>pb'. tf_packet_buffer_read_uint16_t pb = (le_word bs, pb') \<and>
      tf_packet_buffer_read_int16_t pb = (le_word bs, pb') \<and> pb_inv pb' \<and> pb_list pb' = ys"
    if "length bs = 2" using pop rest inv that by (auto simp: unf split: prod.splits)
  show "\<exists>pb'. tf_packet_buffer_read_uint32_t pb = (le_word bs, pb') \<and>
      tf_packet_buffer_read_int32_t pb = (le_word bs, pb') \<and>
      tf_packet_buffer_read_float pb = (le_word bs, pb') \<and> pb_inv pb' \<and> pb_list pb' = ys"
    if "length bs = 4" using pop rest inv that by (auto simp: unf split: prod.splits)
  show "\<exists>pb'. tf_packet_buffer_read_uint64_t pb = (le_word bs, pb') \<and>
      tf_packet_buffer_read_int64_t pb = (le_word bs, pb') \<and> pb_inv pb' \<and> pb_list pb' = ys"
    if "length bs = 8" using pop rest inv that by (auto simp: unf split: prod.splits)
qed

subsection \<open>Bit arrays\<close>

text \<open>Flag \<open>i\<close> of a packed bit array.\<close>

definition packed_flag :: "byte list \<Rightarrow> nat \<Rightarrow> bool" where
  "packed_flag bs i = bit (bs ! (i div 8)) (i mod 8)"

lemma read_bool_array_loop_effect:
  assumes "pb_inv pb" and "pb_list pb = drop ((i + 7) div 8) bs" and "i + n \<le> 8 * length bs"
    and "i mod 8 \<noteq> 0 \<Longrightarrow> b = bs ! (i div 8)"
  shows "fst (read_bool_array_loop pb b i n) = map (packed_flag bs) [i..<i + n] \<and>
    pb_inv (snd (read_bool_array_loop pb b i n)) \<and>
    pb_list (snd (read_bool_array_loop pb b i n)) = drop ((i + n + 7) div 8) bs"
  using assms
proof (induction n arbitrary: pb b i)
  case (Suc n)
  define b' where "b' = bs ! (i div 8)"
  define pb' where "pb' = (if i mod 8 = 0 then tf_packet_buffer_remove pb 1 else pb)"
  have lt: "i div 8 < length bs" using Suc.prems(3) by linarith
  have "(if i mod 8 = 0 then (case tf_packet_buffer_pop pb of (_, d, p) \<Rightarrow> (d, p)) else (b, pb)) = (b', pb')"
  proof (cases "i mod 8 = 0")
    case True
    then have "(i + 7) div 8 = i div 8" by presburger
    then have "pb_list pb = drop (i div 8) bs" using Suc.prems(2) by simp
    then show ?thesis
      using True lt Suc.prems(1) by (simp add: pop_effect b'_def pb'_def hd_drop_conv_nth)
  qed (use Suc.prems(4) in \<open>simp add: b'_def pb'_def\<close>)
  then have step: "read_bool_array_loop pb b i (Suc n) =
      (case read_bool_array_loop pb' b' (Suc i) n of (rest, pb'') \<Rightarrow>
        ((b' AND push_bit (i mod 8) 1 \<noteq> 0) # rest, pb''))"
    by (simp add: Let_def)
  have flag: "(b' AND push_bit (i mod 8) 1 \<noteq> 0) = packed_flag bs i"
    by (simp add: and_exp_eq_0_iff_not_bit packed_flag_def b'_def)
  have inv: "pb_inv pb'" using Suc.prems(1) by (simp add: pb'_def pb_inv_remove)
  have lst: "pb_list pb' = drop ((Suc i + 7) div 8) bs"
  proof (cases "i mod 8 = 0")
    case True
    then have "(Suc i + 7) div 8 = Suc ((i + 7) div 8)" by presburger
    then show ?thesis using True Suc.prems(1,2) by (simp add: pb'_def pb_list_remove)
  next
    case False
    then have "(Suc i + 7) div 8 = (i + 7) div 8" by presburger
    then show ?thesis using False Suc.prems(2) by (simp add: pb'_def)
  qed
  have "b' = bs ! (Suc i div 8)" if "Suc i mod 8 \<noteq> 0"
  proof -
    have "Suc i div 8 = i div 8" using that by presburger
    then show ?thesis by (simp add: b'_def)
  qed
  note IH = Suc.IH [OF inv lst _ this]
  obtain rest pb'' where rec: "read_bool_array_loop pb' b' (Suc i) n = (rest, pb'')"
    by fastforce
  have upt: "[i..<i + Suc n] = i # [Suc i..<Suc i + n]"
    by (simp add: upt_conv_Cons del: upt_Suc)
  have "read_bool_array_loop pb b i (Suc n) = (packed_flag bs i # rest, pb'')"
    by (simp only: step rec flag prod.case)
  then show ?case
    using IH rec Suc.prems(3) upt by (simp del: read_bool_array_loop.simps upt_Suc)
qed simp

text \<open>
  The typed reads invert the wire format: popping a 16, 32 or 64-bit integer or a float
  returns the little endian value of the front bytes, and popping \<open>count\<close> flags returns the bits of
  the front bytes least significant first; each read consumes exactly its own bytes.
\<close>

lemma read_values:
  assumes "pb_inv pb" and "pb_list pb = bs @ rest"
  shows "(bs = le_bytes 2 (x :: u16) \<longrightarrow>
      (\<exists>pb'. tf_packet_buffer_read_uint16_t pb = (x, pb') \<and> tf_packet_buffer_read_int16_t pb = (x, pb') \<and>
        pb_inv pb' \<and> pb_list pb' = rest)) \<and>
    (bs = le_bytes 4 (y :: u32) \<longrightarrow>
      (\<exists>pb'. tf_packet_buffer_read_uint32_t pb = (y, pb') \<and> tf_packet_buffer_read_int32_t pb = (y, pb') \<and>
        tf_packet_buffer_read_float pb = (y, pb') \<and> pb_inv pb' \<and> pb_list pb' = rest)) \<and>
    (bs = le_bytes 8 (z :: u64) \<longrightarrow>
      (\<exists>pb'. tf_packet_buffer_read_uint64_t pb = (z, pb') \<and> tf_packet_buffer_read_int64_t pb = (z, pb') \<and>
        pb_inv pb' \<and> pb_list pb' = rest)) \<and>
    (length bs = (count + 7) div 8 \<longrightarrow>
      (\<exists>pb'. tf_packet_buffer_read_bool_array pb count = (map (packed_flag bs) [0..<count], pb') \<and>
        pb_inv pb' \<and> pb_list pb' = rest))"
proof (intro conjI impI)
  assume "length bs = (count + 7) div 8"
  moreover from this have "count \<le> 8 * length bs" by presburger
  moreover have "map (packed_flag (bs @ rest)) [0..<count] = map (packed_flag bs) [0..<count]"
    using calculation by (auto simp: packed_flag_def nth_append less_mult_imp_div_less mult.commute)
  ultimately show "\<exists>pb'. tf_packet_buffer_read_bool_array pb count =
      (map (packed_flag bs) [0..<count], pb') \<and> pb_inv pb' \<and> pb_list pb' = rest"
    using read_bool_array_loop_effect [OF assms(1), of 0 "bs @ rest" count 0] assms(2)
    by (auto simp: tf_packet_buffer_read_bool_array_def prod_eq_iff)
qed (use read_words_effect [OF assms] in \<open>simp_all add: le_word_le_bytes\<close>)

lemma peek_bool_array_loop_eq:
  "i mod 8 \<noteq> 0 \<longrightarrow> b = snd (tf_packet_buffer_peek_offset pb offset) \<Longrightarrow>
    peek_bool_array_loop pb offset b i n =
      map (\<lambda>k. bit (snd (tf_packet_buffer_peek_offset pb offset)) (k mod 8)) [i..<i + n]"
proof (induction n arbitrary: b i)
  case (Suc n)
  let ?d = "snd (tf_packet_buffer_peek_offset pb offset)"
  have upt: "[i..<i + Suc n] = i # [Suc i..<Suc i + n]"
    by (simp add: upt_conv_Cons del: upt_Suc)
  have "(if i mod 8 = 0 then ?d else b) = ?d" using Suc.prems by simp
  then show ?case
    using Suc.IH [of "Suc i" ?d] upt
    by (simp add: Let_def and_exp_eq_0_iff_not_bit del: upt_Suc)
qed simp

text \<open>
  Peeking a bit array reads only one byte: flag \<open>i\<close> of the result is bit \<open>i mod 8\<close> of
  the byte at the given offset, so from the ninth flag on the first byte is repeated instead of the
  following bytes being read.
\<close>

lemma peek_bool_array_repeats_first_byte:
  assumes "pb_inv pb" and "offset < length (pb_list pb)"
  shows "tf_packet_buffer_peek_bool_array pb count offset =
    map (\<lambda>i. bit (pb_list pb ! offset) (i mod 8)) [0..<count]"
  using assms by (simp add: tf_packet_buffer_peek_bool_array_def peek_bool_array_loop_eq peek_offset_eq)

subsection \<open>The queue contract\<close>

text \<open>
  What the protocol layers rely on: a bounded queue of elements with its contents as a list.
\<close>

locale byte_fifo =
  fixes create :: 'q
    and push :: "'q \<Rightarrow> 'a \<Rightarrow> bool \<times> 'q"
    and remove :: "'q \<Rightarrow> nat \<Rightarrow> 'q"
    and peek_at :: "'q \<Rightarrow> nat \<Rightarrow> bool \<times> 'a"
    and poke_at :: "'q \<Rightarrow> 'a \<Rightarrow> nat \<Rightarrow> bool \<times> 'q"
    and contents :: "'q \<Rightarrow> 'a list"
    and invar :: "'q \<Rightarrow> bool"
    and capacity :: nat
    and dflt :: 'a
  assumes create_spec: "invar create" "contents create = []"
    and bounded: "invar q \<Longrightarrow> length (contents q) \<le> capacity"
    and push_spec: "invar q \<Longrightarrow> push q x = (b, q') \<Longrightarrow> invar q' \<and>
        (b \<longleftrightarrow> length (contents q) < capacity) \<and>
        contents q' = (if length (contents q) < capacity then contents q @ [x] else contents q)"
    and remove_spec: "invar q \<Longrightarrow> invar (remove q n) \<and> contents (remove q n) = drop n (contents q)"
    and peek_at_spec: "invar q \<Longrightarrow> peek_at q k =
        (if k < length (contents q) then (True, contents q ! k) else (False, dflt))"
    and poke_at_spec: "invar q \<Longrightarrow> poke_at q x k = (b, q') \<Longrightarrow> invar q' \<and>
        (b \<longleftrightarrow> k < length (contents q)) \<and> contents q' = (contents q)[k := x]"
begin

text \<open>Pushing a whole message keeps the order and drops only what does not fit.\<close>

lemma push_all:
  "invar q \<Longrightarrow> invar (foldl (\<lambda>q x. snd (push q x)) q xs) \<and>
    contents (foldl (\<lambda>q x. snd (push q x)) q xs) =
      contents q @ take (capacity - length (contents q)) xs"
proof (induction xs arbitrary: q)
  case (Cons x xs)
  obtain b q' where p: "push q x = (b, q')" by fastforce
  note spec = push_spec [OF Cons.prems p]
  show ?case
    using Cons.IH [of q'] spec p bounded [OF Cons.prems]
    by (auto simp: take_Cons' Suc_diff_Suc)
qed simp

text \<open>A message pushed into an empty queue is read back byte by byte, in order.\<close>

lemma transfer:
  assumes "length xs \<le> capacity" and "k < length xs"
  shows "peek_at (foldl (\<lambda>q x. snd (push q x)) create xs) k = (True, xs ! k)"
  using push_all [OF create_spec(1), of xs] create_spec(2) assms by (simp add: peek_at_spec)

end

interpretation pb: byte_fifo tf_packet_buffer_create tf_packet_buffer_push tf_packet_buffer_remove
  tf_packet_buffer_peek_offset tf_packet_buffer_poke_offset pb_list pb_inv 83 0
proof (unfold_locales, goal_cases)
  case 1 show ?case by (rule pb_inv_create)
next
  case 2 show ?case by (rule pb_list_create)
next
  case (3 q) then show ?case using get_used_le by simp
next
  case (4 q x b q')
  then show ?case using push_eq [OF 4(1), of x] pb_inv_push [OF 4(1), of x] by simp
next
  case (5 q n) then show ?case by (simp add: pb_inv_remove pb_list_remove)
next
  case (6 q k) then show ?case by (rule peek_offset_eq)
next
  case (7 q x k b q')
  then show ?case using poke_offset_effect [OF 7(1), of x k] by simp
qed

text \<open>A created buffer into which the bytes have been pushed one after the other.\<close>

definition pb_of_list :: "byte list \<Rightarrow> TF_PacketBuffer" where
  "pb_of_list bs = foldl (\<lambda>q x. snd (tf_packet_buffer_push q x)) tf_packet_buffer_create bs"

lemma pb_of_list [simp]:
  "pb_inv (pb_of_list bs)" "length bs \<le> 83 \<Longrightarrow> pb_list (pb_of_list bs) = bs"
  using pb.push_all [OF pb_inv_create, of bs] by (simp_all add: pb_of_list_def pb_list_create)

subsection \<open>Every sequence of operations behaves as a bounded queue\<close>

datatype pb_op = Push byte | Pop | Remove nat | Peek | Peek_offset nat | Poke byte | Poke_offset byte nat

text \<open>One call: what it returns (success and data) and the new buffer.\<close>

fun pb_exec :: "TF_PacketBuffer \<Rightarrow> pb_op \<Rightarrow> (bool \<times> byte) \<times> TF_PacketBuffer" where
  "pb_exec pb (Push b) = (case tf_packet_buffer_push pb b of (ok, pb') \<Rightarrow> ((ok, 0), pb'))"
| "pb_exec pb Pop = (case tf_packet_buffer_pop pb of (ok, d, pb') \<Rightarrow> ((ok, d), pb'))"
| "pb_exec pb (Remove n) = ((True, 0), tf_packet_buffer_remove pb n)"
| "pb_exec pb Peek = (tf_packet_buffer_peek pb, pb)"
| "pb_exec pb (Peek_offset k) = (tf_packet_buffer_peek_offset pb k, pb)"
| "pb_exec pb (Poke b) = (case tf_packet_buffer_poke pb b of (ok, pb') \<Rightarrow> ((ok, 0), pb'))"
| "pb_exec pb (Poke_offset b k) = (case tf_packet_buffer_poke_offset pb b k of (ok, pb') \<Rightarrow> ((ok, 0), pb'))"

text \<open>The same call on the abstract queue, a list of at most 83 bytes.\<close>

fun q_exec :: "byte list \<Rightarrow> pb_op \<Rightarrow> (bool \<times> byte) \<times> byte list" where
  "q_exec q (Push b) = (if length q < 83 then ((True, 0), q @ [b]) else ((False, 0), q))"
| "q_exec q Pop = (case q of [] \<Rightarrow> ((False, 0), []) | x # r \<Rightarrow> ((True, x), r))"
| "q_exec q (Remove n) = ((True, 0), drop n q)"
| "q_exec q Peek = (case q of [] \<Rightarrow> ((False, 0), []) | x # r \<Rightarrow> ((True, x), q))"
| "q_exec q (Peek_offset k) = (if k < length q then ((True, q ! k), q) else ((False, 0), q))"
| "q_exec q (Poke b) = (case q of [] \<Rightarrow> ((False, 0), []) | x # r \<Rightarrow> ((True, 0), b # r))"
| "q_exec q (Poke_offset b k) = ((k < length q, 0), q[k := b])"

fun pb_run :: "TF_PacketBuffer \<Rightarrow> pb_op list \<Rightarrow> (bool \<times> byte) list \<times> TF_PacketBuffer" where
  "pb_run pb [] = ([], pb)"
| "pb_run pb (op # ops) =
     (case pb_exec pb op of (r, pb') \<Rightarrow> case pb_run pb' ops of (rs, pb'') \<Rightarrow> (r # rs, pb''))"

fun q_run :: "byte list \<Rightarrow> pb_op list \<Rightarrow> (bool \<times> byte) list \<times> byte list" where
  "q_run q [] = ([], q)"
| "q_run q (op # ops) =
     (case q_exec q op of (r, q') \<Rightarrow> case q_run q' ops of (rs, q'') \<Rightarrow> (r # rs, q''))"

lemma pb_exec_refines:
  assumes "pb_inv pb"
  shows "q_exec (pb_list pb) op = map_prod id pb_list (pb_exec pb op)"
    and "pb_inv (snd (pb_exec pb op))"
proof -
  show "pb_inv (snd (pb_exec pb op))"
    using assms by (cases op) (simp_all add: case_prod_beta pb_intros pop_effect poke_eq_poke_offset)
  show "q_exec (pb_list pb) op = map_prod id pb_list (pb_exec pb op)"
    using assms
    by (cases op) (auto simp: case_prod_beta pb_simps poke_eq_poke_offset split: list.splits
        simp del: length_pb_list)
qed

lemma pb_run_refines:
  "pb_inv pb \<Longrightarrow> pb_inv (snd (pb_run pb ops)) \<and>
    q_run (pb_list pb) ops = map_prod id pb_list (pb_run pb ops)"
proof (induction ops arbitrary: pb)
  case (Cons op ops)
  obtain r pb' where e: "pb_exec pb op = (r, pb')" by fastforce
  then show ?case
    using Cons.IH [of pb'] pb_exec_refines [OF Cons.prems, of op] by (auto split: prod.splits)
qed simp

text \<open>
  Claim C6. Starting from a created buffer, every sequence of push, pop, remove, peek and poke calls
  returns exactly what the same calls return on a first-in first-out queue of capacity 83, and the
  ring indices stay inside the array throughout.
\<close>

theorem packet_buffer_is_bounded_queue:
  "fst (pb_run tf_packet_buffer_create ops) = fst (q_run [] ops) \<and>
   pb_list (snd (pb_run tf_packet_buffer_create ops)) = snd (q_run [] ops) \<and>
   pb_inv (snd (pb_run tf_packet_buffer_create ops))"
  using pb_run_refines [OF pb_inv_create, of ops] by (simp add: pb_list_create)

text \<open>From here on the number of used bytes is read off the abstract list.\<close>

declare length_pb_list [simp del]

lemma get_used_list [pb_simps]: "tf_packet_buffer_get_used pb = length (pb_list pb)"
  by (simp add: length_pb_list)

end
