(* ===== verification/Spitfp.thy ===== *)
theory Spitfp
  imports Hal_Interface Packet_Buffer Pearson_Hash "HOL-Library.Monad_Syntax"
begin

unbundle bit_operations_syntax

section \<open>The SPITFP link layer (spitfp.c, spitfp.h)\<close>

text \<open>
  One port of the brick: the framing, acknowledgement and retransmission protocol spoken over SPI
  with a Bricklet. The record is the C struct; the tagged union of the state machine is a datatype.

  Functions that transfer data return an option. \<open>None\<close> stands for what C leaves undefined (an
  access outside \<^verbatim>\<open>send_buf\<close>, a chunk pointer that was never set because the view
  failed) and for loops that exhaust their fuel; the theorems below show that neither occurs.
\<close>

datatype spitfp_state =
    STATE_IDLE
  | STATE_TRANSCEIVE (seq_num_to_send: byte) (transceive_packet_received: bool)
      (bytes_to_send: nat) (send_buf_offset: nat)
  | STATE_WAIT_FOR_ACK (inner_deadline_us: u32) (ack_seq_num: byte) (ack_packet_received: bool)
  | STATE_RECEIVE
  | STATE_BUILD_ACK

record TF_SPITFP =
  last_sequence_number_seen :: byte
  last_sequence_number_acked :: byte
  last_sequence_number_sent :: byte
  last_sequence_number_given_to_tfp :: byte
  error_count_checksum :: u32
  error_count_frame :: u32
  port_id :: nat
  send_buf :: "byte list"
  recv_buf :: TF_PacketBuffer
  state_deadline_us :: u32
  sm_state :: spitfp_state

definition tf_spitfp_create :: "nat \<Rightarrow> TF_SPITFP" where
  "tf_spitfp_create port =
     \<lparr>last_sequence_number_seen = 0, last_sequence_number_acked = 0, last_sequence_number_sent = 0,
      last_sequence_number_given_to_tfp = 0, error_count_checksum = 0, error_count_frame = 0,
      port_id = port, send_buf = replicate TF_SPITFP_MAX_MESSAGE_LENGTH 0,
      recv_buf = tf_packet_buffer_create, state_deadline_us = 0, sm_state = STATE_IDLE\<rparr>"

subsection \<open>Finding packets in the receive buffer\<close>

definition tf_spitfp_packet_processed :: "TF_SPITFP \<Rightarrow> TF_SPITFP" where
  "tf_spitfp_packet_processed s = s\<lparr>recv_buf := tf_packet_buffer_remove (recv_buf s) 1\<rparr>"

definition on_receive_packet :: "TF_SPITFP \<Rightarrow> bool \<times> TF_SPITFP" where
  "on_receive_packet s =
     (case tf_packet_buffer_pop (recv_buf s) of (_, packet_length, pb1) \<Rightarrow>
      case tf_packet_buffer_pop pb1 of (_, seq_nums, pb2) \<Rightarrow>
        let s1 = s\<lparr>recv_buf := pb2, last_sequence_number_seen := seq_nums AND 0x0F,
                   last_sequence_number_acked := drop_bit 4 seq_nums\<rparr>;
            s2 = (if unat packet_length = TF_SPITFP_PROTOCOL_OVERHEAD
                  then tf_spitfp_packet_processed s1 else s1)
        in (unat packet_length > TF_SPITFP_PROTOCOL_OVERHEAD, s2))"

definition bytes_to_recv :: "TF_SPITFP \<Rightarrow> nat \<Rightarrow> nat \<Rightarrow> nat" where
  "bytes_to_recv s bytes_missing to_send =
     (let free_in_buf = tf_packet_buffer_get_free (recv_buf s) in
      if bytes_missing > 0 then
        if to_send > 0 then min (min free_in_buf bytes_missing) to_send
        else min free_in_buf bytes_missing
      else if to_send > 0 then min free_in_buf to_send
      else min free_in_buf 1)"

text \<open>
  The body of the \<^verbatim>\<open>while\<close> loop, with the value of \<^verbatim>\<open>*bytes_missing\<close> on
  return. The loop leaves at least one byte behind in every round that continues, so its length is
  enough fuel.
\<close>

fun process_packets_loop :: "nat \<Rightarrow> TF_SPITFP \<Rightarrow> (bool \<times> nat \<times> TF_SPITFP) option" where
  "process_packets_loop 0 s = None"
| "process_packets_loop (Suc fuel) s =
    (let buf = recv_buf s in
     if tf_packet_buffer_is_empty buf then Some (False, 0, s)
     else let packet_len = unat (snd (tf_packet_buffer_peek buf)) in
       if packet_len > TF_SPITFP_MAX_MESSAGE_LENGTH \<or>
          (packet_len < TF_SPITFP_MIN_MESSAGE_LENGTH \<and> packet_len \<noteq> TF_SPITFP_PROTOCOL_OVERHEAD)
       then process_packets_loop fuel
         (s\<lparr>error_count_frame := (if packet_len \<noteq> 0 then error_count_frame s + 1 else error_count_frame s),
            recv_buf := tf_packet_buffer_remove buf 1\<rparr>)
       else let used = tf_packet_buffer_get_used buf in
         if packet_len > used then Some (False, u8_of_int (int packet_len - int used), s)
         else let packet_checksum = snd (tf_packet_buffer_peek_offset buf (packet_len - 1));
                  real_checksum = foldl (\<lambda>c i. TF_PEARSON_HASH c (snd (tf_packet_buffer_peek_offset buf i)))
                    0 [0..<packet_len - 1]
           in if packet_checksum = real_checksum
              then (case on_receive_packet s of (found, s') \<Rightarrow>
                if found then Some (True, 0, s') else process_packets_loop fuel s')
              else process_packets_loop fuel
                (s\<lparr>recv_buf := tf_packet_buffer_remove buf 1,
                   error_count_checksum := error_count_checksum s + 1\<rparr>))"

definition process_packets :: "TF_SPITFP \<Rightarrow> (bool \<times> nat \<times> TF_SPITFP) option" where
  "process_packets s = process_packets_loop (Suc (tf_packet_buffer_get_used (recv_buf s))) s"

subsection \<open>Transferring bytes\<close>

text \<open>
  One SPI transfer into the free part of the receive buffer. The view advances the end of the
  buffer before any byte arrives, also when the transfer then fails. \<open>send_buffer\<close> is read from
  \<open>offset\<close> on.
\<close>

definition tf_spitfp_transceive_buffer ::
  "'w hal_ops \<Rightarrow> TF_SPITFP \<Rightarrow> byte list \<Rightarrow> nat \<Rightarrow> nat \<Rightarrow> 'w \<Rightarrow> (int \<times> TF_SPITFP \<times> 'w) option" where
  "tf_spitfp_transceive_buffer ops s send_buffer offset len w =
     (if offset + len > length send_buffer then None
      else do {
        (v, pb) \<leftarrow> tf_packet_buffer_free_array_view (recv_buf s) len;
        let (rc1, w1) = hal_chip_select ops (port_id s) True w;
        if rc1 \<noteq> TF_E_OK then Some (rc1, s\<lparr>recv_buf := pb\<rparr>, w1)
        else do {
          let (rc2, rs1, w2) = hal_transceive ops (port_id s)
                (take (first_len v) (drop offset send_buffer)) w1;
          let pb1 = pb_write pb (first_chunk v) rs1;
          if rc2 \<noteq> TF_E_OK
          then Some (rc2, s\<lparr>recv_buf := pb1\<rparr>, snd (hal_chip_select ops (port_id s) False w2))
          else (case second_chunk v of
              None \<Rightarrow>
                (case hal_chip_select ops (port_id s) False w2 of (rc, w3) \<Rightarrow>
                   Some (rc, s\<lparr>recv_buf := pb1\<rparr>, w3))
            | Some chunk \<Rightarrow> do {
                let (rc3, rs2, w3) = hal_transceive ops (port_id s)
                      (take (second_len v) (drop (offset + first_len v) send_buffer)) w2;
                let s2 = s\<lparr>recv_buf := pb_write pb1 chunk rs2\<rparr>;
                if rc3 \<noteq> TF_E_OK
                then Some (rc3, s2, snd (hal_chip_select ops (port_id s) False w3))
                else (case hal_chip_select ops (port_id s) False w3 of (rc, w4) \<Rightarrow> Some (rc, s2, w4))
              })
        }
      })"

definition tf_spitfp_transceive ::
  "'w hal_ops \<Rightarrow> TF_SPITFP \<Rightarrow> nat \<Rightarrow> nat \<Rightarrow> 'w \<Rightarrow> (int \<times> TF_SPITFP \<times> 'w) option" where
  "tf_spitfp_transceive ops s offset len w =
     tf_spitfp_transceive_buffer ops s (send_buf s) offset len w"

text \<open>Receiving sends the zero bytes of \<^verbatim>\<open>hal_common->empty_buf\<close>, which nothing writes.\<close>

definition empty_buf :: "byte list" where
  "empty_buf = replicate TF_SPITFP_MAX_MESSAGE_LENGTH 0"

definition tf_spitfp_receive ::
  "'w hal_ops \<Rightarrow> TF_SPITFP \<Rightarrow> nat \<Rightarrow> 'w \<Rightarrow> (int \<times> TF_SPITFP \<times> 'w) option" where
  "tf_spitfp_receive ops s len w = tf_spitfp_transceive_buffer ops s empty_buf 0 len w"

subsection \<open>Building packets\<close>

abbreviation (input) TF_RETRANSMISSION :: int where "TF_RETRANSMISSION \<equiv> - 2"
abbreviation (input) TF_NEW_PACKET :: int where "TF_NEW_PACKET \<equiv> - 1"

definition next_spitfp_seq_num :: "TF_SPITFP \<Rightarrow> int \<Rightarrow> byte" where
  "next_spitfp_seq_num s seq_num_param =
     (if seq_num_param = TF_RETRANSMISSION then send_buf s ! 1 AND 0x0F
      else if seq_num_param = TF_NEW_PACKET
      then if last_sequence_number_sent s = 0x0F then 0x02 else last_sequence_number_sent s + 1
      else of_int seq_num_param)"

text \<open>The result is \<open>None\<close> where C would write the checksum outside of \<^verbatim>\<open>send_buf\<close>.\<close>

definition tf_spitfp_build_packet :: "TF_SPITFP \<Rightarrow> int \<Rightarrow> (byte \<times> TF_SPITFP) option" where
  "tf_spitfp_build_packet s seq_num_param =
     (let packet_length = to_u8 (unat (send_buf s ! 6) + TF_SPITFP_PROTOCOL_OVERHEAD);
          seq_num = next_spitfp_seq_num s seq_num_param;
          buf = (send_buf s)[0 := of_nat packet_length,
                 1 := seq_num OR push_bit 4 (last_sequence_number_seen s)]
      in if packet_length = 0 \<or> packet_length > length buf then None
         else Some (seq_num,
           s\<lparr>last_sequence_number_sent := seq_num,
             send_buf := buf[packet_length - 1 := pearson_checksum (take (packet_length - 1) buf)]\<rparr>))"

definition tf_spitfp_build_ack :: "TF_SPITFP \<Rightarrow> TF_SPITFP" where
  "tf_spitfp_build_ack s =
     (let packet_length = TF_SPITFP_PROTOCOL_OVERHEAD;
          buf = (send_buf s)[0 := of_nat packet_length, 1 := push_bit 4 (last_sequence_number_seen s)]
      in s\<lparr>send_buf := buf[packet_length - 1 := pearson_checksum (take (packet_length - 1) buf)]\<rparr>)"

subsection \<open>Exchanging packets\<close>

abbreviation (input) TRANSCEIVE_PACKET_SENT :: int where "TRANSCEIVE_PACKET_SENT \<equiv> 1"
abbreviation (input) TRANSCEIVE_PACKET_RECEIVED :: int where "TRANSCEIVE_PACKET_RECEIVED \<equiv> 2"
abbreviation (input) TRANSCEIVE_PACKET_ACKED :: int where "TRANSCEIVE_PACKET_ACKED \<equiv> 4"
abbreviation (input) TRANSCEIVE_TIMEOUT :: int where "TRANSCEIVE_TIMEOUT \<equiv> 8"

text \<open>Every round sends at least one byte. The new \<^verbatim>\<open>*send_buf_offset\<close> is returned.\<close>

fun transceive_packet_loop ::
  "nat \<Rightarrow> 'w hal_ops \<Rightarrow> TF_SPITFP \<Rightarrow> nat \<Rightarrow> nat \<Rightarrow> 'w \<Rightarrow> (int \<times> nat \<times> TF_SPITFP \<times> 'w) option" where
  "transceive_packet_loop 0 ops s send_buf_length offset w = None"
| "transceive_packet_loop (Suc fuel) ops s send_buf_length offset w =
    (if offset < send_buf_length then do {
       (found, bytes_missing, s1) \<leftarrow> process_packets s;
       if found then Some (TRANSCEIVE_PACKET_RECEIVED, offset, s1, w)
       else do {
         let to_send = send_buf_length - offset;
         let to_recv = bytes_to_recv s1 bytes_missing to_send;
         let to_transceive = min to_send to_recv;
         (rc, s2, w2) \<leftarrow> tf_spitfp_transceive ops s1 offset to_transceive w;
         if rc \<noteq> TF_E_OK then Some (rc, offset, s2, w2)
         else transceive_packet_loop fuel ops s2 send_buf_length (to_u8 (offset + to_transceive)) w2
       }
     }
     else do {
       (found, _, s1) \<leftarrow> process_packets s;
       Some (TRANSCEIVE_PACKET_SENT OR (if found then TRANSCEIVE_PACKET_RECEIVED else 0), offset, s1, w)
     })"

definition tf_spitfp_transceive_packet ::
  "'w hal_ops \<Rightarrow> TF_SPITFP \<Rightarrow> nat \<Rightarrow> nat \<Rightarrow> 'w \<Rightarrow> (int \<times> nat \<times> TF_SPITFP \<times> 'w) option" where
  "tf_spitfp_transceive_packet ops s send_buf_length offset w =
     transceive_packet_loop (Suc (send_buf_length - offset)) ops s send_buf_length offset w"

abbreviation (input) RECEIVE_PACKET_RECIEVED :: int where "RECEIVE_PACKET_RECIEVED \<equiv> 1"
abbreviation (input) RECEIVE_PACKET_TIMEOUT :: int where "RECEIVE_PACKET_TIMEOUT \<equiv> 2"

fun receive_packet_loop ::
  "nat \<Rightarrow> 'w hal_ops \<Rightarrow> TF_SPITFP \<Rightarrow> nat \<Rightarrow> nat \<Rightarrow> 'w \<Rightarrow> (int \<times> TF_SPITFP \<times> 'w) option" where
  "receive_packet_loop 0 ops s bytes_missing bytes_received w = None"
| "receive_packet_loop (Suc fuel) ops s bytes_missing bytes_received w = do {
     let to_recv = bytes_to_recv s bytes_missing 0;
     (rc, s1, w1) \<leftarrow> tf_spitfp_receive ops s to_recv w;
     if rc \<noteq> TF_E_OK then Some (rc, s1, w1)
     else do {
       let bytes_received1 = to_u8 (bytes_received + to_recv);
       (found, bytes_missing1, s2) \<leftarrow> process_packets s1;
       if found then Some (RECEIVE_PACKET_RECIEVED, s2, w1)
       else if bytes_received1 < 2 * TF_SPITFP_MAX_MESSAGE_LENGTH \<and> bytes_missing1 > 0
       then receive_packet_loop fuel ops s2 bytes_missing1 bytes_received1 w1
       else Some (if bytes_missing1 > 0 then RECEIVE_PACKET_TIMEOUT else 0, s2, w1)
     }
   }"

definition tf_spitfp_receive_packet ::
  "'w hal_ops \<Rightarrow> TF_SPITFP \<Rightarrow> 'w \<Rightarrow> (int \<times> TF_SPITFP \<times> 'w) option" where
  "tf_spitfp_receive_packet ops s w = do {
     (found, bytes_missing, s1) \<leftarrow> process_packets s;
     if found then Some (1, s1, w)
     else receive_packet_loop (2 * TF_SPITFP_MAX_MESSAGE_LENGTH) ops s1 bytes_missing 0 w
   }"

text \<open>
  Waiting for an acknowledgement is bounded only by the clock, so the fuel is a parameter; how much
  is enough is a theorem about the clock.
\<close>

fun wait_for_ack_loop ::
  "nat \<Rightarrow> 'w hal_ops \<Rightarrow> TF_SPITFP \<Rightarrow> byte \<Rightarrow> u32 \<Rightarrow> nat \<Rightarrow> 'w \<Rightarrow> (int \<times> TF_SPITFP \<times> 'w) option" where
  "wait_for_ack_loop 0 ops s seq_num deadline_us bytes_missing w = None"
| "wait_for_ack_loop (Suc fuel) ops s seq_num deadline_us bytes_missing w = do {
     let to_recv = bytes_to_recv s bytes_missing 0;
     (rc, s1, w1) \<leftarrow> tf_spitfp_receive ops s to_recv w;
     if rc < 0 then Some (rc, s1, w1)
     else do {
       (found, bytes_missing1, s2) \<leftarrow> process_packets s1;
       let result = (rc OR (if found then TRANSCEIVE_PACKET_RECEIVED else 0))
             OR (if last_sequence_number_acked s2 = seq_num then TRANSCEIVE_PACKET_ACKED else 0);
       if result \<noteq> 0 then Some (result, s2, w1)
       else do {
         let (elapsed, w2) = tf_hal_deadline_elapsed ops deadline_us w1;
         if \<not> elapsed \<and> bytes_missing1 > 0
         then wait_for_ack_loop fuel ops s2 seq_num deadline_us bytes_missing1 w2
         else do {
           let (elapsed', w3) = tf_hal_deadline_elapsed ops deadline_us w2;
           Some (if elapsed' then TRANSCEIVE_TIMEOUT else 0, s2, w3)
         }
       }
     }
   }"

definition tf_spitfp_wait_for_ack ::
  "nat \<Rightarrow> 'w hal_ops \<Rightarrow> TF_SPITFP \<Rightarrow> byte \<Rightarrow> u32 \<Rightarrow> 'w \<Rightarrow> (int \<times> TF_SPITFP \<times> 'w) option" where
  "tf_spitfp_wait_for_ack fuel ops s seq_num deadline_us w = do {
     (found, bytes_missing, s1) \<leftarrow> process_packets s;
     let result = (if found then TRANSCEIVE_PACKET_RECEIVED else 0)
           OR (if last_sequence_number_acked s1 = seq_num then TRANSCEIVE_PACKET_ACKED else 0);
     if result \<noteq> 0 then Some (result, s1, w)
     else wait_for_ack_loop fuel ops s1 seq_num deadline_us bytes_missing w
   }"

subsection \<open>The state machine\<close>

abbreviation (input) TF_TICK_PACKET_RECEIVED :: int where "TF_TICK_PACKET_RECEIVED \<equiv> 1"
abbreviation (input) TF_TICK_PACKET_SENT :: int where "TF_TICK_PACKET_SENT \<equiv> 2"
abbreviation (input) TF_TICK_AGAIN :: int where "TF_TICK_AGAIN \<equiv> 4"
abbreviation (input) TF_TICK_TIMEOUT :: int where "TF_TICK_TIMEOUT \<equiv> 8"
abbreviation (input) TF_TICK_SLEEP :: int where "TF_TICK_SLEEP \<equiv> 16"
abbreviation (input) TF_TICK_IN_TRANSCEIVE :: int where "TF_TICK_IN_TRANSCEIVE \<equiv> 32"

text \<open>
  \<^verbatim>\<open>tf_packet_buffer_remove\<close> takes a \<^verbatim>\<open>uint8_t\<close>, so the number of
  removed bytes wraps at 256; \<^verbatim>\<open>packet_len\<close> stays 0 if the buffer is too short.
\<close>

definition tf_spitfp_filter_duplicates :: "TF_SPITFP \<Rightarrow> int \<times> TF_SPITFP" where
  "tf_spitfp_filter_duplicates s =
     (if last_sequence_number_given_to_tfp s = last_sequence_number_seen s
      then let packet_len = unat (snd (tf_packet_buffer_peek_offset (recv_buf s) 4))
           in (0, s\<lparr>recv_buf := tf_packet_buffer_remove (recv_buf s) (to_u8 (packet_len + 1))\<rparr>)
      else (TF_TICK_PACKET_RECEIVED,
            s\<lparr>last_sequence_number_given_to_tfp := last_sequence_number_seen s\<rparr>))"

text \<open>
  \<^verbatim>\<open>MIN(m->deadline_us, tf_hal_current_time_us(hal) + 5000)\<close>: the macro evaluates its
  second argument again when that is the smaller one.
\<close>

definition min_deadline :: "'w hal_ops \<Rightarrow> u32 \<Rightarrow> 'w \<Rightarrow> u32 \<times> 'w" where
  "min_deadline ops deadline_us w =
     (case hal_current_time_us ops w of (now1, w1) \<Rightarrow>
        if deadline_us < now1 + 5000 then (deadline_us, w1)
        else (case hal_current_time_us ops w1 of (now2, w2) \<Rightarrow> (now2 + 5000, w2)))"

definition spitfp_tick_idle :: "TF_SPITFP \<Rightarrow> u32 \<Rightarrow> int \<times> TF_SPITFP" where
  "spitfp_tick_idle s deadline_us =
     (let to_send = send_buf s ! 0 in
      (TF_TICK_AGAIN,
       s\<lparr>state_deadline_us := deadline_us,
         sm_state := (if to_send \<noteq> 0
           then STATE_TRANSCEIVE (send_buf s ! 1 AND 0x0F) False (unat to_send) 0
           else STATE_RECEIVE)\<rparr>))"

definition spitfp_tick_transceive ::
  "'w hal_ops \<Rightarrow> TF_SPITFP \<Rightarrow> byte \<Rightarrow> bool \<Rightarrow> nat \<Rightarrow> nat \<Rightarrow> 'w \<Rightarrow> (int \<times> TF_SPITFP \<times> 'w) option" where
  "spitfp_tick_transceive ops s seq_num received n_send offset w = do {
     (result, offset', s0, w1) \<leftarrow> tf_spitfp_transceive_packet ops s n_send offset w;
     let s1 = s0\<lparr>sm_state := STATE_TRANSCEIVE seq_num received n_send offset'\<rparr>;
     if result < 0 then Some (result, s1, w1)
     else if result AND TRANSCEIVE_PACKET_SENT \<noteq> 0 \<and> result AND TRANSCEIVE_PACKET_RECEIVED \<noteq> 0
     then do {
       let (inner, w2) = min_deadline ops (state_deadline_us s1) w1;
       let (r, s2) = tf_spitfp_filter_duplicates (s1\<lparr>sm_state := STATE_WAIT_FOR_ACK inner seq_num True\<rparr>);
       Some (TF_TICK_AGAIN OR r, s2, w2)
     }
     else if result AND TRANSCEIVE_PACKET_RECEIVED \<noteq> 0
     then do {
       let (r, s2) = tf_spitfp_filter_duplicates
             (s1\<lparr>sm_state := STATE_TRANSCEIVE seq_num True n_send offset'\<rparr>);
       Some (TF_TICK_AGAIN OR TF_TICK_IN_TRANSCEIVE OR r, s2, w1)
     }
     else if result AND TRANSCEIVE_PACKET_SENT \<noteq> 0
     then do {
       let (inner, w2) = min_deadline ops (state_deadline_us s1) w1;
       Some (TF_TICK_AGAIN, s1\<lparr>sm_state := STATE_WAIT_FOR_ACK inner seq_num received\<rparr>, w2)
     }
     else Some (0, s1, w1)
   }"

definition spitfp_tick_wait_for_ack ::
  "nat \<Rightarrow> 'w hal_ops \<Rightarrow> TF_SPITFP \<Rightarrow> u32 \<Rightarrow> byte \<Rightarrow> bool \<Rightarrow> 'w \<Rightarrow> (int \<times> TF_SPITFP \<times> 'w) option" where
  "spitfp_tick_wait_for_ack fuel ops s inner seq_num received w =
     (if seq_num = 0 then
        let s1 = s\<lparr>send_buf := (send_buf s)[0 := 0]\<rparr> in
        if received
        then (case tf_spitfp_filter_duplicates (s1\<lparr>sm_state := STATE_BUILD_ACK\<rparr>) of (r, s2) \<Rightarrow>
                Some (TF_TICK_AGAIN OR r, s2, w))
        else Some (0, s1\<lparr>sm_state := STATE_IDLE\<rparr>, w)
      else do {
        (result, s1, w1) \<leftarrow> tf_spitfp_wait_for_ack fuel ops s seq_num inner w;
        if result AND TRANSCEIVE_PACKET_ACKED \<noteq> 0 \<and> result AND TRANSCEIVE_PACKET_RECEIVED \<noteq> 0
        then do {
          let (r, s2) = tf_spitfp_filter_duplicates (s1\<lparr>sm_state := STATE_BUILD_ACK\<rparr>);
          Some (TF_TICK_AGAIN OR TF_TICK_PACKET_SENT OR r, s2, w1)
        }
        else if result AND TRANSCEIVE_PACKET_RECEIVED \<noteq> 0
        then do {
          let (r, s2) = tf_spitfp_filter_duplicates (s1\<lparr>sm_state := STATE_IDLE\<rparr>);
          Some (TF_TICK_AGAIN OR TF_TICK_TIMEOUT OR r, s2, w1)
        }
        else if result AND TRANSCEIVE_PACKET_ACKED \<noteq> 0
        then if received
          then do {
            let (r, s2) = tf_spitfp_filter_duplicates (s1\<lparr>sm_state := STATE_BUILD_ACK\<rparr>);
            Some (TF_TICK_AGAIN OR TF_TICK_PACKET_SENT OR r, s2, w1)
          }
          else Some (TF_TICK_PACKET_SENT, s1\<lparr>sm_state := STATE_IDLE\<rparr>, w1)
        else if result AND TRANSCEIVE_TIMEOUT \<noteq> 0
        then Some (TF_TICK_TIMEOUT, s1\<lparr>sm_state := STATE_IDLE\<rparr>, w1)
        else Some (TF_TICK_SLEEP OR TF_TICK_AGAIN, s1, w1)
      })"

definition spitfp_tick_receive :: "'w hal_ops \<Rightarrow> TF_SPITFP \<Rightarrow> 'w \<Rightarrow> (int \<times> TF_SPITFP \<times> 'w) option" where
  "spitfp_tick_receive ops s w = do {
     (result, s1, w1) \<leftarrow> tf_spitfp_receive_packet ops s w;
     if result < 0 then Some (result, s1, w1)
     else if result AND RECEIVE_PACKET_RECIEVED \<noteq> 0
     then do {
       let (r, s2) = tf_spitfp_filter_duplicates (s1\<lparr>sm_state := STATE_BUILD_ACK\<rparr>);
       Some (TF_TICK_AGAIN OR r, s2, w1)
     }
     else Some (if result AND RECEIVE_PACKET_TIMEOUT \<noteq> 0 then TF_TICK_TIMEOUT else TF_TICK_SLEEP,
                s1\<lparr>sm_state := STATE_IDLE\<rparr>, w1)
   }"

definition spitfp_tick_build_ack :: "TF_SPITFP \<Rightarrow> int \<times> TF_SPITFP" where
  "spitfp_tick_build_ack s =
     (TF_TICK_AGAIN,
      (tf_spitfp_build_ack s)\<lparr>sm_state := STATE_TRANSCEIVE 0 False TF_SPITFP_PROTOCOL_OVERHEAD 0\<rparr>)"

definition tf_spitfp_tick ::
  "nat \<Rightarrow> 'w hal_ops \<Rightarrow> TF_SPITFP \<Rightarrow> u32 \<Rightarrow> 'w \<Rightarrow> (int \<times> TF_SPITFP \<times> 'w) option" where
  "tf_spitfp_tick fuel ops s deadline_us w =
     (case sm_state s of
        STATE_IDLE \<Rightarrow> (case spitfp_tick_idle s deadline_us of (r, s') \<Rightarrow> Some (r, s', w))
      | STATE_TRANSCEIVE seq_num received n_send offset \<Rightarrow>
          spitfp_tick_transceive ops s seq_num received n_send offset w
      | STATE_WAIT_FOR_ACK inner seq_num received \<Rightarrow>
          spitfp_tick_wait_for_ack fuel ops s inner seq_num received w
      | STATE_RECEIVE \<Rightarrow> spitfp_tick_receive ops s w
      | STATE_BUILD_ACK \<Rightarrow> (case spitfp_tick_build_ack s of (r, s') \<Rightarrow> Some (r, s', w)))"

end
