(* ===== verification/Spitfp_Framing.thy ===== *)
theory Spitfp_Framing
  imports Spitfp
begin

unbundle bit_operations_syntax

section \<open>Framing: what the receiver accepts\<close>

text \<open>
  An abstract scanner on byte lists says which packet the receiver takes out of a stream, how it
  resynchronises after noise and what it counts as errors. \<open>process_packets\<close> refines it. The
  claims are that only packets with a plausible length and a correct checksum are delivered, that a
  packet built by the sender is delivered unchanged, and that a packet with one wrong byte is not.
\<close>

subsection \<open>The abstract scanner\<close>

definition plausible_length :: "nat \<Rightarrow> bool" where
  "plausible_length n \<longleftrightarrow> n = 3 \<or> (11 \<le> n \<and> n \<le> 83)"

text \<open>A complete packet with a correct checksum at the front of the stream.\<close>

definition good_frame :: "byte list \<Rightarrow> bool" where
  "good_frame bs \<longleftrightarrow> bs ! (unat (hd bs) - 1) = pearson_checksum (take (unat (hd bs) - 1) bs)"

record scan_result =
  sc_found :: bool
  sc_missing :: nat
  sc_frame_errors :: nat
  sc_checksum_errors :: nat
  sc_seqs :: "byte list"
  sc_rest :: "byte list"

function scan_frames :: "byte list \<Rightarrow> scan_result" where
  "scan_frames bs =
     (if bs = [] then \<lparr>sc_found = False, sc_missing = 0, sc_frame_errors = 0, sc_checksum_errors = 0,
        sc_seqs = [], sc_rest = []\<rparr>
      else let n = unat (hd bs) in
        if \<not> plausible_length n
        then (let r = scan_frames (tl bs) in r\<lparr>sc_frame_errors := (if n \<noteq> 0 then 1 else 0) + sc_frame_errors r\<rparr>)
        else if length bs < n
        then \<lparr>sc_found = False, sc_missing = n - length bs, sc_frame_errors = 0, sc_checksum_errors = 0,
              sc_seqs = [], sc_rest = bs\<rparr>
        else if \<not> good_frame bs
        then (let r = scan_frames (tl bs) in r\<lparr>sc_checksum_errors := 1 + sc_checksum_errors r\<rparr>)
        else if n = 3
        then (let r = scan_frames (drop 3 bs) in r\<lparr>sc_seqs := bs ! 1 # sc_seqs r\<rparr>)
        else \<lparr>sc_found = True, sc_missing = 0, sc_frame_errors = 0, sc_checksum_errors = 0,
              sc_seqs = [bs ! 1], sc_rest = drop 2 bs\<rparr>)"
  by pat_completeness auto
termination by (relation "measure length") (auto simp: less_Suc_eq_le)

declare scan_frames.simps [simp del] process_packets_loop.simps [simp del]

text \<open>The effect of a scan on the port: counters and the sequence numbers of the last packet.\<close>

definition after_scan :: "scan_result \<Rightarrow> TF_PacketBuffer \<Rightarrow> TF_SPITFP \<Rightarrow> TF_SPITFP" where
  "after_scan r pb s = s\<lparr>recv_buf := pb,
     error_count_frame := error_count_frame s + of_nat (sc_frame_errors r),
     error_count_checksum := error_count_checksum s + of_nat (sc_checksum_errors r),
     last_sequence_number_seen :=
       (if sc_seqs r = [] then last_sequence_number_seen s else last (sc_seqs r) AND 0x0F),
     last_sequence_number_acked :=
       (if sc_seqs r = [] then last_sequence_number_acked s else drop_bit 4 (last (sc_seqs r)))\<rparr>"

lemma after_scan_frame [simp]:
  "recv_buf (after_scan r pb s) = pb" "send_buf (after_scan r pb s) = send_buf s"
  "port_id (after_scan r pb s) = port_id s" "sm_state (after_scan r pb s) = sm_state s"
  "state_deadline_us (after_scan r pb s) = state_deadline_us s"
  "last_sequence_number_sent (after_scan r pb s) = last_sequence_number_sent s"
  "last_sequence_number_given_to_tfp (after_scan r pb s) = last_sequence_number_given_to_tfp s"
  by (simp_all add: after_scan_def)

subsection \<open>Refinement\<close>

lemma checksum_loop:
  "pb_inv pb \<Longrightarrow> n \<le> length (pb_list pb) \<Longrightarrow>
    foldl (\<lambda>c i. TF_PEARSON_HASH c (snd (tf_packet_buffer_peek_offset pb i))) 0 [0..<n] =
      pearson_checksum (take n (pb_list pb))"
proof (induction n)
  case (Suc n)
  then have "take (Suc n) (pb_list pb) = take n (pb_list pb) @ [pb_list pb ! n]"
    by (simp add: take_Suc_conv_app_nth)
  then show ?case using Suc by (simp add: peek_offset_eq pearson_checksum_snoc)
qed (simp add: pearson_checksum_def)

lemma on_receive_packet_eq:
  assumes "pb_inv (recv_buf s)" and "pb_list (recv_buf s) = n # q # bs"
  shows "\<exists>pb. on_receive_packet s = (unat n > 3,
      s\<lparr>recv_buf := pb, last_sequence_number_seen := q AND 0x0F,
        last_sequence_number_acked := drop_bit 4 q\<rparr>) \<and>
    pb_inv pb \<and> pb_list pb = (if unat n = 3 then drop 1 bs else bs)"
proof -
  let ?pb1 = "tf_packet_buffer_remove (recv_buf s) 1"
  have 1: "tf_packet_buffer_pop (recv_buf s) = (True, n, ?pb1)" "pb_inv ?pb1" "pb_list ?pb1 = q # bs"
    using assms by (simp_all add: pop_effect pb_inv_remove pb_list_remove)
  then have 2: "tf_packet_buffer_pop ?pb1 = (True, q, tf_packet_buffer_remove ?pb1 1)"
    "pb_inv (tf_packet_buffer_remove ?pb1 1)" "pb_list (tf_packet_buffer_remove ?pb1 1) = bs"
    by (simp_all add: pop_effect pb_inv_remove pb_list_remove)
  show ?thesis
  proof (cases "unat n = 3")
    case True
    then show ?thesis
      using 1(1) 2 by (intro exI [of _ "tf_packet_buffer_remove (tf_packet_buffer_remove ?pb1 1) 1"])
        (simp add: on_receive_packet_def tf_spitfp_packet_processed_def pb_inv_remove pb_list_remove)
  next
    case False
    then show ?thesis
      using 1(1) 2 by (intro exI [of _ "tf_packet_buffer_remove ?pb1 1"]) (simp add: on_receive_packet_def)
  qed
qed

definition refines_scan :: "nat \<Rightarrow> TF_SPITFP \<Rightarrow> bool" where
  "refines_scan fuel s \<longleftrightarrow> (let r = scan_frames (pb_list (recv_buf s)) in
     \<exists>pb. process_packets_loop fuel s = Some (sc_found r, sc_missing r, after_scan r pb s) \<and>
       pb_inv pb \<and> pb_list pb = sc_rest r)"

lemma loop_complete_frame:
  fixes s :: TF_SPITFP
  defines "bs \<equiv> pb_list (recv_buf s)"
  assumes "pb_inv (recv_buf s)" "bs \<noteq> []" "plausible_length (unat (hd bs))" "unat (hd bs) \<le> length bs"
  shows "process_packets_loop (Suc fuel) s =
    (if good_frame bs
     then (case on_receive_packet s of (found, s') \<Rightarrow>
       if found then Some (True, 0, s') else process_packets_loop fuel s')
     else process_packets_loop fuel (s\<lparr>recv_buf := tf_packet_buffer_remove (recv_buf s) 1,
       error_count_checksum := error_count_checksum s + 1\<rparr>))"
proof -
  define n where "n = unat (hd bs)"
  have n: "\<not> (83 < n \<or> n < 11 \<and> n \<noteq> 3)" "\<not> length bs < n" "n - 1 < length bs" "n - 1 \<le> length bs"
    using assms by (auto simp: n_def plausible_length_def)
  have peek: "snd (tf_packet_buffer_peek (recv_buf s)) = hd bs"
    using assms by (simp add: peek_eq split: list.splits)
  have "snd (tf_packet_buffer_peek_offset (recv_buf s) (n - 1)) = bs ! (n - 1)"
    using n assms(1,2) by (simp add: peek_offset_eq)
  moreover have "foldl (\<lambda>c i. TF_PEARSON_HASH c (snd (tf_packet_buffer_peek_offset (recv_buf s) i)))
      0 [0..<n - 1] = pearson_checksum (take (n - 1) bs)"
    using checksum_loop [OF assms(2), of "n - 1"] n(4) by (simp add: bs_def)
  ultimately show ?thesis
    unfolding process_packets_loop.simps(2) Let_def is_empty_eq get_used_list peek
      good_frame_def n_def [symmetric] bs_def [symmetric]
    using assms(3) n(1,2) by auto
qed

text \<open>A round of the loop that continues with \<open>t\<close>.\<close>

lemma refines_scan_step:
  assumes "process_packets_loop fuel s = process_packets_loop fuel' t" and "refines_scan fuel' t"
    and "scan_frames (pb_list (recv_buf s)) = r"
    and "\<And>r'. scan_frames (pb_list (recv_buf t)) = r' \<Longrightarrow> sc_found r = sc_found r' \<and>
      sc_missing r = sc_missing r' \<and> sc_rest r = sc_rest r' \<and>
      (\<forall>pb. after_scan r pb s = after_scan r' pb t)"
  shows "refines_scan fuel s"
  using assms by (auto simp: refines_scan_def Let_def)

lemma process_packets_loop_refines:
  "pb_inv (recv_buf s) \<Longrightarrow> length (pb_list (recv_buf s)) < fuel \<Longrightarrow> refines_scan fuel s"
proof (induction fuel arbitrary: s)
  case (Suc fuel)
  let ?bs = "pb_list (recv_buf s)" and ?n = "unat (hd (pb_list (recv_buf s)))"
  let ?pb = "tf_packet_buffer_remove (recv_buf s) 1"
  note inv = Suc.prems(1)
  have pb: "pb_inv ?pb" "pb_list ?pb = tl ?bs"
    using inv by (simp_all add: pb_inv_remove pb_list_remove drop_Suc)
  have peek: "?bs \<noteq> [] \<Longrightarrow> snd (tf_packet_buffer_peek (recv_buf s)) = hd ?bs"
    using inv by (simp add: peek_eq split: list.splits)
  have skip: "refines_scan fuel t" if "?bs \<noteq> []" "recv_buf t = ?pb" for t
    using Suc.IH [of t] Suc.prems(2) that pb by (cases ?bs) simp_all
  note unfold1 = process_packets_loop.simps(2) Let_def is_empty_eq get_used_list peek
  consider (empty) "?bs = []" | (junk) "?bs \<noteq> []" "\<not> plausible_length ?n"
    | (partial) "?bs \<noteq> []" "plausible_length ?n" "length ?bs < ?n"
    | (bad) "?bs \<noteq> []" "plausible_length ?n" "?n \<le> length ?bs" "\<not> good_frame ?bs"
    | (good) "?bs \<noteq> []" "plausible_length ?n" "?n \<le> length ?bs" "good_frame ?bs" by force
  then show ?case
  proof cases
    case empty
    then show ?thesis
      using inv by (auto simp: refines_scan_def scan_frames.simps after_scan_def unfold1
          intro!: exI [of _ "recv_buf s"])
  next
    case junk
    let ?t = "s\<lparr>error_count_frame := (if ?n \<noteq> 0 then error_count_frame s + 1 else error_count_frame s),
      recv_buf := ?pb\<rparr>"
    have step: "process_packets_loop (Suc fuel) s = process_packets_loop fuel ?t"
      using junk by (auto simp: unfold1 plausible_length_def)
    show ?thesis
      using skip [OF junk(1), of ?t] junk pb
      by (intro refines_scan_step [OF step]) (auto simp: scan_frames.simps [of ?bs] after_scan_def Let_def)
  next
    case partial
    then have "process_packets_loop (Suc fuel) s = Some (False, ?n - length ?bs, s)"
      by (auto simp: unfold1 plausible_length_def u8_of_uint_diff)
    then show ?thesis
      using inv partial by (auto simp: refines_scan_def scan_frames.simps [of ?bs] after_scan_def Let_def
          intro!: exI [of _ "recv_buf s"])
  next
    case bad
    let ?t = "s\<lparr>recv_buf := ?pb, error_count_checksum := error_count_checksum s + 1\<rparr>"
    have step: "process_packets_loop (Suc fuel) s = process_packets_loop fuel ?t"
      using bad inv by (simp add: loop_complete_frame)
    show ?thesis
      using skip [OF bad(1), of ?t] bad pb
      by (intro refines_scan_step [OF step]) (auto simp: scan_frames.simps [of ?bs] after_scan_def Let_def)
  next
    case good
    then have "3 \<le> length ?bs" by (auto simp: plausible_length_def)
    then obtain n q c bs where bs: "?bs = n # q # c # bs"
      by (metis Suc_le_length_iff numeral_3_eq_3)
    from on_receive_packet_eq [OF inv bs] obtain pb' where
      recv: "on_receive_packet s = (unat n > 3, s\<lparr>recv_buf := pb', last_sequence_number_seen := q AND 0x0F,
        last_sequence_number_acked := drop_bit 4 q\<rparr>)" (is "_ = (_, ?t)")
      and pb': "pb_inv pb'" "pb_list pb' = (if unat n = 3 then bs else c # bs)" by auto
    have step: "process_packets_loop (Suc fuel) s =
        (if 3 < unat n then Some (True, 0, ?t) else process_packets_loop fuel ?t)"
      using good inv by (simp add: loop_complete_frame recv)
    show ?thesis
    proof (cases "unat n = 3")
      case True
      then have t: "refines_scan fuel ?t"
        using Suc.IH [of ?t] pb' Suc.prems(2) bs by simp
      have scan: "scan_frames ?bs = (scan_frames bs)\<lparr>sc_seqs := q # sc_seqs (scan_frames bs)\<rparr>"
        using True good bs by (subst scan_frames.simps) (simp add: Let_def)
      show ?thesis
        using True pb' by (intro refines_scan_step [OF _ t scan]) (simp_all add: step after_scan_def)
    next
      case False
      have scan: "scan_frames ?bs = \<lparr>sc_found = True, sc_missing = 0, sc_frame_errors = 0,
          sc_checksum_errors = 0, sc_seqs = [q], sc_rest = c # bs\<rparr>"
        using False good bs by (subst scan_frames.simps) (simp add: Let_def)
      have "3 < unat n" using False good(2) bs by (auto simp: plausible_length_def)
      then show ?thesis
        using False pb' by (auto simp: refines_scan_def scan step after_scan_def)
    qed
  qed
qed (simp add: process_packets_loop.simps)

lemma process_packets_refines:
  assumes "pb_inv (recv_buf s)"
  obtains pb where "process_packets s = Some
      (sc_found (scan_frames (pb_list (recv_buf s))), sc_missing (scan_frames (pb_list (recv_buf s))),
       after_scan (scan_frames (pb_list (recv_buf s))) pb s)"
    and "pb_inv pb" and "pb_list pb = sc_rest (scan_frames (pb_list (recv_buf s)))"
  using process_packets_loop_refines [OF assms, of "Suc (length (pb_list (recv_buf s)))"]
  by (auto simp: process_packets_def get_used_list refines_scan_def Let_def)

subsection \<open>What a scan delivers\<close>

text \<open>A packet on the wire: length, sequence numbers, payload and checksum.\<close>

definition frame :: "byte \<Rightarrow> byte list \<Rightarrow> byte list" where
  "frame q payload = (let body = of_nat (length payload + 3) # q # payload in body @ [pearson_checksum body])"

lemma length_frame [simp]: "length (frame q payload) = length payload + 3"
  by (simp add: frame_def Let_def)

lemma frame_neq_Nil [simp]: "frame q payload \<noteq> []"
  by (simp add: frame_def Let_def)

lemma good_frame_split:
  assumes "bs \<noteq> []" "plausible_length (unat (hd bs))" "unat (hd bs) \<le> length bs" "good_frame bs"
  shows "\<exists>q payload rest. bs = frame q payload @ rest \<and> length payload + 3 = unat (hd bs) \<and> bs ! 1 = q"
proof -
  define n where "n = unat (hd bs)"
  have "3 \<le> n" "n \<le> length bs" using assms by (auto simp: plausible_length_def n_def)
  then have "3 \<le> length bs" by simp
  then obtain l q c bs' where bs: "bs = l # q # c # bs'" by (metis Suc_le_length_iff numeral_3_eq_3)
  have 1: "take (n - 1) bs = l # q # take (n - 3) (c # bs')"
    using \<open>3 \<le> n\<close> bs by (simp add: take_Cons' numeral_3_eq_3)
  have "bs = take (n - 1) bs @ bs ! (n - 1) # drop n bs"
    using \<open>3 \<le> n\<close> \<open>n \<le> length bs\<close> by (metis Suc_diff_1 Suc_le_eq id_take_nth_drop not_numeral_le_zero
        order_less_le_trans zero_less_iff_neq_zero diff_Suc_1 le_zero_eq)
  moreover have "l = of_nat (n - 3 + 3)" using \<open>3 \<le> n\<close> by (simp add: n_def bs)
  moreover have "length (take (n - 3) (c # bs')) = n - 3" using \<open>n \<le> length bs\<close> bs \<open>3 \<le> n\<close> by simp
  ultimately have "bs = frame q (take (n - 3) (c # bs')) @ drop n bs"
    using assms(4) 1 by (simp add: frame_def Let_def good_frame_def flip: n_def)
  then show ?thesis using \<open>3 \<le> n\<close> \<open>n \<le> length bs\<close> bs by (intro exI) (auto simp: n_def)
qed

lemma frame_props:
  assumes "plausible_length (length payload + 3)"
  shows "frame q payload @ rest \<noteq> []" "unat (hd (frame q payload @ rest)) = length payload + 3"
    "good_frame (frame q payload @ rest)" "(frame q payload @ rest) ! 1 = q"
    "drop 2 (frame q payload @ rest) =
      payload @ [pearson_checksum (of_nat (length payload + 3) # q # payload)] @ rest"
proof -
  have n: "unat (of_nat (length payload + 3) :: byte) = length payload + 3"
    using assms by (auto simp: unat_of_nat plausible_length_def take_bit_eq_mod simp del: of_nat_add)
  then show hd: "unat (hd (frame q payload @ rest)) = length payload + 3"
    by (simp add: frame_def Let_def del: of_nat_add)
  show "good_frame (frame q payload @ rest)"
    unfolding good_frame_def hd
    by (simp add: frame_def Let_def nth_append del: of_nat_add)
qed (simp_all add: frame_def Let_def)

lemma scan_data_frame:
  assumes "8 \<le> length payload" "length payload \<le> 80"
  shows "scan_frames (frame q payload @ rest) = \<lparr>sc_found = True, sc_missing = 0, sc_frame_errors = 0,
    sc_checksum_errors = 0, sc_seqs = [q],
    sc_rest = payload @ [pearson_checksum (of_nat (length payload + 3) # q # payload)] @ rest\<rparr>"
proof -
  have "plausible_length (length payload + 3)" using assms by (simp add: plausible_length_def)
  note props = frame_props [OF this, of q rest]
  show ?thesis
    using assms props by (subst scan_frames.simps) (auto simp: Let_def plausible_length_def)
qed

lemma scan_ack_frame:
  "scan_frames (frame q [] @ rest) = (scan_frames rest)\<lparr>sc_seqs := q # sc_seqs (scan_frames rest)\<rparr>"
proof -
  have "plausible_length (length ([] :: byte list) + 3)" by (simp add: plausible_length_def)
  note props = frame_props [OF this, of q rest]
  have "drop 3 (frame q [] @ rest) = rest" by simp
  then show ?thesis
    using props by (subst scan_frames.simps) (simp add: Let_def plausible_length_def)
qed

text \<open>The peer sends zero bytes while it has nothing to say; they are skipped silently.\<close>

lemma scan_zero: "scan_frames (0 # bs) = scan_frames bs"
proof -
  have "scan_frames (0 # bs) = (let r = scan_frames bs in r\<lparr>sc_frame_errors := 0 + sc_frame_errors r\<rparr>)"
    by (subst scan_frames.simps) (simp add: Let_def plausible_length_def)
  then show ?thesis by simp
qed

lemma scan_skips_zeros: "scan_frames (replicate k 0 @ bs) = scan_frames bs"
  by (induction k) (simp_all add: scan_zero)

lemma scan_cases:
  obtains (empty) "bs = []" "scan_frames bs = \<lparr>sc_found = False, sc_missing = 0, sc_frame_errors = 0,
      sc_checksum_errors = 0, sc_seqs = [], sc_rest = []\<rparr>"
  | (junk) b bs' where "bs = b # bs'" "\<not> plausible_length (unat b)"
      "scan_frames bs = (scan_frames bs')
        \<lparr>sc_frame_errors := (if unat b \<noteq> 0 then 1 else 0) + sc_frame_errors (scan_frames bs')\<rparr>"
  | (partial) "bs \<noteq> []" "plausible_length (unat (hd bs))" "length bs < unat (hd bs)"
      "scan_frames bs = \<lparr>sc_found = False, sc_missing = unat (hd bs) - length bs, sc_frame_errors = 0,
        sc_checksum_errors = 0, sc_seqs = [], sc_rest = bs\<rparr>"
  | (bad) b bs' where "bs = b # bs'" "\<not> good_frame bs"
      "scan_frames bs = (scan_frames bs')\<lparr>sc_checksum_errors := 1 + sc_checksum_errors (scan_frames bs')\<rparr>"
  | (ack) q rest where "bs = frame q [] @ rest"
      "scan_frames bs = (scan_frames rest)\<lparr>sc_seqs := q # sc_seqs (scan_frames rest)\<rparr>"
  | (data) q payload rest where "bs = frame q payload @ rest" "8 \<le> length payload" "length payload \<le> 80"
      "scan_frames bs = \<lparr>sc_found = True, sc_missing = 0, sc_frame_errors = 0, sc_checksum_errors = 0,
        sc_seqs = [q],
        sc_rest = payload @ [pearson_checksum (of_nat (length payload + 3) # q # payload)] @ rest\<rparr>"
proof -
  consider "bs = []" | b bs' where "bs = b # bs'" "\<not> plausible_length (unat b)"
    | "bs \<noteq> []" "plausible_length (unat (hd bs))" "length bs < unat (hd bs)"
    | b bs' where "bs = b # bs'" "plausible_length (unat b)" "unat b \<le> length bs" "\<not> good_frame bs"
    | "bs \<noteq> []" "plausible_length (unat (hd bs))" "unat (hd bs) \<le> length bs" "good_frame bs"
    by (metis leI list.exhaust list.sel(1))
  then show thesis
  proof cases
    case 1
    then show thesis using empty by (simp add: scan_frames.simps [of "[]"])
  next
    case (2 b bs')
    then show thesis by (intro junk [of b bs']) (assumption+, subst scan_frames.simps, simp add: Let_def)
  next
    case 3
    then show thesis using partial by (simp add: scan_frames.simps [of bs] Let_def)
  next
    case (4 b bs')
    then show thesis by (intro bad [of b bs']) (assumption+, subst scan_frames.simps, simp add: Let_def)
  next
    case 5
    from good_frame_split [OF this] obtain q payload rest
      where bs: "bs = frame q payload @ rest" and len: "length payload + 3 = unat (hd bs)" by blast
    show thesis
    proof (cases "payload = []")
      case True
      then show thesis using ack [of q rest] bs by (simp add: scan_ack_frame)
    next
      case False
      then have "8 \<le> length payload" "length payload \<le> 80"
        using 5(2) len by (auto simp: plausible_length_def)
      then show thesis using data [of q payload rest] bs by (simp add: scan_data_frame)
    qed
  qed
qed

lemma scan_rest_suffix: "\<exists>pre. bs = pre @ sc_rest (scan_frames bs)"
proof (induction "length bs" arbitrary: bs rule: less_induct)
  case less
  then show ?case
  proof (cases bs rule: scan_cases)
    case (junk b bs')
    then obtain pre where "bs' = pre @ sc_rest (scan_frames bs')" using less [of bs'] by auto
    then show ?thesis using junk by (intro exI [of _ "b # pre"]) simp
  next
    case (bad b bs')
    then obtain pre where "bs' = pre @ sc_rest (scan_frames bs')" using less [of bs'] by auto
    then show ?thesis using bad by (intro exI [of _ "b # pre"]) simp
  next
    case (ack q rest)
    then obtain pre where "rest = pre @ sc_rest (scan_frames rest)" using less [of rest] by auto
    then show ?thesis using ack by (intro exI [of _ "frame q [] @ pre"]) simp
  next
    case (data q payload rest)
    then show ?thesis by (intro exI [of _ "[of_nat (length payload + 3), q]"]) (simp add: frame_def Let_def)
  qed auto
qed

text \<open>A delivered payload was framed in the stream, with its checksum.\<close>

definition delivers :: "byte list \<Rightarrow> scan_result \<Rightarrow> bool" where
  "delivers bs r \<longleftrightarrow> (\<exists>pre q payload rest. bs = pre @ frame q payload @ rest \<and>
     8 \<le> length payload \<and> length payload \<le> 80 \<and> sc_seqs r \<noteq> [] \<and> last (sc_seqs r) = q \<and>
     sc_rest r = payload @ [pearson_checksum (of_nat (length payload + 3) # q # payload)] @ rest)"

lemma delivers_extend:
  "delivers bs r \<Longrightarrow> sc_rest r' = sc_rest r \<Longrightarrow> sc_seqs r' = qs @ sc_seqs r \<Longrightarrow> delivers (pre @ bs) r'"
  unfolding delivers_def by (metis append.assoc append_is_Nil_conv last_appendR)

lemma scan_found: "sc_found (scan_frames bs) \<Longrightarrow> delivers bs (scan_frames bs)"
proof (induction "length bs" arbitrary: bs rule: less_induct)
  case less
  show ?case
  proof (cases bs rule: scan_cases)
    case (junk b bs')
    then show ?thesis
      using less delivers_extend [of bs' "scan_frames bs'" "scan_frames bs" "[]" "[b]"] by simp
  next
    case (bad b bs')
    then show ?thesis
      using less delivers_extend [of bs' "scan_frames bs'" "scan_frames bs" "[]" "[b]"] by simp
  next
    case (ack q rest)
    then show ?thesis
      using less delivers_extend [of rest "scan_frames rest" "scan_frames bs" "[q]" "frame q []"] by simp
  next
    case (data q payload rest)
    then show ?thesis
      unfolding delivers_def
      by (intro exI [of _ "[]"] exI [of _ q] exI [of _ payload] exI [of _ rest]) simp
  qed (use less in auto)
qed

lemma scan_not_found:
  "\<not> sc_found (scan_frames bs) \<Longrightarrow>
     (sc_rest (scan_frames bs) = [] \<and> sc_missing (scan_frames bs) = 0) \<or>
     (sc_rest (scan_frames bs) \<noteq> [] \<and> plausible_length (unat (hd (sc_rest (scan_frames bs)))) \<and>
      0 < sc_missing (scan_frames bs) \<and>
      unat (hd (sc_rest (scan_frames bs))) = length (sc_rest (scan_frames bs)) + sc_missing (scan_frames bs))"
proof (induction "length bs" arbitrary: bs rule: less_induct)
  case less
  show ?case
    by (cases bs rule: scan_cases) (use less in auto)
qed

lemma scan_found_missing: "sc_found (scan_frames bs) \<Longrightarrow> sc_missing (scan_frames bs) = 0"
proof (induction "length bs" arbitrary: bs rule: less_induct)
  case less
  show ?case
    by (cases bs rule: scan_cases) (use less in auto)
qed

text \<open>The sequence numbers the port remembers fit into four bits.\<close>

lemma after_scan_seq:
  "unat (last_sequence_number_seen s) < 16 \<Longrightarrow> unat (last_sequence_number_seen (after_scan r pb s)) < 16"
  "unat (last_sequence_number_acked s) < 16 \<Longrightarrow> unat (last_sequence_number_acked (after_scan r pb s)) < 16"
  by (simp_all add: after_scan_def low_nibble_less high_nibble_less)

subsection \<open>Soundness of the receiver\<close>

text \<open>
  Claim C7. Looking for packets always ends. If it reports a packet, the stream contained a frame
  with a plausible length and a correct checksum, the buffer now starts with exactly that frame's
  payload followed by its checksum and the rest of the stream, and the remembered sequence numbers
  are those of this frame. Otherwise the buffer is empty, or it starts with the beginning of a
  plausible packet and the number of its missing bytes is reported. What is being sent is untouched.
\<close>

theorem process_packets_sound:
  assumes "pb_inv (recv_buf s)"
  shows "\<exists>found missing s'. process_packets s = Some (found, missing, s') \<and>
    pb_inv (recv_buf s') \<and> send_buf s' = send_buf s \<and> sm_state s' = sm_state s \<and>
    (found \<longrightarrow> missing = 0 \<and> (\<exists>pre q payload rest. pb_list (recv_buf s) = pre @ frame q payload @ rest \<and>
       8 \<le> length payload \<and> length payload \<le> 80 \<and>
       last_sequence_number_seen s' = q AND 0x0F \<and> last_sequence_number_acked s' = drop_bit 4 q \<and>
       pb_list (recv_buf s') =
         payload @ [pearson_checksum (of_nat (length payload + 3) # q # payload)] @ rest)) \<and>
    (\<not> found \<longrightarrow> (pb_list (recv_buf s') = [] \<and> missing = 0) \<or>
       (\<exists>n bs. pb_list (recv_buf s') = n # bs \<and> plausible_length (unat n) \<and> 0 < missing \<and>
         unat n = Suc (length bs) + missing))"
proof -
  define r where "r = scan_frames (pb_list (recv_buf s))"
  obtain pb where run: "process_packets s = Some (sc_found r, sc_missing r, after_scan r pb s)"
    and pb: "pb_inv pb" "pb_list pb = sc_rest r"
    using process_packets_refines [OF assms] unfolding r_def by metis
  have found: "delivers (pb_list (recv_buf s)) r" "sc_missing r = 0" if "sc_found r"
    using that scan_found scan_found_missing unfolding r_def by blast+
  have "(sc_rest r = [] \<and> sc_missing r = 0) \<or> (\<exists>n bs. sc_rest r = n # bs \<and> plausible_length (unat n) \<and>
      0 < sc_missing r \<and> unat n = Suc (length bs) + sc_missing r)" if "\<not> sc_found r"
    using that scan_not_found unfolding r_def by (metis length_Cons list.exhaust list.sel(1))
  then show ?thesis
    using run pb found by (auto simp: delivers_def after_scan_def)
qed

theorem process_packets_sound_witness:
  "\<exists>found missing s'. process_packets ((tf_spitfp_create 0)\<lparr>recv_buf := pb_of_list [0, 200, 12, 0x31]\<rparr>) =
     Some (found, missing, s') \<and> pb_inv (recv_buf s')"
  using process_packets_sound [of "(tf_spitfp_create 0)\<lparr>recv_buf := pb_of_list [0, 200, 12, 0x31]\<rparr>"]
  by auto

subsection \<open>What the sender builds\<close>

text \<open>A well-formed TFP packet in the send buffer behind the two header bytes.\<close>

definition send_payload_ok :: "TF_SPITFP \<Rightarrow> bool" where
  "send_payload_ok s \<longleftrightarrow> length (send_buf s) = 83 \<and> 8 \<le> unat (send_buf s ! 6) \<and> unat (send_buf s ! 6) \<le> 80"

definition send_payload :: "TF_SPITFP \<Rightarrow> byte list" where
  "send_payload s = take (unat (send_buf s ! 6)) (drop 2 (send_buf s))"

lemma length_send_payload [simp]: "send_payload_ok s \<Longrightarrow> length (send_payload s) = unat (send_buf s ! 6)"
  by (simp add: send_payload_def send_payload_ok_def)

lemma build_packet_frame:
  fixes s :: TF_SPITFP and p :: int
  assumes "send_payload_ok s"
  defines "q \<equiv> next_spitfp_seq_num s p" and "n \<equiv> unat (send_buf s ! 6)"
  obtains buf where "tf_spitfp_build_packet s p =
      Some (q, s\<lparr>last_sequence_number_sent := q, send_buf := buf\<rparr>)"
    and "length buf = 83"
    and "take (n + 3) buf = frame (q OR push_bit 4 (last_sequence_number_seen s)) (send_payload s)"
    and "drop (n + 3) buf = drop (n + 3) (send_buf s)"
proof -
  let ?qq = "q OR push_bit 4 (last_sequence_number_seen s)"
  have n: "8 \<le> n" "n \<le> 80" "length (send_buf s) = 83" using assms by (simp_all add: send_payload_ok_def)
  obtain b0 b1 bs where sb: "send_buf s = b0 # b1 # bs" "length bs = 81"
    using n(3) by (cases "send_buf s"; cases "tl (send_buf s)") auto
  define buf where "buf = (send_buf s)[0 := of_nat (n + 3), 1 := ?qq]"
  have buf: "buf = of_nat (n + 3) # ?qq # bs" by (simp add: buf_def sb)
  let ?buf = "buf[n + 2 := pearson_checksum (take (n + 2) buf)]"
  have pay: "send_payload s = take n bs" by (simp add: send_payload_def n_def sb)
  have "take (n + 3) ?buf = take (n + 2) buf @ [pearson_checksum (take (n + 2) buf)]"
    using n sb(2) by (simp add: buf take_Suc_conv_app_nth numeral_3_eq_3)
  moreover have "take (n + 2) buf = of_nat (n + 3) # ?qq # take n bs" by (simp add: buf)
  moreover have "length (take n bs) = n" using n sb(2) by simp
  ultimately have "take (n + 3) ?buf = frame ?qq (send_payload s)"
    by (simp add: frame_def Let_def pay del: of_nat_add)
  moreover have "drop (n + 3) ?buf = drop (n + 3) (send_buf s)" by (simp add: buf sb numeral_3_eq_3)
  moreover have "length ?buf = 83" by (simp add: buf sb(2))
  moreover have "tf_spitfp_build_packet s p = Some (q, s\<lparr>last_sequence_number_sent := q, send_buf := ?buf\<rparr>)"
    using n sb(2) by (simp add: tf_spitfp_build_packet_def Let_def buf_def q_def flip: n_def)
  ultimately show ?thesis using that by blast
qed

text \<open>
  Claim C22. Sender and receiver agree: for a well-formed TFP packet in the send buffer, building
  the SPITFP packet succeeds, and a port that receives the built bytes after any number of idle zero
  bytes reports a packet, finds the TFP packet unchanged at the front of its buffer, sees the
  sender's sequence number as the last one seen and the sender's last seen number as acknowledged,
  and counts no error.
\<close>

theorem build_packet_roundtrip:
  assumes "send_payload_ok s" and "unat (next_spitfp_seq_num s p) < 16"
    and "unat (last_sequence_number_seen s) < 16"
    and "pb_inv (recv_buf r)"
  shows "\<exists>s'. tf_spitfp_build_packet s p = Some (next_spitfp_seq_num s p, s') \<and>
    (pb_list (recv_buf r) = replicate k 0 @ take (unat (send_buf s' ! 0)) (send_buf s') \<longrightarrow>
      (\<exists>r'. process_packets r = Some (True, 0, r') \<and>
        take (length (send_payload s)) (pb_list (recv_buf r')) = send_payload s \<and>
        last_sequence_number_seen r' = next_spitfp_seq_num s p \<and>
        last_sequence_number_acked r' = last_sequence_number_seen s \<and>
        error_count_checksum r' = error_count_checksum r \<and> error_count_frame r' = error_count_frame r))"
proof -
  let ?q = "next_spitfp_seq_num s p" and ?n = "unat (send_buf s ! 6)"
  let ?qq = "?q OR push_bit 4 (last_sequence_number_seen s)"
  obtain buf where build: "tf_spitfp_build_packet s p =
      Some (?q, s\<lparr>last_sequence_number_sent := ?q, send_buf := buf\<rparr>)"
    and buf: "take (?n + 3) buf = frame ?qq (send_payload s)"
    by (rule build_packet_frame [OF assms(1), of p]) blast
  have len: "8 \<le> length (send_payload s)" "length (send_payload s) \<le> 80"
    using assms(1) by (simp, simp add: send_payload_ok_def)+
  then have "plausible_length (length (send_payload s) + 3)" by (simp add: plausible_length_def)
  from frame_props(2) [OF this, of ?qq "[]"] have hd: "unat (hd (frame ?qq (send_payload s))) = ?n + 3"
    using assms(1) by simp
  have "buf ! 0 = hd (take (?n + 3) buf)" using arg_cong [OF buf, of length] by (cases buf) simp_all
  then have n: "unat (buf ! 0) = ?n + 3" by (simp only: buf hd)
  have "\<exists>r'. process_packets r = Some (True, 0, r') \<and>
      take (length (send_payload s)) (pb_list (recv_buf r')) = send_payload s \<and>
      last_sequence_number_seen r' = ?q \<and> last_sequence_number_acked r' = last_sequence_number_seen s \<and>
      error_count_checksum r' = error_count_checksum r \<and> error_count_frame r' = error_count_frame r"
    if "pb_list (recv_buf r) = replicate k 0 @ frame ?qq (send_payload s)"
  proof -
    have scan: "scan_frames (pb_list (recv_buf r)) = \<lparr>sc_found = True, sc_missing = 0, sc_frame_errors = 0,
        sc_checksum_errors = 0, sc_seqs = [?qq], sc_rest = send_payload s @
          [pearson_checksum (of_nat (length (send_payload s) + 3) # ?qq # send_payload s)] @ []\<rparr>"
      unfolding that scan_skips_zeros using scan_data_frame [OF len, of ?qq "[]"] by simp
    obtain pb where "process_packets r = Some (True, 0, after_scan (scan_frames (pb_list (recv_buf r))) pb r)"
      and "pb_list pb = sc_rest (scan_frames (pb_list (recv_buf r)))"
      by (rule process_packets_refines [OF assms(4)]) (simp add: scan)
    then show ?thesis
      using pack_nibbles(2) [OF assms(2,3)]
      by (simp add: scan after_scan_def pack_nibbles(1) [OF assms(2)])
  qed
  then show ?thesis using build n buf by simp
qed

theorem build_packet_roundtrip_witness:
  "\<exists>s' r'. tf_spitfp_build_packet ((tf_spitfp_create 0)
       \<lparr>send_buf := [0, 0, 1, 2, 3, 4, 8, 1, 0x18, 0] @ replicate 73 0, last_sequence_number_seen := 3\<rparr>) (-1) =
     Some (1, s') \<and>
     process_packets ((tf_spitfp_create 1)\<lparr>recv_buf := pb_of_list (replicate 2 0 @ take 11 (send_buf s'))\<rparr>) =
       Some (True, 0, r') \<and>
     take 8 (pb_list (recv_buf r')) = [1, 2, 3, 4, 8, 1, 0x18, 0] \<and> last_sequence_number_acked r' = 3"
proof -
  let ?s = "(tf_spitfp_create 0)\<lparr>send_buf := [0, 0, 1, 2, 3, 4, 8, 1, 0x18, 0] @ replicate 73 0,
    last_sequence_number_seen := 3\<rparr>"
  have q: "next_spitfp_seq_num ?s (-1) = 1" by (simp add: next_spitfp_seq_num_def tf_spitfp_create_def)
  have ok: "send_payload_ok ?s" "send_payload ?s = [1, 2, 3, 4, 8, 1, 0x18, 0]"
    by (simp_all add: send_payload_ok_def send_payload_def)
  obtain buf where build: "tf_spitfp_build_packet ?s (-1) =
      Some (1, ?s\<lparr>last_sequence_number_sent := 1, send_buf := buf\<rparr>)" (is "_ = Some (1, ?s')")
    and buf: "take (8 + 3) buf = frame (1 OR push_bit 4 3) [1, 2, 3, 4, 8, 1, 0x18, 0]"
    using build_packet_frame [OF ok(1), of "-1"] q ok(2) by (auto simp: nth_append)
  have "buf ! 0 = hd (take (8 + 3) buf)" using arg_cong [OF buf, of length] by (cases buf) simp_all
  then have b0: "unat (buf ! 0) = 11" by (simp only: buf) (simp add: frame_def)
  have len: "length (replicate 2 0 @ take 11 buf) \<le> 83" by simp
  let ?r = "(tf_spitfp_create 1)\<lparr>recv_buf := pb_of_list (replicate 2 0 @ take 11 buf)\<rparr>"
  have "unat (next_spitfp_seq_num ?s (-1)) < 16" by (simp only: q) simp
  note rt = build_packet_roundtrip [OF ok(1) this, of ?r 2]
  have "length [1, 2, 3, 4, 8, 1, 0x18, 0 :: byte] = 8" by simp
  with rt [unfolded ok(2) q build] len b0 show ?thesis unfolding build by (simp del: list.size) blast
qed

subsection \<open>Corrupted packets\<close>

text \<open>
  A packet in which one byte behind the length field was corrupted in transit is not
  accepted: the receiver counts a checksum error, drops only the first byte and looks for a packet in
  the rest of the stream, whatever the payload, the position and the value of the wrong byte are.
\<close>

lemma corrupted_packet_rejected:
  assumes "pb_inv (recv_buf r)" and "plausible_length (length payload + 3)"
    and "pb_list (recv_buf r) = (frame q payload)[i := y] @ rest"
    and "0 < i" and "i < length payload + 3" and "frame q payload ! i \<noteq> y"
  shows "process_packets r = process_packets (r\<lparr>recv_buf := tf_packet_buffer_remove (recv_buf r) 1,
    error_count_checksum := error_count_checksum r + 1\<rparr>)"
proof -
  define f where "f = frame q payload"
  define n where "n = length payload + 3"
  define body where "body = of_nat n # q # payload"
  have f: "f = body @ [pearson_checksum body]" "length body = n - 1" "length f = n"
    by (simp_all add: f_def frame_def Let_def body_def n_def)
  have "f \<noteq> []" by (simp add: f_def)
  then have hd: "hd (f[i := y] @ rest) = hd (f @ rest)" using assms(4) by (cases f; cases i) simp_all
  then have uhd: "unat (hd (f[i := y] @ rest)) = n"
    using frame_props(2) [OF assms(2), of q rest] by (simp add: f_def n_def)
  have "\<not> good_frame (f[i := y] @ rest)"
  proof (cases "i < n - 1")
    case True
    then have "f[i := y] = body[i := y] @ [pearson_checksum body]" using f by (simp add: list_update_append)
    then show ?thesis
      using True f assms(6) pearson_checksum_update [of i body y]
      unfolding good_frame_def uhd f_def [symmetric] by (simp add: nth_append)
  next
    case False
    then have "i = length body" using assms(5) n_def f(2) by simp
    then have "f[i := y] = body @ [y]" "f ! i = pearson_checksum body" using f(1) by simp_all
    then show ?thesis
      using f assms(6) unfolding good_frame_def uhd f_def [symmetric] by (simp add: nth_append)
  qed
  then show ?thesis
    using loop_complete_frame [OF assms(1), of "tf_packet_buffer_get_used (recv_buf r)"] assms f uhd
    by (simp add: process_packets_def get_used_list pb_list_remove f_def n_def eval_nat_numeral)
qed

end
