(* ===== verification/Spitfp_Tick.thy ===== *)
theory Spitfp_Tick
  imports Spitfp_Framing
begin

unbundle bit_operations_syntax

section \<open>The SPITFP state machine: safety, termination and transitions\<close>

text \<open>
  The invariant \<open>spitfp_inv\<close> of a port, its preservation by every transfer and by the state
  machine, the absence of undefined behaviour and the bounds on the loops. Everything about the SPI
  peer is arbitrary: only \<open>hal_ok\<close> is assumed, and \<open>hal_clock\<close> where a loop is bounded by time.
\<close>

fun state_ok :: "spitfp_state \<Rightarrow> bool" where
  "state_ok (STATE_TRANSCEIVE q received n offset) \<longleftrightarrow> unat q < 16 \<and> offset \<le> n \<and> n \<le> 83"
| "state_ok (STATE_WAIT_FOR_ACK inner q received) \<longleftrightarrow> unat q < 16"
| "state_ok _ \<longleftrightarrow> True"

definition spitfp_inv :: "TF_SPITFP \<Rightarrow> bool" where
  "spitfp_inv s \<longleftrightarrow> length (send_buf s) = 83 \<and> unat (send_buf s ! 0) \<le> 83 \<and> pb_inv (recv_buf s) \<and>
     unat (last_sequence_number_seen s) < 16 \<and> unat (last_sequence_number_acked s) < 16 \<and>
     state_ok (sm_state s)"

text \<open>What every step of a transfer leaves alone.\<close>

definition same_link :: "TF_SPITFP \<Rightarrow> TF_SPITFP \<Rightarrow> bool" where
  "same_link s s' \<longleftrightarrow> send_buf s' = send_buf s \<and> sm_state s' = sm_state s \<and> port_id s' = port_id s \<and>
     state_deadline_us s' = state_deadline_us s \<and>
     last_sequence_number_sent s' = last_sequence_number_sent s \<and>
     last_sequence_number_given_to_tfp s' = last_sequence_number_given_to_tfp s"

lemma same_link_refl [simp]: "same_link s s"
  by (simp add: same_link_def)

lemma same_link_trans: "same_link s t \<Longrightarrow> same_link t u \<Longrightarrow> same_link s u"
  by (simp add: same_link_def)

lemma same_link_recv_buf [simp]: "same_link s (s\<lparr>recv_buf := pb\<rparr>)"
  by (simp add: same_link_def)

lemma spitfp_inv_create: "spitfp_inv (tf_spitfp_create p)"
  by (simp add: spitfp_inv_def tf_spitfp_create_def pb_inv_create)

lemma spitfp_inv_recv_buf: "spitfp_inv s \<Longrightarrow> pb_inv pb \<Longrightarrow> spitfp_inv (s\<lparr>recv_buf := pb\<rparr>)"
  by (simp add: spitfp_inv_def)

subsection \<open>Looking for packets\<close>

lemma process_packets_inv:
  assumes "spitfp_inv s"
  obtains found missing s' where "process_packets s = Some (found, missing, s')"
    and "spitfp_inv s'" and "same_link s s'"
    and "\<not> found \<longrightarrow> length (pb_list (recv_buf s')) + missing \<le> 83 \<and>
           length (pb_list (recv_buf s')) < 83"
    and "found \<longrightarrow> 9 \<le> length (pb_list (recv_buf s'))"
proof -
  define r where "r = scan_frames (pb_list (recv_buf s))"
  have inv: "pb_inv (recv_buf s)" using assms by (simp add: spitfp_inv_def)
  obtain pb where run: "process_packets s = Some (sc_found r, sc_missing r, after_scan r pb s)"
    and pb: "pb_inv pb" "pb_list pb = sc_rest r"
    using process_packets_refines [OF inv] unfolding r_def by metis
  have "length (pb_list pb) + sc_missing r \<le> 83 \<and> length (pb_list pb) < 83" if "\<not> sc_found r"
    using scan_not_found [of "pb_list (recv_buf s)"] that pb(2)
    by (auto simp: plausible_length_def simp flip: r_def)
  moreover have "9 \<le> length (pb_list pb)" if "sc_found r"
    using scan_found [of "pb_list (recv_buf s)"] that pb(2) by (auto simp: delivers_def simp flip: r_def)
  moreover have "spitfp_inv (after_scan r pb s)"
    using assms pb(1) by (simp add: spitfp_inv_def after_scan_seq)
  ultimately show ?thesis
    using that run by (simp add: same_link_def)
qed

lemma bytes_to_recv_bounds:
  assumes "pb_inv (recv_buf s)" and "length (pb_list (recv_buf s)) < 83"
  shows "0 < bytes_to_recv s m n" and "bytes_to_recv s m n \<le> tf_packet_buffer_get_free (recv_buf s)"
    and "n > 0 \<Longrightarrow> bytes_to_recv s m n \<le> n" and "bytes_to_recv s m n \<le> 83"
  using assms by (auto simp: bytes_to_recv_def Let_def get_free_eq)

subsection \<open>One transfer\<close>

lemma pb_inv_write: "pb_inv pb \<Longrightarrow> off + length bs \<le> 84 \<Longrightarrow> pb_inv (pb_write pb off bs)"
  by (simp add: pb_inv_def pb_write_def)

lemma pb_write_Nil [simp]: "pb_write pb off [] = pb"
  by (simp add: pb_write_def)

lemma transceive_buffer_effect:
  assumes "hal_ok ops" and inv: "pb_inv (recv_buf s)" and len: "len \<le> tf_packet_buffer_get_free (recv_buf s)"
    and fit: "offset + len \<le> length sb"
  shows "\<exists>rc pb w'. tf_spitfp_transceive_buffer ops s sb offset len w = Some (rc, s\<lparr>recv_buf := pb\<rparr>, w') \<and>
    rc \<le> 0 \<and> pb_inv pb \<and>
    (rc = 0 \<longrightarrow> (\<exists>rs. length rs = len \<and> pb_list pb = pb_list (recv_buf s) @ rs))"
proof -
  from free_array_view_Some [OF inv len] obtain v pb1 where
    view: "tf_packet_buffer_free_array_view (recv_buf s) len = Some (v, pb1)"
    and v: "first_chunk v = pb_end (recv_buf s)" "first_len v + second_len v = len"
      "first_chunk v + first_len v \<le> 84" "second_len v \<le> pb_end (recv_buf s)"
      "second_chunk v = (if pb_end (recv_buf s) + len \<ge> 84 then Some 0 else None)"
      "second_chunk v = None \<Longrightarrow> second_len v = 0"
    and pb1: "pb1 = (recv_buf s)\<lparr>pb_end := (pb_end (recv_buf s) + len) mod 84\<rparr>" by metis
  have inv1: "pb_inv pb1" using inv by (simp add: pb1 pb_inv_def)
  obtain rc1 w1 where cs1: "hal_chip_select ops (port_id s) True w = (rc1, w1)" by fastforce
  obtain rc2 rs1 w2 where tr1: "hal_transceive ops (port_id s) (take (first_len v) (drop offset sb)) w1 =
      (rc2, rs1, w2)" by (metis prod_cases3)
  obtain rc3 rs2 w3 where tr2: "hal_transceive ops (port_id s)
      (take (second_len v) (drop (offset + first_len v) sb)) w2 = (rc3, rs2, w3)" by (metis prod_cases3)
  note t1 = hal_ok_transceive [OF assms(1) tr1] and t2 = hal_ok_transceive [OF assms(1) tr2]
  have le1: "length rs1 \<le> first_len v" and le2: "length rs2 \<le> second_len v" using t1(2) t2(2) by simp_all
  have inv2: "pb_inv (pb_write pb1 (first_chunk v) rs1)"
    using inv1 le1 v(3) by (intro pb_inv_write) simp_all
  have inv3: "pb_inv (pb_write (pb_write pb1 (first_chunk v) rs1) 0 rs2)"
    using le2 v(4) inv by (intro pb_inv_write [OF inv2]) (simp add: pb_inv_def)
  have fill: "pb_list (pb_write (pb_write pb1 (first_chunk v) rs1) 0 ys) = pb_list (recv_buf s) @ rs1 @ ys"
    if "rc2 = 0" "length ys = second_len v" for ys
    using free_array_view_fill(2) [OF inv len view, of rs1 ys] t1(3) that fit v(2) by simp
  obtain rc4 w4 rc5 w5 where cs2: "hal_chip_select ops (port_id s) False w2 = (rc4, w4)"
    and cs3: "hal_chip_select ops (port_id s) False w3 = (rc5, w5)" by fastforce
  note rcs = hal_ok_chip_select [OF assms(1) cs1] hal_ok_chip_select [OF assms(1) cs2]
    hal_ok_chip_select [OF assms(1) cs3] t1(1) t2(1)
  have run: "tf_spitfp_transceive_buffer ops s sb offset len w =
      (if rc1 \<noteq> 0 then Some (rc1, s\<lparr>recv_buf := pb1\<rparr>, w1)
       else if rc2 \<noteq> 0 then Some (rc2, s\<lparr>recv_buf := pb_write pb1 (first_chunk v) rs1\<rparr>, w4)
       else if second_chunk v = None then Some (rc4, s\<lparr>recv_buf := pb_write pb1 (first_chunk v) rs1\<rparr>, w4)
       else Some (if rc3 \<noteq> 0 then rc3 else rc5,
         s\<lparr>recv_buf := pb_write (pb_write pb1 (first_chunk v) rs1) 0 rs2\<rparr>, w5))"
    using fit v(5) by (auto simp: tf_spitfp_transceive_buffer_def view cs1 tr1 tr2 cs2 cs3 TF_E_OK_def)
  consider "rc1 \<noteq> 0" | "rc1 = 0" "rc2 \<noteq> 0" | "rc1 = 0" "rc2 = 0" "second_chunk v = None"
    | "rc1 = 0" "rc2 = 0" "second_chunk v \<noteq> None" by blast
  then show ?thesis
  proof cases
    case 3
    then show ?thesis
      using fill [of "[]"] v(2,6) t1(3) fit inv2 rcs
      by (intro exI [of _ rc4] exI [of _ "pb_write pb1 (first_chunk v) rs1"] exI [of _ w4])
        (auto simp: run intro!: exI [of _ rs1])
  next
    case 4
    then show ?thesis
      using fill [of rs2] v(2) t1(3) t2(3) fit inv3 rcs
      by (intro exI [of _ "if rc3 \<noteq> 0 then rc3 else rc5"] exI [of _ "pb_write (pb_write pb1 (first_chunk v) rs1) 0 rs2"] exI [of _ w5])
        (auto simp: run intro!: exI [of _ "rs1 @ rs2"])
  qed (use run rcs inv1 inv2 in auto)
qed

lemma transceive_buffer_inv:
  assumes "hal_ok ops" and "spitfp_inv s" and "len \<le> tf_packet_buffer_get_free (recv_buf s)"
    and "offset + len \<le> length sb"
  obtains rc s' w' where "tf_spitfp_transceive_buffer ops s sb offset len w = Some (rc, s', w')"
    and "rc \<le> 0" and "spitfp_inv s'" and "same_link s s'"
proof -
  have "pb_inv (recv_buf s)" using assms(2) by (simp add: spitfp_inv_def)
  from transceive_buffer_effect [OF assms(1) this assms(3,4), of w] show ?thesis
    using that assms(2) by (auto simp: spitfp_inv_recv_buf)
qed

subsection \<open>Sending a packet\<close>

lemma transceive_packet_loop_inv:
  assumes "hal_ok ops" and "spitfp_inv s" and "offset \<le> n" and "n \<le> 83" and "n - offset < fuel"
  shows "\<exists>r offset' s' w'. transceive_packet_loop fuel ops s n offset w = Some (r, offset', s', w') \<and>
    spitfp_inv s' \<and> same_link s s' \<and> offset \<le> offset' \<and> offset' \<le> n \<and>
    (r < 0 \<or> r = 2 \<or> (r \<in> {1, 3} \<and> offset' = n)) \<and>
    (r \<in> {2, 3} \<longrightarrow> 9 \<le> length (pb_list (recv_buf s')))"
  using assms(2-)
proof (induction fuel arbitrary: s offset w)
  case (Suc fuel)
  obtain found missing s1 where pp: "process_packets s = Some (found, missing, s1)"
    and s1: "spitfp_inv s1" "same_link s s1"
    and room: "\<not> found \<longrightarrow> length (pb_list (recv_buf s1)) + missing \<le> 83 \<and> length (pb_list (recv_buf s1)) < 83"
    and pkt: "found \<longrightarrow> 9 \<le> length (pb_list (recv_buf s1))"
    by (rule process_packets_inv [OF Suc.prems(1)])
  have inv1: "pb_inv (recv_buf s1)" "length (send_buf s1) = 83" using s1(1) by (simp_all add: spitfp_inv_def)
  show ?case
  proof (cases "offset < n \<and> \<not> found")
    case False
    then show ?thesis using pp s1 pkt Suc.prems by auto
  next
    case True
    define k where "k = bytes_to_recv s1 missing (n - offset)"
    have k: "0 < k" "k \<le> tf_packet_buffer_get_free (recv_buf s1)" "k \<le> n - offset"
      using bytes_to_recv_bounds [OF inv1(1), where m = missing and n = "n - offset"] room True by (auto simp: k_def)
    obtain rc s2 w2 where tr: "tf_spitfp_transceive_buffer ops s1 (send_buf s1) offset k w = Some (rc, s2, w2)"
      and s2: "rc \<le> 0" "spitfp_inv s2" "same_link s1 s2"
      by (rule transceive_buffer_inv [OF assms(1) s1(1) k(2), of offset "send_buf s1" w])
        (use k inv1(2) Suc.prems True in auto)
    have step: "transceive_packet_loop (Suc fuel) ops s n offset w =
        (if rc \<noteq> 0 then Some (rc, offset, s2, w2)
         else transceive_packet_loop fuel ops s2 n (offset + k) w2)"
      using True pp tr k Suc.prems by (simp add: tf_spitfp_transceive_def k_def TF_E_OK_def Let_def min_absorb2)
    have link: "same_link s s2" using same_link_trans [OF s1(2) s2(3)] .
    show ?thesis
    proof (cases "rc = 0")
      case False
      then show ?thesis using step s2 link Suc.prems by simp
    next
      case rc: True
      have "offset + k \<le> n" "n - (offset + k) < fuel" using k True Suc.prems by auto
      from Suc.IH [OF s2(2) this(1) Suc.prems(3) this(2), of w2] show ?thesis
        using rc step link by (fastforce dest: same_link_trans)
    qed
  qed
qed simp

subsection \<open>Receiving a packet\<close>

lemma receive_step:
  assumes "hal_ok ops" and "spitfp_inv s" and "length (pb_list (recv_buf s)) < 83"
  obtains rc s' w' where "tf_spitfp_receive ops s (bytes_to_recv s missing 0) w = Some (rc, s', w')"
    and "rc \<le> 0" and "spitfp_inv s'" and "same_link s s'"
proof -
  have "pb_inv (recv_buf s)" using assms(2) by (simp add: spitfp_inv_def)
  note bounds = bytes_to_recv_bounds [OF this assms(3), where m = missing and n = 0]
  show ?thesis
    by (rule transceive_buffer_inv [OF assms(1,2) bounds(2), of 0 empty_buf w])
      (use bounds(4) that in \<open>simp_all add: empty_buf_def tf_spitfp_receive_def\<close>)
qed

lemma receive_packet_loop_inv:
  assumes "hal_ok ops" and "spitfp_inv s" and "length (pb_list (recv_buf s)) < 83"
    and "received < 166" and "166 - received \<le> fuel"
  shows "\<exists>r s' w'. receive_packet_loop fuel ops s missing received w = Some (r, s', w') \<and>
    spitfp_inv s' \<and> same_link s s' \<and> (r < 0 \<or> r \<in> {0, 1, 2}) \<and>
    (r = 1 \<longrightarrow> 9 \<le> length (pb_list (recv_buf s')))"
  using assms(2-)
proof (induction fuel arbitrary: s missing received w)
  case (Suc fuel)
  let ?k = "bytes_to_recv s missing 0"
  have "pb_inv (recv_buf s)" using Suc.prems(1) by (simp add: spitfp_inv_def)
  note k = bytes_to_recv_bounds [OF this Suc.prems(2), where m = missing and n = 0]
  obtain rc s1 w1 where rcv: "tf_spitfp_receive ops s ?k w = Some (rc, s1, w1)"
    and s1: "rc \<le> 0" "spitfp_inv s1" "same_link s s1"
    by (rule receive_step [OF assms(1) Suc.prems(1,2), of missing w])
  obtain found missing2 s2 where pp: "process_packets s1 = Some (found, missing2, s2)"
    and s2: "spitfp_inv s2" "same_link s1 s2"
    and room: "\<not> found \<longrightarrow> length (pb_list (recv_buf s2)) + missing2 \<le> 83 \<and> length (pb_list (recv_buf s2)) < 83"
    and pkt: "found \<longrightarrow> 9 \<le> length (pb_list (recv_buf s2))"
    by (rule process_packets_inv [OF s1(2)])
  have link: "same_link s s2" using same_link_trans [OF s1(3) s2(2)] .
  show ?case
  proof (cases "rc = 0 \<and> \<not> found \<and> received + ?k < 166 \<and> 0 < missing2")
    case False
    then show ?thesis
      using rcv pp s1 s2 link pkt k Suc.prems by (auto simp: TF_E_OK_def Let_def)
  next
    case True
    then have step: "receive_packet_loop (Suc fuel) ops s missing received w =
        receive_packet_loop fuel ops s2 missing2 (received + ?k) w1"
      using rcv pp by (simp add: TF_E_OK_def Let_def)
    have "166 - (received + ?k) \<le> fuel" using Suc.prems k(1) True by linarith
    with True room Suc.IH [OF s2(1), of "received + ?k" missing2 w1] show ?thesis
      using step link by (fastforce dest: same_link_trans)
  qed
qed simp

lemma receive_packet_inv:
  assumes "hal_ok ops" and "spitfp_inv s"
  obtains r s' w' where "tf_spitfp_receive_packet ops s w = Some (r, s', w')"
    and "spitfp_inv s'" and "same_link s s'" and "r < 0 \<or> r \<in> {0, 1, 2}"
    and "r = 1 \<longrightarrow> 9 \<le> length (pb_list (recv_buf s'))"
proof -
  obtain found missing s1 where pp: "process_packets s = Some (found, missing, s1)"
    and s1: "spitfp_inv s1" "same_link s s1"
    and room: "\<not> found \<longrightarrow> length (pb_list (recv_buf s1)) + missing \<le> 83 \<and> length (pb_list (recv_buf s1)) < 83"
    and pkt: "found \<longrightarrow> 9 \<le> length (pb_list (recv_buf s1))"
    by (rule process_packets_inv [OF assms(2)])
  show ?thesis
  proof (cases found)
    case True
    then show ?thesis using that [of 1 s1 w] pp s1 pkt by (simp add: tf_spitfp_receive_packet_def)
  next
    case False
    with receive_packet_loop_inv [OF assms(1) s1(1), of 0 166 missing w] room obtain r s' w' where
      "receive_packet_loop 166 ops s1 missing 0 w = Some (r, s', w')" "spitfp_inv s'" "same_link s1 s'"
      "r < 0 \<or> r \<in> {0, 1, 2}" "r = 1 \<longrightarrow> 9 \<le> length (pb_list (recv_buf s'))" by auto
    then show ?thesis
      using that pp False same_link_trans [OF s1(2)] by (auto simp: tf_spitfp_receive_packet_def)
  qed
qed

subsection \<open>Waiting for an acknowledgement\<close>

text \<open>Whatever is returned keeps the invariant and says truthfully whether the number was acknowledged.\<close>

definition ack_result :: "byte \<Rightarrow> TF_SPITFP \<Rightarrow> int \<times> TF_SPITFP \<times> 'w \<Rightarrow> bool" where
  "ack_result q s res \<longleftrightarrow> (case res of (r, s', w') \<Rightarrow> spitfp_inv s' \<and> same_link s s' \<and>
     (r < 0 \<or> r \<in> {0, 2, 4, 6, 8}) \<and> (r \<in> {4, 6} \<longrightarrow> last_sequence_number_acked s' = q) \<and>
     (r \<in> {2, 6} \<longrightarrow> 9 \<le> length (pb_list (recv_buf s'))))"

lemma ack_result_link: "same_link s t \<Longrightarrow> ack_result q t res \<Longrightarrow> ack_result q s res"
  by (auto simp: ack_result_def dest: same_link_trans)

lemma wait_for_ack_loop_inv:
  assumes "hal_ok ops" and "spitfp_inv s" and "length (pb_list (recv_buf s)) < 83"
    and "wait_for_ack_loop fuel ops s q d missing w = Some res"
  shows "ack_result q s res"
  using assms(2-)
proof (induction fuel arbitrary: s missing w)
  case (Suc fuel)
  obtain rc s1 w1 where rcv: "tf_spitfp_receive ops s (bytes_to_recv s missing 0) w = Some (rc, s1, w1)"
    and s1: "rc \<le> 0" "spitfp_inv s1" "same_link s s1"
    by (rule receive_step [OF assms(1) Suc.prems(1,2), of missing w])
  obtain found missing2 s2 where pp: "process_packets s1 = Some (found, missing2, s2)"
    and s2: "spitfp_inv s2" "same_link s1 s2"
    and room: "\<not> found \<longrightarrow> length (pb_list (recv_buf s2)) + missing2 \<le> 83 \<and> length (pb_list (recv_buf s2)) < 83"
    and pkt: "found \<longrightarrow> 9 \<le> length (pb_list (recv_buf s2))"
    by (rule process_packets_inv [OF s1(2)])
  have link: "same_link s s2" using same_link_trans [OF s1(3) s2(2)] .
  have IH: "ack_result q s res" if "\<not> found" "wait_for_ack_loop fuel ops s2 q d m w' = Some res" for m w'
    using Suc.IH [OF s2(1) _ that(2)] room that(1) by (auto intro: ack_result_link [OF link])
  show ?case
    using Suc.prems(3) rcv pp s1 s2 link pkt IH
    by (auto simp: ack_result_def Let_def split: if_splits prod.splits)
qed simp

lemma wait_for_ack_inv:
  assumes "hal_ok ops" and "spitfp_inv s" and "tf_spitfp_wait_for_ack fuel ops s q d w = Some res"
  shows "ack_result q s res"
proof -
  obtain found missing s1 where pp: "process_packets s = Some (found, missing, s1)"
    and s1: "spitfp_inv s1" "same_link s s1"
    and room: "\<not> found \<longrightarrow> length (pb_list (recv_buf s1)) + missing \<le> 83 \<and> length (pb_list (recv_buf s1)) < 83"
    and pkt: "found \<longrightarrow> 9 \<le> length (pb_list (recv_buf s1))"
    by (rule process_packets_inv [OF assms(2)])
  show ?thesis
  proof (cases "\<not> found \<and> last_sequence_number_acked s1 \<noteq> q")
    case True
    then have "wait_for_ack_loop fuel ops s1 q d missing w = Some res"
      using assms(3) pp by (simp add: tf_spitfp_wait_for_ack_def)
    then show ?thesis
      using True room by (intro ack_result_link [OF s1(2)] wait_for_ack_loop_inv [OF assms(1) s1(1)]) auto
  next
    case False
    then show ?thesis
      using assms(3) pp s1 pkt by (auto simp: tf_spitfp_wait_for_ack_def ack_result_def split: if_splits)
  qed
qed

subsection \<open>Time spent in a transfer\<close>

lemma hal_clock_time:
  assumes "hal_clock ops cyc c" and "hal_current_time_us ops w = (t, w')"
  shows "cyc w < cyc w' \<and> cyc w' \<le> cyc w + 2 ^ 28 * c \<and> t = of_nat (cyc w' div c)"
proof -
  have "case hal_current_time_us ops w of (t, w') \<Rightarrow>
      cyc w < cyc w' \<and> cyc w' \<le> cyc w + 2 ^ 28 * c \<and> t = of_nat (cyc w' div c)"
    using assms(1) by (simp add: hal_clock_def)
  then show ?thesis using assms(2) by simp
qed

lemma hal_clock_chip_select:
  assumes "hal_clock ops cyc c" and "hal_chip_select ops p en w = (rc, w')"
  shows "cyc w \<le> cyc w' \<and> cyc w' \<le> cyc w + 2 ^ 28 * c"
proof -
  have "cyc w \<le> cyc (snd (hal_chip_select ops p en w)) \<and>
      cyc (snd (hal_chip_select ops p en w)) \<le> cyc w + 2 ^ 28 * c"
    using assms(1) unfolding hal_clock_def by blast
  then show ?thesis using assms(2) by simp
qed

lemma hal_clock_transceive:
  assumes "hal_clock ops cyc c" and "hal_transceive ops p bs w = (rc, rs, w')"
  shows "cyc w \<le> cyc w' \<and> cyc w' \<le> cyc w + 2 ^ 28 * c"
proof -
  have "cyc w \<le> cyc (snd (snd (hal_transceive ops p bs w))) \<and>
      cyc (snd (snd (hal_transceive ops p bs w))) \<le> cyc w + 2 ^ 28 * c"
    using assms(1) unfolding hal_clock_def by blast
  then show ?thesis using assms(2) by simp
qed

lemma transceive_buffer_clock:
  assumes "hal_clock ops cyc c" and "tf_spitfp_transceive_buffer ops s sb offset len w = Some (rc, s', w')"
  shows "cyc w \<le> cyc w' \<and> cyc w' \<le> cyc w + 2 ^ 30 * c"
proof -
  obtain v pb1 where view: "tf_packet_buffer_free_array_view (recv_buf s) len = Some (v, pb1)"
    using assms(2) unfolding tf_spitfp_transceive_buffer_def
    by (cases "tf_packet_buffer_free_array_view (recv_buf s) len") (auto split: if_splits)
  obtain rc1 w1 where cs1: "hal_chip_select ops (port_id s) True w = (rc1, w1)" by fastforce
  obtain rc2 rs1 w2 where tr1: "hal_transceive ops (port_id s) (take (first_len v) (drop offset sb)) w1 =
      (rc2, rs1, w2)" by (metis prod_cases3)
  obtain rc3 rs2 w3 where tr2: "hal_transceive ops (port_id s)
      (take (second_len v) (drop (offset + first_len v) sb)) w2 = (rc3, rs2, w3)" by (metis prod_cases3)
  obtain rc4 w4 rc5 w5 where cs2: "hal_chip_select ops (port_id s) False w2 = (rc4, w4)"
    and cs3: "hal_chip_select ops (port_id s) False w3 = (rc5, w5)" by fastforce
  have "w' \<in> {w1, w4, w5}"
    using assms(2) unfolding tf_spitfp_transceive_buffer_def
    by (auto simp: view cs1 tr1 tr2 cs2 cs3 Let_def split: if_splits option.splits)
  then show ?thesis
    using hal_clock_chip_select [OF assms(1) cs1] hal_clock_transceive [OF assms(1) tr1]
      hal_clock_transceive [OF assms(1) tr2] hal_clock_chip_select [OF assms(1) cs2]
      hal_clock_chip_select [OF assms(1) cs3] by auto
qed

text \<open>
  The loop ends when the clock has passed the true deadline \<open>d\<close>: every round reads the time, and no
  round is long enough to jump over the half of the counter's range in which \<open>d\<close> counts as passed.
\<close>

definition enough_fuel :: "nat \<Rightarrow> ('w \<Rightarrow> nat) \<Rightarrow> nat \<Rightarrow> nat \<Rightarrow> 'w \<Rightarrow> bool" where
  "enough_fuel fuel cyc c d w \<longleftrightarrow> cyc w div c \<le> d + 2 ^ 28 \<and> (d + 1) * c - cyc w < fuel"

lemma wait_for_ack_loop_terminates:
  assumes "hal_ok ops" and "hal_clock ops cyc c"
    and "spitfp_inv s" and "length (pb_list (recv_buf s)) < 83" and "enough_fuel fuel cyc c d w"
  shows "\<exists>res. wait_for_ack_loop fuel ops s q (of_nat d) missing w = Some res"
  using assms(3-)
proof (induction fuel arbitrary: s missing w)
  case (Suc fuel)
  have c: "0 < c" using assms(2) by (simp add: hal_clock_def)
  obtain rc s1 w1 where rcv: "tf_spitfp_receive ops s (bytes_to_recv s missing 0) w = Some (rc, s1, w1)"
    and rc: "rc \<le> 0" and s1: "spitfp_inv s1"
    by (rule receive_step [OF assms(1) Suc.prems(1,2), of missing w])
  obtain found missing2 s2 where pp: "process_packets s1 = Some (found, missing2, s2)"
    and s2: "spitfp_inv s2"
    and room: "\<not> found \<longrightarrow> length (pb_list (recv_buf s2)) + missing2 \<le> 83 \<and> length (pb_list (recv_buf s2)) < 83"
    by (rule process_packets_inv [OF s1])
  obtain t w2 where time: "hal_current_time_us ops w1 = (t, w2)" by fastforce
  note clk = transceive_buffer_clock [OF assms(2) rcv [unfolded tf_spitfp_receive_def]]
    hal_clock_time [OF assms(2) time]
  show ?case
  proof (cases "rc = 0 \<and> \<not> found \<and> last_sequence_number_acked s2 \<noteq> q \<and>
      \<not> deadline_passed t (of_nat d) \<and> 0 < missing2")
    case False
    consider "rc < 0" | "rc = 0" using rc by linarith
    then show ?thesis
      using False rcv pp time by cases (auto simp: Let_def tf_hal_deadline_elapsed_def split: prod.splits)
  next
    case True
    let ?t = "cyc w2 div c"
    have "cyc w2 \<le> cyc w + (2 ^ 30 + 2 ^ 28) * c" using clk by (simp add: algebra_simps)
    then have "?t \<le> (cyc w + (2 ^ 30 + 2 ^ 28) * c) div c" by (rule div_le_mono)
    also have "\<dots> = cyc w div c + (2 ^ 30 + 2 ^ 28)" using c by simp
    finally have "?t < d + (2 ^ 31 - 1)" using Suc.prems(3) by (simp add: enough_fuel_def)
    moreover have "\<not> deadline_passed (of_nat ?t) (of_nat d)" using True clk by simp
    ultimately have "?t < d" using deadline_passed_late [of d ?t] by (meson not_less)
    then have "cyc w2 < d * c" using c by (metis div_less_iff_less_mult)
    then have "enough_fuel fuel cyc c d w2"
      using Suc.prems(3) clk \<open>?t < d\<close> by (simp add: enough_fuel_def) linarith
    moreover have "wait_for_ack_loop (Suc fuel) ops s q (of_nat d) missing w =
        wait_for_ack_loop fuel ops s2 q (of_nat d) missing2 w2"
      using True rcv pp time by (simp add: Let_def tf_hal_deadline_elapsed_def)
    ultimately show ?thesis using Suc.IH [OF s2] room True by simp
  qed
qed (simp add: enough_fuel_def)

lemma wait_for_ack_terminates:
  assumes "hal_ok ops" and "hal_clock ops cyc c" and "spitfp_inv s" and "enough_fuel fuel cyc c d w"
  shows "\<exists>res. tf_spitfp_wait_for_ack fuel ops s q (of_nat d) w = Some res"
proof -
  obtain found missing s1 where pp: "process_packets s = Some (found, missing, s1)"
    and s1: "spitfp_inv s1"
    and room: "\<not> found \<longrightarrow> length (pb_list (recv_buf s1)) + missing \<le> 83 \<and> length (pb_list (recv_buf s1)) < 83"
    by (rule process_packets_inv [OF assms(3)])
  show ?thesis
    using wait_for_ack_loop_terminates [OF assms(1,2) s1 _ assms(4)] pp room
    by (cases found) (auto simp: tf_spitfp_wait_for_ack_def Let_def)
qed

subsection \<open>The transitions of the state machine\<close>

datatype phase = Idle | Sending | Waiting | Receiving | Acking

fun phase_of :: "spitfp_state \<Rightarrow> phase" where
  "phase_of STATE_IDLE = Idle"
| "phase_of (STATE_TRANSCEIVE _ _ _ _) = Sending"
| "phase_of (STATE_WAIT_FOR_ACK _ _ _) = Waiting"
| "phase_of STATE_RECEIVE = Receiving"
| "phase_of STATE_BUILD_ACK = Acking"

text \<open>
  The abstract machine: from which phase a tick can lead to which, and with which result flags
  (received 1, sent 2, again 4, timeout 8, sleep 16, in transceive 32; negative for a HAL error).
\<close>

inductive phase_step :: "phase \<Rightarrow> int \<Rightarrow> phase \<Rightarrow> bool" where
  idle_send: "phase_step Idle 4 Sending"
| idle_receive: "phase_step Idle 4 Receiving"
| send_error: "r < 0 \<Longrightarrow> phase_step Sending r Sending"
| send_packet: "r \<in> {36, 37} \<Longrightarrow> phase_step Sending r Sending"
| sent: "r \<in> {4, 5} \<Longrightarrow> phase_step Sending r Waiting"
| ack_sent: "phase_step Waiting 0 Idle"
| ack_sent_packet: "r \<in> {4, 5} \<Longrightarrow> phase_step Waiting r Acking"
| acked_packet: "r \<in> {6, 7} \<Longrightarrow> phase_step Waiting r Acking"
| acked: "phase_step Waiting 2 Idle"
| not_acked: "r \<in> {12, 13} \<Longrightarrow> phase_step Waiting r Idle"
| ack_timeout: "phase_step Waiting 8 Idle"
| ack_pending: "phase_step Waiting 20 Waiting"
| receive_error: "r < 0 \<Longrightarrow> phase_step Receiving r Receiving"
| receive_packet: "r \<in> {4, 5} \<Longrightarrow> phase_step Receiving r Acking"
| receive_timeout: "phase_step Receiving 8 Idle"
| receive_nothing: "phase_step Receiving 16 Idle"
| build_ack: "phase_step Acking 4 Sending"

inductive_cases phase_step_waitingE: "phase_step Waiting r p"

lemma spitfp_inv_state: "spitfp_inv s \<Longrightarrow> state_ok st \<Longrightarrow> spitfp_inv (s\<lparr>sm_state := st\<rparr>)"
  by (simp add: spitfp_inv_def)

lemma filter_duplicates_inv:
  assumes "spitfp_inv s" and "state_ok st"
  obtains r s' where "tf_spitfp_filter_duplicates (s\<lparr>sm_state := st\<rparr>) = (r, s')" and "r \<in> {0, 1}"
    and "spitfp_inv s'" and "sm_state s' = st"
  using that assms
  by (cases "tf_spitfp_filter_duplicates (s\<lparr>sm_state := st\<rparr>)")
    (auto simp: tf_spitfp_filter_duplicates_def spitfp_inv_def Let_def pb_inv_remove split: if_splits)

text \<open>The result of a tick: the invariant is kept and the step is one of the abstract machine.\<close>

definition tick_ok :: "phase \<Rightarrow> (int \<times> TF_SPITFP \<times> 'w) option \<Rightarrow> bool" where
  "tick_ok p res \<longleftrightarrow> (\<exists>r s' w'. res = Some (r, s', w') \<and> spitfp_inv s' \<and>
     phase_step p r (phase_of (sm_state s')))"

lemma tick_okI [intro?]:
  "spitfp_inv s' \<Longrightarrow> phase_step p r (phase_of (sm_state s')) \<Longrightarrow> tick_ok p (Some (r, s', w'))"
  by (auto simp: tick_ok_def)

lemma tick_idle_ok:
  assumes "spitfp_inv s"
  shows "tick_ok Idle (case spitfp_tick_idle s d of (r, s') \<Rightarrow> Some (r, s', w))"
  using assms low_nibble_less [of "send_buf s ! Suc 0"]
  by (auto simp: spitfp_tick_idle_def tick_ok_def spitfp_inv_def Let_def intro: phase_step.intros)

lemma tick_build_ack_ok:
  assumes "spitfp_inv s"
  shows "tick_ok Acking (case spitfp_tick_build_ack s of (r, s') \<Rightarrow> Some (r, s', w))"
  using assms
  by (auto simp: spitfp_tick_build_ack_def tf_spitfp_build_ack_def tick_ok_def spitfp_inv_def Let_def
      nth_list_update intro: phase_step.intros)

lemma tick_transceive_ok:
  assumes "hal_ok ops" and "spitfp_inv s" and "sm_state s = STATE_TRANSCEIVE q received n offset"
  shows "tick_ok Sending (spitfp_tick_transceive ops s q received n offset w)"
proof -
  have st: "unat q < 16" "offset \<le> n" "n \<le> 83" using assms(2,3) by (simp_all add: spitfp_inv_def)
  from transceive_packet_loop_inv [OF assms(1,2) st(2,3), of "Suc (n - offset)" w] obtain r off' s0 w1
    where run: "tf_spitfp_transceive_packet ops s n offset w = Some (r, off', s0, w1)"
      and s0: "spitfp_inv s0" "off' \<le> n" and r: "r < 0 \<or> r = 2 \<or> r \<in> {1, 3}"
    by (auto simp: tf_spitfp_transceive_packet_def)
  obtain inner w2 where md: "min_deadline ops (state_deadline_us s0) w1 = (inner, w2)" by fastforce
  have inv: "spitfp_inv (s0\<lparr>sm_state := STATE_TRANSCEIVE q b n off'\<rparr>)"
    "spitfp_inv (s0\<lparr>sm_state := STATE_WAIT_FOR_ACK inner q b\<rparr>)" for b
    using s0 st by (simp_all add: spitfp_inv_state)
  obtain r1 s1 where f1: "tf_spitfp_filter_duplicates (s0\<lparr>sm_state := STATE_WAIT_FOR_ACK inner q True\<rparr>) = (r1, s1)"
    and 1: "r1 \<in> {0, 1}" "spitfp_inv s1" "sm_state s1 = STATE_WAIT_FOR_ACK inner q True"
    by (rule filter_duplicates_inv [OF s0(1), of "STATE_WAIT_FOR_ACK inner q True"]) (use st in simp)
  obtain r2 s2 where f2: "tf_spitfp_filter_duplicates (s0\<lparr>sm_state := STATE_TRANSCEIVE q True n off'\<rparr>) = (r2, s2)"
    and 2: "r2 \<in> {0, 1}" "spitfp_inv s2" "sm_state s2 = STATE_TRANSCEIVE q True n off'"
    by (rule filter_duplicates_inv [OF s0(1), of "STATE_TRANSCEIVE q True n off'"]) (use st s0 in simp)
  consider "r < 0" | "r = 1" | "r = 2" | "r = 3" using r by blast
  then show ?thesis
    by cases (use run md f1 f2 1 2 inv in
      \<open>auto simp: spitfp_tick_transceive_def tick_ok_def intro: phase_step.intros\<close>)
qed

lemma tick_receive_ok:
  assumes "hal_ok ops" and "spitfp_inv s" and "sm_state s = STATE_RECEIVE"
  shows "tick_ok Receiving (spitfp_tick_receive ops s w)"
proof -
  obtain r s0 w1 where run: "tf_spitfp_receive_packet ops s w = Some (r, s0, w1)"
    and s0: "spitfp_inv s0" "same_link s s0" and r: "r < 0 \<or> r \<in> {0, 1, 2}"
    by (rule receive_packet_inv [OF assms(1,2)])
  obtain r1 s1 where f1: "tf_spitfp_filter_duplicates (s0\<lparr>sm_state := STATE_BUILD_ACK\<rparr>) = (r1, s1)"
    and 1: "r1 \<in> {0, 1}" "spitfp_inv s1" "sm_state s1 = STATE_BUILD_ACK"
    by (rule filter_duplicates_inv [OF s0(1), of "STATE_BUILD_ACK"]) simp
  have idle: "spitfp_inv (s0\<lparr>sm_state := STATE_IDLE\<rparr>)" using s0(1) by (simp add: spitfp_inv_state)
  have st: "sm_state s0 = STATE_RECEIVE" using s0(2) assms(3) by (simp add: same_link_def)
  consider "r < 0" | "r = 0" | "r = 1" | "r = 2" using r by blast
  then show ?thesis
    by cases (use run f1 1 idle s0 st in
      \<open>auto simp: spitfp_tick_receive_def tick_ok_def intro: phase_step.intros\<close>)
qed

lemma tick_wait_for_ack_ok:
  assumes "hal_ok ops" and "spitfp_inv s" and "sm_state s = STATE_WAIT_FOR_ACK inner q received"
    and "q \<noteq> 0 \<Longrightarrow> \<exists>res. tf_spitfp_wait_for_ack fuel ops s q inner w = Some res"
  shows "tick_ok Waiting (spitfp_tick_wait_for_ack fuel ops s inner q received w)"
proof (cases "q = 0")
  case True
  let ?s = "s\<lparr>send_buf := (send_buf s)[0 := 0]\<rparr>"
  have inv: "spitfp_inv ?s" using assms(2) by (simp add: spitfp_inv_def nth_list_update)
  obtain r1 s1 where f1: "tf_spitfp_filter_duplicates (?s\<lparr>sm_state := STATE_BUILD_ACK\<rparr>) = (r1, s1)"
    and 1: "r1 \<in> {0, 1}" "spitfp_inv s1" "sm_state s1 = STATE_BUILD_ACK"
    by (rule filter_duplicates_inv [OF inv, of "STATE_BUILD_ACK"]) simp
  show ?thesis
    using True f1 1 inv
    by (auto simp: spitfp_tick_wait_for_ack_def tick_ok_def Let_def spitfp_inv_state intro: phase_step.intros)
next
  case False
  from assms(4) [OF False] obtain r s0 w1 where
    run: "tf_spitfp_wait_for_ack fuel ops s q inner w = Some (r, s0, w1)" by auto
  from wait_for_ack_inv [OF assms(1,2) this] have s0: "spitfp_inv s0" "same_link s s0"
    by (simp_all add: ack_result_def)
  obtain r1 s1 where f1: "tf_spitfp_filter_duplicates (s0\<lparr>sm_state := STATE_BUILD_ACK\<rparr>) = (r1, s1)"
    and 1: "r1 \<in> {0, 1}" "spitfp_inv s1" "sm_state s1 = STATE_BUILD_ACK"
    by (rule filter_duplicates_inv [OF s0(1), of "STATE_BUILD_ACK"]) simp
  obtain r2 s2 where f2: "tf_spitfp_filter_duplicates (s0\<lparr>sm_state := STATE_IDLE\<rparr>) = (r2, s2)"
    and 2: "r2 \<in> {0, 1}" "spitfp_inv s2" "sm_state s2 = STATE_IDLE"
    by (rule filter_duplicates_inv [OF s0(1), of "STATE_IDLE"]) simp
  have st: "sm_state s0 = STATE_WAIT_FOR_ACK inner q received" using s0(2) assms(3) by (simp add: same_link_def)
  show ?thesis
    using False run f1 f2 1 2 s0(1) st
    by (auto simp: spitfp_tick_wait_for_ack_def tick_ok_def spitfp_inv_state intro: phase_step.intros)
qed

text \<open>The fuel a tick needs while it waits for an acknowledgement.\<close>

definition tick_fuel :: "nat \<Rightarrow> ('w \<Rightarrow> nat) \<Rightarrow> nat \<Rightarrow> TF_SPITFP \<Rightarrow> 'w \<Rightarrow> bool" where
  "tick_fuel fuel cyc c s w \<longleftrightarrow> (case sm_state s of
     STATE_WAIT_FOR_ACK inner q received \<Rightarrow> \<exists>d. inner = of_nat d \<and> enough_fuel fuel cyc c d w
   | _ \<Rightarrow> True)"

lemma tick_inv:
  assumes "hal_ok ops" and "hal_clock ops cyc c" and "spitfp_inv s" and "tick_fuel fuel cyc c s w"
  shows "tick_ok (phase_of (sm_state s)) (tf_spitfp_tick fuel ops s deadline_us w)"
proof (cases "sm_state s")
  case (STATE_WAIT_FOR_ACK inner q received)
  then obtain d where "inner = of_nat d" "enough_fuel fuel cyc c d w"
    using assms(4) by (auto simp: tick_fuel_def)
  then have "\<exists>res. tf_spitfp_wait_for_ack fuel ops s q inner w = Some res"
    using wait_for_ack_terminates [OF assms(1-3)] by blast
  then show ?thesis
    using tick_wait_for_ack_ok [OF assms(1,3) STATE_WAIT_FOR_ACK] STATE_WAIT_FOR_ACK
    by (simp add: tf_spitfp_tick_def)
qed (use assms(1,3) in \<open>simp_all add: tf_spitfp_tick_def tick_idle_ok tick_build_ack_ok
      tick_transceive_ok tick_receive_ok\<close>)

text \<open>
  Claim C3. A tick of the state machine always returns, whatever bytes the peer sends and whichever
  HAL call fails: no loop runs forever while the clock advances, no transfer leaves the bounds of the
  send buffer or of the receive ring, the port's invariant is kept, and the step and its result flags
  are those of the abstract machine. While waiting for an acknowledgement the number of rounds is
  bounded by the clock cycles left until the inner deadline.
\<close>

theorem spitfp_tick_total:
  assumes "hal_ok ops" and "hal_clock ops cyc c" and "spitfp_inv s" and "tick_fuel fuel cyc c s w"
  shows "\<exists>r s' w'. tf_spitfp_tick fuel ops s deadline_us w = Some (r, s', w') \<and> spitfp_inv s' \<and>
    phase_step (phase_of (sm_state s)) r (phase_of (sm_state s'))"
  using tick_inv [OF assms] by (simp add: tick_ok_def)

theorem spitfp_tick_total_witness:
  "\<exists>r s' w'. tf_spitfp_tick 100 idle_hal
     ((tf_spitfp_create 0)\<lparr>sm_state := STATE_WAIT_FOR_ACK 50 3 False\<rparr>) 60 7 = Some (r, s', w') \<and>
     spitfp_inv s' \<and> phase_step Waiting r (phase_of (sm_state s'))"
proof -
  let ?s = "(tf_spitfp_create 0)\<lparr>sm_state := STATE_WAIT_FOR_ACK 50 3 False\<rparr>"
  have "spitfp_inv ?s" by (simp add: spitfp_inv_create spitfp_inv_state)
  moreover have "tick_fuel 100 id 1 ?s 7"
    by (auto simp: tick_fuel_def enough_fuel_def intro!: exI [of _ 50])
  ultimately show ?thesis
    using spitfp_tick_total [OF idle_hal_ok, of ?s 100 7 60] by simp
qed

end
