(* ===== verification/Spitfp_Delivery.thy ===== *)
theory Spitfp_Delivery
  imports Spitfp_Tick
begin

unbundle bit_operations_syntax

section \<open>Acknowledgements, sequence numbers and duplicates\<close>

text \<open>
  What the result flags of a tick mean for the layer above: when a packet counts as sent, that a
  received packet is passed on once, and two situations in which the code reports more than happened.
\<close>

subsection \<open>A packet counts as sent when it was acknowledged\<close>

definition hal_no_error :: "'w hal_ops \<Rightarrow> bool" where
  "hal_no_error ops \<longleftrightarrow> (\<forall>p en w. fst (hal_chip_select ops p en w) = 0) \<and>
     (\<forall>p bs w. fst (hal_transceive ops p bs w) = 0)"

lemma hal_no_error_receive:
  assumes "hal_no_error ops" and "tf_spitfp_receive ops s len w = Some (rc, s', w')"
  shows "rc = 0"
proof -
  have cs: "hal_chip_select ops p en w = (rc, w') \<Longrightarrow> rc = 0" for p en w rc w'
    using assms(1) unfolding hal_no_error_def by (metis fst_conv)
  have tr: "hal_transceive ops p bs w = (rc, rs, w') \<Longrightarrow> rc = 0" for p bs w rc rs w'
    using assms(1) unfolding hal_no_error_def by (metis fst_conv)
  show ?thesis
    using assms(2) unfolding tf_spitfp_receive_def tf_spitfp_transceive_buffer_def
    by (auto simp: Let_def TF_E_OK_def split: if_splits option.splits prod.splits Option.bind_splits
        dest: cs tr)
qed

lemma wait_for_ack_loop_nonneg:
  assumes "hal_no_error ops" and "wait_for_ack_loop fuel ops s q d missing w = Some (r, s', w')"
  shows "0 \<le> r"
  using assms(2)
proof (induction fuel arbitrary: s missing w)
  case (Suc fuel)
  then show ?case
    by (auto simp: Let_def split: if_splits prod.splits Option.bind_splits
        dest!: hal_no_error_receive [OF assms(1)])
qed simp

lemma wait_for_ack_nonneg:
  assumes "hal_no_error ops" and "tf_spitfp_wait_for_ack fuel ops s q d w = Some (r, s', w')"
  shows "0 \<le> r"
  using assms(2) unfolding tf_spitfp_wait_for_ack_def
  by (auto simp: Let_def split: if_splits Option.bind_splits dest: wait_for_ack_loop_nonneg [OF assms(1)])

lemma tick_ok_Some:
  assumes "hal_ok ops" and "spitfp_inv s" and "tf_spitfp_tick fuel ops s deadline_us w = Some res"
  shows "tick_ok (phase_of (sm_state s)) (Some res)"
proof (cases "sm_state s")
  case (STATE_WAIT_FOR_ACK inner q received)
  then have run: "spitfp_tick_wait_for_ack fuel ops s inner q received w = Some res"
    using assms(3) by (simp add: tf_spitfp_tick_def)
  then have "\<exists>res. tf_spitfp_wait_for_ack fuel ops s q inner w = Some res" if "q \<noteq> 0"
    using that by (auto simp: spitfp_tick_wait_for_ack_def split: Option.bind_splits)
  then have "tick_ok Waiting (spitfp_tick_wait_for_ack fuel ops s inner q received w)"
    by (rule tick_wait_for_ack_ok [OF assms(1,2) STATE_WAIT_FOR_ACK])
  then show ?thesis using run STATE_WAIT_FOR_ACK by simp
next
  case (STATE_TRANSCEIVE q received n offset)
  then show ?thesis
    using tick_transceive_ok [OF assms(1,2) STATE_TRANSCEIVE, of w] assms(3) by (simp add: tf_spitfp_tick_def)
next
  case STATE_RECEIVE
  then show ?thesis
    using tick_receive_ok [OF assms(1,2) STATE_RECEIVE, of w] assms(3) by (simp add: tf_spitfp_tick_def)
qed (use assms(3) tick_idle_ok [OF assms(2), where d = deadline_us and w = w]
      tick_build_ack_ok [OF assms(2), where w = w] in \<open>simp_all add: tf_spitfp_tick_def\<close>)

lemma sent_flag_waiting:
  assumes "phase_step p r p'" and "0 \<le> r" and "r AND 2 \<noteq> 0"
  shows "p = Waiting \<and> r \<in> {2, 6, 7}"
  using assms by cases auto

lemma filter_duplicates_acked [simp]:
  "last_sequence_number_acked (snd (tf_spitfp_filter_duplicates s)) = last_sequence_number_acked s"
  by (simp add: tf_spitfp_filter_duplicates_def Let_def)

text \<open>
  Claim C23. With a HAL that reports no error, a tick sets the flag for a sent packet only when it
  was waiting for the acknowledgement of a data packet and the peer has acknowledged exactly that
  packet's sequence number.
\<close>

theorem sent_means_acked:
  assumes "hal_ok ops" and "hal_no_error ops" and "spitfp_inv s"
    and "tf_spitfp_tick fuel ops s deadline_us w = Some (r, s', w')"
    and "0 \<le> r" and "r AND TF_TICK_PACKET_SENT \<noteq> 0"
  shows "\<exists>inner q received. sm_state s = STATE_WAIT_FOR_ACK inner q received \<and> q \<noteq> 0 \<and>
    last_sequence_number_acked s' = q"
proof -
  have "phase_of (sm_state s) = Waiting" and r: "r \<in> {2, 6, 7}"
    using tick_ok_Some [OF assms(1,3,4)] sent_flag_waiting [OF _ assms(5)] assms(6)
    by (auto simp: tick_ok_def)
  then obtain inner q received where st: "sm_state s = STATE_WAIT_FOR_ACK inner q received"
    by (cases "sm_state s") auto
  then have run: "spitfp_tick_wait_for_ack fuel ops s inner q received w = Some (r, s', w')"
    using assms(4) by (simp add: tf_spitfp_tick_def)
  have q: "q \<noteq> 0"
    using run r filter_duplicates_inv [OF assms(3)]
    by (auto simp: spitfp_tick_wait_for_ack_def tf_spitfp_filter_duplicates_def Let_def split: if_splits)
  then obtain k s1 w1 where wait: "tf_spitfp_wait_for_ack fuel ops s q inner w = Some (k, s1, w1)"
    using run by (auto simp: spitfp_tick_wait_for_ack_def split: Option.bind_splits)
  have k: "k \<in> {0, 2, 4, 6, 8}" "k \<in> {4, 6} \<longrightarrow> last_sequence_number_acked s1 = q"
    using wait_for_ack_inv [OF assms(1,3) wait] wait_for_ack_nonneg [OF assms(2) wait]
    by (auto simp: ack_result_def)
  have "last_sequence_number_acked s' = last_sequence_number_acked s1" if "k \<in> {4, 6}"
    using run q wait that r
    by (auto simp: spitfp_tick_wait_for_ack_def tf_spitfp_filter_duplicates_def Let_def split: if_splits)
  moreover have "k \<in> {4, 6}"
    using run q wait k(1) r
    by (auto simp: spitfp_tick_wait_for_ack_def tf_spitfp_filter_duplicates_def Let_def split: if_splits)
  ultimately show ?thesis using st q k(2) by simp
qed

lemma idle_hal_no_error: "hal_no_error idle_hal"
  by (simp add: idle_hal_def hal_no_error_def)

text \<open>A pure acknowledgement in the buffer is consumed by one look at it.\<close>

lemma process_ack_frame:
  assumes "pb_inv (recv_buf s)" and "pb_list (recv_buf s) = frame q []"
  obtains pb where "process_packets s = Some (False, 0, s\<lparr>recv_buf := pb,
      last_sequence_number_seen := q AND 0x0F, last_sequence_number_acked := drop_bit 4 q\<rparr>)"
    and "pb_inv pb" and "pb_list pb = []"
proof -
  have "scan_frames (frame q []) = (scan_frames [])\<lparr>sc_seqs := q # sc_seqs (scan_frames [])\<rparr>"
    using scan_ack_frame [of q "[]"] by simp
  then have scan: "scan_frames (pb_list (recv_buf s)) = \<lparr>sc_found = False, sc_missing = 0,
      sc_frame_errors = 0, sc_checksum_errors = 0, sc_seqs = [q], sc_rest = []\<rparr>"
    by (simp add: assms(2) scan_frames.simps)
  show ?thesis
    by (rule process_packets_refines [OF assms(1)]) (use that scan in \<open>simp add: after_scan_def\<close>)
qed

theorem sent_means_acked_witness:
  "let s = (tf_spitfp_create 0)\<lparr>sm_state := STATE_WAIT_FOR_ACK 50 3 False, recv_buf := pb_of_list (frame 0x30 [])\<rparr>
   in \<exists>s' w'. tf_spitfp_tick 100 idle_hal s 60 7 = Some (2, s', w') \<and> last_sequence_number_acked s' = 3"
proof -
  let ?s = "(tf_spitfp_create 0)\<lparr>sm_state := STATE_WAIT_FOR_ACK 50 3 False, recv_buf := pb_of_list (frame 0x30 [])\<rparr>"
  have inv: "spitfp_inv ?s" using spitfp_inv_create [of 0] by (simp add: spitfp_inv_def)
  obtain pb where "process_packets ?s = Some (False, 0, ?s\<lparr>recv_buf := pb,
      last_sequence_number_seen := 0x30 AND 0x0F, last_sequence_number_acked := drop_bit 4 0x30\<rparr>)"
    by (rule process_ack_frame [of ?s "0x30"]) simp_all
  then obtain s' where run: "tf_spitfp_tick 100 idle_hal ?s 60 7 = Some (2, s', 7)"
    by (simp add: tf_spitfp_tick_def spitfp_tick_wait_for_ack_def tf_spitfp_wait_for_ack_def)
  from sent_means_acked [OF idle_hal_ok(1) idle_hal_no_error inv run]
  have "last_sequence_number_acked s' = 3" by simp
  then show ?thesis using run by (simp only: Let_def) blast
qed



subsection \<open>Sequence numbers\<close>

lemma byte_next:
  assumes "unat (b :: byte) < 16" and "b \<noteq> 15"
  shows "unat (b + 1) = unat b + 1" and "unat b < 15"
proof -
  have "unat b \<noteq> 15" using assms(2) by (simp add: word_unat_eq_iff)
  then show "unat b < 15" using assms(1) by simp
  then show "unat (b + 1) = unat b + 1" by (simp add: unat_word_ariths)
qed

lemma new_seq_num_range:
  assumes "unat (last_sequence_number_sent s) < 16"
  defines "q \<equiv> next_spitfp_seq_num s (-1)"
  shows "1 \<le> unat q" and "unat q < 16" and "q \<noteq> last_sequence_number_sent s"
proof -
  have "1 \<le> unat q \<and> unat q < 16 \<and> q \<noteq> last_sequence_number_sent s"
  proof (cases "last_sequence_number_sent s = 15")
    case True
    then show ?thesis by (simp add: q_def next_spitfp_seq_num_def)
  next
    case False
    then show ?thesis
      using byte_next [OF assms(1) False] by (auto simp: q_def next_spitfp_seq_num_def)
  qed
  then show "1 \<le> unat q" "unat q < 16" "q \<noteq> last_sequence_number_sent s" by simp_all
qed

text \<open>A built packet is well-formed again and carries the same TFP packet.\<close>

lemma built_packet:
  assumes "send_payload_ok s" and "length buf = 83"
    and "take (unat (send_buf s ! 6) + 3) buf = frame qq (send_payload s)"
  shows "buf ! 6 = send_buf s ! 6" and "buf ! 1 = qq"
    and "take (unat (send_buf s ! 6)) (drop 2 buf) = send_payload s"
proof -
  let ?n = "unat (send_buf s ! 6)"
  have n: "8 \<le> ?n" "?n \<le> 80" "length (send_payload s) = ?n" "length (send_buf s) = 83"
    using assms(1) length_send_payload [OF assms(1)] by (simp_all add: send_payload_ok_def)
  have nth: "buf ! i = frame qq (send_payload s) ! i" if "i < ?n + 3" for i
    using that by (simp flip: assms(3))
  have "frame qq (send_payload s) ! 6 = send_payload s ! 4"
    using n by (simp add: frame_def Let_def nth_append)
  also have "\<dots> = send_buf s ! 6" using n by (simp add: send_payload_def)
  finally show "buf ! 6 = send_buf s ! 6" using nth [of 6] n by simp
  show "buf ! 1 = qq" using nth [of 1] by (simp add: frame_def Let_def)
  have "take ?n (drop 2 buf) = take ?n (drop 2 (take (?n + 3) buf))" by (simp add: take_drop)
  also have "\<dots> = send_payload s" using n by (simp add: assms(3) frame_def Let_def)
  finally show "take ?n (drop 2 buf) = send_payload s" .
qed

text \<open>
  A new packet gets a sequence number between 1 and 15 that differs from the previous
  one, so the peer can tell it from a retransmission and from a pure acknowledgement, which uses 0;
  rebuilding the packet for a retransmission succeeds, repeats the number and leaves every byte of
  the send buffer as it was.
\<close>

lemma new_packet_then_retransmission:
  assumes "send_payload_ok s" and "unat (last_sequence_number_sent s) < 16"
    and "unat (last_sequence_number_seen s) < 16"
  shows "\<exists>q s' s''. tf_spitfp_build_packet s TF_NEW_PACKET = Some (q, s') \<and>
    1 \<le> unat q \<and> unat q < 16 \<and> q \<noteq> last_sequence_number_sent s \<and> last_sequence_number_sent s' = q \<and>
    send_buf s' ! 1 AND 0x0F = q \<and>
    tf_spitfp_build_packet s' TF_RETRANSMISSION = Some (q, s'') \<and> send_buf s'' = send_buf s'"
proof -
  define q where "q = next_spitfp_seq_num s (-1)"
  let ?n = "unat (send_buf s ! 6)" and ?qq = "q OR push_bit 4 (last_sequence_number_seen s)"
  note range = new_seq_num_range [OF assms(2), folded q_def]
  obtain buf where b1: "tf_spitfp_build_packet s (-1) = Some (q, s\<lparr>last_sequence_number_sent := q, send_buf := buf\<rparr>)"
    and buf: "length buf = 83" "take (?n + 3) buf = frame ?qq (send_payload s)"
    unfolding q_def by (rule build_packet_frame [OF assms(1), of "-1"]) blast
  note built = built_packet [OF assms(1) buf]
  define s' where "s' = s\<lparr>last_sequence_number_sent := q, send_buf := buf\<rparr>"
  have "send_payload_ok s'" using assms(1) buf(1) built(1) by (simp add: s'_def send_payload_ok_def)
  moreover have q': "next_spitfp_seq_num s' (-2) = q"
    using built(2) pack_nibbles(1) [OF range(2)] by (simp add: s'_def next_spitfp_seq_num_def)
  ultimately obtain buf' where b2: "tf_spitfp_build_packet s' (-2) =
      Some (q, s'\<lparr>last_sequence_number_sent := q, send_buf := buf'\<rparr>)"
    and buf': "take (unat (send_buf s' ! 6) + 3) buf' =
        frame (q OR push_bit 4 (last_sequence_number_seen s')) (send_payload s')"
      "drop (unat (send_buf s' ! 6) + 3) buf' = drop (unat (send_buf s' ! 6) + 3) (send_buf s')"
    using build_packet_frame [of s' "-2"] by metis
  have "send_payload s' = send_payload s" using built(1,3) by (simp add: s'_def send_payload_def)
  then have "take (?n + 3) buf' = take (?n + 3) buf" "drop (?n + 3) buf' = drop (?n + 3) buf"
    using buf' built(1) buf(2) by (simp_all add: s'_def)
  then have "buf' = buf" by (metis append_take_drop_id)
  then show ?thesis
    using b1 b2 range built(2) pack_nibbles(1) [OF range(2)] by (simp add: s'_def)
qed

subsection \<open>Delivery to the layer above\<close>



text \<open>
  Claim C33. An acknowledgement is reported as a received packet: if a data packet arrived while the
  own packet was being sent, and the peer then answers with a pure acknowledgement (sequence number 0),
  the duplicate filter runs a second time on the acknowledgement. The tick then reports a received
  packet although the receive buffer is empty, and forgets the sequence number of the packet passed on
  before: the port now counts 0 as last seen and last passed on, so the acknowledgement it builds next
  does not acknowledge the data packet, and the peer's retransmission of it is passed on again.
\<close>

theorem ack_taken_for_packet:
  assumes "pb_inv (recv_buf s)" and "sm_state s = STATE_WAIT_FOR_ACK inner q True"
    and "q \<noteq> 0" and "unat q < 16" and "pb_list (recv_buf s) = frame (push_bit 4 q) []"
    and "last_sequence_number_given_to_tfp s \<noteq> 0"
  shows "\<exists>s'. tf_spitfp_tick fuel ops s deadline_us w =
      Some (TF_TICK_AGAIN OR TF_TICK_PACKET_SENT OR TF_TICK_PACKET_RECEIVED, s', w) \<and>
    pb_list (recv_buf s') = [] \<and> sm_state s' = STATE_BUILD_ACK \<and>
    last_sequence_number_seen s' = 0 \<and> last_sequence_number_given_to_tfp s' = 0"
proof -
  have nib: "push_bit 4 q AND 0x0F = 0" "drop_bit 4 (push_bit 4 q) = q"
    using pack_nibbles [of 0 q] assms(4) by simp_all
  obtain pb where "process_packets s = Some (False, 0, s\<lparr>recv_buf := pb,
      last_sequence_number_seen := 0, last_sequence_number_acked := q\<rparr>)" and "pb_list pb = []"
    by (rule process_ack_frame [OF assms(1,5)]) (simp add: nib)
  then show ?thesis
    using assms(2,3,6) by (simp add: tf_spitfp_tick_def spitfp_tick_wait_for_ack_def
        tf_spitfp_wait_for_ack_def tf_spitfp_filter_duplicates_def)
qed

theorem ack_taken_for_packet_witness:
  "\<exists>s'. tf_spitfp_tick 0 idle_hal ((tf_spitfp_create 0)\<lparr>sm_state := STATE_WAIT_FOR_ACK 50 3 True,
       last_sequence_number_given_to_tfp := 5, last_sequence_number_seen := 5,
       recv_buf := pb_of_list (frame 0x30 [])\<rparr>) 60 7 = Some (7, s', 7) \<and> pb_list (recv_buf s') = []"
  using ack_taken_for_packet [of "(tf_spitfp_create 0)\<lparr>sm_state := STATE_WAIT_FOR_ACK 50 3 True,
       last_sequence_number_given_to_tfp := 5, last_sequence_number_seen := 5,
       recv_buf := pb_of_list (frame 0x30 [])\<rparr>" 50 3 0 idle_hal 60 7]
  by auto

end
