(* ===== verification/Tfp_Header.thy ===== *)
theory Tfp_Header
  imports Packet_Buffer
begin

unbundle bit_operations_syntax

section \<open>The TFP packet header (tfp_header.c)\<close>

text \<open>
  Every TFP packet starts with eight bytes: the UID, the packet length, the function id, a byte
  that packs the sequence number with the response-expected flag and the options, and a byte that
  packs the error code with the flags. The theory models the three readers and the writer and shows
  that each reader inverts the writer.
\<close>

record TF_TFPHeader =
  hdr_uid_num :: u32
  hdr_length :: byte
  hdr_fid :: byte
  hdr_seq_num :: byte
  hdr_response_expected :: bool
  hdr_options :: byte
  hdr_error_code :: byte
  hdr_flags :: byte

definition header_is_valid :: "TF_TFPHeader \<Rightarrow> bool" where
  "header_is_valid h =
     (if unat (hdr_length h) < TF_TFP_MIN_MESSAGE_LENGTH then False
      else if unat (hdr_length h) > TF_TFP_MAX_MESSAGE_LENGTH then False
      else True)"

text \<open>Splits the two packed bytes that the readers first leave in \<open>hdr_seq_num\<close> and \<open>hdr_flags\<close>.\<close>

definition parse_header :: "TF_TFPHeader \<Rightarrow> TF_TFPHeader" where
  "parse_header h =
     h\<lparr>hdr_response_expected := (hdr_seq_num h AND 0x08 \<noteq> 0),
       hdr_options := hdr_seq_num h AND 0x07,
       hdr_seq_num := drop_bit 4 (hdr_seq_num h),
       hdr_error_code := drop_bit 6 (hdr_flags h),
       hdr_flags := hdr_flags h AND 0x3F\<rparr>"

text \<open>The fields as the readers fill them before splitting; the rest is not read.\<close>

definition raw_header :: "u32 \<Rightarrow> byte \<Rightarrow> byte \<Rightarrow> byte \<Rightarrow> byte \<Rightarrow> TF_TFPHeader" where
  "raw_header uid len fid sq fl =
     \<lparr>hdr_uid_num = uid, hdr_length = len, hdr_fid = fid, hdr_seq_num = sq,
      hdr_response_expected = False, hdr_options = 0, hdr_error_code = 0, hdr_flags = fl\<rparr>"

definition tf_tfp_header_read :: "TF_PacketBuffer \<Rightarrow> bool \<times> TF_TFPHeader \<times> TF_PacketBuffer" where
  "tf_tfp_header_read buf =
     (case tf_packet_buffer_read_uint32_t buf of (uid, b1) \<Rightarrow>
      case tf_packet_buffer_read_uint8_t b1 of (len, b2) \<Rightarrow>
      case tf_packet_buffer_read_uint8_t b2 of (fid, b3) \<Rightarrow>
      case tf_packet_buffer_read_uint8_t b3 of (sq, b4) \<Rightarrow>
      case tf_packet_buffer_read_uint8_t b4 of (fl, b5) \<Rightarrow>
        let header = parse_header (raw_header uid len fid sq fl)
        in (header_is_valid header, header, b5))"

definition tf_tfp_header_peek :: "TF_PacketBuffer \<Rightarrow> bool \<times> TF_TFPHeader" where
  "tf_tfp_header_peek buf =
     (let header = parse_header (raw_header
            (tf_packet_buffer_peek_uint32_t buf 0) (tf_packet_buffer_peek_uint8_t buf 4)
            (tf_packet_buffer_peek_uint8_t buf 5) (tf_packet_buffer_peek_uint8_t buf 6)
            (tf_packet_buffer_peek_uint8_t buf 7))
      in (header_is_valid header, header))"

definition tf_tfp_header_peek_plain :: "byte list \<Rightarrow> bool \<times> TF_TFPHeader" where
  "tf_tfp_header_peek_plain buf =
     (let uid_num = of_mem target_endian (map (\<lambda>i. buf ! i) [0..<4]);
          header = parse_header (raw_header (tf_leconvert_uint32_from target_endian uid_num)
            (buf ! 4) (buf ! 5) (buf ! 6) (buf ! 7))
      in (header_is_valid header, header))"

text \<open>The eight bytes stored into \<^verbatim>\<open>buf\<close>.\<close>

definition tf_tfp_header_write :: "TF_TFPHeader \<Rightarrow> byte list" where
  "tf_tfp_header_write h =
     mem_bytes target_endian 4 (tf_leconvert_uint32_to target_endian (hdr_uid_num h)) @
     [hdr_length h, hdr_fid h,
      push_bit 4 (hdr_seq_num h) OR push_bit 3 (if hdr_response_expected h then 1 else 0) OR
        hdr_options h,
      push_bit 6 (hdr_error_code h) OR hdr_flags h]"

subsection \<open>Reading inverts writing\<close>

text \<open>The packed fields fit their bit fields.\<close>

definition header_fits :: "TF_TFPHeader \<Rightarrow> bool" where
  "header_fits h \<longleftrightarrow> hdr_seq_num h < 16 \<and> hdr_options h < 8 \<and> hdr_error_code h < 4 \<and> hdr_flags h < 64"

definition decode_header :: "byte list \<Rightarrow> TF_TFPHeader" where
  "decode_header bs = parse_header (raw_header (le_word (take 4 bs)) (bs ! 4) (bs ! 5) (bs ! 6) (bs ! 7))"

lemma length_header_write [simp]: "length (tf_tfp_header_write h) = 8"
  by (simp add: tf_tfp_header_write_def)

lemma header_write_eq:
  "tf_tfp_header_write h = le_bytes 4 (hdr_uid_num h) @
     [hdr_length h, hdr_fid h,
      push_bit 4 (hdr_seq_num h) OR push_bit 3 (if hdr_response_expected h then 1 else 0) OR
        hdr_options h,
      push_bit 6 (hdr_error_code h) OR hdr_flags h]"
proof -
  have "mem_bytes target_endian 4 (tf_leconvert_uint32_to target_endian (hdr_uid_num h)) =
      le_bytes 4 (hdr_uid_num h)"
    by (simp add: leconvert_to_eq mem_bytes_of_mem)
  then show ?thesis by (simp only: tf_tfp_header_write_def)
qed

lemma seq_byte_fields:
  fixes s p :: byte and r :: bool
  assumes "s < 16" and "p < 8"
  defines "x \<equiv> push_bit 4 s OR push_bit 3 (if r then 1 else 0) OR (p :: byte)"
  shows "drop_bit 4 x = s" and "x AND 0x07 = p" and "(x AND 0x08 \<noteq> 0) = r"
proof -
  have s: "bit s n \<Longrightarrow> n < 4" for n
    using assms(1) no_high_bits [of s 4 n] by (auto simp: word_less_nat_alt not_less [symmetric])
  have p: "bit p n \<Longrightarrow> n < 3" for n
    using assms(2) no_high_bits [of p 3 n] by (auto simp: word_less_nat_alt not_less [symmetric])
  have m: "(0x07 :: byte) = mask 3" by (simp add: mask_eq_exp_minus_1)
  show "drop_bit 4 x = s"
    by (rule bit_word_eqI) (auto simp: x_def bit_simps dest: s p)
  show "x AND 0x07 = p"
    unfolding m by (rule bit_word_eqI) (auto simp: x_def bit_simps dest: s p)
  have "(x AND 2 ^ 3 \<noteq> 0) = r"
    by (simp only: and_exp_eq_0_iff_not_bit) (auto simp: x_def bit_simps dest: s p)
  then show "(x AND 0x08 \<noteq> 0) = r" by simp
qed

lemma flags_byte_fields:
  assumes "e < 4" and "f < (64 :: byte)"
  shows "drop_bit 6 (push_bit 6 e OR f) = e" and "(push_bit 6 e OR f) AND 0x3F = f"
proof -
  have e: "bit e n \<Longrightarrow> n < 2" for n
    using assms(1) no_high_bits [of e 2 n] by (auto simp: word_less_nat_alt not_less [symmetric])
  have f: "bit f n \<Longrightarrow> n < 6" for n
    using assms(2) no_high_bits [of f 6 n] by (auto simp: word_less_nat_alt not_less [symmetric])
  have m: "(0x3F :: byte) = mask 6" by (simp add: mask_eq_exp_minus_1)
  show "drop_bit 6 (push_bit 6 e OR f) = e"
    by (rule bit_word_eqI) (auto simp: bit_simps dest: e f)
  show "(push_bit 6 e OR f) AND 0x3F = f"
    unfolding m by (rule bit_word_eqI) (auto simp: bit_simps dest: e f)
qed

lemma decode_header_write:
  assumes "header_fits h"
  shows "decode_header (tf_tfp_header_write h @ rest) = h"
proof -
  have nth: "(le_bytes 4 (hdr_uid_num h) @ [a, b, c, d]) ! 4 = a"
    "(le_bytes 4 (hdr_uid_num h) @ [a, b, c, d]) ! 5 = b"
    "(le_bytes 4 (hdr_uid_num h) @ [a, b, c, d]) ! 6 = c"
    "(le_bytes 4 (hdr_uid_num h) @ [a, b, c, d]) ! 7 = d" for a b c d
    by (simp_all add: nth_append)
  note sq = seq_byte_fields [of "hdr_seq_num h" "hdr_options h" "hdr_response_expected h"]
  note fl = flags_byte_fields [of "hdr_error_code h" "hdr_flags h"]
  have "decode_header (tf_tfp_header_write h @ rest) = decode_header (tf_tfp_header_write h)"
    by (simp add: decode_header_def nth_append)
  also have "\<dots> = h"
    using assms unfolding decode_header_def header_write_eq nth
    by (simp add: header_fits_def parse_header_def raw_header_def sq fl le_word_le_bytes
        del: drop_bit_or)
  finally show ?thesis .
qed

interpretation header_codec: byte_codec tf_tfp_header_write decode_header 8 header_fits
  by unfold_locales (use decode_header_write [of _ "[]"] in simp_all)

lemma header_read_effect:
  assumes "pb_inv pb" and "8 \<le> length (pb_list pb)"
  obtains pb' where "tf_tfp_header_read pb =
      (header_is_valid (decode_header (pb_list pb)), decode_header (pb_list pb), pb')"
    and "pb_inv pb'" and "pb_list pb' = drop 8 (pb_list pb)"
proof -
  let ?l = "pb_list pb"
  have split: "?l = take 4 ?l @ ?l ! 4 # ?l ! 5 # ?l ! 6 # ?l ! 7 # drop 8 ?l"
    using assms(2) by (simp add: Cons_nth_drop_Suc numeral_eq_Suc)
  have len4: "length (take 4 ?l) = 4" using assms(2) by simp
  obtain b1 where b1: "tf_packet_buffer_read_uint32_t pb = (le_word (take 4 ?l), b1)" "pb_inv b1"
      "pb_list b1 = ?l ! 4 # ?l ! 5 # ?l ! 6 # ?l ! 7 # drop 8 ?l"
    using read_uint32_effect [OF assms(1) split len4] by blast
  obtain b2 where b2: "tf_packet_buffer_read_uint8_t b1 = (?l ! 4, b2)" "pb_inv b2"
      "pb_list b2 = ?l ! 5 # ?l ! 6 # ?l ! 7 # drop 8 ?l" using read_uint8_effect [OF b1(2,3)] by blast
  obtain b3 where b3: "tf_packet_buffer_read_uint8_t b2 = (?l ! 5, b3)" "pb_inv b3"
      "pb_list b3 = ?l ! 6 # ?l ! 7 # drop 8 ?l" using read_uint8_effect [OF b2(2,3)] by blast
  obtain b4 where b4: "tf_packet_buffer_read_uint8_t b3 = (?l ! 6, b4)" "pb_inv b4"
      "pb_list b4 = ?l ! 7 # drop 8 ?l" using read_uint8_effect [OF b3(2,3)] by blast
  obtain b5 where b5: "tf_packet_buffer_read_uint8_t b4 = (?l ! 7, b5)" "pb_inv b5"
      "pb_list b5 = drop 8 ?l" using read_uint8_effect [OF b4(2,3)] by blast
  show ?thesis
    using that b1(1) b2(1) b3(1) b4(1) b5 by (simp add: tf_tfp_header_read_def decode_header_def Let_def)
qed

lemma header_peek_eq:
  assumes "pb_inv pb" and "8 \<le> length (pb_list pb)"
  shows "tf_tfp_header_peek pb =
    (header_is_valid (decode_header (pb_list pb)), decode_header (pb_list pb))"
  using assms
  by (simp add: tf_tfp_header_peek_def decode_header_def tf_packet_buffer_peek_uint32_t_def
      tf_packet_buffer_peek_uint8_t_def peek_offset_n_eq peek_offset_eq from_memory Let_def)

lemma header_peek_plain_eq:
  assumes "8 \<le> length bs"
  shows "tf_tfp_header_peek_plain bs = (header_is_valid (decode_header bs), decode_header bs)"
proof -
  have "map (\<lambda>i. bs ! i) [0..<4] = take 4 bs"
    using assms by (intro nth_equalityI) simp_all
  then show ?thesis
    using assms by (simp add: tf_tfp_header_peek_plain_def decode_header_def from_memory Let_def)
qed

text \<open>
  A header whose packed fields fit is recovered exactly by all three readers from the
  bytes the writer produced, whatever follows them, and is reported valid precisely when its length
  field is between 8 and 80; reading from the ring buffer consumes the eight bytes.
\<close>

lemma tfp_header_roundtrip:
  assumes "header_fits h" and "pb_inv pb" and "pb_list pb = tf_tfp_header_write h @ rest"
  shows "tf_tfp_header_peek_plain (tf_tfp_header_write h @ rest) = (header_is_valid h, h) \<and>
    tf_tfp_header_peek pb = (header_is_valid h, h) \<and>
    (\<exists>pb'. tf_tfp_header_read pb = (header_is_valid h, h, pb') \<and> pb_inv pb' \<and> pb_list pb' = rest) \<and>
    (header_is_valid h \<longleftrightarrow> 8 \<le> unat (hdr_length h) \<and> unat (hdr_length h) \<le> 80)"
proof -
  have len: "8 \<le> length (pb_list pb)" using assms(3) by simp
  have dec: "decode_header (pb_list pb) = h"
    using decode_header_write [OF assms(1)] assms(3) by simp
  obtain pb' where "tf_tfp_header_read pb = (header_is_valid h, h, pb')" "pb_inv pb'"
      "pb_list pb' = drop 8 (pb_list pb)"
    using header_read_effect [OF assms(2) len] dec by metis
  moreover have "drop 8 (pb_list pb) = rest"
    using header_codec.drop_enc [OF assms(1)] assms(3) by simp
  ultimately show ?thesis
    using header_peek_eq [OF assms(2) len] header_peek_plain_eq [of "pb_list pb"] len dec assms(3)
    by (auto simp: header_is_valid_def)
qed

end
