(* ===== verification/Local.thy ===== *)
theory Local
  imports Tfp_Header Base58
begin

unbundle bit_operations_syntax

section \<open>The brick itself as a TFP device (local.c)\<close>

text \<open>
  The ESP32 brick answers TFP requests of the network side for itself: it has a UID, answers
  \<^verbatim>\<open>get_identity\<close>, rejects everything else, and reports itself on enumeration.
  Characters are stored as bytes, as in the C arrays.
\<close>

record TF_Local =
  local_device :: "nat option"
  local_uid_num :: u32
  local_next_sequence_number :: byte
  trigger_enumerate_callback :: bool
  local_device_id :: u16
  position :: char
  local_uid_str :: "char list"
  hw_version :: "byte list"
  fw_version :: "byte list"
  local_send_buf :: "byte list"
  local_recv_buf :: "byte list"

definition zero_local :: TF_Local where
  "zero_local = \<lparr>local_device = None, local_uid_num = 0, local_next_sequence_number = 0,
     trigger_enumerate_callback = False, local_device_id = 0, position = NUL,
     local_uid_str = replicate 7 NUL, hw_version = replicate 3 0, fw_version = replicate 3 0,
     local_send_buf = replicate 80 0, local_recv_buf = replicate 80 0\<rparr>"

text \<open>
  \<open>uid\<close> is the memory the UID pointer refers to; seven characters of it are copied. The versions
  are arrays of three bytes.
\<close>

definition tf_local_create ::
  "char list \<Rightarrow> char \<Rightarrow> byte list \<Rightarrow> byte list \<Rightarrow> u16 \<Rightarrow> int \<times> TF_Local" where
  "tf_local_create uid pos hw fw dev_id =
     (case tf_base58_decode (c_str uid) 0 of (rc, num) \<Rightarrow>
        let l = zero_local\<lparr>local_uid_num := num\<rparr> in
        if rc \<noteq> TF_E_OK then (rc, l)
        else (TF_E_OK, l\<lparr>local_uid_str := take 7 uid, hw_version := take 3 hw, fw_version := take 3 fw,
               local_device_id := dev_id, position := pos, local_next_sequence_number := 1\<rparr>))"

definition tf_local_get_send_buffer :: "TF_Local \<Rightarrow> byte list" where
  "tf_local_get_send_buffer l = local_send_buf l"

definition tf_local_get_recv_buffer :: "TF_Local \<Rightarrow> byte list" where
  "tf_local_get_recv_buffer l = local_recv_buf l"

definition tf_local_inject_packet :: "TF_Local \<Rightarrow> TF_TFPHeader \<Rightarrow> byte list \<Rightarrow> TF_Local" where
  "tf_local_inject_packet l header packet =
     l\<lparr>local_send_buf := write_at 0 (take (unat (hdr_length header)) packet) (replicate 80 0)\<rparr>"

text \<open>The stores into \<^verbatim>\<open>recv_buf\<close> that both answers share, behind the header.\<close>

definition write_identity :: "TF_Local \<Rightarrow> byte list \<Rightarrow> byte list" where
  "write_identity l buf =
     (let b1 = write_at 8 (map of_char (local_uid_str l)) buf;
          b2 = b1[15 := 0, 16 := 0x30, 17 := 0, 24 := of_char (position l),
                  25 := hw_version l ! 0, 26 := hw_version l ! 1, 27 := hw_version l ! 2,
                  28 := fw_version l ! 0, 29 := fw_version l ! 1, 30 := fw_version l ! 2]
      in write_at 31 (mem_bytes target_endian 2 (tf_leconvert_uint16_to target_endian (local_device_id l))) b2)"

definition tf_local_transceive_packet :: "TF_Local \<Rightarrow> TF_Local" where
  "tf_local_transceive_packet l =
     (let header = snd (tf_tfp_header_peek_plain (local_send_buf l)) in
      if hdr_fid header = 255
      then l\<lparr>local_recv_buf := write_identity l
             (write_at 0 (tf_tfp_header_write (header\<lparr>hdr_length := 33\<rparr>)) (local_recv_buf l))\<rparr>
      else l\<lparr>local_recv_buf :=
             write_at 0 (tf_tfp_header_write (header\<lparr>hdr_length := 8, hdr_error_code := 2\<rparr>))
               (local_recv_buf l)\<rparr>)"

definition local_enumerate_header :: "TF_Local \<Rightarrow> TF_TFPHeader" where
  "local_enumerate_header l = \<lparr>hdr_uid_num = local_uid_num l, hdr_length = 34, hdr_fid = 253,
     hdr_seq_num = 0, hdr_response_expected = True, hdr_options = 0, hdr_error_code = 0, hdr_flags = 0\<rparr>"

definition tf_local_callback_tick :: "TF_Local \<Rightarrow> bool \<times> TF_Local" where
  "tf_local_callback_tick l =
     (if trigger_enumerate_callback l
      then (True, l\<lparr>trigger_enumerate_callback := False,
              local_recv_buf := (write_identity l
                (write_at 0 (tf_tfp_header_write (local_enumerate_header l)) (local_recv_buf l)))[33 := 0]\<rparr>)
      else (False, l))"

subsection \<open>The answers are well-formed packets\<close>

definition local_inv :: "TF_Local \<Rightarrow> bool" where
  "local_inv l \<longleftrightarrow> length (local_send_buf l) = 80 \<and> length (local_recv_buf l) = 80 \<and>
     length (local_uid_str l) = 7 \<and> length (hw_version l) = 3 \<and> length (fw_version l) = 3"

lemma local_inv_create:
  assumes "7 \<le> length uid" and "length hw = 3" and "length fw = 3"
  shows "local_inv (snd (tf_local_create uid pos hw fw dev_id))"
  using assms by (auto simp: tf_local_create_def local_inv_def zero_local_def Let_def split: prod.splits)

lemma local_inv_inject:
  "local_inv l \<Longrightarrow> unat (hdr_length header) \<le> 80 \<Longrightarrow> local_inv (tf_local_inject_packet l header packet)"
  by (simp add: local_inv_def tf_local_inject_packet_def)

lemma length_write_identity:
  "local_inv l \<Longrightarrow> length buf = 80 \<Longrightarrow> length (write_identity l buf) = 80"
  by (simp add: write_identity_def Let_def local_inv_def)

lemma local_inv_transceive: "local_inv l \<Longrightarrow> local_inv (tf_local_transceive_packet l)"
  using length_write_identity [of l] by (simp add: tf_local_transceive_packet_def local_inv_def Let_def)

lemma local_inv_callback_tick: "local_inv l \<Longrightarrow> local_inv (snd (tf_local_callback_tick l))"
  using length_write_identity [of l] by (simp add: tf_local_callback_tick_def local_inv_def)

lemma write_at_0_take: "length bs \<le> length xs \<Longrightarrow> take (length bs) (write_at 0 bs xs) = bs"
  by (simp add: write_at_def)

lemma take_write_at: "n \<le> off \<Longrightarrow> off \<le> length xs \<Longrightarrow> take n (write_at off bs xs) = take n xs"
  by (simp add: write_at_def min_absorb1)

lemma header_of_identity:
  assumes "local_inv l" and "length buf = 80"
  shows "take 8 (write_identity l buf) = take 8 buf"
  using assms by (simp add: write_identity_def Let_def take_write_at local_inv_def)

lemma peek_plain_take: "8 \<le> length bs \<Longrightarrow> tf_tfp_header_peek_plain bs = tf_tfp_header_peek_plain (take 8 bs)"
  by (simp add: header_peek_plain_eq decode_header_def min_absorb1)

lemma parse_header_fits: "header_fits (parse_header h)"
proof -
  have "b AND 7 < 8" "drop_bit 4 b < 16" "drop_bit 6 b < 4" "b AND 63 < 64" for b :: byte
  proof -
    have "b AND 7 = take_bit 3 b" "b AND 63 = take_bit 6 b" by (simp_all add: take_bit_eq_mask mask_eq_exp_minus_1)
    then have "unat (b AND 7) = take_bit 3 (unat b)" "unat (b AND 63) = take_bit 6 (unat b)"
      by (simp_all add: unsigned_take_bit_eq)
    then show "b AND 7 < 8" "b AND 63 < 64" by (simp_all add: take_bit_eq_mod word_less_nat_alt)
    show "drop_bit 4 b < 16" using high_nibble_less [of b] by (simp add: word_less_nat_alt)
    show "drop_bit 6 b < 4" using unat_byte_less [of b]
      by (simp add: word_less_nat_alt drop_bit_eq_div unat_div_distrib less_mult_imp_div_less)
  qed
  then show ?thesis by (simp add: parse_header_def header_fits_def)
qed

lemma header_fits_peek: "header_fits (snd (tf_tfp_header_peek_plain bs))"
  by (simp add: tf_tfp_header_peek_plain_def Let_def parse_header_fits)

lemma peek_written_header:
  assumes "header_fits h" and "8 \<le> length bs" and "take 8 bs = tf_tfp_header_write h"
  shows "snd (tf_tfp_header_peek_plain bs) = h"
  unfolding peek_plain_take [OF assms(2)] assms(3)
  using decode_header_write [OF assms(1), of "[]"] by (simp add: header_peek_plain_eq)

lemma write_identity_payload:
  assumes "local_inv l" and "length buf = 80"
  shows "take 8 (drop 8 (write_identity l buf)) = map of_char (local_uid_str l) @ [0]"
    and "write_identity l buf ! 24 = of_char (position l)"
    and "take 2 (drop 31 (write_identity l buf)) = le_bytes 2 (local_device_id l)"
proof -
  let ?dev = "mem_bytes target_endian 2 (tf_leconvert_uint16_to target_endian (local_device_id l))"
  have dev: "?dev = le_bytes 2 (local_device_id l)"
    by (simp add: leconvert_to_eq mem_bytes_of_mem)
  have len: "length (local_uid_str l) = 7" using assms(1) by (simp add: local_inv_def)
  show "take 8 (drop 8 (write_identity l buf)) = map of_char (local_uid_str l) @ [0]"
  proof (rule nth_equalityI)
    show "length (take 8 (drop 8 (write_identity l buf))) = length (map of_char (local_uid_str l) @ [0 :: byte])"
      using length_write_identity [OF assms] len by simp
    fix i assume "i < length (take 8 (drop 8 (write_identity l buf)))"
    then have i: "i < 8" by simp
    then show "take 8 (drop 8 (write_identity l buf)) ! i = (map of_char (local_uid_str l) @ [0]) ! i"
      using assms(2) len length_write_identity [OF assms]
      by (cases "i = 7") (simp_all add: write_identity_def Let_def nth_write_at nth_list_update nth_append)
  qed
  show "write_identity l buf ! 24 = of_char (position l)"
    using assms(2) len by (simp add: write_identity_def Let_def nth_write_at)
  show "take 2 (drop 31 (write_identity l buf)) = le_bytes 2 (local_device_id l)"
    using assms(2) len by (simp add: write_identity_def Let_def dev) (simp add: write_at_def)
qed

text \<open>
  Every request to the brick itself is answered by a packet for the same UID, function and
  sequence number: \<^verbatim>\<open>get_identity\<close> by a packet of 33 bytes that carries the brick's UID
  string, its position and its device identifier in little endian order, any other function by an
  empty packet with the error code for an unsupported function.
\<close>

lemma local_answers_request:
  assumes "local_inv l"
  defines "request \<equiv> snd (tf_tfp_header_peek_plain (local_send_buf l))"
    and "answer \<equiv> tf_local_get_recv_buffer (tf_local_transceive_packet l)"
  shows "snd (tf_tfp_header_peek_plain answer) =
      (if hdr_fid request = 255 then request\<lparr>hdr_length := 33\<rparr>
       else request\<lparr>hdr_length := 8, hdr_error_code := 2\<rparr>) \<and>
    length answer = 80 \<and>
    (hdr_fid request = 255 \<longrightarrow>
      take 8 (drop 8 answer) = map of_char (local_uid_str l) @ [0] \<and>
      answer ! 24 = of_char (position l) \<and> take 2 (drop 31 answer) = le_bytes 2 (local_device_id l))"
proof -
  have len: "length (local_recv_buf l) = 80" using assms(1) by (simp add: local_inv_def)
  have fits: "header_fits request" unfolding request_def by (rule header_fits_peek)
  show ?thesis
  proof (cases "hdr_fid request = 255")
    case True
    let ?h = "request\<lparr>hdr_length := 33\<rparr>"
    let ?buf = "write_at 0 (tf_tfp_header_write ?h) (local_recv_buf l)"
    have answer: "answer = write_identity l ?buf"
      using True by (simp add: answer_def tf_local_get_recv_buffer_def tf_local_transceive_packet_def
          Let_def flip: request_def)
    have buf: "length ?buf = 80" "take 8 ?buf = tf_tfp_header_write ?h"
      using len write_at_0_take [of "tf_tfp_header_write ?h" "local_recv_buf l"] by simp_all
    have "header_fits ?h" using fits by (simp add: header_fits_def)
    then show ?thesis
      using True write_identity_payload [OF assms(1) buf(1)] header_of_identity [OF assms(1) buf(1)]
        length_write_identity [OF assms(1) buf(1)] buf(2)
      by (simp add: answer peek_written_header)
  next
    case False
    let ?h = "request\<lparr>hdr_length := 8, hdr_error_code := 2\<rparr>"
    have answer: "answer = write_at 0 (tf_tfp_header_write ?h) (local_recv_buf l)"
      using False by (simp add: answer_def tf_local_get_recv_buffer_def tf_local_transceive_packet_def
          Let_def flip: request_def)
    have "header_fits ?h" using fits by (simp add: header_fits_def)
    then show ?thesis
      using False len write_at_0_take [of "tf_tfp_header_write ?h" "local_recv_buf l"]
      by (simp add: answer peek_written_header)
  qed
qed

end
