(* ===== verification/Hal_State.thy ===== *)
theory Hal_State
  imports Spitfp Local
begin

unbundle bit_operations_syntax

section \<open>The state of the HAL and its device inventory (hal_common.h, hal_common.c, tfp.h)\<close>

text \<open>
  The HAL owns the ports and the inventory of devices found on them. A pointer to a
  \<^verbatim>\<open>TF_TFP\<close> is a \<open>tfp_ref\<close>: an index of the inventory, or the one object on the stack of
  \<^verbatim>\<open>tf_hal_common_prepare\<close>. A pointer to a \<^verbatim>\<open>TF_SPITFP\<close> is a port index. Callback handlers
  are functions of the device handle, the function id and the payload; the null pointer is \<open>None\<close>.
  They act on the world but do not call back into the stack: the bindings refuse that with
  \<^verbatim>\<open>TF_E_LOCKED\<close> while a callback runs.
\<close>

type_synonym 'w callback_handler = "nat option \<Rightarrow> byte \<Rightarrow> TF_PacketBuffer \<Rightarrow> 'w \<Rightarrow> bool \<times> TF_PacketBuffer \<times> 'w"

record 'w TF_TFP =
  spitfp :: nat
  device :: "nat option"
  uid_num :: u32
  tfp_error_count_frame :: u32
  error_count_unexpected :: u32
  next_sequence_number :: byte
  waiting_for_fid :: byte
  waiting_for_seq_num :: byte
  send_enumerate_request :: bool
  cb_handler :: "'w callback_handler option"
  device_id :: u16
  spitfp_timeout_counter :: byte
  spitfp_last_seq_num :: int

datatype tfp_ref = Inventory nat | Stack

abbreviation (input) TF_INVENTORY_SIZE :: nat where "TF_INVENTORY_SIZE \<equiv> 10"

record 'w TF_HAL =
  tfps :: "'w TF_TFP list"
  tfps_order :: "nat list"
  tfps_used :: nat
  device_overflow_count :: nat
  hal_timeout :: u32
  hal_locked :: bool
  port_count :: nat
  callback_tick_index :: nat
  hal_net :: bool
  hal_local :: "TF_Local option"
  ports :: "TF_SPITFP list"
  stack_tfp :: "'w TF_TFP"

definition tfp_at :: "'w TF_HAL \<Rightarrow> tfp_ref \<Rightarrow> 'w TF_TFP" where
  "tfp_at h r = (case r of Inventory i \<Rightarrow> tfps h ! i | Stack \<Rightarrow> stack_tfp h)"

definition tfp_update :: "tfp_ref \<Rightarrow> ('w TF_TFP \<Rightarrow> 'w TF_TFP) \<Rightarrow> 'w TF_HAL \<Rightarrow> 'w TF_HAL" where
  "tfp_update r f h = (case r of
     Inventory i \<Rightarrow> h\<lparr>tfps := (tfps h)[i := f (tfps h ! i)]\<rparr>
   | Stack \<Rightarrow> h\<lparr>stack_tfp := f (stack_tfp h)\<rparr>)"

definition port_of :: "'w TF_HAL \<Rightarrow> tfp_ref \<Rightarrow> TF_SPITFP" where
  "port_of h r = ports h ! spitfp (tfp_at h r)"

definition port_update :: "nat \<Rightarrow> TF_SPITFP \<Rightarrow> 'w TF_HAL \<Rightarrow> 'w TF_HAL" where
  "port_update p s h = h\<lparr>ports := (ports h)[p := s]\<rparr>"

subsection \<open>Creating devices and the HAL\<close>

definition empty_cb_handler :: "'w callback_handler" where
  "empty_cb_handler dev fid payload w = (False, payload, w)"

definition zero_tfp :: "'w TF_TFP" where
  "zero_tfp = \<lparr>spitfp = 0, device = None, uid_num = 0, tfp_error_count_frame = 0,
     error_count_unexpected = 0, next_sequence_number = 0, waiting_for_fid = 0, waiting_for_seq_num = 0,
     send_enumerate_request = False, cb_handler = None, device_id = 0, spitfp_timeout_counter = 0,
     spitfp_last_seq_num = 0\<rparr>"

definition tf_tfp_create :: "u32 \<Rightarrow> u16 \<Rightarrow> nat \<Rightarrow> 'w TF_TFP" where
  "tf_tfp_create uid dev_id port =
     zero_tfp\<lparr>spitfp := port, uid_num := uid, device_id := dev_id, next_sequence_number := 1,
              cb_handler := Some empty_cb_handler\<rparr>"

text \<open>Zeroing \<^verbatim>\<open>TF_HALCommon\<close>; the ports belong to the board's HAL object.\<close>

definition tf_hal_common_create :: "'w TF_HAL \<Rightarrow> int \<times> 'w TF_HAL" where
  "tf_hal_common_create h =
     (TF_E_OK, h\<lparr>tfps := replicate TF_INVENTORY_SIZE zero_tfp, tfps_order := replicate TF_INVENTORY_SIZE 0,
        tfps_used := 0, device_overflow_count := 0, hal_timeout := 0, hal_locked := False, port_count := 0,
        callback_tick_index := 0, hal_net := False, hal_local := None\<rparr>)"

definition tf_hal_set_timeout :: "u32 \<Rightarrow> 'w TF_HAL \<Rightarrow> 'w TF_HAL" where
  "tf_hal_set_timeout timeout_us h = h\<lparr>hal_timeout := timeout_us\<rparr>"

definition tf_hal_get_timeout :: "'w TF_HAL \<Rightarrow> u32" where
  "tf_hal_get_timeout h = hal_timeout h"

definition tf_hal_set_net :: "bool \<Rightarrow> 'w TF_HAL \<Rightarrow> 'w TF_HAL" where
  "tf_hal_set_net n h = h\<lparr>hal_net := n\<rparr>"

definition tf_hal_set_local :: "TF_Local option \<Rightarrow> 'w TF_HAL \<Rightarrow> 'w TF_HAL" where
  "tf_hal_set_local l h = h\<lparr>hal_local := l\<rparr>"

subsection \<open>Looking up devices\<close>

text \<open>Every filter is an optional value; \<open>None\<close> is a null pointer. The first match in display order wins.\<close>

definition tfp_matches ::
  "'w TF_HAL \<Rightarrow> u32 option \<Rightarrow> nat option \<Rightarrow> u16 option \<Rightarrow> bool \<Rightarrow> nat \<Rightarrow> bool" where
  "tfp_matches h uid port dev_id skip_already_in_use i =
     (let tfp = tfps h ! i in
      if skip_already_in_use \<and> device tfp \<noteq> None then False
      else if uid \<noteq> None \<and> uid_num tfp \<noteq> the uid then False
      else if port \<noteq> None \<and> port_id (ports h ! spitfp tfp) \<noteq> the port then False
      else if dev_id \<noteq> None \<and> device_id tfp \<noteq> the dev_id then False
      else True)"

definition tf_hal_get_tfp ::
  "'w TF_HAL \<Rightarrow> u32 option \<Rightarrow> nat option \<Rightarrow> u16 option \<Rightarrow> bool \<Rightarrow> nat option" where
  "tf_hal_get_tfp h uid port dev_id skip_already_in_use =
     List.find (tfp_matches h uid port dev_id skip_already_in_use)
       (map (\<lambda>i. tfps_order h ! i) [0..<tfps_used h])"

text \<open>The loop over the ports with the given name, and whether the name is known.\<close>

fun attachable_port_loop ::
  "'w hal_ops \<Rightarrow> 'w TF_HAL \<Rightarrow> char \<Rightarrow> u16 \<Rightarrow> bool \<Rightarrow> nat list \<Rightarrow> (int \<times> nat option) + bool" where
  "attachable_port_loop ops h name dev_id known [] = Inr known"
| "attachable_port_loop ops h name dev_id known (p # rest) =
    (if name \<noteq> hal_get_port_name ops p then attachable_port_loop ops h name dev_id known rest
     else case tf_hal_get_tfp h None (Some p) (Some dev_id) True of
       Some i \<Rightarrow> Inl (TF_E_OK, Some i)
     | None \<Rightarrow>
         if tf_hal_get_tfp h None (Some p) (Some dev_id) False \<noteq> None
         then Inl (TF_E_DEVICE_ALREADY_IN_USE, None)
         else attachable_port_loop ops h name dev_id True rest)"

definition attachable_by_name ::
  "'w hal_ops \<Rightarrow> 'w TF_HAL \<Rightarrow> string \<Rightarrow> u16 \<Rightarrow> int \<Rightarrow> int \<times> nat option" where
  "attachable_by_name ops h str dev_id base58_rc =
     (let base58_error = (if base58_rc \<noteq> TF_E_OK then (base58_rc, None) else (TF_E_DEVICE_NOT_FOUND, None)) in
      if length str = 1
      then (case attachable_port_loop ops h (hd str) dev_id False [0..<port_count h] of
              Inl res \<Rightarrow> res
            | Inr known \<Rightarrow> if known then (TF_E_DEVICE_NOT_FOUND, None) else base58_error)
      else base58_error)"

text \<open>
  The string is the text before its terminator, \<open>None\<close> the null pointer. The device is left as a
  null pointer unless the result is \<^verbatim>\<open>TF_E_OK\<close>.
\<close>

definition tf_hal_get_attachable_tfp ::
  "'w hal_ops \<Rightarrow> 'w TF_HAL \<Rightarrow> string option \<Rightarrow> u16 \<Rightarrow> int \<times> nat option" where
  "tf_hal_get_attachable_tfp ops h uid_str_or_port_name dev_id =
     (case uid_str_or_port_name of
        Some (c # cs) \<Rightarrow>
          (case tf_base58_decode (c # cs) 0 of (base58_rc, num) \<Rightarrow>
             if base58_rc = TF_E_OK
             then (case tf_hal_get_tfp h (Some num) None (Some dev_id) True of
                     Some i \<Rightarrow> (TF_E_OK, Some i)
                   | None \<Rightarrow>
                       (case tf_hal_get_tfp h (Some num) None None False of
                          Some i \<Rightarrow> (if device_id (tfps h ! i) \<noteq> dev_id then TF_E_WRONG_DEVICE_TYPE
                                     else TF_E_DEVICE_ALREADY_IN_USE, None)
                        | None \<Rightarrow> attachable_by_name ops h (c # cs) dev_id base58_rc))
             else attachable_by_name ops h (c # cs) dev_id base58_rc)
      | _ \<Rightarrow>
          (case tf_hal_get_tfp h None None (Some dev_id) True of
             Some i \<Rightarrow> (TF_E_OK, Some i)
           | None \<Rightarrow> (if tf_hal_get_tfp h None None (Some dev_id) False \<noteq> None
                      then TF_E_DEVICE_ALREADY_IN_USE else TF_E_DEVICE_NOT_FOUND, None)))"

definition tf_hal_get_local ::
  "'w TF_HAL \<Rightarrow> u32 option \<Rightarrow> char option \<Rightarrow> u16 option \<Rightarrow> bool \<Rightarrow> TF_Local option" where
  "tf_hal_get_local h uid pos dev_id skip_already_in_use =
     (case hal_local h of
        None \<Rightarrow> None
      | Some l \<Rightarrow>
          if skip_already_in_use \<and> local_device l \<noteq> None then None
          else if uid \<noteq> None \<and> local_uid_num l \<noteq> the uid then None
          else if pos \<noteq> None \<and> position l \<noteq> the pos then None
          else if dev_id \<noteq> None \<and> local_device_id l \<noteq> the dev_id then None
          else Some l)"

definition attachable_by_position :: "'w TF_HAL \<Rightarrow> string \<Rightarrow> u16 \<Rightarrow> int \<Rightarrow> int \<times> TF_Local option" where
  "attachable_by_position h str dev_id base58_rc =
     (let base58_error = (if base58_rc \<noteq> TF_E_OK then (base58_rc, None) else (TF_E_DEVICE_NOT_FOUND, None)) in
      if length str = 1
      then (case tf_hal_get_local h None (Some (hd str)) (Some dev_id) True of
              Some l \<Rightarrow> (TF_E_OK, Some l)
            | None \<Rightarrow>
                if tf_hal_get_local h None (Some (hd str)) (Some dev_id) False \<noteq> None
                then (TF_E_DEVICE_ALREADY_IN_USE, None)
                else if tf_hal_get_local h None (Some (hd str)) None False \<noteq> None
                then (TF_E_DEVICE_NOT_FOUND, None)
                else base58_error)
      else base58_error)"

definition tf_hal_get_attachable_local ::
  "'w TF_HAL \<Rightarrow> string option \<Rightarrow> u16 \<Rightarrow> int \<times> TF_Local option" where
  "tf_hal_get_attachable_local h uid_str_or_position dev_id =
     (case uid_str_or_position of
        Some (c # cs) \<Rightarrow>
          (case tf_base58_decode (c # cs) 0 of (base58_rc, num) \<Rightarrow>
             if base58_rc = TF_E_OK
             then (case tf_hal_get_local h (Some num) None (Some dev_id) True of
                     Some l \<Rightarrow> (TF_E_OK, Some l)
                   | None \<Rightarrow>
                       (case tf_hal_get_local h (Some num) None None False of
                          Some l \<Rightarrow> (if local_device_id l \<noteq> dev_id then TF_E_WRONG_DEVICE_TYPE
                                     else TF_E_DEVICE_ALREADY_IN_USE, None)
                        | None \<Rightarrow> attachable_by_position h (c # cs) dev_id base58_rc))
             else attachable_by_position h (c # cs) dev_id base58_rc)
      | _ \<Rightarrow>
          (case tf_hal_get_local h None None (Some dev_id) True of
             Some l \<Rightarrow> (TF_E_OK, Some l)
           | None \<Rightarrow> (if tf_hal_get_local h None None (Some dev_id) False \<noteq> None
                      then TF_E_DEVICE_ALREADY_IN_USE else TF_E_DEVICE_NOT_FOUND, None)))"

text \<open>UID string, port name and device identifier of the device at a display position.\<close>

definition tf_hal_get_device_info ::
  "'w hal_ops \<Rightarrow> 'w TF_HAL \<Rightarrow> nat \<Rightarrow> int \<times> (char list \<times> char \<times> u16) option" where
  "tf_hal_get_device_info ops h index =
     (if index \<ge> tfps_used h then (TF_E_DEVICE_NOT_FOUND, None)
      else let tfp = tfps h ! (tfps_order h ! index)
           in (TF_E_OK, Some (tf_base58_encode (uid_num tfp),
                hal_get_port_name ops (port_id (ports h ! spitfp tfp)), device_id tfp)))"

text \<open>The four sums, over all devices of the inventory on a port with the given name.\<close>

fun error_counter_loop ::
  "'w hal_ops \<Rightarrow> 'w TF_HAL \<Rightarrow> char \<Rightarrow> nat list \<Rightarrow> bool \<times> u32 \<times> u32 \<times> u32 \<times> u32 \<Rightarrow>
    bool \<times> u32 \<times> u32 \<times> u32 \<times> u32" where
  "error_counter_loop ops h name [] acc = acc"
| "error_counter_loop ops h name (i # rest) (found, sc, sf, tf, tu) =
    (let tfp = tfps h ! i; s = ports h ! spitfp tfp in
     if hal_get_port_name ops (port_id s) \<noteq> name
     then error_counter_loop ops h name rest (found, sc, sf, tf, tu)
     else error_counter_loop ops h name rest
       (True, sc + error_count_checksum s, sf + error_count_frame s,
        tf + tfp_error_count_frame tfp, tu + error_count_unexpected tfp))"

definition tf_hal_get_error_counters ::
  "'w hal_ops \<Rightarrow> 'w TF_HAL \<Rightarrow> char \<Rightarrow> int \<times> u32 \<times> u32 \<times> u32 \<times> u32" where
  "tf_hal_get_error_counters ops h name =
     (case error_counter_loop ops h name [0..<tfps_used h] (False, 0, 0, 0, 0) of (found, counts) \<Rightarrow>
        (if found then TF_E_OK else TF_E_PORT_NOT_FOUND, counts))"

subsection \<open>Adding a device\<close>

text \<open>Sorted by port id first and by UID second.\<close>

definition order_index :: "'w TF_HAL \<Rightarrow> nat \<Rightarrow> u32 \<Rightarrow> nat" where
  "order_index h port uid =
     length (takeWhile (\<lambda>i.
       let other = tfps h ! (tfps_order h ! i); other_port = port_id (ports h ! spitfp other)
       in \<not> (other_port > port \<or> (other_port = port \<and> uid_num other > uid))) [0..<tfps_used h])"

text \<open>
  The payload is the packet behind the header. Eight characters without a terminator make the UID
  longer than the decoder accepts, whatever follows them in memory.
\<close>

definition tf_hal_enumerate_handler ::
  "nat \<Rightarrow> TF_PacketBuffer \<Rightarrow> 'w TF_HAL \<Rightarrow> TF_PacketBuffer \<times> 'w TF_HAL" where
  "tf_hal_enumerate_handler port payload h =
     (case tf_packet_buffer_pop_n payload 8 of (uid_str, pb1) \<Rightarrow>
      case tf_packet_buffer_pop_n pb1 8 of (_, pb2) \<Rightarrow>
      case tf_packet_buffer_read_uint16_t (tf_packet_buffer_remove pb2 7) of (dev_id, pb3) \<Rightarrow>
        let pb4 = tf_packet_buffer_remove pb3 1 in
        if tfps_used h \<ge> TF_INVENTORY_SIZE
        then (pb4, h\<lparr>device_overflow_count := (device_overflow_count h + 1) mod 2 ^ 16\<rparr>)
        else case tf_base58_decode (c_str (map (\<lambda>b. char_of (unat b)) uid_str)) 0 of (rc, num) \<Rightarrow>
          if rc \<noteq> TF_E_OK then (pb4, h)
          else if tf_hal_get_tfp h (Some num) None None False \<noteq> None then (pb4, h)
          else let used = tfps_used h;
                   h1 = h\<lparr>tfps := (tfps h)[used := tf_tfp_create num dev_id port]\<rparr>;
                   index = order_index h1 port num;
                   order = (if index < used
                     then write_at (index + 1) (take (used - index) (drop index (tfps_order h1))) (tfps_order h1)
                     else tfps_order h1)
               in (pb4, h1\<lparr>tfps_order := order[index := used], tfps_used := used + 1\<rparr>))"

end
