(* ===== verification/Tfp.thy ===== *)
theory Tfp
  imports Hal_State
begin

unbundle bit_operations_syntax

section \<open>The TFP layer (tfp.c)\<close>

text \<open>
  Requests to a device, their responses, and the dispatch of everything else that arrives on a port.
  The functions take the HAL state and a reference to the device object and return the new state; the
  network side is a record of functions (\<^verbatim>\<open>net_common.h\<close>). As in the link layer, \<open>None\<close>
  stands for undefined behaviour (here also the call of a null callback handler) or for a loop that
  exhausts its fuel. Log output is left out.
\<close>

record 'w net_ops =
  net_tick :: "'w \<Rightarrow> 'w"
  net_get_available_tfp_header :: "'w \<Rightarrow> (TF_TFPHeader \<times> int) option \<times> 'w"
  net_get_packet :: "byte \<Rightarrow> 'w \<Rightarrow> byte list \<times> 'w"
  net_drop_packet :: "byte \<Rightarrow> 'w \<Rightarrow> 'w"
  net_send_packet :: "TF_TFPHeader \<Rightarrow> byte list \<Rightarrow> 'w \<Rightarrow> 'w"

definition recv_buf_of :: "'w TF_HAL \<Rightarrow> tfp_ref \<Rightarrow> TF_PacketBuffer" where
  "recv_buf_of h r = recv_buf (port_of h r)"

definition set_recv_buf :: "tfp_ref \<Rightarrow> TF_PacketBuffer \<Rightarrow> 'w TF_HAL \<Rightarrow> 'w TF_HAL" where
  "set_recv_buf r pb h = port_update (spitfp (tfp_at h r)) ((port_of h r)\<lparr>recv_buf := pb\<rparr>) h"

definition set_send_buf :: "tfp_ref \<Rightarrow> byte list \<Rightarrow> 'w TF_HAL \<Rightarrow> 'w TF_HAL" where
  "set_send_buf r buf h = port_update (spitfp (tfp_at h r)) ((port_of h r)\<lparr>send_buf := buf\<rparr>) h"

subsection \<open>Building requests\<close>

definition request_seq_num :: "byte \<Rightarrow> byte" where
  "request_seq_num n = (if n AND 0x0F = 0 then 1 else n AND 0x0F)"

definition tf_tfp_build_header ::
  "tfp_ref \<Rightarrow> nat \<Rightarrow> byte \<Rightarrow> bool \<Rightarrow> 'w TF_HAL \<Rightarrow> byte \<times> byte list \<times> 'w TF_HAL" where
  "tf_tfp_build_header r len fid response_expected h =
     (let tfp = tfp_at h r;
          sequence_number = request_seq_num (next_sequence_number tfp);
          header = \<lparr>hdr_uid_num = uid_num tfp, hdr_length = of_nat len, hdr_fid = fid,
            hdr_seq_num = sequence_number, hdr_response_expected = response_expected,
            hdr_options = 0, hdr_error_code = 0, hdr_flags = 0\<rparr>
      in (sequence_number, tf_tfp_header_write header,
          tfp_update r (\<lambda>t. t\<lparr>next_sequence_number := sequence_number + 1\<rparr>) h))"

definition tf_tfp_prepare_send :: "tfp_ref \<Rightarrow> byte \<Rightarrow> nat \<Rightarrow> bool \<Rightarrow> 'w TF_HAL \<Rightarrow> 'w TF_HAL" where
  "tf_tfp_prepare_send r fid payload_size response_expected h =
     (case tf_tfp_build_header r (to_u8 (payload_size + TF_TFP_MIN_MESSAGE_LENGTH)) fid response_expected h of
        (seq_num, header, h1) \<Rightarrow>
          let cleared = write_at TF_SPITFP_HEADER_LENGTH (replicate TF_TFP_MAX_MESSAGE_LENGTH 0) (send_buf (port_of h r));
              h2 = set_send_buf r (write_at TF_SPITFP_HEADER_LENGTH header cleared) h1
          in tfp_update r (\<lambda>t. t\<lparr>waiting_for_fid := (if response_expected then fid else 0),
               waiting_for_seq_num := (if response_expected then seq_num else 0)\<rparr>) h2)"

definition tf_tfp_inject_packet :: "tfp_ref \<Rightarrow> TF_TFPHeader \<Rightarrow> byte list \<Rightarrow> 'w TF_HAL \<Rightarrow> 'w TF_HAL" where
  "tf_tfp_inject_packet r header packet h =
     (let cleared = write_at TF_SPITFP_HEADER_LENGTH (replicate TF_TFP_MAX_MESSAGE_LENGTH 0) (send_buf (port_of h r));
          filled = write_at TF_SPITFP_HEADER_LENGTH (take (unat (hdr_length header)) packet) cleared
      in tfp_update r (\<lambda>t. t\<lparr>waiting_for_fid := 0, waiting_for_seq_num := 0\<rparr>) (set_send_buf r filled h))"

definition tf_tfp_packet_processed :: "tfp_ref \<Rightarrow> 'w TF_HAL \<Rightarrow> 'w TF_HAL" where
  "tf_tfp_packet_processed r h =
     port_update (spitfp (tfp_at h r)) (tf_spitfp_packet_processed (port_of h r)) h"

definition tf_tfp_get_error :: "byte \<Rightarrow> int" where
  "tf_tfp_get_error error_code =
     (if error_code = 1 then TF_E_INVALID_PARAMETER
      else if error_code = 2 then TF_E_NOT_SUPPORTED
      else if error_code = 3 then TF_E_UNKNOWN_ERROR_CODE
      else TF_E_OK)"

subsection \<open>Dispatching received packets\<close>

text \<open>The complete packet for the network side: the header is written back in front of the payload.\<close>

definition net_packet :: "TF_TFPHeader \<Rightarrow> TF_PacketBuffer \<Rightarrow> byte list" where
  "net_packet header packet =
     write_at 8 (tf_packet_buffer_peek_offset_n packet (unat (hdr_length header) - 8) 0)
       (write_at 0 (tf_tfp_header_write header) (replicate TF_TFP_MAX_MESSAGE_LENGTH 0))"

definition tf_tfp_dispatch_packet ::
  "'w net_ops \<Rightarrow> tfp_ref \<Rightarrow> TF_TFPHeader \<Rightarrow> 'w TF_HAL \<Rightarrow> 'w \<Rightarrow> (bool \<times> 'w TF_HAL \<times> 'w) option" where
  "tf_tfp_dispatch_packet net r header h w =
     (let packet = recv_buf_of h r;
          w1 = (if hal_net h then net_send_packet net header (net_packet header packet) w else w);
          dropped = tf_packet_buffer_remove packet (unat (hdr_length header) - 8)
      in if hdr_seq_num header \<noteq> 0 then Some (True, set_recv_buf r dropped h, w1)
         else if hdr_fid header = 253
         then (case tf_hal_enumerate_handler (port_id (port_of h r)) packet h of (packet', h') \<Rightarrow>
                 Some (True, set_recv_buf r packet' h', w1))
         else do {
           (result, packet1, w2) \<leftarrow>
             (case tf_hal_get_tfp h (Some (hdr_uid_num header)) None None False of
                None \<Rightarrow> Some (False, packet, w1)
              | Some i \<Rightarrow> do {
                  handler \<leftarrow> cb_handler (tfps h ! i);
                  Some (handler (device (tfps h ! i)) (hdr_fid header) packet w1)
                });
           if \<not> result \<and> hal_net h
           then Some (True, set_recv_buf r
                  (tf_packet_buffer_remove packet1 (unat (hdr_length header) - 8)) h, w2)
           else Some (result, set_recv_buf r packet1 h, w2)
         })"

text \<open>
  The position of a directly attached device is unknown to the device: the connected UID and the
  position of enumerate callbacks and identity responses are filled in here.
\<close>

definition poke_all :: "TF_PacketBuffer \<Rightarrow> (nat \<times> byte) list \<Rightarrow> TF_PacketBuffer" where
  "poke_all pb ps = foldl (\<lambda>b (offset, x). snd (tf_packet_buffer_poke_offset b x offset)) pb ps"

definition patch_position ::
  "'w hal_ops \<Rightarrow> 'w TF_HAL \<Rightarrow> nat \<Rightarrow> TF_TFPHeader \<Rightarrow> TF_PacketBuffer \<Rightarrow> TF_PacketBuffer" where
  "patch_position ops h port header buf =
     (if (hdr_fid header = 253 \<and> hdr_length header = 34) \<or> (hdr_fid header = 255 \<and> hdr_length header = 33)
      then if snd (tf_packet_buffer_peek_offset buf 8) = 0
        then let connected = (case tf_hal_get_local h None None None False of
                   Some l \<Rightarrow> map (\<lambda>i. (8 + i, of_char (local_uid_str l ! i))) [0..<7] @ [(15, 0)]
                 | None \<Rightarrow> [(8, 0x30), (9, 0)])
             in poke_all buf (connected @ [(16, of_char (hal_get_port_name ops port))])
        else buf
      else buf)"

text \<open>
  The result is the error code and the payload length of an expected response, \<open>None\<close> when the
  packet was something else and has been dealt with.
\<close>

definition tf_tfp_filter_received_packet ::
  "'w hal_ops \<Rightarrow> 'w net_ops \<Rightarrow> tfp_ref \<Rightarrow> bool \<Rightarrow> 'w TF_HAL \<Rightarrow> 'w \<Rightarrow>
    ((byte \<times> nat) option \<times> 'w TF_HAL \<times> 'w) option" where
  "tf_tfp_filter_received_packet ops net r remove_interesting h w =
     (let buf = recv_buf_of h r;
          used = tf_packet_buffer_get_used buf;
          frame_error = tfp_update r (\<lambda>t. t\<lparr>tfp_error_count_frame := tfp_error_count_frame t + 1\<rparr>)
      in if used < TF_TFP_MIN_MESSAGE_LENGTH
         then Some (None, frame_error (set_recv_buf r (tf_packet_buffer_remove buf used) h), w)
         else case tf_tfp_header_read buf of (valid, header, buf1) \<Rightarrow>
           if \<not> valid then Some (None, frame_error (set_recv_buf r buf1 h), w)
           else if used \<le> unat (hdr_length header)
           then Some (None, frame_error (set_recv_buf r (tf_packet_buffer_remove buf1 used) h), w)
           else let buf2 = patch_position ops h (port_id (port_of h r)) header buf1;
                    h1 = set_recv_buf r buf2 h;
                    tfp = tfp_at h r;
                    packet_uninteresting = (waiting_for_fid tfp = 0 \<or>
                      (uid_num tfp \<noteq> 0 \<and> hdr_uid_num header \<noteq> uid_num tfp) \<or>
                      hdr_fid header \<noteq> waiting_for_fid tfp \<or> hdr_seq_num header \<noteq> waiting_for_seq_num tfp);
                    unexpected = tfp_update r (\<lambda>t. t\<lparr>error_count_unexpected := error_count_unexpected t + 1\<rparr>)
                in if packet_uninteresting then do {
                     (dispatched, h2, w2) \<leftarrow> tf_tfp_dispatch_packet net r header h1 w;
                     let h3 = (if dispatched then h2
                       else let h' = set_recv_buf r
                                  (tf_packet_buffer_remove (recv_buf_of h2 r) (unat (hdr_length header))) h2
                            in if hdr_seq_num header \<noteq> 0 then unexpected h' else h');
                     Some (None, tf_tfp_packet_processed r h3, w2)
                   }
                   else if remove_interesting
                   then Some (None, unexpected (tf_tfp_packet_processed r (set_recv_buf r
                          (tf_packet_buffer_remove buf2 (unat (hdr_length header))) h1)), w)
                   else Some (Some (hdr_error_code header, unat (hdr_length header) - 8), h1, w))"

subsection \<open>Sending requests\<close>

abbreviation (input) TF_TFP_SLEEP_TIME_US :: u32 where "TF_TFP_SLEEP_TIME_US \<equiv> 250"

definition build_packet_of :: "tfp_ref \<Rightarrow> int \<Rightarrow> 'w TF_HAL \<Rightarrow> 'w TF_HAL option" where
  "build_packet_of r seq_num h = do {
     (_, s) \<leftarrow> tf_spitfp_build_packet (port_of h r) seq_num;
     Some (port_update (spitfp (tfp_at h r)) s h)
   }"

definition tick_of ::
  "nat \<Rightarrow> 'w hal_ops \<Rightarrow> tfp_ref \<Rightarrow> u32 \<Rightarrow> 'w TF_HAL \<Rightarrow> 'w \<Rightarrow> (int \<times> 'w TF_HAL \<times> 'w) option" where
  "tick_of tick_fuel ops r deadline_us h w = do {
     (result, s, w1) \<leftarrow> tf_spitfp_tick tick_fuel ops (port_of h r) deadline_us w;
     Some (result, port_update (spitfp (tfp_at h r)) s h, w1)
   }"

definition not_waiting :: "tfp_ref \<Rightarrow> 'w TF_HAL \<Rightarrow> 'w TF_HAL" where
  "not_waiting r = tfp_update r (\<lambda>t. t\<lparr>waiting_for_fid := 0, waiting_for_seq_num := 0\<rparr>)"

definition sleep_if :: "'w hal_ops \<Rightarrow> int \<Rightarrow> 'w \<Rightarrow> 'w" where
  "sleep_if ops result w =
     (if result AND TF_TICK_SLEEP \<noteq> 0 then hal_sleep_us ops TF_TFP_SLEEP_TIME_US w else w)"

text \<open>The returned response is \<^verbatim>\<open>*error_code\<close> and \<^verbatim>\<open>*length\<close>, \<open>None\<close> as long as they are unset.\<close>

fun send_getter_loop ::
  "nat \<Rightarrow> nat \<Rightarrow> 'w hal_ops \<Rightarrow> 'w net_ops \<Rightarrow> tfp_ref \<Rightarrow> u32 \<Rightarrow> int \<Rightarrow> u32 \<Rightarrow> (byte \<times> nat) option \<Rightarrow>
    'w TF_HAL \<Rightarrow> 'w \<Rightarrow> (int \<times> (byte \<times> nat) option \<times> 'w TF_HAL \<times> 'w) option" where
  "send_getter_loop 0 tf ops net r deadline_us result last_send response h w = None"
| "send_getter_loop (Suc fuel) tf ops net r deadline_us result last_send response h w = do {
     let (elapsed, w1) = tf_hal_deadline_elapsed ops deadline_us w;
     if elapsed \<or> response \<noteq> None
     then Some ((if response \<noteq> None then TF_TICK_PACKET_RECEIVED else TF_TICK_TIMEOUT) OR
            (result AND TF_TICK_AGAIN) OR (result AND TF_TICK_IN_TRANSCEIVE), response, h, w1)
     else do {
       (last_send1, h1, w2) \<leftarrow>
         (if result AND TF_TICK_TIMEOUT \<noteq> 0
          then (case tf_hal_deadline_elapsed ops (last_send + 5000) w1 of (again, w2) \<Rightarrow>
            if again
            then (case hal_current_time_us ops w2 of (now, w3) \<Rightarrow> do {
              h' \<leftarrow> build_packet_of r TF_RETRANSMISSION h;
              Some (now, h', w3)
            })
            else Some (last_send, h, w2))
          else Some (last_send, h, w1));
       (result1, h2, w3) \<leftarrow> tick_of tf ops r deadline_us h1 w2;
       if result1 < 0 then Some (result1, None, h2, w3)
       else do {
         (response1, h3, w4) \<leftarrow>
           (if result1 AND TF_TICK_PACKET_RECEIVED \<noteq> 0
            then tf_tfp_filter_received_packet ops net r False h2 w3 else Some (None, h2, w3));
         let h4 = (if response1 \<noteq> None then not_waiting r h3 else h3);
         send_getter_loop fuel tf ops net r deadline_us result1 last_send1 response1 h4 (sleep_if ops result1 w4)
       }
     }
   }"

definition tf_tfp_send_getter ::
  "nat \<Rightarrow> nat \<Rightarrow> 'w hal_ops \<Rightarrow> 'w net_ops \<Rightarrow> tfp_ref \<Rightarrow> u32 \<Rightarrow> int \<Rightarrow> 'w TF_HAL \<Rightarrow> 'w \<Rightarrow>
    (int \<times> (byte \<times> nat) option \<times> 'w TF_HAL \<times> 'w) option" where
  "tf_tfp_send_getter fuel tf ops net r deadline_us seq_num h w = do {
     h1 \<leftarrow> build_packet_of r seq_num h;
     let (last_send, w1) = hal_current_time_us ops w;
     send_getter_loop fuel tf ops net r deadline_us TF_TICK_AGAIN last_send None h1 w1
   }"

fun send_setter_loop ::
  "nat \<Rightarrow> nat \<Rightarrow> 'w hal_ops \<Rightarrow> 'w net_ops \<Rightarrow> tfp_ref \<Rightarrow> u32 \<Rightarrow> int \<Rightarrow> bool \<Rightarrow> 'w TF_HAL \<Rightarrow> 'w \<Rightarrow>
    (int \<times> 'w TF_HAL \<times> 'w) option" where
  "send_setter_loop 0 tf ops net r deadline_us result packet_sent h w = None"
| "send_setter_loop (Suc fuel) tf ops net r deadline_us result packet_sent h w = do {
     let (elapsed, w1) = tf_hal_deadline_elapsed ops deadline_us w;
     if elapsed \<or> packet_sent
     then Some ((if packet_sent then TF_TICK_PACKET_SENT else TF_TICK_TIMEOUT) OR
            (result AND TF_TICK_AGAIN) OR (result AND TF_TICK_IN_TRANSCEIVE), h, w1)
     else do {
       h1 \<leftarrow> (if result AND TF_TICK_TIMEOUT \<noteq> 0 then build_packet_of r TF_RETRANSMISSION h else Some h);
       (result1, h2, w2) \<leftarrow> tick_of tf ops r deadline_us h1 w1;
       if result1 < 0 then Some (result1, h2, w2)
       else do {
         (_, h3, w3) \<leftarrow>
           (if result1 AND TF_TICK_PACKET_RECEIVED \<noteq> 0
            then tf_tfp_filter_received_packet ops net r True h2 w2 else Some (None, h2, w2));
         send_setter_loop fuel tf ops net r deadline_us result1
           (result1 AND TF_TICK_PACKET_SENT \<noteq> 0) h3 (sleep_if ops result1 w3)
       }
     }
   }"

definition tf_tfp_send_setter ::
  "nat \<Rightarrow> nat \<Rightarrow> 'w hal_ops \<Rightarrow> 'w net_ops \<Rightarrow> tfp_ref \<Rightarrow> u32 \<Rightarrow> int \<Rightarrow> 'w TF_HAL \<Rightarrow> 'w \<Rightarrow>
    (int \<times> 'w TF_HAL \<times> 'w) option" where
  "tf_tfp_send_setter fuel tf ops net r deadline_us seq_num h w = do {
     h1 \<leftarrow> build_packet_of r seq_num h;
     send_setter_loop fuel tf ops net r deadline_us TF_TICK_AGAIN False h1 w
   }"

definition tf_tfp_send_packet ::
  "nat \<Rightarrow> nat \<Rightarrow> 'w hal_ops \<Rightarrow> 'w net_ops \<Rightarrow> tfp_ref \<Rightarrow> bool \<Rightarrow> u32 \<Rightarrow> int \<Rightarrow> 'w TF_HAL \<Rightarrow> 'w \<Rightarrow>
    (int \<times> (byte \<times> nat) option \<times> 'w TF_HAL \<times> 'w) option" where
  "tf_tfp_send_packet fuel tf ops net r response_expected deadline_us seq_num h w =
     (if response_expected then tf_tfp_send_getter fuel tf ops net r deadline_us seq_num h w
      else do {
        (result, h1, w1) \<leftarrow> tf_tfp_send_setter fuel tf ops net r deadline_us seq_num h w;
        Some (result, None, h1, w1)
      })"

fun finish_send_loop ::
  "nat \<Rightarrow> nat \<Rightarrow> 'w hal_ops \<Rightarrow> tfp_ref \<Rightarrow> u32 \<Rightarrow> int \<Rightarrow> 'w TF_HAL \<Rightarrow> 'w \<Rightarrow> (int \<times> 'w TF_HAL \<times> 'w) option" where
  "finish_send_loop 0 tf ops r deadline_us result h w = None"
| "finish_send_loop (Suc fuel) tf ops r deadline_us result h w = do {
     let (elapsed, w1) = tf_hal_deadline_elapsed ops deadline_us w;
     if (\<not> elapsed \<or> result AND TF_TICK_IN_TRANSCEIVE \<noteq> 0) \<and> result AND TF_TICK_AGAIN \<noteq> 0
     then do {
       (result1, h1, w2) \<leftarrow> tick_of tf ops r deadline_us h w1;
       if result1 < 0 then Some (result1, h1, w2)
       else finish_send_loop fuel tf ops r deadline_us result1 h1 w2
     }
     else Some (if result AND TF_TICK_AGAIN \<noteq> 0 then TF_E_TIMEOUT else 0,
            not_waiting r (set_send_buf r ((send_buf (port_of h r))[0 := 0]) h), w1)
   }"

definition tf_tfp_finish_send ::
  "nat \<Rightarrow> nat \<Rightarrow> 'w hal_ops \<Rightarrow> tfp_ref \<Rightarrow> int \<Rightarrow> u32 \<Rightarrow> 'w TF_HAL \<Rightarrow> 'w \<Rightarrow> (int \<times> 'w TF_HAL \<times> 'w) option" where
  "tf_tfp_finish_send fuel tf ops r previous_result deadline_us h w =
     finish_send_loop fuel tf ops r deadline_us previous_result h w"

fun callback_tick_loop ::
  "nat \<Rightarrow> nat \<Rightarrow> 'w hal_ops \<Rightarrow> 'w net_ops \<Rightarrow> tfp_ref \<Rightarrow> u32 \<Rightarrow> int \<Rightarrow> 'w TF_HAL \<Rightarrow> 'w \<Rightarrow>
    (int \<times> 'w TF_HAL \<times> 'w) option" where
  "callback_tick_loop 0 tf ops net r deadline_us result h w = None"
| "callback_tick_loop (Suc fuel) tf ops net r deadline_us result h w = do {
     (result1, h1, w1) \<leftarrow> tick_of tf ops r deadline_us h (sleep_if ops result w);
     if result1 < 0 then Some (result1, h1, w1)
     else do {
       (_, h2, w2) \<leftarrow>
         (if result1 AND TF_TICK_PACKET_RECEIVED \<noteq> 0
          then tf_tfp_filter_received_packet ops net r True h1 w1 else Some (None, h1, w1));
       let h3 = (if result1 AND TF_TICK_PACKET_SENT \<noteq> 0
                 then set_send_buf r ((send_buf (port_of h2 r))[0 := 0]) h2 else h2);
       let (elapsed, w3) = tf_hal_deadline_elapsed ops deadline_us w2;
       if \<not> elapsed \<or> result1 AND TF_TICK_AGAIN \<noteq> 0
       then callback_tick_loop fuel tf ops net r deadline_us result1 h3 w3
       else Some (TF_E_OK, h3, w3)
     }
   }"

definition tf_tfp_callback_tick ::
  "nat \<Rightarrow> nat \<Rightarrow> 'w hal_ops \<Rightarrow> 'w net_ops \<Rightarrow> tfp_ref \<Rightarrow> u32 \<Rightarrow> 'w TF_HAL \<Rightarrow> 'w \<Rightarrow>
    (int \<times> 'w TF_HAL \<times> 'w) option" where
  "tf_tfp_callback_tick fuel tf ops net r deadline_us h w = do {
     h1 \<leftarrow> (if send_buf (port_of h r) ! 0 \<noteq> 0 then build_packet_of r TF_RETRANSMISSION h else Some h);
     callback_tick_loop fuel tf ops net r deadline_us TF_TICK_AGAIN h1 w
   }"

end
