(* ===== verification/Hal_Common.thy ===== *)
theory Hal_Common
  imports Tfp
begin

unbundle bit_operations_syntax

section \<open>Port discovery and the periodic tick (hal_common.c, bricklet_unknown.c)\<close>

text \<open>
  \<^verbatim>\<open>tf_hal_common_prepare\<close> asks every port for its device through a
  \<^verbatim>\<open>TF_Unknown\<close> object on the stack; \<^verbatim>\<open>tf_hal_tick\<close> lets the devices deliver callbacks
  and exchanges packets between the devices, the brick itself and the network side.
\<close>

subsection \<open>The device object used for discovery\<close>

record TF_Unknown =
  unknown_tfp :: "tfp_ref option"
  unknown_magic :: nat
  unknown_response_expected :: byte

text \<open>The address of the object, stored as the device handle.\<close>

abbreviation (input) unknown_handle :: nat where "unknown_handle \<equiv> 0"

text \<open>
  \<open>fn\<close> is the registered user function with its user data, \<open>None\<close> if there is none. It gets the
  fields of the enumerate callback. The lock it runs under is released before the handler returns.
\<close>

type_synonym 'w enumerate_handler =
  "byte list \<Rightarrow> byte list \<Rightarrow> byte \<Rightarrow> byte list \<Rightarrow> byte list \<Rightarrow> u16 \<Rightarrow> byte \<Rightarrow> 'w \<Rightarrow> 'w"

definition tf_unknown_callback_handler :: "'w enumerate_handler option \<Rightarrow> 'w callback_handler" where
  "tf_unknown_callback_handler fn dev fid payload w =
     (if fid = 253
      then (case fn of
          None \<Rightarrow> (False, payload, w)
        | Some f \<Rightarrow>
            (case tf_packet_buffer_pop_n payload 8 of (uid, p1) \<Rightarrow>
             case tf_packet_buffer_pop_n p1 8 of (connected_uid, p2) \<Rightarrow>
             case tf_packet_buffer_read_char p2 of (pos, p3) \<Rightarrow>
             case tf_packet_buffer_pop_n p3 3 of (hw, p4) \<Rightarrow>
             case tf_packet_buffer_pop_n p4 3 of (fw, p5) \<Rightarrow>
             case tf_packet_buffer_read_uint16_t p5 of (dev_id, p6) \<Rightarrow>
             case tf_packet_buffer_read_uint8_t p6 of (enumeration_type, p7) \<Rightarrow>
               (True, p7, f uid connected_uid pos hw fw dev_id enumeration_type w)))
      else (False, payload, w))"

definition tf_unknown_create :: "tfp_ref \<Rightarrow> 'w TF_HAL \<Rightarrow> int \<times> TF_Unknown \<times> 'w TF_HAL" where
  "tf_unknown_create r h =
     (if device (tfp_at h r) \<noteq> None
      then (TF_E_DEVICE_ALREADY_IN_USE, \<lparr>unknown_tfp = None, unknown_magic = 0, unknown_response_expected = 0\<rparr>, h)
      else (TF_E_OK, \<lparr>unknown_tfp = Some r, unknown_magic = 0x5446, unknown_response_expected = 0\<rparr>,
            tfp_update r (\<lambda>t. t\<lparr>device := Some unknown_handle,
              cb_handler := Some (tf_unknown_callback_handler None)\<rparr>) h))"

definition tf_unknown_destroy :: "TF_Unknown \<Rightarrow> 'w TF_HAL \<Rightarrow> int \<times> TF_Unknown \<times> 'w TF_HAL" where
  "tf_unknown_destroy u h =
     (case unknown_tfp u of
        None \<Rightarrow> (TF_E_NOT_INITIALIZED, u, h)
      | Some r \<Rightarrow>
          if unknown_magic u \<noteq> 0x5446 then (TF_E_NOT_INITIALIZED, u, h)
          else (TF_E_OK, u\<lparr>unknown_tfp := None, unknown_magic := 0\<rparr>,
                tfp_update r (\<lambda>t. t\<lparr>cb_handler := None, device := None\<rparr>) h))"

abbreviation (input) TF_UNKNOWN_FUNCTION_COMCU_ENUMERATE :: byte where
  "TF_UNKNOWN_FUNCTION_COMCU_ENUMERATE \<equiv> 252"

definition tf_unknown_comcu_enumerate ::
  "nat \<Rightarrow> nat \<Rightarrow> 'w hal_ops \<Rightarrow> 'w net_ops \<Rightarrow> TF_Unknown \<Rightarrow> 'w TF_HAL \<Rightarrow> 'w \<Rightarrow> (int \<times> 'w TF_HAL \<times> 'w) option" where
  "tf_unknown_comcu_enumerate fuel tf ops net u h w =
     (case unknown_tfp u of
        None \<Rightarrow> Some (TF_E_NOT_INITIALIZED, h, w)
      | Some r \<Rightarrow>
          if unknown_magic u \<noteq> 0x5446 then Some (TF_E_NOT_INITIALIZED, h, w)
          else if hal_locked h then Some (TF_E_LOCKED, h, w)
          else do {
            let response_expected = (unknown_response_expected u AND 0x10 \<noteq> 0);
            let h1 = tf_tfp_prepare_send r TF_UNKNOWN_FUNCTION_COMCU_ENUMERATE 0 response_expected h;
            let (now, w1) = hal_current_time_us ops w;
            let deadline = now + hal_timeout h1;
            (result, response, h2, w2) \<leftarrow>
              tf_tfp_send_packet fuel tf ops net r response_expected deadline TF_NEW_PACKET h1 w1;
            if result < 0 then Some (result, h2, w2)
            else do {
              let h3 = (if result AND TF_TICK_PACKET_RECEIVED \<noteq> 0 then tf_tfp_packet_processed r h2 else h2);
              let (error_code, len) = (case response of None \<Rightarrow> (0, 0) | Some rsp \<Rightarrow> rsp);
              (result1, h4, w3) \<leftarrow> tf_tfp_finish_send fuel tf ops r result deadline h3 w2;
              Some (if result AND TF_TICK_TIMEOUT \<noteq> 0 then TF_E_TIMEOUT
                    else if error_code = 0 \<and> len \<noteq> 0 then TF_E_WRONG_RESPONSE_LENGTH
                    else if result1 < 0 then result1
                    else tf_tfp_get_error error_code, h4, w3)
            }
          })"

definition tf_unknown_callback_tick ::
  "nat \<Rightarrow> nat \<Rightarrow> 'w hal_ops \<Rightarrow> 'w net_ops \<Rightarrow> TF_Unknown \<Rightarrow> u32 \<Rightarrow> 'w TF_HAL \<Rightarrow> 'w \<Rightarrow> (int \<times> 'w TF_HAL \<times> 'w) option" where
  "tf_unknown_callback_tick fuel tf ops net u timeout_us h w =
     (case unknown_tfp u of
        None \<Rightarrow> Some (TF_E_NOT_INITIALIZED, h, w)
      | Some r \<Rightarrow>
          if unknown_magic u \<noteq> 0x5446 then Some (TF_E_NOT_INITIALIZED, h, w)
          else (case hal_current_time_us ops w of (now, w1) \<Rightarrow>
                  tf_tfp_callback_tick fuel tf ops net r (now + timeout_us) h w1))"

subsection \<open>Discovering the devices\<close>

definition prepare_port ::
  "nat \<Rightarrow> nat \<Rightarrow> 'w hal_ops \<Rightarrow> 'w net_ops \<Rightarrow> u32 \<Rightarrow> nat \<Rightarrow> 'w TF_HAL \<Rightarrow> 'w \<Rightarrow> (int \<times> 'w TF_HAL \<times> 'w) option" where
  "prepare_port fuel tf ops net timeout_us p h w = do {
     let h1 = (port_update p (tf_spitfp_create p) h)\<lparr>stack_tfp := tf_tfp_create 0 0 p\<rparr>;
     let (rc, u, h2) = tf_unknown_create Stack h1;
     if rc \<noteq> TF_E_OK then Some (rc, h2, w)
     else do {
       (rc1, h3, w1) \<leftarrow> tf_unknown_comcu_enumerate fuel tf ops net u h2 w;
       (h4, w2) \<leftarrow>
         (if rc1 = TF_E_OK
          then do {
            (_, h', w') \<leftarrow> tf_unknown_callback_tick fuel tf ops net u timeout_us h3 w1;
            Some (h', w')
          }
          else Some (h3, w1));
       let (_, _, h5) = tf_unknown_destroy u h4;
       Some (TF_E_OK, h5, w2)
     }
   }"

fun prepare_loop ::
  "nat \<Rightarrow> nat \<Rightarrow> 'w hal_ops \<Rightarrow> 'w net_ops \<Rightarrow> u32 \<Rightarrow> nat list \<Rightarrow> 'w TF_HAL \<Rightarrow> 'w \<Rightarrow> (int \<times> 'w TF_HAL \<times> 'w) option" where
  "prepare_loop fuel tf ops net timeout_us [] h w = Some (TF_E_OK, h, w)"
| "prepare_loop fuel tf ops net timeout_us (p # ps) h w = do {
     (rc, h1, w1) \<leftarrow> prepare_port fuel tf ops net timeout_us p h w;
     if rc \<noteq> TF_E_OK then Some (rc, h1, w1) else prepare_loop fuel tf ops net timeout_us ps h1 w1
   }"

definition tf_hal_common_prepare ::
  "nat \<Rightarrow> nat \<Rightarrow> 'w hal_ops \<Rightarrow> 'w net_ops \<Rightarrow> nat \<Rightarrow> u32 \<Rightarrow> 'w TF_HAL \<Rightarrow> 'w \<Rightarrow> (int \<times> 'w TF_HAL \<times> 'w) option" where
  "tf_hal_common_prepare fuel tf ops net n_ports port_discovery_timeout_us h w = do {
     let h1 = h\<lparr>hal_timeout := port_discovery_timeout_us, port_count := n_ports, tfps_used := 0,
                device_overflow_count := 0\<rparr>;
     (rc, h2, w1) \<leftarrow> prepare_loop fuel tf ops net port_discovery_timeout_us [0..<n_ports] h1 w;
     if rc \<noteq> TF_E_OK then Some (rc, h2, w1)
     else if device_overflow_count h2 > 0 then Some (TF_E_TOO_MANY_DEVICES, h2, w1)
     else Some (TF_E_OK, h2\<lparr>hal_timeout := 2500000\<rparr>, w1)
   }"

subsection \<open>Letting devices deliver callbacks\<close>

text \<open>The part for the brick itself.\<close>

definition local_callback :: "'w net_ops \<Rightarrow> 'w TF_HAL \<Rightarrow> 'w \<Rightarrow> 'w TF_HAL \<times> 'w" where
  "local_callback net h w =
     (case hal_local h of
        None \<Rightarrow> (h, w)
      | Some l \<Rightarrow>
          (case tf_local_callback_tick l of (fired, l') \<Rightarrow>
             (h\<lparr>hal_local := Some l'\<rparr>,
              if fired \<and> hal_net h
              then net_send_packet net (snd (tf_tfp_header_peek_plain (tf_local_get_recv_buffer l')))
                     (tf_local_get_recv_buffer l') w
              else w)))"

text \<open>One round per device, starting behind the device that came last in the previous call.\<close>

definition next_tick_index :: "nat \<Rightarrow> nat \<Rightarrow> nat" where
  "next_tick_index used i = (let j = (i + 1) mod 2 ^ 16 in if j \<ge> used then j - used else j)"

fun hal_callback_loop ::
  "nat \<Rightarrow> nat \<Rightarrow> nat \<Rightarrow> 'w hal_ops \<Rightarrow> 'w net_ops \<Rightarrow> u32 \<Rightarrow> nat \<Rightarrow> 'w TF_HAL \<Rightarrow> 'w \<Rightarrow> (int \<times> 'w TF_HAL \<times> 'w) option" where
  "hal_callback_loop 0 fuel tf ops net deadline_us first_index h w = None"
| "hal_callback_loop (Suc n) fuel tf ops net deadline_us first_index h w = do {
     let i = next_tick_index (tfps_used h) (callback_tick_index h);
     let h1 = h\<lparr>callback_tick_index := i\<rparr>;
     let (now, w1) = hal_current_time_us ops w;
     (result, h2, w2) \<leftarrow> tf_tfp_callback_tick fuel tf ops net (Inventory i) now h1 w1;
     if result \<noteq> TF_E_OK then Some (result, h2, w2)
     else if first_index \<noteq> callback_tick_index h2
     then (case tf_hal_deadline_elapsed ops deadline_us w2 of (elapsed, w3) \<Rightarrow>
       if \<not> elapsed then hal_callback_loop n fuel tf ops net deadline_us first_index h2 w3
       else Some (TF_E_OK, h2, w3))
     else Some (TF_E_OK, h2, w2)
   }"

definition tf_hal_callback_tick ::
  "nat \<Rightarrow> nat \<Rightarrow> 'w hal_ops \<Rightarrow> 'w net_ops \<Rightarrow> u32 \<Rightarrow> 'w TF_HAL \<Rightarrow> 'w \<Rightarrow> (int \<times> 'w TF_HAL \<times> 'w) option" where
  "tf_hal_callback_tick fuel tf ops net timeout_us h w = do {
     let (h1, w1) = local_callback net h w;
     if tfps_used h1 = 0 then Some (TF_E_OK, h1, w1)
     else do {
       let (now, w2) = hal_current_time_us ops w1;
       hal_callback_loop (Suc TF_INVENTORY_SIZE) fuel tf ops net (now + timeout_us) (callback_tick_index h1) h1 w2
     }
   }"

subsection \<open>Packets from the network side\<close>

definition int8_of_byte :: "byte \<Rightarrow> int" where
  "int8_of_byte b = (if unat b < 128 then int (unat b) else int (unat b) - 256)"

text \<open>
  Sending the packet in the send buffer for at most one link timeout, and what is remembered for the
  next try: after ten tries in a row without an answer the packet is given up. The result says
  whether the packet has to be sent again.
\<close>

definition send_with_retry ::
  "nat \<Rightarrow> nat \<Rightarrow> 'w hal_ops \<Rightarrow> 'w net_ops \<Rightarrow> nat \<Rightarrow> 'w TF_HAL \<Rightarrow> 'w \<Rightarrow> (bool \<times> 'w TF_HAL \<times> 'w) option" where
  "send_with_retry fuel tf ops net i h w = do {
     let (now, w1) = hal_current_time_us ops w;
     let inner_deadline_us = now + 5000;
     let tfp = tfps h ! i;
     let seq_num = (if spitfp_timeout_counter tfp > 0 then spitfp_last_seq_num tfp else TF_NEW_PACKET);
     (result, _, h1, w2) \<leftarrow>
       tf_tfp_send_packet fuel tf ops net (Inventory i) False inner_deadline_us seq_num h w1;
     (result1, h2, w3) \<leftarrow> tf_tfp_finish_send fuel tf ops (Inventory i) result inner_deadline_us h1 w2;
     let timed_out = (result1 AND TF_E_TIMEOUT = TF_E_TIMEOUT);
     let counter = spitfp_timeout_counter (tfps h2 ! i) + 1;
     let again = (timed_out \<and> counter \<noteq> 10);
     Some (again, tfp_update (Inventory i) (\<lambda>t. t\<lparr>
       spitfp_timeout_counter := (if again then counter else 0),
       spitfp_last_seq_num := (if again then int8_of_byte (last_sequence_number_sent (port_of h2 (Inventory i)))
                               else TF_NEW_PACKET)\<rparr>) h2, w3)
   }"

definition enumerate_request :: "byte list" where
  "enumerate_request = [0, 0, 0, 0, 8, 254, 0x40, 0]"

definition enumerate_request_header :: TF_TFPHeader where
  "enumerate_request_header = \<lparr>hdr_uid_num = 0, hdr_length = 8, hdr_fid = 254, hdr_seq_num = 4,
     hdr_response_expected = False, hdr_options = 0, hdr_error_code = 0, hdr_flags = 0\<rparr>"

text \<open>The loop bound is read again in every round: a packet that arrives may add a device.\<close>

fun enumerate_request_loop ::
  "nat \<Rightarrow> nat \<Rightarrow> nat \<Rightarrow> 'w hal_ops \<Rightarrow> 'w net_ops \<Rightarrow> nat \<Rightarrow> 'w TF_HAL \<Rightarrow> 'w \<Rightarrow> ('w TF_HAL \<times> 'w) option" where
  "enumerate_request_loop 0 fuel tf ops net i h w = None"
| "enumerate_request_loop (Suc n) fuel tf ops net i h w =
    (if i < tfps_used h
     then if send_enumerate_request (tfps h ! i) \<and> send_buf (port_of h (Inventory i)) ! 0 = 0
       then do {
         (again, h1, w1) \<leftarrow> send_with_retry fuel tf ops net i
           (tf_tfp_inject_packet (Inventory i) enumerate_request_header enumerate_request h) w;
         enumerate_request_loop n fuel tf ops net (i + 1)
           (tfp_update (Inventory i) (\<lambda>t. t\<lparr>send_enumerate_request := again\<rparr>) h1) w1
       }
       else enumerate_request_loop n fuel tf ops net (i + 1) h w
     else Some (h, w))"

text \<open>Whether the device was found and the packet is done with.\<close>

fun net_dispatch_loop ::
  "nat \<Rightarrow> nat \<Rightarrow> nat \<Rightarrow> 'w hal_ops \<Rightarrow> 'w net_ops \<Rightarrow> TF_TFPHeader \<Rightarrow> byte \<Rightarrow> bool \<Rightarrow> nat \<Rightarrow> 'w TF_HAL \<Rightarrow> 'w \<Rightarrow>
    (bool \<times> bool \<times> 'w TF_HAL \<times> 'w) option" where
  "net_dispatch_loop 0 fuel tf ops net header pid found i h w = None"
| "net_dispatch_loop (Suc n) fuel tf ops net header pid found i h w =
    (if i < tfps_used h
     then if hdr_uid_num header \<noteq> uid_num (tfps h ! i)
       then net_dispatch_loop n fuel tf ops net header pid found (i + 1) h w
       else if send_buf (port_of h (Inventory i)) ! 0 \<noteq> 0
       then net_dispatch_loop n fuel tf ops net header pid True (i + 1) h w
       else do {
         let (buf, w1) = net_get_packet net pid w;
         (again, h1, w2) \<leftarrow> send_with_retry fuel tf ops net i
           (tf_tfp_inject_packet (Inventory i) header buf h) w1;
         Some (True, \<not> again, h1, w2)
       }
     else Some (found, False, h, w))"

definition local_request ::
  "'w net_ops \<Rightarrow> TF_TFPHeader \<Rightarrow> byte \<Rightarrow> TF_Local \<Rightarrow> 'w TF_HAL \<Rightarrow> 'w \<Rightarrow> 'w TF_HAL \<times> 'w" where
  "local_request net header pid l h w =
     (case net_get_packet net pid w of (buf, w1) \<Rightarrow>
        let l' = tf_local_transceive_packet (tf_local_inject_packet l header buf);
            answer = tf_local_get_recv_buffer l'
        in (h\<lparr>hal_local := Some l'\<rparr>,
            net_send_packet net (snd (tf_tfp_header_peek_plain answer)) answer w1))"

definition handle_net_packet ::
  "nat \<Rightarrow> nat \<Rightarrow> 'w hal_ops \<Rightarrow> 'w net_ops \<Rightarrow> TF_TFPHeader \<Rightarrow> byte \<Rightarrow> 'w TF_HAL \<Rightarrow> 'w \<Rightarrow> ('w TF_HAL \<times> 'w) option" where
  "handle_net_packet fuel tf ops net header pid h w =
     (if hdr_seq_num header = 0 then Some (h, net_drop_packet net pid w)
      else if hdr_fid header = 254 \<and> hdr_uid_num header = 0 \<and> hdr_length header = 8
      then Some (h\<lparr>tfps := map (\<lambda>t. t\<lparr>send_enumerate_request := True\<rparr>) (take (tfps_used h) (tfps h)) @
                           drop (tfps_used h) (tfps h),
                   hal_local := map_option (\<lambda>l. l\<lparr>trigger_enumerate_callback := True\<rparr>) (hal_local h)\<rparr>,
                 net_drop_packet net pid w)
      else do {
        (found, dispatched, h1, w1) \<leftarrow>
          net_dispatch_loop (Suc TF_INVENTORY_SIZE) fuel tf ops net header pid False 0 h w;
        let (found2, dispatched2, h2, w2) =
          (case hal_local h1 of
             Some l \<Rightarrow> if \<not> found \<and> hdr_uid_num header = local_uid_num l
               then (case local_request net header pid l h1 w1 of (h', w') \<Rightarrow> (True, True, h', w'))
               else (found, dispatched, h1, w1)
           | None \<Rightarrow> (found, dispatched, h1, w1));
        Some (h2, if \<not> found2 \<or> (found2 \<and> dispatched2) then net_drop_packet net pid w2 else w2)
      })"

definition tf_hal_tick ::
  "nat \<Rightarrow> nat \<Rightarrow> 'w hal_ops \<Rightarrow> 'w net_ops \<Rightarrow> u32 \<Rightarrow> 'w TF_HAL \<Rightarrow> 'w \<Rightarrow> (int \<times> 'w TF_HAL \<times> 'w) option" where
  "tf_hal_tick fuel tf ops net timeout_us h w = do {
     (_, h1, w1) \<leftarrow> tf_hal_callback_tick fuel tf ops net timeout_us h w;
     if \<not> hal_net h1 then Some (TF_E_OK, h1, w1)
     else do {
       (h2, w2) \<leftarrow> enumerate_request_loop (Suc TF_INVENTORY_SIZE) fuel tf ops net 0 h1 (net_tick net w1);
       case net_get_available_tfp_header net w2 of
         (None, w3) \<Rightarrow> Some (TF_E_OK, h2, w3)
       | (Some (header, packet_id), w3) \<Rightarrow> do {
           (h3, w4) \<leftarrow> handle_net_packet fuel tf ops net header (of_int packet_id) h2 w3;
           Some (TF_E_OK, h3, w4)
         }
     }
   }"

end
