(* ===== verification/Hal_Inventory.thy ===== *)
theory Hal_Inventory
  imports Hal_State
begin

unbundle bit_operations_syntax

section \<open>The inventory: sorted, without duplicates, complete lookups\<close>

text \<open>
  The display order of the inventory is a permutation of the used slots, sorted by port and UID. The
  enumerate handler keeps this, never overwrites a known device, and what it adds is found again.
  Lookups return a matching device whenever there is one.
\<close>

subsection \<open>The invariant\<close>

definition key_less :: "'w TF_HAL \<Rightarrow> nat \<Rightarrow> nat \<Rightarrow> bool" where
  "key_less h i j \<longleftrightarrow>
     port_id (ports h ! spitfp (tfps h ! i)) < port_id (ports h ! spitfp (tfps h ! j)) \<or>
     (port_id (ports h ! spitfp (tfps h ! i)) = port_id (ports h ! spitfp (tfps h ! j)) \<and>
      uid_num (tfps h ! i) < uid_num (tfps h ! j))"

definition inventory_inv :: "'w TF_HAL \<Rightarrow> bool" where
  "inventory_inv h \<longleftrightarrow> length (tfps h) = 10 \<and> length (tfps_order h) = 10 \<and> tfps_used h \<le> 10 \<and>
     (\<forall>i < tfps_used h. spitfp (tfps h ! i) < length (ports h)) \<and>
     (\<forall>p < length (ports h). port_id (ports h ! p) = p) \<and>
     inj_on (\<lambda>i. uid_num (tfps h ! i)) {..<tfps_used h} \<and>
     set (take (tfps_used h) (tfps_order h)) = {..<tfps_used h} \<and>
     sorted_wrt (key_less h) (take (tfps_used h) (tfps_order h))"

lemma map_nth_take: "n \<le> length xs \<Longrightarrow> map (\<lambda>i. xs ! i) [0..<n] = take n xs"
  by (intro nth_equalityI) simp_all

lemma get_tfp_find:
  "inventory_inv h \<Longrightarrow> tf_hal_get_tfp h uid port dev_id skip =
    List.find (tfp_matches h uid port dev_id skip) (take (tfps_used h) (tfps_order h))"
  by (simp add: tf_hal_get_tfp_def inventory_inv_def map_nth_take)

lemma get_tfp_Some:
  assumes "inventory_inv h" and "tf_hal_get_tfp h uid port dev_id skip = Some i"
  shows "i < tfps_used h" and "tfp_matches h uid port dev_id skip i"
proof -
  have "i \<in> set (take (tfps_used h) (tfps_order h))" "tfp_matches h uid port dev_id skip i"
    using assms by (auto simp: get_tfp_find find_Some_iff in_set_conv_nth)
  then show "i < tfps_used h" "tfp_matches h uid port dev_id skip i"
    using assms(1) by (auto simp: inventory_inv_def)
qed

lemma get_tfp_None:
  "inventory_inv h \<Longrightarrow> tf_hal_get_tfp h uid port dev_id skip = None \<longleftrightarrow>
    (\<forall>i < tfps_used h. \<not> tfp_matches h uid port dev_id skip i)"
  by (auto simp: get_tfp_find find_None_iff inventory_inv_def)

lemma matches_uid: "tfp_matches h (Some num) None None False i \<longleftrightarrow> uid_num (tfps h ! i) = num"
  by (simp add: tfp_matches_def Let_def)

lemma get_tfp_uid:
  assumes "inventory_inv h" and "i < tfps_used h" and "uid_num (tfps h ! i) = num"
  shows "tf_hal_get_tfp h (Some num) None None False = Some i"
proof (cases "tf_hal_get_tfp h (Some num) None None False")
  case None
  then show ?thesis using assms by (auto simp: get_tfp_None matches_uid)
next
  case (Some j)
  then have "j < tfps_used h" "uid_num (tfps h ! j) = num"
    using get_tfp_Some [OF assms(1) Some] by (simp_all add: matches_uid)
  then have "j = i" using assms by (auto simp: inventory_inv_def inj_on_def)
  then show ?thesis using Some by simp
qed

lemma inventory_inv_create: "\<forall>p < length (ports h). port_id (ports h ! p) = p \<Longrightarrow> inventory_inv (snd (tf_hal_common_create h))"
  by (simp add: tf_hal_common_create_def inventory_inv_def)

text \<open>A HAL with one port and no devices, as after its creation.\<close>

definition one_port_hal :: "nat TF_HAL" where
  "one_port_hal = snd (tf_hal_common_create \<lparr>tfps = [], tfps_order = [], tfps_used = 0, device_overflow_count = 0,
         hal_timeout = 0, hal_locked = False, port_count = 1, callback_tick_index = 0, hal_net = False,
         hal_local = None, ports = [tf_spitfp_create 0], stack_tfp = (zero_tfp :: nat TF_TFP)\<rparr>)"

lemma inventory_inv_one_port: "inventory_inv one_port_hal"
  unfolding one_port_hal_def by (rule inventory_inv_create) (simp add: tf_spitfp_create_def)

subsection \<open>Inserting into the display order\<close>

lemma memmove_insert:
  assumes "index \<le> used" and "used < length ord"
  shows "take (used + 1) ((if index < used
      then write_at (index + 1) (take (used - index) (drop index ord)) ord else ord)[index := x]) =
    take index ord @ x # take (used - index) (drop index ord)"
    and "length ((if index < used
      then write_at (index + 1) (take (used - index) (drop index ord)) ord else ord)[index := x]) = length ord"
proof -
  let ?o = "if index < used then write_at (index + 1) (take (used - index) (drop index ord)) ord else ord"
  have len: "length ?o = length ord" using assms by simp
  then show "length (?o[index := x]) = length ord" by simp
  show "take (used + 1) (?o[index := x]) = take index ord @ x # take (used - index) (drop index ord)"
  proof (rule nth_equalityI)
    show "length (take (used + 1) (?o[index := x])) =
        length (take index ord @ x # take (used - index) (drop index ord))"
      using assms len by simp
    fix i assume "i < length (take (used + 1) (?o[index := x]))"
    then have "i \<le> used" using len by simp
    then show "take (used + 1) (?o[index := x]) ! i = (take index ord @ x # take (used - index) (drop index ord)) ! i"
      using assms by (auto simp: nth_append nth_write_at nth_Cons' nth_list_update)
  qed
qed

lemma sorted_wrt_insert:
  assumes "sorted_wrt R (xs @ ys)" and "\<forall>a \<in> set xs. R a x" and "ys \<noteq> [] \<Longrightarrow> R x (hd ys)" and "transp R"
  shows "sorted_wrt R (xs @ x # ys)"
proof -
  have "R x b" if "b \<in> set ys" for b
    using assms that by (cases ys) (auto simp: sorted_wrt_append dest: transpD)
  then show ?thesis using assms(1,2) by (auto simp: sorted_wrt_append)
qed

lemma transp_key_less: "transp (key_less h)"
  by (rule transpI) (auto simp: key_less_def)

text \<open>The index found by the search splits the order into smaller and greater devices.\<close>

definition key_greater :: "'w TF_HAL \<Rightarrow> nat \<Rightarrow> u32 \<Rightarrow> nat \<Rightarrow> bool" where
  "key_greater h port uid i \<longleftrightarrow> port_id (ports h ! spitfp (tfps h ! i)) > port \<or>
     (port_id (ports h ! spitfp (tfps h ! i)) = port \<and> uid_num (tfps h ! i) > uid)"

lemma order_index_split:
  fixes h :: "'w TF_HAL" and port :: nat and uid :: u32
  defines "k \<equiv> order_index h port uid"
  shows "k \<le> tfps_used h" and "i < k \<Longrightarrow> \<not> key_greater h port uid (tfps_order h ! i)"
    and "k < tfps_used h \<Longrightarrow> key_greater h port uid (tfps_order h ! k)"
proof -
  let ?P = "\<lambda>i. \<not> key_greater h port uid (tfps_order h ! i)"
  have k: "k = length (takeWhile ?P [0..<tfps_used h])"
    by (simp add: k_def order_index_def key_greater_def Let_def)
  show le: "k \<le> tfps_used h" using length_takeWhile_le [of ?P "[0..<tfps_used h]"] by (simp add: k)
  show "?P i" if "i < k"
  proof -
    have "takeWhile ?P [0..<tfps_used h] ! i = i" using that le by (simp add: k takeWhile_nth)
    moreover have "takeWhile ?P [0..<tfps_used h] ! i \<in> set (takeWhile ?P [0..<tfps_used h])"
      using that by (simp add: k)
    ultimately show ?thesis by (metis set_takeWhileD)
  qed
  show "k < tfps_used h \<Longrightarrow> key_greater h port uid (tfps_order h ! k)"
    using nth_length_takeWhile [of ?P "[0..<tfps_used h]"] by (simp flip: k)
qed

subsection \<open>The enumerate handler\<close>

text \<open>A device is added to the inventory: the model of the handler's tail.\<close>

definition add_device :: "nat \<Rightarrow> u32 \<Rightarrow> u16 \<Rightarrow> 'w TF_HAL \<Rightarrow> 'w TF_HAL" where
  "add_device port num dev_id h =
     (let used = tfps_used h;
          h1 = h\<lparr>tfps := (tfps h)[used := tf_tfp_create num dev_id port]\<rparr>;
          index = order_index h1 port num;
          order = (if index < used
            then write_at (index + 1) (take (used - index) (drop index (tfps_order h1))) (tfps_order h1)
            else tfps_order h1)
      in h1\<lparr>tfps_order := order[index := used], tfps_used := used + 1\<rparr>)"

lemma add_device_inv:
  assumes inv: "inventory_inv h" and room: "tfps_used h < 10" and port: "port < length (ports h)"
    and new: "\<forall>i < tfps_used h. uid_num (tfps h ! i) \<noteq> num"
  shows "inventory_inv (add_device port num dev_id h)"
proof -
  define used where "used = tfps_used h"
  define t :: "'a TF_TFP" where "t = tf_tfp_create num dev_id port"
  define h1 where "h1 = h\<lparr>tfps := (tfps h)[used := t]\<rparr>"
  define k where "k = order_index h1 port num"
  define ord where "ord = take used (tfps_order h)"
  let ?h' = "add_device port num dev_id h"
  note inv' = inv [unfolded inventory_inv_def, folded used_def]
  have len: "length ord = used" "used < 10" "length (tfps h) = 10" using inv' room by (simp_all add: ord_def used_def)
  have h1: "tfps_order h1 = tfps_order h" "tfps_used h1 = used" "ports h1 = ports h"
    "tfps h1 ! used = t" "\<And>i. i < used \<Longrightarrow> tfps h1 ! i = tfps h ! i"
    using len by (simp_all add: h1_def used_def)
  have k: "k \<le> used" using order_index_split(1) [of h1 port num] by (simp add: k_def h1)
  note move = memmove_insert [OF k, of "tfps_order h" used]
  have upd: "?h' = h1\<lparr>tfps_order := (if k < used
      then write_at (k + 1) (take (used - k) (drop k (tfps_order h))) (tfps_order h) else tfps_order h)[k := used],
      tfps_used := used + 1\<rparr>"
    by (simp add: add_device_def Let_def h1_def t_def k_def used_def)
  have h': "tfps ?h' = tfps h1" "ports ?h' = ports h" "tfps_used ?h' = used + 1"
    unfolding upd by (simp_all add: h1)
  have "take k (tfps_order h) = take k ord" "take (used - k) (drop k (tfps_order h)) = drop k ord"
    using k by (simp_all add: ord_def drop_take min_absorb1)
  then have ord': "take (used + 1) (tfps_order ?h') = take k ord @ used # drop k ord" "length (tfps_order ?h') = 10"
    using move inv' len(2) unfolding upd by simp_all
  have key: "key_less ?h' = key_less h1" by (intro ext) (simp add: key_less_def h' h1)
  have old: "key_less h1 i j = key_less h i j" if "i < used" "j < used" for i j
    using that by (simp add: key_less_def h1)
  have t: "uid_num t = num" "spitfp t = port" by (simp_all add: t_def tf_tfp_create_def zero_tfp_def)
  have pid: "port_id (ports h ! port) = port" using inv' port by simp
  have mem: "set ord = {..<used}" using inv' by (simp add: ord_def)
  have nth: "tfps_order h ! i = ord ! i" "ord ! i < used" if "i < used" for i
    using that mem len nth_mem [of i ord] by (auto simp: ord_def)
  have below: "\<forall>a \<in> set (take k ord). key_less h1 a used"
  proof
    fix a assume "a \<in> set (take k ord)"
    then obtain i where i: "i < k" "i < used" "a = ord ! i"
      using len k by (auto simp: in_set_conv_nth)
    then have "\<not> key_greater h1 port num (ord ! i)" "ord ! i < used" "uid_num (tfps h ! (ord ! i)) \<noteq> num"
      using order_index_split(2) [of i h1 port num] nth new by (auto simp: k_def h1 used_def)
    then show "key_less h1 a used" using i by (auto simp: key_less_def key_greater_def h1 t pid)
  qed
  have above: "key_less h1 used (hd (drop k ord))" if "drop k ord \<noteq> []"
  proof -
    have "k < used" using that len by simp
    then have "key_greater h1 port num (ord ! k)"
      using order_index_split(3) [of h1 port num] nth by (simp add: k_def h1)
    then show ?thesis
      using \<open>k < used\<close> len by (auto simp: hd_drop_conv_nth key_less_def key_greater_def h1 t pid)
  qed
  have "sorted_wrt (key_less h1) (take k ord @ drop k ord)"
    using inv' mem old by (simp add: ord_def [symmetric]) (rule sorted_wrt_mono_rel [rotated], auto)
  then have "sorted_wrt (key_less ?h') (take (used + 1) (tfps_order ?h'))"
    unfolding ord'(1) key by (rule sorted_wrt_insert [OF _ below above transp_key_less])
  moreover have "set (take (used + 1) (tfps_order ?h')) = {..<used + 1}"
  proof -
    have "set (take k ord) \<union> set (drop k ord) = {..<used}"
      using mem set_append [of "take k ord" "drop k ord"] by simp
    then show ?thesis unfolding ord'(1) set_append list.set Un_insert_right by (simp add: lessThan_Suc)
  qed
  moreover have "inj_on (\<lambda>i. uid_num (tfps ?h' ! i)) {..<used + 1}"
  proof -
    have "inj_on (\<lambda>i. uid_num (tfps h1 ! i)) {..<used} = inj_on (\<lambda>i. uid_num (tfps h ! i)) {..<used}"
      by (rule inj_on_cong) (simp add: h1)
    moreover have "num \<notin> (\<lambda>i. uid_num (tfps h1 ! i)) ` {..<used}"
      using new [folded used_def] by (auto simp: h1)
    ultimately show ?thesis using inv' by (simp add: lessThan_Suc h' h1 t)
  qed
  moreover have "\<forall>i < used + 1. spitfp (tfps ?h' ! i) < length (ports ?h')"
    using inv' port by (auto simp: h' h1 t less_Suc_eq)
  ultimately show ?thesis
    using inv' len h' ord' by (simp add: inventory_inv_def h1_def)
qed

definition enumerated_uid :: "byte list \<Rightarrow> string" where
  "enumerated_uid bs = c_str (map (\<lambda>b. char_of (unat b)) (take 8 bs))"

text \<open>What the handler does to the inventory, given the UID string and the device identifier.\<close>

definition register_device :: "nat \<Rightarrow> string \<Rightarrow> u16 \<Rightarrow> 'w TF_HAL \<Rightarrow> 'w TF_HAL" where
  "register_device port uid dev_id h =
     (if tfps_used h \<ge> 10 then h\<lparr>device_overflow_count := (device_overflow_count h + 1) mod 2 ^ 16\<rparr>
      else case tf_base58_decode uid 0 of (rc, num) \<Rightarrow>
        if rc \<noteq> TF_E_OK \<or> tf_hal_get_tfp h (Some num) None None False \<noteq> None then h
        else add_device port num dev_id h)"

lemma enumerate_handler_register:
  assumes "pb_inv pb"
  obtains pb' dev_id where "tf_hal_enumerate_handler port pb h =
      (pb', register_device port (c_str (map (\<lambda>b. char_of (unat b)) (fst (tf_packet_buffer_pop_n pb 8)))) dev_id h)"
    and "pb_inv pb'"
    and "26 \<le> length (pb_list pb) \<longrightarrow> dev_id = le_word (take 2 (drop 23 (pb_list pb))) \<and>
           pb_list pb' = drop 26 (pb_list pb)"
proof -
  obtain uid pb1 where p1: "tf_packet_buffer_pop_n pb 8 = (uid, pb1)" by fastforce
  obtain con pb2 where p2: "tf_packet_buffer_pop_n pb1 8 = (con, pb2)" by fastforce
  let ?pb = "tf_packet_buffer_remove pb2 7"
  obtain dev pb3 where p3: "tf_packet_buffer_read_uint16_t ?pb = (dev, pb3)" by fastforce
  have inv2: "pb_inv ?pb"
    using pb_inv_pop_n [OF assms, of 8] pb_inv_pop_n [of pb1 8] p1 p2 by (simp add: pb_inv_remove)
  then have inv3: "pb_inv pb3"
    using pb_inv_pop_n [of ?pb 2] p3 by (auto simp: tf_packet_buffer_read_uint16_t_def split: prod.splits)
  have eq: "tf_hal_enumerate_handler port pb h = (tf_packet_buffer_remove pb3 1,
      register_device port (c_str (map (\<lambda>b. char_of (unat b)) uid)) dev h)"
    by (auto simp: tf_hal_enumerate_handler_def register_device_def add_device_def p1 p2 p3 Let_def
        split: prod.splits)
  have "dev = le_word (take 2 (drop 23 (pb_list pb))) \<and> pb_list (tf_packet_buffer_remove pb3 1) = drop 26 (pb_list pb)"
    if len: "26 \<le> length (pb_list pb)"
  proof -
    have l1: "pb_inv pb1" "pb_list pb1 = drop 8 (pb_list pb)"
      using pop_n_effect [OF assms, of 8] p1 len by simp_all
    then have l2: "pb_inv pb2" "pb_list pb2 = drop 16 (pb_list pb)"
      using pop_n_effect [of pb1 8] p2 len by simp_all
    have "pb_list ?pb = drop 23 (pb_list pb)" using l2 by (simp add: pb_list_remove)
    then have split: "pb_list ?pb = take 2 (drop 23 (pb_list pb)) @ drop 25 (pb_list pb)"
      using append_take_drop_id [of 2 "drop 23 (pb_list pb)"] by simp
    have "length (take 2 (drop 23 (pb_list pb))) = 2" using len by simp
    from read_words_effect(1) [OF inv2 split this] p3
    have "dev = le_word (take 2 (drop 23 (pb_list pb)))" "pb_list pb3 = drop 25 (pb_list pb)" by auto
    then show ?thesis using inv3 by (simp add: pb_list_remove)
  qed
  then show ?thesis using that [OF _ pb_inv_remove [OF inv3, of 1]] eq p1 by simp
qed

lemma register_device_inv:
  assumes "inventory_inv h" and "port < length (ports h)"
  shows "inventory_inv (register_device port uid dev_id h)"
    and "tfps_used h \<le> tfps_used (register_device port uid dev_id h)"
    and "i < tfps_used h \<Longrightarrow> tfps (register_device port uid dev_id h) ! i = tfps h ! i"
proof -
  obtain rc num where d: "tf_base58_decode uid 0 = (rc, num)" by fastforce
  let ?add = "tfps_used h < 10 \<and> rc = TF_E_OK \<and> tf_hal_get_tfp h (Some num) None None False = None"
  have "inventory_inv (register_device port uid dev_id h) \<and>
      tfps_used h \<le> tfps_used (register_device port uid dev_id h) \<and>
      (i < tfps_used h \<longrightarrow> tfps (register_device port uid dev_id h) ! i = tfps h ! i)"
  proof (cases ?add)
    case True
    then have reg: "register_device port uid dev_id h = add_device port num dev_id h"
      by (simp add: register_device_def d)
    have "\<forall>i < tfps_used h. uid_num (tfps h ! i) \<noteq> num"
      using True get_tfp_None [OF assms(1)] by (simp add: matches_uid)
    then show ?thesis
      using add_device_inv [OF assms(1) _ assms(2)] True by (simp add: reg add_device_def Let_def)
  next
    case False
    then show ?thesis
      using assms(1) by (auto simp: register_device_def d inventory_inv_def key_less_def [abs_def])
  qed
  then show "inventory_inv (register_device port uid dev_id h)"
    "tfps_used h \<le> tfps_used (register_device port uid dev_id h)"
    "i < tfps_used h \<Longrightarrow> tfps (register_device port uid dev_id h) ! i = tfps h ! i" by simp_all
qed

lemma register_device_new:
  fixes h :: "'w TF_HAL" and dev_id :: u16
  assumes "inventory_inv h" and "tfps_used h < 10" and "port < length (ports h)"
    and "tf_base58_decode uid 0 = (TF_E_OK, num)" and "\<forall>i < tfps_used h. uid_num (tfps h ! i) \<noteq> num"
  defines "h' \<equiv> register_device port uid dev_id h"
  shows "tfps_used h' = tfps_used h + 1" and "tfps h' ! tfps_used h = tf_tfp_create num dev_id port"
proof -
  have "tf_hal_get_tfp h (Some num) None None False = None"
    using assms(5) get_tfp_None [OF assms(1)] by (simp add: matches_uid)
  then have "h' = add_device port num dev_id h"
    using assms(2,4) by (simp add: h'_def register_device_def)
  then show "tfps_used h' = tfps_used h + 1" "tfps h' ! tfps_used h = tf_tfp_create num dev_id port"
    using assms(1,2) by (simp_all add: add_device_def Let_def inventory_inv_def)
qed

text \<open>
  An enumerate packet with the UID of an unknown device, while there is room, adds that
  device: the display order stays a permutation of the used slots sorted by port and UID, UIDs stay
  distinct, known devices keep their slots, the new device is found by its UID with the device
  identifier of the packet and the port the packet came from, and exactly the 26 bytes of the payload
  are consumed.
\<close>

lemma enumerate_adds_device:
  assumes "inventory_inv h" and "tfps_used h < 10" and "port < length (ports h)"
    and "pb_inv payload" and "26 \<le> length (pb_list payload)"
    and "tf_base58_decode (enumerated_uid (pb_list payload)) 0 = (TF_E_OK, num)"
    and "\<forall>i < tfps_used h. uid_num (tfps h ! i) \<noteq> num"
  shows "\<exists>payload' h'. tf_hal_enumerate_handler port payload h = (payload', h') \<and>
    inventory_inv h' \<and> pb_inv payload' \<and> pb_list payload' = drop 26 (pb_list payload) \<and>
    (\<forall>i < tfps_used h. tfps h' ! i = tfps h ! i) \<and>
    tf_hal_get_tfp h' (Some num) None None False = Some (tfps_used h) \<and>
    tfps h' ! tfps_used h = tf_tfp_create num (le_word (take 2 (drop 23 (pb_list payload)))) port"
proof -
  let ?dev = "le_word (take 2 (drop 23 (pb_list payload)))"
  have uid: "c_str (map (\<lambda>b. char_of (unat b)) (fst (tf_packet_buffer_pop_n payload 8))) =
      enumerated_uid (pb_list payload)"
    using pop_n_effect [OF assms(4), of 8] assms(5) by (simp add: enumerated_uid_def)
  obtain pb' where run: "tf_hal_enumerate_handler port payload h =
      (pb', register_device port (enumerated_uid (pb_list payload)) ?dev h)"
    and pb': "pb_inv pb'" "pb_list pb' = drop 26 (pb_list payload)"
    using enumerate_handler_register [OF assms(4), of port h] assms(5) unfolding uid by metis
  note inv = register_device_inv [OF assms(1,3), where uid = "enumerated_uid (pb_list payload)" and dev_id = ?dev]
  note new = register_device_new [OF assms(1-3,6,7), of ?dev]
  have "tf_hal_get_tfp (register_device port (enumerated_uid (pb_list payload)) ?dev h)
      (Some num) None None False = Some (tfps_used h)"
    using get_tfp_uid [OF inv(1), of "tfps_used h" num] new by (simp add: tf_tfp_create_def)
  then show ?thesis using run pb' inv new by auto
qed

lemma enumerate_adds_device_witness:
  "let h = one_port_hal;
       payload = pb_of_list ([0x61, 0x62, 0x63] @ replicate 20 0 @ [0x71, 0x00, 0])
   in tf_hal_get_tfp (snd (tf_hal_enumerate_handler 0 payload h))
        (Some (snd (tf_base58_decode ''abc'' 0))) None None False = Some 0"
proof -
  let ?h = one_port_hal
  let ?p = "pb_of_list ([0x61, 0x62, 0x63] @ replicate 20 0 @ [0x71, 0x00, 0])"
  have inv: "inventory_inv ?h" by (rule inventory_inv_one_port)
  have lst: "pb_list ?p = [0x61, 0x62, 0x63] @ replicate 20 0 @ [0x71, 0x00, 0]" by simp
  have uid: "enumerated_uid (pb_list ?p) = ''abc''"
    unfolding lst by code_simp
  have dec: "tf_base58_decode ''abc'' 0 = (TF_E_OK, snd (tf_base58_decode ''abc'' 0))"
    by code_simp
  have "26 \<le> length (pb_list ?p)" unfolding lst by simp
  from enumerate_adds_device [OF inv _ _ _ this dec [folded uid]]
  show ?thesis unfolding uid by (auto simp: one_port_hal_def tf_hal_common_create_def Let_def)
qed

subsection \<open>Claiming a device\<close>

lemma attachable_port_loop_source:
  "attachable_port_loop ops h name dev_id known ps = Inl (rc, Some i) \<Longrightarrow>
    \<exists>p. tf_hal_get_tfp h None (Some p) (Some dev_id) True = Some i"
  by (induction ps arbitrary: known) (auto split: if_splits option.splits)

lemma attachable_source:
  "tf_hal_get_attachable_tfp ops h name dev_id = (rc, Some i) \<Longrightarrow>
    \<exists>uid port. tf_hal_get_tfp h uid port (Some dev_id) True = Some i"
  by (auto simp: tf_hal_get_attachable_tfp_def attachable_by_name_def Let_def
      split: option.splits list.splits prod.splits if_splits sum.splits
      dest!: attachable_port_loop_source)

lemma matches_free:
  "tfp_matches h uid port (Some dev_id) True i \<Longrightarrow>
    device (tfps h ! i) = None \<and> device_id (tfps h ! i) = dev_id"
  by (auto simp: tfp_matches_def Let_def split: if_splits)

lemma matches_type:
  "tfp_matches h None None (Some dev_id) skip i \<longleftrightarrow>
    device_id (tfps h ! i) = dev_id \<and> (skip \<longrightarrow> device (tfps h ! i) = None)"
  by (auto simp: tfp_matches_def Let_def)

text \<open>
  Asking for a device to attach to yields only a device that is in the inventory, is not in
  use and has the requested type. If no UID and no port is given, it succeeds whenever there is such a
  device; if all devices of the type are in use, that is what is reported.
\<close>

lemma attachable_device_is_free:
  assumes "inventory_inv h"
  shows "(\<forall>name rc i. tf_hal_get_attachable_tfp ops h name dev_id = (rc, Some i) \<longrightarrow>
      i < tfps_used h \<and> device (tfps h ! i) = None \<and> device_id (tfps h ! i) = dev_id) \<and>
    tf_hal_get_attachable_tfp ops h None dev_id =
      (if \<exists>i < tfps_used h. device (tfps h ! i) = None \<and> device_id (tfps h ! i) = dev_id
       then (TF_E_OK, tf_hal_get_tfp h None None (Some dev_id) True)
       else if \<exists>i < tfps_used h. device_id (tfps h ! i) = dev_id then (TF_E_DEVICE_ALREADY_IN_USE, None)
       else (TF_E_DEVICE_NOT_FOUND, None))"
proof (intro conjI allI impI)
  fix name rc i
  assume "tf_hal_get_attachable_tfp ops h name dev_id = (rc, Some i)"
  from attachable_source [OF this] obtain uid port where
    got: "tf_hal_get_tfp h uid port (Some dev_id) True = Some i" by blast
  show "i < tfps_used h" "device (tfps h ! i) = None" "device_id (tfps h ! i) = dev_id"
    using get_tfp_Some [OF assms got] matches_free [of h uid port dev_id i] by simp_all
next
  note none = get_tfp_None [OF assms, of None None "Some dev_id"]
  show "tf_hal_get_attachable_tfp ops h None dev_id =
      (if \<exists>i < tfps_used h. device (tfps h ! i) = None \<and> device_id (tfps h ! i) = dev_id
       then (TF_E_OK, tf_hal_get_tfp h None None (Some dev_id) True)
       else if \<exists>i < tfps_used h. device_id (tfps h ! i) = dev_id then (TF_E_DEVICE_ALREADY_IN_USE, None)
       else (TF_E_DEVICE_NOT_FOUND, None))"
    using none [of True] none [of False]
    by (cases "tf_hal_get_tfp h None None (Some dev_id) True")
      (auto simp: tf_hal_get_attachable_tfp_def matches_type)
qed

end
