(* ===== verification/Tfp_Routing.thy ===== *)
theory Tfp_Routing
  imports Tfp Hal_Inventory Spitfp_Tick
begin

unbundle bit_operations_syntax

section \<open>TFP: the invariant of the HAL, requests and the routing of received packets\<close>

text \<open>
  The invariant \<open>hal_inv\<close> joins the inventory, every port and the brick itself. On top of it: what a
  request looks like on the wire, which received packet counts as its response, and what happens to
  all other packets.
\<close>

definition handler_ok :: "'w callback_handler \<Rightarrow> bool" where
  "handler_ok f \<longleftrightarrow> (\<forall>dev fid pb w. pb_inv pb \<longrightarrow> pb_inv (fst (snd (f dev fid pb w))))"

definition hal_inv :: "'w TF_HAL \<Rightarrow> bool" where
  "hal_inv h \<longleftrightarrow> inventory_inv h \<and> (\<forall>s \<in> set (ports h). spitfp_inv s) \<and>
     (\<forall>l. hal_local h = Some l \<longrightarrow> local_inv l) \<and>
     (\<forall>i < tfps_used h. \<forall>f. cb_handler (tfps h ! i) = Some f \<longrightarrow> handler_ok f)"

text \<open>The reference points to an existing device object on an existing port.\<close>

definition ref_ok :: "'w TF_HAL \<Rightarrow> tfp_ref \<Rightarrow> bool" where
  "ref_ok h r \<longleftrightarrow> (case r of Inventory i \<Rightarrow> i < tfps_used h | Stack \<Rightarrow> spitfp (stack_tfp h) < length (ports h))"

lemma hal_invD:
  assumes "hal_inv h"
  shows "inventory_inv h" and "p < length (ports h) \<Longrightarrow> spitfp_inv (ports h ! p)"
    and "p < length (ports h) \<Longrightarrow> port_id (ports h ! p) = p"
  using assms by (simp_all add: hal_inv_def inventory_inv_def)

lemma ref_ok_port: "hal_inv h \<Longrightarrow> ref_ok h r \<Longrightarrow> spitfp (tfp_at h r) < length (ports h)"
  by (auto simp: hal_inv_def inventory_inv_def ref_ok_def tfp_at_def split: tfp_ref.splits)

lemma ref_ok_spitfp:
  assumes "hal_inv h" and "ref_ok h r"
  shows "spitfp_inv (port_of h r)" and "port_id (port_of h r) = spitfp (tfp_at h r)"
  using hal_invD [OF assms(1)] ref_ok_port [OF assms] by (simp_all add: port_of_def)

lemma ref_ok_index: "hal_inv h \<Longrightarrow> ref_ok h (Inventory i) \<Longrightarrow> i < length (tfps h)"
  by (simp add: hal_inv_def inventory_inv_def ref_ok_def)

subsection \<open>What the updates leave alone\<close>

lemma port_update_frame [simp, hal_frame]:
  "tfps (port_update p s h) = tfps h" "tfps_order (port_update p s h) = tfps_order h"
  "tfps_used (port_update p s h) = tfps_used h" "stack_tfp (port_update p s h) = stack_tfp h"
  "hal_net (port_update p s h) = hal_net h" "hal_local (port_update p s h) = hal_local h"
  "callback_tick_index (port_update p s h) = callback_tick_index h"
  "length (ports (port_update p s h)) = length (ports h)"
  "tfp_at (port_update p s h) r = tfp_at h r"
  by (auto simp: port_update_def tfp_at_def split: tfp_ref.splits)

lemma tfp_update_frame [simp, hal_frame]:
  "ports (tfp_update r f h) = ports h" "tfps_order (tfp_update r f h) = tfps_order h"
  "tfps_used (tfp_update r f h) = tfps_used h" "hal_net (tfp_update r f h) = hal_net h"
  "hal_local (tfp_update r f h) = hal_local h" "length (tfps (tfp_update r f h)) = length (tfps h)"
  "callback_tick_index (tfp_update r f h) = callback_tick_index h"
  by (auto simp: tfp_update_def split: tfp_ref.splits)

lemma tfp_at_update [simp]: "hal_inv h \<Longrightarrow> ref_ok h r \<Longrightarrow> tfp_at (tfp_update r f h) r = f (tfp_at h r)"
  by (cases r) (simp_all add: ref_ok_index tfp_update_def tfp_at_def)

lemma port_of_port_update [simp]:
  "spitfp (tfp_at h r) < length (ports h) \<Longrightarrow> port_of (port_update (spitfp (tfp_at h r)) s h) r = s"
  by (simp add: port_of_def) (simp add: port_update_def)

subsection \<open>The invariant is kept\<close>

lemma ports_ids:
  assumes "p < length (ports h)" and "port_id s = port_id (ports h ! p)"
  shows "port_id (ports (port_update p s h) ! q) = port_id (ports h ! q)"
  using assms by (cases "q = p") (simp_all add: port_update_def)

lemma hal_inv_port_update:
  assumes "hal_inv h" and "p < length (ports h)" and "spitfp_inv s" and "port_id s = p"
  shows "hal_inv (port_update p s h)"
proof -
  have ids: "port_id (ports (port_update p s h) ! q) = port_id (ports h ! q)" for q
    using assms hal_invD(3) [OF assms(1,2)] by (intro ports_ids) simp_all
  have key: "key_less (port_update p s h) = key_less h"
    by (intro ext) (simp add: key_less_def ids)
  have "set (ports (port_update p s h)) \<subseteq> insert s (set (ports h))"
    by (simp add: port_update_def set_update_subset_insert)
  then show ?thesis
    using assms(1,3) by (auto simp: hal_inv_def inventory_inv_def ids key)
qed

text \<open>An update that keeps the port, the UID and the callback handler of a device.\<close>

definition keeps_identity :: "('w TF_TFP \<Rightarrow> 'w TF_TFP) \<Rightarrow> bool" where
  "keeps_identity f \<longleftrightarrow>
     (\<forall>t. spitfp (f t) = spitfp t \<and> uid_num (f t) = uid_num t \<and> cb_handler (f t) = cb_handler t)"

lemma tfp_update_identity:
  assumes "keeps_identity f \<or> r = Stack"
  shows "spitfp (tfps (tfp_update r f h) ! i) = spitfp (tfps h ! i)"
    and "uid_num (tfps (tfp_update r f h) ! i) = uid_num (tfps h ! i)"
    and "cb_handler (tfps (tfp_update r f h) ! i) = cb_handler (tfps h ! i)"
proof -
  have "tfps (tfp_update r f h) ! i = tfps h ! i \<or>
      keeps_identity f \<and> tfps (tfp_update r f h) ! i = f (tfps h ! i)"
  proof (cases r)
    case (Inventory j)
    then show ?thesis
      using assms by (cases "j = i"; cases "i < length (tfps h)")
        (simp_all add: tfp_update_def list_update_beyond)
  qed (simp add: tfp_update_def)
  then show "spitfp (tfps (tfp_update r f h) ! i) = spitfp (tfps h ! i)"
    "uid_num (tfps (tfp_update r f h) ! i) = uid_num (tfps h ! i)"
    "cb_handler (tfps (tfp_update r f h) ! i) = cb_handler (tfps h ! i)"
    by (auto simp: keeps_identity_def)
qed

lemma hal_inv_tfp_update:
  assumes "hal_inv h" and "keeps_identity f \<or> r = Stack"
  shows "hal_inv (tfp_update r f h)"
proof -
  note same = tfp_update_identity [OF assms(2)]
  have key: "key_less (tfp_update r f h) = key_less h"
    by (intro ext) (simp add: key_less_def same)
  show ?thesis using assms(1) by (simp add: hal_inv_def inventory_inv_def same key)
qed

lemma ref_ok_update [simp]:
  "ref_ok (port_update p s h) r = ref_ok h r"
  "(\<And>t. spitfp (f t) = spitfp t) \<Longrightarrow> ref_ok (tfp_update r' f h) r = ref_ok h r"
  by (auto simp: ref_ok_def tfp_update_def split: tfp_ref.splits)

lemma hal_inv_recv_buf:
  assumes "hal_inv h" and "ref_ok h r" and "pb_inv pb"
  shows "hal_inv (set_recv_buf r pb h)"
  unfolding set_recv_buf_def
  using assms ref_ok_port [OF assms(1,2)] ref_ok_spitfp [OF assms(1,2)]
  by (intro hal_inv_port_update) (simp_all add: spitfp_inv_recv_buf)

lemma set_recv_buf_eqs [simp]:
  assumes "hal_inv h" and "ref_ok h r"
  shows "recv_buf_of (set_recv_buf r pb h) r = pb"
    and "tfp_at (set_recv_buf r pb h) r' = tfp_at h r'"
    and "ref_ok (set_recv_buf r pb h) r' = ref_ok h r'"
  using ref_ok_port [OF assms] by (simp_all add: set_recv_buf_def recv_buf_of_def)

lemma recv_buf_of_inv: "hal_inv h \<Longrightarrow> ref_ok h r \<Longrightarrow> pb_inv (recv_buf_of h r)"
  using ref_ok_spitfp(1) by (fastforce simp: recv_buf_of_def spitfp_inv_def)

lemma hal_inv_packet_processed:
  assumes "hal_inv h" and "ref_ok h r"
  shows "hal_inv (tf_tfp_packet_processed r h)"
    and "recv_buf_of (tf_tfp_packet_processed r h) r = tf_packet_buffer_remove (recv_buf_of h r) 1"
  using hal_inv_recv_buf [OF assms pb_inv_remove [OF recv_buf_of_inv [OF assms]], of 1]
    set_recv_buf_eqs(1) [OF assms]
  by (simp_all add: tf_tfp_packet_processed_def set_recv_buf_def recv_buf_of_def
    tf_spitfp_packet_processed_def)

subsection \<open>Filling in the position\<close>

lemma poke_all_effect:
  assumes "pb_inv pb"
  shows "pb_inv (poke_all pb ps) \<and>
    pb_list (poke_all pb ps) = foldl (\<lambda>xs (k, x). xs[k := x]) (pb_list pb) ps"
  using assms
proof (induction ps arbitrary: pb)
  case (Cons kx ps)
  obtain k x where "kx = (k, x)" by fastforce
  then show ?case
    using Cons.IH [OF poke_offset_effect(2) [OF Cons.prems, where b = x and k = k]]
      poke_offset_effect(3) [OF Cons.prems, where b = x and k = k]
    by (simp add: poke_all_def)
qed (simp add: poke_all_def)

text \<open>The payload as it is handed on.\<close>

definition is_identity :: "TF_TFPHeader \<Rightarrow> bool" where
  "is_identity header \<longleftrightarrow> (hdr_fid header = 253 \<and> hdr_length header = 34) \<or>
     (hdr_fid header = 255 \<and> hdr_length header = 33)"

definition connected_bytes :: "'w TF_HAL \<Rightarrow> byte list" where
  "connected_bytes h = (case hal_local h of
     Some l \<Rightarrow> map of_char (local_uid_str l) @ [0] | None \<Rightarrow> [0x30, 0])"

lemma foldl_pokes:
  assumes "n + m \<le> length xs" and "m \<le> length bs"
  shows "foldl (\<lambda>xs (k, x). xs[k := x]) xs (map (\<lambda>i. (n + i, bs ! i)) [0..<m]) = write_at n (take m bs) xs"
  using assms
proof (induction m)
  case (Suc m)
  have "drop (n + m) xs = xs ! (n + m) # drop (Suc (n + m)) xs"
    using Suc.prems by (simp add: Cons_nth_drop_Suc)
  then have "(take n xs @ take m bs @ drop (n + m) xs)[n + m := bs ! m] =
      take n xs @ take m bs @ bs ! m # drop (Suc (n + m)) xs"
    using Suc.prems by (simp add: list_update_append)
  then show ?case
    using Suc by (simp add: write_at_def take_Suc_conv_app_nth min_absorb2)
qed simp

text \<open>The pokes of \<open>patch_position\<close> write the connected UID, then the position.\<close>

lemma connected_pokes:
  assumes "\<forall>l. hal_local h = Some l \<longrightarrow> local_inv l"
  shows "(case tf_hal_get_local h None None None False of
      Some l \<Rightarrow> map (\<lambda>i. (8 + i, of_char (local_uid_str l ! i))) [0..<7] @ [(15, 0)]
    | None \<Rightarrow> [(8, 0x30), (9, 0)]) =
    map (\<lambda>i. (8 + i, connected_bytes h ! i)) [0..<length (connected_bytes h)]"
proof (cases "hal_local h")
  case None
  then show ?thesis by (simp add: tf_hal_get_local_def connected_bytes_def upt_rec)
next
  case (Some l)
  then have "length (local_uid_str l) = 7" using assms by (simp add: local_inv_def)
  then show ?thesis
    using Some by (simp add: tf_hal_get_local_def connected_bytes_def nth_append upt_rec)
qed

lemma connected_bytes_length:
  "\<forall>l. hal_local h = Some l \<longrightarrow> local_inv l \<Longrightarrow> length (connected_bytes h) \<le> 8"
  by (auto simp: connected_bytes_def local_inv_def split: option.splits)

lemma patch_position_effect:
  assumes pb: "pb_inv pb" and len: "16 < length (pb_list pb)"
    and loc: "\<forall>l. hal_local h = Some l \<longrightarrow> local_inv l"
  shows "pb_inv (patch_position ops h port header pb)"
    and "pb_list (patch_position ops h port header pb) =
      (if is_identity header \<and> pb_list pb ! 8 = 0
       then (write_at 8 (connected_bytes h) (pb_list pb))[16 := of_char (hal_get_port_name ops port)]
       else pb_list pb)"
proof -
  let ?ps = "map (\<lambda>i. (8 + i, connected_bytes h ! i)) [0..<length (connected_bytes h)] @
    [(16, of_char (hal_get_port_name ops port))]"
  have eq: "patch_position ops h port header pb =
      (if is_identity header \<and> pb_list pb ! 8 = 0 then poke_all pb ?ps else pb)"
    using pb len by (simp add: patch_position_def is_identity_def connected_pokes [OF loc] peek_offset_eq
      del: map_append length_pb_list)
  show "pb_inv (patch_position ops h port header pb)"
    using poke_all_effect [OF pb, of ?ps] pb by (simp add: eq)
  have "foldl (\<lambda>xs (k, x). xs[k := x]) (pb_list pb) ?ps =
      (write_at 8 (connected_bytes h) (pb_list pb))[16 := of_char (hal_get_port_name ops port)]"
    using connected_bytes_length [OF loc] len foldl_pokes [of 8 "length (connected_bytes h)" "pb_list pb" "connected_bytes h"]
    by simp
  then show "pb_list (patch_position ops h port header pb) =
      (if is_identity header \<and> pb_list pb ! 8 = 0
       then (write_at 8 (connected_bytes h) (pb_list pb))[16 := of_char (hal_get_port_name ops port)]
       else pb_list pb)"
    using poke_all_effect [OF pb, of ?ps] by (simp add: eq)
qed

lemma patch_position_other: "\<not> is_identity header \<Longrightarrow> patch_position ops h port header pb = pb"
  by (auto simp: patch_position_def is_identity_def)

subsection \<open>One step of the TFP layer\<close>

text \<open>What every operation on received packets guarantees. It is a preorder.\<close>

definition hal_step :: "'w TF_HAL \<Rightarrow> 'w TF_HAL \<Rightarrow> bool" where
  "hal_step h h' \<longleftrightarrow> hal_inv h' \<and> length (ports h') = length (ports h) \<and> tfps_used h \<le> tfps_used h' \<and>
     spitfp (stack_tfp h') = spitfp (stack_tfp h) \<and> hal_net h' = hal_net h \<and>
     callback_tick_index h' = callback_tick_index h \<and>
     (\<forall>i < tfps_used h. spitfp (tfps h' ! i) = spitfp (tfps h ! i) \<and>
        uid_num (tfps h' ! i) = uid_num (tfps h ! i) \<and> cb_handler (tfps h' ! i) = cb_handler (tfps h ! i))"

lemma hal_step_refl: "hal_inv h \<Longrightarrow> hal_step h h"
  by (simp add: hal_step_def)

lemma hal_step_trans: "hal_step h h1 \<Longrightarrow> hal_step h1 h2 \<Longrightarrow> hal_step h h2"
  by (simp add: hal_step_def)

lemma hal_stepD: "hal_step h h' \<Longrightarrow> hal_inv h'" "hal_step h h' \<Longrightarrow> ref_ok h r \<Longrightarrow> ref_ok h' r"
  by (auto simp: hal_step_def ref_ok_def split: tfp_ref.splits)

lemma hal_step_tfp_update:
  assumes "hal_inv h" and "keeps_identity f"
  shows "hal_step h (tfp_update r f h)"
proof -
  have "spitfp (stack_tfp (tfp_update r f h)) = spitfp (stack_tfp h)"
    using assms(2) by (auto simp: tfp_update_def keeps_identity_def split: tfp_ref.splits)
  then show ?thesis
    using hal_inv_tfp_update [OF assms(1), of f r] assms(2) tfp_update_identity [of f r h]
    by (simp add: hal_step_def)
qed

lemma hal_step_port_update:
  assumes "hal_inv h" and "ref_ok h r" and "spitfp_inv s" and "port_id s = port_id (port_of h r)"
  shows "hal_step h (port_update (spitfp (tfp_at h r)) s h)"
  using hal_inv_port_update [OF assms(1) ref_ok_port [OF assms(1,2)] assms(3)] assms
  by (simp add: hal_step_def ref_ok_spitfp)

lemma hal_step_recv_buf:
  "hal_inv h \<Longrightarrow> ref_ok h r \<Longrightarrow> pb_inv pb \<Longrightarrow> hal_step h (set_recv_buf r pb h)"
  using ref_ok_spitfp [of h r] unfolding set_recv_buf_def
  by (intro hal_step_port_update) (simp_all add: spitfp_inv_recv_buf)

lemma hal_step_packet_processed:
  "hal_inv h \<Longrightarrow> ref_ok h r \<Longrightarrow> hal_step h (tf_tfp_packet_processed r h)"
  using hal_step_recv_buf [of h r "tf_packet_buffer_remove (recv_buf_of h r) 1"]
    pb_inv_remove [OF recv_buf_of_inv, of h r 1]
  by (simp add: tf_tfp_packet_processed_def set_recv_buf_def recv_buf_of_def tf_spitfp_packet_processed_def)

lemma hal_step_register:
  assumes "hal_inv h" and "port < length (ports h)"
  shows "hal_step h (register_device port uid dev_id h)"
proof -
  let ?h = "register_device port uid dev_id h"
  note inv = register_device_inv [OF hal_invD(1) [OF assms(1)] assms(2), where uid = uid and dev_id = dev_id]
  have frame: "ports ?h = ports h" "stack_tfp ?h = stack_tfp h" "hal_net ?h = hal_net h"
    "hal_local ?h = hal_local h" "callback_tick_index ?h = callback_tick_index h"
    by (simp_all add: register_device_def add_device_def Let_def split: prod.splits)
  have new: "tfps_used ?h = tfps_used h \<or>
      tfps_used ?h = tfps_used h + 1 \<and> cb_handler (tfps ?h ! tfps_used h) = Some empty_cb_handler"
    using hal_invD(1) [OF assms(1)]
    by (auto simp: register_device_def add_device_def Let_def inventory_inv_def tf_tfp_create_def split: prod.splits)
  have "handler_ok f" if "i < tfps_used ?h" "cb_handler (tfps ?h ! i) = Some f" for i f
    using assms(1) that inv(3) [where i = i] new
    by (cases "i < tfps_used h") (auto simp: hal_inv_def handler_ok_def empty_cb_handler_def less_Suc_eq)
  then show ?thesis
    using assms(1) inv by (simp add: hal_step_def hal_inv_def frame)
qed

subsection \<open>Dispatching\<close>

text \<open>No device of the inventory has a null callback handler.\<close>

definition handlers_set :: "'w TF_HAL \<Rightarrow> bool" where
  "handlers_set h \<longleftrightarrow> (\<forall>i < tfps_used h. cb_handler (tfps h ! i) \<noteq> None)"

lemma hal_step_recv_buf_after:
  assumes "hal_step h h1" and "ref_ok h r" and "pb_inv pb"
  shows "hal_step h (set_recv_buf r pb h1)"
  using assms hal_stepD [OF assms(1)] by (intro hal_step_trans [OF assms(1)] hal_step_recv_buf) simp_all

lemma dispatch_step:
  assumes "hal_inv h" and "ref_ok h r"
  shows "tf_tfp_dispatch_packet net r header h w = Some (res, h', w') \<Longrightarrow> hal_step h h'"
    and "handlers_set h \<Longrightarrow> \<exists>res h' w'. tf_tfp_dispatch_packet net r header h w = Some (res, h', w')"
proof -
  let ?pb = "recv_buf_of h r"
  have pb: "pb_inv ?pb" by (rule recv_buf_of_inv [OF assms])
  note rb = hal_step_recv_buf [OF assms]
  obtain pb' dev_id uid where en: "tf_hal_enumerate_handler (port_id (port_of h r)) ?pb h =
      (pb', register_device (port_id (port_of h r)) uid dev_id h)" and pb': "pb_inv pb'"
    using enumerate_handler_register [OF pb, of "port_id (port_of h r)" h] by metis
  have reg: "hal_step h (set_recv_buf r pb' (register_device (port_id (port_of h r)) uid dev_id h))"
    using hal_step_register [OF assms(1) ref_ok_port [OF assms], where uid = uid and dev_id = dev_id] pb'
    by (intro hal_step_recv_buf_after [OF _ assms(2)]) (simp_all add: ref_ok_spitfp(2) [OF assms])
  have found: "i < tfps_used h" if "tf_hal_get_tfp h (Some u) None None False = Some i" for u i
    using get_tfp_Some(1) [OF hal_invD(1) [OF assms(1)] that] .
  have handled: "pb_inv q" if "tf_hal_get_tfp h (Some u) None None False = Some i"
      "cb_handler (tfps h ! i) = Some f" "f d fid ?pb w1 = (b, q, w2)" for u i f d fid b q and w1 w2 :: 'a
  proof -
    have "handler_ok f" using assms(1) found [OF that(1)] that(2) by (simp add: hal_inv_def)
    then show ?thesis using pb that(3) by (metis fst_conv handler_ok_def snd_conv)
  qed
  show "hal_step h h'" if "tf_tfp_dispatch_packet net r header h w = Some (res, h', w')"
    using that pb reg
    by (auto simp: tf_tfp_dispatch_packet_def Let_def en intro!: rb pb_inv_remove dest: handled
      split: if_splits option.splits prod.splits bind_splits)
  show "\<exists>res h' w'. tf_tfp_dispatch_packet net r header h w = Some (res, h', w')" if set: "handlers_set h"
  proof (cases "tf_hal_get_tfp h (Some (hdr_uid_num header)) None None False")
    case None
    then show ?thesis by (auto simp: tf_tfp_dispatch_packet_def Let_def split: prod.splits)
  next
    case (Some i)
    then obtain f where "cb_handler (tfps h ! i) = Some f"
      using set found [OF Some] by (auto simp: handlers_set_def)
    then show ?thesis using Some by (auto simp: tf_tfp_dispatch_packet_def Let_def split: prod.splits)
  qed
qed

subsection \<open>Filtering received packets\<close>

text \<open>The device waits for exactly this packet. A device with UID 0 is used for discovery.\<close>

definition expected_response :: "'w TF_TFP \<Rightarrow> TF_TFPHeader \<Rightarrow> bool" where
  "expected_response t header \<longleftrightarrow> waiting_for_fid t \<noteq> 0 \<and> hdr_fid header = waiting_for_fid t \<and>
     hdr_seq_num header = waiting_for_seq_num t \<and> (uid_num t = 0 \<or> hdr_uid_num header = uid_num t)"

text \<open>The receive buffer starts with a complete packet, followed at least by the link's checksum.\<close>

definition complete_packet :: "byte list \<Rightarrow> bool" where
  "complete_packet bs \<longleftrightarrow> 8 \<le> length bs \<and> header_is_valid (decode_header bs) \<and>
     unat (hdr_length (decode_header bs)) < length bs"

lemma identity_length: "is_identity header \<Longrightarrow> unat (hdr_length header) \<ge> 33"
  by (auto simp: is_identity_def)

text \<open>What happens behind the header of a complete packet: \<open>pb\<close> is the patched receive buffer.\<close>

definition route_packet ::
  "'w net_ops \<Rightarrow> tfp_ref \<Rightarrow> bool \<Rightarrow> TF_TFPHeader \<Rightarrow> TF_PacketBuffer \<Rightarrow> 'w TF_HAL \<Rightarrow> 'w \<Rightarrow>
    ((byte \<times> nat) option \<times> 'w TF_HAL \<times> 'w) option" where
  "route_packet net r remove header pb h w =
     (let h1 = set_recv_buf r pb h;
          unexpected = tfp_update r (\<lambda>t. t\<lparr>error_count_unexpected := error_count_unexpected t + 1\<rparr>)
      in if expected_response (tfp_at h r) header
         then if remove
           then Some (None, unexpected (tf_tfp_packet_processed r (set_recv_buf r
                  (tf_packet_buffer_remove pb (unat (hdr_length header))) h1)), w)
           else Some (Some (hdr_error_code header, unat (hdr_length header) - 8), h1, w)
         else do {
           (dispatched, h2, w2) \<leftarrow> tf_tfp_dispatch_packet net r header h1 w;
           let h3 = (if dispatched then h2
             else let h' = set_recv_buf r
                        (tf_packet_buffer_remove (recv_buf_of h2 r) (unat (hdr_length header))) h2
                  in if hdr_seq_num header \<noteq> 0 then unexpected h' else h');
           Some (None, tf_tfp_packet_processed r h3, w2)
         })"

lemma filter_complete:
  assumes "hal_inv h" and "ref_ok h r" and "complete_packet (pb_list (recv_buf_of h r))"
  defines "bs \<equiv> pb_list (recv_buf_of h r)" and "header \<equiv> decode_header (pb_list (recv_buf_of h r))"
  obtains pb1 where "pb_inv pb1" and "pb_list pb1 = drop 8 bs"
    and "is_identity header \<longrightarrow> 16 < length (pb_list pb1)"
    and "tf_tfp_filter_received_packet ops net r remove h w =
      route_packet net r remove header (patch_position ops h (port_id (port_of h r)) header pb1) h w"
proof -
  have inv: "pb_inv (recv_buf_of h r)" by (rule recv_buf_of_inv [OF assms(1,2)])
  have c: "8 \<le> length bs" "header_is_valid header" "unat (hdr_length header) < length bs"
    using assms(3) by (simp_all add: complete_packet_def bs_def header_def)
  obtain pb1 where rd: "tf_tfp_header_read (recv_buf_of h r) = (True, header, pb1)"
    and pb1: "pb_inv pb1" "pb_list pb1 = drop 8 bs"
    using header_read_effect [OF inv] c unfolding bs_def header_def by metis
  have used: "tf_packet_buffer_get_used (recv_buf_of h r) = length bs" by (simp add: bs_def get_used_list)
  have "is_identity header \<longrightarrow> 16 < length (pb_list pb1)"
    using c(3) identity_length [of header] by (auto simp: pb1(2))
  moreover have "tf_tfp_filter_received_packet ops net r remove h w =
      route_packet net r remove header (patch_position ops h (port_id (port_of h r)) header pb1) h w"
    using c by (cases "expected_response (tfp_at h r) header")
      (auto simp: tf_tfp_filter_received_packet_def route_packet_def Let_def used rd expected_response_def)
  ultimately show ?thesis using that pb1 by blast
qed

lemma patched_buffer:
  assumes "hal_inv h" and "pb_inv pb" and "is_identity header \<longrightarrow> 16 < length (pb_list pb)"
  shows "pb_inv (patch_position ops h port header pb)"
proof (cases "is_identity header")
  case True
  have "\<forall>l. hal_local h = Some l \<longrightarrow> local_inv l" using assms(1) by (simp add: hal_inv_def)
  with True assms(2,3) show ?thesis by (simp add: patch_position_effect)
qed (simp add: patch_position_other assms(2))

lemma filter_incomplete:
  assumes "hal_inv h" and "ref_ok h r" and "\<not> complete_packet (pb_list (recv_buf_of h r))"
  obtains pb' where "pb_inv pb'" and "tf_tfp_filter_received_packet ops net r remove h w =
    Some (None, tfp_update r (\<lambda>t. t\<lparr>tfp_error_count_frame := tfp_error_count_frame t + 1\<rparr>)
      (set_recv_buf r pb' h), w)"
proof -
  let ?pb = "recv_buf_of h r"
  have inv: "pb_inv ?pb" by (rule recv_buf_of_inv [OF assms(1,2)])
  show ?thesis
  proof (cases "8 \<le> length (pb_list ?pb)")
    case False
    then show ?thesis
      by (intro that [of "tf_packet_buffer_remove ?pb (tf_packet_buffer_get_used ?pb)"] pb_inv_remove inv)
        (simp add: tf_tfp_filter_received_packet_def Let_def get_used_list)
  next
    case True
    from header_read_effect [OF inv True] obtain pb1 where
      rd: "tf_tfp_header_read ?pb =
        (header_is_valid (decode_header (pb_list ?pb)), decode_header (pb_list ?pb), pb1)" and pb1: "pb_inv pb1"
      by metis
    show ?thesis
    proof (cases "header_is_valid (decode_header (pb_list ?pb))")
      case False
      then show ?thesis
        using True by (intro that [OF pb1]) (simp add: tf_tfp_filter_received_packet_def Let_def get_used_list rd)
    next
      case valid: True
      then have "length (pb_list ?pb) \<le> unat (hdr_length (decode_header (pb_list ?pb)))"
        using assms(3) True by (simp add: complete_packet_def)
      then show ?thesis
        using True valid
        by (intro that [of "tf_packet_buffer_remove pb1 (tf_packet_buffer_get_used ?pb)"] pb_inv_remove pb1)
          (simp add: tf_tfp_filter_received_packet_def Let_def get_used_list rd)
    qed
  qed
qed

lemma keeps_identity_counters [simp]:
  "keeps_identity (\<lambda>t. t\<lparr>tfp_error_count_frame := f t\<rparr>)"
  "keeps_identity (\<lambda>t. t\<lparr>error_count_unexpected := g t\<rparr>)"
  "keeps_identity (\<lambda>t. t\<lparr>waiting_for_fid := a t, waiting_for_seq_num := b t\<rparr>)"
  "keeps_identity (\<lambda>t. t\<lparr>next_sequence_number := a t\<rparr>)"
  by (simp_all add: keeps_identity_def)

lemma hal_step_then:
  assumes "hal_step h h1" and "hal_inv h1 \<Longrightarrow> hal_step h1 h2"
  shows "hal_step h h2"
  using assms hal_stepD(1) hal_step_trans by blast

lemma hal_step_count:
  "hal_step h h1 \<Longrightarrow> keeps_identity f \<Longrightarrow> hal_step h (tfp_update r f h1)"
  by (rule hal_step_then [OF _ hal_step_tfp_update])

lemma hal_step_processed_after:
  "hal_step h h1 \<Longrightarrow> ref_ok h r \<Longrightarrow> hal_step h (tf_tfp_packet_processed r h1)"
  by (rule hal_step_then [OF _ hal_step_packet_processed]) (auto dest: hal_stepD)

lemma route_step:
  assumes "hal_inv h" and "ref_ok h r" and "pb_inv pb"
  shows "route_packet net r remove header pb h w = Some (res, h', w') \<Longrightarrow> hal_step h h'"
    and "handlers_set h \<Longrightarrow> \<exists>res h' w'. route_packet net r remove header pb h w = Some (res, h', w')"
proof -
  define h1 where "h1 = set_recv_buf r pb h"
  have h1: "hal_step h h1" unfolding h1_def by (rule hal_step_recv_buf [OF assms])
  note h1' = hal_stepD(1) [OF h1] hal_stepD(2) [OF h1 assms(2)]
  have hs: "handlers_set h1 = handlers_set h" by (simp add: h1_def handlers_set_def set_recv_buf_def)
  have removed: "hal_step h (set_recv_buf r (tf_packet_buffer_remove (recv_buf_of h2 r) n) h2)"
    if "hal_step h h2" for h2 n
    by (intro hal_step_recv_buf_after [OF that assms(2)] pb_inv_remove recv_buf_of_inv hal_stepD(1) [OF that]
      hal_stepD(2) [OF that assms(2)])
  note steps = removed hal_step_count hal_step_processed_after [OF _ assms(2)]
  have pb: "recv_buf_of h1 r = pb" using assms by (simp add: h1_def)
  show "hal_step h h'" if run: "route_packet net r remove header pb h w = Some (res, h', w')"
  proof (cases "expected_response (tfp_at h r) header")
    case True
    then show ?thesis
      using run h1 steps(3) [OF steps(1) [OF h1], of "unat (hdr_length header)"]
      by (auto simp: route_packet_def Let_def hal_step_count pb simp flip: h1_def split: if_splits)
  next
    case False
    then obtain d h2 w2 where dp: "tf_tfp_dispatch_packet net r header h1 w = Some (d, h2, w2)"
      using run by (auto simp: route_packet_def Let_def simp flip: h1_def split: bind_splits)
    have h2: "hal_step h h2" by (rule hal_step_trans [OF h1 dispatch_step(1) [OF h1' dp]])
    show ?thesis
      using run False dp steps(1) [OF h2, of "unat (hdr_length header)"] h2
      by (auto simp: route_packet_def Let_def simp flip: h1_def intro!: steps(2,3) split: if_splits)
  qed
  show "\<exists>res h' w'. route_packet net r remove header pb h w = Some (res, h', w')" if "handlers_set h"
    using dispatch_step(2) [OF h1', of net header w] that
    by (auto simp: route_packet_def Let_def hs simp flip: h1_def)
qed

lemma filter_step:
  assumes "hal_inv h" and "ref_ok h r"
  shows "tf_tfp_filter_received_packet ops net r remove h w = Some (res, h', w') \<Longrightarrow> hal_step h h'"
    and "handlers_set h \<Longrightarrow> \<exists>res h' w'. tf_tfp_filter_received_packet ops net r remove h w = Some (res, h', w')"
proof -
  have "(tf_tfp_filter_received_packet ops net r remove h w = Some (res, h', w') \<longrightarrow> hal_step h h') \<and>
      (handlers_set h \<longrightarrow> (\<exists>res h' w'. tf_tfp_filter_received_packet ops net r remove h w = Some (res, h', w')))"
  proof (cases "complete_packet (pb_list (recv_buf_of h r))")
    case False
    show ?thesis
      by (rule filter_incomplete [OF assms False, of ops net remove w])
        (auto intro: hal_step_count hal_step_recv_buf [OF assms])
  next
    case True
    show ?thesis
      by (rule filter_complete [OF assms True, of ops net remove w])
        (use route_step [OF assms patched_buffer [OF assms(1)]] in auto)
  qed
  then show "tf_tfp_filter_received_packet ops net r remove h w = Some (res, h', w') \<Longrightarrow> hal_step h h'"
    "handlers_set h \<Longrightarrow> \<exists>res h' w'. tf_tfp_filter_received_packet ops net r remove h w = Some (res, h', w')"
    by blast+
qed

subsection \<open>Which packet is the response\<close>

text \<open>The payload of a packet as it is handed on: a directly attached device gets its position.\<close>

definition patched_payload :: "'w hal_ops \<Rightarrow> 'w TF_HAL \<Rightarrow> nat \<Rightarrow> byte list \<Rightarrow> byte list" where
  "patched_payload ops h port bs =
     (if is_identity (decode_header bs) \<and> bs ! 16 = 0
      then (write_at 8 (connected_bytes h) (drop 8 bs))[16 := of_char (hal_get_port_name ops port)]
      else drop 8 bs)"

lemma patched_payload_list:
  assumes "hal_inv h" and "pb_inv pb" and "pb_list pb = drop 8 bs"
    and "is_identity (decode_header bs) \<longrightarrow> 16 < length (pb_list pb)"
  shows "pb_list (patch_position ops h port (decode_header bs) pb) = patched_payload ops h port bs"
proof (cases "is_identity (decode_header bs)")
  case True
  have loc: "\<forall>l. hal_local h = Some l \<longrightarrow> local_inv l" using assms(1) by (simp add: hal_inv_def)
  have len: "16 < length (pb_list pb)" using True assms(4) by simp
  show ?thesis
    using len unfolding patch_position_effect(2) [OF assms(2) len loc]
    by (simp add: patched_payload_def assms(3))
qed (simp add: patch_position_other patched_payload_def assms(3))

text \<open>
  Claim C21. A received packet is returned as the response of a request exactly when it is complete
  and carries the function id, the sequence number and the UID the device waits for; then its error
  code, the length of its payload and the payload itself are handed on. Everything else is dealt with
  without a result: always, unless a callback handler of the inventory is null. The invariant of the
  HAL is kept.
\<close>

theorem response_iff_expected:
  assumes "hal_inv h" and "ref_ok h r"
  defines "bs \<equiv> pb_list (recv_buf_of h r)"
    and "header \<equiv> decode_header (pb_list (recv_buf_of h r))"
  shows "if complete_packet bs \<and> expected_response (tfp_at h r) header
    then \<exists>h'. tf_tfp_filter_received_packet ops net r False h w =
        Some (Some (hdr_error_code header, unat (hdr_length header) - 8), h', w) \<and> hal_step h h' \<and>
        pb_list (recv_buf_of h' r) = patched_payload ops h (spitfp (tfp_at h r)) bs
    else handlers_set h \<longrightarrow>
      (\<exists>h' w'. tf_tfp_filter_received_packet ops net r False h w = Some (None, h', w') \<and> hal_step h h')"
proof (cases "complete_packet bs")
  case False
  then have c: "\<not> complete_packet (pb_list (recv_buf_of h r))" by (simp add: bs_def)
  show ?thesis
    by (rule filter_incomplete [OF assms(1,2) c, of ops net False w])
      (auto simp: False intro: hal_step_count hal_step_recv_buf [OF assms(1,2)])
next
  case True
  then have c: "complete_packet (pb_list (recv_buf_of h r))" by (simp add: bs_def)
  from filter_complete [OF assms(1,2) c, of ops net False w] obtain pb1 where
    pb1: "pb_inv pb1" "pb_list pb1 = drop 8 bs" "is_identity header \<longrightarrow> 16 < length (pb_list pb1)"
    and run: "tf_tfp_filter_received_packet ops net r False h w =
      route_packet net r False header (patch_position ops h (port_id (port_of h r)) header pb1) h w"
    unfolding bs_def header_def by metis
  let ?pb = "patch_position ops h (port_id (port_of h r)) header pb1"
  have pb: "pb_inv ?pb" using pb1 by (intro patched_buffer assms(1))
  have list: "pb_list ?pb = patched_payload ops h (spitfp (tfp_at h r)) bs"
    using patched_payload_list [OF assms(1) pb1(1,2)] pb1(3)
    by (simp add: bs_def header_def ref_ok_spitfp(2) [OF assms(1,2)])
  note step = route_step [OF assms(1,2) pb, of net False header w, folded run]
  show ?thesis
  proof (cases "expected_response (tfp_at h r) header")
    case exp: True
    then have "tf_tfp_filter_received_packet ops net r False h w =
        Some (Some (hdr_error_code header, unat (hdr_length header) - 8), set_recv_buf r ?pb h, w)"
      by (simp add: run route_packet_def Let_def)
    then show ?thesis
      using True exp list hal_step_recv_buf [OF assms(1,2) pb] assms(1,2) by simp
  next
    case False
    then have "res = None"
      if "tf_tfp_filter_received_packet ops net r False h w = Some (res, h', w')" for res h' w'
      using that by (auto simp: run route_packet_def Let_def split: bind_splits)
    then show ?thesis using False step by fastforce
  qed
qed

lemma hal_inv_one_port: "hal_inv one_port_hal"
  using inventory_inv_one_port spitfp_inv_create [of 0]
  by (simp add: hal_inv_def one_port_hal_def tf_hal_common_create_def)

lemma ref_ok_one_port: "ref_ok one_port_hal Stack"
  by (simp add: ref_ok_def one_port_hal_def tf_hal_common_create_def zero_tfp_def)

text \<open>A HAL with one port, whose device object waits for a response and has received some bytes.\<close>

definition waiting_hal :: "byte \<Rightarrow> byte \<Rightarrow> byte list \<Rightarrow> nat TF_HAL" where
  "waiting_hal fid seq bs = tfp_update Stack (\<lambda>t. t\<lparr>waiting_for_fid := fid, waiting_for_seq_num := seq\<rparr>)
     (set_recv_buf Stack (pb_of_list bs) one_port_hal)"

lemma waiting_hal_ok:
  "hal_inv (waiting_hal fid seq bs)" "ref_ok (waiting_hal fid seq bs) Stack"
  "length bs \<le> 83 \<Longrightarrow> pb_list (recv_buf_of (waiting_hal fid seq bs) Stack) = bs"
  "tfp_at (waiting_hal fid seq bs) Stack = zero_tfp\<lparr>waiting_for_fid := fid, waiting_for_seq_num := seq\<rparr>"
  "tfps_used (waiting_hal fid seq bs) = 0" "hal_net (waiting_hal fid seq bs) = False"
proof -
  let ?h = "set_recv_buf Stack (pb_of_list bs) one_port_hal"
  note one = hal_inv_one_port ref_ok_one_port
  have inv: "hal_inv ?h" by (rule hal_inv_recv_buf [OF one]) simp
  then show "hal_inv (waiting_hal fid seq bs)" unfolding waiting_hal_def by (intro hal_inv_tfp_update) simp_all
  have ref: "ref_ok ?h Stack" using one by simp
  then show "ref_ok (waiting_hal fid seq bs) Stack" by (simp add: waiting_hal_def)
  show "tfp_at (waiting_hal fid seq bs) Stack = zero_tfp\<lparr>waiting_for_fid := fid, waiting_for_seq_num := seq\<rparr>"
    unfolding waiting_hal_def using inv ref one
    by simp (simp add: one_port_hal_def tf_hal_common_create_def tfp_at_def)
  have "recv_buf_of (waiting_hal fid seq bs) Stack = recv_buf_of ?h Stack"
    unfolding waiting_hal_def by (simp add: recv_buf_of_def port_of_def tfp_at_def tfp_update_def)
  then show "length bs \<le> 83 \<Longrightarrow> pb_list (recv_buf_of (waiting_hal fid seq bs) Stack) = bs"
    using one by simp
  show "tfps_used (waiting_hal fid seq bs) = 0" "hal_net (waiting_hal fid seq bs) = False"
    by (simp_all add: waiting_hal_def set_recv_buf_def one_port_hal_def tf_hal_common_create_def)
qed

definition quiet_net :: "nat net_ops" where
  "quiet_net = \<lparr>net_tick = \<lambda>w. w, net_get_available_tfp_header = \<lambda>w. (None, w),
     net_get_packet = \<lambda>p w. (replicate 80 0, w), net_drop_packet = \<lambda>p w. w, net_send_packet = \<lambda>hd bs w. w\<rparr>"

text \<open>A response of function 5 with one byte of payload, and the checksum byte of the link.\<close>

definition sample_response :: "byte list" where
  "sample_response = [7, 0, 0, 0, 9, 5, 0x38, 0, 42, 0]"

lemma decode_sample_response:
  "decode_header sample_response = \<lparr>hdr_uid_num = 7, hdr_length = 9, hdr_fid = 5, hdr_seq_num = 3,
     hdr_response_expected = True, hdr_options = 0, hdr_error_code = 0, hdr_flags = 0\<rparr>"
  by code_simp

lemma length_sample_response: "length sample_response = 10"
  by (simp add: sample_response_def)

theorem response_iff_expected_witness:
  "\<exists>h'. tf_tfp_filter_received_packet idle_hal quiet_net Stack False (waiting_hal 5 3 sample_response) (0 :: nat) =
      Some (Some (0, 1), h', 0) \<and> pb_list (recv_buf_of h' Stack) = [42, 0]"
proof -
  note ok = waiting_hal_ok [where fid = 5 and seq = 3 and bs = sample_response]
  have bs: "pb_list (recv_buf_of (waiting_hal 5 3 sample_response) Stack) = sample_response"
    using ok(3) by (simp add: length_sample_response)
  have "complete_packet sample_response"
    by (simp add: complete_packet_def decode_sample_response header_is_valid_def length_sample_response)
  moreover have "expected_response (tfp_at (waiting_hal 5 3 sample_response) Stack) (decode_header sample_response)"
    by (simp add: ok(4) expected_response_def decode_sample_response zero_tfp_def)
  moreover have "patched_payload idle_hal h p sample_response = [42, 0]" for h p
    by (simp add: patched_payload_def is_identity_def decode_sample_response) (simp add: sample_response_def)
  ultimately show ?thesis
    using response_iff_expected [OF ok(1,2), of idle_hal quiet_net 0]
    unfolding bs by (auto simp: decode_sample_response)
qed

subsection \<open>Requests\<close>

lemma low_nibble_mod: "unat ((b :: byte) AND 15) = unat b mod 16"
proof -
  have "b AND 15 = take_bit 4 b" by (simp add: take_bit_eq_mask mask_eq_exp_minus_1)
  then have "unat (b AND 15) = take_bit 4 (unat b)" by (simp add: unsigned_take_bit_eq)
  then show ?thesis by (simp add: take_bit_eq_mod)
qed

lemma request_seq_num_nat:
  "unat (request_seq_num n) = (if unat n mod 16 = 0 then 1 else unat n mod 16)"
  by (simp add: request_seq_num_def flip: low_nibble_mod unat_eq_0)

lemma request_seq_num_range: "1 \<le> unat (request_seq_num n) \<and> unat (request_seq_num n) \<le> 15"
  using mod_less_divisor [of 16 "unat n"] by (simp add: request_seq_num_nat) linarith

lemma request_seq_num_fresh: "request_seq_num (request_seq_num n + 1) \<noteq> request_seq_num n"
proof -
  define q where "q = request_seq_num n"
  have q: "1 \<le> unat q" "unat q \<le> 15" using request_seq_num_range [of n] by (simp_all add: q_def)
  have "unat (q + 1) = unat q + 1" using q by (subst unat_word_ariths) simp
  then have "unat (request_seq_num (q + 1)) = (if unat q = 15 then 1 else unat q + 1)"
    using q by (simp add: request_seq_num_nat)
  then have "unat (request_seq_num (q + 1)) \<noteq> unat q" using q by (simp split: if_splits)
  then show ?thesis by (auto simp: q_def)
qed

text \<open>The header of a request of the given device.\<close>

definition request_header :: "'w TF_TFP \<Rightarrow> byte \<Rightarrow> nat \<Rightarrow> bool \<Rightarrow> TF_TFPHeader" where
  "request_header t fid payload_size response_expected =
     \<lparr>hdr_uid_num = uid_num t, hdr_length = of_nat (payload_size + 8), hdr_fid = fid,
      hdr_seq_num = request_seq_num (next_sequence_number t), hdr_response_expected = response_expected,
      hdr_options = 0, hdr_error_code = 0, hdr_flags = 0\<rparr>"

lemma request_header_fits: "header_fits (request_header t fid n resp)"
  using request_seq_num_range [of "next_sequence_number t"]
  by (simp add: header_fits_def request_header_def word_less_nat_alt)

lemma prepare_send_eq:
  assumes "hal_inv h" and "ref_ok h r" and "payload_size \<le> 72"
  shows "tf_tfp_prepare_send r fid payload_size resp h =
    tfp_update r (\<lambda>t. t\<lparr>waiting_for_fid := (if resp then fid else 0),
        waiting_for_seq_num := (if resp then request_seq_num (next_sequence_number (tfp_at h r)) else 0)\<rparr>)
      (set_send_buf r (take 2 (send_buf (port_of h r)) @
          tf_tfp_header_write (request_header (tfp_at h r) fid payload_size resp) @ replicate 72 0 @
          drop 82 (send_buf (port_of h r)))
        (tfp_update r (\<lambda>t. t\<lparr>next_sequence_number :=
           request_seq_num (next_sequence_number (tfp_at h r)) + 1\<rparr>) h))"
proof -
  have "length (send_buf (port_of h r)) = 83"
    using ref_ok_spitfp(1) [OF assms(1,2)] by (simp add: spitfp_inv_def)
  then show ?thesis
    using assms(3) by (simp add: tf_tfp_prepare_send_def tf_tfp_build_header_def Let_def write_at_def
      request_header_def)
qed

lemma set_send_buf_port:
  assumes "hal_inv h" and "ref_ok h r"
  shows "port_of (set_send_buf r buf h) r = (port_of h r)\<lparr>send_buf := buf\<rparr>"
    and "tfp_at (set_send_buf r buf h) r' = tfp_at h r'" and "ref_ok (set_send_buf r buf h) r' = ref_ok h r'"
  using ref_ok_port [OF assms] by (simp_all add: set_send_buf_def)

lemma hal_step_send_buf:
  assumes "hal_inv h" and "ref_ok h r" and "length buf = 83" and "unat (buf ! 0) \<le> 83"
  shows "hal_step h (set_send_buf r buf h)"
  using ref_ok_spitfp(1) [OF assms(1,2)] assms(3,4) unfolding set_send_buf_def
  by (intro hal_step_port_update [OF assms(1,2)]) (simp_all add: spitfp_inv_def)

lemma port_of_tfp_update:
  "keeps_identity f \<Longrightarrow> port_of (tfp_update r f h) r' = port_of h r'"
  using tfp_update_identity(1) [of f r h]
  by (cases r; cases r') (auto simp: port_of_def tfp_at_def tfp_update_def keeps_identity_def)

lemma prepare_send_effect:
  fixes h :: "'w TF_HAL" and fid :: byte and resp :: bool
  assumes "hal_inv h" and "ref_ok h r" and "payload_size \<le> 72"
  defines "h' \<equiv> tf_tfp_prepare_send r fid payload_size resp h"
    and "t \<equiv> tfp_at h r"
  shows "hal_step h h'"
    and "drop 2 (send_buf (port_of h' r)) = tf_tfp_header_write (request_header t fid payload_size resp) @
           replicate 72 0 @ drop 82 (send_buf (port_of h r))"
    and "tfp_at h' r = t\<lparr>next_sequence_number := request_seq_num (next_sequence_number t) + 1,
           waiting_for_fid := (if resp then fid else 0),
           waiting_for_seq_num := (if resp then request_seq_num (next_sequence_number t) else 0)\<rparr>"
proof -
  let ?q = "request_seq_num (next_sequence_number t)"
  let ?buf = "take 2 (send_buf (port_of h r)) @ tf_tfp_header_write (request_header t fid payload_size resp) @
    replicate 72 0 @ drop 82 (send_buf (port_of h r))"
  define h1 where "h1 = tfp_update r (\<lambda>t. t\<lparr>next_sequence_number := ?q + 1\<rparr>) h"
  have s: "length (send_buf (port_of h r)) = 83" "unat (send_buf (port_of h r) ! 0) \<le> 83"
    using ref_ok_spitfp(1) [OF assms(1,2)] by (simp_all add: spitfp_inv_def)
  have h1: "hal_step h h1" "port_of h1 r = port_of h r" "ref_ok h1 r" "hal_inv h1"
    "tfp_at h1 r = t\<lparr>next_sequence_number := ?q + 1\<rparr>"
    using assms(1,2) hal_step_tfp_update [OF assms(1), of "\<lambda>t. t\<lparr>next_sequence_number := ?q + 1\<rparr>" r]
    by (auto simp: h1_def port_of_tfp_update t_def dest: hal_stepD)
  define h2 where "h2 = set_send_buf r ?buf h1"
  have h2: "hal_step h1 h2" "hal_inv h2" "ref_ok h2 r"
    using hal_step_send_buf [OF h1(4,3), of ?buf] s h1(3) hal_stepD
    by (auto simp: h2_def nth_append set_send_buf_port [OF h1(4,3)])
  have h': "h' = tfp_update r (\<lambda>t. t\<lparr>waiting_for_fid := (if resp then fid else 0),
      waiting_for_seq_num := (if resp then ?q else 0)\<rparr>) h2"
    unfolding h'_def prepare_send_eq [OF assms(1-3)] h2_def h1_def t_def ..
  show "hal_step h h'"
    unfolding h' by (intro hal_step_count hal_step_trans [OF h1(1) h2(1)]) simp
  show "drop 2 (send_buf (port_of h' r)) = tf_tfp_header_write (request_header t fid payload_size resp) @
      replicate 72 0 @ drop 82 (send_buf (port_of h r))"
    using s by (simp add: h' port_of_tfp_update h2_def set_send_buf_port [OF h1(4,3)])
  show "tfp_at h' r = t\<lparr>next_sequence_number := ?q + 1, waiting_for_fid := (if resp then fid else 0),
      waiting_for_seq_num := (if resp then ?q else 0)\<rparr>"
    using h1(5) h2 by (simp add: h' h2_def set_send_buf_port [OF h1(4,3)])
qed

text \<open>
  A request of at most 72 bytes of payload is a valid TFP packet: its header carries the
  UID, the function id and a sequence number from 1 to 15 that the next request does not repeat, the
  payload is cleared, and the link can frame it. If a response is asked for, the device afterwards
  waits for this very function id and sequence number, otherwise no packet counts as its response.
\<close>

lemma request_is_well_formed:
  fixes h :: "'w TF_HAL" and fid :: byte and resp :: bool
  assumes "hal_inv h" and "ref_ok h r" and "payload_size \<le> 72"
  defines "h' \<equiv> tf_tfp_prepare_send r fid payload_size resp h"
    and "header \<equiv> request_header (tfp_at h r) fid payload_size resp"
  shows "decode_header (drop 2 (send_buf (port_of h' r))) = header \<and> header_is_valid header \<and>
    1 \<le> unat (hdr_seq_num header) \<and> unat (hdr_seq_num header) \<le> 15 \<and>
    request_seq_num (next_sequence_number (tfp_at h' r)) \<noteq> hdr_seq_num header \<and>
    take payload_size (drop 10 (send_buf (port_of h' r))) = replicate payload_size 0 \<and>
    hal_step h h' \<and> send_payload_ok (port_of h' r) \<and>
    (\<forall>answer. expected_response (tfp_at h' r) answer \<longleftrightarrow> resp \<and> fid \<noteq> 0 \<and> hdr_fid answer = fid \<and>
       hdr_seq_num answer = hdr_seq_num header \<and>
       (uid_num (tfp_at h r) = 0 \<or> hdr_uid_num answer = uid_num (tfp_at h r)))"
proof -
  note eff = prepare_send_effect [OF assms(1-3), of fid resp, folded h'_def header_def]
  let ?sb = "send_buf (port_of h' r)"
  have inv: "hal_inv h'" "ref_ok h' r" using hal_stepD [OF eff(1)] assms(2) by simp_all
  have len: "length ?sb = 83" using ref_ok_spitfp(1) [OF inv] by (simp add: spitfp_inv_def)
  have fits: "header_fits header" unfolding header_def by (rule request_header_fits)
  have dec: "decode_header (drop 2 ?sb) = header" unfolding eff(2) by (rule decode_header_write [OF fits])
  have "unat (of_nat (payload_size + 8) :: byte) = payload_size + 8"
    using assms(3) by (simp only: unat_of_nat len_of_numeral_defs) (simp add: take_bit_eq_mod)
  then have hl: "unat (hdr_length header) = payload_size + 8" by (simp add: header_def request_header_def)
  have valid: "header_is_valid header" using assms(3) by (simp add: header_is_valid_def hl)
  have "?sb ! 6 = drop 2 ?sb ! 4" using len by simp
  also have "\<dots> = hdr_length header"
    unfolding eff(2) header_write_eq by (simp add: nth_append)
  finally have ok: "send_payload_ok (port_of h' r)" using len hl assms(3) by (simp add: send_payload_ok_def)
  have "drop 10 ?sb = drop 8 (drop 2 ?sb)" by simp
  also have "take payload_size \<dots> = replicate payload_size 0"
    unfolding eff(2) using assms(3) by simp
  finally have body: "take payload_size (drop 10 ?sb) = replicate payload_size 0" .
  have q: "hdr_seq_num header = request_seq_num (next_sequence_number (tfp_at h r))"
    by (simp add: header_def request_header_def)
  show ?thesis
    using dec valid ok body eff(1) request_seq_num_range [of "next_sequence_number (tfp_at h r)"]
      request_seq_num_fresh [of "next_sequence_number (tfp_at h r)"]
    by (auto simp: q eff(3) expected_response_def)
qed

subsection \<open>Packets nobody wants\<close>

text \<open>
  Claim C34. A callback of a device that is not in the inventory, with no network side to pass it on
  to, is removed together with the eight bytes that follow it: the header has been consumed already
  when the length of the whole packet is removed, and then the link's checksum byte is removed once
  more. The start of a packet received right behind it is lost.
\<close>

theorem unwanted_callback_removes_too_much:
  fixes ops :: "'w hal_ops" and net :: "'w net_ops" and w :: 'w
  assumes "hal_inv h" and "ref_ok h r" and "complete_packet (pb_list (recv_buf_of h r))"
  defines "bs \<equiv> pb_list (recv_buf_of h r)" and "header \<equiv> decode_header (pb_list (recv_buf_of h r))"
  assumes "hdr_seq_num header = 0" and "hdr_fid header < 253" and "waiting_for_fid (tfp_at h r) = 0"
    and "\<not> hal_net h" and "\<forall>i < tfps_used h. uid_num (tfps h ! i) \<noteq> hdr_uid_num header"
  shows "\<exists>h'. tf_tfp_filter_received_packet ops net r remove_interesting h w = Some (None, h', w) \<and>
    pb_list (recv_buf_of h' r) = drop (unat (hdr_length header) + 1 + 8) bs"
proof -
  from filter_complete [OF assms(1-3), of ops net remove_interesting w] obtain pb1 where
    pb1: "pb_inv pb1" "pb_list pb1 = drop 8 bs"
    and run: "tf_tfp_filter_received_packet ops net r remove_interesting h w =
      route_packet net r remove_interesting header (patch_position ops h (port_id (port_of h r)) header pb1) h w"
    unfolding bs_def header_def by metis
  have nid: "\<not> is_identity header" using assms(7) by (auto simp: is_identity_def)
  define h1 where "h1 = set_recv_buf r pb1 h"
  have h1: "hal_inv h1" "ref_ok h1 r" "recv_buf_of h1 r = pb1" "\<not> hal_net h1"
    "tf_hal_get_tfp h1 (Some (hdr_uid_num header)) None None False = None"
  proof -
    have step: "hal_step h h1" unfolding h1_def by (rule hal_step_recv_buf [OF assms(1,2) pb1(1)])
    show "hal_inv h1" "ref_ok h1 r" using hal_stepD [OF step] assms(2) by simp_all
    show "recv_buf_of h1 r = pb1" using assms(1,2) by (simp add: h1_def)
    show "\<not> hal_net h1" using step assms(9) by (simp add: hal_step_def)
    have "tfps h1 = tfps h" "tfps_used h1 = tfps_used h" by (simp_all add: h1_def set_recv_buf_def)
    then show "tf_hal_get_tfp h1 (Some (hdr_uid_num header)) None None False = None"
      using get_tfp_None [OF hal_invD(1) [OF \<open>hal_inv h1\<close>]] assms(10) by (simp add: matches_uid)
  qed
  have dp: "tf_tfp_dispatch_packet net r header h1 w = Some (False, set_recv_buf r pb1 h1, w)"
    using assms(6,7) h1 by (auto simp: tf_tfp_dispatch_packet_def Let_def)
  define h2 where "h2 = set_recv_buf r (tf_packet_buffer_remove pb1 (unat (hdr_length header))) (set_recv_buf r pb1 h1)"
  have h12: "hal_step h1 (set_recv_buf r pb1 h1)" by (rule hal_step_recv_buf [OF h1(1,2) pb1(1)])
  have h2: "hal_inv h2" "ref_ok h2 r" "recv_buf_of h2 r = tf_packet_buffer_remove pb1 (unat (hdr_length header))"
    using hal_step_recv_buf_after [OF h12 h1(2), of "tf_packet_buffer_remove pb1 (unat (hdr_length header))"]
      hal_stepD [OF h12] pb1(1) h1
    by (auto simp: h2_def pb_inv_remove dest: hal_stepD)
  have "tf_tfp_filter_received_packet ops net r remove_interesting h w =
      Some (None, tf_tfp_packet_processed r h2, w)"
    using dp assms(6,8) hal_stepD [OF h12] h1
    by (simp add: run route_packet_def Let_def patch_position_other [OF nid] expected_response_def h2_def
      flip: h1_def)
  moreover have "pb_list (recv_buf_of (tf_tfp_packet_processed r h2) r) = drop (unat (hdr_length header) + 1 + 8) bs"
    using hal_inv_packet_processed(2) [OF h2(1,2)] pb1 by (simp add: h2(3) pb_list_remove pb_inv_remove)
  ultimately show ?thesis by blast
qed

text \<open>An unwanted callback without payload, followed by nine bytes of the next packet.\<close>

definition sample_callback :: "byte list" where
  "sample_callback = [7, 0, 0, 0, 8, 9, 0, 0, 0xEE, 13, 0x11, 1, 0, 0, 0, 10, 1, 0x18, 0]"

theorem unwanted_callback_removes_too_much_witness:
  "\<exists>h'. tf_tfp_filter_received_packet idle_hal quiet_net Stack True (waiting_hal 0 0 sample_callback) (0 :: nat) =
      Some (None, h', 0) \<and> pb_list (recv_buf_of h' Stack) = [0x18, 0]"
proof -
  have len: "length sample_callback = 19" by (simp add: sample_callback_def)
  have dec: "decode_header sample_callback = \<lparr>hdr_uid_num = 7, hdr_length = 8, hdr_fid = 9, hdr_seq_num = 0,
     hdr_response_expected = False, hdr_options = 0, hdr_error_code = 0, hdr_flags = 0\<rparr>" by code_simp
  note ok = waiting_hal_ok [where fid = 0 and seq = 0 and bs = sample_callback]
  have bs: "pb_list (recv_buf_of (waiting_hal 0 0 sample_callback) Stack) = sample_callback"
    using ok(3) by (simp add: len)
  have c: "complete_packet sample_callback" by (simp add: complete_packet_def header_is_valid_def len dec)
  have "drop 17 sample_callback = [0x18, 0]" by (simp add: sample_callback_def)
  then show ?thesis
    using unwanted_callback_removes_too_much [OF ok(1,2), of idle_hal quiet_net True 0]
    by (simp add: bs c dec ok zero_tfp_def)
qed

end
