(* ===== verification/Hal_Tick.thy ===== *)
theory Hal_Tick
  imports Hal_Common Tfp_Routing
begin

unbundle bit_operations_syntax

section \<open>The tick of the HAL: invariant, routing and retries\<close>

text \<open>
  Every operation of the TFP layer and of the HAL is a \<open>hal_step\<close>, whatever the SPI peers, the network
  side and the registered callbacks do; what becomes of a packet from the network side, how often it is
  tried, and which device is served next.
\<close>

subsection \<open>The link layer inside the HAL\<close>

lemma filter_duplicates_port: "port_id (snd (tf_spitfp_filter_duplicates s)) = port_id s"
  by (simp add: tf_spitfp_filter_duplicates_def Let_def)

lemma filter_duplicates_port': "tf_spitfp_filter_duplicates s = (r, s') \<Longrightarrow> port_id s' = port_id s"
  using filter_duplicates_port [of s] by simp

lemma tick_keeps_port:
  assumes "hal_ok ops" and inv: "spitfp_inv s" and run: "tf_spitfp_tick fuel ops s d w = Some (r, s', w')"
  shows "port_id s' = port_id s"
proof (cases "sm_state s")
  case (STATE_TRANSCEIVE q received n offset)
  have st: "unat q < 16" "offset \<le> n" "n \<le> 83" using inv STATE_TRANSCEIVE by (simp_all add: spitfp_inv_def)
  from transceive_packet_loop_inv [OF assms(1,2) st(2,3), of "Suc (n - offset)" w] obtain r0 off s0 w0
    where tr: "tf_spitfp_transceive_packet ops s n offset w = Some (r0, off, s0, w0)"
      and "same_link s s0" by (auto simp: tf_spitfp_transceive_packet_def)
  then show ?thesis
    using run STATE_TRANSCEIVE
    by (auto simp: tf_spitfp_tick_def spitfp_tick_transceive_def tr same_link_def Let_def
      dest!: filter_duplicates_port' split: if_splits prod.splits)
next
  case (STATE_WAIT_FOR_ACK inner q received)
  show ?thesis
  proof (cases "tf_spitfp_wait_for_ack fuel ops s q inner w")
    case None
    then show ?thesis
      using run STATE_WAIT_FOR_ACK
      by (auto simp: tf_spitfp_tick_def spitfp_tick_wait_for_ack_def Let_def
        dest!: filter_duplicates_port' split: if_splits prod.splits)
  next
    case (Some res)
    obtain r0 s0 w0 where res: "res = (r0, s0, w0)" by (cases res)
    have "same_link s s0" using wait_for_ack_inv [OF assms(1,2) Some] by (simp add: ack_result_def res)
    then show ?thesis
      using run STATE_WAIT_FOR_ACK Some
      by (auto simp: tf_spitfp_tick_def spitfp_tick_wait_for_ack_def res same_link_def Let_def
        dest!: filter_duplicates_port' split: if_splits prod.splits)
  qed
next
  case STATE_RECEIVE
  obtain r0 s0 w0 where rc: "tf_spitfp_receive_packet ops s w = Some (r0, s0, w0)" and "same_link s s0"
    by (rule receive_packet_inv [OF assms(1,2)])
  then show ?thesis
    using run STATE_RECEIVE
    by (auto simp: tf_spitfp_tick_def spitfp_tick_receive_def rc same_link_def Let_def
      dest!: filter_duplicates_port' split: if_splits prod.splits)
qed (use run in \<open>auto simp: tf_spitfp_tick_def spitfp_tick_idle_def spitfp_tick_build_ack_def
  tf_spitfp_build_ack_def Let_def\<close>)

lemma tick_keeps_inv:
  assumes "hal_ok ops" and "spitfp_inv s" and run: "tf_spitfp_tick fuel ops s d w = Some (r, s', w')"
  shows "spitfp_inv s'"
proof -
  have "tick_ok (phase_of (sm_state s)) (tf_spitfp_tick fuel ops s d w)"
  proof (cases "sm_state s")
    case (STATE_WAIT_FOR_ACK inner q received)
    then have "q \<noteq> 0 \<Longrightarrow> \<exists>res. tf_spitfp_wait_for_ack fuel ops s q inner w = Some res"
      using run by (cases "tf_spitfp_wait_for_ack fuel ops s q inner w")
        (auto simp: tf_spitfp_tick_def spitfp_tick_wait_for_ack_def)
    from tick_wait_for_ack_ok [OF assms(1,2) STATE_WAIT_FOR_ACK this] show ?thesis
      by (simp add: tf_spitfp_tick_def STATE_WAIT_FOR_ACK)
  qed (use assms(1,2) in \<open>simp_all add: tf_spitfp_tick_def tick_idle_ok tick_build_ack_ok tick_receive_ok
      tick_transceive_ok\<close>)
  then show ?thesis using run by (auto simp: tick_ok_def)
qed

lemma build_packet_inv:
  assumes "spitfp_inv s" and "tf_spitfp_build_packet s p = Some (q, s')"
  shows "spitfp_inv s'" and "port_id s' = port_id s"
proof -
  let ?n = "to_u8 (unat (send_buf s ! 6) + 3)"
  have n: "0 < ?n" "?n \<le> 83"
    using assms by (auto simp: tf_spitfp_build_packet_def Let_def spitfp_inv_def split: if_splits)
  have "unat (of_nat ?n :: byte) = ?n"
    using to_u8_less [of "unat (send_buf s ! 6) + 3"]
    by (simp only: unat_of_nat len_of_numeral_defs) (simp add: take_bit_eq_mod)
  then show "spitfp_inv s'" "port_id s' = port_id s"
    using assms n by (auto simp: tf_spitfp_build_packet_def Let_def spitfp_inv_def nth_list_update pearson_checksum_def
      split: if_splits)
qed

lemma build_packet_of_step:
  assumes "hal_inv h" and "ref_ok h r" and "build_packet_of r p h = Some h'"
  shows "hal_step h h'"
proof -
  obtain q s where b: "tf_spitfp_build_packet (port_of h r) p = Some (q, s)"
    and h': "h' = port_update (spitfp (tfp_at h r)) s h"
    using assms(3) by (auto simp: build_packet_of_def split: bind_splits)
  show ?thesis
    unfolding h' by (intro hal_step_port_update assms(1,2) build_packet_inv [OF ref_ok_spitfp(1) [OF assms(1,2)] b])
qed

lemma tick_of_step:
  assumes "hal_ok ops" and "hal_inv h" and "ref_ok h r" and "tick_of tf ops r d h w = Some (res, h', w')"
  shows "hal_step h h'"
proof -
  obtain s where t: "tf_spitfp_tick tf ops (port_of h r) d w = Some (res, s, w')"
    and h': "h' = port_update (spitfp (tfp_at h r)) s h"
    using assms(4) by (auto simp: tick_of_def split: bind_splits)
  note inv = ref_ok_spitfp(1) [OF assms(2,3)]
  show ?thesis
    unfolding h' using tick_keeps_inv [OF assms(1) inv t] tick_keeps_port [OF assms(1) inv t]
    by (intro hal_step_port_update assms(2,3))
qed

lemma not_waiting_step: "hal_inv h \<Longrightarrow> hal_step h (not_waiting r h)"
  unfolding not_waiting_def by (rule hal_step_tfp_update) simp_all

lemma clear_send_buf_step:
  assumes "hal_inv h" and "ref_ok h r"
  shows "hal_step h (set_send_buf r ((send_buf (port_of h r))[0 := 0]) h)"
  using ref_ok_spitfp(1) [OF assms] by (intro hal_step_send_buf assms) (simp_all add: spitfp_inv_def)

subsection \<open>The loops of the TFP layer\<close>

lemma step_chain:
  assumes "hal_step h h1" and "ref_ok h r" and "hal_inv h1 \<Longrightarrow> ref_ok h1 r \<Longrightarrow> hal_step h1 h2"
  shows "hal_step h h2" and "ref_ok h2 r"
  using assms hal_step_trans hal_stepD by blast+

lemma maybe_filter_step:
  assumes "hal_inv h" and "ref_ok h r"
    and "(if c then tf_tfp_filter_received_packet ops net r remove h w else Some (None, h, w)) = Some (res, h', w')"
  shows "hal_step h h'"
  using assms filter_step(1) [OF assms(1,2)] hal_step_refl [OF assms(1)] by (auto split: if_splits)

lemma send_getter_loop_step:
  assumes "hal_ok ops" and "hal_inv h" and "ref_ok h r"
    and "send_getter_loop fuel tf ops net r d result last_send response h w = Some (res, rsp, h', w')"
  shows "hal_step h h'"
  using assms(2-)
proof (induction fuel arbitrary: result last_send response h w)
  case (Suc fuel)
  obtain elapsed w1 where el: "tf_hal_deadline_elapsed ops d w = (elapsed, w1)" by fastforce
  show ?case
  proof (cases "elapsed \<or> response \<noteq> None")
    case True
    then show ?thesis using Suc.prems el hal_step_refl by simp
  next
    case False
    obtain ls h1 w2 where re: "(if result AND TF_TICK_TIMEOUT \<noteq> 0
          then (case tf_hal_deadline_elapsed ops (last_send + 5000) w1 of (again, w2) \<Rightarrow>
            if again
            then (case hal_current_time_us ops w2 of (now, w3) \<Rightarrow> do {
              h' \<leftarrow> build_packet_of r TF_RETRANSMISSION h;
              Some (now, h', w3)
            })
            else Some (last_send, h, w2))
          else Some (last_send, h, w1)) = Some (ls, h1, w2)"
      using Suc.prems(3) el False by (auto split: bind_splits)
    have s1: "hal_step h h1"
      using re Suc.prems hal_step_refl [of h] build_packet_of_step [OF Suc.prems(1,2)]
      by (auto split: if_splits prod.splits bind_splits)
    obtain result1 h2 w3 where ti: "tick_of tf ops r d h1 w2 = Some (result1, h2, w3)"
      using Suc.prems(3) el False re by (auto split: bind_splits)
    note c2 = step_chain [OF s1 Suc.prems(2) tick_of_step [OF assms(1) _ _ ti]]
    show ?thesis
    proof (cases "result1 < 0")
      case True
      then show ?thesis using Suc.prems(3) el False re ti c2 by simp
    next
      case pos: False
      obtain rsp1 h3 w4 where fi: "(if result1 AND TF_TICK_PACKET_RECEIVED \<noteq> 0
            then tf_tfp_filter_received_packet ops net r False h2 w3 else Some (None, h2, w3)) = Some (rsp1, h3, w4)"
        using Suc.prems(3) el False re ti pos by (auto split: bind_splits)
      note c3 = step_chain [OF c2(1) Suc.prems(2) maybe_filter_step [OF _ _ fi]]
      define h4 where "h4 = (if rsp1 \<noteq> None then not_waiting r h3 else h3)"
      have c4: "hal_step h h4"
        unfolding h4_def using c3(1) step_chain(1) [OF c3(1) Suc.prems(2) not_waiting_step] by simp
      have "send_getter_loop fuel tf ops net r d result1 ls rsp1 h4 (sleep_if ops result1 w4) =
          Some (res, rsp, h', w')"
        using Suc.prems(3) el False re ti pos fi by (simp add: h4_def)
      from step_chain(1) [OF c4 Suc.prems(2) Suc.IH [OF _ _ this]] show ?thesis .
    qed
  qed
qed simp

lemma send_setter_loop_step:
  assumes "hal_ok ops" and "hal_inv h" and "ref_ok h r"
    and "send_setter_loop fuel tf ops net r d result sent h w = Some (res, h', w')"
  shows "hal_step h h'"
  using assms(2-)
proof (induction fuel arbitrary: result sent h w)
  case (Suc fuel)
  obtain elapsed w1 where el: "tf_hal_deadline_elapsed ops d w = (elapsed, w1)" by fastforce
  show ?case
  proof (cases "elapsed \<or> sent")
    case True
    then show ?thesis using Suc.prems el hal_step_refl by simp
  next
    case False
    obtain h1 where re: "(if result AND TF_TICK_TIMEOUT \<noteq> 0 then build_packet_of r TF_RETRANSMISSION h
        else Some h) = Some h1"
      using Suc.prems(3) el False by (auto split: bind_splits)
    have s1: "hal_step h h1"
      using re hal_step_refl [OF Suc.prems(1)] build_packet_of_step [OF Suc.prems(1,2)] by (auto split: if_splits)
    obtain result1 h2 w2 where ti: "tick_of tf ops r d h1 w1 = Some (result1, h2, w2)"
      using Suc.prems(3) el False re by (auto split: bind_splits)
    note c2 = step_chain [OF s1 Suc.prems(2) tick_of_step [OF assms(1) _ _ ti]]
    show ?thesis
    proof (cases "result1 < 0")
      case True
      then show ?thesis using Suc.prems(3) el False re ti c2 by simp
    next
      case pos: False
      obtain rsp1 h3 w3 where fi: "(if result1 AND TF_TICK_PACKET_RECEIVED \<noteq> 0
            then tf_tfp_filter_received_packet ops net r True h2 w2 else Some (None, h2, w2)) = Some (rsp1, h3, w3)"
        using Suc.prems(3) el False re ti pos by (auto split: bind_splits)
      note c3 = step_chain [OF c2(1) Suc.prems(2) maybe_filter_step [OF _ _ fi]]
      have "send_setter_loop fuel tf ops net r d result1 (result1 AND TF_TICK_PACKET_SENT \<noteq> 0) h3
          (sleep_if ops result1 w3) = Some (res, h', w')"
        using Suc.prems(3) el False re ti pos fi by simp
      from step_chain(1) [OF c3(1) Suc.prems(2) Suc.IH [OF _ _ this]] show ?thesis .
    qed
  qed
qed simp

lemma finish_send_loop_step:
  assumes "hal_ok ops" and "hal_inv h" and "ref_ok h r"
    and "finish_send_loop fuel tf ops r d result h w = Some (res, h', w')"
  shows "hal_step h h'"
  using assms(2-)
proof (induction fuel arbitrary: result h w)
  case (Suc fuel)
  obtain elapsed w1 where el: "tf_hal_deadline_elapsed ops d w = (elapsed, w1)" by fastforce
  let ?go = "(\<not> elapsed \<or> result AND TF_TICK_IN_TRANSCEIVE \<noteq> 0) \<and> result AND TF_TICK_AGAIN \<noteq> 0"
  show ?case
  proof (cases ?go)
    case False
    then have "h' = not_waiting r (set_send_buf r ((send_buf (port_of h r))[0 := 0]) h)"
      using Suc.prems(3) el by (auto split: if_splits)
    then show ?thesis
      using step_chain(1) [OF clear_send_buf_step [OF Suc.prems(1,2)] Suc.prems(2) not_waiting_step] by simp
  next
    case True
    then obtain result1 h1 w2 where ti: "tick_of tf ops r d h w1 = Some (result1, h1, w2)"
      using Suc.prems(3) el by (auto split: bind_splits)
    note s1 = tick_of_step [OF assms(1) Suc.prems(1,2) ti]
    show ?thesis
    proof (cases "result1 < 0")
      case neg: True
      then show ?thesis using Suc.prems(3) el True ti s1 by simp
    next
      case False
      then have "finish_send_loop fuel tf ops r d result1 h1 w2 = Some (res, h', w')"
        using Suc.prems(3) el True ti by simp
      from step_chain(1) [OF s1 Suc.prems(2) Suc.IH [OF _ _ this]] show ?thesis .
    qed
  qed
qed simp

lemma callback_tick_loop_step:
  assumes "hal_ok ops" and "hal_inv h" and "ref_ok h r"
    and "callback_tick_loop fuel tf ops net r d result h w = Some (res, h', w')"
  shows "hal_step h h'"
  using assms(2-)
proof (induction fuel arbitrary: result h w)
  case (Suc fuel)
  obtain result1 h1 w1 where ti: "tick_of tf ops r d h (sleep_if ops result w) = Some (result1, h1, w1)"
    using Suc.prems(3) by (auto split: bind_splits)
  note s1 = tick_of_step [OF assms(1) Suc.prems(1,2) ti]
  show ?case
  proof (cases "result1 < 0")
    case True
    then show ?thesis using Suc.prems(3) ti s1 by simp
  next
    case pos: False
    obtain rsp1 h2 w2 where fi: "(if result1 AND TF_TICK_PACKET_RECEIVED \<noteq> 0
          then tf_tfp_filter_received_packet ops net r True h1 w1 else Some (None, h1, w1)) = Some (rsp1, h2, w2)"
      using Suc.prems(3) ti pos by (auto split: bind_splits)
    note c2 = step_chain [OF s1 Suc.prems(2) maybe_filter_step [OF _ _ fi]]
    define h3 where "h3 = (if result1 AND TF_TICK_PACKET_SENT \<noteq> 0
      then set_send_buf r ((send_buf (port_of h2 r))[0 := 0]) h2 else h2)"
    have c3: "hal_step h h3"
      unfolding h3_def using c2(1) step_chain(1) [OF c2(1) Suc.prems(2) clear_send_buf_step] by simp
    obtain elapsed w3 where el: "tf_hal_deadline_elapsed ops d w2 = (elapsed, w3)" by fastforce
    show ?thesis
    proof (cases "\<not> elapsed \<or> result1 AND TF_TICK_AGAIN \<noteq> 0")
      case True
      then have "callback_tick_loop fuel tf ops net r d result1 h3 w3 = Some (res, h', w')"
        using Suc.prems(3) ti pos fi el by (auto simp: h3_def)
      from step_chain(1) [OF c3 Suc.prems(2) Suc.IH [OF _ _ this]] show ?thesis .
    next
      case False
      then show ?thesis using Suc.prems(3) ti pos fi el c3 by (auto simp: h3_def)
    qed
  qed
qed simp

lemma callback_tick_step:
  assumes "hal_ok ops" and "hal_inv h" and "ref_ok h r"
    and "tf_tfp_callback_tick fuel tf ops net r d h w = Some (res, h', w')"
  shows "hal_step h h'"
proof -
  obtain h1 where b: "(if send_buf (port_of h r) ! 0 \<noteq> 0 then build_packet_of r TF_RETRANSMISSION h else Some h) = Some h1"
    and run: "callback_tick_loop fuel tf ops net r d TF_TICK_AGAIN h1 w = Some (res, h', w')"
    using assms(4) by (auto simp: tf_tfp_callback_tick_def split: bind_splits)
  have s1: "hal_step h h1"
    using b hal_step_refl [OF assms(2)] build_packet_of_step [OF assms(2,3)] by (auto split: if_splits)
  from step_chain(1) [OF s1 assms(3) callback_tick_loop_step [OF assms(1) _ _ run]] show ?thesis .
qed

lemma send_packet_step:
  assumes "hal_ok ops" and "hal_inv h" and "ref_ok h r"
    and "tf_tfp_send_packet fuel tf ops net r resp d seq_num h w = Some (res, rsp, h', w')"
  shows "hal_step h h'"
proof (cases resp)
  case True
  then obtain h1 ls w1 where b: "build_packet_of r seq_num h = Some h1"
    and run: "send_getter_loop fuel tf ops net r d TF_TICK_AGAIN ls None h1 w1 = Some (res, rsp, h', w')"
    using assms(4) by (auto simp: tf_tfp_send_packet_def tf_tfp_send_getter_def split: bind_splits prod.splits)
  from step_chain(1) [OF build_packet_of_step [OF assms(2,3) b] assms(3) send_getter_loop_step [OF assms(1) _ _ run]]
  show ?thesis .
next
  case False
  then obtain h1 where b: "build_packet_of r seq_num h = Some h1"
    and run: "send_setter_loop fuel tf ops net r d TF_TICK_AGAIN False h1 w = Some (res, h', w')"
    using assms(4) by (auto simp: tf_tfp_send_packet_def tf_tfp_send_setter_def split: bind_splits prod.splits)
  from step_chain(1) [OF build_packet_of_step [OF assms(2,3) b] assms(3) send_setter_loop_step [OF assms(1) _ _ run]]
  show ?thesis .
qed

subsection \<open>Packets from the network side\<close>

text \<open>The network side only announces packets whose header it has found valid.\<close>

definition net_ok :: "'w net_ops \<Rightarrow> bool" where
  "net_ok net \<longleftrightarrow> (\<forall>w header pid w'. net_get_available_tfp_header net w = (Some (header, pid), w') \<longrightarrow>
     unat (hdr_length header) \<le> 80)"

lemma inject_packet_step:
  assumes "hal_inv h" and "ref_ok h r" and "unat (hdr_length header) \<le> 80"
  shows "hal_step h (tf_tfp_inject_packet r header packet h)"
proof -
  let ?sb = "send_buf (port_of h r)"
  let ?buf = "write_at 2 (take (unat (hdr_length header)) packet) (write_at 2 (replicate 80 0) ?sb)"
  have sb: "length ?sb = 83" "unat (?sb ! 0) \<le> 83"
    using ref_ok_spitfp(1) [OF assms(1,2)] by (simp_all add: spitfp_inv_def)
  have "length ?buf = 83" "?buf ! 0 = ?sb ! 0" using sb assms(3) by (simp_all add: nth_write_at)
  then have "hal_step h (set_send_buf r ?buf h)" using sb by (intro hal_step_send_buf assms(1,2)) simp_all
  then show ?thesis by (simp add: tf_tfp_inject_packet_def Let_def hal_step_count)
qed

lemma keeps_identity_retry [simp]:
  "keeps_identity (\<lambda>t. t\<lparr>spitfp_timeout_counter := a t, spitfp_last_seq_num := b t\<rparr>)"
  "keeps_identity (\<lambda>t. t\<lparr>send_enumerate_request := c t\<rparr>)"
  by (simp_all add: keeps_identity_def)

text \<open>One try: the packet is sent, and the outcome is recorded in the device object.\<close>

lemma send_with_retry_cases:
  assumes "send_with_retry fuel tf ops net i h w = Some (again, h', w')"
  obtains now w1 res rsp h1 w2 res1 h2 where "hal_current_time_us ops w = (now, w1)"
    and "tf_tfp_send_packet fuel tf ops net (Inventory i) False (now + 5000)
      (if spitfp_timeout_counter (tfps h ! i) > 0 then spitfp_last_seq_num (tfps h ! i) else TF_NEW_PACKET) h w1 =
      Some (res, rsp, h1, w2)"
    and "tf_tfp_finish_send fuel tf ops (Inventory i) res (now + 5000) h1 w2 = Some (res1, h2, w')"
    and "again \<longleftrightarrow> res1 = TF_E_TIMEOUT \<and> spitfp_timeout_counter (tfps h2 ! i) + 1 \<noteq> 10"
    and "h' = tfp_update (Inventory i) (\<lambda>t. t\<lparr>
      spitfp_timeout_counter := (if again then spitfp_timeout_counter (tfps h2 ! i) + 1 else 0),
      spitfp_last_seq_num := (if again then int8_of_byte (last_sequence_number_sent (port_of h2 (Inventory i)))
                              else TF_NEW_PACKET)\<rparr>) h2"
proof -
  obtain now w1 where now: "hal_current_time_us ops w = (now, w1)" by fastforce
  let ?seq = "if spitfp_timeout_counter (tfps h ! i) > 0 then spitfp_last_seq_num (tfps h ! i) else - 1"
  obtain res rsp h1 w2 where
    se: "tf_tfp_send_packet fuel tf ops net (Inventory i) False (now + 5000) ?seq h w1 = Some (res, rsp, h1, w2)"
    using assms
    by (cases "tf_tfp_send_packet fuel tf ops net (Inventory i) False (now + 5000) ?seq h w1")
      (auto simp: send_with_retry_def now Let_def)
  obtain res1 h2 w3 where
    fi: "tf_tfp_finish_send fuel tf ops (Inventory i) res (now + 5000) h1 w2 = Some (res1, h2, w3)"
    using assms
    by (cases "tf_tfp_finish_send fuel tf ops (Inventory i) res (now + 5000) h1 w2")
      (auto simp: send_with_retry_def now Let_def se)
  have to: "(res1 AND TF_E_TIMEOUT = TF_E_TIMEOUT) = (res1 = TF_E_TIMEOUT)" by (simp add: TF_E_TIMEOUT_def)
  note res = assms [unfolded send_with_retry_def now Let_def prod.case se bind.bind_lunit fi to option.inject
      Pair_inject]
  show ?thesis
    by (rule that [OF now se]) (use res fi in auto)
qed

lemma send_with_retry_step:
  assumes "hal_ok ops" and "hal_inv h" and "ref_ok h (Inventory i)"
    and "send_with_retry fuel tf ops net i h w = Some (again, h', w')"
  shows "hal_step h h'"
proof (rule send_with_retry_cases [OF assms(4)])
  fix now w1 res rsp h1 w2 res1 h2
  assume se: "tf_tfp_send_packet fuel tf ops net (Inventory i) False (now + 5000)
      (if spitfp_timeout_counter (tfps h ! i) > 0 then spitfp_last_seq_num (tfps h ! i) else TF_NEW_PACKET) h w1 =
      Some (res, rsp, h1, w2)"
    and fi: "tf_tfp_finish_send fuel tf ops (Inventory i) res (now + 5000) h1 w2 = Some (res1, h2, w')"
    and h': "h' = tfp_update (Inventory i) (\<lambda>t. t\<lparr>
      spitfp_timeout_counter := (if again then spitfp_timeout_counter (tfps h2 ! i) + 1 else 0),
      spitfp_last_seq_num := (if again then int8_of_byte (last_sequence_number_sent (port_of h2 (Inventory i)))
                              else TF_NEW_PACKET)\<rparr>) h2"
  note s1 = step_chain [OF send_packet_step [OF assms(1-3) se] assms(3)
      finish_send_loop_step [OF assms(1) _ _ fi [unfolded tf_tfp_finish_send_def]]]
  have ki: "keeps_identity (\<lambda>t :: 'a TF_TFP. t\<lparr>
      spitfp_timeout_counter := (if again then spitfp_timeout_counter (tfps h2 ! i) + 1 else 0),
      spitfp_last_seq_num := (if again then int8_of_byte (last_sequence_number_sent (port_of h2 (Inventory i)))
                              else TF_NEW_PACKET)\<rparr>)"
    unfolding keeps_identity_def by simp
  show "hal_step h h'" unfolding h' by (rule hal_step_count [OF s1(1) ki])
qed

lemma enumerate_request_loop_step:
  assumes "hal_ok ops" and "hal_inv h"
    and "enumerate_request_loop n fuel tf ops net i h w = Some (h', w')"
  shows "hal_step h h'"
  using assms(2-)
proof (induction n arbitrary: i h w)
  case (Suc n)
  let ?send = "i < tfps_used h \<and> send_enumerate_request (tfps h ! i) \<and> send_buf (port_of h (Inventory i)) ! 0 = 0"
  show ?case
  proof (cases ?send)
    case False
    then show ?thesis
      using Suc.prems hal_step_refl Suc.IH [OF Suc.prems(1)] by (cases "i < tfps_used h") auto
  next
    case True
    let ?h = "tf_tfp_inject_packet (Inventory i) enumerate_request_header enumerate_request h"
    have ref: "ref_ok h (Inventory i)" using True by (simp add: ref_ok_def)
    obtain again h1 w1 where se: "send_with_retry fuel tf ops net i ?h w = Some (again, h1, w1)"
      and rec: "enumerate_request_loop n fuel tf ops net (i + 1)
        (tfp_update (Inventory i) (\<lambda>t. t\<lparr>send_enumerate_request := again\<rparr>) h1) w1 = Some (h', w')"
      using Suc.prems(2) True by (auto split: bind_splits)
    have s0: "hal_step h ?h"
      by (rule inject_packet_step [OF Suc.prems(1) ref]) (simp add: enumerate_request_header_def)
    note s1 = step_chain [OF s0 ref send_with_retry_step [OF assms(1) _ _ se]]
    have "hal_step h (tfp_update (Inventory i) (\<lambda>t. t\<lparr>send_enumerate_request := again\<rparr>) h1)"
      using s1(1) by (intro hal_step_count) simp_all
    then show ?thesis using Suc.IH [OF _ rec] by (blast intro: hal_step_trans dest: hal_stepD)
  qed
qed simp

lemma net_dispatch_loop_step:
  assumes "hal_ok ops" and "unat (hdr_length header) \<le> 80" and "hal_inv h"
    and "net_dispatch_loop n fuel tf ops net header pid found i h w = Some (f, d, h', w')"
  shows "hal_step h h'"
  using assms(3-)
proof (induction n arbitrary: i found w)
  case (Suc n)
  let ?send = "i < tfps_used h \<and> hdr_uid_num header = uid_num (tfps h ! i) \<and> send_buf (port_of h (Inventory i)) ! 0 = 0"
  show ?case
  proof (cases ?send)
    case False
    then show ?thesis
      using Suc.prems hal_step_refl Suc.IH [OF Suc.prems(1)] by (auto split: if_splits)
  next
    case True
    obtain buf w1 where get: "net_get_packet net pid w = (buf, w1)" by fastforce
    let ?h = "tf_tfp_inject_packet (Inventory i) header buf h"
    have ref: "ref_ok h (Inventory i)" using True by (simp add: ref_ok_def)
    obtain again where se: "send_with_retry fuel tf ops net i ?h w1 = Some (again, h', w')"
      using Suc.prems(2) True by (auto simp: get split: bind_splits)
    show ?thesis
      by (rule step_chain(1) [OF inject_packet_step [OF Suc.prems(1) ref assms(2)] ref
        send_with_retry_step [OF assms(1) _ _ se]])
  qed
qed simp

lemma hal_step_local:
  assumes "hal_inv h" and "\<forall>l. l' = Some l \<longrightarrow> local_inv l"
  shows "hal_step h (h\<lparr>hal_local := l'\<rparr>)"
proof -
  have "key_less (h\<lparr>hal_local := l'\<rparr>) = key_less h" by (intro ext) (simp add: key_less_def)
  then show ?thesis using assms by (simp add: hal_step_def hal_inv_def inventory_inv_def)
qed

subsection \<open>The tick\<close>

text \<open>The device served last is one of the inventory, or the inventory is empty.\<close>

definition tick_index_ok :: "'w TF_HAL \<Rightarrow> bool" where
  "tick_index_ok h \<longleftrightarrow> callback_tick_index h < max 1 (tfps_used h)"

lemma tick_index_step: "hal_step h h' \<Longrightarrow> tick_index_ok h \<Longrightarrow> tick_index_ok h'"
  by (auto simp: hal_step_def tick_index_ok_def max_def split: if_splits)

lemma next_tick_index_less:
  "i < max 1 used \<Longrightarrow> 0 < used \<Longrightarrow> used \<le> 10 \<Longrightarrow> next_tick_index used i < used"
  by (simp add: next_tick_index_def Let_def)

lemma hal_inv_tick_index: "hal_inv (h\<lparr>callback_tick_index := i\<rparr>) = hal_inv h"
proof -
  have "key_less (h\<lparr>callback_tick_index := i\<rparr>) = key_less h" by (intro ext) (simp add: key_less_def)
  then show ?thesis by (simp add: hal_inv_def inventory_inv_def)
qed

text \<open>What the whole tick guarantees.\<close>

definition tick_step :: "'w TF_HAL \<Rightarrow> 'w TF_HAL \<Rightarrow> bool" where
  "tick_step h h' \<longleftrightarrow> hal_inv h' \<and> tick_index_ok h' \<and> tfps_used h \<le> tfps_used h' \<and> hal_net h' = hal_net h \<and>
     (\<forall>i < tfps_used h. uid_num (tfps h' ! i) = uid_num (tfps h ! i) \<and>
        spitfp (tfps h' ! i) = spitfp (tfps h ! i) \<and> cb_handler (tfps h' ! i) = cb_handler (tfps h ! i))"

lemma tick_step_trans: "tick_step h h1 \<Longrightarrow> tick_step h1 h2 \<Longrightarrow> tick_step h h2"
  by (simp add: tick_step_def)

lemma tick_step_hal: "hal_step h h' \<Longrightarrow> tick_index_ok h \<Longrightarrow> tick_step h h'"
  using tick_index_step by (auto simp: tick_step_def hal_step_def)

lemma hal_callback_loop_step:
  assumes "hal_ok ops" and "hal_inv h" and "tick_index_ok h" and "0 < tfps_used h"
    and "hal_callback_loop n fuel tf ops net d first h w = Some (res, h', w')"
  shows "tick_step h h'"
  using assms(2-)
proof (induction n arbitrary: h w)
  case (Suc n)
  define i where "i = next_tick_index (tfps_used h) (callback_tick_index h)"
  define h1 where "h1 = h\<lparr>callback_tick_index := i\<rparr>"
  have "tfps_used h \<le> 10" using Suc.prems(1) by (simp add: hal_inv_def inventory_inv_def)
  then have i: "i < tfps_used h"
    unfolding i_def using Suc.prems(2,3) by (intro next_tick_index_less) (simp_all add: tick_index_ok_def)
  have h1: "hal_inv h1" "ref_ok h1 (Inventory i)" "tick_index_ok h1" "tick_step h h1"
    using Suc.prems(1) i by (simp_all add: h1_def hal_inv_tick_index ref_ok_def tick_index_ok_def tick_step_def)
  obtain now w1 where now: "hal_current_time_us ops w = (now, w1)" by fastforce
  obtain res1 h2 w2 where ct: "tf_tfp_callback_tick fuel tf ops net (Inventory i) now h1 w1 = Some (res1, h2, w2)"
    using Suc.prems(4) now
    by (cases "tf_tfp_callback_tick fuel tf ops net (Inventory i) now h1 w1") (auto simp: Let_def i_def h1_def)
  note s2 = callback_tick_step [OF assms(1) h1(1,2) ct]
  have h2: "tick_step h h2" by (rule tick_step_trans [OF h1(4) tick_step_hal [OF s2 h1(3)]])
  obtain elapsed w3 where el: "tf_hal_deadline_elapsed ops d w2 = (elapsed, w3)" by fastforce
  let ?go = "res1 = TF_E_OK \<and> first \<noteq> callback_tick_index h2 \<and> \<not> elapsed"
  have run: "hal_callback_loop (Suc n) fuel tf ops net d first h w =
      (if ?go then hal_callback_loop n fuel tf ops net d first h2 w3
       else Some (res1, h2, if res1 = TF_E_OK \<and> first \<noteq> callback_tick_index h2 then w3 else w2))"
    using now ct el by (auto simp: Let_def simp flip: i_def h1_def)
  show ?case
  proof (cases ?go)
    case True
    then have "hal_callback_loop n fuel tf ops net d first h2 w3 = Some (res, h', w')"
      using Suc.prems(4) run by simp
    then show ?thesis
      using Suc.IH [of h2 w3] h2 Suc.prems(3) by (blast intro: tick_step_trans dest: tick_step_def [THEN iffD1]
        less_le_trans)
  next
    case False
    then show ?thesis using Suc.prems(4) run h2 by (auto split: if_splits)
  qed
qed simp

lemma local_callback_step:
  assumes "hal_inv h"
  shows "hal_step h (fst (local_callback net h w))"
proof (cases "hal_local h")
  case None
  then show ?thesis using hal_step_refl [OF assms] by (simp add: local_callback_def)
next
  case (Some l)
  obtain fired l' where t: "tf_local_callback_tick l = (fired, l')" by fastforce
  have "local_inv l'" using local_inv_callback_tick [of l] assms Some by (simp add: t hal_inv_def)
  then show ?thesis using hal_step_local [OF assms, of "Some l'"] by (simp add: local_callback_def Some t)
qed

lemma request_enumeration_step:
  assumes "hal_inv h"
  shows "hal_step h (h\<lparr>tfps := map (\<lambda>t. t\<lparr>send_enumerate_request := True\<rparr>) (take (tfps_used h) (tfps h)) @
      drop (tfps_used h) (tfps h),
    hal_local := map_option (\<lambda>l. l\<lparr>trigger_enumerate_callback := True\<rparr>) (hal_local h)\<rparr>)"
    (is "hal_step h ?h'")
proof -
  have used: "tfps_used h \<le> length (tfps h)" using assms by (simp add: hal_inv_def inventory_inv_def)
  have same: "spitfp (tfps ?h' ! i) = spitfp (tfps h ! i) \<and> uid_num (tfps ?h' ! i) = uid_num (tfps h ! i) \<and>
      cb_handler (tfps ?h' ! i) = cb_handler (tfps h ! i)" for i
    using used by (cases "i < tfps_used h") (simp_all add: nth_append min_absorb2)
  have "key_less ?h' = key_less h" by (intro ext) (simp only: key_less_def same, simp)
  then show ?thesis
    using assms used same by (auto simp: hal_step_def hal_inv_def inventory_inv_def local_inv_def min_absorb2)
qed

lemma local_request_step:
  assumes "hal_inv h" and "hal_local h = Some l" and "unat (hdr_length header) \<le> 80"
  shows "hal_step h (fst (local_request net header pid l h w))"
proof -
  obtain buf w1 where get: "net_get_packet net pid w = (buf, w1)" by fastforce
  have "local_inv (tf_local_transceive_packet (tf_local_inject_packet l header buf))"
    using assms by (intro local_inv_transceive local_inv_inject) (simp_all add: hal_inv_def)
  then show ?thesis using hal_step_local [OF assms(1)] by (simp add: local_request_def get Let_def)
qed

lemma handle_net_packet_step:
  assumes "hal_ok ops" and "hal_inv h" and "unat (hdr_length header) \<le> 80"
    and run: "handle_net_packet fuel tf ops net header pid h w = Some (h', w')"
  shows "hal_step h h'"
proof -
  consider "hdr_seq_num header = 0"
    | "hdr_seq_num header \<noteq> 0" "hdr_fid header = 254 \<and> hdr_uid_num header = 0 \<and> hdr_length header = 8"
    | "hdr_seq_num header \<noteq> 0" "\<not> (hdr_fid header = 254 \<and> hdr_uid_num header = 0 \<and> hdr_length header = 8)" by blast
  then show ?thesis
  proof cases
    case 1
    then show ?thesis using run hal_step_refl [OF assms(2)] by (simp add: handle_net_packet_def)
  next
    case 2
    then show ?thesis using run request_enumeration_step [OF assms(2)] by (simp add: handle_net_packet_def)
  next
    case 3
    let ?loop = "net_dispatch_loop (Suc 10) fuel tf ops net header pid False 0 h w"
    obtain found dispatched h1 w1 where d: "?loop = Some (found, dispatched, h1, w1)"
      using run 3 by (cases ?loop) (simp_all add: handle_net_packet_def, fastforce)
    note s1 = net_dispatch_loop_step [OF assms(1,3,2) d]
    show ?thesis
    proof (cases "\<exists>l. hal_local h1 = Some l \<and> \<not> found \<and> hdr_uid_num header = local_uid_num l")
      case True
      then obtain l where l: "hal_local h1 = Some l" "\<not> found" "hdr_uid_num header = local_uid_num l" by blast
      have "hal_step h1 (fst (local_request net header pid l h1 w1))"
        by (rule local_request_step [OF hal_stepD(1) [OF s1] l(1) assms(3)])
      then show ?thesis
        using run 3 d l s1
        by (cases "local_request net header pid l h1 w1") (auto simp: handle_net_packet_def intro: hal_step_trans)
    next
      case False
      then have "h' = h1" using run 3 d by (auto simp: handle_net_packet_def split: option.splits if_splits)
      then show ?thesis using s1 by simp
    qed
  qed
qed



subsection \<open>Where a packet from the network side goes\<close>

lemma net_dispatch_loop_unknown:
  assumes "\<forall>i < tfps_used h. uid_num (tfps h ! i) \<noteq> hdr_uid_num header" and "tfps_used h - i < n"
  shows "net_dispatch_loop n fuel tf ops net header pid found i h w = Some (found, False, h, w)"
  using assms(2)
proof (induction n arbitrary: i)
  case (Suc n)
  then show ?case using assms(1) Suc.IH [of "i + 1"] by (cases "i < tfps_used h") auto
qed simp

text \<open>
  A packet from the network side that no device of the inventory is addressed by never
  touches the SPI bus and is taken out of the network queue: a callback is dropped, an enumerate
  request marks every device and the brick itself for enumeration, a request to the brick is answered
  by it, and a packet for an unknown UID is dropped.
\<close>

lemma net_packet_without_device:
  assumes "inventory_inv h" and "\<forall>i < tfps_used h. uid_num (tfps h ! i) \<noteq> hdr_uid_num header"
  shows "handle_net_packet fuel tf ops net header pid h w =
    (if hdr_seq_num header = 0 then Some (h, net_drop_packet net pid w)
     else if hdr_fid header = 254 \<and> hdr_uid_num header = 0 \<and> hdr_length header = 8
     then Some (h\<lparr>tfps := map (\<lambda>t. t\<lparr>send_enumerate_request := True\<rparr>) (take (tfps_used h) (tfps h)) @
                    drop (tfps_used h) (tfps h),
                  hal_local := map_option (\<lambda>l. l\<lparr>trigger_enumerate_callback := True\<rparr>) (hal_local h)\<rparr>,
                net_drop_packet net pid w)
     else case hal_local h of
         Some l \<Rightarrow> if hdr_uid_num header = local_uid_num l
           then (case net_get_packet net pid w of (buf, w1) \<Rightarrow>
             let l' = tf_local_transceive_packet (tf_local_inject_packet l header buf);
                 answer = local_recv_buf l'
             in Some (h\<lparr>hal_local := Some l'\<rparr>, net_drop_packet net pid
                  (net_send_packet net (snd (tf_tfp_header_peek_plain answer)) answer w1)))
           else Some (h, net_drop_packet net pid w)
       | None \<Rightarrow> Some (h, net_drop_packet net pid w))"
proof -
  have "tfps_used h \<le> 10" using assms(1) by (simp add: inventory_inv_def)
  then have "net_dispatch_loop (Suc 10) fuel tf ops net header pid False 0 h w = Some (False, False, h, w)"
    by (intro net_dispatch_loop_unknown assms(2)) simp
  then show ?thesis
    by (auto simp: handle_net_packet_def local_request_def tf_local_get_recv_buffer_def Let_def
      simp del: net_dispatch_loop.simps split: option.splits prod.splits)
qed

lemma net_packet_without_device_witness:
  "handle_net_packet 5 5 idle_hal quiet_net \<lparr>hdr_uid_num = 7, hdr_length = 8, hdr_fid = 1, hdr_seq_num = 2,
     hdr_response_expected = True, hdr_options = 0, hdr_error_code = 0, hdr_flags = 0\<rparr> 0 one_port_hal 3 =
   Some (one_port_hal, 3)"
proof -
  have "tfps_used one_port_hal = 0" "hal_local one_port_hal = None"
    by (simp_all add: one_port_hal_def tf_hal_common_create_def)
  then show ?thesis
    using net_packet_without_device [OF inventory_inv_one_port, of "\<lparr>hdr_uid_num = 7, hdr_length = 8,
      hdr_fid = 1, hdr_seq_num = 2, hdr_response_expected = True, hdr_options = 0, hdr_error_code = 0,
      hdr_flags = 0\<rparr>" 5 5 idle_hal quiet_net 0 3]
    by (simp add: quiet_net_def)
qed

subsection \<open>Callbacks of a destroyed device\<close>

text \<open>
  Claim C35. Destroying a device object leaves a null callback handler in the inventory, not the empty
  handler a device starts with. A callback of that device that arrives afterwards, on any port, makes
  the dispatcher call the null pointer.
\<close>

theorem callback_after_destroy_calls_null:
  assumes "hal_inv h" and "i < tfps_used h" and "unknown_tfp u = Some (Inventory i)" and "unknown_magic u = 0x5446"
  defines "h' \<equiv> snd (snd (tf_unknown_destroy u h))"
  assumes "ref_ok h' r" and "complete_packet (pb_list (recv_buf_of h' r))"
    and "hdr_seq_num (decode_header (pb_list (recv_buf_of h' r))) = 0"
    and "hdr_fid (decode_header (pb_list (recv_buf_of h' r))) \<noteq> 253"
    and "hdr_uid_num (decode_header (pb_list (recv_buf_of h' r))) = uid_num (tfps h ! i)"
    and "waiting_for_fid (tfp_at h' r) = 0"
  shows "tf_tfp_filter_received_packet ops net r remove_interesting h' w = None"
proof -
  let ?header = "decode_header (pb_list (recv_buf_of h' r))"
  have i: "i < length (tfps h)" using assms(1,2) by (simp add: hal_inv_def inventory_inv_def)
  have h': "h' = h\<lparr>tfps := (tfps h)[i := (tfps h ! i)\<lparr>cb_handler := None, device := None\<rparr>]\<rparr>"
    using assms(3,4) by (simp add: h'_def tf_unknown_destroy_def tfp_update_def)
  have same: "spitfp (tfps h' ! k) = spitfp (tfps h ! k)" "uid_num (tfps h' ! k) = uid_num (tfps h ! k)"
    "k \<noteq> i \<Longrightarrow> cb_handler (tfps h' ! k) = cb_handler (tfps h ! k)" "cb_handler (tfps h' ! i) = None" for k
    using i by (cases "k = i"; simp add: h')+
  have "key_less h' = key_less h" by (intro ext) (simp only: key_less_def same, simp add: h')
  then have inv: "hal_inv h'"
    using assms(1) same(3,4)
    by (simp add: hal_inv_def inventory_inv_def same(1,2)) (simp add: h', metis i nth_list_update option.distinct(1))
  from filter_complete [OF inv assms(6,7), of ops net remove_interesting w] obtain pb1 where
    pb1: "pb_inv pb1" "is_identity ?header \<longrightarrow> 16 < length (pb_list pb1)"
    and run: "tf_tfp_filter_received_packet ops net r remove_interesting h' w = route_packet net r remove_interesting
      ?header (patch_position ops h' (port_id (port_of h' r)) ?header pb1) h' w" by metis
  define h1 where "h1 = set_recv_buf r (patch_position ops h' (port_id (port_of h' r)) ?header pb1) h'"
  have "hal_step h' h1"
    unfolding h1_def by (rule hal_step_recv_buf [OF inv assms(6) patched_buffer [OF inv pb1]])
  then have h1: "hal_inv h1" "tfps h1 = tfps h'" "tfps_used h1 = tfps_used h"
    by (simp_all add: hal_stepD h1_def set_recv_buf_def) (simp add: h')
  have "tf_hal_get_tfp h1 (Some (hdr_uid_num ?header)) None None False = Some i"
    using assms(2,10) same(2) by (intro get_tfp_uid [OF hal_invD(1) [OF h1(1)]]) (simp_all add: h1)
  then have "tf_tfp_dispatch_packet net r ?header h1 w = None"
    using assms(8,9) same(4) by (simp add: tf_tfp_dispatch_packet_def Let_def h1)
  then show ?thesis
    using assms(11) by (simp add: run route_packet_def Let_def expected_response_def flip: h1_def)
qed

text \<open>A device with UID 7 on the first port, registered, taken into use and released again.\<close>

definition released_hal :: "nat TF_HAL" where
  "released_hal = one_port_hal\<lparr>tfps := (tf_tfp_create 7 113 0) # replicate 9 zero_tfp, tfps_used := 1\<rparr>"

lemma released_hal_ok: "hal_inv released_hal"
proof -
  have used: "{..<Suc 0} = {0}" by auto
  show ?thesis
    using spitfp_inv_create [of 0]
    by (auto simp: released_hal_def one_port_hal_def hal_inv_def inventory_inv_def tf_hal_common_create_def
      tf_tfp_create_def zero_tfp_def used tf_spitfp_create_def handler_ok_def empty_cb_handler_def)
qed

lemma decode_sample_callback:
  "decode_header sample_callback = \<lparr>hdr_uid_num = 7, hdr_length = 8, hdr_fid = 9, hdr_seq_num = 0,
     hdr_response_expected = False, hdr_options = 0, hdr_error_code = 0, hdr_flags = 0\<rparr>"
  by code_simp

theorem callback_after_destroy_calls_null_witness:
  "let u = \<lparr>unknown_tfp = Some (Inventory 0), unknown_magic = 0x5446, unknown_response_expected = 0\<rparr>;
       h = set_recv_buf (Inventory 0) (pb_of_list sample_callback) released_hal
   in tf_tfp_filter_received_packet idle_hal quiet_net (Inventory 0) True
        (snd (snd (tf_unknown_destroy u h))) (0 :: nat) = None"
proof -
  define u where "u = \<lparr>unknown_tfp = Some (Inventory 0), unknown_magic = 0x5446, unknown_response_expected = 0\<rparr>"
  define h where "h = set_recv_buf (Inventory 0) (pb_of_list sample_callback) released_hal"
  let ?h' = "snd (snd (tf_unknown_destroy u h))"
  have u: "unknown_tfp u = Some (Inventory 0)" "unknown_magic u = 0x5446" by (simp_all add: u_def)
  have used: "tfps_used released_hal = 1" "tfps released_hal = tf_tfp_create 7 113 0 # replicate 9 zero_tfp"
    "length (ports released_hal) = 1"
    by (simp_all add: released_hal_def one_port_hal_def tf_hal_common_create_def)
  have ref: "ref_ok released_hal (Inventory 0)" by (simp add: ref_ok_def used)
  have h: "hal_inv h" "tfps_used h = 1" "tfps h = tfps released_hal"
    unfolding h_def using hal_inv_recv_buf [OF released_hal_ok ref, of "pb_of_list sample_callback"]
    by (simp_all add: set_recv_buf_def used)
  have h': "?h' = h\<lparr>tfps := (tfps h)[0 := (tfps h ! 0)\<lparr>cb_handler := None, device := None\<rparr>]\<rparr>"
    by (simp add: u_def tf_unknown_destroy_def tfp_update_def)
  have len: "length sample_callback = 19" by (simp add: sample_callback_def)
  have "recv_buf_of ?h' (Inventory 0) = recv_buf_of h (Inventory 0)"
    by (simp add: h' recv_buf_of_def port_of_def tfp_at_def h used)
  then have bs: "pb_list (recv_buf_of ?h' (Inventory 0)) = sample_callback"
    using released_hal_ok ref by (simp add: h_def len)
  have "complete_packet sample_callback"
    by (simp add: complete_packet_def header_is_valid_def len decode_sample_callback)
  moreover have "ref_ok ?h' (Inventory 0)" "waiting_for_fid (tfp_at ?h' (Inventory 0)) = 0"
    by (simp_all add: h' ref_ok_def tfp_at_def h used tf_tfp_create_def zero_tfp_def)
  ultimately have "tf_tfp_filter_received_packet idle_hal quiet_net (Inventory 0) True ?h' (0 :: nat) = None"
    using callback_after_destroy_calls_null [OF h(1), of 0 u "Inventory 0" idle_hal quiet_net True 0]
    by (simp add: bs decode_sample_callback h used tf_tfp_create_def u)
  then show ?thesis by (simp add: u_def h_def Let_def)
qed

end
