(* ===== verification/Net_Server.thy ===== *)
theory Net_Server
  imports Tfp_Header Hal_Interface "HOL-Library.Monad_Syntax"
begin

unbundle bit_operations_syntax

section \<open>The TCP server of the network side (net_arduino_esp32.cpp)\<close>

text \<open>
  Clients connect over TCP and exchange TFP packets with the devices. The arrays of
  \<^verbatim>\<open>TF_Net\<close> are lists of the capacity they are declared with, so that slots behind
  \<^verbatim>\<open>clients_used\<close> keep their old content; of the open requests only the used ones are kept, as
  no other is ever read. The socket calls, the timer, the random number generator and the HMAC of mbedTLS
  are the functions of \<open>sock_ops\<close> on a world. \<open>None\<close> stands for undefined behaviour (a null secret) or
  for a send loop that outlasts its fuel. Log output is left out.
\<close>

datatype auth_state = AUTH_DISABLED | AUTH_ENABLED | AUTH_NONCE_SENT | AUTH_DONE

record TF_NetClient =
  client_id :: u32
  client_fd :: int
  last_recv_ms :: u32
  last_send_us :: u32
  read_buf :: "byte list"
  read_buf_used :: nat
  client_send_buf :: "byte list"
  send_buf_used :: nat
  sends_without_progress :: byte
  client_auth_state :: auth_state
  auth_nonce :: u32
  available_packet_valid :: bool
  available_packet :: TF_TFPHeader

record TF_Request =
  req_uid_num :: u32
  req_client_id :: u32
  req_fid :: byte
  req_seq_num :: byte

record sockaddr =
  sin_ipv6 :: bool
  sin_port :: u16
  sin_addr :: nat

text \<open>\<^verbatim>\<open>next_client_id\<close> is the static counter of \<^verbatim>\<open>accept_connections\<close>.\<close>

record TF_Net =
  clients :: "TF_NetClient list"
  clients_used :: nat
  server_fd :: int
  server_fd6 :: int
  open_requests :: "TF_Request list"
  send_buf_timeout_us :: u32
  recv_timeout_ms :: u32
  auth_secret :: "byte list option"
  next_auth_nonce :: u32
  listen_addr :: sockaddr
  listen_addr6 :: "sockaddr option"
  next_client_id :: u32

datatype sockopt = TCP_NODELAY | SO_REUSEADDR | IPV6_V6ONLY

text \<open>
  Results are those of the C functions; where \<^verbatim>\<open>errno\<close> is looked at, a flag says whether it is one of
  the harmless values. The two address parsers return \<open>None\<close> for an invalid address.
\<close>

record 'w sock_ops =
  sys_socket :: "bool \<Rightarrow> 'w \<Rightarrow> int \<times> 'w"
  sys_setsockopt :: "int \<Rightarrow> sockopt \<Rightarrow> 'w \<Rightarrow> int \<times> 'w"
  sys_getfl :: "int \<Rightarrow> 'w \<Rightarrow> int \<times> 'w"
  sys_setfl_nonblock :: "int \<Rightarrow> int \<Rightarrow> 'w \<Rightarrow> int \<times> 'w"
  sys_bind :: "int \<Rightarrow> sockaddr \<Rightarrow> 'w \<Rightarrow> int \<times> 'w"
  sys_listen :: "int \<Rightarrow> nat \<Rightarrow> 'w \<Rightarrow> int \<times> 'w"
  sys_accept :: "int \<Rightarrow> 'w \<Rightarrow> int \<times> bool \<times> 'w"
  sys_recv :: "int \<Rightarrow> nat \<Rightarrow> 'w \<Rightarrow> byte list option \<times> bool \<times> 'w"
  sys_send :: "int \<Rightarrow> byte list \<Rightarrow> 'w \<Rightarrow> int \<times> bool \<times> 'w"
  sys_close :: "int \<Rightarrow> 'w \<Rightarrow> 'w"
  sys_time_us :: "'w \<Rightarrow> nat \<times> 'w"
  sys_random :: "'w \<Rightarrow> u32 \<times> 'w"
  sys_hmac_sha1 :: "byte list \<Rightarrow> byte list \<Rightarrow> byte list option"
  sys_ipaddr_aton :: "string \<Rightarrow> nat option"
  sys_ip6addr_aton :: "string \<Rightarrow> nat option"

abbreviation (input) TF_NET_MAX_OPEN_REQUEST_COUNT :: nat where "TF_NET_MAX_OPEN_REQUEST_COUNT \<equiv> 10"
abbreviation (input) TF_TFP_HEADER_LENGTH :: nat where "TF_TFP_HEADER_LENGTH \<equiv> 8"
abbreviation (input) TF_FUNCTION_GET_AUTHENTICATION_NONCE :: byte where "TF_FUNCTION_GET_AUTHENTICATION_NONCE \<equiv> 1"
abbreviation (input) TF_FUNCTION_AUTHENTICATE :: byte where "TF_FUNCTION_AUTHENTICATE \<equiv> 2"
abbreviation (input) TF_GET_AUTHENTICATION_NONCE_REQUEST_LEN :: byte where
  "TF_GET_AUTHENTICATION_NONCE_REQUEST_LEN \<equiv> 8"
abbreviation (input) TF_GET_AUTHENTICATION_NONCE_RESPONSE_LEN :: byte where
  "TF_GET_AUTHENTICATION_NONCE_RESPONSE_LEN \<equiv> 12"
abbreviation (input) TF_AUTHENTICATE_REQUEST_LEN :: byte where "TF_AUTHENTICATE_REQUEST_LEN \<equiv> 32"
abbreviation (input) TF_AUTHENTICATE_RESPONSE_LEN :: byte where "TF_AUTHENTICATE_RESPONSE_LEN \<equiv> 8"
abbreviation (input) TF_E_INVALID_ADDRESS :: int where "TF_E_INVALID_ADDRESS \<equiv> -200"

definition client_update :: "nat \<Rightarrow> (TF_NetClient \<Rightarrow> TF_NetClient) \<Rightarrow> TF_Net \<Rightarrow> TF_Net" where
  "client_update i f net = net\<lparr>clients := (clients net)[i := f (clients net ! i)]\<rparr>"

subsection \<open>Open requests\<close>

definition remove_open_request :: "nat \<Rightarrow> TF_Net \<Rightarrow> TF_Net" where
  "remove_open_request idx net =
     net\<lparr>open_requests := take idx (open_requests net) @ drop (idx + 1) (open_requests net)\<rparr>"

definition add_open_request :: "u32 \<Rightarrow> TF_TFPHeader \<Rightarrow> TF_Net \<Rightarrow> TF_Net" where
  "add_open_request cid header net =
     (let net1 = (if length (open_requests net) = TF_NET_MAX_OPEN_REQUEST_COUNT
                  then remove_open_request 0 net else net)
      in net1\<lparr>open_requests := open_requests net1 @ [\<lparr>req_uid_num = hdr_uid_num header, req_client_id = cid,
           req_fid = hdr_fid header, req_seq_num = hdr_seq_num header\<rparr>]\<rparr>)"

text \<open>
  In all loops over the clients or the requests that remove entries, every round either removes the
  entry at the current index or advances the index; the first argument counts the rounds.
\<close>

fun remove_client_requests :: "nat \<Rightarrow> u32 \<Rightarrow> nat \<Rightarrow> TF_Net \<Rightarrow> TF_Net" where
  "remove_client_requests 0 cid i net = net"
| "remove_client_requests (Suc n) cid i net =
    (if i < length (open_requests net)
     then if req_client_id (open_requests net ! i) = cid
       then remove_client_requests n cid i (remove_open_request i net)
       else remove_client_requests n cid (i + 1) net
     else net)"

subsection \<open>Sockets\<close>

definition set_tcp_options :: "'w sock_ops \<Rightarrow> int \<Rightarrow> 'w \<Rightarrow> int \<times> 'w" where
  "set_tcp_options ops fd w =
     (case sys_setsockopt ops fd TCP_NODELAY w of (rc, w1) \<Rightarrow>
        if rc < 0 then (-1, w1)
        else case sys_getfl ops fd w1 of (flags, w2) \<Rightarrow>
          if flags < 0 then (-1, w2)
          else case sys_setfl_nonblock ops fd flags w2 of (rc2, w3) \<Rightarrow>
            if rc2 < 0 then (-1, w3) else (0, w3))"

definition build_server_socket :: "'w sock_ops \<Rightarrow> sockaddr \<Rightarrow> 'w \<Rightarrow> int \<times> 'w" where
  "build_server_socket ops addr w =
     (case sys_socket ops (sin_ipv6 addr) w of (fd, w1) \<Rightarrow>
        if fd < 0 then (-1, w1)
        else case set_tcp_options ops fd w1 of (rc, w2) \<Rightarrow>
          if rc < 0 then (-1, sys_close ops fd w2)
          else case sys_setsockopt ops fd SO_REUSEADDR w2 of (rc, w3) \<Rightarrow>
            if rc < 0 then (-1, sys_close ops fd w3)
            else case (if sin_ipv6 addr then sys_setsockopt ops fd IPV6_V6ONLY w3 else (0, w3)) of (rc, w4) \<Rightarrow>
              if rc < 0 then (-1, sys_close ops fd w4)
              else case sys_bind ops fd addr w4 of (rc, w5) \<Rightarrow>
                if rc < 0 then (-1, sys_close ops fd w5)
                else case sys_listen ops fd 16 w5 of (rc, w6) \<Rightarrow>
                  if rc < 0 then (-1, sys_close ops fd w6) else (fd, w6))"

definition server_accept :: "'w sock_ops \<Rightarrow> int \<Rightarrow> 'w \<Rightarrow> int \<times> 'w" where
  "server_accept ops fd w =
     (case sys_accept ops fd w of (cfd, try_again, w1) \<Rightarrow>
        if cfd < 0 then (if try_again then -2 else -1, w1)
        else case set_tcp_options ops cfd w1 of (rc, w2) \<Rightarrow>
          if rc < 0 then (-2, sys_close ops cfd w2) else (cfd, w2))"

definition tf_net_current_time_us :: "'w sock_ops \<Rightarrow> 'w \<Rightarrow> u32 \<times> 'w" where
  "tf_net_current_time_us ops w = (case sys_time_us ops w of (t, w1) \<Rightarrow> (of_nat t, w1))"

definition tf_net_current_time_ms :: "'w sock_ops \<Rightarrow> 'w \<Rightarrow> u32 \<times> 'w" where
  "tf_net_current_time_ms ops w = (case sys_time_us ops w of (t, w1) \<Rightarrow> (of_nat (t div 1000), w1))"

definition deadline_elapsed :: "u32 \<Rightarrow> u32 \<Rightarrow> bool" where
  "deadline_elapsed now deadline_us \<longleftrightarrow> now - deadline_us < 0xFFFFFFFF div 2"

subsection \<open>Clients\<close>

definition remove_client :: "'w sock_ops \<Rightarrow> nat \<Rightarrow> TF_Net \<Rightarrow> 'w \<Rightarrow> TF_Net \<times> 'w" where
  "remove_client ops idx net w =
     (let client = clients net ! idx;
          net1 = remove_client_requests (length (open_requests net)) (client_id client) 0 net;
          w1 = sys_close ops (client_fd client) w;
          used = clients_used net1 - 1;
          moved = write_at idx (take (used - idx) (drop (idx + 1) (clients net1))) (clients net1);
          cleared = moved[used := (moved ! used)\<lparr>client_id := 0, client_fd := 0, read_buf_used := 0,
            send_buf_used := 0\<rparr>]
      in (net1\<lparr>clients := cleared, clients_used := used\<rparr>, w1))"

fun read_packets_loop :: "nat \<Rightarrow> 'w sock_ops \<Rightarrow> nat \<Rightarrow> TF_Net \<Rightarrow> 'w \<Rightarrow> TF_Net \<times> 'w" where
  "read_packets_loop 0 ops i net w = (net, w)"
| "read_packets_loop (Suc n) ops i net w =
    (if i < clients_used net
     then let client = clients net ! i; to_write = 80 - read_buf_used client in
       if to_write = 0 then read_packets_loop n ops (i + 1) net w
       else case sys_recv ops (client_fd client) to_write w of
           (Some [], _, w1) \<Rightarrow>
             (case remove_client ops i net w1 of (net1, w2) \<Rightarrow> read_packets_loop n ops i net1 w2)
         | (None, again, w1) \<Rightarrow>
             if \<not> again
             then (case remove_client ops i net w1 of (net1, w2) \<Rightarrow> read_packets_loop n ops i net1 w2)
             else read_packets_loop n ops (i + 1) net w1
         | (Some bs, _, w1) \<Rightarrow>
             (case tf_net_current_time_ms ops w1 of (now, w2) \<Rightarrow>
                read_packets_loop n ops (i + 1)
                  (client_update i (\<lambda>c. c\<lparr>read_buf := write_at (read_buf_used c) bs (read_buf c),
                     read_buf_used := to_u8 (read_buf_used c + length bs), last_recv_ms := now\<rparr>) net) w2)
     else (net, w))"

definition read_packets :: "'w sock_ops \<Rightarrow> TF_Net \<Rightarrow> 'w \<Rightarrow> TF_Net \<times> 'w" where
  "read_packets ops net w = read_packets_loop (clients_used net) ops 0 net w"

definition send_from_buf :: "'w sock_ops \<Rightarrow> nat \<Rightarrow> TF_Net \<Rightarrow> 'w \<Rightarrow> int \<times> TF_Net \<times> 'w" where
  "send_from_buf ops idx net w =
     (let client = clients net ! idx in
      case sys_send ops (client_fd client) (take (send_buf_used client) (client_send_buf client)) w of
        (written, again, w1) \<Rightarrow>
          if written < 0 then (if again then 0 else -1, net, w1)
          else case tf_net_current_time_us ops w1 of (now, w2) \<Rightarrow>
            (written, client_update idx (\<lambda>c. c\<lparr>last_send_us := now,
               client_send_buf := write_at 0 (drop (nat written) (client_send_buf c)) (client_send_buf c),
               send_buf_used := send_buf_used c - nat written\<rparr>) net, w2))"

fun make_room_loop ::
  "nat \<Rightarrow> 'w sock_ops \<Rightarrow> nat \<Rightarrow> nat \<Rightarrow> u32 \<Rightarrow> TF_Net \<Rightarrow> 'w \<Rightarrow> (int option \<times> TF_Net \<times> 'w) option" where
  "make_room_loop 0 ops idx len deadline_us net w = None"
| "make_room_loop (Suc fuel) ops idx len deadline_us net w =
    (if len > 1400 - send_buf_used (clients net ! idx)
     then case tf_net_current_time_us ops w of (now, w1) \<Rightarrow>
       if deadline_elapsed now deadline_us
       then let net1 = client_update idx (\<lambda>c. c\<lparr>sends_without_progress := sends_without_progress c + 1\<rparr>) net
            in Some (Some (if unat (sends_without_progress (clients net1 ! idx)) < 10 then 0 else -1), net1, w1)
       else case send_from_buf ops idx net w1 of (err, net1, w2) \<Rightarrow>
         if err < 0 then Some (Some err, net1, w2)
         else make_room_loop fuel ops idx len deadline_us net1 w2
     else Some (None, net, w))"

definition add_to_send_buf ::
  "nat \<Rightarrow> 'w sock_ops \<Rightarrow> nat \<Rightarrow> byte list \<Rightarrow> byte \<Rightarrow> TF_Net \<Rightarrow> 'w \<Rightarrow> (int \<times> TF_Net \<times> 'w) option" where
  "add_to_send_buf fuel ops idx buf len net w = do {
     let (now, w1) = tf_net_current_time_us ops w;
     (early, net1, w2) \<leftarrow> make_room_loop fuel ops idx (unat len) (now + 10000) net w1;
     case early of
       Some rc \<Rightarrow> Some (rc, net1, w2)
     | None \<Rightarrow> Some (int (unat len), client_update idx (\<lambda>c. c\<lparr>sends_without_progress := 0,
         client_send_buf := write_at (send_buf_used c) (take (unat len) buf) (client_send_buf c),
         send_buf_used := send_buf_used c + unat len\<rparr>) net1, w2)
   }"

fun flush_loop :: "nat \<Rightarrow> 'w sock_ops \<Rightarrow> nat \<Rightarrow> TF_Net \<Rightarrow> 'w \<Rightarrow> TF_Net \<times> 'w" where
  "flush_loop 0 ops i net w = (net, w)"
| "flush_loop (Suc n) ops i net w =
    (if i < clients_used net
     then let client = clients net ! i in
       if send_buf_used client = 0 then flush_loop n ops (i + 1) net w
       else case tf_net_current_time_us ops w of (now, w1) \<Rightarrow>
         if deadline_elapsed now (last_send_us client + send_buf_timeout_us net) \<or> send_buf_used client > 1300
         then case send_from_buf ops i net w1 of (rc, net1, w2) \<Rightarrow>
           if rc < 0
           then (case remove_client ops i net1 w2 of (net2, w3) \<Rightarrow> flush_loop n ops i net2 w3)
           else flush_loop n ops (i + 1) net1 w2
         else flush_loop n ops (i + 1) net w1
     else (net, w))"

definition flush_send_buffers :: "'w sock_ops \<Rightarrow> TF_Net \<Rightarrow> 'w \<Rightarrow> TF_Net \<times> 'w" where
  "flush_send_buffers ops net w = flush_loop (clients_used net) ops 0 net w"

definition close_server_sockets :: "'w sock_ops \<Rightarrow> TF_Net \<Rightarrow> 'w \<Rightarrow> TF_Net \<times> 'w" where
  "close_server_sockets ops net w =
     (let (net1, w1) = (if server_fd net \<ge> 0 then (net\<lparr>server_fd := -1\<rparr>, sys_close ops (server_fd net) w)
                        else (net, w))
      in if server_fd6 net1 \<ge> 0 then (net1\<lparr>server_fd6 := -1\<rparr>, sys_close ops (server_fd6 net1) w1)
         else (net1, w1))"

definition reopen_server_sockets :: "'w sock_ops \<Rightarrow> TF_Net \<Rightarrow> 'w \<Rightarrow> TF_Net \<times> 'w" where
  "reopen_server_sockets ops net w =
     (let (net1, w1) = (if server_fd net = -1
            then (case build_server_socket ops (listen_addr net) w of (fd, w') \<Rightarrow> (net\<lparr>server_fd := fd\<rparr>, w'))
            else (net, w))
      in case listen_addr6 net1 of
           Some addr \<Rightarrow> if server_fd6 net1 = -1
             then (case build_server_socket ops addr w1 of (fd, w') \<Rightarrow> (net1\<lparr>server_fd6 := fd\<rparr>, w'))
             else (net1, w1)
         | None \<Rightarrow> (net1, w1))"

text \<open>Accepting on one of the two server sockets; a broken one is closed and reopened later.\<close>

definition accept_on4 :: "'w sock_ops \<Rightarrow> TF_Net \<Rightarrow> 'w \<Rightarrow> int \<times> TF_Net \<times> 'w" where
  "accept_on4 ops net w =
     (if server_fd net \<ge> 0
      then case server_accept ops (server_fd net) w of (fd, w1) \<Rightarrow>
        if fd = -1 then (fd, net\<lparr>server_fd := -1\<rparr>, sys_close ops (server_fd net) w1) else (fd, net, w1)
      else (-2, net, w))"

definition accept_on6 :: "'w sock_ops \<Rightarrow> int \<Rightarrow> TF_Net \<Rightarrow> 'w \<Rightarrow> int \<times> TF_Net \<times> 'w" where
  "accept_on6 ops fd4 net w =
     (if fd4 = -2 \<and> server_fd6 net \<ge> 0
      then case server_accept ops (server_fd6 net) w of (fd, w1) \<Rightarrow>
        if fd = -1 then (fd, net\<lparr>server_fd6 := -1\<rparr>, sys_close ops (server_fd6 net) w1) else (fd, net, w1)
      else (fd4, net, w))"

definition accept_connections :: "'w sock_ops \<Rightarrow> TF_Net \<Rightarrow> 'w \<Rightarrow> TF_Net \<times> 'w" where
  "accept_connections ops net w =
     (let max_clients = length (clients net) in
      if clients_used net = max_clients then (net, w)
      else if server_fd net = -1 \<and> server_fd6 net = -1 then reopen_server_sockets ops net w
      else case accept_on4 ops net w of (fd4, net1, w1) \<Rightarrow>
        case accept_on6 ops fd4 net1 w1 of (fd, net2, w2) \<Rightarrow>
          if fd < 0 then (net2, w2)
          else case tf_net_current_time_ms ops w2 of (now_ms, w3) \<Rightarrow>
            case tf_net_current_time_us ops w3 of (now_us, w4) \<Rightarrow>
              let net3 = client_update (clients_used net2) (\<lambda>c. c\<lparr>client_fd := fd,
                    client_id := next_client_id net2 + 1, last_recv_ms := now_ms, last_send_us := now_us,
                    client_auth_state := (if auth_secret net2 = None then AUTH_DISABLED else AUTH_ENABLED),
                    auth_nonce := next_auth_nonce net2, read_buf := replicate 80 0, read_buf_used := 0,
                    client_send_buf := replicate 1400 0, send_buf_used := 0\<rparr>)
                    (net2\<lparr>next_client_id := next_client_id net2 + 1, next_auth_nonce := next_auth_nonce net2 + 1\<rparr>);
                  net4 = net3\<lparr>clients_used := clients_used net3 + 1\<rparr>
              in if clients_used net4 = max_clients then close_server_sockets ops net4 w4 else (net4, w4))"

definition drop_packet :: "nat \<Rightarrow> nat \<Rightarrow> TF_Net \<Rightarrow> TF_Net" where
  "drop_packet idx packet_len net = client_update idx (\<lambda>c.
     let len = min packet_len (read_buf_used c) in
     c\<lparr>read_buf := write_at 0 (take (read_buf_used c - len) (drop len (read_buf c))) (read_buf c),
       read_buf_used := read_buf_used c - len, available_packet_valid := False\<rparr>) net"

subsection \<open>Sending to clients\<close>

definition authenticated :: "TF_NetClient \<Rightarrow> bool" where
  "authenticated c \<longleftrightarrow> client_auth_state c = AUTH_DISABLED \<or> client_auth_state c = AUTH_DONE"

fun broadcast_loop ::
  "nat \<Rightarrow> nat \<Rightarrow> 'w sock_ops \<Rightarrow> TF_TFPHeader \<Rightarrow> byte list \<Rightarrow> nat \<Rightarrow> TF_Net \<Rightarrow> 'w \<Rightarrow> (TF_Net \<times> 'w) option" where
  "broadcast_loop 0 fuel ops header buf i net w = Some (net, w)"
| "broadcast_loop (Suc n) fuel ops header buf i net w =
    (if i < clients_used net
     then if \<not> authenticated (clients net ! i) then broadcast_loop n fuel ops header buf (i + 1) net w
       else do {
         (rc, net1, w1) \<leftarrow> add_to_send_buf fuel ops i buf (hdr_length header) net w;
         if rc < 0
         then (case remove_client ops i net1 w1 of (net2, w2) \<Rightarrow>
           broadcast_loop n fuel ops header buf i net2 w2)
         else broadcast_loop n fuel ops header buf (i + 1) net1 w1
       }
     else Some (net, w))"

definition broadcast ::
  "nat \<Rightarrow> 'w sock_ops \<Rightarrow> TF_TFPHeader \<Rightarrow> byte list \<Rightarrow> TF_Net \<Rightarrow> 'w \<Rightarrow> (TF_Net \<times> 'w) option" where
  "broadcast fuel ops header buf net w = broadcast_loop (clients_used net) fuel ops header buf 0 net w"

definition unicast ::
  "nat \<Rightarrow> 'w sock_ops \<Rightarrow> TF_TFPHeader \<Rightarrow> byte list \<Rightarrow> nat \<Rightarrow> TF_Net \<Rightarrow> 'w \<Rightarrow> (TF_Net \<times> 'w) option" where
  "unicast fuel ops header buf idx net w = do {
     (rc, net1, w1) \<leftarrow> add_to_send_buf fuel ops idx buf (hdr_length header) net w;
     if rc < 0 then Some (remove_client ops idx net1 w1)
     else case send_from_buf ops idx net1 w1 of (rc1, net2, w2) \<Rightarrow>
       Some (if rc1 < 0 then remove_client ops idx net2 w2 else (net2, w2))
   }"

subsection \<open>Packets for the server itself\<close>

text \<open>The buffer of the packet is the read buffer of the client: responses are built in place.\<close>

definition write_read_buf :: "nat \<Rightarrow> nat \<Rightarrow> byte list \<Rightarrow> TF_Net \<Rightarrow> TF_Net" where
  "write_read_buf idx off bs = client_update idx (\<lambda>c. c\<lparr>read_buf := write_at off bs (read_buf c)\<rparr>)"

definition answer_in_place ::
  "nat \<Rightarrow> 'w sock_ops \<Rightarrow> TF_TFPHeader \<Rightarrow> byte list \<Rightarrow> nat \<Rightarrow> TF_Net \<Rightarrow> 'w \<Rightarrow> (TF_Net \<times> 'w) option" where
  "answer_in_place fuel ops header payload idx net w =
     (let net1 = write_read_buf idx TF_TFP_HEADER_LENGTH payload (write_read_buf idx 0 (tf_tfp_header_write header) net)
      in unicast fuel ops header (read_buf (clients net1 ! idx)) idx net1 w)"

definition handle_get_authentication_nonce_request ::
  "nat \<Rightarrow> 'w sock_ops \<Rightarrow> nat \<Rightarrow> TF_TFPHeader \<Rightarrow> TF_Net \<Rightarrow> 'w \<Rightarrow> (TF_Net \<times> 'w) option" where
  "handle_get_authentication_nonce_request fuel ops idx header net w =
     (if client_auth_state (clients net ! idx) = AUTH_DISABLED then Some (remove_client ops idx net w)
      else let net1 = (if client_auth_state (clients net ! idx) = AUTH_DONE
                 then client_update idx (\<lambda>c. c\<lparr>client_auth_state := AUTH_ENABLED\<rparr>) net else net)
      in if client_auth_state (clients net1 ! idx) \<noteq> AUTH_ENABLED then Some (remove_client ops idx net1 w)
         else let net2 = client_update idx (\<lambda>c. c\<lparr>client_auth_state := AUTH_NONCE_SENT\<rparr>) net1
         in if hdr_response_expected header
            then answer_in_place fuel ops (header\<lparr>hdr_length := TF_GET_AUTHENTICATION_NONCE_RESPONSE_LEN\<rparr>)
                   (le_bytes 4 (auth_nonce (clients net2 ! idx))) idx net2 w
            else Some (net2, w))"

definition handle_authenticate_request ::
  "nat \<Rightarrow> 'w sock_ops \<Rightarrow> nat \<Rightarrow> TF_TFPHeader \<Rightarrow> TF_Net \<Rightarrow> 'w \<Rightarrow> (TF_Net \<times> 'w) option" where
  "handle_authenticate_request fuel ops idx header net w =
     (let client = clients net ! idx; buf = read_buf client in
      if client_auth_state client = AUTH_DISABLED then Some (remove_client ops idx net w)
      else if client_auth_state client \<noteq> AUTH_NONCE_SENT then Some (remove_client ops idx net w)
      else case auth_secret net of
          None \<Rightarrow> None
        | Some secret \<Rightarrow>
            (case sys_hmac_sha1 ops secret (le_bytes 4 (auth_nonce client) @ take 4 (drop 8 buf)) of
               None \<Rightarrow> Some (remove_client ops idx net w)
             | Some digest \<Rightarrow>
                 if take 20 (drop 12 buf) \<noteq> take 20 digest then Some (remove_client ops idx net w)
                 else let net1 = client_update idx (\<lambda>c. c\<lparr>client_auth_state := AUTH_DONE\<rparr>) net
                 in if hdr_response_expected header
                    then answer_in_place fuel ops (header\<lparr>hdr_length := TF_AUTHENTICATE_RESPONSE_LEN\<rparr>) [] idx net1 w
                    else Some (net1, w)))"

definition handle_brickd_packet ::
  "nat \<Rightarrow> 'w sock_ops \<Rightarrow> nat \<Rightarrow> TF_TFPHeader \<Rightarrow> TF_Net \<Rightarrow> 'w \<Rightarrow> (TF_Net \<times> 'w) option" where
  "handle_brickd_packet fuel ops idx header net w =
     (if hdr_fid header = TF_FUNCTION_GET_AUTHENTICATION_NONCE
      then if hdr_length header \<noteq> TF_GET_AUTHENTICATION_NONCE_REQUEST_LEN
        then Some (remove_client ops idx net w)
        else handle_get_authentication_nonce_request fuel ops idx header net w
      else if hdr_fid header = TF_FUNCTION_AUTHENTICATE
      then if hdr_length header \<noteq> TF_AUTHENTICATE_REQUEST_LEN
        then Some (remove_client ops idx net w)
        else handle_authenticate_request fuel ops idx header net w
      else answer_in_place fuel ops (header\<lparr>hdr_error_code := 2\<rparr>) [] idx net w)"

text \<open>The index advances in every round, also when the client in its slot was removed.\<close>

fun reassemble_loop :: "nat \<Rightarrow> nat \<Rightarrow> 'w sock_ops \<Rightarrow> nat \<Rightarrow> TF_Net \<Rightarrow> 'w \<Rightarrow> (TF_Net \<times> 'w) option" where
  "reassemble_loop 0 fuel ops i net w = Some (net, w)"
| "reassemble_loop (Suc n) fuel ops i net w =
    (if i < clients_used net
     then let client = clients net ! i; used = read_buf_used client in
       if available_packet_valid client \<or> used < 8 then reassemble_loop n fuel ops (i + 1) net w
       else case tf_tfp_header_peek_plain (read_buf client) of (valid, header) \<Rightarrow>
         if \<not> valid \<or> hdr_fid header = 0
         then (case remove_client ops i net w of (net1, w1) \<Rightarrow> reassemble_loop n fuel ops (i + 1) net1 w1)
         else if used < unat (hdr_length header) then reassemble_loop n fuel ops (i + 1) net w
         else if hdr_uid_num header = 1
         then do {
           (net1, w1) \<leftarrow> handle_brickd_packet fuel ops i header net w;
           reassemble_loop n fuel ops (i + 1) (drop_packet i (unat (hdr_length header)) net1) w1
         }
         else if \<not> authenticated client
         then reassemble_loop n fuel ops (i + 1) (drop_packet i (unat (hdr_length header)) net) w
         else reassemble_loop n fuel ops (i + 1)
           (client_update i (\<lambda>c. c\<lparr>available_packet := header, available_packet_valid := True\<rparr>) net) w
     else Some (net, w))"

definition reassemble_packets :: "nat \<Rightarrow> 'w sock_ops \<Rightarrow> TF_Net \<Rightarrow> 'w \<Rightarrow> (TF_Net \<times> 'w) option" where
  "reassemble_packets fuel ops net w = reassemble_loop (clients_used net) fuel ops 0 net w"

subsection \<open>The interface to the HAL\<close>

definition zero_client :: TF_NetClient where
  "zero_client = \<lparr>client_id = 0, client_fd = 0, last_recv_ms = 0, last_send_us = 0, read_buf = replicate 80 0,
     read_buf_used = 0, client_send_buf = replicate 1400 0, send_buf_used = 0, sends_without_progress = 0,
     client_auth_state = AUTH_DISABLED, auth_nonce = 0, available_packet_valid = False,
     available_packet = \<lparr>hdr_uid_num = 0, hdr_length = 0, hdr_fid = 0, hdr_seq_num = 0,
       hdr_response_expected = False, hdr_options = 0, hdr_error_code = 0, hdr_flags = 0\<rparr>\<rparr>"

definition htons :: "u16 \<Rightarrow> u16" where
  "htons x = push_bit 8 x OR drop_bit 8 x"

text \<open>The static client counter survives; \<open>n\<close> is \<^verbatim>\<open>TF_NET_MAX_CLIENT_COUNT\<close>.\<close>

definition tf_net_create ::
  "'w sock_ops \<Rightarrow> nat \<Rightarrow> u32 \<Rightarrow> string option \<Rightarrow> u16 \<Rightarrow> byte list option \<Rightarrow> 'w \<Rightarrow> int \<times> TF_Net \<times> 'w" where
  "tf_net_create ops n counter addr port secret w =
     (let net = \<lparr>clients = replicate n zero_client, clients_used = 0, server_fd = 0, server_fd6 = -1,
            open_requests = [], send_buf_timeout_us = 20000, recv_timeout_ms = 60000, auth_secret = secret,
            next_auth_nonce = 0,
            listen_addr = \<lparr>sin_ipv6 = False, sin_port = (if port = 0 then htons 4223 else htons port), sin_addr = 0\<rparr>,
            listen_addr6 = None, next_client_id = counter\<rparr>
      in case (case addr of None \<Rightarrow> Some 0 | Some a \<Rightarrow> sys_ipaddr_aton ops a) of
           None \<Rightarrow> (TF_E_INVALID_ADDRESS, net, w)
         | Some ip \<Rightarrow>
             let net1 = net\<lparr>listen_addr := (listen_addr net)\<lparr>sin_addr := ip\<rparr>\<rparr> in
             case build_server_socket ops (listen_addr net1) w of (fd, w1) \<Rightarrow>
               let net2 = net1\<lparr>server_fd := fd\<rparr> in
               if secret = None then (TF_E_OK, net2, w1)
               else case sys_random ops w1 of (nonce, w2) \<Rightarrow> (TF_E_OK, net2\<lparr>next_auth_nonce := nonce\<rparr>, w2))"

fun destroy_loop :: "nat \<Rightarrow> 'w sock_ops \<Rightarrow> nat \<Rightarrow> TF_Net \<Rightarrow> 'w \<Rightarrow> TF_Net \<times> 'w" where
  "destroy_loop 0 ops i net w = (net, w)"
| "destroy_loop (Suc n) ops i net w =
    (if i < clients_used net
     then (case remove_client ops i net w of (net1, w1) \<Rightarrow> destroy_loop n ops (i + 1) net1 w1)
     else (net, w))"

definition tf_net_destroy :: "'w sock_ops \<Rightarrow> TF_Net \<Rightarrow> 'w \<Rightarrow> int \<times> TF_Net \<times> 'w" where
  "tf_net_destroy ops net w =
     (let w1 = (if server_fd net \<ge> 0 then sys_close ops (server_fd net) w else w);
          w2 = (if server_fd6 net \<ge> 0 then sys_close ops (server_fd6 net) w1 else w1)
      in (0, destroy_loop (clients_used net) ops 0 net w2))"

definition tf_net_set_listen_addr6 ::
  "'w sock_ops \<Rightarrow> string option \<Rightarrow> u16 \<Rightarrow> TF_Net \<Rightarrow> 'w \<Rightarrow> int \<times> TF_Net \<times> 'w" where
  "tf_net_set_listen_addr6 ops addr port net w =
     (let base = \<lparr>sin_ipv6 = True, sin_port = (if port = 0 then htons 4223 else htons port),
            sin_addr = (case listen_addr6 net of Some a \<Rightarrow> sin_addr a | None \<Rightarrow> 0)\<rparr>
      in case (case addr of None \<Rightarrow> Some 0 | Some a \<Rightarrow> sys_ip6addr_aton ops a) of
           None \<Rightarrow> (TF_E_INVALID_ADDRESS, net\<lparr>listen_addr6 := Some base\<rparr>, w)
         | Some ip \<Rightarrow>
             let net1 = net\<lparr>listen_addr6 := Some (base\<lparr>sin_addr := ip\<rparr>)\<rparr> in
             case build_server_socket ops (base\<lparr>sin_addr := ip\<rparr>) w of (fd, w1) \<Rightarrow>
               (TF_E_OK, net1\<lparr>server_fd6 := fd\<rparr>, w1))"

definition tf_net_tick :: "nat \<Rightarrow> 'w sock_ops \<Rightarrow> TF_Net \<Rightarrow> 'w \<Rightarrow> (TF_Net \<times> 'w) option" where
  "tf_net_tick fuel ops net w = do {
     let (net1, w1) = flush_send_buffers ops net w;
     let (net2, w2) = read_packets ops net1 w1;
     (net3, w3) \<leftarrow> reassemble_packets fuel ops net2 w2;
     Some (accept_connections ops net3 w3)
   }"

definition tf_net_get_available_tfp_header :: "TF_Net \<Rightarrow> int \<Rightarrow> (TF_TFPHeader \<times> int) option" where
  "tf_net_get_available_tfp_header net packet_id =
     map_option (\<lambda>i. (available_packet (clients net ! i), int i))
       (List.find (\<lambda>i. available_packet_valid (clients net ! i)) [nat (packet_id + 1)..<clients_used net])"

text \<open>The bytes copied into the caller's buffer, \<open>None\<close> if it is left alone.\<close>

definition tf_net_get_packet :: "nat \<Rightarrow> TF_Net \<Rightarrow> int \<times> byte list option \<times> TF_Net" where
  "tf_net_get_packet pid net =
     (let client = clients net ! pid; header = available_packet client in
      if \<not> available_packet_valid client then (-1, None, net)
      else (0, Some (take (unat (hdr_length header)) (read_buf client)),
            if hdr_uid_num header \<noteq> 0 \<and> hdr_response_expected header
            then add_open_request (client_id client) header net else net))"

definition tf_net_drop_packet :: "nat \<Rightarrow> TF_Net \<Rightarrow> int \<times> TF_Net" where
  "tf_net_drop_packet pid net =
     (let client = clients net ! pid in
      if \<not> available_packet_valid client then (-1, net)
      else (0, drop_packet pid (unat (hdr_length (available_packet client))) net))"

text \<open>The index of the first open request a response belongs to, and of the first client with an id.\<close>

definition find_request :: "TF_TFPHeader \<Rightarrow> TF_Request list \<Rightarrow> nat option" where
  "find_request header reqs = List.find (\<lambda>i. req_fid (reqs ! i) = hdr_fid header \<and>
     req_seq_num (reqs ! i) = hdr_seq_num header \<and> req_uid_num (reqs ! i) = hdr_uid_num header) [0..<length reqs]"

definition find_client :: "u32 \<Rightarrow> TF_Net \<Rightarrow> nat option" where
  "find_client cid net = List.find (\<lambda>i. client_id (clients net ! i) = cid) [0..<clients_used net]"

definition tf_net_send_packet ::
  "nat \<Rightarrow> 'w sock_ops \<Rightarrow> TF_TFPHeader \<Rightarrow> byte list \<Rightarrow> TF_Net \<Rightarrow> 'w \<Rightarrow> (TF_Net \<times> 'w) option" where
  "tf_net_send_packet fuel ops header buf net w =
     (if hdr_seq_num header = 0 then broadcast fuel ops header buf net w
      else case find_request header (open_requests net) of
          None \<Rightarrow> broadcast fuel ops header buf net w
        | Some k \<Rightarrow>
            let cid = req_client_id (open_requests net ! k); net1 = remove_open_request k net in
            (case find_client cid net1 of
               None \<Rightarrow> Some (net1, w)
             | Some i \<Rightarrow> if \<not> authenticated (clients net1 ! i) then Some (net1, w)
                 else unicast fuel ops header buf i net1 w))"

end
