(* ===== verification/Net_Clients.thy ===== *)
theory Net_Clients
  imports Net_Server
begin

unbundle bit_operations_syntax

section \<open>The TCP server: bounds, authentication and the bookkeeping of clients\<close>

text \<open>
  The invariant \<open>net_inv\<close> bounds every buffer of the server; \<open>live\<close> is the list of connected clients,
  on which removing a client is removing a list element. The theorems say who may talk to the devices,
  and where the bookkeeping of removed clients goes wrong.
\<close>

definition live :: "TF_Net \<Rightarrow> TF_NetClient list" where
  "live net = take (clients_used net) (clients net)"

definition client_ok :: "TF_NetClient \<Rightarrow> bool" where
  "client_ok c \<longleftrightarrow> length (read_buf c) = 80 \<and> read_buf_used c \<le> 80 \<and> length (client_send_buf c) = 1400 \<and>
     send_buf_used c \<le> 1400 \<and> (available_packet_valid c \<longrightarrow> header_is_valid (available_packet c))"

definition net_inv :: "TF_Net \<Rightarrow> bool" where
  "net_inv net \<longleftrightarrow> clients_used net \<le> length (clients net) \<and> (\<forall>c \<in> set (clients net). client_ok c) \<and>
     length (open_requests net) \<le> 10"

text \<open>The socket layer does not transfer more bytes than asked for.\<close>

definition sock_ok :: "'w sock_ops \<Rightarrow> bool" where
  "sock_ok ops \<longleftrightarrow>
     (\<forall>fd n w bs again w'. sys_recv ops fd n w = (Some bs, again, w') \<longrightarrow> length bs \<le> n) \<and>
     (\<forall>fd bs w written again w'. sys_send ops fd bs w = (written, again, w') \<longrightarrow> written \<le> int (length bs))"

lemma net_invD:
  assumes "net_inv net"
  shows "clients_used net \<le> length (clients net)"
    and "i < length (clients net) \<Longrightarrow> client_ok (clients net ! i)"
    and "i < clients_used net \<Longrightarrow> client_ok (clients net ! i)"
  using assms by (auto simp: net_inv_def)

lemma length_live [simp]: "net_inv net \<Longrightarrow> length (live net) = clients_used net"
  by (simp add: live_def net_inv_def)

lemma nth_live [simp]: "i < clients_used net \<Longrightarrow> live net ! i = clients net ! i"
  by (simp add: live_def)

subsection \<open>Requests\<close>

lemma remove_client_requests_filter:
  "length (open_requests net) - i \<le> n \<Longrightarrow> remove_client_requests n cid i net =
    net\<lparr>open_requests := take i (open_requests net) @
      filter (\<lambda>r. req_client_id r \<noteq> cid) (drop i (open_requests net))\<rparr>"
proof (induction n arbitrary: i net)
  case (Suc n)
  show ?case
  proof (cases "i < length (open_requests net)")
    case True
    have dr: "drop i (open_requests net) = open_requests net ! i # drop (Suc i) (open_requests net)"
      using True by (simp add: Cons_nth_drop_Suc)
    show ?thesis
    proof (cases "req_client_id (open_requests net ! i) = cid")
      case hit: True
      show ?thesis
        using True hit Suc.prems
        by (simp add: Suc.IH remove_open_request_def dr)
    next
      case False
      show ?thesis
        using True False Suc.prems by (simp add: Suc.IH dr take_Suc_conv_app_nth)
    qed
  qed simp
qed simp

lemma add_open_request_frame [simp]:
  "clients (add_open_request cid header net) = clients net"
  "clients_used (add_open_request cid header net) = clients_used net"
  by (simp_all add: add_open_request_def remove_open_request_def Let_def)

lemma add_open_request_inv: "net_inv net \<Longrightarrow> net_inv (add_open_request cid header net)"
  by (auto simp: net_inv_def add_open_request_def remove_open_request_def Let_def)

lemma remove_open_request_inv: "net_inv net \<Longrightarrow> net_inv (remove_open_request k net)"
  by (auto simp: net_inv_def remove_open_request_def)

subsection \<open>Updating and removing clients\<close>

lemma client_update_frame [simp]:
  "clients_used (client_update i f net) = clients_used net"
  "length (clients (client_update i f net)) = length (clients net)"
  "open_requests (client_update i f net) = open_requests net"
  "auth_secret (client_update i f net) = auth_secret net"
  "i < length (clients net) \<Longrightarrow> clients (client_update i f net) ! i = f (clients net ! i)"
  "j \<noteq> i \<Longrightarrow> clients (client_update i f net) ! j = clients net ! j"
  by (simp_all add: client_update_def)

lemma client_update_inv:
  assumes "net_inv net" and "i < length (clients net)" and "client_ok (clients net ! i) \<Longrightarrow> client_ok (f (clients net ! i))"
  shows "net_inv (client_update i f net)"
proof -
  have "set (clients (client_update i f net)) \<subseteq> insert (f (clients net ! i)) (set (clients net))"
    by (simp add: client_update_def set_update_subset_insert)
  then show ?thesis using assms by (auto simp: net_inv_def)
qed

lemma live_client_update:
  "i < clients_used net \<Longrightarrow> live (client_update i f net) = (live net)[i := f (clients net ! i)]"
  by (simp add: live_def client_update_def take_update_swap)

lemma remove_client_effect:
  fixes ops :: "'w sock_ops" and w :: 'w
  assumes inv: "net_inv net" and idx: "idx < clients_used net"
  defines "net' \<equiv> fst (remove_client ops idx net w)" and "used \<equiv> clients_used net - 1"
  shows "clients_used net' = used" and "length (clients net') = length (clients net)"
    and "live net' = take idx (live net) @ drop (Suc idx) (live net)"
    and "clients net' ! used = (clients net ! used)\<lparr>client_id := 0, client_fd := 0, read_buf_used := 0, send_buf_used := 0\<rparr>"
    and "open_requests net' = filter (\<lambda>r. req_client_id r \<noteq> client_id (clients net ! idx)) (open_requests net)"
    and "auth_secret net' = auth_secret net" and "net_inv net'"
proof -
  let ?cs = "clients net" and ?zap = "\<lambda>c. c\<lparr>client_id := 0, client_fd := 0, read_buf_used := 0, send_buf_used := 0\<rparr>"
  define moved where "moved = write_at idx (take (used - idx) (drop (idx + 1) ?cs)) ?cs"
  have u: "used < length ?cs" "idx \<le> used" "clients_used net = Suc used"
    using net_invD(1) [OF inv] idx by (simp_all add: used_def)
  have net': "net' = net\<lparr>open_requests := filter (\<lambda>r. req_client_id r \<noteq> client_id (clients net ! idx)) (open_requests net),
      clients := moved[used := ?zap (moved ! used)], clients_used := used\<rparr>"
    by (simp add: net'_def remove_client_def Let_def remove_client_requests_filter moved_def used_def)
  have m: "moved = take idx ?cs @ take (used - idx) (drop (Suc idx) ?cs) @ drop used ?cs"
    using u by (simp add: moved_def write_at_def)
  have len: "length moved = length ?cs" using u by (simp add: m)
  have last: "moved ! used = ?cs ! used" using u by (simp add: m nth_append)
  show "clients_used net' = used" "length (clients net') = length ?cs" "auth_secret net' = auth_secret net"
    "open_requests net' = filter (\<lambda>r. req_client_id r \<noteq> client_id (clients net ! idx)) (open_requests net)"
    by (simp_all add: net' len)
  show "clients net' ! used = ?zap (?cs ! used)" using u by (simp add: net' len last)
  show "live net' = take idx (live net) @ drop (Suc idx) (live net)"
    using u by (simp add: live_def net' m drop_take min_absorb1 min_absorb2)
  have "set moved \<subseteq> set ?cs"
    using set_take_subset set_drop_subset unfolding m by (fastforce dest: in_set_takeD in_set_dropD)
  then have "set (clients net') \<subseteq> insert (?zap (?cs ! used)) (set ?cs)"
    using set_update_subset_insert [of moved used "?zap (moved ! used)"] by (auto simp: net' last)
  moreover have "client_ok (?zap (?cs ! used))" using net_invD(2) [OF inv u(1)] by (simp add: client_ok_def)
  ultimately show "net_inv net'"
    using inv u by (auto simp: net_inv_def net' len intro: le_trans [OF length_filter_le])
qed

subsection \<open>Steps that leave the authentication alone\<close>

text \<open>
  Every client connected after the step was connected before, with the same id and authentication state;
  only clients in a state of \<open>A\<close> may have changed otherwise.
\<close>

definition net_step :: "auth_state set \<Rightarrow> TF_Net \<Rightarrow> TF_Net \<Rightarrow> bool" where
  "net_step A net net' \<longleftrightarrow> net_inv net' \<and> auth_secret net' = auth_secret net \<and>
     length (clients net') = length (clients net) \<and>
     (\<forall>c' \<in> set (live net'). \<exists>c \<in> set (live net). client_id c' = client_id c \<and>
        client_auth_state c' = client_auth_state c \<and> (client_auth_state c' \<in> A \<or> c' = c))"

lemma net_step_refl: "net_inv net \<Longrightarrow> net_step A net net"
  by (auto simp: net_step_def)

lemma net_step_trans: "net_step A net net1 \<Longrightarrow> net_step A net1 net2 \<Longrightarrow> net_step A net net2"
  unfolding net_step_def by (metis (no_types, lifting))

lemma net_stepD: "net_step A net net' \<Longrightarrow> net_inv net'"
  by (simp add: net_step_def)

lemma net_step_mono: "net_step A net net' \<Longrightarrow> A \<subseteq> B \<Longrightarrow> net_step B net net'"
  unfolding net_step_def by blast

lemma net_step_update:
  assumes "net_inv net" and "i < clients_used net" and "client_ok (clients net ! i) \<Longrightarrow> client_ok (f (clients net ! i))"
    and "client_id (f (clients net ! i)) = client_id (clients net ! i)"
    and "client_auth_state (f (clients net ! i)) = client_auth_state (clients net ! i)"
    and "client_auth_state (clients net ! i) \<in> A"
  shows "net_step A net (client_update i f net)"
proof -
  have "i < length (clients net)" using assms(2) net_invD(1) [OF assms(1)] by simp
  then have "net_inv (client_update i f net)" using assms(1,3) by (intro client_update_inv)
  moreover have "clients net ! i \<in> set (live net)"
    using assms(1,2) nth_mem [of i "live net"] by simp
  moreover have "set (live (client_update i f net)) \<subseteq> insert (f (clients net ! i)) (set (live net))"
    by (simp add: live_client_update [OF assms(2)] set_update_subset_insert)
  ultimately show ?thesis
    using assms(4-) by (auto simp: net_step_def dest!: subsetD)
qed

lemma net_step_remove:
  fixes ops :: "'w sock_ops" and w :: 'w
  assumes "net_inv net" and "i < clients_used net"
  shows "net_step A net (fst (remove_client ops i net w))"
proof -
  have "set (live (fst (remove_client ops i net w))) \<subseteq> set (live net)"
    using remove_client_effect(3) [OF assms, of ops w] by (auto dest: in_set_takeD in_set_dropD)
  then show ?thesis
    using remove_client_effect(2,6,7) [OF assms, of ops w] by (auto simp: net_step_def)
qed

text \<open>The slots keep their clients and the clients their authentication.\<close>

definition same_slots :: "TF_Net \<Rightarrow> TF_Net \<Rightarrow> bool" where
  "same_slots net net' \<longleftrightarrow> clients_used net' = clients_used net \<and>
     (\<forall>i. client_auth_state (clients net' ! i) = client_auth_state (clients net ! i))"

lemma same_slots_refl [simp]: "same_slots net net"
  by (simp add: same_slots_def)

lemma same_slots_trans: "same_slots net net1 \<Longrightarrow> same_slots net1 net2 \<Longrightarrow> same_slots net net2"
  by (simp add: same_slots_def)

lemma same_slots_update:
  "client_auth_state (f (clients net ! i)) = client_auth_state (clients net ! i) \<Longrightarrow> same_slots net (client_update i f net)"
  by (cases "i < length (clients net)") (auto simp: same_slots_def client_update_def nth_list_update list_update_beyond)

definition slot_step :: "auth_state set \<Rightarrow> nat \<Rightarrow> TF_Net \<Rightarrow> TF_Net \<Rightarrow> bool" where
  "slot_step A i net net' \<longleftrightarrow> net_step A net net' \<and> same_slots net net'"

lemma slot_step_trans: "slot_step A i net net1 \<Longrightarrow> slot_step A i net1 net2 \<Longrightarrow> slot_step A i net net2"
  using net_step_trans same_slots_trans by (auto simp: slot_step_def)

lemma slot_step_update:
  assumes "net_inv net" and "i < clients_used net" and "client_ok (clients net ! i) \<Longrightarrow> client_ok (f (clients net ! i))"
    and "client_id (f (clients net ! i)) = client_id (clients net ! i)"
    and "client_auth_state (f (clients net ! i)) = client_auth_state (clients net ! i)"
    and "client_auth_state (clients net ! i) \<in> A"
  shows "slot_step A i net (client_update i f net)"
  using net_step_update [of net i f A] same_slots_update [of f net i] assms by (simp add: slot_step_def)

text \<open>What a client operation needs, and gets back after a step.\<close>

definition slot_ok :: "auth_state set \<Rightarrow> nat \<Rightarrow> TF_Net \<Rightarrow> bool" where
  "slot_ok A i net \<longleftrightarrow> net_inv net \<and> i < clients_used net \<and> client_auth_state (clients net ! i) \<in> A"

lemma slot_step_ok: "slot_step A i net net' \<Longrightarrow> slot_ok A i net \<Longrightarrow> slot_ok A i net'"
  by (simp add: slot_step_def slot_ok_def same_slots_def net_step_def)

lemma slot_step_refl: "slot_ok A i net \<Longrightarrow> slot_step A i net net"
  by (simp add: slot_step_def slot_ok_def net_step_refl)

lemma send_from_buf_step:
  assumes "sock_ok ops" and "slot_ok A i net" and "send_from_buf ops i net w = (rc, net', w')"
  shows "slot_step A i net net'"
proof -
  let ?c = "clients net ! i"
  obtain written again w1 where se: "sys_send ops (client_fd ?c) (take (send_buf_used ?c) (client_send_buf ?c)) w =
      (written, again, w1)" using prod_cases3 by blast
  have ok: "client_ok ?c" using assms(2) net_invD(3) by (simp add: slot_ok_def)
  have "written \<le> int (length (take (send_buf_used ?c) (client_send_buf ?c)))"
    using assms(1) se unfolding sock_ok_def by blast
  then have le: "nat written \<le> send_buf_used ?c" using ok by (simp add: client_ok_def)
  obtain now w2 where now: "tf_net_current_time_us ops w1 = (now, w2)" by fastforce
  let ?f = "\<lambda>c. c\<lparr>last_send_us := now,
    client_send_buf := write_at 0 (drop (nat written) (client_send_buf c)) (client_send_buf c),
    send_buf_used := send_buf_used c - nat written\<rparr>"
  have "client_ok (?f ?c)" using ok le by (auto simp: client_ok_def)
  then have "slot_step A i net (client_update i ?f net)"
    using assms(2) by (intro slot_step_update) (simp_all add: slot_ok_def)
  then show ?thesis
    using assms(3) slot_step_refl [OF assms(2)] by (auto simp: send_from_buf_def Let_def se now split: if_splits)
qed

lemma make_room_loop_step:
  assumes "sock_ok ops" and "slot_ok A i net" and "make_room_loop fuel ops i len d net w = Some (early, net', w')"
  shows "slot_step A i net net' \<and> (early = None \<longrightarrow> len \<le> 1400 - send_buf_used (clients net' ! i))"
  using assms(2-)
proof (induction fuel arbitrary: net w)
  case (Suc fuel)
  show ?case
  proof (cases "len > 1400 - send_buf_used (clients net ! i)")
    case False
    then show ?thesis using Suc.prems slot_step_refl by auto
  next
    case True
    obtain now w1 where now: "tf_net_current_time_us ops w = (now, w1)" by fastforce
    obtain err net1 w2 where se: "send_from_buf ops i net w1 = (err, net1, w2)" using prod_cases3 by blast
    note s1 = send_from_buf_step [OF assms(1) Suc.prems(1) se]
    have "client_ok (clients net ! i)" using Suc.prems(1) net_invD(3) by (simp add: slot_ok_def)
    then have "slot_step A i net (client_update i (\<lambda>c. c\<lparr>sends_without_progress := sends_without_progress c + 1\<rparr>) net)"
      using Suc.prems(1) by (intro slot_step_update) (simp_all add: slot_ok_def client_ok_def)
    then show ?thesis
      using Suc.prems True now se s1 Suc.IH [OF slot_step_ok [OF s1 Suc.prems(1)], of w2]
      by (auto simp: Let_def split: if_splits intro: slot_step_trans)
  qed
qed simp

lemma add_to_send_buf_step:
  assumes "sock_ok ops" and "slot_ok A i net" and "add_to_send_buf fuel ops i buf len net w = Some (rc, net', w')"
  shows "slot_step A i net net'"
proof -
  obtain now w1 where now: "tf_net_current_time_us ops w = (now, w1)" by fastforce
  obtain early net1 w2 where mk: "make_room_loop fuel ops i (unat len) (now + 10000) net w1 = Some (early, net1, w2)"
    using assms(3) by (cases "make_room_loop fuel ops i (unat len) (now + 10000) net w1")
      (auto simp: add_to_send_buf_def now)
  note s1 = make_room_loop_step [OF assms(1,2) mk]
  have ok1: "slot_ok A i net1" using slot_step_ok s1 assms(2) by blast
  let ?f = "\<lambda>c. c\<lparr>sends_without_progress := 0,
    client_send_buf := write_at (send_buf_used c) (take (unat len) buf) (client_send_buf c),
    send_buf_used := send_buf_used c + unat len\<rparr>"
  have "client_ok (clients net1 ! i)" using ok1 net_invD(3) by (simp add: slot_ok_def)
  then have "client_ok (?f (clients net1 ! i))" if "early = None"
    using s1 that by (auto simp: client_ok_def)
  then have "slot_step A i net1 (client_update i ?f net1)" if "early = None"
    using ok1 that by (intro slot_step_update) (simp_all add: slot_ok_def)
  then show ?thesis
    using assms(3) s1 slot_step_trans by (cases early) (auto simp: add_to_send_buf_def now mk)
qed

lemma unicast_step:
  assumes "sock_ok ops" and "slot_ok A i net" and "unicast fuel ops header buf i net w = Some (net', w')"
  shows "net_step A net net'"
proof -
  obtain rc net1 w1 where add: "add_to_send_buf fuel ops i buf (hdr_length header) net w = Some (rc, net1, w1)"
    using assms(3) by (auto simp: unicast_def split: bind_splits)
  note s1 = add_to_send_buf_step [OF assms(1,2) add]
  note ok1 = slot_step_ok [OF s1 assms(2)]
  obtain rc1 net2 w2 where se: "send_from_buf ops i net1 w1 = (rc1, net2, w2)" using prod_cases3 by blast
  note s2 = slot_step_trans [OF s1 send_from_buf_step [OF assms(1) ok1 se]]
  note ok2 = slot_step_ok [OF s2 assms(2)]
  have rem: "net_step A net (fst (remove_client ops i n v))" if "slot_step A i net n" "slot_ok A i n" for n v
    using that by (intro net_step_trans [OF _ net_step_remove]) (simp_all add: slot_step_def slot_ok_def)
  show ?thesis
    using assms(3) rem [OF s1 ok1, of w1] rem [OF s2 ok2, of w2] s2
    by (auto simp: unicast_def add se slot_step_def split: if_splits)
qed

lemma broadcast_loop_step:
  assumes "sock_ok ops" and "net_inv net"
    and "broadcast_loop n fuel ops header buf i net w = Some (net', w')"
  shows "net_step {AUTH_DISABLED, AUTH_DONE} net net'"
  using assms(2-)
proof (induction n arbitrary: i net w)
  case (Suc n)
  show ?case
  proof (cases "i < clients_used net \<and> authenticated (clients net ! i)")
    case False
    then show ?thesis
      using Suc.prems Suc.IH [OF Suc.prems(1)] net_step_refl by (cases "i < clients_used net") auto
  next
    case True
    let ?A = "{AUTH_DISABLED, AUTH_DONE}"
    have ok: "slot_ok ?A i net" using True Suc.prems(1) by (auto simp: slot_ok_def authenticated_def)
    obtain rc net1 w1 where add: "add_to_send_buf fuel ops i buf (hdr_length header) net w = Some (rc, net1, w1)"
      using Suc.prems(2) True by (auto split: bind_splits)
    note s1 = add_to_send_buf_step [OF assms(1) ok add]
    note ok1 = slot_step_ok [OF s1 ok]
    obtain net2 w2 where rm: "remove_client ops i net1 w1 = (net2, w2)" by fastforce
    have s2: "net_step ?A net net2"
      using net_step_remove [of net1 i ?A ops w1] ok1 s1 net_step_trans
      by (auto simp: rm slot_ok_def slot_step_def)
    show ?thesis
    proof (cases "rc < 0")
      case neg: True
      then have "broadcast_loop n fuel ops header buf i net2 w2 = Some (net', w')"
        using Suc.prems(2) True add rm by simp
      from Suc.IH [OF net_stepD [OF s2] this] show ?thesis by (rule net_step_trans [OF s2])
    next
      case False
      then have "broadcast_loop n fuel ops header buf (i + 1) net1 w1 = Some (net', w')"
        using Suc.prems(2) True add by simp
      from Suc.IH [OF _ this] ok1 s1 show ?thesis
        by (auto simp: slot_ok_def slot_step_def intro: net_step_trans)
    qed
  qed
qed (simp add: net_step_refl)

subsection \<open>Who gets packets from the devices\<close>

lemma find_upt_Some: "List.find P [a..<b] = Some i \<Longrightarrow> a \<le> i \<and> i < b \<and> P i"
  by (auto simp: find_Some_iff)

lemma remove_open_request_frame [simp]:
  "clients (remove_open_request k net) = clients net"
  "clients_used (remove_open_request k net) = clients_used net"
  "auth_secret (remove_open_request k net) = auth_secret net"
  "live (remove_open_request k net) = live net"
  by (simp_all add: remove_open_request_def live_def)

lemma net_step_remove_request: "net_inv net \<Longrightarrow> net_step A net (remove_open_request k net)"
  using remove_open_request_inv by (auto simp: net_step_def)


subsection \<open>Receiving\<close>

lemma read_packets_loop_step:
  assumes "sock_ok ops" and "net_inv net"
  shows "net_step UNIV net (fst (read_packets_loop n ops i net w))"
  using assms(2)
proof (induction n arbitrary: i net w)
  case (Suc n)
  note go = net_step_trans [OF _ Suc.IH]
  show ?case
  proof (cases "i < clients_used net \<and> read_buf_used (clients net ! i) < 80")
    case False
    then show ?thesis
      using Suc.IH [OF Suc.prems] net_invD(3) [OF Suc.prems] net_step_refl [OF Suc.prems]
      by (cases "i < clients_used net") (auto simp: client_ok_def Let_def)
  next
    case True
    let ?c = "clients net ! i"
    obtain r again w1 where rc: "sys_recv ops (client_fd ?c) (80 - read_buf_used ?c) w = (r, again, w1)"
      using prod_cases3 by blast
    obtain net1 w2 where rm: "remove_client ops i net w1 = (net1, w2)" by fastforce
    have s1: "net_step UNIV net net1"
      using net_step_remove [OF Suc.prems, of i, where ops = ops and w = w1 and A = UNIV] True by (simp add: rm)
    obtain now w3 where now: "tf_net_current_time_ms ops w1 = (now, w3)" by fastforce
    have "length bs \<le> 80 - read_buf_used ?c" if "r = Some bs" for bs
      using assms(1) rc that unfolding sock_ok_def by blast
    then have upd: "net_step UNIV net (client_update i (\<lambda>c. c\<lparr>read_buf := write_at (read_buf_used c) bs (read_buf c),
        read_buf_used := to_u8 (read_buf_used c + length bs), last_recv_ms := now\<rparr>) net)" if "r = Some bs" for bs
      using that Suc.prems True by (intro net_step_update) (auto simp: client_ok_def)
    consider "r = None" | "r = Some []" | b bs where "r = Some (b # bs)" by (metis option.exhaust list.exhaust)
    then show ?thesis
    proof cases
      case 3
      then show ?thesis
        using True go [OF upd [OF 3] net_stepD [OF upd [OF 3]], of "i + 1" w3] by (simp add: Let_def rc now)
    qed (use True go [OF s1 net_stepD [OF s1]] Suc.IH [OF Suc.prems] in \<open>auto simp: Let_def rc rm\<close>)
  qed
qed (simp add: net_step_refl)

lemma flush_loop_step:
  assumes "sock_ok ops" and "net_inv net"
  shows "net_step UNIV net (fst (flush_loop n ops i net w))"
  using assms(2)
proof (induction n arbitrary: i net w)
  case (Suc n)
  note go = net_step_trans [OF _ Suc.IH]
  show ?case
  proof (cases "i < clients_used net")
    case True
    obtain now w1 where now: "tf_net_current_time_us ops w = (now, w1)" by fastforce
    obtain rc net1 w2 where se: "send_from_buf ops i net w1 = (rc, net1, w2)" using prod_cases3 by blast
    have "slot_step UNIV i net net1"
      by (rule send_from_buf_step [OF assms(1) _ se]) (use True Suc.prems in \<open>simp add: slot_ok_def\<close>)
    then have s1: "net_step UNIV net net1" "i < clients_used net1"
      using True by (simp_all add: slot_step_def same_slots_def)
    obtain net2 w3 where rm: "remove_client ops i net1 w2 = (net2, w3)" by fastforce
    have s2: "net_step UNIV net net2"
      using net_step_trans [OF s1(1) net_step_remove [OF net_stepD [OF s1(1)] s1(2), where ops = ops and w = w2]]
      by (simp add: rm)
    show ?thesis
      using True Suc.IH [OF Suc.prems] go [OF s1(1) net_stepD [OF s1(1)]] go [OF s2 net_stepD [OF s2]]
      by (simp add: Let_def now se rm)
  qed (simp add: Suc.prems net_step_refl)
qed (simp add: net_step_refl)

lemma accept_connections_inv:
  assumes "net_inv net"
  shows "net_inv (fst (accept_connections ops net w))"
proof -
  have frame: "net_inv (n\<lparr>server_fd := a\<rparr>) = net_inv n" "net_inv (n\<lparr>server_fd6 := a\<rparr>) = net_inv n"
    "net_inv (n\<lparr>next_client_id := b, next_auth_nonce := b'\<rparr>) = net_inv n" for n a b b'
    by (simp_all add: net_inv_def)
  have re: "net_inv (fst (reopen_server_sockets ops net w))"
    using assms by (auto simp: reopen_server_sockets_def Let_def frame split: prod.splits option.splits)
  obtain fd4 net1 w1 where a4: "accept_on4 ops net w = (fd4, net1, w1)" using prod_cases3 by blast
  obtain fd net2 w2 where a6: "accept_on6 ops fd4 net1 w1 = (fd, net2, w2)" using prod_cases3 by blast
  have net1: "net_inv net1" "clients net1 = clients net" "clients_used net1 = clients_used net"
    using a4 assms by (auto simp: accept_on4_def frame split: if_splits prod.splits)
  have net2: "net_inv net2" "clients net2 = clients net" "clients_used net2 = clients_used net"
    using a6 net1 by (auto simp: accept_on6_def frame split: if_splits prod.splits)
  have close: "net_inv (fst (close_server_sockets ops n v)) = net_inv n" for n v
    by (simp add: close_server_sockets_def Let_def frame split: prod.splits)
  let ?new = "\<lambda>a b c d e f c'. c'\<lparr>client_fd := a, client_id := b, last_recv_ms := c, last_send_us := d,
      client_auth_state := e, auth_nonce := f, read_buf := replicate 80 0, read_buf_used := 0,
      client_send_buf := replicate 1400 0, send_buf_used := 0\<rparr>"
  have new: "net_inv ((client_update (clients_used net) (?new a b c d e f)
      (net2\<lparr>next_client_id := g, next_auth_nonce := k\<rparr>))\<lparr>clients_used := m\<rparr>)"
    if "clients_used net < length (clients net)" "m \<le> length (clients net)" for a b c d e f g k m
  proof -
    have "net_inv (client_update (clients_used net) (?new a b c d e f)
        (net2\<lparr>next_client_id := g, next_auth_nonce := k\<rparr>))"
      by (rule client_update_inv) (use that net2 in \<open>simp_all add: frame client_ok_def\<close>)
    then show ?thesis using that net2 by (simp add: net_inv_def client_update_def)
  qed
  show ?thesis
    using net_invD(1) [OF assms] assms net2
    by (auto simp: accept_connections_def Let_def a4 a6 re close split: prod.splits intro!: new)
qed

lemma drop_packet_inv:
  assumes "net_inv net" and "i < length (clients net)"
  shows "net_inv (drop_packet i len net)"
  unfolding drop_packet_def using assms by (intro client_update_inv) (auto simp: client_ok_def Let_def)

subsection \<open>Authentication\<close>

lemma answer_in_place_step:
  assumes "sock_ok ops" and "net_inv net" and "i < clients_used net" and "length payload \<le> 72"
    and "answer_in_place fuel ops header payload i net w = Some (net', w')"
  shows "net_step UNIV net net'"
proof -
  have i: "i < length (clients net)" using assms(3) net_invD(1) [OF assms(2)] by simp
  have wr: "net_step UNIV n (write_read_buf i off bs n) \<and> i < clients_used (write_read_buf i off bs n)"
    if "net_inv n" "i < clients_used n" "off + length bs \<le> 80" for n off bs
    using that unfolding write_read_buf_def by (auto intro!: net_step_update simp: client_ok_def)
  let ?n1 = "write_read_buf i 0 (tf_tfp_header_write header) net"
  let ?n2 = "write_read_buf i 8 payload ?n1"
  have s1: "net_step UNIV net ?n1" "i < clients_used ?n1" using wr [OF assms(2,3)] by simp_all
  have s2: "net_step UNIV ?n1 ?n2" "i < clients_used ?n2"
    using wr [OF net_stepD [OF s1(1)] s1(2), of 8 payload] assms(4) by simp_all
  have "slot_ok UNIV i ?n2" using net_stepD [OF s2(1)] s2(2) by (simp add: slot_ok_def)
  from unicast_step [OF assms(1) this] assms(5) have "net_step UNIV ?n2 net'"
    by (simp add: answer_in_place_def Let_def)
  then show ?thesis using net_step_trans [OF net_step_trans [OF s1(1) s2(1)]] by blast
qed

text \<open>The client has proved that it knows the secret: its packet holds the HMAC of both nonces.\<close>

definition proves_secret :: "'w sock_ops \<Rightarrow> TF_Net \<Rightarrow> nat \<Rightarrow> bool" where
  "proves_secret ops net i \<longleftrightarrow> client_auth_state (clients net ! i) = AUTH_NONCE_SENT \<and>
     (\<exists>secret digest. auth_secret net = Some secret \<and>
        sys_hmac_sha1 ops secret (le_bytes 4 (auth_nonce (clients net ! i)) @ take 4 (drop 8 (read_buf (clients net ! i)))) = Some digest \<and>
        take 20 (drop 12 (read_buf (clients net ! i))) = take 20 digest)"

text \<open>What one client may have become after its packet for the server was handled.\<close>

definition brickd_step :: "'w sock_ops \<Rightarrow> nat \<Rightarrow> TF_Net \<Rightarrow> TF_Net \<Rightarrow> bool" where
  "brickd_step ops i net net' \<longleftrightarrow> net_inv net' \<and> length (clients net') = length (clients net) \<and>
     auth_secret net' = auth_secret net \<and>
     (\<forall>c' \<in> set (live net'). client_auth_state c' = AUTH_DONE \<longrightarrow>
        (\<exists>c \<in> set (live net). client_id c' = client_id c \<and>
           (client_auth_state c = AUTH_DONE \<or> (c = clients net ! i \<and> proves_secret ops net i))))"

lemma brickd_step_net: "net_step A net net' \<Longrightarrow> brickd_step ops i net net'"
  unfolding brickd_step_def net_step_def by metis

lemma brickd_step_auth:
  assumes "net_inv net" and "i < clients_used net" and "s = AUTH_DONE \<Longrightarrow> proves_secret ops net i"
    and "net_step A (client_update i (\<lambda>c. c\<lparr>client_auth_state := s\<rparr>) net) net'"
  shows "brickd_step ops i net net'"
proof -
  let ?n = "client_update i (\<lambda>c. c\<lparr>client_auth_state := s\<rparr>) net"
  have mem: "clients net ! i \<in> set (live net)" using assms(1,2) nth_mem [of i "live net"] by simp
  have sub: "set (live ?n) \<subseteq> insert ((clients net ! i)\<lparr>client_auth_state := s\<rparr>) (set (live net))"
    by (simp add: live_client_update [OF assms(2)] set_update_subset_insert)
  have "\<exists>c \<in> set (live net). client_id c' = client_id c \<and>
      (client_auth_state c = AUTH_DONE \<or> (c = clients net ! i \<and> proves_secret ops net i))"
    if "c' \<in> set (live ?n)" "client_auth_state c' = AUTH_DONE" for c'
  proof (cases "c' \<in> set (live net)")
    case False
    then have "c' = (clients net ! i)\<lparr>client_auth_state := s\<rparr>" using that(1) sub by blast
    then show ?thesis using mem assms(3) that(2) by auto
  qed (use that in blast)
  moreover have "length (clients ?n) = length (clients net)" "auth_secret ?n = auth_secret net" by simp_all
  ultimately show ?thesis using assms(4) unfolding brickd_step_def net_step_def by metis
qed

lemma auth_update_inv:
  "net_inv net \<Longrightarrow> i < clients_used net \<Longrightarrow> net_inv (client_update i (\<lambda>c. c\<lparr>client_auth_state := s\<rparr>) net)"
  using net_invD(1) [of net] by (intro client_update_inv) (auto simp: client_ok_def)

lemma auth_answer_step:
  fixes s :: auth_state
  assumes "sock_ok ops" and "net_inv net" and "i < clients_used net" and "length payload \<le> 72"
  defines "net1 \<equiv> client_update i (\<lambda>c. c\<lparr>client_auth_state := s\<rparr>) net"
  assumes "n = net1 \<or> answer_in_place fuel ops header payload i net1 w = Some (n, w')"
  shows "net_step UNIV net1 n"
  using assms(6)
proof
  have inv: "net_inv net1" "i < clients_used net1"
    using auth_update_inv [OF assms(2,3)] assms(3) by (simp_all add: net1_def)
  show "net_step UNIV net1 n" if "n = net1" using net_step_refl [OF inv(1)] that by simp
  show "net_step UNIV net1 n" if "answer_in_place fuel ops header payload i net1 w = Some (n, w')"
    by (rule answer_in_place_step [OF assms(1) inv assms(4) that])
qed

lemma nonce_request_step:
  assumes "sock_ok ops" and "net_inv net" and "i < clients_used net"
    and run: "handle_get_authentication_nonce_request fuel ops i header net w = Some (net', w')"
  shows "brickd_step ops i net net'"
proof -
  let ?set = "\<lambda>s. client_update i (\<lambda>c. c\<lparr>client_auth_state := s\<rparr>)"
  have i: "i < length (clients net)" using assms(3) net_invD(1) [OF assms(2)] by simp
  have again: "?set AUTH_NONCE_SENT (?set AUTH_ENABLED net) = ?set AUTH_NONCE_SENT net"
    using i by (simp add: client_update_def)
  have rem: "brickd_step ops i net (fst (remove_client ops i net w))"
    by (rule brickd_step_net [OF net_step_remove [OF assms(2,3)]])
  have sent: "brickd_step ops i net n" if "n = ?set AUTH_NONCE_SENT net \<or>
      answer_in_place fuel ops hd (le_bytes 4 (auth_nonce (clients (?set AUTH_NONCE_SENT net) ! i))) i
        (?set AUTH_NONCE_SENT net) w = Some (n, v)" for n v hd
  proof (rule brickd_step_auth [OF assms(2,3)])
    show "net_step UNIV (?set AUTH_NONCE_SENT net) n" by (rule auth_answer_step [OF assms(1-3) _ that]) simp
  qed simp
  consider "client_auth_state (clients net ! i) = AUTH_DISABLED" | "client_auth_state (clients net ! i) = AUTH_NONCE_SENT"
    | "client_auth_state (clients net ! i) = AUTH_DONE" | "client_auth_state (clients net ! i) = AUTH_ENABLED"
    by (cases "client_auth_state (clients net ! i)") auto
  then show ?thesis
  proof cases
    case 3
    then show ?thesis
      using run i sent by (auto simp: handle_get_authentication_nonce_request_def Let_def again split: if_splits)
  next
    case 4
    then show ?thesis
      using run sent by (auto simp: handle_get_authentication_nonce_request_def Let_def split: if_splits)
  qed (use run rem in \<open>auto simp: handle_get_authentication_nonce_request_def Let_def\<close>)
qed

lemma authenticate_request_step:
  assumes "sock_ok ops" and "net_inv net" and "i < clients_used net"
    and run: "handle_authenticate_request fuel ops i header net w = Some (net', w')"
  shows "brickd_step ops i net net'"
proof -
  let ?done = "client_update i (\<lambda>c. c\<lparr>client_auth_state := AUTH_DONE\<rparr>) net"
  have rem: "brickd_step ops i net (fst (remove_client ops i net w))"
    by (rule brickd_step_net [OF net_step_remove [OF assms(2,3)]])
  have ok: "brickd_step ops i net n"
    if "proves_secret ops net i" "n = ?done \<or> answer_in_place fuel ops hd [] i ?done w = Some (n, v)" for n v hd
  proof (rule brickd_step_auth [OF assms(2,3) that(1)])
    show "net_step UNIV ?done n" by (rule auth_answer_step [OF assms(1-3) _ that(2)]) simp
  qed
  show ?thesis
    using run rem
    by (auto simp: handle_authenticate_request_def Let_def split: if_splits option.splits
      intro!: ok exI simp: proves_secret_def)
qed

lemma handle_brickd_packet_step:
  assumes "sock_ok ops" and "net_inv net" and "i < clients_used net"
    and run: "handle_brickd_packet fuel ops i header net w = Some (net', w')"
  shows "brickd_step ops i net net'"
proof -
  have rem: "brickd_step ops i net (fst (remove_client ops i net w))"
    by (rule brickd_step_net [OF net_step_remove [OF assms(2,3)]])
  have other: "brickd_step ops i net net'" if "answer_in_place fuel ops hd [] i net w = Some (net', w')" for hd
    by (rule brickd_step_net [OF answer_in_place_step [OF assms(1-3) _ that]]) simp
  show ?thesis
    using run rem other nonce_request_step [OF assms(1-3)] authenticate_request_step [OF assms(1-3)]
    by (auto simp: handle_brickd_packet_def split: if_splits)
qed

text \<open>
  Claim C20. A client becomes authenticated only by proving that it knows the secret: after a packet
  for the server itself was handled, every authenticated client was authenticated before, or is the
  sender of the packet, had been sent a nonce, and its packet holds the HMAC of the server's and its
  own nonce under the configured secret.
\<close>

theorem authentication_needs_hmac:
  assumes "sock_ok ops" and "net_inv net" and "i < clients_used net"
    and "handle_brickd_packet fuel ops i header net w = Some (net', w')"
    and "c' \<in> set (live net')" and "client_auth_state c' = AUTH_DONE"
  shows "\<exists>c \<in> set (live net). client_id c' = client_id c \<and> (client_auth_state c = AUTH_DONE \<or>
    (c = clients net ! i \<and> client_auth_state c = AUTH_NONCE_SENT \<and> (\<exists>secret digest. auth_secret net = Some secret \<and>
       sys_hmac_sha1 ops secret (le_bytes 4 (auth_nonce c) @ take 4 (drop 8 (read_buf c))) = Some digest \<and>
       take 20 (drop 12 (read_buf c)) = take 20 digest)))"
  using handle_brickd_packet_step [OF assms(1-4)] assms(5,6) unfolding brickd_step_def proves_secret_def by metis

subsection \<open>The tick keeps all bounds and ends\<close>

text \<open>Without a secret nobody has to authenticate.\<close>

definition secret_inv :: "TF_Net \<Rightarrow> bool" where
  "secret_inv net \<longleftrightarrow> (auth_secret net = None \<longrightarrow> (\<forall>c \<in> set (live net). client_auth_state c = AUTH_DISABLED))"

lemma secret_inv_step: "net_step A net net' \<Longrightarrow> secret_inv net \<Longrightarrow> secret_inv net'"
  unfolding net_step_def secret_inv_def by metis

lemma secret_inv_brickd:
  assumes "sock_ok ops" and "net_inv net" and "i < clients_used net" and "secret_inv net"
    and run: "handle_brickd_packet fuel ops i header net w = Some (net', w')"
  shows "secret_inv net'"
proof (cases "auth_secret net")
  case None
  then have "client_auth_state (clients net ! i) = AUTH_DISABLED"
    using assms(2-4) nth_mem [of i "live net"] by (simp add: secret_inv_def)
  then have "net' = fst (remove_client ops i net w) \<or>
      (\<exists>hd. answer_in_place fuel ops hd [] i net w = Some (net', w'))"
    using run by (auto simp: handle_brickd_packet_def handle_get_authentication_nonce_request_def
      handle_authenticate_request_def Let_def split: if_splits)
  then have "net_step UNIV net net'"
    using net_step_remove [OF assms(2,3)] answer_in_place_step [OF assms(1-3), of "[]"] by auto
  then show ?thesis by (rule secret_inv_step [OF _ assms(4)])
next
  case (Some secret)
  then show ?thesis
    using handle_brickd_packet_step [OF assms(1-3) run] by (simp add: brickd_step_def secret_inv_def)
qed

lemma drop_packet_step:
  assumes "net_inv net" and "i < length (clients net)" and "secret_inv net"
  shows "net_inv (drop_packet i len net)" and "secret_inv (drop_packet i len net)"
proof -
  show "net_inv (drop_packet i len net)" by (rule drop_packet_inv [OF assms(1,2)])
  have "map client_auth_state (clients (drop_packet i len net)) = map client_auth_state (clients net)"
    using assms(2) by (simp add: drop_packet_def client_update_def map_update Let_def
      list_update_id [of "map client_auth_state (clients net)" i, simplified nth_map [OF assms(2)]])
  then have "map client_auth_state (live (drop_packet i len net)) = map client_auth_state (live net)"
    by (simp add: live_def drop_packet_def flip: take_map)
  then have "client_auth_state ` set (live (drop_packet i len net)) = client_auth_state ` set (live net)"
    by (metis list.set_map)
  then show "secret_inv (drop_packet i len net)"
    using assms(3) by (auto simp: secret_inv_def drop_packet_def)
qed

lemma reassemble_loop_inv:
  assumes "sock_ok ops" and "net_inv net" and "secret_inv net"
    and "reassemble_loop n fuel ops i net w = Some (net', w')"
  shows "net_inv net' \<and> secret_inv net'"
  using assms(2-)
proof (induction n arbitrary: i net w)
  case (Suc n)
  let ?c = "clients net ! i"
  obtain valid header where pk: "tf_tfp_header_peek_plain (read_buf ?c) = (valid, header)" by fastforce
  let ?skip = "\<not> i < clients_used net \<or> available_packet_valid ?c \<or> read_buf_used ?c < 8"
  show ?case
  proof (cases ?skip)
    case True
    then show ?thesis
      using Suc.prems Suc.IH [OF Suc.prems(1,2)] by (auto simp: Let_def split: if_splits)
  next
    case False
    then have i: "i < clients_used net" "i < length (clients net)" using net_invD(1) [OF Suc.prems(1)] by simp_all
    obtain net1 w1 where rm: "remove_client ops i net w = (net1, w1)" by fastforce
    have s1: "net_step UNIV net net1"
      using net_step_remove [OF Suc.prems(1) i(1), where ops = ops and w = w and A = UNIV] by (simp add: rm)
    note inv1 = net_stepD [OF s1] secret_inv_step [OF s1 Suc.prems(2)]
    note inv2 = drop_packet_step [OF Suc.prems(1) i(2) Suc.prems(2), of "unat (hdr_length header)"]
    let ?n3 = "client_update i (\<lambda>c. c\<lparr>available_packet := header, available_packet_valid := True\<rparr>) net"
    have valid: "valid = header_is_valid header" using pk by (auto simp: tf_tfp_header_peek_plain_def Let_def)
    have s3: "net_step UNIV net ?n3" if valid
      using that valid i by (intro net_step_update Suc.prems(1)) (auto simp: client_ok_def)
    have inv3: "net_inv ?n3" "secret_inv ?n3" if valid
      using net_stepD [OF s3 [OF that]] secret_inv_step [OF s3 [OF that] Suc.prems(2)] by simp_all
    consider "\<not> valid \<or> hdr_fid header = 0" | "valid" "hdr_fid header \<noteq> 0" "read_buf_used ?c < unat (hdr_length header)"
      | (brickd) "valid" "hdr_fid header \<noteq> 0" "\<not> read_buf_used ?c < unat (hdr_length header)" "hdr_uid_num header = 1"
      | "valid" "hdr_fid header \<noteq> 0" "\<not> read_buf_used ?c < unat (hdr_length header)" "hdr_uid_num header \<noteq> 1" by blast
    then show ?thesis
    proof cases
      case brickd
      obtain net2 w2 where hb: "handle_brickd_packet fuel ops i header net w = Some (net2, w2)"
        and rec: "reassemble_loop n fuel ops (i + 1) (drop_packet i (unat (hdr_length header)) net2) w2 = Some (net', w')"
        using Suc.prems(3) False i brickd by (auto simp: Let_def pk split: bind_splits)
      have "net_inv net2" "i < length (clients net2)" "secret_inv net2"
        using handle_brickd_packet_step [OF assms(1) Suc.prems(1) i(1) hb] i
          secret_inv_brickd [OF assms(1) Suc.prems(1) i(1) Suc.prems(2) hb] by (simp_all add: brickd_step_def)
      from Suc.IH [OF drop_packet_step [OF this] rec] show ?thesis .
    qed (use Suc.prems False i pk rm Suc.IH [OF Suc.prems(1,2)] Suc.IH [OF inv1] Suc.IH [OF inv2] Suc.IH [OF inv3] in
      \<open>auto simp: Let_def split: if_splits\<close>)
  qed
qed simp

lemma available_header_valid:
  assumes "net_inv net" and "tf_net_get_available_tfp_header net p = Some (header, pid)"
  shows "header_is_valid header \<and> 0 \<le> pid \<and> nat pid < clients_used net"
proof -
  obtain k where k: "List.find (\<lambda>i. available_packet_valid (clients net ! i)) [nat (p + 1)..<clients_used net] = Some k"
    and eq: "header = available_packet (clients net ! k)" "pid = int k"
    using assms(2) by (auto simp: tf_net_get_available_tfp_header_def)
  have "k < clients_used net" "available_packet_valid (clients net ! k)" using find_upt_Some [OF k] by simp_all
  then show ?thesis using net_invD(3) [OF assms(1)] by (simp add: client_ok_def eq)
qed

text \<open>
  The timer advances with every call, and no call takes more than \<open>2\<^sup>2\<^sup>8\<close> microseconds.
\<close>

definition net_clock :: "'w sock_ops \<Rightarrow> ('w \<Rightarrow> nat) \<Rightarrow> bool" where
  "net_clock ops clk \<longleftrightarrow>
     (\<forall>w t w'. sys_time_us ops w = (t, w') \<longrightarrow> clk w < clk w' \<and> clk w' \<le> clk w + 2 ^ 28 \<and> t = clk w') \<and>
     (\<forall>fd bs w r again w'. sys_send ops fd bs w = (r, again, w') \<longrightarrow> clk w \<le> clk w' \<and> clk w' \<le> clk w + 2 ^ 28)"

lemma net_time:
  assumes "net_clock ops clk" and "tf_net_current_time_us ops w = (now, w')"
  shows "now = of_nat (clk w')" and "clk w < clk w'" and "clk w' \<le> clk w + 2 ^ 28"
proof -
  obtain t where "sys_time_us ops w = (t, w')" "now = of_nat t"
    using assms(2) by (auto simp: tf_net_current_time_us_def split: prod.splits)
  then show "now = of_nat (clk w')" "clk w < clk w'" "clk w' \<le> clk w + 2 ^ 28"
    using assms(1) unfolding net_clock_def by blast+
qed

lemma send_from_buf_time:
  assumes "net_clock ops clk" and "send_from_buf ops i net w = (rc, net', w')"
  shows "clk w \<le> clk w' \<and> clk w' \<le> clk w + 2 ^ 29"
proof -
  let ?c = "clients net ! i"
  obtain r again w1 where se: "sys_send ops (client_fd ?c) (take (send_buf_used ?c) (client_send_buf ?c)) w = (r, again, w1)"
    using prod_cases3 by blast
  have b: "clk w \<le> clk w1 \<and> clk w1 \<le> clk w + 2 ^ 28" using assms(1) se unfolding net_clock_def by blast
  obtain now w2 where now: "tf_net_current_time_us ops w1 = (now, w2)" by fastforce
  show ?thesis
    using assms(2) b net_time(2,3) [OF assms(1) now]
    by (auto simp: send_from_buf_def Let_def se now split: if_splits)
qed

lemma make_room_loop_ends:
  assumes "net_clock ops clk" and "clk w \<le> d + 2 ^ 30" and "d - clk w < fuel"
  shows "make_room_loop fuel ops i len (of_nat d) net w \<noteq> None"
  using assms(2,3)
proof (induction fuel arbitrary: net w)
  case (Suc fuel)
  obtain now w1 where now: "tf_net_current_time_us ops w = (now, w1)" by fastforce
  note t = net_time [OF assms(1) now]
  obtain err net1 w2 where se: "send_from_buf ops i net w1 = (err, net1, w2)" using prod_cases3 by blast
  note t2 = send_from_buf_time [OF assms(1) se]
  show ?case
  proof (cases "d \<le> clk w1")
    case True
    have "deadline_elapsed now (of_nat d)"
      using deadline_passed_late [OF True] t Suc.prems(1) by (simp add: deadline_elapsed_def deadline_passed_def)
    then show ?thesis by (simp add: now Let_def)
  next
    case False
    have "make_room_loop fuel ops i len (of_nat d) net1 w2 \<noteq> None"
      by (rule Suc.IH) (use t t2 False Suc.prems in auto)
    then show ?thesis by (auto simp: now se Let_def)
  qed
qed simp

lemma add_to_send_buf_ends:
  assumes "net_clock ops clk" and "10000 < fuel"
  obtains rc net' w' where "add_to_send_buf fuel ops i buf len net w = Some (rc, net', w')"
proof -
  obtain now w1 where now: "tf_net_current_time_us ops w = (now, w1)" by fastforce
  have d: "now + 10000 = of_nat (clk w1 + 10000)" using net_time(1) [OF assms(1) now] by simp
  have "make_room_loop fuel ops i (unat len) (now + 10000) net w1 \<noteq> None"
    unfolding d by (rule make_room_loop_ends [OF assms(1)]) (use assms(2) in auto)
  then obtain early net1 w2 where "make_room_loop fuel ops i (unat len) (now + 10000) net w1 = Some (early, net1, w2)"
    by auto
  then show ?thesis using that by (cases early) (simp_all add: add_to_send_buf_def now)
qed

lemma unicast_ends:
  assumes "net_clock ops clk" and "10000 < fuel"
  shows "\<exists>net' w'. unicast fuel ops header buf i net w = Some (net', w')"
proof -
  obtain rc net1 w1 where "add_to_send_buf fuel ops i buf (hdr_length header) net w = Some (rc, net1, w1)"
    by (rule add_to_send_buf_ends [OF assms])
  then show ?thesis by (cases "remove_client ops i net1 w1") (auto simp: unicast_def split: prod.splits)
qed

lemma broadcast_loop_ends:
  assumes "net_clock ops clk" and "10000 < fuel"
  shows "\<exists>net' w'. broadcast_loop n fuel ops header buf i net w = Some (net', w')"
proof (induction n arbitrary: i net w)
  case (Suc n)
  obtain rc net1 w1 where "add_to_send_buf fuel ops i buf (hdr_length header) net w = Some (rc, net1, w1)"
    by (rule add_to_send_buf_ends [OF assms])
  then show ?case using Suc.IH by (auto split: prod.splits)
qed simp

lemma handle_brickd_ends:
  assumes "net_clock ops clk" and "10000 < fuel" and "net_inv net" and "i < clients_used net" and "secret_inv net"
  shows "\<exists>net' w'. handle_brickd_packet fuel ops i header net w = Some (net', w')"
proof -
  have ans: "\<exists>net' w'. answer_in_place fuel ops hd p i n w = Some (net', w')" for hd p n
    using unicast_ends [OF assms(1,2)] by (simp add: answer_in_place_def Let_def)
  have secret: "auth_secret net \<noteq> None" if "client_auth_state (clients net ! i) = AUTH_NONCE_SENT"
    using assms(3-5) nth_mem [of i "live net"] that by (auto simp: secret_inv_def)
  show ?thesis
    using ans secret by (auto simp: handle_brickd_packet_def handle_get_authentication_nonce_request_def
      handle_authenticate_request_def Let_def split: option.splits)
qed

lemma reassemble_loop_ends:
  assumes "sock_ok ops" and "net_clock ops clk" and "10000 < fuel" and "net_inv net" and "secret_inv net"
  shows "\<exists>net' w'. reassemble_loop n fuel ops i net w = Some (net', w')"
  using assms(4,5)
proof (induction n arbitrary: i net w)
  case (Suc n)
  let ?c = "clients net ! i" and ?one = "reassemble_loop (Suc 0) fuel ops i net w"
  text \<open>One round first: it ends, and the invariant it keeps lets the rest end.\<close>
  have round: "reassemble_loop (Suc n) fuel ops i net w =
      (if i < clients_used net then do { (net1, w1) \<leftarrow> ?one; reassemble_loop n fuel ops (i + 1) net1 w1 }
       else Some (net, w))"
    by (auto simp: Let_def split: prod.splits bind_splits)
  show ?case
  proof (cases "i < clients_used net")
    case True
    obtain net2 w2 where "handle_brickd_packet fuel ops i (snd (tf_tfp_header_peek_plain (read_buf ?c))) net w = Some (net2, w2)"
      using handle_brickd_ends [OF assms(2,3) Suc.prems(1) True Suc.prems(2)] by blast
    then have "?one \<noteq> None"
      by (cases "tf_tfp_header_peek_plain (read_buf ?c)") (auto simp: Let_def split: prod.splits)
    then obtain net1 w1 where one: "?one = Some (net1, w1)" by (metis not_Some_eq surj_pair)
    from reassemble_loop_inv [OF assms(1) Suc.prems one] show ?thesis
      using Suc.IH [of net1 "i + 1" w1] round one True by (simp del: reassemble_loop.simps)
  qed (simp add: round del: reassemble_loop.simps)
qed simp

text \<open>
  Claim C4. A tick of the server always ends, given a running clock: sending to a client that does not
  read gives up after ten milliseconds. No buffer is overrun, whatever the clients send, and every
  packet that is announced to the HAL has a valid header and belongs to a connected client; reading or
  dropping it keeps the invariant.
\<close>

theorem net_tick_ends_in_bounds:
  assumes "sock_ok ops" and "net_clock ops clk" and "10000 < fuel" and "net_inv net" and "secret_inv net"
  shows "\<exists>net' w'. tf_net_tick fuel ops net w = Some (net', w') \<and> net_inv net' \<and>
    (\<forall>p header pid. tf_net_get_available_tfp_header net' p = Some (header, pid) \<longrightarrow>
       8 \<le> unat (hdr_length header) \<and> unat (hdr_length header) \<le> 80 \<and> 0 \<le> pid \<and> nat pid < clients_used net' \<and>
       net_inv (snd (snd (tf_net_get_packet (nat pid) net'))) \<and> net_inv (snd (tf_net_drop_packet (nat pid) net')))"
proof -
  obtain net1 w1 where fl: "flush_send_buffers ops net w = (net1, w1)" by fastforce
  obtain net2 w2 where rd: "read_packets ops net1 w1 = (net2, w2)" by fastforce
  have s1: "net_step UNIV net net1"
    using flush_loop_step [OF assms(1,4), of "clients_used net" 0 w] fl by (simp add: flush_send_buffers_def)
  have s2: "net_step UNIV net net2"
    using net_step_trans [OF s1 read_packets_loop_step [OF assms(1) net_stepD [OF s1], of "clients_used net1" 0 w1]] rd
    by (simp add: read_packets_def)
  note inv2 = net_stepD [OF s2] secret_inv_step [OF s2 assms(5)]
  obtain net3 w3 where re: "reassemble_packets fuel ops net2 w2 = Some (net3, w3)"
    using reassemble_loop_ends [OF assms(1-3) inv2] unfolding reassemble_packets_def by blast
  have inv3: "net_inv net3" using reassemble_loop_inv [OF assms(1) inv2] re by (simp add: reassemble_packets_def)
  obtain net' w' where ac: "accept_connections ops net3 w3 = (net', w')" by fastforce
  have inv': "net_inv net'" using accept_connections_inv [OF inv3, of ops w3] by (simp add: ac)
  have after: "net_inv (snd (snd (tf_net_get_packet k net')))" "net_inv (snd (tf_net_drop_packet k net'))"
    if "k < clients_used net'" for k
    using that inv' net_invD(1) [OF inv'] add_open_request_inv [OF inv'] drop_packet_inv [OF inv', of k]
    by (simp_all add: tf_net_get_packet_def tf_net_drop_packet_def Let_def)
  have run: "tf_net_tick fuel ops net w = Some (net', w')" by (simp add: tf_net_tick_def fl rd re ac)
  show ?thesis
    using run inv' available_header_valid [OF inv'] after
    by (intro exI [of _ net'] exI [of _ w']) (fastforce simp: header_is_valid_def split: if_splits)
qed

end
