(* ===== verification/Net_Lifecycle.thy ===== *)
theory Net_Lifecycle
  imports Net_Clients
begin

unbundle bit_operations_syntax

section \<open>The TCP server: connecting and removing clients\<close>

text \<open>
  A slot of the client array is reused without clearing all of it, a client may be removed while its
  packet is still being handled, and the loop over the clients does not expect them to move. These are
  the consequences, as theorems on the functions of \<^verbatim>\<open>net_arduino_esp32.cpp\<close>; the instances of the earlier
  theorems on a concrete server are here, too.
\<close>

subsection \<open>A concrete server\<close>

text \<open>Nothing to receive, everything is sent at once, and every new connection is accepted.\<close>

definition quiet_sock :: "nat sock_ops" where
  "quiet_sock = \<lparr>sys_socket = \<lambda>v6 w. (3, w), sys_setsockopt = \<lambda>fd opt w. (0, w), sys_getfl = \<lambda>fd w. (0, w),
     sys_setfl_nonblock = \<lambda>fd fl w. (0, w), sys_bind = \<lambda>fd a w. (0, w), sys_listen = \<lambda>fd n w. (0, w),
     sys_accept = \<lambda>fd w. (5, False, w), sys_recv = \<lambda>fd n w. (None, True, w),
     sys_send = \<lambda>fd bs w. (int (length bs), False, w), sys_close = \<lambda>fd w. w, sys_time_us = \<lambda>w. (Suc w, Suc w),
     sys_random = \<lambda>w. (7, w), sys_hmac_sha1 = \<lambda>k bs. Some (replicate 20 0),
     sys_ipaddr_aton = \<lambda>s. None, sys_ip6addr_aton = \<lambda>s. None\<rparr>"

lemma quiet_sock_ok: "sock_ok quiet_sock" "net_clock quiet_sock id"
  by (simp_all add: sock_ok_def net_clock_def quiet_sock_def)

text \<open>A server with a secret, with room for two more clients than are connected.\<close>

definition server_with :: "TF_NetClient list \<Rightarrow> TF_Net" where
  "server_with cs = \<lparr>clients = cs @ [zero_client, zero_client], clients_used = length cs, server_fd = 3, server_fd6 = -1,
     open_requests = [], send_buf_timeout_us = 20000, recv_timeout_ms = 60000, auth_secret = Some [1, 2],
     next_auth_nonce = 9, listen_addr = \<lparr>sin_ipv6 = False, sin_port = htons 4223, sin_addr = 0\<rparr>,
     listen_addr6 = None, next_client_id = 2\<rparr>"

lemma zero_client_ok: "client_ok zero_client"
  by (simp add: client_ok_def zero_client_def)

lemma server_with_inv: "\<forall>c \<in> set cs. client_ok c \<Longrightarrow> net_inv (server_with cs)"
  by (auto simp: net_inv_def server_with_def zero_client_ok)

lemma server_with_secret: "secret_inv (server_with cs)"
  by (simp add: secret_inv_def server_with_def)

lemma server_with_live [simp]: "live (server_with cs) = cs"
  by (simp add: live_def server_with_def)

lemma server_with_simps [simp]:
  "clients_used (server_with cs) = length cs" "i < length cs \<Longrightarrow> clients (server_with cs) ! i = cs ! i"
  "length (clients (server_with cs)) = length cs + 2" "auth_secret (server_with cs) = Some [1, 2]"
  "open_requests (server_with cs) = []"
  by (simp_all add: server_with_def nth_append)

text \<open>A client that is in the given authentication state and has sent the given bytes.\<close>

definition client_with :: "u32 \<Rightarrow> auth_state \<Rightarrow> byte list \<Rightarrow> TF_NetClient" where
  "client_with k s bs = zero_client\<lparr>client_id := k, client_auth_state := s,
     read_buf := bs @ replicate (80 - length bs) 0, read_buf_used := length bs\<rparr>"

lemma client_with_ok: "length bs \<le> 80 \<Longrightarrow> client_ok (client_with k s bs)"
  by (simp add: client_ok_def client_with_def zero_client_def)

lemma client_with_simps [simp]:
  "client_id (client_with k s bs) = k" "client_auth_state (client_with k s bs) = s"
  "read_buf (client_with k s bs) = bs @ replicate (80 - length bs) 0" "read_buf_used (client_with k s bs) = length bs"
  "available_packet_valid (client_with k s bs) = False" "auth_nonce (client_with k s bs) = 0"
  by (simp_all add: client_with_def zero_client_def)


theorem net_tick_ends_in_bounds_witness:
  "\<exists>net' w'. tf_net_tick 20000 quiet_sock (server_with [client_with 1 AUTH_ENABLED [1, 2, 3]]) 0 = Some (net', w') \<and>
    net_inv net'"
proof -
  have "net_inv (server_with [client_with 1 AUTH_ENABLED [1, 2, 3]])"
    by (rule server_with_inv) (simp add: client_with_ok)
  from net_tick_ends_in_bounds [OF quiet_sock_ok _ this server_with_secret, of 20000 0] show ?thesis by auto
qed

theorem authentication_needs_hmac_witness:
  "\<exists>net' w'. handle_brickd_packet 5 quiet_sock 0 (decode_header [1, 0, 0, 0, 32, 2, 0x10, 0])
      (server_with [client_with 1 AUTH_NONCE_SENT ([1, 0, 0, 0, 32, 2, 0x10, 0] @ replicate 24 0)]) 0 = Some (net', w') \<and>
    (\<exists>c' \<in> set (live net'). client_auth_state c' = AUTH_DONE) \<and>
    (\<exists>digest. sys_hmac_sha1 quiet_sock [1, 2] (le_bytes 4 (0 :: u32) @ replicate 4 0) = Some digest \<and>
       take 20 digest = replicate 20 0)"
proof -
  let ?c = "client_with 1 AUTH_NONCE_SENT ([1, 0, 0, 0, 32, 2, 0x10, 0] @ replicate 24 0)"
  let ?net = "server_with [?c]"
  let ?net' = "client_update 0 (\<lambda>c. c\<lparr>client_auth_state := AUTH_DONE\<rparr>) ?net"
  have dec: "decode_header [1, 0, 0, 0, 32, 2, 0x10, 0] = \<lparr>hdr_uid_num = 1, hdr_length = 32, hdr_fid = 2, hdr_seq_num = 1,
     hdr_response_expected = False, hdr_options = 0, hdr_error_code = 0, hdr_flags = 0\<rparr>" by code_simp
  have inv: "net_inv ?net" by (rule server_with_inv) (simp add: client_with_ok)
  have hm: "sys_hmac_sha1 quiet_sock k m = Some (replicate 20 0)" for k m by (simp add: quiet_sock_def)
  have run: "handle_brickd_packet 5 quiet_sock 0 (decode_header [1, 0, 0, 0, 32, 2, 0x10, 0]) ?net 0 = Some (?net', 0)"
    by (simp add: handle_brickd_packet_def handle_authenticate_request_def dec Let_def hm)
  let ?c' = "?c\<lparr>client_auth_state := AUTH_DONE\<rparr>"
  have live: "live ?net' = [?c']" by (simp add: live_client_update)
  have mem: "?c' \<in> set (live ?net')" unfolding live by simp
  have "\<exists>c \<in> set (live ?net). client_id ?c' = client_id c \<and> (client_auth_state c = AUTH_DONE \<or>
    (c = clients ?net ! 0 \<and> client_auth_state c = AUTH_NONCE_SENT \<and> (\<exists>secret digest. auth_secret ?net = Some secret \<and>
       sys_hmac_sha1 quiet_sock secret (le_bytes 4 (auth_nonce c) @ take 4 (drop 8 (read_buf c))) = Some digest \<and>
       take 20 (drop 12 (read_buf c)) = take 20 digest)))"
    by (rule authentication_needs_hmac [OF quiet_sock_ok(1) inv _ run mem]) simp_all
  then have "\<exists>digest. sys_hmac_sha1 quiet_sock [1, 2] (le_bytes 4 (0 :: u32) @ replicate 4 0) = Some digest \<and>
       take 20 digest = replicate 20 0" by (auto simp: hm)
  moreover have "\<exists>c' \<in> set (live ?net'). client_auth_state c' = AUTH_DONE" using mem by (intro bexI [of _ ?c']) simp_all
  ultimately show ?thesis using run by blast
qed

subsection \<open>A packet outlives its client\<close>

lemma remove_last_client:
  fixes ops :: "'w sock_ops" and w :: 'w
  assumes "net_inv net" and "0 < clients_used net"
  defines "used \<equiv> clients_used net - 1"
  defines "net1 \<equiv> fst (remove_client ops used net w)"
  shows "clients_used net1 = used" and "\<forall>k < used. clients net1 ! k = clients net ! k"
    and "available_packet_valid (clients net1 ! used) = available_packet_valid (clients net ! used)"
    and "available_packet (clients net1 ! used) = available_packet (clients net ! used)"
    and "length (clients net1) = length (clients net)" and "auth_secret net1 = auth_secret net"
    and "server_fd net1 = server_fd net"
proof -
  have u: "used < clients_used net" using assms(2) by (simp add: used_def)
  note eff = remove_client_effect [OF assms(1) u, of ops w, folded net1_def]
  show "clients_used net1 = used" "length (clients net1) = length (clients net)" "auth_secret net1 = auth_secret net"
    using eff by (simp_all add: used_def)
  show "available_packet_valid (clients net1 ! used) = available_packet_valid (clients net ! used)"
    "available_packet (clients net1 ! used) = available_packet (clients net ! used)"
    using eff(4) by (simp_all add: used_def)
  have live1: "live net1 = take used (live net)" using eff(3) assms(1) u by (simp add: used_def)
  have "clients net1 ! k = clients net ! k" if "k < used" for k
  proof -
    have "clients net1 ! k = live net1 ! k" using that eff(1) by (simp add: used_def)
    then show ?thesis using that u by (simp add: live1)
  qed
  then show "\<forall>k < used. clients net1 ! k = clients net ! k" by blast
  show "server_fd net1 = server_fd net"
    by (simp add: net1_def remove_client_def Let_def remove_client_requests_filter)
qed

text \<open>
  Claim C36. The flag that a slot holds a complete packet survives the client: when the last client is
  removed while its packet waits and a new client is accepted into the slot, the packet is announced to
  the HAL as one of the new client, although that client has to authenticate and has not sent anything.
\<close>

theorem stale_packet_of_new_client:
  fixes ops :: "'w sock_ops" and w :: 'w
  assumes "net_inv net" and "0 < clients_used net" and "available_packet_valid (clients net ! (clients_used net - 1))"
    and "\<forall>i < clients_used net - 1. \<not> available_packet_valid (clients net ! i)"
    and "auth_secret net = Some secret" and "0 \<le> server_fd net"
  defines "removed \<equiv> remove_client ops (clients_used net - 1) net w"
  assumes "server_accept ops (server_fd net) (snd removed) = (fd, w2)" and "0 \<le> fd"
  defines "net' \<equiv> fst (accept_connections ops (fst removed) (snd removed))"
  shows "clients_used net' = clients_used net \<and>
    \<not> authenticated (clients net' ! (clients_used net - 1)) \<and>
    read_buf_used (clients net' ! (clients_used net - 1)) = 0 \<and>
    tf_net_get_available_tfp_header net' (-1) =
      Some (available_packet (clients net ! (clients_used net - 1)), int (clients_used net - 1))"
proof -
  let ?u = "clients_used net - 1"
  define net1 where "net1 = fst removed"
  note rm = remove_last_client [OF assms(1,2), where ops = ops and w = w, folded removed_def net1_def]
  have len: "?u < length (clients net1)" using net_invD(1) [OF assms(1)] assms(2) rm(5) by simp
  have a4: "accept_on4 ops net1 (snd removed) = (fd, net1, w2)"
    using assms(6,8,9) rm(7) by (simp add: accept_on4_def)
  have a6: "accept_on6 ops fd net1 w2 = (fd, net1, w2)" using assms(9) by (simp add: accept_on6_def)
  obtain ms w3 us w4 where t: "tf_net_current_time_ms ops w2 = (ms, w3)" "tf_net_current_time_us ops w3 = (us, w4)"
    by fastforce
  define c where "c = (clients net1 ! ?u)\<lparr>client_fd := fd, client_id := next_client_id net1 + 1, last_recv_ms := ms,
    last_send_us := us, client_auth_state := AUTH_ENABLED, auth_nonce := next_auth_nonce net1,
    read_buf := replicate 80 0, read_buf_used := 0, client_send_buf := replicate 1400 0, send_buf_used := 0\<rparr>"
  have "clients net' = (clients net1)[?u := c] \<and> clients_used net' = Suc ?u"
    unfolding net'_def net1_def [symmetric]
    using len rm(1) rm(6) rm(7) assms(5,6) a4 a6 t
    by (auto simp: accept_connections_def Let_def client_update_def c_def close_server_sockets_def assms(9) [unfolded not_less [symmetric]])
  then have net': "clients net' = (clients net1)[?u := c]" "clients_used net' = Suc ?u" by simp_all
  have c: "available_packet_valid c" "available_packet c = available_packet (clients net ! ?u)"
    "client_auth_state c = AUTH_ENABLED" "read_buf_used c = 0"
    using rm(3,4) assms(3) by (simp_all add: c_def)
  have "List.find (\<lambda>i. available_packet_valid (clients net' ! i)) [0..<Suc ?u] = Some ?u"
  proof (subst find_Some_iff, intro exI [of _ ?u] conjI allI impI)
    fix j assume "j < ?u"
    then show "\<not> available_packet_valid (clients net' ! ([0..<Suc ?u] ! j))"
      using assms(4) rm(2) by (simp add: net' del: upt_Suc)
  qed (use len c in \<open>simp_all add: net' del: upt_Suc\<close>)
  then show ?thesis
    using len c assms(2) by (simp add: tf_net_get_available_tfp_header_def net' authenticated_def del: upt_Suc)
qed

theorem stale_packet_of_new_client_witness:
  "\<exists>net' w'. accept_connections quiet_sock (fst (remove_client quiet_sock 0 (server_with
      [(client_with 1 AUTH_DONE [])\<lparr>available_packet_valid := True,
         available_packet := decode_header [7, 0, 0, 0, 8, 1, 0x10, 0]\<rparr>]) 0)) 0 = (net', w') \<and>
    \<not> authenticated (clients net' ! 0) \<and>
    tf_net_get_available_tfp_header net' (-1) = Some (decode_header [7, 0, 0, 0, 8, 1, 0x10, 0], 0)"
proof -
  let ?h = "decode_header [7, 0, 0, 0, 8, 1, 0x10, 0]"
  let ?c = "(client_with 1 AUTH_DONE [])\<lparr>available_packet_valid := True, available_packet := ?h\<rparr>"
  let ?net = "server_with [?c]"
  have dec: "?h = \<lparr>hdr_uid_num = 7, hdr_length = 8, hdr_fid = 1, hdr_seq_num = 1,
     hdr_response_expected = False, hdr_options = 0, hdr_error_code = 0, hdr_flags = 0\<rparr>" by code_simp
  have "client_ok ?c"
    using client_with_ok [of "[]" 1 AUTH_DONE] by (simp add: client_ok_def dec header_is_valid_def)
  then have inv: "net_inv ?net" by (intro server_with_inv) simp
  have fd: "server_fd ?net = 3" by (simp add: server_with_def)
  have w: "snd (remove_client quiet_sock k n v) = v" for k n v
    by (simp add: remove_client_def Let_def quiet_sock_def)
  have acc: "server_accept quiet_sock 3 v = (5, v)" for v
    by (simp add: server_accept_def set_tcp_options_def quiet_sock_def)
  obtain net' w' where run: "accept_connections quiet_sock (fst (remove_client quiet_sock 0 ?net 0)) 0 = (net', w')"
    by fastforce
  then show ?thesis
    using stale_packet_of_new_client [OF inv, of "[1, 2]" quiet_sock 0 5 0] by (simp add: fd w acc)
qed

subsection \<open>Removing a client while its packet is handled\<close>

text \<open>
  Claim C37. A client whose packet to the server itself is refused is removed, the other clients move up
  one slot, and then the length of the refused packet is dropped from the slot: the next client loses
  that many of its received bytes, and a packet of it that was already announced.
\<close>

theorem refused_packet_hits_next_client:
  assumes "net_inv net" and "Suc i < clients_used net" and "\<not> available_packet_valid (clients net ! i)"
    and "tf_tfp_header_peek_plain (read_buf (clients net ! i)) = (True, header)"
    and "hdr_uid_num header = 1" and "hdr_fid header = 1" and "hdr_length header \<noteq> 8"
    and "unat (hdr_length header) \<le> read_buf_used (clients net ! i)"
  defines "next \<equiv> clients net ! Suc i"
    and "n \<equiv> min (unat (hdr_length header)) (read_buf_used (clients net ! Suc i))"
  shows "\<exists>net' w'. reassemble_loop 1 fuel ops i net w = Some (net', w') \<and> clients_used net' = clients_used net - 1 \<and>
    clients net' ! i = next\<lparr>read_buf := write_at 0 (take (read_buf_used next - n) (drop n (read_buf next))) (read_buf next),
      read_buf_used := read_buf_used next - n, available_packet_valid := False\<rparr>"
proof -
  have i: "i < clients_used net" using assms(2) by simp
  obtain net1 w1 where rm: "remove_client ops i net w = (net1, w1)" by fastforce
  note eff = remove_client_effect [OF assms(1) i, of ops w, unfolded rm fst_conv]
  have "header_is_valid header" using assms(4) by (auto simp: tf_tfp_header_peek_plain_def Let_def)
  then have used: "8 \<le> read_buf_used (clients net ! i)"
    using assms(8) by (simp add: header_is_valid_def split: if_splits)
  have "clients net1 ! i = live net1 ! i" using eff(1) assms(2) by simp
  also have "\<dots> = next" using eff(3) assms(1,2) by (simp add: nth_append next_def)
  finally have nxt: "clients net1 ! i = next" .
  have "handle_brickd_packet fuel ops i header net w = Some (net1, w1)"
    using assms(6,7) rm by (simp add: handle_brickd_packet_def)
  then have "reassemble_loop 1 fuel ops i net w = Some (drop_packet i (unat (hdr_length header)) net1, w1)"
    using i assms used by (simp add: Let_def)
  moreover have "i < length (clients net1)" using eff(2) i net_invD(1) [OF assms(1)] by simp
  ultimately show ?thesis
    using eff(1) nxt by (simp add: drop_packet_def Let_def n_def next_def)
qed

theorem refused_packet_hits_next_client_witness:
  "\<exists>net' w'. reassemble_loop 1 5 quiet_sock 0 (server_with [client_with 1 AUTH_ENABLED ([1, 0, 0, 0, 9, 1, 0x10, 0, 0]),
      client_with 2 AUTH_DONE [7, 0, 0, 0, 8, 1, 0x10, 0]]) 0 = Some (net', w') \<and>
    client_id (clients net' ! 0) = 2 \<and> read_buf_used (clients net' ! 0) = 0"
proof -
  let ?a = "client_with 1 AUTH_ENABLED [1, 0, 0, 0, 9, 1, 0x10, 0, 0]"
  let ?b = "client_with 2 AUTH_DONE [7, 0, 0, 0, 8, 1, 0x10, 0]"
  let ?h = "\<lparr>hdr_uid_num = 1, hdr_length = 9, hdr_fid = 1, hdr_seq_num = 1,
     hdr_response_expected = False, hdr_options = 0, hdr_error_code = 0, hdr_flags = 0\<rparr>"
  have inv: "net_inv (server_with [?a, ?b])" by (rule server_with_inv) (simp add: client_with_ok)
  have "decode_header ([1, 0, 0, 0, 9, 1, 0x10, 0, 0] @ replicate 71 0) = ?h" by code_simp
  then have peek: "tf_tfp_header_peek_plain (read_buf (clients (server_with [?a, ?b]) ! 0)) = (True, ?h)"
    by (simp add: header_peek_plain_eq header_is_valid_def del: append.simps)
  show ?thesis
    using refused_packet_hits_next_client [OF inv _ _ peek, of 5 quiet_sock 0] by auto
qed

subsection \<open>Shutting down\<close>

lemma destroy_loop_used:
  assumes "net_inv net" and "clients_used net - i \<le> n" and "i \<le> Suc (clients_used net)"
  shows "clients_used (fst (destroy_loop n ops i net w)) =
    (if clients_used net < i then clients_used net else (clients_used net + i) div 2)"
  using assms
proof (induction n arbitrary: i net w)
  case (Suc n)
  show ?case
  proof (cases "i < clients_used net")
    case True
    obtain net1 w1 where rm: "remove_client ops i net w = (net1, w1)" by fastforce
    note eff = remove_client_effect [OF Suc.prems(1) True, of ops w, unfolded rm fst_conv]
    show ?thesis
      using True rm Suc.prems Suc.IH [OF eff(7), of "i + 1" w1] eff(1) by (auto simp: div2_Suc_Suc)
  qed (use Suc.prems in auto)
qed auto

text \<open>
  Claim C38. Destroying the server closes only every second connection: removing a client moves the next
  one into its slot, and the loop steps over it. Half of the clients stay connected.
\<close>

theorem destroy_keeps_half_of_the_clients:
  assumes "net_inv net"
  shows "clients_used (fst (snd (tf_net_destroy ops net w))) = clients_used net div 2"
  using destroy_loop_used [OF assms, of 0 "clients_used net" ops] by (simp add: tf_net_destroy_def Let_def)

theorem destroy_keeps_half_of_the_clients_witness:
  "clients_used (fst (snd (tf_net_destroy quiet_sock (server_with [client_with 1 AUTH_DONE [], client_with 2 AUTH_DONE []]) 0))) = 1"
proof -
  have "net_inv (server_with [client_with 1 AUTH_DONE [], client_with 2 AUTH_DONE []])"
    by (rule server_with_inv) (simp add: client_with_ok)
  from destroy_keeps_half_of_the_clients [OF this, of quiet_sock 0] show ?thesis by simp
qed

end
