(* ===== verification/Streaming.thy ===== *)
theory Streaming
  imports Prelude "HOL-Library.Monad_Syntax"
begin

section \<open>Streams of values that do not fit into one packet\<close>

text \<open>
  \<^verbatim>\<open>streaming.c\<close> moves long arrays over the 80 byte packets of TFP: \<^verbatim>\<open>tf_stream_out\<close> reads an array from a
  device chunk by chunk, \<^verbatim>\<open>tf_stream_in\<close> writes one, \<^verbatim>\<open>tf_stream_out_callback\<close> assembles an array from
  callbacks. The functions that call a device once are arguments, as in C; they are given the world and
  what their pointer arguments hold, and return what they leave there. A null pointer is \<open>None\<close>. An
  array is a list with its capacity as length, \<^verbatim>\<open>size_t\<close> has 32 bits, and \<open>None\<close> as the result of a function is an access
  outside of it, or a loop that does not end.

  The theorems are about both sides: what a device that serves a stream makes \<^verbatim>\<open>tf_stream_out\<close> return,
  what a device that collects one has received, and what the handler of a message of the RS485 Bricklet
  (\<^verbatim>\<open>bricklet_rs485.c\<close>) sees.
\<close>

subsection \<open>Copying items\<close>

fun zero_items_loop :: "'a \<Rightarrow> 'a list \<Rightarrow> nat \<Rightarrow> nat \<Rightarrow> 'a list option" where
  "zero_items_loop z dest d 0 = Some dest"
| "zero_items_loop z dest d (Suc n) =
    (if d < length dest then zero_items_loop z (dest[d := z]) (Suc d) n else None)"

fun copy_items_loop :: "'a list \<Rightarrow> nat \<Rightarrow> 'a list \<Rightarrow> nat \<Rightarrow> nat \<Rightarrow> 'a list option" where
  "copy_items_loop dest d src s 0 = Some dest"
| "copy_items_loop dest d src s (Suc n) =
    (if d < length dest \<and> s < length src
     then copy_items_loop (dest[d := src ! s]) (Suc d) src (Suc s) n else None)"

text \<open>The macro is instantiated for eleven item types; \<open>z\<close> is the zero of the type.\<close>

definition tf_copy_items :: "'a \<Rightarrow> 'a list \<Rightarrow> nat \<Rightarrow> 'a list option \<Rightarrow> nat \<Rightarrow> nat \<Rightarrow> 'a list option" where
  "tf_copy_items z dest dest_offset src src_offset item_count = (case src of
     None \<Rightarrow> zero_items_loop z dest dest_offset item_count
   | Some s \<Rightarrow> copy_items_loop dest dest_offset s src_offset item_count)"

type_synonym 'a copy_fn = "'a list \<Rightarrow> nat \<Rightarrow> 'a list option \<Rightarrow> nat \<Rightarrow> nat \<Rightarrow> 'a list option"

subsection \<open>Reading a stream\<close>

text \<open>
  The arguments of the low level function are the world, the stream length, the chunk offset and the
  chunk data; it returns its code and the new values. The local variables of \<^verbatim>\<open>tf_stream_out\<close>, and the
  targets of its pointers, are a record. Both loops leave \<open>out_ret\<close> at \<open>TF_E_OK\<close> unless the C
  function returns from within the loop.
\<close>

type_synonym ('w, 'a) ll_stream_out =
  "'w \<Rightarrow> u32 \<Rightarrow> u32 \<Rightarrow> 'a list \<Rightarrow> int \<times> u32 \<times> u32 \<times> 'a list \<times> 'w"

record ('w, 'a) stream_out_vars =
  out_ret :: int
  stream_length :: u32
  out_of_sync :: bool
  chunk_offset :: u32
  chunk_data :: "'a list"
  ret_stream :: "'a list option"
  ret_stream_read :: u32
  out_world :: 'w

definition call_ll_out ::
  "('w, 'a) ll_stream_out \<Rightarrow> ('w, 'a) stream_out_vars \<Rightarrow> ('w, 'a) stream_out_vars" where
  "call_ll_out ll v = (case ll (out_world v) (stream_length v) (chunk_offset v) (chunk_data v) of
     (ret, sl, co, cd, w) \<Rightarrow> v\<lparr>out_ret := ret, stream_length := sl, chunk_offset := co,
        chunk_data := cd, out_world := w\<rparr>)"

definition take_chunk ::
  "'a copy_fn \<Rightarrow> u32 \<Rightarrow> ('w, 'a) stream_out_vars \<Rightarrow> ('w, 'a) stream_out_vars option" where
  "take_chunk copy max_chunk_length v =
    (let chunk_length = stream_length v - chunk_offset v;
         chunk_length = (if chunk_length > max_chunk_length then max_chunk_length else chunk_length)
     in do {
       rs \<leftarrow> (case ret_stream v of
          None \<Rightarrow> Some None
        | Some buf \<Rightarrow> map_option Some
            (copy buf (unat (ret_stream_read v)) (Some (chunk_data v)) 0 (unat chunk_length)));
       Some (v\<lparr>ret_stream := rs, ret_stream_read := ret_stream_read v + chunk_length\<rparr>)
     })"

partial_function (option) stream_out_loop ::
  "('w, 'a) ll_stream_out \<Rightarrow> 'a copy_fn \<Rightarrow> u32 \<Rightarrow> ('w, 'a) stream_out_vars
    \<Rightarrow> ('w, 'a) stream_out_vars option" where
  [code]: "stream_out_loop ll copy max_chunk_length v =
    (if ret_stream_read v < stream_length v then
       let v = call_ll_out ll v in
       if out_ret v \<noteq> TF_E_OK then Some v
       else let v = v\<lparr>out_of_sync := chunk_offset v \<noteq> ret_stream_read v\<rparr> in
       if out_of_sync v then Some v
       else do {
         v \<leftarrow> take_chunk copy max_chunk_length v;
         stream_out_loop ll copy max_chunk_length v
       }
     else Some v)"

partial_function (option) discard_loop ::
  "('w, 'a) ll_stream_out \<Rightarrow> u32 \<Rightarrow> ('w, 'a) stream_out_vars \<Rightarrow> ('w, 'a) stream_out_vars option" where
  [code]: "discard_loop ll max_chunk_length v =
    (if chunk_offset v + max_chunk_length < stream_length v then
       let v = call_ll_out ll v in
       if out_ret v \<noteq> TF_E_OK then Some v else discard_loop ll max_chunk_length v
     else Some v)"

definition tf_stream_out ::
  "('w, 'a) ll_stream_out \<Rightarrow> 'w \<Rightarrow> 'a list option \<Rightarrow> 'a list \<Rightarrow> u32 \<Rightarrow> 'a copy_fn
    \<Rightarrow> (int \<times> 'a list option \<times> u32 \<times> 'w) option" where
  "tf_stream_out ll w rs cd max_chunk_length copy =
    (let v = call_ll_out ll \<lparr>out_ret = TF_E_OK, stream_length = 0, out_of_sync = False,
           chunk_offset = 0, chunk_data = cd, ret_stream = rs, ret_stream_read = 0, out_world = w\<rparr> in
     if out_ret v = TF_E_INTERNAL_STREAM_HAS_NO_DATA then Some (TF_E_OK, rs, 0, out_world v)
     else if out_ret v \<noteq> TF_E_OK then Some (out_ret v, rs, 0, out_world v)
     else do {
       let v = v\<lparr>out_of_sync := chunk_offset v \<noteq> 0\<rparr>;
       v \<leftarrow> (if \<not> out_of_sync v
             then take_chunk copy max_chunk_length v \<bind> stream_out_loop ll copy max_chunk_length
             else Some v);
       if out_ret v \<noteq> TF_E_OK then Some (out_ret v, ret_stream v, ret_stream_read v, out_world v)
       else if out_of_sync v then do {
         v \<leftarrow> discard_loop ll max_chunk_length (v\<lparr>ret_stream_read := 0\<rparr>);
         Some (if out_ret v \<noteq> TF_E_OK then out_ret v else TF_E_STREAM_OUT_OF_SYNC,
               ret_stream v, ret_stream_read v, out_world v)
       }
       else Some (out_ret v, ret_stream v, ret_stream_read v, out_world v)
     })"

subsection \<open>Writing a stream\<close>

text \<open>
  The low level function is given the world, the stream length, the chunk offset, the chunk and the
  previous number of written items; it returns its code, the new number and the new world.
\<close>

type_synonym ('w, 'a) ll_stream_in = "'w \<Rightarrow> u32 \<Rightarrow> u32 \<Rightarrow> 'a list \<Rightarrow> u32 \<Rightarrow> int \<times> u32 \<times> 'w"

partial_function (option) stream_in_loop ::
  "('w, 'a) ll_stream_in \<Rightarrow> 'a copy_fn \<Rightarrow> u32 \<Rightarrow> 'a list \<Rightarrow> u32 \<Rightarrow> u32 \<Rightarrow> 'a list \<Rightarrow> u32 \<Rightarrow> u32 option
    \<Rightarrow> int \<Rightarrow> 'w \<Rightarrow> (int \<times> u32 option \<times> 'w) option" where
  [code]: "stream_in_loop ll copy max_chunk_length stream sl co cd chunk_written written ret w =
    (if co < sl then do {
       let chunk_length = sl - co;
       let chunk_length = (if chunk_length > max_chunk_length then max_chunk_length else chunk_length);
       cd \<leftarrow> copy cd 0 (Some stream) (unat co) (unat chunk_length);
       cd \<leftarrow> copy cd (unat chunk_length) None 0 (unat (max_chunk_length - chunk_length));
       case ll w sl co cd chunk_written of (ret, chunk_written, w) \<Rightarrow>
         if ret \<noteq> TF_E_OK then Some (ret, map_option (\<lambda>_. 0) written, w)
         else
           let written = map_option (\<lambda>n. n + chunk_written) written in
           if chunk_written < max_chunk_length then Some (ret, written, w)
           else stream_in_loop ll copy max_chunk_length stream sl (co + max_chunk_length) cd
                  chunk_written written ret w
     }
     else Some (ret, written, w))"

definition tf_stream_in ::
  "('w, 'a) ll_stream_in \<Rightarrow> 'w \<Rightarrow> 'a list option \<Rightarrow> u32 \<Rightarrow> 'a list \<Rightarrow> u32 option \<Rightarrow> u32 \<Rightarrow> 'a copy_fn
    \<Rightarrow> (int \<times> u32 option \<times> 'w) option" where
  "tf_stream_in ll w stream sl cd ret_stream_written max_chunk_length copy =
    (let written = map_option (\<lambda>_. 0) ret_stream_written in
     if sl = 0 then do {
       cd \<leftarrow> copy cd 0 None 0 (unat max_chunk_length);
       case ll w sl 0 cd 0 of (ret, chunk_written, w) \<Rightarrow>
         Some (ret, map_option (\<lambda>n. n + chunk_written) written, w)
     }
     else case stream of
       None \<Rightarrow> Some (TF_E_NULL, written, w)
     | Some s \<Rightarrow> stream_in_loop ll copy max_chunk_length s sl 0 cd 0 written TF_E_OK w)"

subsection \<open>Assembling a stream from callbacks\<close>

record 'a TF_HighLevelCallback =
  hlc_data :: "'a list option"
  hlc_length :: u32
  stream_in_progress :: bool

definition store_chunk ::
  "'a copy_fn \<Rightarrow> u32 \<Rightarrow> 'a list \<Rightarrow> u32 \<Rightarrow> 'a list option \<Rightarrow> 'a list option option" where
  "store_chunk copy at_offset cd chunk_length data = (case data of
     None \<Rightarrow> Some None
   | Some buf \<Rightarrow> map_option Some (copy buf (unat at_offset) (Some cd) 0 (unat chunk_length)))"

definition tf_stream_out_callback ::
  "'a TF_HighLevelCallback \<Rightarrow> u32 \<Rightarrow> u32 \<Rightarrow> 'a list \<Rightarrow> u32 \<Rightarrow> 'a copy_fn
    \<Rightarrow> (bool \<times> 'a TF_HighLevelCallback) option" where
  "tf_stream_out_callback hlc sl co cd max_chunk_length copy =
    (let chunk_length = sl - co;
         chunk_length = (if chunk_length > max_chunk_length then max_chunk_length else chunk_length)
     in if \<not> stream_in_progress hlc then
          if co = 0 then do {
            data \<leftarrow> store_chunk copy 0 cd chunk_length (hlc_data hlc);
            let hlc = hlc\<lparr>stream_in_progress := True, hlc_data := data,
                          hlc_length := chunk_length\<rparr>;
            Some (hlc_length hlc \<ge> sl, hlc)
          }
          else Some (False, hlc)
        else
          if co \<noteq> hlc_length hlc
          then Some (True, hlc\<lparr>stream_in_progress := False, hlc_length := 0\<rparr>)
          else do {
            data \<leftarrow> store_chunk copy (hlc_length hlc) cd chunk_length (hlc_data hlc);
            let hlc = hlc\<lparr>hlc_data := data, hlc_length := hlc_length hlc + chunk_length\<rparr>;
            Some (hlc_length hlc \<ge> sl, hlc)
          })"

text \<open>
  One use of it: the callback of the RS485 Bricklet for a received message. The result is the call of
  the handler, if there is one: the message (or the null pointer) and the length it is announced with.
\<close>

definition tf_rs485_read_wrapper ::
  "byte TF_HighLevelCallback \<Rightarrow> u16 \<Rightarrow> u16 \<Rightarrow> byte list
    \<Rightarrow> ((byte list option \<times> u16) option \<times> byte TF_HighLevelCallback) option" where
  "tf_rs485_read_wrapper hlc message_length message_chunk_offset message_chunk_data = do {
     (done, hlc) \<leftarrow> tf_stream_out_callback hlc (ucast message_length) (ucast message_chunk_offset)
                      message_chunk_data 60 (tf_copy_items 0);
     Some (if \<not> done then (None, hlc)
       else (Some (if hlc_length hlc = 0 then None else hlc_data hlc, message_length),
             hlc\<lparr>stream_in_progress := False, hlc_length := 0\<rparr>))
   }"


subsection \<open>Copying in bounds\<close>

lemma zero_items_loop_eq:
  "d + n \<le> length dest
    \<Longrightarrow> zero_items_loop z dest d n = Some (take d dest @ replicate n z @ drop (d + n) dest)"
proof (induction n arbitrary: dest d)
  case 0
  then show ?case by simp
next
  case (Suc n)
  have "take (Suc d) (dest[d := z]) = take d dest @ [z]"
    using Suc.prems by (simp add: take_Suc_conv_app_nth)
  with Suc.prems Suc.IH[of "Suc d" "dest[d := z]"] show ?case by simp
qed

lemma copy_items_loop_eq:
  "d + n \<le> length dest \<Longrightarrow> s + n \<le> length src
    \<Longrightarrow> copy_items_loop dest d src s n = Some (take d dest @ take n (drop s src) @ drop (d + n) dest)"
proof (induction n arbitrary: dest d s)
  case 0
  then show ?case by simp
next
  case (Suc n)
  have "take (Suc d) (dest[d := src ! s]) = take d dest @ [src ! s]"
    using Suc.prems by (simp add: take_Suc_conv_app_nth)
  moreover have "take (Suc n) (drop s src) = src ! s # take n (drop (Suc s) src)"
    using Suc.prems by (simp flip: Cons_nth_drop_Suc)
  ultimately show ?case using Suc.prems Suc.IH[of "Suc d" "dest[d := src ! s]" "Suc s"] by simp
qed

lemma tf_copy_items_zero [simp]:
  "d + n \<le> length dest
    \<Longrightarrow> tf_copy_items z dest d None s n = Some (take d dest @ replicate n z @ drop (d + n) dest)"
  by (simp add: tf_copy_items_def zero_items_loop_eq)

lemma tf_copy_items_some [simp]:
  "d + n \<le> length dest \<Longrightarrow> s + n \<le> length src
    \<Longrightarrow> tf_copy_items z dest d (Some src) s n
        = Some (take d dest @ take n (drop s src) @ drop (d + n) dest)"
  by (simp add: tf_copy_items_def copy_items_loop_eq)

declare unat_of_nat_u32 [simp]

lemma of_nat_u32_0_iff: "n < 2 ^ 32 \<Longrightarrow> of_nat n = (0 :: u32) \<longleftrightarrow> n = 0"
  by (simp flip: unat_eq_0)

text \<open>The length of the next chunk is the same in all three functions.\<close>

lemma chunk_length_eq:
  fixes m :: u32
  assumes "k \<le> n" "n < 2 ^ 32"
  shows "unat (if of_nat n - of_nat k > m then m else of_nat n - of_nat k) = min (unat m) (n - k)"
proof -
  have "unat (of_nat n - of_nat k :: u32) = unat (of_nat (n - k) :: u32)" using assms by (simp add: of_nat_diff)
  also have "\<dots> = n - k" using assms by (intro unat_of_nat_u32) simp
  finally have "unat (of_nat n - of_nat k :: u32) = n - k" .
  then show ?thesis by (simp add: word_less_nat_alt)
qed

lemma append_chunk:
  assumes "k \<le> length xs" "length xs \<le> length b" "l = min m (length xs - k)"
  shows "take k (take k xs @ drop k b) @ take m (drop k xs) @ drop (k + l) (take k xs @ drop k b)
    = take (k + l) xs @ drop (k + l) b"
  using assms by (simp add: take_add min_def not_le split: if_splits)


subsection \<open>A device that serves a stream\<close>

text \<open>
  The low level getter of a device that holds the array \<open>xs\<close>: every call returns the length of the
  array, the offset of the chunk and the chunk, and moves the device to the next chunk, or back to the
  start after the last one. \<open>off\<close> reads the position of the device from the world.
\<close>

definition stream_source :: "('w, 'a) ll_stream_out \<Rightarrow> ('w \<Rightarrow> nat) \<Rightarrow> 'a list \<Rightarrow> nat \<Rightarrow> bool" where
  "stream_source ll off xs m \<longleftrightarrow>
    (\<forall>w sl co cd. length cd = m \<longrightarrow> off w \<le> length xs \<longrightarrow>
      (\<exists>cd' w'. ll w sl co cd = (TF_E_OK, of_nat (length xs), of_nat (off w), cd', w')
        \<and> length cd' = m \<and> take (length xs - off w) cd' = take m (drop (off w) xs)
        \<and> off w' = (if off w + m < length xs then off w + m else 0)))"

lemma call_source:
  assumes "stream_source ll off xs m" "length (chunk_data v) = m" "off (out_world v) \<le> length xs"
  obtains cd w where
    "call_ll_out ll v = v\<lparr>out_ret := TF_E_OK, stream_length := of_nat (length xs),
        chunk_offset := of_nat (off (out_world v)), chunk_data := cd, out_world := w\<rparr>"
    "length cd = m" "take (length xs - off (out_world v)) cd = take m (drop (off (out_world v)) xs)"
    "off w = (if off (out_world v) + m < length xs then off (out_world v) + m else 0)"
proof -
  obtain cd w where
    "ll (out_world v) (stream_length v) (chunk_offset v) (chunk_data v)
      = (TF_E_OK, of_nat (length xs), of_nat (off (out_world v)), cd, w)"
    "length cd = m" "take (length xs - off (out_world v)) cd = take m (drop (off (out_world v)) xs)"
    "off w = (if off (out_world v) + m < length xs then off (out_world v) + m else 0)"
    using assms unfolding stream_source_def by blast
  then show ?thesis by (intro that) (simp_all add: call_ll_out_def)
qed

text \<open>What has been read when \<open>k\<close> items of \<open>xs\<close> have arrived in sync.\<close>

definition read_so_far ::
  "'a list option \<Rightarrow> 'a list \<Rightarrow> nat \<Rightarrow> ('w, 'a) stream_out_vars \<Rightarrow> bool" where
  "read_so_far rs xs k v \<longleftrightarrow> out_ret v = TF_E_OK \<and> \<not> out_of_sync v \<and> stream_length v = of_nat (length xs)
    \<and> ret_stream_read v = of_nat k \<and> ret_stream v = map_option (\<lambda>b. take k xs @ drop k b) rs"

lemma take_chunk_in_sync:
  assumes v: "read_so_far rs xs k v" "chunk_offset v = of_nat k"
    and k: "k \<le> length xs" "length xs + unat m < 2 ^ 32"
    and cd: "length (chunk_data v) = unat m" "take (length xs - k) (chunk_data v) = take (unat m) (drop k xs)"
    and rs: "\<And>b. rs = Some b \<Longrightarrow> length xs \<le> length b"
  obtains v' where "take_chunk (tf_copy_items z) m v = Some v'"
    "read_so_far rs xs (k + min (unat m) (length xs - k)) v'"
    "chunk_data v' = chunk_data v" "out_world v' = out_world v"
proof -
  define l where "l = min (unat m) (length xs - k)"
  define cl where "cl = (if of_nat (length xs) - of_nat k > m then m else of_nat (length xs) - of_nat k)"
  have l: "unat cl = l" unfolding cl_def l_def using k by (intro chunk_length_eq) simp_all
  have k32: "unat (of_nat k :: u32) = k" using k by simp
  have "take l (chunk_data v) = take (unat m) (drop k xs)"
    unfolding l_def using cd by (simp add: min_def) (metis cd take_all_iff nat_le_linear)
  then have "(case ret_stream v of None \<Rightarrow> Some None | Some buf \<Rightarrow>
      map_option Some (tf_copy_items z buf (unat (ret_stream_read v)) (Some (chunk_data v)) 0 (unat cl)))
    = Some (map_option (\<lambda>b. take (k + l) xs @ drop (k + l) b) rs)"
    using v k rs cd append_chunk[of k xs _ l "unat m"] k32 l
    by (cases rs) (simp_all add: read_so_far_def l_def del: unat_of_nat_u32)
  moreover have "ret_stream_read v + cl = of_nat (k + l)" using l v by (simp add: read_so_far_def flip: l)
  moreover have "stream_length v - chunk_offset v = of_nat (length xs) - of_nat k"
    using v by (simp add: read_so_far_def)
  ultimately have "take_chunk (tf_copy_items z) m v = Some (v\<lparr>ret_stream :=
      map_option (\<lambda>b. take (k + l) xs @ drop (k + l) b) rs, ret_stream_read := of_nat (k + l)\<rparr>)"
    unfolding take_chunk_def Let_def by (simp only: cl_def[symmetric] bind.bind_lunit)
  then show ?thesis by (rule that) (use v in \<open>simp_all add: read_so_far_def flip: l_def\<close>)
qed


lemma stream_out_loop_source:
  assumes src: "stream_source ll off xs (unat m)" and m: "0 < m" "length xs + unat m < 2 ^ 32"
    and rs: "\<And>b. rs = Some b \<Longrightarrow> length xs \<le> length b"
  shows "read_so_far rs xs k v \<Longrightarrow> k \<le> length xs \<Longrightarrow> length (chunk_data v) = unat m
    \<Longrightarrow> off (out_world v) = (if k < length xs then k else 0)
    \<Longrightarrow> \<exists>v'. stream_out_loop ll (tf_copy_items z) m v = Some v' \<and> read_so_far rs xs (length xs) v'
      \<and> off (out_world v') = 0"
proof (induction "length xs - k" arbitrary: k v rule: less_induct)
  case less
  have done_iff: "ret_stream_read v < stream_length v \<longleftrightarrow> k < length xs"
    using less.prems m by (simp add: read_so_far_def word_less_nat_alt)
  show ?case
  proof (cases "k < length xs")
    case False
    then show ?thesis using less.prems done_iff by (subst stream_out_loop.simps) simp
  next
    case True
    have off: "off (out_world v) = k" "off (out_world v) \<le> length xs" using True less.prems by simp_all
    obtain cd w where call: "call_ll_out ll v = v\<lparr>out_ret := TF_E_OK,
          stream_length := of_nat (length xs), chunk_offset := of_nat (off (out_world v)), chunk_data := cd, out_world := w\<rparr>"
        (is "_ = ?v") and cd: "length cd = unat m"
        "take (length xs - off (out_world v)) cd = take (unat m) (drop (off (out_world v)) xs)"
        and w: "off w = (if off (out_world v) + unat m < length xs then off (out_world v) + unat m else 0)"
      using src less.prems(3) off(2) by (rule call_source)
    define v1 where "v1 = ?v\<lparr>out_of_sync := False\<rparr>"
    have v1: "read_so_far rs xs k v1" "chunk_offset v1 = of_nat k" "length (chunk_data v1) = unat m"
      "take (length xs - k) (chunk_data v1) = take (unat m) (drop k xs)"
      using less.prems(1) cd off(1) by (simp_all add: read_so_far_def v1_def)
    obtain v2 where v2: "take_chunk (tf_copy_items z) m v1 = Some v2"
        "read_so_far rs xs (k + min (unat m) (length xs - k)) v2"
        "chunk_data v2 = chunk_data v1" "out_world v2 = out_world v1"
      using v1(1,2) less.prems(2) m(2) v1(3,4) rs by (rule take_chunk_in_sync)
    have step: "stream_out_loop ll (tf_copy_items z) m v = stream_out_loop ll (tf_copy_items z) m v2"
      using True done_iff call v2(1) less.prems(1) off(1)
      by (subst stream_out_loop.simps) (simp add: Let_def v1_def read_so_far_def)
    have "0 < unat m" using m(1) by (simp add: word_less_nat_alt)
    then have next_pos: "length xs - (k + min (unat m) (length xs - k)) < length xs - k"
        "k + min (unat m) (length xs - k) \<le> length xs"
        "off w = (if k + min (unat m) (length xs - k) < length xs then k + min (unat m) (length xs - k) else 0)"
      using True w off(1) by auto
    show ?thesis unfolding step
      by (rule less.hyps[OF next_pos(1) v2(2) next_pos(2)])
         (use v2(3,4) cd(1) next_pos(3) in \<open>simp_all add: v1_def\<close>)
  qed
qed

lemma discard_loop_source:
  assumes src: "stream_source ll off xs (unat m)" and m: "0 < m" "length xs + unat m < 2 ^ 32"
  shows "out_ret v = TF_E_OK \<Longrightarrow> stream_length v = of_nat (length xs) \<Longrightarrow> chunk_offset v = of_nat k
    \<Longrightarrow> k \<le> length xs \<Longrightarrow> length (chunk_data v) = unat m
    \<Longrightarrow> off (out_world v) = (if k + unat m < length xs then k + unat m else 0)
    \<Longrightarrow> \<exists>v'. discard_loop ll m v = Some v' \<and> out_ret v' = TF_E_OK \<and> ret_stream v' = ret_stream v
      \<and> ret_stream_read v' = ret_stream_read v \<and> off (out_world v') = 0"
proof (induction "length xs - k" arbitrary: k v rule: less_induct)
  case less
  have "unat (of_nat k + m) = k + unat m"
    using less.prems(4) m(2) by (subst unat_add_lem[THEN iffD1]) simp_all
  then have more_iff: "chunk_offset v + m < stream_length v \<longleftrightarrow> k + unat m < length xs"
    using less.prems m by (simp add: word_less_nat_alt)
  show ?case
  proof (cases "k + unat m < length xs")
    case False
    then show ?thesis using less.prems more_iff by (subst discard_loop.simps) simp
  next
    case True
    have off: "off (out_world v) = k + unat m" "off (out_world v) \<le> length xs"
      using True less.prems by simp_all
    obtain cd w where call: "call_ll_out ll v = v\<lparr>out_ret := TF_E_OK,
          stream_length := of_nat (length xs), chunk_offset := of_nat (off (out_world v)), chunk_data := cd, out_world := w\<rparr>"
        (is "_ = ?v") and cd: "length cd = unat m"
        and w: "off w = (if off (out_world v) + unat m < length xs then off (out_world v) + unat m else 0)"
      using src less.prems(5) off(2) by (rule call_source)
    have step: "discard_loop ll m v = discard_loop ll m ?v"
      using True more_iff call by (subst discard_loop.simps) (simp add: Let_def)
    have "0 < unat m" using m(1) by (simp add: word_less_nat_alt)
    with True have "length xs - (k + unat m) < length xs - k" by simp
    from less.hyps[OF this, of ?v] show ?thesis
      unfolding step using True off w cd by simp
  qed
qed


lemma stream_codes_distinct: "TF_E_OK \<noteq> TF_E_INTERNAL_STREAM_HAS_NO_DATA"
  by (simp add: TF_E_OK_def TF_E_INTERNAL_STREAM_HAS_NO_DATA_def)

text \<open>
  Claim C25. Reading a stream from a device that serves it returns the whole array, whatever its
  length, if the device is at the start of the stream: the buffer, if there is one, holds the array, the
  number of items is its length and the device is at the start again. If the device is somewhere in the
  stream, for instance because an earlier read was interrupted, \<^verbatim>\<open>TF_E_STREAM_OUT_OF_SYNC\<close> is
  returned with no items, and the rest of the stream is discarded up to its end, so that the next call
  is in sync. Both loops end and stay within the buffers.
\<close>

theorem stream_out_reads_or_resyncs:
  fixes m :: u32
  assumes "stream_source ll off xs (unat m)" "0 < m" "length xs + unat m < 2 ^ 32"
    and "off w \<le> length xs" "length cd = unat m" "\<And>b. rs = Some b \<Longrightarrow> length xs \<le> length b"
  shows "\<exists>w'. off w' = 0 \<and> tf_stream_out ll w rs cd m (tf_copy_items z) =
    Some (if off w = 0
          then (TF_E_OK, map_option (\<lambda>b. xs @ drop (length xs) b) rs, of_nat (length xs), w')
          else (TF_E_STREAM_OUT_OF_SYNC, rs, 0, w'))"
proof -
  define v where "v = \<lparr>out_ret = TF_E_OK, stream_length = 0, out_of_sync = False, chunk_offset = 0,
    chunk_data = cd, ret_stream = rs, ret_stream_read = 0, out_world = w\<rparr>"
  have v: "length (chunk_data v) = unat m" "off (out_world v) \<le> length xs"
    using assms by (simp_all add: v_def)
  obtain cd1 w1 where call: "call_ll_out ll v = v\<lparr>out_ret := TF_E_OK,
        stream_length := of_nat (length xs), chunk_offset := of_nat (off (out_world v)), chunk_data := cd1, out_world := w1\<rparr>"
        (is "_ = ?v") and cd1: "length cd1 = unat m"
        "take (length xs - off (out_world v)) cd1 = take (unat m) (drop (off (out_world v)) xs)"
      and w1: "off w1 = (if off (out_world v) + unat m < length xs then off (out_world v) + unat m else 0)"
    using assms(1) v by (rule call_source)
  have "off w < 2 ^ 32" using assms by simp
  then have sync_iff: "of_nat (off w) = (0 :: u32) \<longleftrightarrow> off w = 0" by (rule of_nat_u32_0_iff)
  show ?thesis
  proof (cases "off w = 0")
    case True
    have v1: "read_so_far rs xs 0 ?v" "chunk_offset ?v = of_nat 0" "length (chunk_data ?v) = unat m"
        "take (length xs - 0) (chunk_data ?v) = take (unat m) (drop 0 xs)"
      using True cd1 by (cases rs, simp_all add: read_so_far_def v_def)
    obtain v2 where v2: "take_chunk (tf_copy_items z) m ?v = Some v2"
        "read_so_far rs xs (0 + min (unat m) (length xs - 0)) v2"
        "chunk_data v2 = chunk_data ?v" "out_world v2 = out_world ?v"
      using v1(1,2) _ assms(3) v1(3,4) assms(6) by (rule take_chunk_in_sync) simp
    have "\<exists>v'. stream_out_loop ll (tf_copy_items z) m v2 = Some v' \<and> read_so_far rs xs (length xs) v'
      \<and> off (out_world v') = 0"
      by (rule stream_out_loop_source[OF assms(1-3,6) v2(2)])
         (use v2(3,4) cd1(1) w1 True in \<open>auto simp: v_def min_def\<close>)
    then obtain v' where v': "stream_out_loop ll (tf_copy_items z) m v2 = Some v'"
      "read_so_far rs xs (length xs) v'" "off (out_world v') = 0" by blast
    have "?v\<lparr>out_of_sync := False\<rparr> = ?v" by (simp add: v_def)
    then show ?thesis using True call sync_iff v2(1) v'
      by (intro exI[of _ "out_world v'"])
         (simp add: tf_stream_out_def Let_def read_so_far_def flip: v_def,
          simp add: v_def stream_codes_distinct)
  next
    case False
    define u where "u = ?v\<lparr>out_of_sync := True, ret_stream_read := 0\<rparr>"
    have "\<exists>v'. discard_loop ll m u = Some v' \<and> out_ret v' = TF_E_OK \<and> ret_stream v' = ret_stream u
      \<and> ret_stream_read v' = ret_stream_read u \<and> off (out_world v') = 0"
      by (rule discard_loop_source[OF assms(1-3)]) (use v cd1 w1 in \<open>simp_all add: u_def\<close>)
    then obtain v' where "discard_loop ll m u = Some v'" "out_ret v' = TF_E_OK"
      "ret_stream v' = rs" "ret_stream_read v' = 0" "off (out_world v') = 0"
      by (auto simp: u_def v_def)
    then show ?thesis using False call sync_iff
      by (intro exI[of _ "out_world v'"])
         (simp add: tf_stream_out_def Let_def u_def flip: v_def,
          simp add: v_def stream_codes_distinct)
  qed
qed


definition serve :: "'a \<Rightarrow> 'a list \<Rightarrow> nat \<Rightarrow> (nat, 'a) ll_stream_out" where
  "serve z xs m w sl co cd = (TF_E_OK, of_nat (length xs), of_nat w,
     take m (drop w xs @ replicate m z), if w + m < length xs then w + m else 0)"

lemma serve_is_source: "stream_source (serve z xs m) (\<lambda>w. w) xs m"
  by (auto simp: stream_source_def serve_def min_def)

theorem stream_out_reads_or_resyncs_witness:
  "tf_stream_out (serve 0 [1, 2, 3, 4, 5 :: byte] 2) 0 (Some [9, 9, 9, 9, 9, 9, 9]) [0, 0] 2 (tf_copy_items 0)
     = Some (TF_E_OK, Some [1, 2, 3, 4, 5, 9, 9], 5, 0)
   \<and> tf_stream_out (serve 0 [1, 2, 3, 4, 5 :: byte] 2) 2 (Some [9, 9, 9, 9, 9, 9, 9]) [0, 0] 2 (tf_copy_items 0)
     = Some (TF_E_STREAM_OUT_OF_SYNC, Some [9, 9, 9, 9, 9, 9, 9], 0, 0)"
  using stream_out_reads_or_resyncs[OF serve_is_source, of 2 "[1, 2, 3, 4, 5 :: byte]" 0 "[0, 0]" "Some [9, 9, 9, 9, 9, 9, 9]" 0 0]
    stream_out_reads_or_resyncs[OF serve_is_source, of 2 "[1, 2, 3, 4, 5 :: byte]" 2 "[0, 0]" "Some [9, 9, 9, 9, 9, 9, 9]" 0 0]
  by simp

subsection \<open>A device that collects a stream\<close>

text \<open>
  The low level setter of a device: when the chunk continues what the device has \<open>received\<close>, and the
  call succeeds, the device reports how many items it took and has appended these. It may take fewer
  than it was offered (a short write), and the call may fail.
\<close>

definition stream_sink :: "('w, 'a) ll_stream_in \<Rightarrow> ('w \<Rightarrow> 'a list) \<Rightarrow> nat \<Rightarrow> bool" where
  "stream_sink ll received m \<longleftrightarrow>
    (\<forall>w sl co cd cw. length cd = m \<longrightarrow> unat co = length (received w) \<longrightarrow> co < sl \<longrightarrow>
      (case ll w sl co cd cw of (ret, n, w') \<Rightarrow> ret = TF_E_OK \<longrightarrow>
         unat n \<le> min m (unat sl - unat co) \<and> received w' = received w @ take (unat n) cd))"

text \<open>A device that never fails and takes all it is offered.\<close>

definition takes_all :: "('w, 'a) ll_stream_in \<Rightarrow> nat \<Rightarrow> bool" where
  "takes_all ll m \<longleftrightarrow> (\<forall>w sl co cd cw. case ll w sl co cd cw of (ret, n, w') \<Rightarrow>
      ret = TF_E_OK \<and> unat n = min m (unat sl - unat co))"

definition written_prefix ::
  "('w \<Rightarrow> 'a list) \<Rightarrow> 'a list \<Rightarrow> bool \<Rightarrow> (int \<times> u32 option \<times> 'w) option \<Rightarrow> bool" where
  "written_prefix received xs whole r \<longleftrightarrow> (\<exists>ret n w. r = Some (ret, Some n, w)
    \<and> (if ret = TF_E_OK then received w = take (unat n) xs \<and> unat n \<le> length xs else n = 0)
    \<and> (whole \<longrightarrow> ret = TF_E_OK \<and> unat n = length xs))"

lemma stream_in_loop_sink:
  assumes sink: "stream_sink ll received (unat m)" and m: "0 < m" "length xs + unat m < 2 ^ 32"
  shows "received w = take k xs \<Longrightarrow> k \<le> length xs \<Longrightarrow> length cd = unat m
    \<Longrightarrow> written_prefix received xs (takes_all ll (unat m))
        (stream_in_loop ll (tf_copy_items z) m xs (of_nat (length xs)) (of_nat k) cd cw
          (Some (of_nat k)) TF_E_OK w)"
proof (induction "length xs - k" arbitrary: k w cd cw rule: less_induct)
  case less
  let ?N = "length xs"
  have k32: "unat (of_nat k :: u32) = k" "unat (of_nat ?N :: u32) = ?N"
    using less.prems m by simp_all
  show ?case
  proof (cases "k < ?N")
    case False
    then show ?thesis using less.prems k32
      by (subst stream_in_loop.simps) (simp add: written_prefix_def word_less_nat_alt)
  next
    case True
    define cl where "cl = (if of_nat ?N - of_nat k > m then m else of_nat ?N - of_nat k)"
    have cl: "unat cl = min (unat m) (?N - k)"
      unfolding cl_def using less.prems m by (intro chunk_length_eq) simp_all
    have pad: "unat (m - cl) = unat m - unat cl" using cl by (subst unat_sub) (simp_all add: word_le_nat_alt)
    define chunk where "chunk = take (unat cl) (drop k xs) @ replicate (unat m - unat cl) z"
    have copies: "tf_copy_items z cd 0 (Some xs) k (unat cl) = Some (take (unat cl) (drop k xs) @ drop (unat cl) cd)"
      "tf_copy_items z (take (unat cl) (drop k xs) @ drop (unat cl) cd) (unat cl) None 0 (unat (m - cl)) = Some chunk"
      using less.prems cl by (simp_all add: pad chunk_def)
    obtain ret n w' where call: "ll w (of_nat ?N) (of_nat k) chunk cw = (ret, n, w')" by (metis prod_cases3)
    have len: "length chunk = unat m" using cl by (simp add: chunk_def)
    have took: "unat n \<le> min (unat m) (?N - k)" "received w' = received w @ take (unat n) chunk"
      if "ret = TF_E_OK"
      using sink[unfolded stream_sink_def, rule_format, of chunk "of_nat k" w "of_nat ?N" cw]
        that call len less.prems True k32 by (auto simp: word_less_nat_alt)
    have received: "received w' = take (k + unat n) xs" if "ret = TF_E_OK"
      using took[OF that] cl less.prems by (simp add: chunk_def take_add)
    have total: "unat (of_nat k + n) = k + unat n" if "ret = TF_E_OK"
      using took[OF that] k32 m less.prems by (subst unat_add_lem[THEN iffD1]) simp_all
    have whole: "ret = TF_E_OK \<and> unat n = min (unat m) (?N - k)" if "takes_all ll (unat m)"
      using that call k32 unfolding takes_all_def by (metis (mono_tags, lifting) case_prod_conv)
    have step: "stream_in_loop ll (tf_copy_items z) m xs (of_nat ?N) (of_nat k) cd cw (Some (of_nat k)) TF_E_OK w
      = (if ret \<noteq> TF_E_OK then Some (ret, Some 0, w')
         else if n < m then Some (ret, Some (of_nat k + n), w')
         else stream_in_loop ll (tf_copy_items z) m xs (of_nat ?N) (of_nat k + m) chunk n
                (Some (of_nat k + n)) ret w')"
      using True copies call k32
      by (subst stream_in_loop.simps, unfold Let_def cl_def[symmetric]) (simp add: word_less_nat_alt)
    show ?thesis
    proof (cases "ret = TF_E_OK \<and> \<not> n < m")
      case False
      have "k + unat n = ?N" if "unat n = min (unat m) (?N - k)" "n < m"
        using that less.prems by (simp add: word_less_nat_alt min_def split: if_splits)
      then show ?thesis
        using False whole received total took less.prems
        unfolding step written_prefix_def by (auto simp: word_less_nat_alt)
    next
      case full: True
      then have n: "n = m" "k + unat m \<le> ?N" using took less.prems(2)
        by (auto simp: word_less_nat_alt word_unat_eq_iff)
      have "0 < unat m" using m by (simp add: word_less_nat_alt)
      then have "written_prefix received xs (takes_all ll (unat m))
        (stream_in_loop ll (tf_copy_items z) m xs (of_nat ?N) (of_nat (k + unat m)) chunk n
          (Some (of_nat (k + unat m))) TF_E_OK w')"
        using True n received full len by (intro less.hyps) simp_all
      then show ?thesis using full n unfolding step by simp
    qed
  qed
qed


definition collect :: "nat \<Rightarrow> ('a list, 'a) ll_stream_in" where
  "collect m w sl co cd cw =
    (let n = min m (unat sl - unat co) in (TF_E_OK, of_nat n, w @ take n cd))"

lemma collect_is_sink:
  assumes "m < 2 ^ 32"
  shows "stream_sink (collect m) (\<lambda>w :: 'a list. w) m" and "takes_all (collect m :: ('a list, 'a) ll_stream_in) m"
proof -
  have "min m n < 2 ^ 32" for n using assms by (rule min.strict_coboundedI1)
  then show "stream_sink (collect m) (\<lambda>w :: 'a list. w) m"
    and "takes_all (collect m :: ('a list, 'a) ll_stream_in) m"
    by (simp_all add: stream_sink_def takes_all_def collect_def Let_def)
qed



subsection \<open>The messages of the RS485 Bricklet\<close>

text \<open>
  A message arrives as callbacks with 60 bytes each. \<open>rs485_messages\<close> lists the calls of the handler for
  a sequence of callbacks; \<open>idle_hlc\<close> is the state after registering the handler, \<open>assembling_hlc\<close> the
  one after the first \<open>k\<close> callbacks of a message.
\<close>

definition message_chunk :: "byte list \<Rightarrow> nat \<Rightarrow> u16 \<times> u16 \<times> byte list" where
  "message_chunk xs k = (of_nat (length xs), of_nat (60 * k), take 60 (drop (60 * k) xs @ replicate 60 0))"

definition chunk_count :: "byte list \<Rightarrow> nat" where
  "chunk_count xs = (length xs + 59) div 60"

fun rs485_messages :: "byte TF_HighLevelCallback \<Rightarrow> (u16 \<times> u16 \<times> byte list) list
    \<Rightarrow> ((byte list option \<times> u16) list \<times> byte TF_HighLevelCallback) option" where
  "rs485_messages hlc [] = Some ([], hlc)"
| "rs485_messages hlc ((len, co, cd) # cs) = do {
     (call, hlc) \<leftarrow> tf_rs485_read_wrapper hlc len co cd;
     (calls, hlc) \<leftarrow> rs485_messages hlc cs;
     Some (case call of None \<Rightarrow> calls | Some c \<Rightarrow> c # calls, hlc)
   }"

definition idle_hlc :: "byte list \<Rightarrow> byte TF_HighLevelCallback" where
  "idle_hlc b = \<lparr>hlc_data = Some b, hlc_length = 0, stream_in_progress = False\<rparr>"

definition assembling_hlc :: "byte list \<Rightarrow> byte list \<Rightarrow> nat \<Rightarrow> byte TF_HighLevelCallback" where
  "assembling_hlc b xs k = \<lparr>hlc_data = Some (take (60 * k) xs @ drop (60 * k) b),
     hlc_length = of_nat (60 * k), stream_in_progress = True\<rparr>"

lemma chunk_count_iff: "k < chunk_count xs \<longleftrightarrow> 60 * k < length xs"
  using less_eq_div_iff_mult_less_eq[of 60 "Suc k" "length xs + 59"]
  by (auto simp: chunk_count_def)

lemma u16_to_u32: "n < 2 ^ 16 \<Longrightarrow> (ucast (of_nat n :: u16) :: u32) = of_nat n"
  by (simp add: unsigned_of_nat take_bit_nat_eq_self)

lemma store_message_chunk:
  assumes "60 * k \<le> length xs" "length xs < 2 ^ 16" "length xs \<le> length b"
  shows "store_chunk (tf_copy_items z) (of_nat (60 * k)) (take 60 (drop (60 * k) xs @ replicate 60 0))
      (if of_nat (length xs) - of_nat (60 * k) > (60 :: u32) then 60 else of_nat (length xs) - of_nat (60 * k))
      (Some (take (60 * k) xs @ drop (60 * k) b))
    = Some (Some (take (60 * k + min 60 (length xs - 60 * k)) xs
        @ drop (60 * k + min 60 (length xs - 60 * k)) b))"
    (is "store_chunk _ _ _ ?cl _ = _")
proof -
  have cl: "unat ?cl = min 60 (length xs - 60 * k)"
    using assms by (subst chunk_length_eq) simp_all
  have at_offset: "unat (of_nat (60 * k) :: u32) = 60 * k" using assms by (intro unat_of_nat_u32) simp
  have "take (min 60 (length xs - 60 * k)) (take 60 (drop (60 * k) xs @ replicate 60 0)) = take 60 (drop (60 * k) xs)"
    by (simp add: min_def)
  then show ?thesis
    using assms append_chunk[of "60 * k" xs b "min 60 (length xs - 60 * k)" 60]
    unfolding store_chunk_def option.case at_offset cl by (subst tf_copy_items_some) simp_all
qed


lemma read_wrapper_in_sync:
  assumes "60 * k < length xs" "length xs < 2 ^ 16" "length xs \<le> length b"
    and h: "h = (if k = 0 then idle_hlc b else assembling_hlc b xs k)"
    and c: "message_chunk xs k = (len, co, cd)"
  shows "tf_rs485_read_wrapper h len co cd = Some (if length xs \<le> 60 * Suc k
      then (Some (Some (xs @ drop (length xs) b), of_nat (length xs)), idle_hlc (xs @ drop (length xs) b))
      else (None, assembling_hlc b xs (Suc k)))"
proof -
  define cl :: u32 where "cl = (if of_nat (length xs) - of_nat (60 * k) > (60 :: u32) then 60
    else of_nat (length xs) - of_nat (60 * k))"
  have cl: "unat cl = min 60 (length xs - 60 * k)"
    unfolding cl_def using assms by (subst chunk_length_eq) simp_all
  define l where "l = 60 * k + min 60 (length xs - 60 * k)"
  have l: "of_nat (60 * k) + cl = of_nat l" by (simp add: l_def flip: cl)
  have l_bounds: "0 < l" "l < 2 ^ 32" "length xs \<le> l \<longleftrightarrow> length xs \<le> 60 * Suc k" "l \<le> length xs"
    using assms(1,2) by (auto simp: l_def)
  have store: "store_chunk (tf_copy_items 0) (of_nat (60 * k)) cd cl (Some (take (60 * k) xs @ drop (60 * k) b))
    = Some (Some (take l xs @ drop l b))"
    using store_message_chunk[of k xs b 0] assms c by (simp add: l_def cl_def message_chunk_def)
  have widths: "ucast len = (of_nat (length xs) :: u32)" "ucast co = (of_nat (60 * k) :: u32)"
    "len = of_nat (length xs)"
    using c assms by (auto simp: message_chunk_def u16_to_u32 simp del: of_nat_mult)
  have complete: "(of_nat (length xs) :: u32) \<le> of_nat l \<longleftrightarrow> length xs \<le> l"
    using assms l_bounds by (simp add: word_le_nat_alt)
  have nonempty: "of_nat l \<noteq> (0 :: u32)" using l_bounds by (simp only: of_nat_u32_0_iff)
  have "tf_stream_out_callback h (of_nat (length xs)) (of_nat (60 * k)) cd 60 (tf_copy_items 0)
    = Some (length xs \<le> l, \<lparr>hlc_data = Some (take l xs @ drop l b), hlc_length = of_nat l,
        stream_in_progress = True\<rparr>)"
    unfolding tf_stream_out_callback_def Let_def cl_def[symmetric] h
    using store l complete
    by (cases "k = 0") (simp_all add: idle_hlc_def assembling_hlc_def del: of_nat_mult)
  moreover have "l = 60 * Suc k" if "\<not> length xs \<le> l" using that by (auto simp: l_def min_def split: if_splits)
  ultimately show ?thesis
    unfolding tf_rs485_read_wrapper_def widths(1,2)
    using l_bounds nonempty widths(3) by (auto simp: idle_hlc_def assembling_hlc_def)
qed


lemma read_wrapper_ignores:
  assumes "0 < k" "60 * k < 2 ^ 16" "message_chunk xs k = (len, co, cd)"
  shows "tf_rs485_read_wrapper (idle_hlc b) len co cd = Some (None, idle_hlc b)"
proof -
  have "co = of_nat (60 * k)" using assms(3) by (simp add: message_chunk_def)
  then have "(ucast co :: u32) = of_nat (60 * k)" using assms(2) by (simp only: u16_to_u32)
  moreover have "of_nat (60 * k) \<noteq> (0 :: u32)" using assms by (subst of_nat_u32_0_iff) simp_all
  ultimately show ?thesis
    by (simp add: tf_rs485_read_wrapper_def tf_stream_out_callback_def idle_hlc_def)
qed

lemma read_wrapper_out_of_sync:
  assumes "j \<noteq> k" "60 * j < 2 ^ 16" "60 * k < 2 ^ 16" "message_chunk xs k = (len, co, cd)"
  shows "tf_rs485_read_wrapper (assembling_hlc b ys j) len co cd
    = Some (Some (None, len), idle_hlc (take (60 * j) ys @ drop (60 * j) b))"
proof -
  have "co = of_nat (60 * k)" using assms(4) by (simp add: message_chunk_def)
  then have "(ucast co :: u32) = of_nat (60 * k)" using assms(3) by (simp only: u16_to_u32)
  moreover have "unat (of_nat (60 * k) :: u32) \<noteq> unat (of_nat (60 * j) :: u32)"
    using assms by (subst (1 2) unat_of_nat_u32) simp_all
  then have "of_nat (60 * k) \<noteq> (of_nat (60 * j) :: u32)" by (rule contrapos_nn) simp
  ultimately show ?thesis
    by (simp add: tf_rs485_read_wrapper_def tf_stream_out_callback_def assembling_hlc_def idle_hlc_def
        Let_def del: of_nat_mult)
qed

lemma rs485_messages_append:
  "rs485_messages h (cs @ ds) = do {
     (calls, h) \<leftarrow> rs485_messages h cs; (calls', h) \<leftarrow> rs485_messages h ds; Some (calls @ calls', h) }"
  by (induction h cs rule: rs485_messages.induct)
     (auto simp: split_def bind_assoc split: Option.bind_splits option.splits)

lemma messages_ignored:
  assumes "\<And>k. k \<in> set ks \<Longrightarrow> 0 < k \<and> 60 * k < 2 ^ 16"
  shows "rs485_messages (idle_hlc b) (map (message_chunk xs) ks) = Some ([], idle_hlc b)"
  using assms
proof (induction ks)
  case (Cons k ks)
  obtain len co cd where "message_chunk xs k = (len, co, cd)" by (metis prod_cases3)
  with Cons read_wrapper_ignores[of k xs len co cd b] show ?case by simp
qed simp

lemma messages_partial:
  assumes "length xs < 2 ^ 16" "length xs \<le> length b" "60 * k < length xs"
  shows "rs485_messages (idle_hlc b) (map (message_chunk xs) [0..<k])
    = Some ([], if k = 0 then idle_hlc b else assembling_hlc b xs k)"
  using assms(3)
proof (induction k)
  case (Suc k)
  obtain len co cd where c: "message_chunk xs k = (len, co, cd)" by (metis prod_cases3)
  have k: "60 * k < length xs" using Suc.prems by simp
  from Suc.IH[OF k] read_wrapper_in_sync[OF k assms(1,2) refl c] c Suc.prems show ?case
    by (simp add: rs485_messages_append)
qed simp

lemma messages_complete:
  assumes "length xs < 2 ^ 16" "length xs \<le> length b" "xs \<noteq> []"
  shows "rs485_messages (idle_hlc b) (map (message_chunk xs) [0..<chunk_count xs])
    = Some ([(Some (xs @ drop (length xs) b), of_nat (length xs))], idle_hlc (xs @ drop (length xs) b))"
proof -
  define k where "k = chunk_count xs - 1"
  have n: "chunk_count xs = Suc k" using assms(3) by (cases xs) (simp_all add: k_def chunk_count_def)
  then have k: "60 * k < length xs" "length xs \<le> 60 * Suc k"
    using chunk_count_iff[of k xs] chunk_count_iff[of "Suc k" xs] by simp_all
  obtain len co cd where c: "message_chunk xs k = (len, co, cd)" by (metis prod_cases3)
  from messages_partial[OF assms(1,2) k(1)] read_wrapper_in_sync[OF k(1) assms(1,2) refl c] c k(2)
  show ?thesis unfolding n by (simp add: rs485_messages_append)
qed


lemma messages_out_of_sync:
  assumes "j \<noteq> k" "60 * j < 2 ^ 16" "60 * k < 2 ^ 16" "\<And>i. i \<in> set ks \<Longrightarrow> 0 < i \<and> 60 * i < 2 ^ 16"
  shows "rs485_messages (assembling_hlc b ys j) (map (message_chunk xs) (k # ks))
    = Some ([(None, of_nat (length xs))], idle_hlc (take (60 * j) ys @ drop (60 * j) b))"
proof -
  obtain len co cd where c: "message_chunk xs k = (len, co, cd)" by (metis prod_cases3)
  then have "len = of_nat (length xs)" by (simp add: message_chunk_def)
  with c read_wrapper_out_of_sync[OF assms(1-3) c] messages_ignored[OF assms(4)]
  show ?thesis by simp
qed

text \<open>
  Claim C27. The handler for messages of the RS485 Bricklet gets every message that arrives completely,
  exactly once and with its contents, and the next message then finds a clean state. If one callback of
  a message is lost, the handler never sees wrong contents: it is called once with a null pointer and
  the rest is ignored, or not called at all if the first callback was the lost one; either way the next
  message is not affected. If the last callback is lost, this is noticed only in the next message: that
  one is then reported with a null pointer, although it arrived completely.
\<close>

theorem rs485_message_delivery:
  assumes "length xs < 2 ^ 16" "length xs \<le> length b" "xs \<noteq> []" "j < chunk_count xs"
    and "length ys < 2 ^ 16" "ys \<noteq> []"
  shows "rs485_messages (idle_hlc b) (map (message_chunk xs) [0..<chunk_count xs])
      = Some ([(Some (xs @ drop (length xs) b), of_nat (length xs))], idle_hlc (xs @ drop (length xs) b))
    \<and> (Suc j < chunk_count xs \<or> j = 0 \<longrightarrow>
        rs485_messages (idle_hlc b) (map (message_chunk xs) ([0..<j] @ [Suc j..<chunk_count xs]))
        = Some (if j = 0 then [] else [(None, of_nat (length xs))], idle_hlc (take (60 * j) xs @ drop (60 * j) b)))
    \<and> (Suc j = chunk_count xs \<and> j \<noteq> 0 \<longrightarrow>
        rs485_messages (idle_hlc b)
          (map (message_chunk xs) [0..<j] @ map (message_chunk ys) [0..<chunk_count ys])
        = Some ([(None, of_nat (length ys))], idle_hlc (take (60 * j) xs @ drop (60 * j) b)))"
proof (intro conjI impI)
  show "rs485_messages (idle_hlc b) (map (message_chunk xs) [0..<chunk_count xs])
      = Some ([(Some (xs @ drop (length xs) b), of_nat (length xs))], idle_hlc (xs @ drop (length xs) b))"
    using assms(1-3) by (rule messages_complete)
  have j: "60 * j < length xs" using assms(4) by (simp add: chunk_count_iff)
  note upto_j = messages_partial[OF assms(1,2) j]
  show "rs485_messages (idle_hlc b) (map (message_chunk xs) ([0..<j] @ [Suc j..<chunk_count xs]))
        = Some (if j = 0 then [] else [(None, of_nat (length xs))], idle_hlc (take (60 * j) xs @ drop (60 * j) b))"
    if "Suc j < chunk_count xs \<or> j = 0"
  proof (cases "j = 0")
    case True
    moreover have "rs485_messages (idle_hlc b) (map (message_chunk xs) [Suc 0..<chunk_count xs])
        = Some ([], idle_hlc b)" using assms(1) by (intro messages_ignored) (auto simp: chunk_count_iff)
    ultimately show ?thesis by simp
  next
    case False
    then have tail: "[Suc j..<chunk_count xs] = Suc j # [Suc (Suc j)..<chunk_count xs]"
      using that by (simp add: upt_conv_Cons)
    have "60 * Suc j < length xs" using that False chunk_count_iff[of "Suc j" xs] by simp
    then have "rs485_messages (assembling_hlc b xs j) (map (message_chunk xs) (Suc j # [Suc (Suc j)..<chunk_count xs]))
      = Some ([(None, of_nat (length xs))], idle_hlc (take (60 * j) xs @ drop (60 * j) b))"
      using j assms(1) by (intro messages_out_of_sync) (auto simp: chunk_count_iff)
    then show ?thesis using upto_j False by (simp add: rs485_messages_append tail)
  qed
  show "rs485_messages (idle_hlc b)
          (map (message_chunk xs) [0..<j] @ map (message_chunk ys) [0..<chunk_count ys])
        = Some ([(None, of_nat (length ys))], idle_hlc (take (60 * j) xs @ drop (60 * j) b))"
    if "Suc j = chunk_count xs \<and> j \<noteq> 0"
  proof -
    have "0 < chunk_count ys" using assms(6) chunk_count_iff[of 0 ys] by simp
    then have "[0..<chunk_count ys] = 0 # [Suc 0..<chunk_count ys]" by (simp add: upt_conv_Cons)
    moreover have "rs485_messages (assembling_hlc b xs j) (map (message_chunk ys) (0 # [Suc 0..<chunk_count ys]))
      = Some ([(None, of_nat (length ys))], idle_hlc (take (60 * j) xs @ drop (60 * j) b))"
      using j that assms(1,5) by (intro messages_out_of_sync) (auto simp: chunk_count_iff)
    ultimately show ?thesis using upto_j that by (simp add: rs485_messages_append)
  qed
qed


theorem rs485_message_delivery_witness:
  "rs485_messages (idle_hlc (replicate 200 7))
      (map (message_chunk (replicate 70 1)) [0] @ map (message_chunk [5]) [0])
    = Some ([(None, 1)], idle_hlc (replicate 60 1 @ replicate 140 7))
   \<and> rs485_messages (idle_hlc (replicate 200 7)) (map (message_chunk (replicate 70 1)) [0, 1])
    = Some ([(Some (replicate 70 1 @ replicate 130 7), 70)], idle_hlc (replicate 70 1 @ replicate 130 7))"
  using rs485_message_delivery[of "replicate 70 1" "replicate 200 7" 1 "[5]"]
  by (simp add: chunk_count_def upt_rec[of "Suc 0" 2] upt_rec[of 0 2] upt_rec[of 0 "Suc 0"] drop_replicate take_replicate)

end
