(* ===== verification/Charge_Types.thy ===== *)
theory Charge_Types
  imports Prelude "HOL-Library.Signed_Division"
begin

section \<open>Charge manager: currents, limits and chargers\<close>

text \<open>
  The charge manager distributes the available current over up to 64 chargers
  (\<^verbatim>\<open>modules/charge_manager/current_allocator.cpp\<close>). This theory holds its data: currents on the
  three grid phases and on the "phase" of the PV excess (\<^verbatim>\<open>current_limits.h\<close>), the state of a charger
  and of the allocator (\<^verbatim>\<open>charge_manager_private.h\<close>), and the decisions that explain an allocation.

  Currents are milliamperes and times are microseconds; both are far from the ends of their C types and
  are HOL integers. C's division rounds towards zero and is \<open>sdiv\<close>. The type of \<^verbatim>\<open>float\<close> is a parameter
  with its operations in the record \<open>float_ops\<close>.
\<close>

subsection \<open>Phases and their rotation\<close>

datatype GridPhase = GridPV | L1 | L2 | L3

text \<open>The phases of a charger are numbered from 1, as in \<^verbatim>\<open>enum class ChargerPhase\<close>.\<close>

datatype PhaseRotation = RotUnknown | RotNotApplicable | L123 | L132 | L231 | L213 | L321 | L312

fun grid_phase_code :: "GridPhase \<Rightarrow> nat" where
  "grid_phase_code GridPV = 0"
| "grid_phase_code L1 = 1"
| "grid_phase_code L2 = 2"
| "grid_phase_code L3 = 3"

definition grid_phase_of :: "nat \<Rightarrow> GridPhase" where
  "grid_phase_of n = (if n = 0 then GridPV else if n = 1 then L1 else if n = 2 then L2 else L3)"

definition PHASE_ROTATION :: "GridPhase \<Rightarrow> GridPhase \<Rightarrow> GridPhase \<Rightarrow> nat" where
  "PHASE_ROTATION x y z = push_bit 6 0 OR (push_bit 4 (grid_phase_code x) OR push_bit 2 (grid_phase_code y)
     OR grid_phase_code z)"

fun rotation_code :: "PhaseRotation \<Rightarrow> nat" where
  "rotation_code RotUnknown = 0"
| "rotation_code RotNotApplicable = 1"
| "rotation_code L123 = PHASE_ROTATION L1 L2 L3"
| "rotation_code L132 = PHASE_ROTATION L1 L3 L2"
| "rotation_code L231 = PHASE_ROTATION L2 L3 L1"
| "rotation_code L213 = PHASE_ROTATION L2 L1 L3"
| "rotation_code L321 = PHASE_ROTATION L3 L2 L1"
| "rotation_code L312 = PHASE_ROTATION L3 L1 L2"

definition get_phase :: "PhaseRotation \<Rightarrow> nat \<Rightarrow> GridPhase" where
  "get_phase rot phase = (if rot = RotUnknown then grid_phase_of phase
     else grid_phase_of (drop_bit (6 - 2 * phase) (rotation_code rot) AND 3))"

subsection \<open>Currents on all phases\<close>

datatype Cost = Cost (pv: int) (l1: int) (l2: int) (l3: int)

instantiation Cost :: ab_group_add
begin

definition zero_Cost :: Cost where
  "zero_Cost = Cost 0 0 0 0"

definition plus_Cost :: "Cost \<Rightarrow> Cost \<Rightarrow> Cost" where
  "plus_Cost a b = Cost (pv a + pv b) (l1 a + l1 b) (l2 a + l2 b) (l3 a + l3 b)"

definition minus_Cost :: "Cost \<Rightarrow> Cost \<Rightarrow> Cost" where
  "minus_Cost a b = Cost (pv a - pv b) (l1 a - l1 b) (l2 a - l2 b) (l3 a - l3 b)"

definition uminus_Cost :: "Cost \<Rightarrow> Cost" where
  "uminus_Cost a = Cost (- pv a) (- l1 a) (- l2 a) (- l3 a)"

instance
  by standard (simp_all add: zero_Cost_def plus_Cost_def minus_Cost_def uminus_Cost_def)

end

fun at_phase :: "Cost \<Rightarrow> GridPhase \<Rightarrow> int" where
  "at_phase c GridPV = pv c"
| "at_phase c L1 = l1 c"
| "at_phase c L2 = l2 c"
| "at_phase c L3 = l3 c"

fun set_phase :: "GridPhase \<Rightarrow> int \<Rightarrow> Cost \<Rightarrow> Cost" where
  "set_phase GridPV n c = Cost n (l1 c) (l2 c) (l3 c)"
| "set_phase L1 n c = Cost (pv c) n (l2 c) (l3 c)"
| "set_phase L2 n c = Cost (pv c) (l1 c) n (l3 c)"
| "set_phase L3 n c = Cost (pv c) (l1 c) (l2 c) n"

definition scale :: "int \<Rightarrow> Cost \<Rightarrow> Cost" where
  "scale n c = Cost (n * pv c) (n * l1 c) (n * l2 c) (n * l3 c)"

definition min_phase :: "Cost \<Rightarrow> int" where
  "min_phase c = min (l1 c) (min (l2 c) (l3 c))"

definition max_phase :: "Cost \<Rightarrow> int" where
  "max_phase c = max (l1 c) (max (l2 c) (l3 c))"

definition without_pv :: "Cost \<Rightarrow> Cost" where
  "without_pv c = Cost 0 (l1 c) (l2 c) (l3 c)"

text \<open>What the code uses of \<^verbatim>\<open>float\<close>; \<open>f_trunc\<close> is the conversion to \<^verbatim>\<open>int\<close>, \<open>f_div_double\<close> divides by a
  constant of type \<^verbatim>\<open>double\<close> and rounds the result to \<^verbatim>\<open>float\<close>.\<close>

record 'f float_ops =
  f_of_int :: "int \<Rightarrow> 'f"
  f_add :: "'f \<Rightarrow> 'f \<Rightarrow> 'f"
  f_mul :: "'f \<Rightarrow> 'f \<Rightarrow> 'f"
  f_div :: "'f \<Rightarrow> 'f \<Rightarrow> 'f"
  f_div_double :: "'f \<Rightarrow> int \<Rightarrow> 'f"
  f_less :: "'f \<Rightarrow> 'f \<Rightarrow> bool"
  f_trunc :: "'f \<Rightarrow> int"
  f_isnan :: "'f \<Rightarrow> bool"

definition f_scale_int :: "'f float_ops \<Rightarrow> 'f \<Rightarrow> int \<Rightarrow> int" where
  "f_scale_int fo f n = f_trunc fo (f_mul fo (f_of_int fo n) f)"

definition f_scale :: "'f float_ops \<Rightarrow> 'f \<Rightarrow> Cost \<Rightarrow> Cost" where
  "f_scale fo f c = Cost (f_scale_int fo f (pv c)) (f_scale_int fo f (l1 c)) (f_scale_int fo f (l2 c))
     (f_scale_int fo f (l3 c))"

record CurrentLimits =
  min_expiration_ts :: "GridPhase \<Rightarrow> int"
  max_pv_expiration_ts :: int
  lim_raw :: Cost
  lim_min :: Cost
  lim_spread :: Cost
  lim_max_pv :: int

subsection \<open>Decisions\<close>

text \<open>The unions are generated from \<^verbatim>\<open>* Phase Decision.union.py\<close> and \<^verbatim>\<open>Current Decision.union.py\<close>; the
  tags number the variants in their order.\<close>

datatype ZeroPhaseDecision = ZeroNone | ZeroYesWaitingForRotation int | ZeroYesNotActive | ZeroYesRotatedForB1
  | ZeroYesRotatedForHigherPrio | ZeroYesPhaseOverload int GridPhase | ZeroYesPVExcessOverload int
  | ZeroNoCloudFilterBlocksUntil int int | ZeroNoHysteresisBlocksUntil int

datatype OnePhaseDecision = OneNone | OneYesSwitchedToFixed1p | OneYesNormal | OneYesWelcomeChargeUntil int
  | OneYesWakingUp | OneNoPhaseMinimum int int int GridPhase | OneNoPhaseImprovement int int int GridPhase
  | OneNoForced3pUntil int | OneNoFixed3p | OneNoHysteresisBlockedUntil int

datatype ThreePhaseDecision = ThreeNone | ThreeYesSwitchedToFixed3p | ThreeYesNormal
  | ThreeYesUnknownRotSwitchable | ThreeYesWelcomeChargeUntil int | ThreeYesWakingUp
  | ThreeNoPhaseMinimum int int int GridPhase | ThreeNoPhaseImprovement int int int GridPhase
  | ThreeNoForced1pUntil int | ThreeNoFixed1p | ThreeNoHysteresisBlockedUntil int

datatype CurrentDecision = CurNone | CurMinimum | CurEnableNotCharging | CurPhaseLimit bool | CurRequested
  | CurFair bool | CurGuaranteedPV | CurFastRampUp | CurSupportedByCharger | CurLeftOver bool | CurUserLimit

fun zero_tag :: "ZeroPhaseDecision \<Rightarrow> nat" where
  "zero_tag ZeroNone = 0"
| "zero_tag (ZeroYesWaitingForRotation _) = 1"
| "zero_tag ZeroYesNotActive = 2"
| "zero_tag ZeroYesRotatedForB1 = 3"
| "zero_tag ZeroYesRotatedForHigherPrio = 4"
| "zero_tag (ZeroYesPhaseOverload _ _) = 5"
| "zero_tag (ZeroYesPVExcessOverload _) = 6"
| "zero_tag (ZeroNoCloudFilterBlocksUntil _ _) = 7"
| "zero_tag (ZeroNoHysteresisBlocksUntil _) = 8"

fun one_tag :: "OnePhaseDecision \<Rightarrow> nat" where
  "one_tag OneNone = 0"
| "one_tag OneYesSwitchedToFixed1p = 1"
| "one_tag OneYesNormal = 2"
| "one_tag (OneYesWelcomeChargeUntil _) = 3"
| "one_tag OneYesWakingUp = 4"
| "one_tag (OneNoPhaseMinimum _ _ _ _) = 5"
| "one_tag (OneNoPhaseImprovement _ _ _ _) = 6"
| "one_tag (OneNoForced3pUntil _) = 7"
| "one_tag OneNoFixed3p = 8"
| "one_tag (OneNoHysteresisBlockedUntil _) = 9"

fun three_tag :: "ThreePhaseDecision \<Rightarrow> nat" where
  "three_tag ThreeNone = 0"
| "three_tag ThreeYesSwitchedToFixed3p = 1"
| "three_tag ThreeYesNormal = 2"
| "three_tag ThreeYesUnknownRotSwitchable = 3"
| "three_tag (ThreeYesWelcomeChargeUntil _) = 4"
| "three_tag ThreeYesWakingUp = 5"
| "three_tag (ThreeNoPhaseMinimum _ _ _ _) = 6"
| "three_tag (ThreeNoPhaseImprovement _ _ _ _) = 7"
| "three_tag (ThreeNoForced1pUntil _) = 8"
| "three_tag ThreeNoFixed1p = 9"
| "three_tag (ThreeNoHysteresisBlockedUntil _) = 10"

record ChargerDecision =
  d_zero :: ZeroPhaseDecision
  d_one :: OnePhaseDecision
  d_three :: ThreePhaseDecision
  d_current :: CurrentDecision

subsection \<open>Chargers and the allocator\<close>

record 'f CurrentAllocatorConfig =
  allocation_interval :: int
  global_hysteresis :: int
  wakeup_time :: int
  plug_in_time :: int
  rotation_interval :: int
  minimum_current_3p :: int
  minimum_current_1p :: int
  enable_current_factor :: 'f
  cfg_charger_count :: nat
  requested_current_margin :: int
  requested_current_threshold :: int

record CurrentAllocatorState =
  global_hysteresis_elapsed :: bool
  last_hysteresis_reset :: int
  next_rotation :: int
  control_window_min :: Cost
  control_window_max :: Cost

text \<open>Unsigned members are natural numbers with their bounds written out where they are assigned. Members that the
  allocator never reads or writes (the UID, the authentication data, the log) are left out.\<close>

record 'f ChargerState =
  last_update :: int
  uptime :: nat
  power_total_count :: nat
  power_total_sum :: 'f
  energy_abs :: 'f
  supported_current :: nat
  allowed_current :: nat
  requested_current :: nat
  user_current :: nat
  charger_state :: nat
  wants_to_charge :: bool
  wants_to_charge_low_priority :: bool
  is_charging :: bool
  cp_disconnect_supported :: bool
  cp_disconnect_state :: bool
  meter_supported :: bool
  phase_switch_supported :: bool
  currently_switching_phases :: bool
  phases :: nat
  phase_rotation :: PhaseRotation
  allocated_energy :: 'f
  allocated_average_power :: 'f
  last_switch_on :: int
  last_phase_switch :: int
  just_plugged_in_timestamp :: int
  last_plug_in :: int
  last_plug_out :: int
  last_wakeup :: int
  use_supported_current :: int
  time_in_state_c :: int
  charge_mode :: nat
  off :: bool
  observe_pv_limit :: bool
  eco_fast :: bool
  guaranteed_pv_current :: int

text \<open>\<^verbatim>\<open>CASState\<close> and \<^verbatim>\<open>CASError\<close> (the latter as its number, because client errors are computed).\<close>

datatype CASState = NoVehicle | UserBlocked | ManagerBlocked | CarBlocked | Charging | CASStateError | Charged
  | Unauthorized

abbreviation (input) CASError_OK :: nat where "CASError_OK \<equiv> 0"
abbreviation (input) CASError_ChargerUnreachable :: nat where "CASError_ChargerUnreachable \<equiv> 128"
abbreviation (input) CASError_EVSEUnreachable :: nat where "CASError_EVSEUnreachable \<equiv> 129"
abbreviation (input) CASError_EVSENonreactive :: nat where "CASError_EVSENonreactive \<equiv> 130"
abbreviation (input) CASError_ClientErrorOK :: nat where "CASError_ClientErrorOK \<equiv> 192"

record ChargerAllocationState =
  last_sent_config :: int
  allocated_current :: nat
  allocated_phases :: nat
  cp_disconnect :: bool
  cas_error :: nat
  cas_state :: CASState

abbreviation (input) ChargeMode_PV :: nat where "ChargeMode_PV \<equiv> 1"
abbreviation (input) ChargeMode_Min :: nat where "ChargeMode_Min \<equiv> 2"
abbreviation (input) ChargeMode_Eco :: nat where "ChargeMode_Eco \<equiv> 4"
abbreviation (input) ChargeMode_Fast :: nat where "ChargeMode_Fast \<equiv> 8"
abbreviation (input) ChargeMode_max :: nat where "ChargeMode_max \<equiv> 8"

record 'f StageContext =
  idx_array :: "nat list"
  current_allocation :: "int list"
  phase_allocation :: "nat list"
  charger_decisions :: "ChargerDecision list"
  sc_limits :: CurrentLimits
  charger_states :: "'f ChargerState list"
  charger_count :: nat
  unfiltered_charger_count :: nat
  sc_cfg :: "'f CurrentAllocatorConfig"
  ca_state :: CurrentAllocatorState
  charger_allocation_state :: "ChargerAllocationState list"
  charge_mode_filter :: nat
  sc_now :: int

definition elapsed :: "'f StageContext \<Rightarrow> int \<Rightarrow> bool" where
  "elapsed sc timestamp \<longleftrightarrow> timestamp < sc_now sc"

end
