(* ===== verification/Charge_Basics.thy ===== *)
theory Charge_Basics
  imports Charge_Types
begin

section \<open>Charge manager: filters, costs and decisions\<close>

text \<open>
  The functions of \<^verbatim>\<open>current_allocator.cpp\<close> that the stages of the allocation share. A filter or a
  comparison is a function of the indices of the chargers, from which the C++ macros build the context
  structures. Log and trace output is left out.
\<close>

subsection \<open>Filtering and sorting chargers\<close>

definition swap_at :: "nat \<Rightarrow> nat \<Rightarrow> 'a list \<Rightarrow> 'a list" where
  "swap_at i j xs = xs[i := xs ! j, j := xs ! i]"

text \<open>\<open>n\<close> iterations of the loop are left, \<open>i\<close> is the position.\<close>

fun filter_loop :: "(nat \<Rightarrow> bool) \<Rightarrow> nat \<Rightarrow> nat \<Rightarrow> nat \<Rightarrow> nat list \<Rightarrow> nat \<times> nat list" where
  "filter_loop P 0 i matches idx = (matches, idx)"
| "filter_loop P (Suc n) i matches idx =
    (if \<not> P (idx ! i) then filter_loop P n (i + 1) matches idx
     else filter_loop P n (i + 1) (matches + 1) (swap_at matches i idx))"

definition filter_chargers_impl ::
  "('f StageContext \<Rightarrow> nat \<Rightarrow> bool) \<Rightarrow> 'f StageContext \<Rightarrow> nat option \<Rightarrow> nat \<times> 'f StageContext" where
  "filter_chargers_impl P sc matched =
    (let limit = (case matched of None \<Rightarrow> charger_count sc | Some n \<Rightarrow> n)
     in case filter_loop (P sc) limit 0 0 (idx_array sc) of (matches, idx) \<Rightarrow>
          (matches, sc\<lparr>idx_array := idx\<rparr>))"

text \<open>\<^verbatim>\<open>std::stable_sort\<close> for a comparison that is a strict weak order.\<close>

fun insert_stable :: "('a \<Rightarrow> 'a \<Rightarrow> bool) \<Rightarrow> 'a \<Rightarrow> 'a list \<Rightarrow> 'a list" where
  "insert_stable lt x [] = [x]"
| "insert_stable lt x (y # ys) = (if lt y x then y # insert_stable lt x ys else x # y # ys)"

definition stable_sort :: "('a \<Rightarrow> 'a \<Rightarrow> bool) \<Rightarrow> 'a list \<Rightarrow> 'a list" where
  "stable_sort lt xs = foldr (insert_stable lt) xs []"

definition sort_chargers_impl ::
  "('f StageContext \<Rightarrow> nat \<Rightarrow> int) \<Rightarrow> ('f StageContext \<Rightarrow> nat \<Rightarrow> nat \<Rightarrow> bool) \<Rightarrow> 'f StageContext \<Rightarrow> nat
    \<Rightarrow> 'f StageContext" where
  "sort_chargers_impl grp compare sc matched =
    (let lt = (\<lambda>left right. if grp sc left \<noteq> grp sc right then grp sc left < grp sc right
                   else compare sc left right)
     in sc\<lparr>idx_array := stable_sort lt (take matched (idx_array sc)) @ drop matched (idx_array sc)\<rparr>)"

subsection \<open>Costs\<close>

definition get_phase_factors :: "nat \<Rightarrow> PhaseRotation \<Rightarrow> Cost" where
  "get_phase_factors allocated_ph rotation =
    (if allocated_ph = 0 then Cost 0 0 0 0
     else if allocated_ph = 3 then Cost 3 1 1 1
     else if rotation = RotUnknown then Cost 1 1 1 1
     else set_phase (get_phase rotation 1) 1 (Cost 1 0 0 0))"

definition get_cost :: "int \<Rightarrow> nat \<Rightarrow> PhaseRotation \<Rightarrow> int \<Rightarrow> nat \<Rightarrow> Cost" where
  "get_cost current_to_allocate phases_to_allocate rot allocated_cur allocated_ph =
    scale current_to_allocate (get_phase_factors phases_to_allocate rot)
      - scale allocated_cur (get_phase_factors allocated_ph rot)"

text \<open>The stages that call this are 6 to 9; any other number runs into an assertion.\<close>

definition cost_exceeds_limits :: "Cost \<Rightarrow> CurrentLimits \<Rightarrow> nat \<Rightarrow> bool \<Rightarrow> int \<Rightarrow> bool" where
  "cost_exceeds_limits cost limits stage observe_pv guaranteed_pv =
    (let exceeds = (\<lambda>lim. \<exists>p \<in> set [L1, L2, L3]. at_phase cost p > 0 \<and> at_phase lim p < at_phase cost p);
         pv_exceeds = (\<lambda>lim. observe_pv \<and> pv cost > 0 \<and> pv lim < pv cost \<and> pv cost > guaranteed_pv)
     in if stage = 6 then exceeds (lim_raw limits)
        else if stage = 7 \<or> stage = 8 then exceeds (lim_raw limits) \<or> pv_exceeds (lim_raw limits)
        else exceeds (lim_raw limits) \<or> pv_exceeds (lim_raw limits)
          \<or> exceeds (lim_min limits) \<or> pv_exceeds (lim_min limits))"

definition apply_cost :: "Cost \<Rightarrow> CurrentLimits \<Rightarrow> CurrentLimits" where
  "apply_cost cost limits = limits\<lparr>lim_raw := lim_raw limits - cost, lim_min := lim_min limits - cost,
     lim_spread := lim_spread limits - cost, lim_max_pv := lim_max_pv limits - pv cost\<rparr>"

definition get_minimum_cost :: "nat \<Rightarrow> PhaseRotation \<Rightarrow> 'f CurrentAllocatorConfig \<Rightarrow> Cost" where
  "get_minimum_cost allocated_ph rotation cfg =
    scale (if allocated_ph = 3 then minimum_current_3p cfg else minimum_current_1p cfg)
      (get_phase_factors allocated_ph rotation)"

text \<open>The minimum cost, the enable cost and the enable current per phase.\<close>

definition get_enable_cost ::
  "'f float_ops \<Rightarrow> 'f ChargerState \<Rightarrow> bool \<Rightarrow> bool \<Rightarrow> 'f CurrentAllocatorConfig \<Rightarrow> Cost \<times> Cost \<times> int" where
  "get_enable_cost fo state activate_3p have_active_chargers cfg =
    (let new_cost = get_minimum_cost (if activate_3p then 3 else 1) (phase_rotation state) cfg;
         new_enable_cost = f_scale fo
           (if have_active_chargers then enable_current_factor cfg else f_of_int fo 1) new_cost
     in (new_cost, new_enable_cost,
         if activate_3p \<or> phase_rotation state = RotUnknown then l1 new_enable_cost
         else at_phase new_enable_cost (get_phase (phase_rotation state) 1)))"

subsection \<open>Properties of a charger\<close>

definition is_active :: "nat \<Rightarrow> 'f ChargerState \<Rightarrow> bool" where
  "is_active allocated_ph state \<longleftrightarrow>
    allocated_ph > 0 \<and> (wants_to_charge state \<or> is_charging state) \<and> last_wakeup state = 0"

fun highest_mode_loop :: "'f ChargerState \<Rightarrow> nat list \<Rightarrow> nat" where
  "highest_mode_loop state [] = 0"
| "highest_mode_loop state (i # is) =
    (let bit = charge_mode state AND i in
     if bit = ChargeMode_Fast then ChargeMode_Fast
     else if bit = ChargeMode_Eco \<and> eco_fast state then ChargeMode_Eco
     else if bit = ChargeMode_Min then ChargeMode_Min
     else if bit = ChargeMode_PV then ChargeMode_PV
     else highest_mode_loop state is)"

definition get_highest_charge_mode_bit :: "'f ChargerState \<Rightarrow> nat" where
  "get_highest_charge_mode_bit state = highest_mode_loop state [8, 4, 2, 1]"

definition was_just_plugged_in :: "'f ChargerState \<Rightarrow> bool" where
  "was_just_plugged_in state \<longleftrightarrow> just_plugged_in_timestamp state \<noteq> 0 \<and> wants_to_charge state"

datatype CurrentCapacityLimit = LimSupportedByCharger | LimFastRampUp | LimRequestedByVehicle
  | LimLimitedByPhase | LimGuaranteed | LimUserLimit

definition get_requested_current ::
  "'f StageContext \<Rightarrow> 'f ChargerState \<Rightarrow> 'f CurrentAllocatorConfig \<Rightarrow> nat \<Rightarrow> int \<times> CurrentCapacityLimit" where
  "get_requested_current sc state cfg allocated_ph =
    (let reqd = int (requested_current state);
         lim = (if requested_current state < supported_current state then LimRequestedByVehicle
                else LimSupportedByCharger);
         (reqd, lim) = (if \<not> elapsed sc (use_supported_current state + requested_current_threshold cfg * 1000000)
                        then (int (supported_current state), LimFastRampUp) else (reqd, lim));
         guaranteed_current = guaranteed_pv_current state sdiv int allocated_ph;
         (reqd, lim) = (if get_highest_charge_mode_bit state = ChargeMode_Min
                           \<and> charge_mode state AND ChargeMode_PV = 0 \<and> guaranteed_current < reqd
                        then (guaranteed_current, LimGuaranteed) else (reqd, lim))
     in if int (user_current state) < reqd then (int (user_current state), LimUserLimit) else (reqd, lim))"

text \<open>The minimum over the phases a charger uses, starting from \<open>m\<close>.\<close>

definition min_used_phase :: "Cost \<Rightarrow> PhaseRotation \<Rightarrow> nat \<Rightarrow> int \<Rightarrow> int" where
  "min_used_phase c rot n m = foldl (\<lambda>m p. min m (at_phase c (get_phase rot p))) m [1..<1 + n]"

definition current_capacity ::
  "'f StageContext \<Rightarrow> 'f ChargerState \<Rightarrow> int \<Rightarrow> nat \<Rightarrow> bool \<Rightarrow> int \<times> CurrentCapacityLimit" where
  "current_capacity sc state allocated_cur allocated_ph ignore_requested_current =
    (let (reqd, lim) = (if \<not> ignore_requested_current then get_requested_current sc state (sc_cfg sc) allocated_ph
                        else (int (supported_current state), LimSupportedByCharger));
         (reqd, lim) = (if int (user_current state) < reqd then (int (user_current state), LimUserLimit)
                        else (reqd, lim));
         capacity = max (reqd - allocated_cur) 0;
         raw = lim_raw (sc_limits sc);
         smallest = (if allocated_ph = 3 \<or> phase_rotation state = RotUnknown then min_phase raw
                     else min_used_phase raw (phase_rotation state) allocated_ph 32000);
         (capacity, lim) = (if smallest < capacity then (smallest, LimLimitedByPhase) else (capacity, lim))
     in (int allocated_ph * capacity, lim))"


subsection \<open>Decisions\<close>

definition update_decision :: "nat \<Rightarrow> (ChargerDecision \<Rightarrow> ChargerDecision) \<Rightarrow> 'f StageContext \<Rightarrow> 'f StageContext" where
  "update_decision i f sc = sc\<lparr>charger_decisions := (charger_decisions sc)[i := f (charger_decisions sc ! i)]\<rparr>"

definition set_zero_decision :: "nat \<Rightarrow> ZeroPhaseDecision \<Rightarrow> 'f StageContext \<Rightarrow> 'f StageContext" where
  "set_zero_decision i d = update_decision i (\<lambda>r. r\<lparr>d_zero := d\<rparr>)"

definition set_one_decision :: "nat \<Rightarrow> OnePhaseDecision \<Rightarrow> 'f StageContext \<Rightarrow> 'f StageContext" where
  "set_one_decision i d = update_decision i (\<lambda>r. r\<lparr>d_one := d\<rparr>)"

definition set_three_decision :: "nat \<Rightarrow> ThreePhaseDecision \<Rightarrow> 'f StageContext \<Rightarrow> 'f StageContext" where
  "set_three_decision i d = update_decision i (\<lambda>r. r\<lparr>d_three := d\<rparr>)"

definition set_current_decision :: "nat \<Rightarrow> CurrentDecision \<Rightarrow> 'f StageContext \<Rightarrow> 'f StageContext" where
  "set_current_decision i d = update_decision i (\<lambda>r. r\<lparr>d_current := d\<rparr>)"

definition clear_zero_decision :: "nat \<Rightarrow> nat \<Rightarrow> 'f StageContext \<Rightarrow> 'f StageContext" where
  "clear_zero_decision i tag sc =
    (if zero_tag (d_zero (charger_decisions sc ! i)) \<noteq> tag then sc else set_zero_decision i ZeroNone sc)"

definition clear_zero_decision_all :: "nat \<Rightarrow> 'f StageContext \<Rightarrow> 'f StageContext" where
  "clear_zero_decision_all tag sc = fold (\<lambda>i sc. clear_zero_decision i tag sc) [0..<charger_count sc] sc"

text \<open>The tags between the first and the last of \<^verbatim>\<open>to_clear_pre_1p\<close>, \<^verbatim>\<open>to_clear_pre_3p\<close>, \<^verbatim>\<open>yes_0p\<close> and so on.\<close>

definition to_clear_pre_1p :: "nat \<Rightarrow> bool" where
  "to_clear_pre_1p tag \<longleftrightarrow> one_tag (OneYesWelcomeChargeUntil 0) \<le> tag \<and> tag \<le> one_tag (OneNoHysteresisBlockedUntil 0)"

definition to_clear_pre_3p :: "nat \<Rightarrow> bool" where
  "to_clear_pre_3p tag \<longleftrightarrow>
    three_tag (ThreeYesWelcomeChargeUntil 0) \<le> tag \<and> tag \<le> three_tag (ThreeNoHysteresisBlockedUntil 0)"

definition yes_0p :: "nat \<Rightarrow> bool" where
  "yes_0p tag \<longleftrightarrow> zero_tag (ZeroYesWaitingForRotation 0) \<le> tag \<and> tag \<le> zero_tag (ZeroYesPVExcessOverload 0)"

definition yes_1p :: "nat \<Rightarrow> bool" where
  "yes_1p tag \<longleftrightarrow> one_tag OneYesSwitchedToFixed1p \<le> tag \<and> tag \<le> one_tag OneYesWakingUp"

definition yes_3p :: "nat \<Rightarrow> bool" where
  "yes_3p tag \<longleftrightarrow> three_tag ThreeYesSwitchedToFixed3p \<le> tag \<and> tag \<le> three_tag ThreeYesWakingUp"

definition preprocess_charger :: "nat \<Rightarrow> 'f StageContext \<Rightarrow> 'f StageContext" where
  "preprocess_charger i sc =
    (let sc = set_current_decision i CurNone sc; state = charger_states sc ! i in
     if \<not> is_charging state \<and> \<not> wants_to_charge state \<and> \<not> wants_to_charge_low_priority state
     then set_three_decision i ThreeNone (set_one_decision i OneNone (set_zero_decision i ZeroNone sc))
     else let sc = clear_zero_decision i (zero_tag (ZeroNoCloudFilterBlocksUntil 0 0)) sc;
              sc = clear_zero_decision i (zero_tag (ZeroNoHysteresisBlocksUntil 0)) sc;
              tag_1p = one_tag (d_one (charger_decisions sc ! i));
              tag_3p = three_tag (d_three (charger_decisions sc ! i));
              sc = (if to_clear_pre_1p tag_1p then set_one_decision i OneNone sc else sc)
          in if to_clear_pre_3p tag_3p then set_three_decision i ThreeNone sc else sc)"

definition decision_preprocess :: "'f StageContext \<Rightarrow> 'f StageContext" where
  "decision_preprocess sc =
    clear_zero_decision_all (zero_tag (ZeroYesWaitingForRotation 0))
      (fold preprocess_charger [0..<charger_count sc] sc)"

definition postprocess_charger :: "nat \<Rightarrow> 'f StageContext \<Rightarrow> 'f StageContext" where
  "postprocess_charger i sc =
    (let d = charger_decisions sc ! i;
         desc_0_yes = yes_0p (zero_tag (d_zero d));
         desc_1_yes = yes_1p (one_tag (d_one d));
         desc_3_yes = yes_3p (three_tag (d_three d));
         allocd = phase_allocation sc ! i;
         sc = (if (allocd = 0 \<or> allocd = 1) \<and> desc_3_yes then set_three_decision i ThreeNone sc else sc);
         sc = (if (allocd = 0 \<or> allocd = 3) \<and> desc_1_yes then set_one_decision i OneNone sc else sc);
         sc = (if (allocd = 1 \<or> allocd = 3) \<and> desc_0_yes then set_zero_decision i ZeroNone sc else sc);
         sc = (if allocd = 1 \<and> \<not> desc_1_yes then set_one_decision i OneYesNormal sc else sc)
     in if allocd = 3 \<and> \<not> desc_3_yes then set_three_decision i ThreeYesNormal sc else sc)"

definition decision_postprocess :: "'f StageContext \<Rightarrow> 'f StageContext" where
  "decision_postprocess sc = fold postprocess_charger [0..<charger_count sc] sc"

subsection \<open>Allocations\<close>

definition alloc_phases :: "nat \<Rightarrow> nat \<Rightarrow> 'f StageContext \<Rightarrow> 'f StageContext" where
  "alloc_phases i n sc = sc\<lparr>phase_allocation := (phase_allocation sc)[i := n]\<rparr>"

definition alloc_current :: "nat \<Rightarrow> int \<Rightarrow> 'f StageContext \<Rightarrow> 'f StageContext" where
  "alloc_current i n sc = sc\<lparr>current_allocation := (current_allocation sc)[i := n]\<rparr>"

definition spend :: "Cost \<Rightarrow> 'f StageContext \<Rightarrow> 'f StageContext" where
  "spend cost sc = sc\<lparr>sc_limits := apply_cost cost (sc_limits sc)\<rparr>"

text \<open>The loops \<^verbatim>\<open>for (int i = 0; i < matched; ++i)\<close> over \<^verbatim>\<open>sc.idx_array[i]\<close>.\<close>

definition for_matched :: "nat \<Rightarrow> (nat \<Rightarrow> 'f StageContext \<Rightarrow> 'f StageContext) \<Rightarrow> 'f StageContext \<Rightarrow> 'f StageContext" where
  "for_matched matched body sc = fold (\<lambda>i sc. body (idx_array sc ! i) sc) [0..<matched] sc"

end
