(* ===== verification/Charge_Activation.thy ===== *)
theory Charge_Activation
  imports Charge_Basics
begin

section \<open>Charge manager: which chargers are active (stages 1 to 5)\<close>

text \<open>
  Stages 1 to 5 decide how many phases each charger gets: rotation and chargers that stopped, vehicles
  that were just plugged in, overload, activation, and the switch from one to three phases. They change
  phases, decisions, the order of the chargers and the control window, never currents or limits. The wall
  clock is given as the seconds since the epoch of now and of the last local midnight, if it is known.
\<close>

subsection \<open>Stage 1: rotation\<close>

record b1_info =
  have_b1 :: bool
  b1_on_phase :: Cost
  highest_seen :: nat

definition b1_charger :: "bool \<Rightarrow> nat \<Rightarrow> b1_info \<times> 'f StageContext \<Rightarrow> b1_info \<times> 'f StageContext" where
  "b1_charger have_active_chargers i = (\<lambda>(b, sc).
    let state = charger_states sc ! i in
    if off state then (b, sc)
    else
      let highest_bit = get_highest_charge_mode_bit state;
          highest_bit = (if highest_bit = ChargeMode_Min then ChargeMode_PV else highest_bit);
          b = (if wants_to_charge state \<or> is_charging state
               then b\<lparr>highest_seen := max (highest_seen b) highest_bit\<rparr> else b);
          is_b1 = (wants_to_charge state \<and> phase_allocation sc ! i = 0
                   \<and> elapsed sc (last_plug_in state + allocation_interval (sc_cfg sc)));
          sc = (if is_b1 \<and> have_active_chargers
                then set_zero_decision i (ZeroYesWaitingForRotation (next_rotation (ca_state sc))) sc else sc)
      in if \<not> is_b1 then (b, sc)
         else if phases state = 3 \<or> phase_rotation state = RotUnknown
         then (b\<lparr>have_b1 := True, b1_on_phase := b1_on_phase b + Cost 0 1 1 1\<rparr>, sc)
         else (b\<lparr>have_b1 := True,
                 b1_on_phase := set_phase (get_phase (phase_rotation state) 1) 1 (b1_on_phase b)\<rparr>, sc))"

definition align_rotation :: "(int \<times> int) option \<Rightarrow> 'f StageContext \<Rightarrow> int" where
  "align_rotation clock sc =
    (let interval = rotation_interval (sc_cfg sc); next = sc_now sc + interval * 1000000 in
     case clock of
       None \<Rightarrow> next
     | Some (now, midnight) \<Rightarrow>
         let offset = (now - midnight) smod interval;
             next = next - offset * 1000000 + 1000000
         in if offset * 1000000 \<ge> 2 * allocation_interval (sc_cfg sc) then next + interval * 1000000 else next)"

definition rotate_charger :: "bool \<Rightarrow> b1_info \<Rightarrow> nat \<Rightarrow> 'f StageContext \<Rightarrow> 'f StageContext" where
  "rotate_charger rotation_allowed b i sc =
    (if phase_allocation sc ! i = 0 then sc
     else
       let state = charger_states sc ! i;
           allowed = (rotation_allowed \<and> global_hysteresis_elapsed (ca_state sc));
           rotate_for_waiting_b1 = (allowed \<and> have_b1 b
             \<and> (phases state \<noteq> 3 \<and> phase_rotation state \<noteq> RotUnknown
                \<longrightarrow> at_phase (b1_on_phase b) (get_phase (phase_rotation state) 1) = 1));
           rotate_for_higher_prio = (allowed \<and> get_highest_charge_mode_bit state < highest_seen b);
           keep_active = (is_active (phase_allocation sc ! i) state \<and> \<not> rotate_for_waiting_b1
             \<and> \<not> rotate_for_higher_prio \<and> \<not> off state)
       in if \<not> keep_active then
            let sc = (if \<not> is_active (phase_allocation sc ! i) state then set_zero_decision i ZeroYesNotActive sc
                      else if rotate_for_waiting_b1 then set_zero_decision i ZeroYesRotatedForB1 sc
                      else if rotate_for_higher_prio then set_zero_decision i ZeroYesRotatedForHigherPrio sc
                      else sc)
            in alloc_phases i 0 sc
          else if \<not> phase_switch_supported state then
            let sc = (if phase_allocation sc ! i = 3 \<and> phases state = 1
                      then set_one_decision i OneYesSwitchedToFixed1p (set_three_decision i ThreeNoFixed1p sc)
                      else if phase_allocation sc ! i = 1 \<and> phases state = 3
                      then set_three_decision i ThreeYesSwitchedToFixed3p (set_one_decision i OneNoFixed3p sc)
                      else sc)
            in alloc_phases i (phases state) sc
          else sc)"

definition stage_1 :: "(int \<times> int) option \<Rightarrow> 'f StageContext \<Rightarrow> 'f StageContext" where
  "stage_1 clock sc =
    (let have_active_chargers = (\<exists>i \<in> set [0..<charger_count sc]. phase_allocation sc ! i > 0);
         (b, sc) = fold (b1_charger have_active_chargers) [0..<charger_count sc]
                     (\<lparr>have_b1 = False, b1_on_phase = Cost 0 0 0 0, highest_seen = 0\<rparr>, sc);
         rotation_allowed = (rotation_interval (sc_cfg sc) > 0 \<and> elapsed sc (next_rotation (ca_state sc)));
         sc = (if rotation_allowed
               then sc\<lparr>ca_state := (ca_state sc)\<lparr>next_rotation := align_rotation clock sc\<rparr>\<rparr> else sc)
     in fold (rotate_charger rotation_allowed b) [0..<charger_count sc] sc)"

subsection \<open>Stage 2: vehicles that were just plugged in\<close>

definition welcome_charger :: "nat \<Rightarrow> 'f StageContext \<Rightarrow> 'f StageContext" where
  "welcome_charger i sc =
    (let state = charger_states sc ! i;
         activate_3p = (phases state = 3 \<and> \<not> phase_switch_supported state);
         sc = (if phase_allocation sc ! i = 0 then alloc_phases i (if activate_3p then 3 else 1) sc else sc);
         wc_start = (if last_switch_on state = 0 then sc_now sc else last_switch_on state);
         wc_end = wc_start + plug_in_time (sc_cfg sc)
     in if activate_3p then set_three_decision i (ThreeYesWelcomeChargeUntil wc_end) sc
        else set_one_decision i (OneYesWelcomeChargeUntil wc_end) sc)"

definition stage_2 :: "'f StageContext \<Rightarrow> 'f StageContext" where
  "stage_2 sc =
    (let (matched, sc) = filter_chargers_impl (\<lambda>sc i. was_just_plugged_in (charger_states sc ! i)) sc None;
         sc = sort_chargers_impl (\<lambda>sc i. 0)
                (\<lambda>sc left right. just_plugged_in_timestamp (charger_states sc ! left)
                   < just_plugged_in_timestamp (charger_states sc ! right)) sc matched
     in for_matched matched welcome_charger sc)"

subsection \<open>The control window\<close>

definition requested :: "'f StageContext \<Rightarrow> nat \<Rightarrow> int" where
  "requested sc i = fst (get_requested_current sc (charger_states sc ! i) (sc_cfg sc) (phase_allocation sc ! i))"

definition factors_of :: "'f StageContext \<Rightarrow> nat \<Rightarrow> Cost" where
  "factors_of sc i = get_phase_factors (phase_allocation sc ! i) (phase_rotation (charger_states sc ! i))"

definition window_min_step :: "'f StageContext \<Rightarrow> nat \<Rightarrow> Cost \<times> Cost \<Rightarrow> Cost \<times> Cost" where
  "window_min_step sc i = (\<lambda>(wnd_min, wnd_min_1p).
    if current_allocation sc ! i > 0 then (wnd_min, wnd_min_1p)
    else if phase_allocation sc ! i = 3
    then (wnd_min + scale (minimum_current_3p (sc_cfg sc)) (factors_of sc i), wnd_min_1p)
    else (wnd_min + scale (minimum_current_1p (sc_cfg sc)) (factors_of sc i),
          wnd_min_1p + scale (minimum_current_1p (sc_cfg sc)) (without_pv (factors_of sc i))))"

fun window_3p :: "'f StageContext \<Rightarrow> int \<Rightarrow> nat list \<Rightarrow> Cost \<Rightarrow> Cost" where
  "window_3p sc avail [] wnd_max = wnd_max"
| "window_3p sc avail (i # is) wnd_max =
    (if phase_allocation sc ! i \<noteq> 3 then window_3p sc avail is wnd_max
     else let factors = factors_of sc i;
              wnd_max = wnd_max + (scale (requested sc i) factors - scale (current_allocation sc ! i) factors)
          in if l1 wnd_max > avail then scale avail factors else window_3p sc avail is wnd_max)"

definition window_1p_unknown :: "'f StageContext \<Rightarrow> nat \<Rightarrow> Cost \<Rightarrow> Cost" where
  "window_1p_unknown sc i wnd_max =
    (if phase_allocation sc ! i = 3 \<or> phase_rotation (charger_states sc ! i) \<noteq> RotUnknown then wnd_max
     else let current = requested sc i - current_allocation sc ! i;
              available = min_phase (lim_raw (sc_limits sc) - wnd_max)
          in wnd_max + scale (min available current) (factors_of sc i))"

definition window_1p_known :: "'f StageContext \<Rightarrow> nat \<Rightarrow> Cost \<Rightarrow> Cost" where
  "window_1p_known sc i wnd_max =
    (if phase_allocation sc ! i = 3 \<or> phase_rotation (charger_states sc ! i) = RotUnknown then wnd_max
     else let current = requested sc i - current_allocation sc ! i;
              phase = get_phase (phase_rotation (charger_states sc ! i)) 1;
              current = min (at_phase (lim_raw (sc_limits sc)) phase - at_phase wnd_max phase) current;
              wnd_max = set_phase phase (at_phase wnd_max phase + current) wnd_max
          in set_phase GridPV (pv wnd_max + current) wnd_max)"

definition calculate_window :: "'f StageContext \<Rightarrow> 'f StageContext" where
  "calculate_window sc =
    (case filter_loop (\<lambda>i. phase_allocation sc ! i > 0) (charger_count sc) 0 0 (idx_array sc) of (matched, idx) \<Rightarrow>
      let active = take matched idx;
          (wnd_min, wnd_min_1p) = fold (window_min_step sc) active (Cost 0 0 0 0, Cost 0 0 0 0);
          avail = min_phase (lim_raw (sc_limits sc) - wnd_min_1p);
          wnd_max = window_3p sc avail active (Cost 0 0 0 0);
          wnd_max = fold (window_1p_unknown sc) active wnd_max;
          wnd_max = fold (window_1p_known sc) active wnd_max
      in sc\<lparr>ca_state := (ca_state sc)\<lparr>control_window_min := wnd_min, control_window_max := wnd_max\<rparr>\<rparr>)"

subsection \<open>Stage 3: overload\<close>

fun phase_overload_loop ::
  "GridPhase \<Rightarrow> nat list \<Rightarrow> Cost \<times> 'f StageContext \<Rightarrow> Cost \<times> 'f StageContext" where
  "phase_overload_loop p [] ws = ws"
| "phase_overload_loop p (i # is) (wnd_min, sc) =
    (let raw = at_phase (lim_raw (sc_limits sc)) p in
     if at_phase wnd_min p \<le> raw then (wnd_min, sc)
     else let state = charger_states sc ! i; alloc_ph = phase_allocation sc ! i in
       if alloc_ph = 0 then phase_overload_loop p is (wnd_min, sc)
       else if alloc_ph = 1 \<and> phase_rotation state \<noteq> RotUnknown \<and> p \<noteq> get_phase (phase_rotation state) 1
       then phase_overload_loop p is (wnd_min, sc)
       else phase_overload_loop p is
         (wnd_min - get_minimum_cost alloc_ph (phase_rotation state) (sc_cfg sc),
          alloc_phases i 0 (set_zero_decision i (ZeroYesPhaseOverload (at_phase wnd_min p - raw) p) sc)))"

fun pv_overload_loop :: "nat list \<Rightarrow> Cost \<times> 'f StageContext \<Rightarrow> Cost \<times> 'f StageContext" where
  "pv_overload_loop [] ws = ws"
| "pv_overload_loop (i # is) (wnd_min, sc) =
    (if pv (lim_raw (sc_limits sc)) \<ge> pv wnd_min then (wnd_min, sc)
     else let state = charger_states sc ! i; alloc_ph = phase_allocation sc ! i in
       if alloc_ph = 0 \<or> was_just_plugged_in state \<or> \<not> observe_pv_limit state
       then pv_overload_loop is (wnd_min, sc)
       else
         let min_cost = get_minimum_cost alloc_ph (phase_rotation state) (sc_cfg sc);
             is_min = (guaranteed_pv_current state > 0);
             uses_min_number_of_phases = (\<not> phase_switch_supported state \<or> phases state = 1)
         in if is_min \<and> uses_min_number_of_phases then pv_overload_loop is (wnd_min, sc)
            else if observe_pv_limit state \<and> pv min_cost \<le> guaranteed_pv_current state
            then pv_overload_loop is (wnd_min, sc)
            else if pv wnd_min < lim_max_pv (sc_limits sc)
            then pv_overload_loop is (wnd_min, set_zero_decision i (ZeroNoCloudFilterBlocksUntil
                   (max_pv_expiration_ts (sc_limits sc)) (lim_max_pv (sc_limits sc))) sc)
            else if \<not> global_hysteresis_elapsed (ca_state sc)
            then pv_overload_loop is (wnd_min, set_zero_decision i (ZeroNoHysteresisBlocksUntil
                   (last_hysteresis_reset (ca_state sc) + global_hysteresis (sc_cfg sc))) sc)
            else pv_overload_loop is (wnd_min - min_cost, alloc_phases i 0 (set_zero_decision i
                   (ZeroYesPVExcessOverload (pv wnd_min - lim_max_pv (sc_limits sc))) sc)))"

definition stage_3 :: "'f StageContext \<Rightarrow> 'f StageContext" where
  "stage_3 sc =
    (let sc = calculate_window sc;
         wnd_min = control_window_min (ca_state sc);
         (matched, sc) = filter_chargers_impl (\<lambda>sc i. phase_allocation sc ! i > 0) sc None;
         sc = sort_chargers_impl
                (\<lambda>sc i. if was_just_plugged_in (charger_states sc ! i) then int (ChargeMode_max + 1)
                   else int (get_highest_charge_mode_bit (charger_states sc ! i)))
                (\<lambda>sc left right. if was_just_plugged_in (charger_states sc ! left)
                   then just_plugged_in_timestamp (charger_states sc ! left)
                      < just_plugged_in_timestamp (charger_states sc ! right)
                   else last_switch_on (charger_states sc ! left) < last_switch_on (charger_states sc ! right))
                sc matched;
         active = take matched (idx_array sc);
         ws = fold (\<lambda>p. phase_overload_loop p active) [L1, L2, L3] (wnd_min, sc)
     in snd (pv_overload_loop active ws))"


subsection \<open>Whether a charger can be activated\<close>

abbreviation (input) CHECK_MIN_WINDOW_MIN :: int where "CHECK_MIN_WINDOW_MIN \<equiv> 1"
abbreviation (input) CHECK_MIN_WINDOW_ENABLE :: int where "CHECK_MIN_WINDOW_ENABLE \<equiv> 2"
abbreviation (input) CHECK_IMPROVEMENT :: int where "CHECK_IMPROVEMENT \<equiv> 4"
abbreviation (input) CHECK_IMPROVEMENT_ALL_PHASE :: int where "CHECK_IMPROVEMENT_ALL_PHASE \<equiv> 8"
abbreviation (input) CHECK_SPREAD :: int where "CHECK_SPREAD \<equiv> 16"

definition all_checks :: "Cost \<Rightarrow> int" where
  "all_checks c = pv c OR l1 c OR l2 c OR l3 c"

definition required_to_enable :: "'f float_ops \<Rightarrow> 'f StageContext \<Rightarrow> int \<Rightarrow> int \<Rightarrow> 'f" where
  "required_to_enable fo sc wnd enable =
    f_add fo (f_mul fo (f_of_int fo wnd) (enable_current_factor (sc_cfg sc))) (f_of_int fo enable)"

record improvement =
  improves_any_phase :: bool
  improves_all_phases :: bool
  max_diff :: int
  max_diff_phase :: GridPhase

definition improvement_step ::
  "CurrentLimits \<Rightarrow> Cost \<Rightarrow> Cost \<Rightarrow> Cost \<Rightarrow> GridPhase \<Rightarrow> improvement \<Rightarrow> improvement" where
  "improvement_step limits check_phase new_cost wnd_max p r =
    (if at_phase check_phase p AND (CHECK_IMPROVEMENT OR CHECK_IMPROVEMENT_ALL_PHASE) = 0
        \<or> at_phase new_cost p \<le> 0 then r
     else let available = at_phase (lim_min limits) p; allocable = at_phase wnd_max p in
       if allocable < available then r\<lparr>improves_any_phase := True\<rparr>
       else let diff = available - allocable;
                r = (if diff > max_diff r then r\<lparr>max_diff := diff, max_diff_phase := p\<rparr> else r)
            in r\<lparr>improves_all_phases := False\<rparr>)"

definition set_phase_decision ::
  "bool \<Rightarrow> nat \<Rightarrow> ThreePhaseDecision \<Rightarrow> OnePhaseDecision \<Rightarrow> 'f StageContext \<Rightarrow> 'f StageContext" where
  "set_phase_decision is_3p i three one = (if is_3p then set_three_decision i three else set_one_decision i one)"

definition no_improvement :: "bool \<Rightarrow> nat \<Rightarrow> Cost \<Rightarrow> GridPhase \<Rightarrow> 'f StageContext \<Rightarrow> 'f StageContext" where
  "no_improvement is_3p i wnd_max p sc =
    (let limits = sc_limits sc in
     set_phase_decision is_3p i
       (ThreeNoPhaseImprovement (min_expiration_ts limits p) (at_phase wnd_max p) (at_phase (lim_min limits) p) p)
       (OneNoPhaseImprovement (min_expiration_ts limits p) (at_phase wnd_max p) (at_phase (lim_min limits) p) p) sc)"

fun minimum_loop ::
  "'f float_ops \<Rightarrow> nat \<Rightarrow> Cost \<Rightarrow> Cost \<Rightarrow> Cost \<Rightarrow> Cost \<Rightarrow> int \<Rightarrow> bool \<Rightarrow> GridPhase list \<Rightarrow> 'f StageContext
    \<Rightarrow> bool \<times> 'f StageContext" where
  "minimum_loop fo i check_phase new_cost new_enable_cost wnd_min guaranteed_pv is_3p [] sc = (True, sc)"
| "minimum_loop fo i check_phase new_cost new_enable_cost wnd_min guaranteed_pv is_3p (p # ps) sc =
    (let check = at_phase check_phase p; limits = sc_limits sc in
     if check AND (CHECK_MIN_WINDOW_MIN OR CHECK_MIN_WINDOW_ENABLE) = 0 \<or> at_phase new_cost p \<le> 0
        \<or> p = GridPV \<and> pv new_cost \<le> guaranteed_pv
     then minimum_loop fo i check_phase new_cost new_enable_cost wnd_min guaranteed_pv is_3p ps sc
     else
       let req = (if check AND CHECK_MIN_WINDOW_ENABLE \<noteq> 0
                  then f_trunc fo (required_to_enable fo sc (at_phase wnd_min p) (at_phase new_enable_cost p))
                  else if check AND CHECK_MIN_WINDOW_MIN \<noteq> 0 then at_phase wnd_min p + at_phase new_cost p
                  else 0)
       in if at_phase (lim_min limits) p < req
          then (False, set_phase_decision is_3p i
                  (ThreeNoPhaseMinimum (min_expiration_ts limits p) req (at_phase (lim_min limits) p) p)
                  (OneNoPhaseMinimum (min_expiration_ts limits p) req (at_phase (lim_min limits) p) p) sc)
          else minimum_loop fo i check_phase new_cost new_enable_cost wnd_min guaranteed_pv is_3p ps sc)"

definition improvement_check ::
  "nat \<Rightarrow> Cost \<Rightarrow> Cost \<Rightarrow> Cost \<Rightarrow> bool \<Rightarrow> int \<Rightarrow> bool \<Rightarrow> 'f StageContext \<Rightarrow> bool \<times> 'f StageContext" where
  "improvement_check i check_phase new_cost wnd_max is_unknown_rotated_1p_3p_switch guaranteed_pv is_3p sc =
    (let improves_pv = (pv check_phase AND (CHECK_IMPROVEMENT OR CHECK_IMPROVEMENT_ALL_PHASE) = 0
           \<or> pv new_cost > 0 \<and> (pv wnd_max < pv (lim_min (sc_limits sc)) \<or> pv new_cost \<le> guaranteed_pv))
     in if \<not> improves_pv then (False, no_improvement is_3p i wnd_max GridPV sc)
        else
          let check_all_phases = ((l1 check_phase OR l2 check_phase OR l3 check_phase)
                AND CHECK_IMPROVEMENT_ALL_PHASE \<noteq> 0);
              r = fold (improvement_step (sc_limits sc) check_phase new_cost wnd_max) [L1, L2, L3]
                    \<lparr>improves_any_phase = False, improves_all_phases = True, max_diff = 0, max_diff_phase = GridPV\<rparr>
          in if (check_all_phases \<and> \<not> improves_all_phases r \<or> \<not> check_all_phases \<and> \<not> improves_any_phase r)
                \<and> \<not> is_unknown_rotated_1p_3p_switch
             then (False, no_improvement is_3p i wnd_max (max_diff_phase r) sc)
             else (True, sc))"

definition can_activate ::
  "'f float_ops \<Rightarrow> nat \<Rightarrow> Cost \<Rightarrow> Cost \<Rightarrow> Cost \<Rightarrow> Cost \<Rightarrow> Cost \<Rightarrow> bool \<Rightarrow> int \<Rightarrow> bool \<Rightarrow> 'f StageContext
    \<Rightarrow> bool \<times> 'f StageContext" where
  "can_activate fo i check_phase new_cost new_enable_cost wnd_min wnd_max is_unknown_rotated_1p_3p_switch
     guaranteed_pv is_3p sc =
    (let check_spread = (all_checks check_phase AND CHECK_SPREAD \<noteq> 0);
         check_improvement = (all_checks check_phase AND (CHECK_IMPROVEMENT OR CHECK_IMPROVEMENT_ALL_PHASE) \<noteq> 0);
         improves_all_spread = (\<forall>p \<in> set [GridPV, L1, L2, L3].
           at_phase check_phase p AND CHECK_SPREAD = 0 \<or> at_phase new_cost p \<le> 0
           \<or> \<not> f_less fo (f_of_int fo (at_phase (lim_spread (sc_limits sc)) p))
                (required_to_enable fo sc (at_phase wnd_min p) (at_phase new_enable_cost p)));
         (ok, sc) = (if check_improvement \<and> (\<not> check_spread \<or> \<not> improves_all_spread)
                     then improvement_check i check_phase new_cost wnd_max is_unknown_rotated_1p_3p_switch
                            guaranteed_pv is_3p sc
                     else (True, sc))
     in if \<not> ok then (False, sc)
        else minimum_loop fo i check_phase new_cost new_enable_cost wnd_min guaranteed_pv is_3p
               [GridPV, L1, L2, L3] sc)"

definition try_activate ::
  "'f float_ops \<Rightarrow> nat \<Rightarrow> bool \<Rightarrow> bool \<Rightarrow> 'f StageContext \<Rightarrow> bool \<times> 'f StageContext" where
  "try_activate fo i activate_3p have_active_chargers sc =
    (let state = charger_states sc ! i;
         (new_cost, new_enable_cost, _) = get_enable_cost fo state activate_3p have_active_chargers (sc_cfg sc);
         is_min = (guaranteed_pv_current state > 0);
         uses_min_number_of_phases = (\<not> phase_switch_supported state \<or> \<not> activate_3p);
         ignore_pv = (\<not> observe_pv_limit state \<or> is_min \<and> uses_min_number_of_phases);
         improve_check = (if guaranteed_pv_current state \<ge> pv new_cost then 0 else CHECK_SPREAD OR CHECK_IMPROVEMENT);
         check_phase = Cost
           (if ignore_pv then 0
            else improve_check OR (if have_active_chargers then CHECK_MIN_WINDOW_ENABLE else CHECK_MIN_WINDOW_MIN))
           (improve_check OR CHECK_MIN_WINDOW_ENABLE) (improve_check OR CHECK_MIN_WINDOW_ENABLE)
           (improve_check OR CHECK_MIN_WINDOW_ENABLE)
     in can_activate fo i check_phase new_cost new_enable_cost (control_window_min (ca_state sc))
          (control_window_max (ca_state sc)) False (guaranteed_pv_current state) activate_3p sc)"

subsection \<open>Stage 4: activation\<close>

definition activate_charger :: "'f float_ops \<Rightarrow> nat \<Rightarrow> bool \<times> 'f StageContext \<Rightarrow> bool \<times> 'f StageContext" where
  "activate_charger fo i = (\<lambda>(have_active_chargers, sc).
    let state = charger_states sc ! i;
        phase_switch_hyst = last_phase_switch state + global_hysteresis (sc_cfg sc);
        force_3p = (\<not> elapsed sc phase_switch_hyst \<and> phases state = 3);
        sc = (if force_3p then set_one_decision i (OneNoForced3pUntil phase_switch_hyst) sc else sc);
        force_1p = (\<not> elapsed sc phase_switch_hyst \<and> phases state = 1);
        sc = (if force_1p then set_three_decision i (ThreeNoForced1pUntil phase_switch_hyst) sc else sc);
        is_fixed_3p = (phases state = 3 \<and> \<not> phase_switch_supported state);
        sc = (if is_fixed_3p then set_one_decision i OneNoFixed3p sc else sc);
        sc = (if phases state = 1 \<and> \<not> phase_switch_supported state then set_three_decision i ThreeNoFixed1p sc
              else sc);
        is_unknown_rot_switchable = (phase_rotation state = RotUnknown \<and> phase_switch_supported state);
        try_3p = (\<not> force_1p \<and> (force_3p \<or> is_fixed_3p \<or> is_unknown_rot_switchable));
        try_1p = (\<not> force_3p \<and> \<not> is_fixed_3p)
    in if \<not> global_hysteresis_elapsed (ca_state sc) then
         let hyst = last_hysteresis_reset (ca_state sc) + global_hysteresis (sc_cfg sc);
             sc = (if try_3p then set_three_decision i (ThreeNoHysteresisBlockedUntil hyst) sc else sc);
             sc = (if try_1p then set_one_decision i (OneNoHysteresisBlockedUntil hyst) sc else sc)
         in (have_active_chargers, sc)
       else
         let (on_3p, sc) = (if try_3p then try_activate fo i True have_active_chargers sc else (False, sc));
             sc = (if on_3p then set_three_decision i
                     (if is_unknown_rot_switchable then ThreeYesUnknownRotSwitchable else ThreeYesNormal) sc
                   else sc);
             (on_1p, sc) = (if try_1p \<and> \<not> on_3p then try_activate fo i False have_active_chargers sc
                            else (False, sc));
             sc = (if on_1p then set_one_decision i OneYesNormal sc else sc);
             phase_alloc = (if on_1p then 1 else if on_3p then 3 else 0);
             sc = alloc_phases i phase_alloc sc
         in if phase_alloc > 0 then (True, calculate_window sc) else (have_active_chargers, sc))"

definition sort_by_average_power :: "'f float_ops \<Rightarrow> 'f StageContext \<Rightarrow> nat \<Rightarrow> 'f StageContext" where
  "sort_by_average_power fo = sort_chargers_impl
     (\<lambda>sc i. - int (get_highest_charge_mode_bit (charger_states sc ! i)))
     (\<lambda>sc left right. f_less fo (allocated_average_power (charger_states sc ! left))
        (allocated_average_power (charger_states sc ! right)))"

definition stage_4 :: "'f float_ops \<Rightarrow> 'f StageContext \<Rightarrow> 'f StageContext" where
  "stage_4 fo sc =
    (let sc = calculate_window sc;
         (matched, sc) = filter_chargers_impl (\<lambda>sc i. phase_allocation sc ! i = 0
            \<and> (wants_to_charge (charger_states sc ! i) \<or> is_charging (charger_states sc ! i))) sc None;
         sc = sort_by_average_power fo sc matched;
         have_active_chargers = (\<exists>i \<in> set [0..<unfiltered_charger_count sc]. phase_allocation sc ! i > 0)
     in snd (fold (\<lambda>i hs. activate_charger fo (idx_array (snd hs) ! i) hs) [0..<matched]
          (have_active_chargers, sc)))"

subsection \<open>Stage 5: from one to three phases\<close>

definition switch_to_3p :: "'f float_ops \<Rightarrow> int \<Rightarrow> nat \<Rightarrow> 'f StageContext \<Rightarrow> 'f StageContext" where
  "switch_to_3p fo check_pv_min i sc =
    (let state = charger_states sc ! i; cfg = sc_cfg sc; ca = ca_state sc;
         phase_switch_hyst = last_phase_switch state + global_hysteresis cfg
     in if \<not> elapsed sc phase_switch_hyst
        then set_three_decision i (ThreeNoForced1pUntil phase_switch_hyst) sc
        else if \<not> global_hysteresis_elapsed ca \<and> allocated_current (charger_allocation_state sc ! i) \<noteq> 0
        then set_three_decision i (ThreeNoHysteresisBlockedUntil (last_hysteresis_reset ca + global_hysteresis cfg)) sc
        else
          let min_3p = minimum_current_3p cfg; factor = enable_current_factor cfg;
              already_allocated = get_minimum_cost 1 (phase_rotation state) cfg;
              old_factors = get_phase_factors 1 (phase_rotation state);
              new_cost = scale min_3p (Cost 3 1 1 1) - already_allocated;
              new_enable_cost = f_scale fo (f_mul fo (f_of_int fo min_3p) factor) (Cost 3 1 1 1)
                - f_scale fo factor already_allocated;
              improve_check = (if guaranteed_pv_current state - pv already_allocated \<ge> pv new_cost then 0
                               else CHECK_IMPROVEMENT_ALL_PHASE);
              check_phase = Cost
                (if \<not> observe_pv_limit state then 0 else improve_check OR check_pv_min)
                ((if l1 old_factors > 0 then 0 else improve_check) OR CHECK_MIN_WINDOW_ENABLE)
                ((if l2 old_factors > 0 then 0 else improve_check) OR CHECK_MIN_WINDOW_ENABLE)
                ((if l3 old_factors > 0 then 0 else improve_check) OR CHECK_MIN_WINDOW_ENABLE);
              (ok, sc) = can_activate fo i check_phase new_cost new_enable_cost (control_window_min ca)
                (control_window_max ca) (phase_rotation state = RotUnknown)
                (guaranteed_pv_current state - pv already_allocated) True sc
          in if \<not> ok then sc
             else calculate_window (alloc_phases i 3 (set_three_decision i ThreeYesNormal sc)))"

definition stage_5 :: "'f float_ops \<Rightarrow> 'f StageContext \<Rightarrow> 'f StageContext" where
  "stage_5 fo sc =
    (let active_chargers = length (filter (\<lambda>i. phase_allocation sc ! i \<noteq> 0) [0..<unfiltered_charger_count sc]);
         check_pv_min = (if active_chargers < 2 then CHECK_MIN_WINDOW_MIN else CHECK_MIN_WINDOW_ENABLE);
         (matched, sc) = filter_chargers_impl (\<lambda>sc i. phase_allocation sc ! i = 1
            \<and> phase_switch_supported (charger_states sc ! i)) sc None;
         sc = sort_by_average_power fo sc matched
     in for_matched matched (switch_to_3p fo check_pv_min) sc)"

end
