(* ===== verification/Charge_Distribution.thy ===== *)
theory Charge_Distribution
  imports Charge_Activation
begin

section \<open>Charge manager: the distribution of current (stages 6 to 9)\<close>

text \<open>
  Stage 6 gives each active charger its minimum, stage 7 a fair share, stage 8 what is left, and stage 9
  wakes up vehicles that had stopped to draw current.
\<close>

subsection \<open>Stage 6: minimum current\<close>

definition give_minimum :: "nat \<Rightarrow> 'f StageContext \<Rightarrow> 'f StageContext" where
  "give_minimum i sc =
    (let state = charger_states sc ! i;
         cost = get_minimum_cost (phase_allocation sc ! i) (phase_rotation state) (sc_cfg sc)
     in if cost_exceeds_limits cost (sc_limits sc) 6 (observe_pv_limit state) (guaranteed_pv_current state) then sc
        else spend cost (alloc_current i (max_phase cost) (set_current_decision i CurMinimum sc)))"

definition stage_6 :: "'f StageContext \<Rightarrow> 'f StageContext" where
  "stage_6 sc =
    (let (matched, sc) = filter_chargers_impl
           (\<lambda>sc i. phase_allocation sc ! i > 0 \<and> current_allocation sc ! i = 0) sc None
     in for_matched matched give_minimum sc)"

definition take_minimum :: "nat \<Rightarrow> 'f StageContext \<Rightarrow> 'f StageContext" where
  "take_minimum i sc =
    (let cost = get_minimum_cost (phase_allocation sc ! i) (phase_rotation (charger_states sc ! i)) (sc_cfg sc)
     in spend (- cost) (alloc_current i 0 sc))"

definition undo_stage_6 :: "'f StageContext \<Rightarrow> 'f StageContext" where
  "undo_stage_6 sc =
    (let (matched, sc) = filter_chargers_impl (\<lambda>sc i. current_allocation sc ! i > 0) sc None
     in for_matched matched take_minimum sc)"

subsection \<open>Stage 7: fair current\<close>

definition active_on_phases :: "'f StageContext \<Rightarrow> nat \<Rightarrow> Cost \<Rightarrow> Cost" where
  "active_on_phases sc i c =
    (let state = charger_states sc ! i; n = phase_allocation sc ! i; c = set_phase GridPV (pv c + 1) c in
     if n = 3 \<or> phase_rotation state = RotUnknown then c + Cost 0 1 1 1
     else fold (\<lambda>p c. let g = get_phase (phase_rotation state) p in set_phase g (at_phase c g + 1) c) [1..<1 + n] c)"

definition get_fair_current :: "nat list \<Rightarrow> 'f StageContext \<Rightarrow> Cost" where
  "get_fair_current is sc =
    (let active = fold (active_on_phases sc) is (Cost 0 0 0 0);
         fair = (\<lambda>p. if at_phase active p = 0 then 0
                    else max 0 (at_phase (lim_raw (sc_limits sc)) p sdiv at_phase active p))
     in Cost (fair GridPV) (fair L1) (fair L2) (fair L3))"

type_synonym min_with_decision = "int \<times> CurrentDecision"

definition min_with :: "int \<Rightarrow> CurrentDecision \<Rightarrow> min_with_decision \<Rightarrow> min_with_decision" where
  "min_with new_current decision m = (if fst m \<le> new_current then m else (new_current, decision))"

fun capacity_decision :: "bool \<Rightarrow> CurrentCapacityLimit \<Rightarrow> CurrentDecision" where
  "capacity_decision unknown LimSupportedByCharger = CurSupportedByCharger"
| "capacity_decision unknown LimFastRampUp = CurFastRampUp"
| "capacity_decision unknown LimRequestedByVehicle = CurRequested"
| "capacity_decision unknown LimLimitedByPhase = CurPhaseLimit unknown"
| "capacity_decision unknown LimGuaranteed = CurGuaranteedPV"
| "capacity_decision unknown LimUserLimit = CurUserLimit"

text \<open>The current to add to a charger, and why it is not more.\<close>

definition fair_share :: "'f float_ops \<Rightarrow> Cost \<Rightarrow> nat \<Rightarrow> 'f StageContext \<Rightarrow> min_with_decision" where
  "fair_share fo fair i sc =
    (let state = charger_states sc ! i;
         cur = current_allocation sc ! i;
         n = phase_allocation sc ! i;
         m = (32000 - cur, CurSupportedByCharger);
         m = (if observe_pv_limit state then
                let fair_pv = pv fair sdiv int n; guaranteed = guaranteed_pv_current state sdiv int n - cur
                in if guaranteed > fair_pv then min_with guaranteed CurGuaranteedPV m
                   else min_with fair_pv (CurFair False) m
              else m);
         m = (if phase_rotation state = RotUnknown then min_with (min_phase fair) (CurFair True) m
              else fold (\<lambda>p. min_with (at_phase fair (get_phase (phase_rotation state) p)) (CurFair False))
                     [1..<1 + n] m);
         m = (if \<not> is_charging state then
                let (_, _, enable_current) = get_enable_cost fo state (n = 3) True (sc_cfg sc)
                in min_with (max 0 (enable_current - cur)) CurEnableNotCharging m
              else m);
         (capacity, cclimit) = current_capacity sc state cur n False;
         m = min_with (capacity sdiv int n) CurRequested m
     in (fst m, if snd m = CurRequested then capacity_decision (phase_rotation state = RotUnknown) cclimit else snd m))"

definition change_current :: "nat \<Rightarrow> nat \<Rightarrow> int \<Rightarrow> 'f StageContext \<Rightarrow> 'f StageContext" where
  "change_current stage i current sc =
    (let state = charger_states sc ! i; n = phase_allocation sc ! i;
         cost = get_cost current n (phase_rotation state) (current_allocation sc ! i) n
     in if cost_exceeds_limits cost (sc_limits sc) stage (observe_pv_limit state) (guaranteed_pv_current state) then sc
        else spend cost (alloc_current i current sc))"

definition give_fair_share :: "'f float_ops \<Rightarrow> nat \<Rightarrow> nat \<Rightarrow> 'f StageContext \<Rightarrow> 'f StageContext" where
  "give_fair_share fo matched k sc =
    (let i = idx_array sc ! k;
         fair = get_fair_current (drop k (take matched (idx_array sc))) sc;
         (extra, decision) = fair_share fo fair i sc;
         sc = (if extra > 0 then set_current_decision i decision sc else sc)
     in change_current 7 i (current_allocation sc ! i + extra) sc)"

definition sort_by_capacity :: "bool \<Rightarrow> 'f StageContext \<Rightarrow> nat \<Rightarrow> 'f StageContext" where
  "sort_by_capacity ignore_requested_current = sort_chargers_impl
     (\<lambda>sc i. 3 - int (phase_allocation sc ! i))
     (\<lambda>sc left right.
        fst (current_capacity sc (charger_states sc ! left) (current_allocation sc ! left)
               (phase_allocation sc ! left) ignore_requested_current)
        < fst (current_capacity sc (charger_states sc ! right) (current_allocation sc ! right)
               (phase_allocation sc ! right) ignore_requested_current))"

definition stage_7 :: "'f float_ops \<Rightarrow> 'f StageContext \<Rightarrow> 'f StageContext" where
  "stage_7 fo sc =
    (let (matched, sc) = filter_chargers_impl (\<lambda>sc i. current_allocation sc ! i > 0) sc None
     in if matched = 0 then sc
        else fold (give_fair_share fo matched) [0..<matched] (sort_by_capacity False sc matched))"

subsection \<open>Stage 8: what is left\<close>

definition left_over :: "bool \<Rightarrow> nat \<Rightarrow> 'f StageContext \<Rightarrow> int" where
  "left_over allocate_to_non_charging i sc =
    (let state = charger_states sc ! i; cur = current_allocation sc ! i; n = phase_allocation sc ! i;
         raw = lim_raw (sc_limits sc);
         current = min (max 0 (if observe_pv_limit state
                                then max (guaranteed_pv_current state sdiv int n - cur) (pv raw sdiv int n)
                                else 32000))
                       (fst (current_capacity sc state cur n allocate_to_non_charging) sdiv int n)
     in if phase_rotation state = RotUnknown then min current (min_phase raw)
        else min_used_phase raw (phase_rotation state) n current)"

definition give_left_over :: "bool \<Rightarrow> nat \<Rightarrow> 'f StageContext \<Rightarrow> 'f StageContext" where
  "give_left_over allocate_to_non_charging i sc =
    (let extra = left_over allocate_to_non_charging i sc;
         sc = (if extra > 0 then set_current_decision i (CurLeftOver (phase_allocation sc ! i = 3
                 \<and> phase_rotation (charger_states sc ! i) = RotUnknown)) sc else sc)
     in change_current 8 i (extra + current_allocation sc ! i) sc)"

definition stage_8 :: "bool \<Rightarrow> 'f StageContext \<Rightarrow> 'f StageContext" where
  "stage_8 allocate_to_non_charging sc =
    (let (matched, sc) = filter_chargers_impl (\<lambda>sc i. current_allocation sc ! i > 0
           \<and> (allocate_to_non_charging \<or> is_charging (charger_states sc ! i))) sc None;
         sc = sort_by_capacity allocate_to_non_charging sc matched
     in for_matched matched (give_left_over allocate_to_non_charging) sc)"

subsection \<open>Stage 9: waking up vehicles\<close>

abbreviation (input) CURRENTLY_WAKING_UP_CAR :: int where "CURRENTLY_WAKING_UP_CAR \<equiv> 0"
abbreviation (input) NEVER_ATTEMPTED_TO_WAKE_UP :: int where "NEVER_ATTEMPTED_TO_WAKE_UP \<equiv> 1"
abbreviation (input) CAR_DID_NOT_WAKE_UP :: int where "CAR_DID_NOT_WAKE_UP \<equiv> 2"

definition stage_9_group :: "'f StageContext \<Rightarrow> nat \<Rightarrow> int" where
  "stage_9_group sc i =
    (let state = charger_states sc ! i in
     if last_wakeup state \<noteq> 0
     then if elapsed sc (last_wakeup state + wakeup_time (sc_cfg sc)) then CAR_DID_NOT_WAKE_UP
          else CURRENTLY_WAKING_UP_CAR
     else NEVER_ATTEMPTED_TO_WAKE_UP)"

definition stage_9_sort :: "'f StageContext \<Rightarrow> nat \<Rightarrow> nat \<Rightarrow> bool" where
  "stage_9_sort sc left right =
    (let g = stage_9_group sc left; l = charger_states sc ! left; r = charger_states sc ! right in
     if g = CURRENTLY_WAKING_UP_CAR then last_wakeup l \<ge> last_wakeup r
     else if g = NEVER_ATTEMPTED_TO_WAKE_UP then last_switch_on l < last_switch_on r
     else if g = CAR_DID_NOT_WAKE_UP then last_wakeup l < last_wakeup r
     else False)"

definition wake_up :: "'f float_ops \<Rightarrow> bool \<Rightarrow> nat \<Rightarrow> 'f StageContext \<Rightarrow> 'f StageContext" where
  "wake_up fo have_active_chargers i sc =
    (let state = charger_states sc ! i; cfg = sc_cfg sc in
     if \<not> global_hysteresis_elapsed (ca_state sc) \<and> allocated_current (charger_allocation_state sc ! i) = 0 then sc
     else
       let recent = (\<not> elapsed sc (last_phase_switch state + global_hysteresis cfg));
           force_3p = (recent \<and> phases state = 3);
           force_1p = (recent \<and> phases state = 1);
           is_fixed_3p = (phases state = 3 \<and> \<not> phase_switch_supported state);
           is_unknown_rot_switchable = (phase_rotation state = RotUnknown \<and> phase_switch_supported state);
           try_3p = (\<not> force_1p \<and> (force_3p \<or> is_fixed_3p \<or> is_unknown_rot_switchable));
           try_1p = (\<not> force_3p \<and> \<not> is_fixed_3p);
           fits = (\<lambda>cost. \<not> cost_exceeds_limits cost (sc_limits sc) 9 (observe_pv_limit state)
                     (guaranteed_pv_current state));
           (_, cost_3p, current_3p) = get_enable_cost fo state True have_active_chargers cfg;
           (_, cost_1p, current_1p) = get_enable_cost fo state False have_active_chargers cfg;
           on = (\<lambda>n cost current sc. calculate_window (alloc_current i current (alloc_phases i n
                   (spend cost (set_current_decision i CurEnableNotCharging sc)))))
       in if try_3p \<and> fits cost_3p then on 3 cost_3p current_3p (set_three_decision i ThreeYesWakingUp sc)
          else if try_1p \<and> fits cost_1p then on 1 cost_1p current_1p (set_one_decision i OneYesWakingUp sc)
          else sc)"

definition stage_9 :: "'f float_ops \<Rightarrow> 'f StageContext \<Rightarrow> 'f StageContext" where
  "stage_9 fo sc =
    (let have_active_chargers = (pv (control_window_min (ca_state sc)) \<noteq> 0);
         (matched, sc) = filter_chargers_impl (\<lambda>sc i. let state = charger_states sc ! i in
            phase_allocation sc ! i = 0
            \<and> (wants_to_charge_low_priority state \<or> wants_to_charge state \<and> last_wakeup state \<noteq> 0)) sc None
     in if matched = 0 then sc
        else for_matched matched (wake_up fo have_active_chargers)
               (sort_chargers_impl stage_9_group stage_9_sort sc matched))"

end
