(* ===== verification/Charge_Allocator.thy ===== *)
theory Charge_Allocator
  imports Charge_Distribution
begin

section \<open>Charge manager: one run of the allocator\<close>

text \<open>
  \<^verbatim>\<open>allocate_current\<close> looks for chargers that do not answer or do not obey, runs the stages and stores
  what every charger gets. The clock and the current time are parameters; the indices that the callback for
  chargers that do not answer is called with are part of the result.
\<close>

abbreviation (input) RE_RESOLVE_TIMEOUT :: int where "RE_RESOLVE_TIMEOUT \<equiv> 6000000"
abbreviation (input) CHARGER_UNREACHABLE_TIMEOUT :: int where "CHARGER_UNREACHABLE_TIMEOUT \<equiv> 32000000"

subsection \<open>Chargers that do not answer\<close>

record 'f reach_info =
  r_chargers :: "'f ChargerState list"
  r_allocs :: "ChargerAllocationState list"
  unreachable_evse_found :: bool
  notified :: "nat list"
  vehicle_connected :: bool

definition mark_error :: "nat \<Rightarrow> nat \<Rightarrow> ChargerAllocationState \<Rightarrow> ChargerAllocationState" where
  "mark_error charger_error err a =
    (let state_was_not_error = (cas_state a \<noteq> CASStateError); a = a\<lparr>cas_state := CASStateError\<rparr> in
     if state_was_not_error \<or> charger_error < CASError_ClientErrorOK then a\<lparr>cas_error := err\<rparr> else a)"

definition reports_error :: "nat \<Rightarrow> bool" where
  "reports_error e \<longleftrightarrow> e \<noteq> CASError_OK \<and> e \<noteq> CASError_ChargerUnreachable \<and> e \<noteq> CASError_EVSENonreactive
     \<and> e < CASError_ClientErrorOK"

definition does_not_obey :: "int \<Rightarrow> 'f ChargerState \<Rightarrow> ChargerAllocationState \<Rightarrow> bool" where
  "does_not_obey now c a \<longleftrightarrow>
    (allocated_current a < allowed_current c
     \<or> allocated_phases a \<noteq> 0 \<and> allocated_phases a < phases c
     \<or> allocated_phases a = 0 \<and> is_charging c)
    \<and> last_sent_config a + CHARGER_UNREACHABLE_TIMEOUT < now"

definition check_charger :: "int \<Rightarrow> nat \<Rightarrow> 'f reach_info \<Rightarrow> 'f reach_info" where
  "check_charger now i r =
    (let c = r_chargers r ! i; a = r_allocs r ! i;
         charger_error = cas_error a;
         r = (if reports_error charger_error then r\<lparr>unreachable_evse_found := True\<rparr> else r);
         age = now - last_update c;
         r = (if age > RE_RESOLVE_TIMEOUT then r\<lparr>notified := notified r @ [i]\<rparr> else r);
         c = (if age > CHARGER_UNREACHABLE_TIMEOUT then c\<lparr>off := True\<rparr> else c);
         a = (if age > RE_RESOLVE_TIMEOUT then
                if age > CHARGER_UNREACHABLE_TIMEOUT then mark_error charger_error CASError_ChargerUnreachable a else a
              else if cas_error a = CASError_ChargerUnreachable then a\<lparr>cas_error := CASError_OK\<rparr> else a);
         disobeys = does_not_obey now c a;
         r = (if disobeys then r\<lparr>unreachable_evse_found := True\<rparr> else r);
         a = (if disobeys then mark_error charger_error CASError_EVSENonreactive a
              else if cas_error a = CASError_EVSENonreactive then a\<lparr>cas_error := CASError_OK\<rparr> else a);
         r = (if cas_state a \<noteq> NoVehicle then r\<lparr>vehicle_connected := True\<rparr> else r)
     in r\<lparr>r_chargers := (r_chargers r)[i := c], r_allocs := (r_allocs r)[i := a]\<rparr>)"

definition check_chargers :: "int \<Rightarrow> nat \<Rightarrow> 'f ChargerState list \<Rightarrow> ChargerAllocationState list \<Rightarrow> 'f reach_info" where
  "check_chargers now n chargers allocs =
    (let r = fold (check_charger now) [0..<n] \<lparr>r_chargers = chargers, r_allocs = allocs,
               unreachable_evse_found = False, notified = [], vehicle_connected = False\<rparr>
     in if unreachable_evse_found r
        then r\<lparr>r_chargers := map (\<lambda>c. c\<lparr>off := True\<rparr>) (r_chargers r), vehicle_connected := True\<rparr> else r)"

subsection \<open>The passes over the charge modes\<close>

definition mode_pass :: "'f float_ops \<Rightarrow> nat \<Rightarrow> nat \<Rightarrow> 'f StageContext \<Rightarrow> 'f StageContext" where
  "mode_pass fo not_off_count mode sc =
    (let sc = sc\<lparr>charge_mode_filter := (if mode = ChargeMode_Min then mode OR ChargeMode_PV else mode)\<rparr>;
         (count, sc) = filter_chargers_impl (\<lambda>sc i.
            get_highest_charge_mode_bit (charger_states sc ! i) AND charge_mode_filter sc \<noteq> 0) sc (Some not_off_count);
         sc = sc\<lparr>charger_count := count\<rparr>;
         sc = undo_stage_6 sc;
         sc = stage_4 fo sc;
         sc = stage_5 fo sc;
         sc = stage_6 sc;
         sc = stage_7 fo sc
     in stage_8 False sc)"

function mode_passes :: "'f float_ops \<Rightarrow> nat \<Rightarrow> nat \<Rightarrow> 'f StageContext \<Rightarrow> 'f StageContext" where
  "mode_passes fo not_off_count mode sc =
    (if mode \<ge> ChargeMode_Min then mode_passes fo not_off_count (mode div 2) (mode_pass fo not_off_count mode sc)
     else sc)"
  by pat_completeness auto
termination by (relation "measure (\<lambda>(_, _, mode, _). mode)") auto

declare mode_passes.simps [simp del]

definition run_stages :: "'f float_ops \<Rightarrow> (int \<times> int) option \<Rightarrow> 'f StageContext \<Rightarrow> 'f StageContext" where
  "run_stages fo clock sc =
    (let sc = decision_preprocess sc;
         sc = stage_1 clock sc;
         (not_off_count, sc) = filter_chargers_impl (\<lambda>sc i. \<not> off (charger_states sc ! i)) sc None;
         sc = sc\<lparr>charger_count := not_off_count\<rparr>;
         sc = stage_2 sc;
         sc = stage_3 sc;
         sc = stage_6 sc;
         sc = mode_passes fo not_off_count ChargeMode_max sc;
         sc = sc\<lparr>charger_count := not_off_count\<rparr>;
         sc = stage_9 fo sc;
         sc = stage_8 True sc
     in decision_postprocess sc)"

subsection \<open>Storing the result\<close>

record 'f alloc_result =
  res_code :: int
  res_limits :: CurrentLimits
  res_chargers :: "'f ChargerState list"
  res_ca_state :: CurrentAllocatorState
  res_allocs :: "ChargerAllocationState list"
  res_decisions :: "ChargerDecision list"
  res_notified :: "nat list"
  res_vehicle_connected :: bool

definition alloc_energy ::
  "'f float_ops \<Rightarrow> 'f CurrentAllocatorConfig \<Rightarrow> int \<Rightarrow> nat \<Rightarrow> nat \<Rightarrow> 'f ChargerState \<Rightarrow> 'f ChargerState" where
  "alloc_energy fo cfg now current n c =
    (let charging_time = f_of_int fo (now - last_plug_in c);
         c = (if n \<noteq> 0 then
                let amps = f_div fo (f_mul fo (f_of_int fo (int current)) (f_of_int fo (int n))) (f_of_int fo 1000);
                    alloc_time = (if \<not> (last_plug_in c + allocation_interval cfg < now) then charging_time
                                  else f_of_int fo (allocation_interval cfg));
                    amp_hours = f_mul fo amps (f_div fo alloc_time (f_of_int fo 3600000000));
                    watt_hours = f_mul fo amp_hours (f_of_int fo 230)
                in c\<lparr>allocated_energy := f_add fo (allocated_energy c) (f_div fo watt_hours (f_of_int fo 1000))\<rparr>
              else c)
     in c\<lparr>allocated_average_power := f_div fo (allocated_energy c) (f_div_double fo charging_time 3600000000)\<rparr>)"

definition store_charger ::
  "'f float_ops \<Rightarrow> 'f CurrentAllocatorConfig \<Rightarrow> int \<Rightarrow> int \<Rightarrow> nat
    \<Rightarrow> 'f ChargerState \<times> ChargerAllocationState \<times> CurrentAllocatorState
    \<Rightarrow> 'f ChargerState \<times> ChargerAllocationState \<times> CurrentAllocatorState" where
  "store_charger fo cfg now cur n = (\<lambda>(c, a, ca).
    let current_to_set = nat (cur mod 2 ^ 16);
        old_phases = allocated_phases a;
        ca = (if old_phases \<noteq> n \<and> n \<noteq> 0 then ca\<lparr>last_hysteresis_reset := now\<rparr> else ca);
        c = (if old_phases \<noteq> n \<and> old_phases = 0 then c\<lparr>last_switch_on := now\<rparr> else c);
        c = (if phases c \<noteq> n \<and> n \<noteq> 0 then c\<lparr>last_phase_switch := now\<rparr> else c);
        c = (if wants_to_charge_low_priority c \<and> old_phases = 0 \<and> n \<noteq> 0 then c\<lparr>last_wakeup := now\<rparr> else c);
        c = (if current_to_set < requested_current c then c\<lparr>use_supported_current := now\<rparr> else c);
        c = (if just_plugged_in_timestamp c \<noteq> 0 \<and> n > 0 \<and> last_switch_on c + plug_in_time cfg < now
             then c\<lparr>just_plugged_in_timestamp := 0\<rparr> else c);
        c = (if just_plugged_in_timestamp c \<noteq> 0 \<and> allocated_phases a > 0 \<and> n = 0
             then c\<lparr>just_plugged_in_timestamp := 0\<rparr> else c);
        change = (allocated_current a \<noteq> current_to_set \<or> allocated_phases a \<noteq> n);
        a = a\<lparr>allocated_current := current_to_set, allocated_phases := n\<rparr>;
        c = alloc_energy fo cfg now current_to_set n c;
        eco_min_pv_hack = (charge_mode c AND (ChargeMode_Eco OR ChargeMode_Min) = (ChargeMode_Eco OR ChargeMode_Min)
          \<and> \<not> eco_fast c \<and> int (current_to_set * n) \<le> guaranteed_pv_current c);
        c = (if n \<noteq> 0 \<and> is_charging c \<and> \<not> eco_min_pv_hack
             then c\<lparr>time_in_state_c := time_in_state_c c + allocation_interval cfg\<rparr> else c);
        a = (if change \<and> cas_error a \<noteq> CASError_EVSENonreactive then a\<lparr>last_sent_config := now\<rparr> else a)
    in (c, a, ca))"

definition store_step ::
  "'f float_ops \<Rightarrow> 'f StageContext \<Rightarrow> nat
    \<Rightarrow> 'f ChargerState list \<times> ChargerAllocationState list \<times> CurrentAllocatorState
    \<Rightarrow> 'f ChargerState list \<times> ChargerAllocationState list \<times> CurrentAllocatorState" where
  "store_step fo sc i = (\<lambda>(cs, as, ca).
    case store_charger fo (sc_cfg sc) (sc_now sc) (current_allocation sc ! i) (phase_allocation sc ! i)
           (cs ! i, as ! i, ca) of
      (c, a, ca) \<Rightarrow> (cs[i := c], as[i := a], ca))"

definition allocate_current ::
  "'f float_ops \<Rightarrow> (int \<times> int) option \<Rightarrow> int \<Rightarrow> 'f CurrentAllocatorConfig \<Rightarrow> CurrentLimits \<Rightarrow> bool
    \<Rightarrow> 'f ChargerState list \<Rightarrow> CurrentAllocatorState \<Rightarrow> ChargerAllocationState list \<Rightarrow> ChargerDecision list
    \<Rightarrow> 'f alloc_result" where
  "allocate_current fo clock now cfg limits cp_disconnect_requested chargers ca allocs decisions =
    (let n = cfg_charger_count cfg;
         phases_array = map (\<lambda>i. allocated_phases (allocs ! i)) [0..<n];
         ca = ca\<lparr>global_hysteresis_elapsed := (last_hysteresis_reset ca = 0
                   \<or> last_hysteresis_reset ca + global_hysteresis cfg < now)\<rparr>;
         allocs = map (\<lambda>a. a\<lparr>cp_disconnect := cp_disconnect_requested\<rparr>) allocs;
         r = check_chargers now n chargers allocs;
         sc = run_stages fo clock \<lparr>idx_array = [0..<n], current_allocation = replicate n 0,
           phase_allocation = phases_array, charger_decisions = decisions, sc_limits = limits,
           charger_states = r_chargers r, charger_count = n, unfiltered_charger_count = n, sc_cfg = cfg,
           ca_state = ca, charger_allocation_state = r_allocs r, charge_mode_filter = 255, sc_now = now\<rparr>;
         (cs, as, ca) = fold (store_step fo sc) [0..<n] (r_chargers r, r_allocs r, ca_state sc)
     in \<lparr>res_code = (if unreachable_evse_found r then 2 else 1), res_limits = sc_limits sc, res_chargers = cs,
         res_ca_state = ca, res_allocs = as, res_decisions = charger_decisions sc, res_notified = notified r,
         res_vehicle_connected = vehicle_connected r\<rparr>)"

end
