(* ===== verification/Charge_Examples.thy ===== *)
theory Charge_Examples
  imports Charge_Types
begin

section \<open>Charge manager: an example\<close>

text \<open>
  Two chargers that want to charge, one of them with a single phase on L2, with the configuration, limits and
  context of an allocation, for the examples next to the properties. Whole numbers take the place of \<^verbatim>\<open>float\<close>.
\<close>

definition int_ops :: "int float_ops" where
  "int_ops = \<lparr>f_of_int = (\<lambda>n. n), f_add = (+), f_mul = (*), f_div = (sdiv), f_div_double = (sdiv), f_less = (<),
     f_trunc = (\<lambda>n. n), f_isnan = (\<lambda>n. False)\<rparr>"

definition demo_config :: "nat \<Rightarrow> int CurrentAllocatorConfig" where
  "demo_config n = \<lparr>allocation_interval = 10000000, global_hysteresis = 180000000, wakeup_time = 180000000,
     plug_in_time = 60000000, rotation_interval = 900, minimum_current_3p = 6000, minimum_current_1p = 6000,
     enable_current_factor = 1, cfg_charger_count = n, requested_current_margin = 3000, requested_current_threshold = 60\<rparr>"

definition demo_limits :: "int \<Rightarrow> CurrentLimits" where
  "demo_limits n = \<lparr>min_expiration_ts = (\<lambda>_. 0), max_pv_expiration_ts = 0, lim_raw = Cost (3 * n) n n n,
     lim_min = Cost (3 * n) n n n, lim_spread = Cost (3 * n) n n n, lim_max_pv = 3 * n\<rparr>"

definition demo_charger :: "int ChargerState" where
  "demo_charger = \<lparr>last_update = 1000000000, uptime = 1, power_total_count = 0, power_total_sum = 0, energy_abs = 0,
     supported_current = 32000, allowed_current = 0, requested_current = 32000, user_current = 32000, charger_state = 1,
     wants_to_charge = True, wants_to_charge_low_priority = False, is_charging = False, cp_disconnect_supported = False,
     cp_disconnect_state = False, meter_supported = False, phase_switch_supported = False,
     currently_switching_phases = False, phases = 3, phase_rotation = RotUnknown, allocated_energy = 0,
     allocated_average_power = 0, last_switch_on = 0, last_phase_switch = 0, just_plugged_in_timestamp = 0,
     last_plug_in = 900000000, last_plug_out = 0, last_wakeup = 0, use_supported_current = 0, time_in_state_c = 0,
     charge_mode = 8, off = False, observe_pv_limit = False, eco_fast = False, guaranteed_pv_current = 0\<rparr>"

definition demo_alloc :: ChargerAllocationState where
  "demo_alloc = \<lparr>last_sent_config = 1000000000, allocated_current = 0, allocated_phases = 0, cp_disconnect = False,
     cas_error = 0, cas_state = ManagerBlocked\<rparr>"

definition demo_decision :: ChargerDecision where
  "demo_decision = \<lparr>d_zero = ZeroNone, d_one = OneNone, d_three = ThreeNone, d_current = CurNone\<rparr>"

definition demo_state :: CurrentAllocatorState where
  "demo_state = \<lparr>global_hysteresis_elapsed = False, last_hysteresis_reset = 0, next_rotation = 0,
     control_window_min = Cost 0 0 0 0, control_window_max = Cost 0 0 0 0\<rparr>"

definition demo_chargers :: "int ChargerState list" where
  "demo_chargers = [demo_charger, demo_charger\<lparr>phases := 1, phase_rotation := L231\<rparr>]"

definition demo_context :: "int StageContext" where
  "demo_context = \<lparr>idx_array = [0, 1], current_allocation = [0, 0], phase_allocation = [0, 0],
     charger_decisions = [demo_decision, demo_decision], sc_limits = demo_limits 20000,
     charger_states = demo_chargers, charger_count = 2, unfiltered_charger_count = 2, sc_cfg = demo_config 2,
     ca_state = demo_state, charger_allocation_state = [demo_alloc, demo_alloc], charge_mode_filter = 255,
     sc_now = 1001000000\<rparr>"

end
