(* ===== verification/Charge_Steps.thy ===== *)
theory Charge_Steps
  imports Charge_Allocator Charge_Examples "HOL-Library.Multiset"
begin

section \<open>Charge manager: steps of an allocation and their invariant\<close>

text \<open>
  Every stage is a sequence of small steps: the order of chargers or a decision changes, a charger without
  current gets other phases, or its current changes together with the limits. The invariant \<open>alloc_inv\<close>
  holds after each of them: what the limits have lost on a grid phase is what the chargers have got
  there, and this never exceeds the limit the allocation started with.
\<close>

subsection \<open>Filtering\<close>

lemma length_filter_loop [simp]: "length (snd (filter_loop P n i matches idx)) = length idx"
  by (induction P n i matches idx rule: filter_loop.induct) (simp_all add: swap_at_def)

text \<open>What is behind the front of the loop stays, what was found is in front in the old order, and the
  elements in between are the ones that did not match.\<close>

lemma filter_loop_spec:
  "i + n \<le> length idx \<Longrightarrow> matches \<le> i \<Longrightarrow>
    fst (filter_loop P n i matches idx) = matches + length (filter P (take n (drop i idx)))
    \<and> take (matches + length (filter P (take n (drop i idx)))) (snd (filter_loop P n i matches idx))
        = take matches idx @ filter P (take n (drop i idx))
    \<and> mset (take (i + n) (snd (filter_loop P n i matches idx))) = mset (take (i + n) idx)
    \<and> drop (i + n) (snd (filter_loop P n i matches idx)) = drop (i + n) idx"
proof (induction P n i matches idx rule: filter_loop.induct)
  case (1 P i matches idx)
  then show ?case by simp
next
  case (2 P n i matches idx)
  have split: "take (Suc n) (drop i idx) = idx ! i # take n (drop (Suc i) idx)"
    using "2.prems"(1) by (simp flip: Cons_nth_drop_Suc)
  show ?case
  proof (cases "P (idx ! i)")
    case False
    then show ?thesis using "2.IH"(1) "2.prems" split by simp
  next
    case True
    let ?s = "swap_at matches i idx"
    have "drop (Suc i) ?s = drop (Suc i) idx" using "2.prems" by (simp add: swap_at_def)
    moreover have "take (Suc matches) ?s = take matches idx @ [idx ! i]"
      using "2.prems" by (cases "matches = i") (simp_all add: swap_at_def take_Suc_conv_app_nth)
    moreover have "mset (take (Suc i + n) ?s) = mset (take (Suc i + n) idx)"
      using "2.prems" mset_swap[of i "take (Suc i + n) idx" matches]
      by (simp add: swap_at_def take_update_swap)
    moreover have "drop (Suc i + n) ?s = drop (Suc i + n) idx" using "2.prems" by (simp add: swap_at_def)
    moreover have "length ?s = length idx" by (simp add: swap_at_def)
    ultimately show ?thesis using True "2.IH"(2) "2.prems" split by simp
  qed
qed


definition reordered :: "nat \<Rightarrow> 'a list \<Rightarrow> 'a list \<Rightarrow> bool" where
  "reordered k xs ys \<longleftrightarrow> mset (take k ys) = mset (take k xs) \<and> drop k ys = drop k xs"

lemma reordered_refl [simp]: "reordered k xs xs"
  by (simp add: reordered_def)

lemma reordered_trans: "reordered k xs ys \<Longrightarrow> reordered k ys zs \<Longrightarrow> reordered k xs zs"
  by (simp add: reordered_def)

lemma reordered_mono:
  assumes "reordered k xs ys" "k \<le> k'"
  shows "reordered k' xs ys"
proof -
  obtain d where k': "k' = k + d" using assms(2) le_Suc_ex by blast
  have "drop k' zs = drop d (drop k zs)" for zs :: "'a list" by (simp add: k' add.commute)
  then show ?thesis using assms(1) by (simp add: reordered_def k' take_add del: drop_drop)
qed

lemma reordered_mset: "reordered k xs ys \<Longrightarrow> mset ys = mset xs"
  by (metis append_take_drop_id mset_append reordered_def)

lemma reordered_set: "reordered k xs ys \<Longrightarrow> set (take k ys) = set (take k xs)"
  by (metis reordered_def set_mset_mset)

lemma filter_chargers_reorders:
  assumes "filter_chargers_impl P sc lim = (m, sc')"
    and "(case lim of None \<Rightarrow> charger_count sc | Some n \<Rightarrow> n) = k" "k \<le> length (idx_array sc)"
  shows "sc' = sc\<lparr>idx_array := idx_array sc'\<rparr>" "reordered k (idx_array sc) (idx_array sc')"
    "take m (idx_array sc') = filter (P sc) (take k (idx_array sc))" "m \<le> k"
proof -
  have r: "m = fst (filter_loop (P sc) k 0 0 (idx_array sc))"
    "sc' = sc\<lparr>idx_array := snd (filter_loop (P sc) k 0 0 (idx_array sc))\<rparr>"
    using assms by (auto simp: filter_chargers_impl_def Let_def split_def)
  have "length (filter (P sc) (take k (idx_array sc))) \<le> k"
    using length_filter_le[of "P sc" "take k (idx_array sc)"] by simp
  then show "sc' = sc\<lparr>idx_array := idx_array sc'\<rparr>" "reordered k (idx_array sc) (idx_array sc')"
    "take m (idx_array sc') = filter (P sc) (take k (idx_array sc))" "m \<le> k"
    using filter_loop_spec[of 0 k "idx_array sc" 0 "P sc"] assms(3) r by (simp_all add: reordered_def)
qed

text \<open>
  Filtering moves exactly the chargers among the first \<open>k\<close> that match to the front of the index array, in
  their old order, and returns their number; no other charger that matches is left behind them, the array
  stays a permutation, and what is behind the first \<open>k\<close> and the rest of the context is untouched.
\<close>

lemma filter_chargers_partitions:
  assumes "filter_chargers_impl P sc lim = (m, sc')"
    and "k = (case lim of None \<Rightarrow> charger_count sc | Some n \<Rightarrow> n)" "k \<le> length (idx_array sc)"
  shows "take m (idx_array sc') = filter (P sc) (take k (idx_array sc)) \<and> m = length (filter (P sc) (take k (idx_array sc)))
    \<and> list_all (\<lambda>i. \<not> P sc i) (drop m (take k (idx_array sc')))
    \<and> mset (idx_array sc') = mset (idx_array sc) \<and> drop k (idx_array sc') = drop k (idx_array sc)
    \<and> sc' = sc\<lparr>idx_array := idx_array sc'\<rparr>"
proof -
  note f = filter_chargers_reorders[OF assms(1) assms(2)[symmetric] assms(3)]
  have mk: "min m k = m" and len: "length (idx_array sc') = length (idx_array sc)"
    using f(4) reordered_mset[OF f(2)] by (simp, metis size_mset)
  have m: "m = length (filter (P sc) (take k (idx_array sc)))"
    using arg_cong[OF f(3), of length] mk len assms(3) f(4) by simp
  have split: "take k (idx_array sc') = take m (idx_array sc') @ drop m (take k (idx_array sc'))"
    using append_take_drop_id[of m "take k (idx_array sc')"] mk by (simp add: min.commute)
  have "mset (filter (P sc) (take k (idx_array sc'))) = mset (take m (idx_array sc'))"
    using f(2,3) by (simp add: reordered_def)
  then have "mset (filter (P sc) (drop m (take k (idx_array sc')))) = {#}"
    by (subst (asm) split) (simp add: f(3))
  then have "list_all (\<lambda>i. \<not> P sc i) (drop m (take k (idx_array sc')))"
    by (simp add: filter_empty_conv list_all_iff)
  then show ?thesis using f m reordered_mset[OF f(2)] by (simp add: reordered_def)
qed

subsection \<open>Sorting\<close>

lemma mset_insert_stable [simp]: "mset (insert_stable lt x xs) = add_mset x (mset xs)"
  by (induction lt x xs rule: insert_stable.induct) simp_all

lemma mset_stable_sort [simp]: "mset (stable_sort lt xs) = mset xs"
  by (induction xs) (simp_all add: stable_sort_def)

lemma length_stable_sort [simp]: "length (stable_sort lt xs) = length xs"
  by (metis mset_stable_sort size_mset)

lemma sort_chargers_reorders:
  assumes "sc' = sort_chargers_impl grp cmp sc m" "m \<le> length (idx_array sc)"
  shows "sc' = sc\<lparr>idx_array := idx_array sc'\<rparr>" "reordered m (idx_array sc) (idx_array sc')"
  using assms by (simp_all add: sort_chargers_impl_def Let_def reordered_def)

subsection \<open>Steps\<close>

definition cost_fits :: "Cost \<Rightarrow> CurrentLimits \<Rightarrow> bool" where
  "cost_fits cost limits \<longleftrightarrow>
    (\<forall>p \<in> {L1, L2, L3}. at_phase cost p > 0 \<longrightarrow> at_phase cost p \<le> at_phase (lim_raw limits) p)"

lemma not_exceeds_fits:
  assumes "\<not> cost_exceeds_limits cost limits st obs g"
  shows "cost_fits cost limits"
proof -
  have "\<not> (\<exists>p \<in> set [L1, L2, L3]. at_phase cost p > 0 \<and> at_phase (lim_raw limits) p < at_phase cost p)"
    using assms unfolding cost_exceeds_limits_def Let_def by argo
  then show ?thesis by (simp add: cost_fits_def) linarith
qed

text \<open>The first \<open>k\<close> positions may be reordered, the chargers in \<open>A\<close> may change. A planning step leaves
  currents and limits alone, and it gives phases only to a charger whose vehicle charges or wants to.\<close>

definition willing :: "'f ChargerState \<Rightarrow> bool" where
  "willing c \<longleftrightarrow> wants_to_charge c \<or> wants_to_charge_low_priority c \<or> is_charging c"

inductive plan_step :: "nat \<Rightarrow> nat set \<Rightarrow> 'f StageContext \<Rightarrow> 'f StageContext \<Rightarrow> bool" for k A where
  reorder: "reordered k (idx_array sc) idx \<Longrightarrow> plan_step k A sc (sc\<lparr>idx_array := idx\<rparr>)"
| decide: "plan_step k A sc (sc\<lparr>charger_decisions := ds\<rparr>)"
| window: "plan_step k A sc (sc\<lparr>ca_state := ca\<rparr>)"
| phase: "i \<in> A \<Longrightarrow> current_allocation sc ! i = 0 \<Longrightarrow> n \<in> {0, 1, 3} \<Longrightarrow> n = 0 \<or> willing (charger_states sc ! i)
    \<Longrightarrow> plan_step k A sc (alloc_phases i n sc)"

inductive dist_step :: "nat \<Rightarrow> nat set \<Rightarrow> 'f StageContext \<Rightarrow> 'f StageContext \<Rightarrow> bool" for k A where
  plan: "plan_step k A sc sc' \<Longrightarrow> dist_step k A sc sc'"
| current: "i \<in> A \<Longrightarrow> 0 \<le> c \<Longrightarrow> c < 2 ^ 16 \<Longrightarrow> phase_allocation sc ! i \<noteq> 0
    \<Longrightarrow> (\<And>p. p \<in> {L1, L2, L3} \<Longrightarrow>
          at_phase cost p = (c - current_allocation sc ! i) * at_phase (factors_of sc i) p)
    \<Longrightarrow> cost_fits cost (sc_limits sc) \<Longrightarrow> dist_step k A sc (spend cost (alloc_current i c sc))"

abbreviation plan_steps :: "nat \<Rightarrow> nat set \<Rightarrow> 'f StageContext \<Rightarrow> 'f StageContext \<Rightarrow> bool" where
  "plan_steps k A \<equiv> (plan_step k A)\<^sup>*\<^sup>*"

abbreviation dist_steps :: "nat \<Rightarrow> nat set \<Rightarrow> 'f StageContext \<Rightarrow> 'f StageContext \<Rightarrow> bool" where
  "dist_steps k A \<equiv> (dist_step k A)\<^sup>*\<^sup>*"

lemma plan_step_mono:
  assumes "k \<le> k'" "A \<subseteq> A'"
  shows "plan_step k A sc sc' \<Longrightarrow> plan_step k' A' sc sc'"
proof (induction rule: plan_step.induct)
  case (reorder sc idx)
  show ?case by (rule plan_step.reorder) (rule reordered_mono[OF reorder assms(1)])
next
  case (phase i sc n)
  then show ?case using assms(2) by (meson plan_step.phase subsetD)
qed (rule plan_step.intros)+

lemma dist_step_mono:
  assumes "k \<le> k'" "A \<subseteq> A'"
  shows "dist_step k A sc sc' \<Longrightarrow> dist_step k' A' sc sc'"
proof (induction rule: dist_step.induct)
  case (plan sc sc')
  then show ?case by (rule dist_step.plan[OF plan_step_mono[OF assms]])
next
  case (current i c sc cost)
  show ?case
    by (rule dist_step.current[OF subsetD[OF assms(2) current(1)] current(2-4) _ current(6)]) (rule current(5))
qed

lemma plan_steps_mono: "plan_steps k A sc sc' \<Longrightarrow> k \<le> k' \<Longrightarrow> A \<subseteq> A' \<Longrightarrow> plan_steps k' A' sc sc'"
  by (erule rtranclp_mono[THEN predicate2D, rotated]) (simp add: le_fun_def plan_step_mono)

lemma dist_steps_mono: "dist_steps k A sc sc' \<Longrightarrow> k \<le> k' \<Longrightarrow> A \<subseteq> A' \<Longrightarrow> dist_steps k' A' sc sc'"
  by (erule rtranclp_mono[THEN predicate2D, rotated]) (simp add: le_fun_def dist_step_mono)

lemma plan_dist_steps: "plan_steps k A sc sc' \<Longrightarrow> dist_steps k A sc sc'"
  by (erule rtranclp_mono[THEN predicate2D, rotated]) (simp add: le_fun_def dist_step.plan)

subsection \<open>What steps keep\<close>

definition same_frame :: "'f StageContext \<Rightarrow> 'f StageContext \<Rightarrow> bool" where
  "same_frame sc sc' \<longleftrightarrow> charger_states sc' = charger_states sc \<and> sc_cfg sc' = sc_cfg sc
    \<and> charger_count sc' = charger_count sc
    \<and> charger_allocation_state sc' = charger_allocation_state sc \<and> sc_now sc' = sc_now sc
    \<and> length (current_allocation sc') = length (current_allocation sc)
    \<and> length (phase_allocation sc') = length (phase_allocation sc)"

lemma same_frame_states: "same_frame sc sc' \<Longrightarrow> charger_states sc' = charger_states sc"
  by (simp add: same_frame_def)

definition framed :: "nat \<Rightarrow> nat set \<Rightarrow> 'f StageContext \<Rightarrow> 'f StageContext \<Rightarrow> bool" where
  "framed k A sc sc' \<longleftrightarrow> same_frame sc sc' \<and> reordered k (idx_array sc) (idx_array sc')
    \<and> (\<forall>i. i \<notin> A \<longrightarrow> current_allocation sc' ! i = current_allocation sc ! i
          \<and> phase_allocation sc' ! i = phase_allocation sc ! i)"

lemma framed_refl [simp]: "framed k A sc sc"
  by (simp add: framed_def same_frame_def)

lemma framed_trans: "framed k A a b \<Longrightarrow> framed k A b c \<Longrightarrow> framed k A a c"
  unfolding framed_def same_frame_def by (auto intro: reordered_trans)

lemma plan_step_frame:
  "plan_step k A sc sc' \<Longrightarrow> framed k A sc sc' \<and> current_allocation sc' = current_allocation sc
    \<and> sc_limits sc' = sc_limits sc"
proof (induction rule: plan_step.induct)
  case (phase i sc n)
  then have "j \<notin> A \<Longrightarrow> (phase_allocation sc)[i := n] ! j = phase_allocation sc ! j" for j
    by (metis nth_list_update_neq)
  then show ?case by (simp add: framed_def same_frame_def alloc_phases_def)
qed (simp_all add: framed_def same_frame_def)

lemma dist_step_frame: "dist_step k A sc sc' \<Longrightarrow> framed k A sc sc'"
proof (induction rule: dist_step.induct)
  case (plan sc sc')
  then show ?case by (simp add: plan_step_frame)
next
  case (current i c sc cost)
  then have "j \<notin> A \<Longrightarrow> (current_allocation sc)[i := c] ! j = current_allocation sc ! j" for j
    by (metis nth_list_update_neq)
  then show ?case by (simp add: framed_def same_frame_def alloc_current_def spend_def)
qed

lemma plan_steps_frame:
  "plan_steps k A sc sc' \<Longrightarrow> framed k A sc sc' \<and> current_allocation sc' = current_allocation sc
    \<and> sc_limits sc' = sc_limits sc"
proof (induction rule: rtranclp_induct)
  case (step y z)
  then show ?case using plan_step_frame[OF step.hyps(2)] by (auto intro: framed_trans)
qed simp

lemma dist_steps_frame: "dist_steps k A sc sc' \<Longrightarrow> framed k A sc sc'"
proof (induction rule: rtranclp_induct)
  case (step y z)
  then show ?case using dist_step_frame[OF step.hyps(2)] by (auto intro: framed_trans)
qed simp

subsection \<open>The invariant\<close>

definition load :: "nat \<Rightarrow> 'f StageContext \<Rightarrow> GridPhase \<Rightarrow> int" where
  "load N sc p = (\<Sum>i<N. current_allocation sc ! i * at_phase (factors_of sc i) p)"

definition alloc_inv :: "nat \<Rightarrow> Cost \<Rightarrow> 'f StageContext \<Rightarrow> bool" where
  "alloc_inv N raw0 sc \<longleftrightarrow> length (current_allocation sc) = N \<and> length (phase_allocation sc) = N
    \<and> mset (idx_array sc) = mset [0..<N]
    \<and> (\<forall>i<N. 0 \<le> current_allocation sc ! i \<and> current_allocation sc ! i < 2 ^ 16
          \<and> phase_allocation sc ! i \<in> {0, 1, 3}
          \<and> (phase_allocation sc ! i = 0 \<longrightarrow> current_allocation sc ! i = 0))
    \<and> (\<forall>p \<in> {L1, L2, L3}. at_phase (lim_raw (sc_limits sc)) p = at_phase raw0 p - load N sc p
          \<and> load N sc p \<le> max 0 (at_phase raw0 p))"

lemma at_phase_minus [simp]: "at_phase (a - b) p = at_phase a p - at_phase b p"
  by (cases p) (simp_all add: minus_Cost_def)

lemma at_phase_uminus [simp]: "at_phase (- a) p = - at_phase a p"
  by (cases p) (simp_all add: uminus_Cost_def)

lemma at_phase_scale [simp]: "at_phase (scale n c) p = n * at_phase c p"
  by (cases p) (simp_all add: scale_def)

lemma factors_of_nonneg [simp]: "p \<in> {L1, L2, L3} \<Longrightarrow> 0 \<le> at_phase (factors_of sc i) p"
proof -
  have "0 \<le> at_phase (set_phase g 1 (Cost 1 0 0 0)) q" for g q by (cases g; cases q) simp_all
  moreover have "0 \<le> at_phase (Cost a 1 1 1) q" if "0 \<le> a" for a q using that by (cases q) simp_all
  moreover have "0 \<le> at_phase (Cost 0 0 0 0) q" for q by (cases q) simp_all
  ultimately show ?thesis by (simp add: factors_of_def get_phase_factors_def)
qed

lemma plan_step_inv:
  "plan_step k A sc sc' \<Longrightarrow> A \<subseteq> {..<N} \<Longrightarrow> alloc_inv N raw0 sc \<Longrightarrow> alloc_inv N raw0 sc'"
proof (induction rule: plan_step.induct)
  case (reorder sc idx)
  then show ?case using reordered_mset[OF reorder(1)] by (simp add: alloc_inv_def load_def factors_of_def)
next
  case (phase i sc n)
  have load: "load N (alloc_phases i n sc) p = load N sc p" for p
    unfolding load_def
  proof (rule sum.cong[OF refl])
    fix j
    show "current_allocation (alloc_phases i n sc) ! j * at_phase (factors_of (alloc_phases i n sc) j) p
        = current_allocation sc ! j * at_phase (factors_of sc j) p"
      using phase(2) by (cases "j = i") (simp_all add: alloc_phases_def factors_of_def)
  qed
  have "(phase_allocation sc)[i := n] ! j \<in> {0, 1, 3}
      \<and> ((phase_allocation sc)[i := n] ! j = 0 \<longrightarrow> current_allocation sc ! j = 0)" if "j < N" for j
    using phase that unfolding alloc_inv_def by (cases "j = i") simp_all
  then show ?case using phase(6) load unfolding alloc_inv_def by (simp add: alloc_phases_def)
qed (simp_all add: alloc_inv_def load_def factors_of_def)

lemma load_change:
  assumes "i < N" "length (current_allocation sc) = N"
  shows "load N (alloc_current i c sc) p
    = load N sc p + (c - current_allocation sc ! i) * at_phase (factors_of sc i) p"
proof -
  let ?f = "\<lambda>sc j. current_allocation sc ! j * at_phase (factors_of sc j) p"
  have "load N (alloc_current i c sc) p = ?f (alloc_current i c sc) i + (\<Sum>j\<in>{..<N} - {i}. ?f (alloc_current i c sc) j)"
    using assms(1) unfolding load_def by (simp add: sum.remove)
  also have "(\<Sum>j\<in>{..<N} - {i}. ?f (alloc_current i c sc) j) = (\<Sum>j\<in>{..<N} - {i}. ?f sc j)"
    by (rule sum.cong) (simp_all add: alloc_current_def factors_of_def)
  also have "\<dots> = load N sc p - ?f sc i"
    using assms(1) unfolding load_def by (simp add: sum.remove)
  finally show ?thesis using assms by (simp add: alloc_current_def factors_of_def algebra_simps)
qed

lemma load_spend [simp]: "load N (spend cost sc) p = load N sc p"
  by (simp add: load_def spend_def factors_of_def)

lemma current_step_inv:
  assumes step: "i < N" "0 \<le> c" "c < 2 ^ 16" "phase_allocation sc ! i \<noteq> 0"
      "\<And>p. p \<in> {L1, L2, L3} \<Longrightarrow>
         at_phase cost p = (c - current_allocation sc ! i) * at_phase (factors_of sc i) p"
      "cost_fits cost (sc_limits sc)"
    and inv: "alloc_inv N raw0 sc"
  shows "alloc_inv N raw0 (spend cost (alloc_current i c sc))"
proof -
  let ?sc = "spend cost (alloc_current i c sc)"
  have i: "phase_allocation sc ! i \<in> {0, 1, 3}" using inv step(1) unfolding alloc_inv_def by blast
  have "0 \<le> current_allocation ?sc ! j \<and> current_allocation ?sc ! j < 2 ^ 16
      \<and> phase_allocation ?sc ! j \<in> {0, 1, 3} \<and> (phase_allocation ?sc ! j = 0 \<longrightarrow> current_allocation ?sc ! j = 0)"
    if "j < N" for j
    using inv that step(1-4) i unfolding alloc_inv_def
    by (cases "j = i") (simp_all add: spend_def alloc_current_def)
  moreover have "at_phase (lim_raw (sc_limits ?sc)) p = at_phase raw0 p - load N ?sc p
      \<and> load N ?sc p \<le> max 0 (at_phase raw0 p)" if p: "p \<in> {L1, L2, L3}" for p
  proof -
    have load: "load N ?sc p = load N sc p + at_phase cost p"
      using step(1,5) p inv by (simp add: load_change alloc_inv_def)
    have raw: "at_phase (lim_raw (sc_limits sc)) p = at_phase raw0 p - load N sc p"
      and le: "load N sc p \<le> max 0 (at_phase raw0 p)"
      using inv p unfolding alloc_inv_def by blast+
    have "at_phase cost p > 0 \<longrightarrow> at_phase cost p \<le> at_phase (lim_raw (sc_limits sc)) p"
      using step(6) p unfolding cost_fits_def by blast
    then have "load N ?sc p \<le> max 0 (at_phase raw0 p)" using load raw le by linarith
    moreover have "at_phase (lim_raw (sc_limits ?sc)) p = at_phase (lim_raw (sc_limits sc)) p - at_phase cost p"
      by (simp add: spend_def alloc_current_def apply_cost_def)
    ultimately show ?thesis using load raw by simp
  qed
  moreover have "length (current_allocation ?sc) = N \<and> length (phase_allocation ?sc) = N
      \<and> mset (idx_array ?sc) = mset [0..<N]"
    using inv unfolding alloc_inv_def by (simp add: spend_def alloc_current_def)
  ultimately show ?thesis unfolding alloc_inv_def by blast
qed

lemma dist_step_inv:
  "dist_step k A sc sc' \<Longrightarrow> A \<subseteq> {..<N} \<Longrightarrow> alloc_inv N raw0 sc \<Longrightarrow> alloc_inv N raw0 sc'"
proof (induction rule: dist_step.induct)
  case (plan sc sc')
  then show ?case by (rule plan_step_inv)
next
  case (current i c sc cost)
  then show ?case by (intro current_step_inv) auto
qed

lemma dist_steps_inv:
  "dist_steps k A sc sc' \<Longrightarrow> A \<subseteq> {..<N} \<Longrightarrow> alloc_inv N raw0 sc \<Longrightarrow> alloc_inv N raw0 sc'"
  by (induction rule: rtranclp_induct) (simp_all add: dist_step_inv)

text \<open>A charger with current only draws on phases whose limit was positive, so what is left there is not negative.\<close>

lemma alloc_inv_raw_nonneg:
  assumes "alloc_inv N raw0 sc" "i < N" "0 < current_allocation sc ! i"
    and p: "p \<in> {L1, L2, L3}" "0 < at_phase (factors_of sc i) p"
  shows "0 \<le> at_phase (lim_raw (sc_limits sc)) p"
proof -
  have "0 < current_allocation sc ! i * at_phase (factors_of sc i) p" using assms(3) p(2) by simp
  also have "\<dots> \<le> load N sc p"
    unfolding load_def using assms(1,2) p(1)
    by (intro member_le_sum) (simp_all add: alloc_inv_def)
  finally show ?thesis using assms(1) p(1) unfolding alloc_inv_def by fastforce
qed

text \<open>A vehicle that neither charges nor wants to keeps its charger without phases.\<close>

definition idle_rest :: "nat \<Rightarrow> 'f StageContext \<Rightarrow> bool" where
  "idle_rest N sc \<longleftrightarrow> (\<forall>i<N. \<not> willing (charger_states sc ! i) \<longrightarrow> phase_allocation sc ! i = 0)"

lemma dist_step_idle: "dist_step k A sc sc' \<Longrightarrow> idle_rest N sc \<Longrightarrow> idle_rest N sc'"
proof (induction rule: dist_step.induct)
  case (plan sc sc')
  then show ?case
  proof (induction rule: plan_step.induct)
    case (phase i sc n)
    have "(phase_allocation sc)[i := n] ! j = 0" if "j < N" "\<not> willing (charger_states sc ! j)" for j
      using phase(4,5) that
      by (cases "j = i"; cases "i < length (phase_allocation sc)") (auto simp: idle_rest_def list_update_beyond)
    then show ?case by (simp add: idle_rest_def alloc_phases_def)
  qed (simp_all add: idle_rest_def)
qed (simp add: idle_rest_def alloc_current_def spend_def)

lemma dist_steps_idle: "dist_steps k A sc sc' \<Longrightarrow> idle_rest N sc \<Longrightarrow> idle_rest N sc'"
  by (induction rule: rtranclp_induct) (simp_all add: dist_step_idle)

end
