(* ===== verification/Charge_Planning.thy ===== *)
theory Charge_Planning
  imports Charge_Steps
begin

section \<open>Charge manager: stages 1 to 5 only plan\<close>

text \<open>
  Each of the stages 1 to 5 is a sequence of planning steps on the chargers it is given, as long as
  these have no current yet: no current and no limit changes, and a charger gets no, one or three phases.
\<close>

subsection \<open>Planning steps, composed\<close>

named_theorems plan_intros

lemma plan_steps_append: "plan_steps k A a b \<Longrightarrow> plan_step k A b c \<Longrightarrow> plan_steps k A a c"
  by (rule rtranclp.rtrancl_into_rtrancl)

lemma plan_refl [plan_intros]: "plan_steps k A sc sc"
  by simp

lemma plan_decide [plan_intros]: "plan_steps k A sc s \<Longrightarrow> plan_steps k A sc (update_decision i f s)"
  unfolding update_decision_def by (erule plan_steps_append) (rule plan_step.decide)

lemma plan_zero [plan_intros]: "plan_steps k A sc s \<Longrightarrow> plan_steps k A sc (set_zero_decision i d s)"
  unfolding set_zero_decision_def by (rule plan_decide)

lemma plan_one [plan_intros]: "plan_steps k A sc s \<Longrightarrow> plan_steps k A sc (set_one_decision i d s)"
  unfolding set_one_decision_def by (rule plan_decide)

lemma plan_three [plan_intros]: "plan_steps k A sc s \<Longrightarrow> plan_steps k A sc (set_three_decision i d s)"
  unfolding set_three_decision_def by (rule plan_decide)

lemma plan_current [plan_intros]: "plan_steps k A sc s \<Longrightarrow> plan_steps k A sc (set_current_decision i d s)"
  unfolding set_current_decision_def by (rule plan_decide)

lemma plan_either [plan_intros]:
  "plan_steps k A sc s \<Longrightarrow> plan_steps k A sc (set_phase_decision b i d3 d1 s)"
  by (simp add: set_phase_decision_def plan_one plan_three)

lemma plan_ca [plan_intros]: "plan_steps k A sc s \<Longrightarrow> plan_steps k A sc (s\<lparr>ca_state := ca\<rparr>)"
  by (erule plan_steps_append) (rule plan_step.window)

lemma plan_window [plan_intros]: "plan_steps k A sc s \<Longrightarrow> plan_steps k A sc (calculate_window s)"
  by (simp add: calculate_window_def Let_def split_def plan_ca)

lemma plan_phase [plan_intros]:
  assumes "plan_steps k A sc s" "i \<in> A" "current_allocation sc ! i = 0" "n \<in> {0, 1, 3}"
    and "n = 0 \<or> willing (charger_states sc ! i)"
  shows "plan_steps k A sc (alloc_phases i n s)"
proof (rule plan_steps_append[OF assms(1)], rule plan_step.phase[OF assms(2) _ assms(4)])
  note fr = plan_steps_frame[OF assms(1), unfolded framed_def same_frame_def]
  show "current_allocation s ! i = 0" "n = 0 \<or> willing (charger_states s ! i)" using fr assms(3,5) by simp_all
qed

lemma plan_if [plan_intros]:
  "(b \<Longrightarrow> plan_steps k A sc s) \<Longrightarrow> (\<not> b \<Longrightarrow> plan_steps k A sc t) \<Longrightarrow> plan_steps k A sc (if b then s else t)"
  by simp

text \<open>Bindings: of a context, of a result with a context, and of values that do not matter here.\<close>

lemma plan_let_context [plan_intros]:
  "plan_steps k A sc v \<Longrightarrow> (\<And>s. plan_steps k A sc s \<Longrightarrow> plan_steps k A sc (F s)) \<Longrightarrow> plan_steps k A sc (Let v F)"
  by simp

lemma plan_let_result [plan_intros]:
  "plan_steps k A sc (snd v) \<Longrightarrow> (\<And>b s. plan_steps k A sc s \<Longrightarrow> plan_steps k A sc (F b s))
    \<Longrightarrow> plan_steps k A sc (let (b, s) = v in F b s)"
  by (cases v) simp

lemma plan_result [plan_intros]: "plan_steps k A sc s \<Longrightarrow> plan_steps k A sc (snd (b, s))"
  by simp

lemma plan_if_result [plan_intros]:
  "plan_steps k A sc (snd a) \<Longrightarrow> plan_steps k A sc (snd b) \<Longrightarrow> plan_steps k A sc (snd (if c then a else b))"
  by simp

lemma plan_let_bool [plan_intros]: "(\<And>x :: bool. plan_steps k A sc (F x)) \<Longrightarrow> plan_steps k A sc (Let v F)"
  by simp

lemma plan_let_int [plan_intros]: "(\<And>x :: int. plan_steps k A sc (F x)) \<Longrightarrow> plan_steps k A sc (Let v F)"
  by simp

lemma plan_let_nat [plan_intros]:
  "(\<And>x :: nat. x = v \<Longrightarrow> plan_steps k A sc (F x)) \<Longrightarrow> plan_steps k A sc (Let v F)"
  by simp

lemma plan_let_charger [plan_intros]:
  "(\<And>x :: 'f ChargerState. plan_steps k A sc (F x)) \<Longrightarrow> plan_steps k A sc (Let v F)"
  by simp

lemma snd_let: "snd (Let v F) = Let v (\<lambda>x. snd (F x))"
  by simp

lemmas snd_cases = snd_let if_distrib[of snd] prod.case_distrib[of snd] snd_conv

text \<open>A loop with a state that contains the context.\<close>

lemma plan_fold:
  assumes "\<And>x s. x \<in> set xs \<Longrightarrow> framed k A (pi s0) (pi s) \<Longrightarrow> current_allocation (pi s) = current_allocation (pi s0)
      \<Longrightarrow> plan_steps k A (pi s) (pi (g x s))"
  shows "plan_steps k A (pi s0) (pi (fold g xs s0))"
  using assms
proof (induction xs arbitrary: s0)
  case (Cons x xs)
  have first: "plan_steps k A (pi s0) (pi (g x s0))" by (rule Cons.prems) simp_all
  note fr = plan_steps_frame[OF first]
  have "plan_steps k A (pi (g x s0)) (pi (fold g xs (g x s0)))"
  proof (rule Cons.IH)
    fix y s
    assume "y \<in> set xs" "framed k A (pi (g x s0)) (pi s)" "current_allocation (pi s) = current_allocation (pi (g x s0))"
    then show "plan_steps k A (pi s) (pi (g y s))" using fr by (intro Cons.prems) (auto intro: framed_trans)
  qed
  then show ?case using first by (simp add: rtranclp_trans[OF first])
qed simp

subsection \<open>What the allocator relies on\<close>

text \<open>\<^verbatim>\<open>convert_phase_rotation\<close> in \<^verbatim>\<open>charge_manager.cpp\<close> never gives the rotation \<^verbatim>\<open>NotApplicable\<close>; a charger has
  one or three phases, or none before its first packet, and its currents are 16 bits wide.\<close>

definition charger_ok :: "'f ChargerState \<Rightarrow> bool" where
  "charger_ok c \<longleftrightarrow> phases c \<in> {0, 1, 3} \<and> phase_rotation c \<noteq> RotNotApplicable \<and> user_current c < 2 ^ 16"

definition scales_ok :: "'f float_ops \<Rightarrow> 'f \<Rightarrow> 'f CurrentAllocatorConfig \<Rightarrow> bool" where
  "scales_ok fo f cfg \<longleftrightarrow> f_scale_int fo f 0 = 0
    \<and> (\<forall>m \<in> {minimum_current_1p cfg, minimum_current_3p cfg}. 0 \<le> f_scale_int fo f m \<and> f_scale_int fo f m < 2 ^ 16)"

definition config_ok :: "'f float_ops \<Rightarrow> 'f CurrentAllocatorConfig \<Rightarrow> bool" where
  "config_ok fo cfg \<longleftrightarrow> 0 \<le> minimum_current_1p cfg \<and> minimum_current_1p cfg \<le> 32000
    \<and> 0 \<le> minimum_current_3p cfg \<and> minimum_current_3p cfg \<le> 32000
    \<and> scales_ok fo (enable_current_factor cfg) cfg \<and> scales_ok fo (f_of_int fo 1) cfg"

definition chargers_ok :: "nat set \<Rightarrow> 'f StageContext \<Rightarrow> bool" where
  "chargers_ok A sc \<longleftrightarrow> (\<forall>i \<in> A. charger_ok (charger_states sc ! i))"

subsection \<open>Filters and sorting\<close>

lemma plan_filter:
  assumes "filter_chargers_impl P sc None = (m, sc')" "charger_count sc \<le> length (idx_array sc)"
  shows "plan_steps (charger_count sc) A sc sc'"
    "take m (idx_array sc') = filter (P sc) (take (charger_count sc) (idx_array sc))" "m \<le> charger_count sc"
    "length (idx_array sc') = length (idx_array sc)"
proof -
  note f = filter_chargers_reorders[OF assms(1) _ assms(2), simplified]
  show "plan_steps (charger_count sc) A sc sc'"
    by (subst f(1)) (rule r_into_rtranclp, rule plan_step.reorder, rule f(2))
  show "take m (idx_array sc') = filter (P sc) (take (charger_count sc) (idx_array sc))" "m \<le> charger_count sc"
    by (rule f)+
  show "length (idx_array sc') = length (idx_array sc)" using reordered_mset[OF f(2)] by (metis size_mset)
qed

lemma plan_sort:
  assumes "m \<le> k" "m \<le> length (idx_array sc)"
  shows "plan_steps k A sc (sort_chargers_impl grp cmp sc m)"
    "set (take m (idx_array (sort_chargers_impl grp cmp sc m))) = set (take m (idx_array sc))"
    "length (idx_array (sort_chargers_impl grp cmp sc m)) = length (idx_array sc)"
proof -
  note f = sort_chargers_reorders[OF refl assms(2)]
  show "plan_steps k A sc (sort_chargers_impl grp cmp sc m)"
    by (subst f(1)) (rule r_into_rtranclp, rule plan_step.reorder, rule reordered_mono[OF f(2) assms(1)])
  show "set (take m (idx_array (sort_chargers_impl grp cmp sc m))) = set (take m (idx_array sc))"
    by (rule reordered_set[OF f(2)])
  show "length (idx_array (sort_chargers_impl grp cmp sc m)) = length (idx_array sc)"
    using reordered_mset[OF f(2)] by (metis size_mset)
qed

lemma framed_zero: "framed 0 A a b \<Longrightarrow> idx_array b = idx_array a \<and> charger_states b = charger_states a"
  by (simp add: framed_def same_frame_def reordered_def)

lemma nth_in_take: "j < m \<Longrightarrow> m \<le> length xs \<Longrightarrow> xs ! j \<in> set (take m xs)"
  by (metis length_take min.absorb2 nth_mem nth_take)

lemma plan_for_matched:
  assumes body: "\<And>i s. i \<in> B \<Longrightarrow> current_allocation s ! i = 0 \<Longrightarrow> charger_states s = charger_states sc
      \<Longrightarrow> plan_steps 0 A s (body i s)"
    and "set (take m (idx_array sc)) \<subseteq> B" "m \<le> length (idx_array sc)"
      "\<forall>i \<in> B. current_allocation sc ! i = 0"
  shows "plan_steps 0 A sc (for_matched m body sc)"
proof -
  have "idx_array sc ! j \<in> B" if "j < m" for j
    using that assms(2,3) by (meson nth_in_take subsetD)
  then show ?thesis unfolding for_matched_def
    using plan_fold[where pi = "\<lambda>s. s" and ?s0.0 = sc and k = 0 and A = A and xs = "[0..<m]"
      and g = "\<lambda>i s. body (idx_array s ! i) s"] body assms(4)
    by (simp add: framed_zero)
qed

subsection \<open>Stage 1\<close>

lemma plan_b1: "plan_steps k A (snd bs) (snd (b1_charger act i bs))"
  unfolding b1_charger_def Let_def split_def by (auto intro!: plan_intros)

lemma plan_rotate:
  assumes "i \<in> A" "current_allocation sc ! i = 0" "charger_ok (charger_states sc ! i)"
  shows "plan_steps k A sc (rotate_charger allowed b i sc)"
proof -
  have "phases (charger_states sc ! i) \<in> {0, 1, 3}" using assms(3) by (simp add: charger_ok_def)
  then show ?thesis unfolding rotate_charger_def Let_def using assms(1,2)
    by (intro plan_intros) (auto simp: is_active_def willing_def)
qed

lemma stage_1_rotates:
  "\<exists>t allowed b. plan_steps 0 {} sc t \<and> stage_1 clock sc = fold (rotate_charger allowed b) [0..<charger_count sc] t"
proof -
  let ?act = "\<exists>i \<in> set [0..<charger_count sc]. phase_allocation sc ! i > 0"
  obtain b s where bs: "fold (b1_charger ?act) [0..<charger_count sc]
      (\<lparr>have_b1 = False, b1_on_phase = Cost 0 0 0 0, highest_seen = 0\<rparr>, sc) = (b, s)" by fastforce
  have s: "plan_steps 0 {} sc s"
    using plan_fold[where pi = snd and k = 0 and A = "{}" and xs = "[0..<charger_count sc]" and g = "b1_charger ?act"
        and ?s0.0 = "(\<lparr>have_b1 = False, b1_on_phase = Cost 0 0 0 0, highest_seen = 0\<rparr>, sc)", OF plan_b1]
      bs by simp
  define allowed where "allowed \<longleftrightarrow> rotation_interval (sc_cfg s) > 0 \<and> elapsed s (next_rotation (ca_state s))"
  define t where "t = (if allowed then s\<lparr>ca_state := (ca_state s)\<lparr>next_rotation := align_rotation clock s\<rparr>\<rparr> else s)"
  have t: "plan_steps 0 {} sc t" unfolding t_def by (intro plan_intros s)
  have "charger_count t = charger_count sc" using plan_steps_frame[OF t] by (simp add: framed_def same_frame_def)
  moreover have "stage_1 clock sc = fold (rotate_charger allowed b) [0..<charger_count t] t"
    unfolding stage_1_def using bs by (simp add: Let_def allowed_def t_def)
  ultimately show ?thesis using t by auto
qed

definition stopped :: "'f ChargerState \<Rightarrow> bool" where
  "stopped c \<longleftrightarrow> off c \<or> \<not> willing c"

lemma rotate_off:
  "stopped (charger_states sc ! i) \<Longrightarrow> i < length (phase_allocation sc) \<Longrightarrow>
    phase_allocation (rotate_charger allowed b i sc) ! i = 0"
  by (auto simp: rotate_charger_def Let_def alloc_phases_def set_zero_decision_def update_decision_def stopped_def
      willing_def is_active_def)

text \<open>All chargers up to \<open>n\<close> were visited: those that are off or whose vehicle does not want to charge have no phases.\<close>

lemma plan_rotate_all:
  assumes "\<forall>i<N. current_allocation t ! i = 0" "chargers_ok {..<N} t" "length (phase_allocation t) = N" "n \<le> N"
  shows "plan_steps 0 {..<N} t (fold (rotate_charger allowed b) [0..<n] t)
    \<and> (\<forall>i<n. stopped (charger_states t ! i) \<longrightarrow> phase_allocation (fold (rotate_charger allowed b) [0..<n] t) ! i = 0)"
  using assms(4)
proof (induction n)
  case (Suc n)
  let ?s = "fold (rotate_charger allowed b) [0..<n] t"
  have IH: "plan_steps 0 {..<N} t ?s" "\<forall>i<n. stopped (charger_states t ! i) \<longrightarrow> phase_allocation ?s ! i = 0"
    using Suc by simp_all
  note fr = plan_steps_frame[OF IH(1), unfolded framed_def same_frame_def]
  have "plan_steps 0 {n} ?s (rotate_charger allowed b n ?s)"
    by (rule plan_rotate) (use fr assms(1,2) Suc.prems in \<open>simp_all add: chargers_ok_def\<close>)
  note step = this plan_steps_frame[OF this, unfolded framed_def]
  have "plan_steps 0 {..<N} t (rotate_charger allowed b n ?s)"
    by (rule rtranclp_trans[OF IH(1) plan_steps_mono[OF step(1)]]) (use Suc.prems in simp_all)
  moreover have "stopped (charger_states ?s ! n) \<Longrightarrow> phase_allocation (rotate_charger allowed b n ?s) ! n = 0"
    using fr assms(3) Suc.prems by (intro rotate_off) simp_all
  moreover have "i < n \<Longrightarrow> phase_allocation (rotate_charger allowed b n ?s) ! i = phase_allocation ?s ! i" for i
    using step(2) by simp
  ultimately show ?case using IH(2) fr by (simp add: less_Suc_eq)
qed simp

lemma plan_stage_1:
  assumes "\<forall>i<N. current_allocation sc ! i = 0" "chargers_ok {..<N} sc" "length (phase_allocation sc) = N"
    "charger_count sc = N"
  shows "plan_steps 0 {..<N} sc (stage_1 clock sc)
    \<and> (\<forall>i<N. stopped (charger_states sc ! i) \<longrightarrow> phase_allocation (stage_1 clock sc) ! i = 0)"
proof -
  obtain t allowed b where t: "plan_steps 0 {} sc t"
    and st: "stage_1 clock sc = fold (rotate_charger allowed b) [0..<N] t"
    using stage_1_rotates assms(4) by metis
  note fr = plan_steps_frame[OF t, unfolded framed_def same_frame_def]
  have "plan_steps 0 {..<N} t (stage_1 clock sc)
    \<and> (\<forall>i<N. stopped (charger_states sc ! i) \<longrightarrow> phase_allocation (stage_1 clock sc) ! i = 0)"
    using plan_rotate_all[of N t N allowed b] fr assms(1-3) by (simp add: st chargers_ok_def)
  then show ?thesis using plan_steps_mono[OF t, of 0 "{..<N}"] by (auto intro: rtranclp_trans)
qed

subsection \<open>Stages 2 and 3\<close>

text \<open>All that follow: filter, sort, then a loop over what was found.\<close>

lemma plan_after_filter:
  assumes f: "filter_chargers_impl P sc None = (m, s)" and k: "charger_count sc \<le> length (idx_array sc)"
    and A: "set (take (charger_count sc) (idx_array sc)) \<subseteq> A"
    and rest: "\<And>t. t = sort_chargers_impl grp cmp s m \<Longrightarrow> framed (charger_count sc) A sc t
      \<Longrightarrow> current_allocation t = current_allocation sc \<Longrightarrow> m \<le> length (idx_array t)
      \<Longrightarrow> set (take m (idx_array t)) \<subseteq> {i \<in> A. P sc i} \<Longrightarrow> plan_steps 0 A t (F t)"
  shows "plan_steps (charger_count sc) A sc (F (sort_chargers_impl grp cmp s m))"
proof -
  let ?t = "sort_chargers_impl grp cmp s m"
  note p = plan_filter[OF f k]
  have m: "m \<le> length (idx_array s)" using p(3,4) k by simp
  note q = plan_sort[OF p(3) m]
  have t: "plan_steps (charger_count sc) A sc ?t" by (rule rtranclp_trans[OF p(1) q(1)])
  have "set (take m (idx_array s)) \<subseteq> {i \<in> set (take (charger_count sc) (idx_array sc)). P sc i}" by (subst p(2)) auto
  then have "plan_steps 0 A ?t (F ?t)"
    using plan_steps_frame[OF t] q(2,3) m A by (intro rest) auto
  then have "plan_steps (charger_count sc) A ?t (F ?t)" by (rule plan_steps_mono) simp_all
  then show ?thesis by (rule rtranclp_trans[OF t])
qed

lemma plan_stage_2:
  assumes "charger_count sc \<le> length (idx_array sc)" "set (take (charger_count sc) (idx_array sc)) \<subseteq> A"
    "\<forall>i \<in> A. current_allocation sc ! i = 0"
  shows "plan_steps (charger_count sc) A sc (stage_2 sc)"
proof -
  let ?B = "{i \<in> A. was_just_plugged_in (charger_states sc ! i)}"
  have body: "plan_steps 0 A s (welcome_charger i s)"
    if "i \<in> ?B" "current_allocation s ! i = 0" "charger_states s = charger_states sc" for i s
    unfolding welcome_charger_def Let_def using that
    by (intro plan_intros) (simp_all add: was_just_plugged_in_def willing_def)
  obtain m s where f: "filter_chargers_impl (\<lambda>sc i. was_just_plugged_in (charger_states sc ! i)) sc None = (m, s)"
    by fastforce
  have "plan_steps (charger_count sc) A sc (for_matched m welcome_charger (sort_chargers_impl (\<lambda>sc i. 0)
                (\<lambda>sc left right. just_plugged_in_timestamp (charger_states sc ! left)
                   < just_plugged_in_timestamp (charger_states sc ! right)) s m))"
    by (rule plan_after_filter[OF f assms(1,2)], rule plan_for_matched[where B = ?B])
      (use assms(3) in \<open>simp_all add: body framed_def same_frame_def\<close>)
  then show ?thesis unfolding stage_2_def f by simp
qed

lemma plan_phase_overload:
  assumes "\<forall>i \<in> set is. i \<in> A \<and> current_allocation sc ! i = 0" "plan_steps k A sc (snd ws)"
  shows "plan_steps k A sc (snd (phase_overload_loop p is ws))"
  using assms
proof (induction "is" arbitrary: ws)
  case (Cons i "is")
  obtain w s where ws: "ws = (w, s)" by (cases ws)
  have i: "i \<in> A" "current_allocation sc ! i = 0" and IH: "\<And>ws. plan_steps k A sc (snd ws) \<Longrightarrow>
      plan_steps k A sc (snd (phase_overload_loop p is ws))"
    using Cons by auto
  have s: "plan_steps k A sc s" using Cons.prems(2) ws by simp
  then show ?case unfolding ws phase_overload_loop.simps Let_def using i by (simp add: IH plan_intros)
qed simp

lemma plan_pv_overload:
  assumes "\<forall>i \<in> set is. i \<in> A \<and> current_allocation sc ! i = 0" "plan_steps k A sc (snd ws)"
  shows "plan_steps k A sc (snd (pv_overload_loop is ws))"
  using assms
proof (induction "is" arbitrary: ws)
  case (Cons i "is")
  obtain w s where ws: "ws = (w, s)" by (cases ws)
  have i: "i \<in> A" "current_allocation sc ! i = 0" and IH: "\<And>ws. plan_steps k A sc (snd ws) \<Longrightarrow>
      plan_steps k A sc (snd (pv_overload_loop is ws))"
    using Cons by auto
  have s: "plan_steps k A sc s" using Cons.prems(2) ws by simp
  then show ?case unfolding ws pv_overload_loop.simps Let_def using i by (simp add: IH plan_intros)
qed simp

lemma plan_stage_3:
  assumes "charger_count sc \<le> length (idx_array sc)" "set (take (charger_count sc) (idx_array sc)) \<subseteq> A"
    "\<forall>i \<in> A. current_allocation sc ! i = 0"
  shows "plan_steps (charger_count sc) A sc (stage_3 sc)"
proof -
  let ?sc = "calculate_window sc"
  let ?grp = "\<lambda>sc i. if was_just_plugged_in (charger_states sc ! i) then int (ChargeMode_max + 1)
                   else int (get_highest_charge_mode_bit (charger_states sc ! i))"
  let ?cmp = "\<lambda>sc left right. if was_just_plugged_in (charger_states sc ! left)
                   then just_plugged_in_timestamp (charger_states sc ! left)
                      < just_plugged_in_timestamp (charger_states sc ! right)
                   else last_switch_on (charger_states sc ! left) < last_switch_on (charger_states sc ! right)"
  have w: "plan_steps k A sc ?sc" for k by (intro plan_intros)
  have fr: "charger_count ?sc = charger_count sc" "idx_array ?sc = idx_array sc"
      "current_allocation ?sc = current_allocation sc"
    by (simp_all add: calculate_window_def Let_def split_def)
  obtain m s where f: "filter_chargers_impl (\<lambda>sc i. phase_allocation sc ! i > 0) ?sc None = (m, s)" by fastforce
  let ?w = "control_window_min (ca_state ?sc)"
  let ?F = "\<lambda>t. snd (pv_overload_loop (take m (idx_array t))
      (fold (\<lambda>p. phase_overload_loop p (take m (idx_array t))) [L1, L2, L3] (?w, t)))"
  have F: "plan_steps 0 A t (?F t)" if "set (take m (idx_array t)) \<subseteq> {i \<in> A. 0 < phase_allocation ?sc ! i}" "current_allocation t = current_allocation sc" for t
    using that assms(3) by (intro plan_pv_overload) (auto simp: plan_phase_overload subset_iff)
  have "plan_steps (charger_count ?sc) A ?sc (?F (sort_chargers_impl ?grp ?cmp s m))"
    by (rule plan_after_filter[OF f, where F = ?F], unfold fr, rule assms(1), rule assms(2), rule F)
  moreover have "stage_3 sc = ?F (sort_chargers_impl ?grp ?cmp s m)"
    unfolding stage_3_def Let_def f split_def fst_conv snd_conv prod.collapse by (rule refl)
  ultimately show ?thesis unfolding fr(1) by (metis rtranclp_trans w)
qed

subsection \<open>Stages 4 and 5\<close>

lemma plan_minimum_loop:
  "plan_steps k A sc s \<Longrightarrow> plan_steps k A sc (snd (minimum_loop fo i cp nc ne wm g is3 ps s))"
  by (induction ps) (auto simp: Let_def intro!: plan_intros)

lemma plan_improvement_check:
  "plan_steps k A sc s \<Longrightarrow> plan_steps k A sc (snd (improvement_check i cp nc wm u g is3 s))"
  by (simp add: improvement_check_def no_improvement_def Let_def plan_intros)

lemma plan_can_activate [plan_intros]:
  "plan_steps k A sc s \<Longrightarrow> plan_steps k A sc (snd (can_activate fo i cp nc ne wmi wma u g is3 s))"
  unfolding can_activate_def snd_cases
  by (intro plan_intros plan_minimum_loop plan_improvement_check)

lemma plan_try_activate [plan_intros]:
  "plan_steps k A sc s \<Longrightarrow> plan_steps k A sc (snd (try_activate fo i a3 act s))"
  unfolding try_activate_def Let_def split_def by (rule plan_can_activate)

lemma plan_activate:
  assumes "i \<in> A" "current_allocation sc ! i = 0" "willing (charger_states sc ! i)"
  shows "plan_steps 0 A sc (snd (activate_charger fo i (act, sc)))"
  unfolding activate_charger_def prod.case snd_cases
  by (intro plan_intros assms) (simp_all add: assms(3))

lemma plan_stage_4:
  assumes "charger_count sc \<le> length (idx_array sc)" "set (take (charger_count sc) (idx_array sc)) \<subseteq> A"
    "\<forall>i \<in> A. current_allocation sc ! i = 0"
  shows "plan_steps (charger_count sc) A sc (stage_4 fo sc)"
proof -
  let ?sc = "calculate_window sc"
  let ?P = "\<lambda>sc i. phase_allocation sc ! i = 0
            \<and> (wants_to_charge (charger_states sc ! i) \<or> is_charging (charger_states sc ! i))"
  have w: "plan_steps k A sc ?sc" for k by (intro plan_intros)
  have fr: "charger_count ?sc = charger_count sc" "idx_array ?sc = idx_array sc"
      "current_allocation ?sc = current_allocation sc"
    by (simp_all add: calculate_window_def Let_def split_def)
  obtain m s where f: "filter_chargers_impl ?P ?sc None = (m, s)" by fastforce
  let ?g = "\<lambda>i hs. activate_charger fo (idx_array (snd hs) ! i) hs"
  let ?F = "\<lambda>t. snd (fold ?g [0..<m] (\<exists>i \<in> set [0..<unfiltered_charger_count t]. phase_allocation t ! i > 0, t))"
  have F: "plan_steps 0 A t (?F t)"
    if t: "framed (charger_count sc) A ?sc t" "current_allocation t = current_allocation sc" "m \<le> length (idx_array t)"
      "set (take m (idx_array t)) \<subseteq> {i \<in> A. ?P ?sc i}" for t
  proof -
    have step: "plan_steps 0 A (snd hs) (snd (?g j hs))"
      if "j < m" "framed 0 A t (snd hs)" "current_allocation (snd hs) = current_allocation t" for j hs
    proof -
      have "idx_array t ! j \<in> {i \<in> A. ?P ?sc i}" using that(1) t(3,4) by (meson nth_in_take subsetD)
      moreover have "charger_states t = charger_states ?sc" using t(1) by (simp add: framed_def same_frame_def)
      ultimately show ?thesis using plan_activate[of "idx_array t ! j" A "snd hs" fo "fst hs"] that t(2) assms(3)
        by (auto simp: framed_zero willing_def)
    qed
    show ?thesis
      using plan_fold[where pi = snd and k = 0 and A = A and xs = "[0..<m]" and g = ?g
          and ?s0.0 = "(\<exists>i \<in> set [0..<unfiltered_charger_count t]. phase_allocation t ! i > 0, t)"] step by simp
  qed
  have "plan_steps (charger_count ?sc) A ?sc (?F (sort_by_average_power fo s m))"
    unfolding sort_by_average_power_def
    by (rule plan_after_filter[OF f, where F = ?F], unfold fr, rule assms(1), rule assms(2), rule F)
  moreover have "stage_4 fo sc = ?F (sort_by_average_power fo s m)"
    unfolding stage_4_def Let_def f split_def fst_conv snd_conv prod.collapse by (rule refl)
  ultimately show ?thesis unfolding fr(1) by (metis rtranclp_trans w)
qed

lemma plan_switch:
  assumes "i \<in> A" "current_allocation sc ! i = 0" "willing (charger_states sc ! i)"
  shows "plan_steps 0 A sc (switch_to_3p fo c i sc)"
  unfolding switch_to_3p_def
  by (simp add: Let_def split_def plan_intros assms)

lemma plan_stage_5:
  assumes "charger_count sc \<le> length (idx_array sc)" "set (take (charger_count sc) (idx_array sc)) \<subseteq> A"
    "\<forall>i \<in> A. current_allocation sc ! i = 0" "A \<subseteq> {..<N}" "idle_rest N sc"
  shows "plan_steps (charger_count sc) A sc (stage_5 fo sc)"
proof -
  let ?B = "{i \<in> A. phase_allocation sc ! i = 1 \<and> phase_switch_supported (charger_states sc ! i)}"
  define c where "c = (if length (filter (\<lambda>i. phase_allocation sc ! i \<noteq> 0) [0..<unfiltered_charger_count sc]) < 2
    then CHECK_MIN_WINDOW_MIN else CHECK_MIN_WINDOW_ENABLE)"
  obtain m s where f: "filter_chargers_impl (\<lambda>sc i. phase_allocation sc ! i = 1
            \<and> phase_switch_supported (charger_states sc ! i)) sc None = (m, s)" by fastforce
  have "plan_steps (charger_count sc) A sc (for_matched m (switch_to_3p fo c) (sort_by_average_power fo s m))"
    unfolding sort_by_average_power_def
  proof (rule plan_after_filter[OF f assms(1,2)], rule plan_for_matched[where B = ?B])
    fix t s :: "'a StageContext" and i
    assume t: "framed (charger_count sc) A sc t" "i \<in> ?B" "current_allocation s ! i = 0" "charger_states s = charger_states t"
    then have "willing (charger_states s ! i)"
      using assms(4,5) by (auto simp: framed_def same_frame_def idle_rest_def)
    then show "plan_steps 0 A s (switch_to_3p fo c i s)" using t by (intro plan_switch) auto
  qed (use assms(3) in auto)
  moreover have "stage_5 fo sc = for_matched m (switch_to_3p fo c) (sort_by_average_power fo s m)"
    unfolding stage_5_def Let_def f split_def fst_conv snd_conv prod.collapse c_def by (rule refl)
  ultimately show ?thesis by simp
qed

lemma plan_decision_all: "plan_steps k A sc (clear_zero_decision_all tag sc)"
proof -
  have "plan_steps k A s (clear_zero_decision i tag s)" for i and s :: "'f StageContext"
    unfolding clear_zero_decision_def by (intro plan_intros)
  then show ?thesis unfolding clear_zero_decision_all_def by (rule plan_fold[where pi = "\<lambda>s. s"])
qed

lemma plan_preprocess: "plan_steps k A sc (decision_preprocess sc)"
proof -
  have clear: "plan_steps k A sc s \<Longrightarrow> plan_steps k A sc (clear_zero_decision i tag s)" for i tag and s sc :: "'f StageContext"
    unfolding clear_zero_decision_def by (intro plan_intros)
  have "plan_steps k A s (preprocess_charger i s)" for i and s :: "'f StageContext"
    unfolding preprocess_charger_def by (intro plan_intros clear)
  then have "plan_steps k A sc (fold preprocess_charger [0..<charger_count sc] sc)"
    by (rule plan_fold[where pi = "\<lambda>s. s"])
  then show ?thesis unfolding decision_preprocess_def by (rule rtranclp_trans[OF _ plan_decision_all])
qed

lemma plan_postprocess: "plan_steps k A sc (decision_postprocess sc)"
proof -
  have "plan_steps k A s (postprocess_charger i s)" for i and s :: "'f StageContext"
    unfolding postprocess_charger_def Let_def[of "charger_decisions s ! i"] by (intro plan_intros)
  then show ?thesis unfolding decision_postprocess_def by (rule plan_fold[where pi = "\<lambda>s. s"])
qed

end
