(* ===== verification/Charge_Safety.thy ===== *)
theory Charge_Safety
  imports Charge_Planning
begin

section \<open>Charge manager: the distribution respects the limits\<close>

text \<open>
  Stages 6 to 9 are sequences of distribution steps, and so is a whole run of the stages. What the
  chargers get on a grid phase is therefore never more than the limit of this phase.
\<close>

subsection \<open>Loops over chargers\<close>

lemma alloc_inv_idx:
  assumes "alloc_inv N raw0 sc"
  shows "set (idx_array sc) = {..<N}" "distinct (idx_array sc)" "length (idx_array sc) = N"
proof -
  have "mset (idx_array sc) = mset [0..<N]" using assms by (simp add: alloc_inv_def)
  then show "set (idx_array sc) = {..<N}" "distinct (idx_array sc)" "length (idx_array sc) = N"
    by (metis atLeast_upt set_mset_mset lessThan_atLeast0, metis distinct_upt mset_eq_imp_distinct_iff,
        metis diff_zero length_upt size_mset)
qed

text \<open>The body is run once for each charger, for which \<open>Q\<close> still holds then and \<open>R\<close> afterwards.\<close>

lemma dist_fold:
  assumes inv: "alloc_inv N raw0 sc" and m: "m \<le> length (idx_array sc)"
    and Q: "\<And>j. j < m \<Longrightarrow> Q (idx_array sc ! j) (current_allocation sc ! (idx_array sc ! j))
      (phase_allocation sc ! (idx_array sc ! j))"
    and body: "\<And>j s. j < m \<Longrightarrow> same_frame sc s \<Longrightarrow> idx_array s = idx_array sc \<Longrightarrow> alloc_inv N raw0 s
      \<Longrightarrow> Q (idx_array sc ! j) (current_allocation s ! (idx_array sc ! j)) (phase_allocation s ! (idx_array sc ! j))
      \<Longrightarrow> dist_steps 0 {idx_array sc ! j} s (g j s)
        \<and> R (idx_array sc ! j) (current_allocation (g j s) ! (idx_array sc ! j))
            (phase_allocation (g j s) ! (idx_array sc ! j))"
  shows "dist_steps 0 (set (take m (idx_array sc))) sc (fold g [0..<m] sc)
    \<and> (\<forall>i \<in> set (take m (idx_array sc)). R i (current_allocation (fold g [0..<m] sc) ! i)
          (phase_allocation (fold g [0..<m] sc) ! i))"
proof -
  let ?idx = "idx_array sc"
  have "dist_steps 0 (set (take n ?idx)) sc (fold g [0..<n] sc)
    \<and> (\<forall>i \<in> set (take n ?idx). R i (current_allocation (fold g [0..<n] sc) ! i)
          (phase_allocation (fold g [0..<n] sc) ! i))" if "n \<le> m" for n
    using that
  proof (induction n)
    case (Suc n)
    let ?s = "fold g [0..<n] sc" and ?i = "?idx ! n" and ?A = "set (take n ?idx)"
    have IH: "dist_steps 0 ?A sc ?s"
        "\<forall>i \<in> ?A. R i (current_allocation ?s ! i) (phase_allocation ?s ! i)"
      using Suc by simp_all
    have split: "take (Suc n) ?idx = take n ?idx @ [?i]" using Suc.prems m by (simp add: take_Suc_conv_app_nth)
    then have new: "?i \<notin> ?A" using alloc_inv_idx(2)[OF inv] by (metis distinct_take distinct_append
        disjoint_iff list.set_intros(1))
    note fr = dist_steps_frame[OF IH(1), unfolded framed_def]
    have "?A \<subseteq> {..<N}" using alloc_inv_idx(1)[OF inv] set_take_subset by metis
    then have "alloc_inv N raw0 ?s" by (rule dist_steps_inv[OF IH(1) _ inv])
    then have step: "dist_steps 0 {?i} ?s (g n ?s)"
        "R ?i (current_allocation (g n ?s) ! ?i) (phase_allocation (g n ?s) ! ?i)"
      using body[of n ?s] Q[of n] Suc.prems fr new by (simp_all add: reordered_def)
    have "dist_steps 0 (set (take (Suc n) ?idx)) sc (g n ?s)"
      by (rule rtranclp_trans[OF dist_steps_mono[OF IH(1)] dist_steps_mono[OF step(1)]]) (auto simp: split)
    moreover have "R i (current_allocation (g n ?s) ! i) (phase_allocation (g n ?s) ! i)"
      if "i \<in> set (take (Suc n) ?idx)" for i
    proof (cases "i = ?i")
      case False
      then show ?thesis using that IH(2) split dist_steps_frame[OF step(1)] by (auto simp: framed_def)
    qed (simp add: step(2))
    ultimately show ?case by simp
  qed simp
  then show ?thesis by simp
qed

text \<open>A stage filters its chargers, perhaps sorts them, and then runs its loop.\<close>

lemma dist_matched:
  assumes f: "filter_chargers_impl P sc None = (m, s)"
    and t: "t = s \<or> (\<exists>grp cmp. t = sort_chargers_impl grp cmp s m)"
    and inv: "alloc_inv N raw0 sc" and k: "charger_count sc = k" "k \<le> N"
    and Q: "\<And>i. i \<in> set (take k (idx_array sc)) \<Longrightarrow> P sc i \<Longrightarrow> Q i (current_allocation sc ! i) (phase_allocation sc ! i)"
    and body: "\<And>j u. j < m \<Longrightarrow> same_frame sc u \<Longrightarrow> idx_array u = idx_array t \<Longrightarrow> alloc_inv N raw0 u
      \<Longrightarrow> idx_array t ! j < N
      \<Longrightarrow> Q (idx_array t ! j) (current_allocation u ! (idx_array t ! j)) (phase_allocation u ! (idx_array t ! j))
      \<Longrightarrow> dist_steps 0 {idx_array t ! j} u (g j u)
        \<and> R (idx_array t ! j) (current_allocation (g j u) ! (idx_array t ! j))
            (phase_allocation (g j u) ! (idx_array t ! j))"
  shows "dist_steps k (set (take k (idx_array sc))) sc (fold g [0..<m] t)
    \<and> (\<forall>i \<in> set (take k (idx_array sc)). P sc i \<longrightarrow> R i (current_allocation (fold g [0..<m] t) ! i)
          (phase_allocation (fold g [0..<m] t) ! i))
    \<and> (\<forall>i. \<not> (i \<in> set (take k (idx_array sc)) \<and> P sc i) \<longrightarrow>
          current_allocation (fold g [0..<m] t) ! i = current_allocation sc ! i
          \<and> phase_allocation (fold g [0..<m] t) ! i = phase_allocation sc ! i)"
proof -
  let ?A = "set (take k (idx_array sc))" and ?M = "{i \<in> set (take k (idx_array sc)). P sc i}"
  have "charger_count sc \<le> length (idx_array sc)" using k alloc_inv_idx(3)[OF inv] by simp
  note p = plan_filter[OF f this, unfolded k(1)]
  have m: "m \<le> length (idx_array s)" using p(3,4) alloc_inv_idx(3)[OF inv] k by simp
  have st: "plan_steps k {} s t \<and> set (take m (idx_array t)) = set (take m (idx_array s))
      \<and> length (idx_array t) = length (idx_array s)"
    using t plan_sort[OF p(3) m] by auto
  then have t1: "plan_steps k {} sc t" using p(1) by (meson rtranclp_trans)
  have M: "set (take m (idx_array t)) = ?M" using st p(2) by simp
  note fr = plan_steps_frame[OF t1, unfolded framed_def]
  have inv_t: "alloc_inv N raw0 t" by (rule dist_steps_inv[OF plan_dist_steps[OF t1] _ inv]) simp
  have in_M: "idx_array t ! j \<in> ?M" if "j < m" for j
    using nth_in_take[OF that, of "idx_array t"] st m M by simp
  have "dist_steps 0 (set (take m (idx_array t))) t (fold g [0..<m] t)
    \<and> (\<forall>i \<in> set (take m (idx_array t)). R i (current_allocation (fold g [0..<m] t) ! i)
          (phase_allocation (fold g [0..<m] t) ! i))"
  proof (rule dist_fold[OF inv_t, where Q = Q])
    show "m \<le> length (idx_array t)" using st m by simp
    show "Q (idx_array t ! j) (current_allocation t ! (idx_array t ! j)) (phase_allocation t ! (idx_array t ! j))"
      if "j < m" for j using in_M[OF that] Q fr by simp
    show "dist_steps 0 {idx_array t ! j} u (g j u)
        \<and> R (idx_array t ! j) (current_allocation (g j u) ! (idx_array t ! j))
            (phase_allocation (g j u) ! (idx_array t ! j))"
      if "j < m" "same_frame t u" "idx_array u = idx_array t" "alloc_inv N raw0 u"
        "Q (idx_array t ! j) (current_allocation u ! (idx_array t ! j)) (phase_allocation u ! (idx_array t ! j))" for j u
    proof (rule body)
      show "same_frame sc u" using that(2) fr by (simp add: same_frame_def)
      show "idx_array t ! j < N" using in_M[OF that(1)] alloc_inv_idx(1)[OF inv] by (auto dest: in_set_takeD)
    qed (use that in simp_all)
  qed
  then have loop: "dist_steps 0 ?M t (fold g [0..<m] t)"
    "\<forall>i \<in> ?M. R i (current_allocation (fold g [0..<m] t) ! i) (phase_allocation (fold g [0..<m] t) ! i)"
    unfolding M by simp_all
  have "dist_steps k ?A sc (fold g [0..<m] t)"
    by (rule rtranclp_trans[OF plan_dist_steps[OF plan_steps_mono[OF t1]] dist_steps_mono[OF loop(1)]]) auto
  moreover have "current_allocation (fold g [0..<m] t) ! i = current_allocation sc ! i
          \<and> phase_allocation (fold g [0..<m] t) ! i = phase_allocation sc ! i" if "i \<notin> ?M" for i
    using dist_steps_frame[OF loop(1)] fr that by (simp add: framed_def)
  ultimately show ?thesis using loop(2) by simp
qed

subsection \<open>Phases of a charger\<close>

lemma get_phase_known:
  "rot \<noteq> RotNotApplicable \<Longrightarrow> p \<in> {1, 2, 3} \<Longrightarrow> get_phase rot p \<in> {L1, L2, L3}"
  by (cases rot) (auto simp: get_phase_def grid_phase_of_def PHASE_ROTATION_def)

lemma factors_01:
  assumes "n \<in> {0, 1, 3}" "p \<in> {L1, L2, L3}"
  shows "at_phase (get_phase_factors n rot) p = 0 \<or> at_phase (get_phase_factors n rot) p = 1"
proof -
  have "at_phase (set_phase g 1 (Cost 1 0 0 0)) p \<in> {0, 1}" for g using assms(2) by (cases g) auto
  then show ?thesis using assms by (auto simp: get_phase_factors_def)
qed

lemma at_set_phase [simp]: "at_phase (set_phase g n c) p = (if p = g then n else at_phase c p)"
  by (cases g; cases p) simp_all

lemma factors_used:
  assumes "n \<in> {1, 3}" "rot \<noteq> RotNotApplicable" "p \<in> {1..n}"
  shows "at_phase (get_phase_factors n rot) (get_phase rot p) = 1"
proof -
  have g: "get_phase rot p \<in> {L1, L2, L3}" using assms by (intro get_phase_known) auto
  show ?thesis
  proof (cases "n = 3 \<or> rot = RotUnknown")
    case True
    then show ?thesis using g assms(1) by (auto simp: get_phase_factors_def)
  next
    case False
    then show ?thesis using assms(1,3) by (simp add: get_phase_factors_def)
  qed
qed

lemma factors_all:
  "n \<in> {1, 3} \<Longrightarrow> n = 3 \<or> rot = RotUnknown \<Longrightarrow> p \<in> {L1, L2, L3} \<Longrightarrow> at_phase (get_phase_factors n rot) p = 1"
  by (auto simp: get_phase_factors_def)

text \<open>What is left on the phases of a charger with current.\<close>

lemma raw_used_nonneg:
  assumes inv: "alloc_inv N raw0 sc" and i: "i < N" "0 < current_allocation sc ! i"
    and ok: "charger_ok (charger_states sc ! i)"
  shows "phase_allocation sc ! i = 3 \<or> phase_rotation (charger_states sc ! i) = RotUnknown
      \<Longrightarrow> 0 \<le> min_phase (lim_raw (sc_limits sc))"
    and "p \<in> {1..phase_allocation sc ! i}
      \<Longrightarrow> 0 \<le> at_phase (lim_raw (sc_limits sc)) (get_phase (phase_rotation (charger_states sc ! i)) p)"
proof -
  let ?n = "phase_allocation sc ! i" and ?rot = "phase_rotation (charger_states sc ! i)"
  have n: "?n \<in> {1, 3}" using inv i unfolding alloc_inv_def by fastforce
  have rot: "?rot \<noteq> RotNotApplicable" using ok by (simp add: charger_ok_def)
  note raw = alloc_inv_raw_nonneg[OF inv i, unfolded factors_of_def]
  show "0 \<le> min_phase (lim_raw (sc_limits sc))" if "?n = 3 \<or> ?rot = RotUnknown"
    using raw[of L1] raw[of L2] raw[of L3] factors_all[OF n that, of L1] factors_all[OF n that, of L2]
      factors_all[OF n that, of L3] by (simp add: min_phase_def)
  show "0 \<le> at_phase (lim_raw (sc_limits sc)) (get_phase ?rot p)" if p: "p \<in> {1..?n}"
  proof (rule raw)
    show "get_phase ?rot p \<in> {L1, L2, L3}" using p n by (intro get_phase_known rot) auto
    show "0 < at_phase (get_phase_factors ?n ?rot) (get_phase ?rot p)" by (simp add: factors_used[OF n rot p])
  qed
qed

lemma min_used_phase_alt: "min_used_phase c rot n m = Min (insert m ((\<lambda>p. at_phase c (get_phase rot p)) ` {1..n}))"
proof (induction n)
  case 0
  show ?case by (simp add: min_used_phase_def)
next
  case (Suc n)
  have "min_used_phase c rot (Suc n) m = min (min_used_phase c rot n m) (at_phase c (get_phase rot (Suc n)))"
    by (simp add: min_used_phase_def)
  also have "\<dots> = Min (insert (at_phase c (get_phase rot (Suc n))) (insert m ((\<lambda>p. at_phase c (get_phase rot p)) ` {1..n})))"
    unfolding Suc by (subst (2) Min_insert) (simp_all add: min.commute)
  finally show ?case by (simp add: atLeastAtMostSuc_conv insert_commute)
qed

lemma min_used_phase_bounds:
  assumes "\<And>p. p \<in> {1..n} \<Longrightarrow> 0 \<le> at_phase c (get_phase rot p)" "0 \<le> m"
  shows "0 \<le> min_used_phase c rot n m" "min_used_phase c rot n m \<le> m"
  using assms by (simp_all add: min_used_phase_alt)

subsection \<open>Stage 6 and its undoing\<close>

definition minimum_of :: "'f CurrentAllocatorConfig \<Rightarrow> nat \<Rightarrow> int" where
  "minimum_of cfg n = (if n = 3 then minimum_current_3p cfg else minimum_current_1p cfg)"

lemma minimum_cost_eq: "get_minimum_cost n rot cfg = scale (minimum_of cfg n) (get_phase_factors n rot)"
  by (simp add: get_minimum_cost_def minimum_of_def)

lemma minimum_of_bounds: "config_ok fo cfg \<Longrightarrow> 0 \<le> minimum_of cfg n \<and> minimum_of cfg n \<le> 32000"
  by (simp add: config_ok_def minimum_of_def)

lemma max_phase_minimum:
  assumes "n \<in> {1, 3}" "rot \<noteq> RotNotApplicable" "0 \<le> minimum_of cfg n"
  shows "max_phase (get_minimum_cost n rot cfg) = minimum_of cfg n"
proof -
  let ?F = "get_phase_factors n rot"
  have "at_phase ?F L1 \<in> {0, 1}" "at_phase ?F L2 \<in> {0, 1}" "at_phase ?F L3 \<in> {0, 1}"
    using factors_01[of n _ rot] assms(1) by (simp_all del: at_phase.simps)
  moreover have "at_phase ?F (get_phase rot 1) = 1" using factors_used[OF assms(1,2), of 1] assms(1) by auto
  moreover have "get_phase rot 1 \<in> {L1, L2, L3}" by (rule get_phase_known[OF assms(2)]) simp
  ultimately show ?thesis using assms(3) by (auto simp: minimum_cost_eq max_phase_def scale_def)
qed

lemma dist_current:
  assumes "dist_steps 0 {i} s t" "phase_allocation t ! i \<noteq> 0" "0 \<le> c" "c < 2 ^ 16" "cost_fits cost (sc_limits t)"
    "\<And>p. p \<in> {L1, L2, L3} \<Longrightarrow> at_phase cost p = (c - current_allocation t ! i) * at_phase (factors_of t i) p"
  shows "dist_steps 0 {i} s (spend cost (alloc_current i c t))"
  by (rule rtranclp.rtrancl_into_rtrancl[OF assms(1)], rule dist_step.current) (use assms(2-) in simp_all)

lemma decision_frame [simp]:
  "current_allocation (set_current_decision i d s) = current_allocation s"
  "phase_allocation (set_current_decision i d s) = phase_allocation s"
  "sc_limits (set_current_decision i d s) = sc_limits s"
  "charger_states (set_current_decision i d s) = charger_states s"
  "factors_of (set_current_decision i d s) j = factors_of s j"
  by (simp_all add: set_current_decision_def update_decision_def factors_of_def)

lemma dist_decision [simp]: "dist_steps 0 A s (set_current_decision i d s)"
  by (intro plan_dist_steps plan_intros)

lemma alloc_frame [simp]:
  "current_allocation (spend cost s) = current_allocation s"
  "phase_allocation (spend cost s) = phase_allocation s"
  "current_allocation (alloc_current i c s) = (current_allocation s)[i := c]"
  "phase_allocation (alloc_current i c s) = phase_allocation s"
  by (simp_all add: spend_def alloc_current_def)

lemma dist_give_minimum:
  assumes inv: "alloc_inv N raw0 s" and i: "i < N" "current_allocation s ! i = 0" "phase_allocation s ! i > 0"
    and ok: "charger_ok (charger_states s ! i)" "config_ok fo (sc_cfg s)"
  shows "dist_steps 0 {i} s (give_minimum i s)
    \<and> current_allocation (give_minimum i s) ! i \<in> {0, minimum_of (sc_cfg s) (phase_allocation (give_minimum i s) ! i)}"
proof -
  let ?n = "phase_allocation s ! i" and ?rot = "phase_rotation (charger_states s ! i)"
  let ?cost = "get_minimum_cost ?n ?rot (sc_cfg s)"
  have n: "?n \<in> {1, 3}" using inv i unfolding alloc_inv_def by fastforce
  have rot: "?rot \<noteq> RotNotApplicable" using ok by (simp add: charger_ok_def)
  note b = minimum_of_bounds[OF ok(2), of ?n]
  have max: "max_phase ?cost = minimum_of (sc_cfg s) ?n" by (rule max_phase_minimum[OF n rot conjunct1[OF b]])
  have len: "i < length (current_allocation s)" using inv i by (simp add: alloc_inv_def)
  have "dist_steps 0 {i} s (spend ?cost (alloc_current i (minimum_of (sc_cfg s) ?n) (set_current_decision i CurMinimum s)))"
    if "cost_fits ?cost (sc_limits s)"
    by (rule dist_current[OF dist_decision])
      (use that i b in \<open>simp_all add: minimum_cost_eq factors_of_def\<close>)
  then show ?thesis
    using not_exceeds_fits[of ?cost "sc_limits s"] i max len by (simp add: give_minimum_def Let_def)
qed

lemma dist_take_minimum:
  assumes inv: "alloc_inv N raw0 s" and i: "i < N" "0 < current_allocation s ! i"
      "current_allocation s ! i = minimum_of (sc_cfg s) (phase_allocation s ! i)"
  shows "dist_steps 0 {i} s (take_minimum i s) \<and> current_allocation (take_minimum i s) ! i = 0"
proof -
  let ?n = "phase_allocation s ! i" and ?rot = "phase_rotation (charger_states s ! i)"
  let ?cost = "- get_minimum_cost ?n ?rot (sc_cfg s)"
  have "phase_allocation s ! i \<noteq> 0" using inv i unfolding alloc_inv_def by fastforce
  moreover have eq: "at_phase ?cost p = (0 - current_allocation s ! i) * at_phase (factors_of s i) p" for p
    using i(3) by (simp add: minimum_cost_eq factors_of_def)
  moreover have "cost_fits ?cost (sc_limits s)"
    unfolding cost_fits_def eq using i(2) factors_of_nonneg by (metis diff_0 mult_minus_left
        neg_le_0_iff_le mult_nonneg_nonneg not_less order_less_imp_le)
  ultimately have "dist_steps 0 {i} s (spend ?cost (alloc_current i 0 s))"
    by (intro dist_current rtranclp.rtrancl_refl) simp_all
  then show ?thesis using inv i by (simp add: take_minimum_def alloc_inv_def)
qed

definition ready :: "'f float_ops \<Rightarrow> nat \<Rightarrow> Cost \<Rightarrow> nat \<Rightarrow> 'f StageContext \<Rightarrow> bool" where
  "ready fo N raw0 k sc \<longleftrightarrow> alloc_inv N raw0 sc \<and> charger_count sc = k \<and> k \<le> N
    \<and> (\<forall>i<N. charger_ok (charger_states sc ! i)) \<and> config_ok fo (sc_cfg sc)"

lemma ready_frame:
  assumes "ready fo N raw0 k sc" "same_frame sc s"
  shows "i < N \<Longrightarrow> charger_ok (charger_states s ! i)" "config_ok fo (sc_cfg s)"
  using assms by (simp_all add: ready_def same_frame_def)

lemma ready_idx: "ready fo N raw0 k sc \<Longrightarrow> set (take m (idx_array sc)) \<subseteq> {..<N}"
  unfolding ready_def by (metis alloc_inv_idx(1) set_take_subset)

lemma ready_dist:
  assumes "dist_steps m A sc s" "A \<subseteq> {..<N}" "ready fo N raw0 k sc"
  shows "ready fo N raw0 k s"
  using dist_steps_frame[OF assms(1)] dist_steps_inv[OF assms(1,2)] assms(3)
  by (simp add: ready_def framed_def same_frame_def)

lemma dist_stage_6:
  assumes ready: "ready fo N raw0 k sc"
  shows "dist_steps k (set (take k (idx_array sc))) sc (stage_6 sc)
    \<and> (\<forall>i \<in> set (take k (idx_array sc)). current_allocation sc ! i = 0 \<longrightarrow>
         current_allocation (stage_6 sc) ! i \<in> {0, minimum_of (sc_cfg sc) (phase_allocation (stage_6 sc) ! i)})"
proof -
  let ?P = "\<lambda>sc i. phase_allocation sc ! i > 0 \<and> current_allocation sc ! i = 0"
  have k: "alloc_inv N raw0 sc" "charger_count sc = k" "k \<le> N" using ready by (simp_all add: ready_def)
  obtain m s where f: "filter_chargers_impl ?P sc None = (m, s)" by fastforce
  have st: "stage_6 sc = fold (\<lambda>j u. give_minimum (idx_array u ! j) u) [0..<m] s"
    by (simp add: stage_6_def f for_matched_def)
  note d = dist_matched[OF f _ k, where t = s and g = "\<lambda>j u. give_minimum (idx_array u ! j) u"
      and Q = "\<lambda>i c n. n > 0 \<and> c = 0" and R = "\<lambda>i c n. c \<in> {0, minimum_of (sc_cfg sc) n}", folded st]
  have body: "dist_steps 0 {i} u (give_minimum i u)
      \<and> current_allocation (give_minimum i u) ! i \<in> {0, minimum_of (sc_cfg sc) (phase_allocation (give_minimum i u) ! i)}"
    if "same_frame sc u" "alloc_inv N raw0 u" "i < N" "phase_allocation u ! i > 0 \<and> current_allocation u ! i = 0" for i u
    using dist_give_minimum[OF that(2,3) _ _ ready_frame(1)[OF ready that(1,3)] ready_frame(2)[OF ready that(1)]]
      that(1,4) by (simp add: same_frame_def)
  show ?thesis using d body by fastforce
qed

lemma dist_undo:
  assumes ready: "ready fo N raw0 k sc"
    and cur: "\<forall>i \<in> set (take k (idx_array sc)).
      current_allocation sc ! i \<in> {0, minimum_of (sc_cfg sc) (phase_allocation sc ! i)}"
  shows "dist_steps k (set (take k (idx_array sc))) sc (undo_stage_6 sc)
    \<and> (\<forall>i \<in> set (take k (idx_array sc)). current_allocation (undo_stage_6 sc) ! i = 0)"
proof -
  have k: "alloc_inv N raw0 sc" "charger_count sc = k" "k \<le> N" using ready by (simp_all add: ready_def)
  obtain m s where f: "filter_chargers_impl (\<lambda>sc i. current_allocation sc ! i > 0) sc None = (m, s)" by fastforce
  have st: "undo_stage_6 sc = fold (\<lambda>j u. take_minimum (idx_array u ! j) u) [0..<m] s"
    by (simp add: undo_stage_6_def f for_matched_def)
  note d = dist_matched[OF f _ k, where t = s and g = "\<lambda>j u. take_minimum (idx_array u ! j) u"
      and Q = "\<lambda>i c n. 0 < c \<and> c = minimum_of (sc_cfg sc) n" and R = "\<lambda>i c n. c = 0", folded st]
  have body: "dist_steps 0 {i} u (take_minimum i u) \<and> current_allocation (take_minimum i u) ! i = 0"
    if "same_frame sc u" "alloc_inv N raw0 u" "i < N"
      "0 < current_allocation u ! i \<and> current_allocation u ! i = minimum_of (sc_cfg sc) (phase_allocation u ! i)" for i u
    using dist_take_minimum[OF that(2,3)] that(1,4) by (simp add: same_frame_def)
  have "\<not> 0 < current_allocation sc ! i \<Longrightarrow> i \<in> set (take k (idx_array sc)) \<Longrightarrow> current_allocation sc ! i = 0" for i
    using k(1) ready_idx[OF ready, of k] unfolding alloc_inv_def by force
  then show ?thesis using d body cur by fastforce
qed

subsection \<open>Stage 7\<close>

lemma sdiv_nonneg: "0 \<le> (a :: int) \<Longrightarrow> 0 \<le> b \<Longrightarrow> 0 \<le> a sdiv b"
  by (simp add: signed_divide_int_def sgn_if pos_imp_zdiv_nonneg_iff)

lemma sdiv_mult: "0 < (n :: int) \<Longrightarrow> 0 \<le> c \<Longrightarrow> (n * c) sdiv n = c"
  by (simp add: signed_divide_int_def sgn_if abs_mult)

lemma fst_min_with [simp]: "fst (min_with n d m) = min (fst m) n"
  by (simp add: min_with_def)

lemma fair_current_nonneg: "0 \<le> at_phase (get_fair_current is sc) p"
  by (cases p) (simp_all add: get_fair_current_def Let_def)

lemma fst_min_with_fold:
  "(\<forall>p \<in> set ps. 0 \<le> f p) \<Longrightarrow> 0 \<le> fst m \<Longrightarrow>
    0 \<le> fst (fold (\<lambda>p. min_with (f p) d) ps m) \<and> fst (fold (\<lambda>p. min_with (f p) d) ps m) \<le> fst m"
proof (induction ps arbitrary: m)
  case (Cons p ps)
  then have "0 \<le> fst (fold (\<lambda>p. min_with (f p) d) ps (min_with (f p) d m))
      \<and> fst (fold (\<lambda>p. min_with (f p) d) ps (min_with (f p) d m)) \<le> fst (min_with (f p) d m)"
    by (intro Cons.IH) simp_all
  then show ?case by simp
qed simp

text \<open>What the charger could take in addition, per phase.\<close>

lemma capacity_bounds:
  assumes inv: "alloc_inv N raw0 s" "i < N" "0 < current_allocation s ! i" "charger_ok (charger_states s ! i)"
  shows "\<exists>cap lim. current_capacity s (charger_states s ! i) (current_allocation s ! i) (phase_allocation s ! i) ign
      = (int (phase_allocation s ! i) * cap, lim) \<and> 0 \<le> cap
      \<and> cap \<le> max 0 (int (user_current (charger_states s ! i)) - current_allocation s ! i)"
proof -
  let ?n = "phase_allocation s ! i" and ?st = "charger_states s ! i" and ?raw = "lim_raw (sc_limits s)"
  define smallest where "smallest = (if ?n = 3 \<or> phase_rotation ?st = RotUnknown then min_phase ?raw
                     else min_used_phase ?raw (phase_rotation ?st) ?n 32000)"
  note raw = raw_used_nonneg[OF assms]
  have "0 \<le> min_used_phase ?raw (phase_rotation ?st) ?n 32000" by (rule min_used_phase_bounds(1)[OF raw(2)]) simp_all
  then have "0 \<le> smallest" using raw(1) by (simp add: smallest_def)
  then show ?thesis unfolding current_capacity_def Let_def smallest_def[symmetric] by (auto split: prod.split)
qed

lemma fair_share_bounds:
  assumes inv: "alloc_inv N raw0 s" "i < N" "0 < current_allocation s ! i" "charger_ok (charger_states s ! i)"
    and cur: "current_allocation s ! i \<le> 32000" and fair: "\<And>p. 0 \<le> at_phase fair p"
  shows "0 \<le> fst (fair_share fo fair i s) \<and> fst (fair_share fo fair i s) \<le> 32000 - current_allocation s ! i"
proof -
  let ?st = "charger_states s ! i" and ?cur = "current_allocation s ! i" and ?n = "phase_allocation s ! i"
  let ?in = "\<lambda>m :: min_with_decision. 0 \<le> fst m \<and> fst m \<le> 32000 - ?cur"
  have n: "?n \<in> {1, 3}" using inv unfolding alloc_inv_def by fastforce
  define m0 where "m0 = (32000 - ?cur, CurSupportedByCharger)"
  define m1 where "m1 = (if observe_pv_limit ?st then
                let fair_pv = pv fair sdiv int ?n; guaranteed = guaranteed_pv_current ?st sdiv int ?n - ?cur
                in if guaranteed > fair_pv then min_with guaranteed CurGuaranteedPV m0
                   else min_with fair_pv (CurFair False) m0
              else m0)"
  define m2 where "m2 = (if phase_rotation ?st = RotUnknown then min_with (min_phase fair) (CurFair True) m1
              else fold (\<lambda>p. min_with (at_phase fair (get_phase (phase_rotation ?st) p)) (CurFair False)) [1..<1 + ?n] m1)"
  define m3 where "m3 = (if \<not> is_charging ?st then
                let (_, _, enable_current) = get_enable_cost fo ?st (?n = 3) True (sc_cfg s)
                in min_with (max 0 (enable_current - ?cur)) CurEnableNotCharging m2
              else m2)"
  obtain cap lim where cap: "current_capacity s ?st ?cur ?n False = (int ?n * cap, lim)" "0 \<le> cap"
    using capacity_bounds[OF inv, of False] by blast
  have div: "(int ?n * cap) sdiv int ?n = cap" using n cap(2) by (intro sdiv_mult) auto
  have "0 \<le> pv fair sdiv int ?n" using fair[of GridPV] by (intro sdiv_nonneg) simp_all
  then have "?in m1" using cur by (simp add: m1_def m0_def Let_def)
  moreover have "0 \<le> min_phase fair" using fair[of L1] fair[of L2] fair[of L3] by (simp add: min_phase_def)
  ultimately have "?in m2"
    using fst_min_with_fold[of "[1..<1 + ?n]" "\<lambda>p. at_phase fair (get_phase (phase_rotation ?st) p)" m1 "CurFair False"]
      fair by (auto simp: m2_def simp del: upt_Suc)
  then have "?in m3" by (auto simp: m3_def split: prod.split)
  then have "?in (min_with ((int ?n * cap) sdiv int ?n) CurRequested m3)"
    unfolding div using cap(2) by auto
  moreover have "fst (fair_share fo fair i s) = fst (min_with ((int ?n * cap) sdiv int ?n) CurRequested m3)"
    unfolding fair_share_def m3_def m2_def m1_def m0_def by (simp only: Let_def cap(1) prod.case fst_conv)
  ultimately show ?thesis by (simp only:)
qed

lemma dist_change_current:
  assumes "dist_steps 0 {i} s t" "phase_allocation t ! i \<noteq> 0" "0 \<le> c" "c < 2 ^ 16"
  shows "dist_steps 0 {i} s (change_current st i c t)"
proof -
  let ?n = "phase_allocation t ! i" and ?rot = "phase_rotation (charger_states t ! i)"
  let ?cost = "get_cost c ?n ?rot (current_allocation t ! i) ?n"
  have "dist_steps 0 {i} s (spend ?cost (alloc_current i c t))" if "cost_fits ?cost (sc_limits t)"
    by (rule dist_current[OF assms that]) (simp add: get_cost_def factors_of_def algebra_simps)
  then show ?thesis using assms(1) not_exceeds_fits[of ?cost "sc_limits t"]
    by (simp add: change_current_def Let_def)
qed

lemma dist_give_fair_share:
  assumes inv: "alloc_inv N raw0 s" and i: "idx_array s ! j = i" "i < N" "0 < current_allocation s ! i"
      "current_allocation s ! i \<le> 32000" and ok: "charger_ok (charger_states s ! i)"
  shows "dist_steps 0 {i} s (give_fair_share fo m j s)"
proof -
  let ?fair = "get_fair_current (drop j (take m (idx_array s))) s"
  have n: "phase_allocation s ! i \<noteq> 0" using inv i unfolding alloc_inv_def by fastforce
  note b = fair_share_bounds[OF inv i(2,3) ok i(4) fair_current_nonneg, of fo "drop j (take m (idx_array s))" s]
  show ?thesis
    unfolding give_fair_share_def i(1) Let_def split_def
    by (rule dist_change_current) (use b n i in simp_all)
qed

lemma dist_stage_7:
  assumes ready: "ready fo N raw0 k sc"
    and cur: "\<forall>i \<in> set (take k (idx_array sc)). current_allocation sc ! i \<le> 32000"
  shows "dist_steps k (set (take k (idx_array sc))) sc (stage_7 fo sc)"
proof -
  have k: "alloc_inv N raw0 sc" "charger_count sc = k" "k \<le> N" using ready by (simp_all add: ready_def)
  obtain m s where f: "filter_chargers_impl (\<lambda>sc i. current_allocation sc ! i > 0) sc None = (m, s)" by fastforce
  have t: "sort_by_capacity False s m = s \<or> (\<exists>grp cmp. sort_by_capacity False s m = sort_chargers_impl grp cmp s m)"
    unfolding sort_by_capacity_def by blast
  have "dist_steps k (set (take k (idx_array sc))) sc (fold (give_fair_share fo m) [0..<m] (sort_by_capacity False s m))"
    by (rule dist_matched[OF f t k, where Q = "\<lambda>i c n. 0 < c \<and> c \<le> 32000" and R = "\<lambda>_ _ _. True", THEN conjunct1])
      (use cur in \<open>auto intro!: dist_give_fair_share ready_frame(1)[OF ready]\<close>)
  moreover have "dist_steps k (set (take k (idx_array sc))) sc s"
    using plan_filter(1)[OF f] k alloc_inv_idx(3)[OF k(1)] by (simp add: plan_dist_steps)
  ultimately show ?thesis by (simp add: stage_7_def f)
qed

subsection \<open>Stage 8\<close>

lemma left_over_bounds:
  assumes inv: "alloc_inv N raw0 s" "i < N" "0 < current_allocation s ! i" "charger_ok (charger_states s ! i)"
  shows "0 \<le> left_over b i s
    \<and> left_over b i s \<le> max 0 (int (user_current (charger_states s ! i)) - current_allocation s ! i)"
proof -
  let ?st = "charger_states s ! i" and ?cur = "current_allocation s ! i" and ?n = "phase_allocation s ! i"
  let ?raw = "lim_raw (sc_limits s)"
  have n: "?n \<in> {1, 3}" using inv unfolding alloc_inv_def by fastforce
  obtain cap lim where cap: "current_capacity s ?st ?cur ?n b = (int ?n * cap, lim)" "0 \<le> cap"
      "cap \<le> max 0 (int (user_current ?st) - ?cur)"
    using capacity_bounds[OF inv, of b] by blast
  have div: "(int ?n * cap) sdiv int ?n = cap" using n cap(2) by (intro sdiv_mult) auto
  define c where "c = min (max 0 (if observe_pv_limit ?st
                                then max (guaranteed_pv_current ?st sdiv int ?n - ?cur) (pv ?raw sdiv int ?n)
                                else 32000)) cap"
  have c: "0 \<le> c" "c \<le> cap" using cap(2) by (simp_all add: c_def)
  note raw = raw_used_nonneg[OF inv]
  have bounds: "0 \<le> min_used_phase ?raw (phase_rotation ?st) ?n c" "min_used_phase ?raw (phase_rotation ?st) ?n c \<le> c"
    by (rule min_used_phase_bounds[OF raw(2) c(1)], assumption)+
  have "left_over b i s = (if phase_rotation ?st = RotUnknown then min c (min_phase ?raw)
      else min_used_phase ?raw (phase_rotation ?st) ?n c)"
    unfolding left_over_def Let_def cap(1) fst_conv div c_def by (rule refl)
  then have "0 \<le> left_over b i s \<and> left_over b i s \<le> c" using raw(1) c bounds by simp
  then show ?thesis using c(2) cap(3) by linarith
qed

lemma dist_give_left_over:
  assumes inv: "alloc_inv N raw0 s" and i: "i < N" "0 < current_allocation s ! i" and ok: "charger_ok (charger_states s ! i)"
  shows "dist_steps 0 {i} s (give_left_over b i s)"
proof -
  have n: "phase_allocation s ! i \<noteq> 0" and cur: "current_allocation s ! i < 2 ^ 16"
    using inv i unfolding alloc_inv_def by fastforce+
  note b = left_over_bounds[OF inv i ok, of b]
  have u: "int (user_current (charger_states s ! i)) < 2 ^ 16" using ok by (simp add: charger_ok_def)
  have "0 \<le> left_over b i s + current_allocation s ! i" "left_over b i s + current_allocation s ! i < 2 ^ 16"
    using b u cur i by linarith+
  then show ?thesis
    unfolding give_left_over_def Let_def
    by (intro dist_change_current) (use n in simp_all)
qed

lemma dist_stage_8:
  assumes ready: "ready fo N raw0 k sc"
  shows "dist_steps k (set (take k (idx_array sc))) sc (stage_8 b sc)"
proof -
  have k: "alloc_inv N raw0 sc" "charger_count sc = k" "k \<le> N" using ready by (simp_all add: ready_def)
  obtain m s where f: "filter_chargers_impl (\<lambda>sc i. current_allocation sc ! i > 0
           \<and> (b \<or> is_charging (charger_states sc ! i))) sc None = (m, s)" by fastforce
  have t: "sort_by_capacity b s m = s \<or> (\<exists>grp cmp. sort_by_capacity b s m = sort_chargers_impl grp cmp s m)"
    unfolding sort_by_capacity_def by blast
  have "dist_steps k (set (take k (idx_array sc))) sc
      (fold (\<lambda>j u. give_left_over b (idx_array u ! j) u) [0..<m] (sort_by_capacity b s m))"
    by (rule dist_matched[OF f t k, where Q = "\<lambda>i c n. 0 < c" and R = "\<lambda>_ _ _. True", THEN conjunct1])
      (auto intro!: dist_give_left_over ready_frame(1)[OF ready])
  then show ?thesis by (simp add: stage_8_def f for_matched_def)
qed

subsection \<open>Stage 9\<close>

lemma enable_cost:
  assumes ok: "charger_ok st" "config_ok fo cfg" and n: "n \<in> {1, 3}"
    and e: "get_enable_cost fo st (n = 3) act cfg = (mc, cost, cur)"
  shows "p \<in> {L1, L2, L3} \<Longrightarrow> at_phase cost p = cur * at_phase (get_phase_factors n (phase_rotation st)) p"
    and "0 \<le> cur" "cur < 2 ^ 16"
proof -
  let ?F = "get_phase_factors n (phase_rotation st)" and ?m = "minimum_of cfg n"
  define f where "f = (if act then enable_current_factor cfg else f_of_int fo 1)"
  have f: "scales_ok fo f cfg" using ok(2) by (simp add: f_def config_ok_def)
  define x where "x = f_scale_int fo f ?m"
  have x: "0 \<le> x" "x < 2 ^ 16" using f n by (auto simp: x_def scales_ok_def minimum_of_def)
  have nn: "(if n = 3 then 3 else 1) = n" using n by auto
  have cost: "cost = f_scale fo f (scale ?m ?F)"
    and cur: "cur = (if n = 3 \<or> phase_rotation st = RotUnknown then l1 cost
      else at_phase cost (get_phase (phase_rotation st) 1))"
    using e by (auto simp: get_enable_cost_def Let_def f_def minimum_cost_eq nn)
  have "at_phase (f_scale fo f c) p = f_scale_int fo f (at_phase c p)" for c p
    by (cases p) (simp_all add: f_scale_def)
  then have "at_phase cost p = f_scale_int fo f (?m * at_phase ?F p)" for p by (simp add: cost)
  then have at: "at_phase cost p = x * at_phase ?F p" if "p \<in> {L1, L2, L3}" for p
    using factors_01[OF _ that, of n "phase_rotation st"] n f by (auto simp: x_def scales_ok_def)
  have rot: "phase_rotation st \<noteq> RotNotApplicable" using ok by (simp add: charger_ok_def)
  have "get_phase (phase_rotation st) 1 \<in> {L1, L2, L3}" by (rule get_phase_known[OF rot]) simp
  then have "cur = x"
    using at[of L1] at[of "get_phase (phase_rotation st) 1"] factors_used[OF n rot, of 1]
      factors_all[OF n, of "phase_rotation st" L1] n cur by auto
  then show "p \<in> {L1, L2, L3} \<Longrightarrow> at_phase cost p = cur * at_phase ?F p" "0 \<le> cur" "cur < 2 ^ 16"
    using at x by simp_all
qed

lemma dist_wake:
  assumes inv: "alloc_inv N raw0 s" and i: "i < N" "current_allocation s ! i = 0" and n: "n \<in> {1, 3}"
    and ok: "charger_ok (charger_states s ! i)" "config_ok fo cfg" and wish: "willing (charger_states s ! i)"
    and e: "get_enable_cost fo (charger_states s ! i) (n = 3) act cfg = (mc, cost, cur)"
    and fits: "cost_fits cost (sc_limits s)"
    and d: "d = set_three_decision i ThreeYesWakingUp s \<or> d = set_one_decision i OneYesWakingUp s"
  shows "dist_steps 0 {i} s (calculate_window (alloc_current i cur (alloc_phases i n
                   (spend cost (set_current_decision i CurEnableNotCharging d)))))"
proof -
  let ?t = "alloc_phases i n (set_current_decision i CurEnableNotCharging d)"
  have d': "plan_steps 0 {i} s d" using d by (auto intro: plan_intros)
  have t: "dist_steps 0 {i} s ?t" by (intro plan_dist_steps plan_intros d') (use i n wish in auto)
  have eqs: "current_allocation ?t = current_allocation s" "phase_allocation ?t = (phase_allocation s)[i := n]"
      "sc_limits ?t = sc_limits s" "charger_states ?t = charger_states s"
    using d by (auto simp: alloc_phases_def set_current_decision_def set_three_decision_def set_one_decision_def
        update_decision_def)
  have len: "i < length (phase_allocation s)" using inv i by (simp add: alloc_inv_def)
  have "dist_steps 0 {i} s (spend cost (alloc_current i cur ?t))"
    by (rule dist_current[OF t])
      (use n i len fits enable_cost[OF ok n e] in \<open>auto simp: eqs factors_of_def\<close>)
  then have "dist_steps 0 {i} s (calculate_window (spend cost (alloc_current i cur ?t)))"
    by (rule rtranclp_trans[OF _ plan_dist_steps[OF plan_window[OF plan_refl]]])
  moreover have "alloc_current i cur (alloc_phases i n (spend cost (set_current_decision i CurEnableNotCharging d)))
      = spend cost (alloc_current i cur ?t)"
    by (simp add: alloc_current_def alloc_phases_def spend_def set_current_decision_def update_decision_def)
  ultimately show ?thesis by simp
qed

lemma dist_wake_up:
  assumes inv: "alloc_inv N raw0 s" and i: "i < N" "phase_allocation s ! i = 0"
    and ok: "charger_ok (charger_states s ! i)" "config_ok fo (sc_cfg s)" and wish: "willing (charger_states s ! i)"
  shows "dist_steps 0 {i} s (wake_up fo act i s)"
proof -
  have cur: "current_allocation s ! i = 0" using inv i unfolding alloc_inv_def by blast
  obtain m3 c3 a3 where e3: "get_enable_cost fo (charger_states s ! i) True act (sc_cfg s) = (m3, c3, a3)"
    by (metis prod_cases3)
  obtain m1 c1 a1 where e1: "get_enable_cost fo (charger_states s ! i) False act (sc_cfg s) = (m1, c1, a1)"
    by (metis prod_cases3)
  have w3: "cost_fits c3 (sc_limits s) \<Longrightarrow> dist_steps 0 {i} s (calculate_window (alloc_current i a3 (alloc_phases i 3
      (spend c3 (set_current_decision i CurEnableNotCharging (set_three_decision i ThreeYesWakingUp s))))))"
    by (rule dist_wake[OF inv i(1) cur _ ok wish, of 3 act m3]) (use e3 in simp_all)
  have w1: "cost_fits c1 (sc_limits s) \<Longrightarrow> dist_steps 0 {i} s (calculate_window (alloc_current i a1 (alloc_phases i 1
      (spend c1 (set_current_decision i CurEnableNotCharging (set_one_decision i OneYesWakingUp s))))))"
    by (rule dist_wake[OF inv i(1) cur _ ok wish, of 1 act m1]) (use e1 in simp_all)
  show ?thesis unfolding wake_up_def Let_def e1 e3 prod.case
    using w1[OF not_exceeds_fits] w3[OF not_exceeds_fits] by (simp only: split: if_split) blast
qed

lemma dist_stage_9:
  assumes ready: "ready fo N raw0 k sc"
  shows "dist_steps k (set (take k (idx_array sc))) sc (stage_9 fo sc)"
proof -
  let ?P = "\<lambda>sc i. let state = charger_states sc ! i in phase_allocation sc ! i = 0
            \<and> (wants_to_charge_low_priority state \<or> wants_to_charge state \<and> last_wakeup state \<noteq> 0)"
  let ?act = "pv (control_window_min (ca_state sc)) \<noteq> 0"
  have k: "alloc_inv N raw0 sc" "charger_count sc = k" "k \<le> N" using ready by (simp_all add: ready_def)
  obtain m s where f: "filter_chargers_impl ?P sc None = (m, s)" by fastforce
  let ?t = "sort_chargers_impl stage_9_group stage_9_sort s m"
  have t: "?t = s \<or> (\<exists>grp cmp. ?t = sort_chargers_impl grp cmp s m)" by blast
  have "dist_steps k (set (take k (idx_array sc))) sc (fold (\<lambda>j u. wake_up fo ?act (idx_array u ! j) u) [0..<m] ?t)"
    by (rule dist_matched[OF f t k, where Q = "\<lambda>i c n. n = 0 \<and> willing (charger_states sc ! i)" and R = "\<lambda>_ _ _. True", THEN conjunct1])
      (auto simp: Let_def willing_def same_frame_states[of sc] intro!: dist_wake_up ready_frame[OF ready])
  moreover have "dist_steps k (set (take k (idx_array sc))) sc s"
    using plan_filter(1)[OF f] k alloc_inv_idx(3)[OF k(1)] by (simp add: plan_dist_steps)
  ultimately show ?thesis by (simp add: stage_9_def f for_matched_def)
qed

subsection \<open>The contract of a stage that distributes\<close>

text \<open>A stage that only takes distribution steps on the chargers it is given keeps what the next one relies on.\<close>

locale limited_stage =
  fixes fo :: "'f float_ops" and stage :: "'f StageContext \<Rightarrow> 'f StageContext"
  assumes steps: "ready fo N raw0 k sc \<Longrightarrow> dist_steps k (set (take k (idx_array sc))) sc (stage sc)"
begin

lemma keeps_ready: "ready fo N raw0 k sc \<Longrightarrow> ready fo N raw0 k (stage sc)"
  by (rule ready_dist[OF steps ready_idx])

lemma keeps_selection:
  "ready fo N raw0 k sc \<Longrightarrow> set (take k (idx_array (stage sc))) = set (take k (idx_array sc))"
  using dist_steps_frame[OF steps] reordered_set unfolding framed_def by metis

lemma keeps_others:
  "ready fo N raw0 k sc \<Longrightarrow> i \<notin> set (take k (idx_array sc)) \<Longrightarrow>
    current_allocation (stage sc) ! i = current_allocation sc ! i
    \<and> phase_allocation (stage sc) ! i = phase_allocation sc ! i"
  using dist_steps_frame[OF steps] unfolding framed_def by metis

lemma keeps_limit:
  "ready fo N raw0 k sc \<Longrightarrow> p \<in> {L1, L2, L3} \<Longrightarrow> load N (stage sc) p \<le> max 0 (at_phase raw0 p)"
  using keeps_ready unfolding ready_def alloc_inv_def by blast

end

interpretation s6: limited_stage fo stage_6 for fo :: "'f float_ops"
  by unfold_locales (rule dist_stage_6[THEN conjunct1])

interpretation s8: limited_stage fo "stage_8 allocate_to_non_charging" for fo :: "'f float_ops" and allocate_to_non_charging
  by unfold_locales (rule dist_stage_8)

interpretation s9: limited_stage fo "stage_9 fo" for fo :: "'f float_ops"
  by unfold_locales (rule dist_stage_9)

end
