(* ===== verification/Charge_Run.thy ===== *)
theory Charge_Run
  imports Charge_Safety Charge_Examples
begin

section \<open>Charge manager: a whole run of the allocator\<close>

text \<open>
  The passes over the charge modes, the run of all stages, and the properties of \<^verbatim>\<open>allocate_current\<close>:
  the limits of the grid phases hold for what the chargers are allowed to draw, and a charger that does
  not answer, or all of them when one does not obey, is switched off.
\<close>

subsection \<open>One pass\<close>

lemma dist_next:
  assumes "dist_steps k A sc s" "ready fo N raw0 k sc" "A = set (take k (idx_array sc))"
  shows "ready fo N raw0 k s" "A = set (take k (idx_array s))" "sc_cfg s = sc_cfg sc"
proof -
  show "ready fo N raw0 k s" using ready_dist[OF assms(1) _ assms(2)] ready_idx[OF assms(2)] assms(3) by simp
  note fr = dist_steps_frame[OF assms(1), unfolded framed_def same_frame_def]
  show "A = set (take k (idx_array s))" using fr reordered_set assms(3) by blast
  show "sc_cfg s = sc_cfg sc" using fr by simp
qed

lemma dist_pass:
  assumes ready: "ready fo N raw0 k sc" and A: "A = set (take k (idx_array sc))" and idle: "idle_rest N sc"
    and cur: "\<forall>i \<in> A. current_allocation sc ! i \<in> {0, minimum_of (sc_cfg sc) (phase_allocation sc ! i)}"
  shows "dist_steps k A sc (stage_8 False (stage_7 fo (stage_6 (stage_5 fo (stage_4 fo (undo_stage_6 sc))))))"
proof -
  define s0 where "s0 = undo_stage_6 sc"
  define s1 where "s1 = stage_4 fo s0"
  define s2 where "s2 = stage_5 fo s1"
  define s3 where "s3 = stage_6 s2"
  define s4 where "s4 = stage_7 fo s3"
  have d0: "dist_steps k A sc s0" "\<forall>i \<in> A. current_allocation s0 ! i = 0"
    using dist_undo[OF ready] cur unfolding s0_def A by simp_all
  note n0 = dist_next[OF d0(1) ready A]
  have len: "charger_count s = k \<and> charger_count s \<le> length (idx_array s)" if "ready fo N raw0 k s" for s :: "'a StageContext"
    using that alloc_inv_idx(3) unfolding ready_def by metis
  have p1: "plan_steps k A s0 s1"
    using plan_stage_4[of s0 A fo] len[OF n0(1)] n0(2) d0(2) by (simp add: s1_def)
  note d1 = plan_dist_steps[OF p1]
  note n1 = dist_next[OF d1 n0(1,2)]
  have c1: "\<forall>i \<in> A. current_allocation s1 ! i = 0" using plan_steps_frame[OF p1] d0(2) by simp
  have p2: "plan_steps k A s1 s2"
    using plan_stage_5[of s1 A N fo] len[OF n1(1)] n1(2) c1 ready_idx[OF n1(1)]
      dist_steps_idle[OF d1 dist_steps_idle[OF d0(1) idle]] by (simp add: s2_def)
  note d2 = plan_dist_steps[OF p2]
  note n2 = dist_next[OF d2 n1(1,2)]
  have c2: "\<forall>i \<in> A. current_allocation s2 ! i = 0" using plan_steps_frame[OF p2] c1 by simp
  have d3: "dist_steps k A s2 s3"
    "\<forall>i \<in> A. current_allocation s3 ! i \<in> {0, minimum_of (sc_cfg s2) (phase_allocation s3 ! i)}"
    using dist_stage_6[OF n2(1)] c2 unfolding n2(2)[symmetric] s3_def by blast+
  note n3 = dist_next[OF d3(1) n2(1,2)]
  have "config_ok fo (sc_cfg s2)" using n2(1) by (simp add: ready_def)
  then have "\<forall>i \<in> A. current_allocation s3 ! i \<le> 32000" using d3(2) minimum_of_bounds by fastforce
  then have d4: "dist_steps k A s3 s4" using dist_stage_7[OF n3(1)] n3(2) by (simp add: s4_def)
  note n4 = dist_next[OF d4 n3(1,2)]
  have "dist_steps k A s4 (stage_8 False s4)" using dist_stage_8[OF n4(1)] n4(2) by simp
  then have "dist_steps k A sc (stage_8 False s4)"
    using d0(1) d1 d2 d3(1) d4 by (meson rtranclp_trans)
  then show ?thesis unfolding s4_def s3_def s2_def s1_def s0_def .
qed

subsection \<open>The passes\<close>

text \<open>The chargers a pass is about, and what it keeps.\<close>

definition mode_group :: "'f ChargerState list \<Rightarrow> nat \<Rightarrow> nat set" where
  "mode_group cs mode = {i. get_highest_charge_mode_bit (cs ! i)
     AND (if mode = ChargeMode_Min then mode OR ChargeMode_PV else mode) \<noteq> 0}"

definition kept :: "nat \<Rightarrow> nat set \<Rightarrow> 'f StageContext \<Rightarrow> 'f StageContext \<Rightarrow> bool" where
  "kept n0 G sc sc' \<longleftrightarrow> charger_states sc' = charger_states sc \<and> sc_cfg sc' = sc_cfg sc
    \<and> set (take n0 (idx_array sc')) = set (take n0 (idx_array sc))
    \<and> (\<forall>i. i \<notin> G \<inter> set (take n0 (idx_array sc)) \<longrightarrow> current_allocation sc' ! i = current_allocation sc ! i
          \<and> phase_allocation sc' ! i = phase_allocation sc ! i)"

lemma ready_count: "ready fo N raw0 k sc \<Longrightarrow> n \<le> N \<Longrightarrow> ready fo N raw0 n (sc\<lparr>charger_count := n\<rparr>)"
  by (simp add: ready_def alloc_inv_def load_def factors_of_def)

lemma ready_filter: "ready fo N raw0 k (sc\<lparr>charge_mode_filter := m\<rparr>) = ready fo N raw0 k sc"
  by (simp add: ready_def alloc_inv_def load_def factors_of_def)

lemma ready_reorder:
  assumes "ready fo N raw0 k sc" "reordered n (idx_array sc) idx"
  shows "ready fo N raw0 k (sc\<lparr>idx_array := idx\<rparr>)"
proof -
  have "dist_steps n {} sc (sc\<lparr>idx_array := idx\<rparr>)"
    by (intro r_into_rtranclp dist_step.plan plan_step.reorder assms(2))
  then show ?thesis by (rule ready_dist[OF _ _ assms(1)]) simp
qed

lemma mode_pass_keeps:
  assumes ready: "ready fo N raw0 k sc" and n0: "n0 \<le> N" and G: "G = mode_group (charger_states sc) mode"
    and idle: "idle_rest N sc" and cur: "\<forall>i \<in> G \<inter> set (take n0 (idx_array sc)).
      current_allocation sc ! i \<in> {0, minimum_of (sc_cfg sc) (phase_allocation sc ! i)}"
  shows "\<exists>k'. ready fo N raw0 k' (mode_pass fo n0 mode sc)" "kept n0 G sc (mode_pass fo n0 mode sc)"
    "idle_rest N (mode_pass fo n0 mode sc)"
proof -
  define s0 where "s0 = sc\<lparr>charge_mode_filter := (if mode = ChargeMode_Min then mode OR ChargeMode_PV else mode)\<rparr>"
  have r0: "ready fo N raw0 k s0" using ready by (simp add: s0_def ready_filter)
  let ?P = "\<lambda>sc i. get_highest_charge_mode_bit (charger_states sc ! i) AND charge_mode_filter sc \<noteq> 0"
  obtain m s where f: "filter_chargers_impl ?P s0 (Some n0) = (m, s)" by fastforce
  have "n0 \<le> length (idx_array s0)" using r0 n0 alloc_inv_idx(3) unfolding ready_def by metis
  note p = filter_chargers_reorders[OF f _ this, simplified]
  define s1 where "s1 = s\<lparr>charger_count := m\<rparr>"
  have "ready fo N raw0 k s" by (subst p(1)) (rule ready_reorder[OF r0 p(2)])
  then have r1: "ready fo N raw0 m s1" unfolding s1_def using p(4) n0 by (intro ready_count) simp_all
  let ?A = "set (take m (idx_array s1))"
  have same: "charger_states s1 = charger_states sc" "sc_cfg s1 = sc_cfg sc"
      "current_allocation s1 = current_allocation sc" "phase_allocation s1 = phase_allocation sc"
    by (simp_all add: s1_def, (subst p(1), simp add: s0_def)+)
  have idle1: "idle_rest N s1" using idle same by (simp add: idle_rest_def)
  have A: "?A = G \<inter> set (take n0 (idx_array sc))"
    using p(3) by (auto simp: s1_def s0_def G mode_group_def)
  have pass: "mode_pass fo n0 mode sc
      = stage_8 False (stage_7 fo (stage_6 (stage_5 fo (stage_4 fo (undo_stage_6 s1)))))"
    unfolding mode_pass_def Let_def s0_def[symmetric] f prod.case s1_def by (rule refl)
  have d: "dist_steps m ?A s1 (mode_pass fo n0 mode sc)"
    unfolding pass by (rule dist_pass[OF r1 refl idle1]) (use cur A same in simp)
  show "idle_rest N (mode_pass fo n0 mode sc)" by (rule dist_steps_idle[OF d idle1])
  show "\<exists>k'. ready fo N raw0 k' (mode_pass fo n0 mode sc)" using dist_next(1)[OF d r1 refl] by blast
  note fr = dist_steps_frame[OF d, unfolded framed_def same_frame_def]
  have "set (take n0 (idx_array (mode_pass fo n0 mode sc))) = set (take n0 (idx_array s1))"
    using fr reordered_mono[OF _ p(4)] reordered_set by blast
  moreover have "set (take n0 (idx_array s1)) = set (take n0 (idx_array sc))"
    using reordered_set[OF p(2)] by (simp add: s1_def s0_def)
  ultimately show "kept n0 G sc (mode_pass fo n0 mode sc)" using fr same A by (simp add: kept_def)
qed

lemma highest_mode_values: "get_highest_charge_mode_bit c \<in> {0, 1, 2, 4, 8}"
  by (simp add: get_highest_charge_mode_bit_def Let_def)

lemma mode_groups_disjoint:
  "mode_group cs 8 \<inter> mode_group cs 4 = {}" "mode_group cs 8 \<inter> mode_group cs 2 = {}"
  "mode_group cs 4 \<inter> mode_group cs 2 = {}"
proof -
  have bits: "x \<in> {0, 1, 2, 4, 8} \<Longrightarrow>
      (x AND 8 = 0 \<or> x AND 4 = 0) \<and> (x AND 8 = 0 \<or> x AND 3 = 0) \<and> (x AND 4 = 0 \<or> x AND 3 = 0)" for x :: nat
    by auto
  have "i \<notin> mode_group cs 8 \<or> i \<notin> mode_group cs 4" "i \<notin> mode_group cs 8 \<or> i \<notin> mode_group cs 2"
      "i \<notin> mode_group cs 4 \<or> i \<notin> mode_group cs 2" for i
    using bits[OF highest_mode_values[of "cs ! i"]] by (simp_all add: mode_group_def)
  then show "mode_group cs 8 \<inter> mode_group cs 4 = {}" "mode_group cs 8 \<inter> mode_group cs 2 = {}"
    "mode_group cs 4 \<inter> mode_group cs 2 = {}" by blast+
qed

lemma mode_passes_three:
  "mode_passes fo n0 8 sc = mode_pass fo n0 2 (mode_pass fo n0 4 (mode_pass fo n0 8 sc))"
  by (simp add: mode_passes.simps)

lemma kept_trans:
  "kept n0 G a b \<Longrightarrow> kept n0 H b c \<Longrightarrow> kept n0 (G \<union> H) a c"
  unfolding kept_def by auto

lemma kept_minimum:
  assumes k: "kept n0 G sc a" and "G \<inter> H = {}" and cur: "\<forall>i \<in> set (take n0 (idx_array sc)).
      current_allocation sc ! i \<in> {0, minimum_of (sc_cfg sc) (phase_allocation sc ! i)}"
  shows "\<forall>i \<in> H \<inter> set (take n0 (idx_array a)).
      current_allocation a ! i \<in> {0, minimum_of (sc_cfg a) (phase_allocation a ! i)}"
proof
  fix i
  assume i: "i \<in> H \<inter> set (take n0 (idx_array a))"
  then have "current_allocation a ! i = current_allocation sc ! i" "phase_allocation a ! i = phase_allocation sc ! i"
    using k assms(2) unfolding kept_def by blast+
  moreover have "sc_cfg a = sc_cfg sc" "i \<in> set (take n0 (idx_array sc))" using k i unfolding kept_def by auto
  ultimately show "current_allocation a ! i \<in> {0, minimum_of (sc_cfg a) (phase_allocation a ! i)}"
    using cur by auto
qed

lemma mode_passes_keep:
  assumes ready: "ready fo N raw0 k sc" and n0: "n0 \<le> N" and idle: "idle_rest N sc"
    and cur: "\<forall>i \<in> set (take n0 (idx_array sc)).
      current_allocation sc ! i \<in> {0, minimum_of (sc_cfg sc) (phase_allocation sc ! i)}"
  shows "\<exists>k'. ready fo N raw0 k' (mode_passes fo n0 8 sc)" "\<exists>G. kept n0 G sc (mode_passes fo n0 8 sc)"
    "idle_rest N (mode_passes fo n0 8 sc)"
proof -
  let ?cs = "charger_states sc"
  define a where "a = mode_pass fo n0 8 sc"
  define b where "b = mode_pass fo n0 4 a"
  obtain ka where a: "ready fo N raw0 ka a" "kept n0 (mode_group ?cs 8) sc a" "idle_rest N a"
    using mode_pass_keeps[OF ready n0 refl idle, of 8] cur by (auto simp: a_def)
  have cs: "charger_states a = ?cs" using a(2) by (simp add: kept_def)
  obtain kb where b: "ready fo N raw0 kb b" "kept n0 (mode_group ?cs 4) a b" "idle_rest N b"
    using mode_pass_keeps[OF a(1) n0 refl a(3), of 4, unfolded cs, OF kept_minimum[OF a(2) mode_groups_disjoint(1) cur]]
    unfolding b_def by blast
  note ab = kept_trans[OF a(2) b(2)]
  have cs_b: "charger_states b = ?cs" using ab by (simp add: kept_def)
  have "(mode_group ?cs 8 \<union> mode_group ?cs 4) \<inter> mode_group ?cs 2 = {}" using mode_groups_disjoint(2,3) by blast
  then obtain kc where "ready fo N raw0 kc (mode_pass fo n0 2 b)" "kept n0 (mode_group ?cs 2) b (mode_pass fo n0 2 b)"
      "idle_rest N (mode_pass fo n0 2 b)"
    using mode_pass_keeps[OF b(1) n0 refl b(3), of 2, unfolded cs_b, OF kept_minimum[OF ab _ cur]] by blast
  then show "\<exists>k'. ready fo N raw0 k' (mode_passes fo n0 8 sc)" "\<exists>G. kept n0 G sc (mode_passes fo n0 8 sc)"
    "idle_rest N (mode_passes fo n0 8 sc)"
    unfolding mode_passes_three a_def[symmetric] b_def[symmetric] using kept_trans[OF ab] by blast+
qed

subsection \<open>All stages\<close>

text \<open>A charger that is off keeps no phase and gets no current.\<close>

definition off_idle :: "nat \<Rightarrow> 'f StageContext \<Rightarrow> bool" where
  "off_idle N sc \<longleftrightarrow> (\<forall>i<N. off (charger_states sc ! i) \<longrightarrow> current_allocation sc ! i = 0 \<and> phase_allocation sc ! i = 0)"

lemma ready_len: "ready fo N raw0 k s \<Longrightarrow> charger_count s = k \<and> k \<le> length (idx_array s)"
  unfolding ready_def using alloc_inv_idx(3) by metis

lemma before_passes:
  assumes ready: "ready fo N raw0 N sc" and zero: "\<forall>i<N. current_allocation sc ! i = 0"
    and s1: "s1 = stage_1 clock (decision_preprocess sc)"
    and f: "filter_chargers_impl (\<lambda>sc i. \<not> off (charger_states sc ! i)) s1 None = (n0, s2)"
    and s3: "s3 = s2\<lparr>charger_count := n0\<rparr>" and s4: "s4 = stage_6 (stage_3 (stage_2 s3))"
  shows "ready fo N raw0 n0 s4" "n0 \<le> N" "off_idle N s4" "charger_states s4 = charger_states sc" "idle_rest N s4"
    "\<forall>i \<in> set (take n0 (idx_array s4)). \<not> off (charger_states s4 ! i)
       \<and> current_allocation s4 ! i \<in> {0, minimum_of (sc_cfg s4) (phase_allocation s4 ! i)}"
proof -
  let ?p = "decision_preprocess sc"
  have p: "plan_steps 0 {..<N} sc ?p" by (rule plan_preprocess)
  note fp = plan_steps_frame[OF p, unfolded framed_def same_frame_def]
  have k: "charger_count sc = N" "length (phase_allocation sc) = N" using ready by (simp_all add: ready_def alloc_inv_def)
  have "plan_steps 0 {..<N} ?p s1 \<and> (\<forall>i<N. stopped (charger_states ?p ! i) \<longrightarrow> phase_allocation s1 ! i = 0)"
    unfolding s1 by (rule plan_stage_1) (use fp k zero ready in \<open>simp_all add: chargers_ok_def ready_def\<close>)
  then have d1: "plan_steps 0 {..<N} sc s1" and off: "\<forall>i<N. stopped (charger_states sc ! i) \<longrightarrow> phase_allocation s1 ! i = 0"
    using p fp by (auto intro: rtranclp_trans)
  note f1 = plan_steps_frame[OF d1, unfolded framed_def same_frame_def]
  have r1: "ready fo N raw0 N s1" using ready_dist[OF plan_dist_steps[OF d1] _ ready] by simp
  note q = plan_filter[OF f, unfolded conjunct1[OF ready_len[OF r1]], OF conjunct2[OF ready_len[OF r1]]]
  show n0: "n0 \<le> N" by (rule q(3))
  note f2 = plan_steps_frame[OF q(1), of "{}", unfolded framed_def same_frame_def]
  have r3: "ready fo N raw0 n0 s3"
    unfolding s3 by (rule ready_count[OF ready_dist[OF plan_dist_steps[OF q(1)] _ r1] n0, of "{}"]) simp
  define A where "A = set (take n0 (idx_array s3))"
  have on: "\<not> off (charger_states sc ! i)" if "i \<in> A" for i
    using that q(2) f1 by (auto simp: A_def s3)
  have A: "A \<subseteq> {..<N}" unfolding A_def by (rule ready_idx[OF r3])
  have c3: "current_allocation s3 = current_allocation sc" "charger_states s3 = charger_states sc"
      "\<forall>i<N. phase_allocation s3 ! i = phase_allocation s1 ! i"
    using f1 f2 by (simp_all add: s3)
  have z3: "\<forall>i \<in> A. current_allocation s3 ! i = 0" using c3 zero A by auto
  have d2: "plan_steps n0 A s3 (stage_2 s3)"
    using plan_stage_2[of s3 A] ready_len[OF r3] z3 by (simp add: A_def)
  note n2 = dist_next[OF plan_dist_steps[OF d2] r3 A_def]
  have z2: "\<forall>i \<in> A. current_allocation (stage_2 s3) ! i = 0" using plan_steps_frame[OF d2] z3 by simp
  have d3: "plan_steps n0 A (stage_2 s3) (stage_3 (stage_2 s3))"
    using plan_stage_3[of "stage_2 s3" A] ready_len[OF n2(1)] n2(2) z2 by simp
  note n3 = dist_next[OF plan_dist_steps[OF d3] n2(1,2)]
  have z4: "\<forall>i \<in> A. current_allocation (stage_3 (stage_2 s3)) ! i = 0" using plan_steps_frame[OF d3] z2 by simp
  have d6: "dist_steps n0 A (stage_3 (stage_2 s3)) s4"
    "\<forall>i \<in> A. current_allocation s4 ! i \<in> {0, minimum_of (sc_cfg (stage_3 (stage_2 s3))) (phase_allocation s4 ! i)}"
    using dist_stage_6[OF n3(1)] z4 unfolding n3(2)[symmetric] s4 by blast+
  note n6 = dist_next[OF d6(1) n3(1,2)]
  show "ready fo N raw0 n0 s4" by (rule n6(1))
  have d: "dist_steps n0 A s3 s4" using plan_dist_steps[OF d2] plan_dist_steps[OF d3] d6(1) by (meson rtranclp_trans)
  note fr = dist_steps_frame[OF d, unfolded framed_def same_frame_def]
  show cs: "charger_states s4 = charger_states sc" using fr c3 by simp
  have "idle_rest N s3" using off c3 by (simp add: idle_rest_def stopped_def)
  then show "idle_rest N s4" by (rule dist_steps_idle[OF d])
  show "\<forall>i \<in> set (take n0 (idx_array s4)). \<not> off (charger_states s4 ! i)
       \<and> current_allocation s4 ! i \<in> {0, minimum_of (sc_cfg s4) (phase_allocation s4 ! i)}"
    using d6(2) n6(2,3) on cs by simp
  show "off_idle N s4" unfolding off_idle_def
  proof (intro allI impI)
    fix i
    assume i: "i < N" "off (charger_states s4 ! i)"
    then have "i \<notin> A" using on cs by auto
    then have "current_allocation s4 ! i = current_allocation s3 ! i" "phase_allocation s4 ! i = phase_allocation s3 ! i"
      using fr by blast+
    then show "current_allocation s4 ! i = 0 \<and> phase_allocation s4 ! i = 0" using i off zero c3 cs by (simp add: stopped_def)
  qed
qed

lemma run_stages_safe:
  assumes ready: "ready fo N raw0 N sc" and zero: "\<forall>i<N. current_allocation sc ! i = 0"
  shows "alloc_inv N raw0 (run_stages fo clock sc)" "off_idle N (run_stages fo clock sc)"
    "charger_states (run_stages fo clock sc) = charger_states sc" "idle_rest N (run_stages fo clock sc)"
proof -
  define s1 where "s1 = stage_1 clock (decision_preprocess sc)"
  obtain n0 s2 where f: "filter_chargers_impl (\<lambda>sc i. \<not> off (charger_states sc ! i)) s1 None = (n0, s2)" by fastforce
  define s4 where "s4 = stage_6 (stage_3 (stage_2 (s2\<lparr>charger_count := n0\<rparr>)))"
  note b = before_passes[OF ready zero s1_def f refl s4_def]
  have min: "\<forall>i \<in> set (take n0 (idx_array s4)).
      current_allocation s4 ! i \<in> {0, minimum_of (sc_cfg s4) (phase_allocation s4 ! i)}" using b(6) by blast
  define s5 where "s5 = (mode_passes fo n0 8 s4)\<lparr>charger_count := n0\<rparr>"
  obtain k' G where p: "ready fo N raw0 k' (mode_passes fo n0 8 s4)" "kept n0 G s4 (mode_passes fo n0 8 s4)"
      "idle_rest N (mode_passes fo n0 8 s4)"
    using mode_passes_keep[OF b(1,2,5) min] by blast
  have r5: "ready fo N raw0 n0 s5" unfolding s5_def by (rule ready_count[OF p(1) b(2)])
  define A where "A = set (take n0 (idx_array s4))"
  have A5: "A = set (take n0 (idx_array s5))" using p(2) by (simp add: A_def s5_def kept_def)
  have d9: "dist_steps n0 A s5 (stage_9 fo s5)" using s9.steps[OF r5] A5 by simp
  have d8: "dist_steps n0 A (stage_9 fo s5) (stage_8 True (stage_9 fo s5))"
    using s8.steps[OF s9.keeps_ready[OF r5]] s9.keeps_selection[OF r5] A5 by simp
  define s6 where "s6 = decision_postprocess (stage_8 True (stage_9 fo s5))"
  have "dist_steps n0 A (stage_8 True (stage_9 fo s5)) s6"
    unfolding s6_def by (rule plan_dist_steps[OF plan_postprocess])
  then have d: "dist_steps n0 A s5 s6" using d9 d8 by (meson rtranclp_trans)
  have run: "run_stages fo clock sc = s6"
    unfolding run_stages_def Let_def s1_def[symmetric] f prod.case s4_def[symmetric] s5_def[symmetric] s6_def[symmetric]
    by (rule refl)
  show "alloc_inv N raw0 (run_stages fo clock sc)" using dist_next(1)[OF d r5 A5] by (simp add: run ready_def)
  have "idle_rest N s5" using p(3) by (simp add: s5_def idle_rest_def)
  then show "idle_rest N (run_stages fo clock sc)" unfolding run by (rule dist_steps_idle[OF d])
  note fr = dist_steps_frame[OF d, unfolded framed_def same_frame_def]
  show cs: "charger_states (run_stages fo clock sc) = charger_states sc"
    using fr p(2) b(4) by (simp add: run s5_def kept_def)
  show "off_idle N (run_stages fo clock sc)" unfolding off_idle_def
  proof (intro allI impI)
    fix i
    assume i: "i < N" "off (charger_states (run_stages fo clock sc) ! i)"
    then have "i \<notin> A" using b(4,6) cs by (auto simp: A_def)
    moreover from this have "current_allocation s5 ! i = current_allocation s4 ! i \<and> phase_allocation s5 ! i = phase_allocation s4 ! i"
      using p(2) by (simp add: kept_def s5_def A_def)
    ultimately show "current_allocation (run_stages fo clock sc) ! i = 0 \<and> phase_allocation (run_stages fo clock sc) ! i = 0"
      using fr b(3,4) i cs by (simp add: run off_idle_def)
  qed
qed

subsection \<open>Chargers that do not answer or obey\<close>

definition faulty :: "int \<Rightarrow> 'f ChargerState \<Rightarrow> ChargerAllocationState \<Rightarrow> bool" where
  "faulty now c a \<longleftrightarrow> reports_error (cas_error a) \<or> does_not_obey now c a"

definition silent :: "int \<Rightarrow> 'f ChargerState \<Rightarrow> bool" where
  "silent now c \<longleftrightarrow> now - last_update c > CHARGER_UNREACHABLE_TIMEOUT"

lemma obey_unaffected [simp]:
  "does_not_obey now (c\<lparr>off := b\<rparr>) a = does_not_obey now c a"
  "does_not_obey now c (mark_error e e' a) = does_not_obey now c a"
  "does_not_obey now c (a\<lparr>cas_error := e\<rparr>) = does_not_obey now c a"
  by (simp_all add: does_not_obey_def mark_error_def Let_def)

lemma check_charger_effect:
  "r_chargers (check_charger now i r)
    = (r_chargers r)[i := if silent now (r_chargers r ! i) then (r_chargers r ! i)\<lparr>off := True\<rparr> else r_chargers r ! i]"
  "unreachable_evse_found (check_charger now i r)
    \<longleftrightarrow> unreachable_evse_found r \<or> faulty now (r_chargers r ! i) (r_allocs r ! i)"
  "length (r_allocs (check_charger now i r)) = length (r_allocs r)"
  "j \<noteq> i \<Longrightarrow> r_allocs (check_charger now i r) ! j = r_allocs r ! j"
  unfolding check_charger_def Let_def silent_def faulty_def by simp_all

lemma check_fold:
  fixes r0 :: "'f reach_info" and now :: int
  assumes "n \<le> length (r_chargers r0)" "n \<le> length (r_allocs r0)"
  shows "length (r_chargers (fold (check_charger now) [0..<n] r0)) = length (r_chargers r0)
    \<and> (\<forall>j. r_chargers (fold (check_charger now) [0..<n] r0) ! j
         = (if j < n \<and> silent now (r_chargers r0 ! j) then (r_chargers r0 ! j)\<lparr>off := True\<rparr> else r_chargers r0 ! j))
    \<and> (unreachable_evse_found (fold (check_charger now) [0..<n] r0) \<longleftrightarrow> unreachable_evse_found r0
         \<or> (\<exists>i<n. faulty now (r_chargers r0 ! i) (r_allocs r0 ! i)))
    \<and> length (r_allocs (fold (check_charger now) [0..<n] r0)) = length (r_allocs r0)
    \<and> (\<forall>j \<ge> n. r_allocs (fold (check_charger now) [0..<n] r0) ! j = r_allocs r0 ! j)"
  using assms
proof (induction n)
  case (Suc n)
  let ?r = "fold (check_charger now) [0..<n] r0" and ?r' = "fold (check_charger now) [0..<Suc n] r0"
  have r': "?r' = check_charger now n ?r" by simp
  have n: "r_chargers ?r ! n = r_chargers r0 ! n" "r_allocs ?r ! n = r_allocs r0 ! n" using Suc by simp_all
  have "r_chargers ?r' ! j = (if j < Suc n \<and> silent now (r_chargers r0 ! j)
      then (r_chargers r0 ! j)\<lparr>off := True\<rparr> else r_chargers r0 ! j)" for j
  proof (cases "j = n")
    case False
    then show ?thesis using Suc unfolding r' check_charger_effect by (simp add: less_Suc_eq)
  qed (use Suc in \<open>simp add: check_charger_effect n\<close>)
  moreover have "unreachable_evse_found ?r' \<longleftrightarrow> unreachable_evse_found r0
         \<or> (\<exists>i<Suc n. faulty now (r_chargers r0 ! i) (r_allocs r0 ! i))"
    using Suc unfolding r' check_charger_effect n by (auto simp: less_Suc_eq)
  ultimately show ?case using Suc unfolding r' by (simp add: check_charger_effect)
qed simp

lemma check_chargers_effect:
  fixes chargers :: "'f ChargerState list" and now :: int
  assumes "length chargers = n" "length allocs = n" "i < n"
  defines "r \<equiv> check_chargers now n chargers allocs"
  shows "unreachable_evse_found r \<longleftrightarrow> (\<exists>j<n. faulty now (chargers ! j) (allocs ! j))"
    "r_chargers r ! i = (chargers ! i)\<lparr>off := off (chargers ! i) \<or> silent now (chargers ! i) \<or> unreachable_evse_found r\<rparr>"
    "length (r_chargers r) = n" "length (r_allocs r) = n"
proof -
  define R where "R = fold (check_charger now) [0..<n] \<lparr>r_chargers = chargers, r_allocs = allocs,
    unreachable_evse_found = False, notified = [], vehicle_connected = False\<rparr>"
  have f: "length (r_chargers R) = n" "r_chargers R ! i = (if silent now (chargers ! i)
        then (chargers ! i)\<lparr>off := True\<rparr> else chargers ! i)"
      "unreachable_evse_found R \<longleftrightarrow> (\<exists>j<n. faulty now (chargers ! j) (allocs ! j))" "length (r_allocs R) = n"
    using check_fold[of n "\<lparr>r_chargers = chargers, r_allocs = allocs, unreachable_evse_found = False, notified = [],
      vehicle_connected = False\<rparr>" now] assms(1-3) by (simp_all add: R_def)
  have r: "r = (if unreachable_evse_found R
      then R\<lparr>r_chargers := map (\<lambda>c. c\<lparr>off := True\<rparr>) (r_chargers R), vehicle_connected := True\<rparr> else R)"
    by (simp add: r_def check_chargers_def Let_def R_def)
  show "unreachable_evse_found r \<longleftrightarrow> (\<exists>j<n. faulty now (chargers ! j) (allocs ! j))"
    "length (r_chargers r) = n" "length (r_allocs r) = n"
    using f(1,3,4) by (simp_all add: r)
  show "r_chargers r ! i = (chargers ! i)\<lparr>off := off (chargers ! i) \<or> silent now (chargers ! i) \<or> unreachable_evse_found r\<rparr>"
    using f(1,2) assms(3) unfolding r
    by (cases "unreachable_evse_found R"; cases "silent now (chargers ! i)"; cases "off (chargers ! i)") simp_all
qed

subsection \<open>What is stored\<close>

lemma alloc_let: "fst (snd (Let v F)) = Let v (\<lambda>x. fst (snd (F x)))"
  by simp

lemma let_unused: "Let v (\<lambda>x. k) = k"
  by simp

text \<open>What is stored for the allocation does not depend on what is stored for the charger.\<close>

lemma store_charger_alloc:
  assumes "store_charger fo cfg now cur n (c, a, ca) = (c', a', ca')"
  shows "allocated_current a' = nat (cur mod 2 ^ 16) \<and> allocated_phases a' = n"
proof -
  have "a' = fst (snd (store_charger fo cfg now cur n (c, a, ca)))" using assms by simp
  also have "\<dots> = (let current_to_set = nat (cur mod 2 ^ 16);
        change = (allocated_current a \<noteq> current_to_set \<or> allocated_phases a \<noteq> n);
        a = a\<lparr>allocated_current := current_to_set, allocated_phases := n\<rparr>
      in if change \<and> cas_error a \<noteq> CASError_EVSENonreactive then a\<lparr>last_sent_config := now\<rparr> else a)"
    unfolding store_charger_def prod.case by (simp only: alloc_let fst_conv snd_conv let_unused, simp only: Let_def)
  finally show ?thesis by (simp add: Let_def)
qed

text \<open>What the next run relies on is kept.\<close>

definition same_wiring :: "'f ChargerState \<Rightarrow> 'f ChargerState \<Rightarrow> bool" where
  "same_wiring c c' \<longleftrightarrow> phases c' = phases c \<and> phase_rotation c' = phase_rotation c \<and> user_current c' = user_current c
    \<and> willing c' = willing c"

named_theorems wiring_intros

lemma wiring_refl [wiring_intros]: "same_wiring c c"
  by (simp add: same_wiring_def)

lemma wiring_if [wiring_intros]: "same_wiring c a \<Longrightarrow> same_wiring c b \<Longrightarrow> same_wiring c (if p then a else b)"
  by simp

lemma wiring_let_charger [wiring_intros]:
  "same_wiring c v \<Longrightarrow> (\<And>x. same_wiring c x \<Longrightarrow> same_wiring c (fst (F x))) \<Longrightarrow> same_wiring c (fst (Let v F))"
  by simp

lemma wiring_let [wiring_intros]:
  "(\<And>x :: nat. same_wiring c (fst (F x))) \<Longrightarrow> same_wiring c (fst (Let v F))"
  "(\<And>x :: bool. same_wiring c (fst (G x))) \<Longrightarrow> same_wiring c (fst (Let w G))"
  "(\<And>x :: ChargerAllocationState. same_wiring c (fst (H x))) \<Longrightarrow> same_wiring c (fst (Let a H))"
  "(\<And>x :: CurrentAllocatorState. same_wiring c (fst (K x))) \<Longrightarrow> same_wiring c (fst (Let b K))"
  by simp_all

lemma wiring_updates [wiring_intros]:
  assumes "same_wiring c x"
  shows "same_wiring c (x\<lparr>last_switch_on := t\<rparr>)" "same_wiring c (x\<lparr>last_phase_switch := t\<rparr>)"
    "same_wiring c (x\<lparr>last_wakeup := t\<rparr>)" "same_wiring c (x\<lparr>use_supported_current := t\<rparr>)"
    "same_wiring c (x\<lparr>just_plugged_in_timestamp := t\<rparr>)" "same_wiring c (x\<lparr>time_in_state_c := t\<rparr>)"
    "same_wiring c (alloc_energy fo cfg now cur n x)" "same_wiring c (fst (x, y))"
  using assms by (simp_all add: same_wiring_def willing_def alloc_energy_def Let_def)

lemma store_charger_wiring: "same_wiring c (fst (store_charger fo cfg now cur n (c, a, ca)))"
  unfolding store_charger_def prod.case by (intro wiring_intros)

lemma store_fold:
  assumes "n \<le> length as" "n \<le> length cs" "fold (store_step fo sc) [0..<n] (cs, as, ca) = (cs', as', ca')"
  shows "length as' = length as \<and> (\<forall>i<n. allocated_current (as' ! i) = nat (current_allocation sc ! i mod 2 ^ 16)
      \<and> allocated_phases (as' ! i) = phase_allocation sc ! i)
    \<and> length cs' = length cs \<and> (\<forall>i. same_wiring (cs ! i) (cs' ! i))"
  using assms
proof (induction n arbitrary: cs' as' ca')
  case (Suc n)
  obtain cs1 as1 ca1 where f: "fold (store_step fo sc) [0..<n] (cs, as, ca) = (cs1, as1, ca1)" by (metis prod_cases3)
  obtain c a ca2 where st: "store_charger fo (sc_cfg sc) (sc_now sc) (current_allocation sc ! n) (phase_allocation sc ! n)
      (cs1 ! n, as1 ! n, ca1) = (c, a, ca2)" by (metis prod_cases3)
  have IH: "length as1 = length as \<and> (\<forall>i<n. allocated_current (as1 ! i) = nat (current_allocation sc ! i mod 2 ^ 16)
      \<and> allocated_phases (as1 ! i) = phase_allocation sc ! i)
    \<and> length cs1 = length cs \<and> (\<forall>i. same_wiring (cs ! i) (cs1 ! i))" using Suc.IH[OF _ _ f] Suc.prems(1,2) by simp
  have "fold (store_step fo sc) [0..<Suc n] (cs, as, ca) = store_step fo sc n (cs1, as1, ca1)" using f by simp
  also have "\<dots> = (cs1[n := c], as1[n := a], ca2)" using st by (simp add: store_step_def)
  finally have s': "as' = as1[n := a]" "cs' = cs1[n := c]" using Suc.prems(3) by simp_all
  have "same_wiring (cs1 ! n) c" using store_charger_wiring[of "cs1 ! n"] st by (metis fst_conv)
  then have "same_wiring (cs ! i) (cs' ! i)" for i
    using IH Suc.prems(2) by (cases "i = n") (auto simp: s' same_wiring_def)
  then show ?case using IH store_charger_alloc[OF st] Suc.prems(1) by (auto simp: s' less_Suc_eq nth_list_update)
qed (simp add: same_wiring_def)

subsection \<open>The properties of a run\<close>

text \<open>What a charger may draw: on all phases with three, on the first one with one, which is any grid phase if
  the rotation is not known.\<close>

definition draws_on :: "PhaseRotation \<Rightarrow> nat \<Rightarrow> GridPhase \<Rightarrow> bool" where
  "draws_on rot n g \<longleftrightarrow> n = 3 \<or> n = 1 \<and> (rot = RotUnknown \<or> get_phase rot 1 = g)"

definition phase_usage :: "'f ChargerState list \<Rightarrow> ChargerAllocationState list \<Rightarrow> GridPhase \<Rightarrow> int" where
  "phase_usage chargers allocs g = (\<Sum>i<length allocs.
     if draws_on (phase_rotation (chargers ! i)) (allocated_phases (allocs ! i)) g
     then int (allocated_current (allocs ! i)) else 0)"

lemma factors_draws:
  "n \<in> {0, 1, 3} \<Longrightarrow> g \<in> {L1, L2, L3} \<Longrightarrow>
    at_phase (get_phase_factors n rot) g = (if draws_on rot n g then 1 else 0)"
  by (auto simp: get_phase_factors_def draws_on_def)

definition inputs_ok :: "'f float_ops \<Rightarrow> 'f CurrentAllocatorConfig \<Rightarrow> 'f ChargerState list \<Rightarrow> ChargerAllocationState list \<Rightarrow> bool" where
  "inputs_ok fo cfg chargers allocs \<longleftrightarrow> config_ok fo cfg \<and> length chargers = cfg_charger_count cfg
    \<and> length allocs = cfg_charger_count cfg \<and> list_all charger_ok chargers
    \<and> list_all (\<lambda>a. allocated_phases a \<in> {0, 1, 3}) allocs"

lemma run_of_allocate:
  fixes fo :: "'f float_ops"
  assumes ok: "inputs_ok fo cfg chargers allocs" and N: "N = cfg_charger_count cfg"
    and r: "r = allocate_current fo clock now cfg limits cpd chargers ca allocs decisions"
  obtains sc :: "'f StageContext" where "alloc_inv N (lim_raw limits) sc" "off_idle N sc" "idle_rest N sc" "length (res_allocs r) = N"
    "res_limits r = sc_limits sc" "res_code r = (if \<exists>i<N. faulty now (chargers ! i) (allocs ! i) then 2 else 1)"
    "\<forall>i<N. charger_states sc ! i = (chargers ! i)\<lparr>off := off (chargers ! i) \<or> silent now (chargers ! i)
       \<or> (\<exists>j<N. faulty now (chargers ! j) (allocs ! j))\<rparr>"
    "\<forall>i<N. int (allocated_current (res_allocs r ! i)) = current_allocation sc ! i
       \<and> allocated_phases (res_allocs r ! i) = phase_allocation sc ! i"
    "length (res_chargers r) = N" "\<forall>i<N. same_wiring (chargers ! i) (res_chargers r ! i)"
proof -
  define ca1 where "ca1 = ca\<lparr>global_hysteresis_elapsed := (last_hysteresis_reset ca = 0
                   \<or> last_hysteresis_reset ca + global_hysteresis cfg < now)\<rparr>"
  define as1 where "as1 = map (\<lambda>a. a\<lparr>cp_disconnect := cpd\<rparr>) allocs"
  define R where "R = check_chargers now N chargers as1"
  define s0 where "s0 = \<lparr>idx_array = [0..<N], current_allocation = replicate N 0,
           phase_allocation = map (\<lambda>i. allocated_phases (allocs ! i)) [0..<N], charger_decisions = decisions,
           sc_limits = limits, charger_states = r_chargers R, charger_count = N, unfiltered_charger_count = N,
           sc_cfg = cfg, ca_state = ca1, charger_allocation_state = r_allocs R, charge_mode_filter = 255, sc_now = now\<rparr>"
  define sc where "sc = run_stages fo clock s0"
  obtain cs' as' ca' where st: "fold (store_step fo sc) [0..<N] (r_chargers R, r_allocs R, ca_state sc) = (cs', as', ca')"
    by (metis prod_cases3)
  have res: "res_allocs r = as'" "res_chargers r = cs'" "res_limits r = sc_limits sc" "res_code r = (if unreachable_evse_found R then 2 else 1)"
    unfolding r allocate_current_def Let_def N[symmetric] ca1_def[symmetric] as1_def[symmetric]
      R_def[symmetric] s0_def[symmetric] sc_def[symmetric] st prod.case by simp_all
  have len: "length chargers = N" "length as1 = N" using ok N by (simp_all add: inputs_ok_def as1_def)
  have faulty: "faulty now c (a\<lparr>cp_disconnect := b\<rparr>) = faulty now c a" for c :: "'f ChargerState" and a b
    by (simp add: faulty_def does_not_obey_def)
  have found: "unreachable_evse_found R \<longleftrightarrow> (\<exists>j<N. faulty now (chargers ! j) (allocs ! j))" if "0 < N"
    using check_chargers_effect(1)[OF len that] len by (auto simp: R_def as1_def faulty)
  have found0: "N = 0 \<Longrightarrow> \<not> unreachable_evse_found R" by (simp add: R_def check_chargers_def Let_def)
  have cs: "r_chargers R ! i = (chargers ! i)\<lparr>off := off (chargers ! i) \<or> silent now (chargers ! i)
       \<or> (\<exists>j<N. faulty now (chargers ! j) (allocs ! j))\<rparr>" if "i < N" for i
    using check_chargers_effect(2)[OF len that, of now, folded R_def] found that by (simp only: gr_implies_not_zero bot_nat_0.not_eq_extremum)
  have lenR: "length (r_allocs R) = N \<and> length (r_chargers R) = N"
    using check_chargers_effect(3,4)[OF len, of 0 now] len
    by (cases "N = 0") (simp_all add: R_def check_chargers_def Let_def)
  have "alloc_inv N (lim_raw limits) s0"
    using ok N by (simp add: alloc_inv_def s0_def load_def inputs_ok_def list_all_length mset_upt)
  then have ready: "ready fo N (lim_raw limits) N s0"
    using ok N cs by (simp add: ready_def s0_def inputs_ok_def list_all_length charger_ok_def)
  have zero: "\<forall>i<N. current_allocation s0 ! i = 0" by (simp add: s0_def)
  note safe = run_stages_safe[OF ready zero, of clock, folded sc_def]
  have store: "length as' = N \<and> (\<forall>i<N. allocated_current (as' ! i) = nat (current_allocation sc ! i mod 2 ^ 16)
      \<and> allocated_phases (as' ! i) = phase_allocation sc ! i) \<and> length cs' = N
      \<and> (\<forall>i. same_wiring (r_chargers R ! i) (cs' ! i))"
    using store_fold[OF _ _ st] lenR by simp
  show thesis
  proof (rule that)
    show "alloc_inv N (lim_raw limits) sc" "off_idle N sc" "idle_rest N sc" by (rule safe)+
    show "length (res_allocs r) = N" "res_limits r = sc_limits sc" using store res by simp_all
    show "res_code r = (if \<exists>i<N. faulty now (chargers ! i) (allocs ! i) then 2 else 1)"
      using res(4) found found0 by (cases "N = 0") simp_all
    show "\<forall>i<N. charger_states sc ! i = (chargers ! i)\<lparr>off := off (chargers ! i) \<or> silent now (chargers ! i)
       \<or> (\<exists>j<N. faulty now (chargers ! j) (allocs ! j))\<rparr>"
      using cs safe(3) by (simp add: s0_def)
    show "\<forall>i<N. int (allocated_current (res_allocs r ! i)) = current_allocation sc ! i
       \<and> allocated_phases (res_allocs r ! i) = phase_allocation sc ! i"
      using store safe(1) by (simp add: res alloc_inv_def)
    show "length (res_chargers r) = N" "\<forall>i<N. same_wiring (chargers ! i) (res_chargers r ! i)"
      using store cs by (simp_all add: res same_wiring_def willing_def)
  qed
qed

lemma demo_inputs_ok: "inputs_ok int_ops (demo_config 2) demo_chargers [demo_alloc, demo_alloc]"
  by (simp add: inputs_ok_def config_ok_def scales_ok_def f_scale_int_def int_ops_def demo_config_def demo_chargers_def
      demo_charger_def demo_alloc_def charger_ok_def)

text \<open>The limits hold for what was allocated.\<close>

lemma allocation_in_limits:
  assumes "inputs_ok fo cfg chargers allocs" "g \<in> {L1, L2, L3}"
    and "r = allocate_current fo clock now cfg limits cpd chargers ca allocs decisions"
  shows "phase_usage chargers (res_allocs r) g \<le> max 0 (at_phase (lim_raw limits) g)
    \<and> at_phase (lim_raw (res_limits r)) g = at_phase (lim_raw limits) g - phase_usage chargers (res_allocs r) g
    \<and> inputs_ok fo cfg (res_chargers r) (res_allocs r)
    \<and> (\<forall>a \<in> set (res_allocs r). allocated_phases a = 0 \<longrightarrow> allocated_current a = 0)
    \<and> (\<forall>i<cfg_charger_count cfg. same_wiring (chargers ! i) (res_chargers r ! i))"
proof -
  obtain sc where sc: "alloc_inv (cfg_charger_count cfg) (lim_raw limits) sc" "length (res_allocs r) = cfg_charger_count cfg"
    "res_limits r = sc_limits sc"
    "\<forall>i<cfg_charger_count cfg. \<exists>b. charger_states sc ! i = (chargers ! i)\<lparr>off := b\<rparr>"
    "\<forall>i<cfg_charger_count cfg. int (allocated_current (res_allocs r ! i)) = current_allocation sc ! i
       \<and> allocated_phases (res_allocs r ! i) = phase_allocation sc ! i"
    "length (res_chargers r) = cfg_charger_count cfg"
    "\<forall>i<cfg_charger_count cfg. same_wiring (chargers ! i) (res_chargers r ! i)"
    by (rule run_of_allocate[OF assms(1) refl assms(3)]) blast
  have usage: "phase_usage chargers (res_allocs r) g = load (cfg_charger_count cfg) sc g"
    unfolding phase_usage_def load_def sc(2)
  proof (rule sum.cong[OF refl])
    fix i
    assume "i \<in> {..<cfg_charger_count cfg}"
    then have i: "i < cfg_charger_count cfg" by simp
    obtain b where b: "charger_states sc ! i = (chargers ! i)\<lparr>off := b\<rparr>" using sc(4) i by blast
    have n: "phase_allocation sc ! i \<in> {0, 1, 3}" using sc(1) i by (simp add: alloc_inv_def)
    show "(if draws_on (phase_rotation (chargers ! i)) (allocated_phases (res_allocs r ! i)) g
        then int (allocated_current (res_allocs r ! i)) else 0)
      = current_allocation sc ! i * at_phase (factors_of sc i) g"
      using sc(5) i b factors_draws[OF n assms(2)] by (simp add: factors_of_def)
  qed
  have "inputs_ok fo cfg (res_chargers r) (res_allocs r)"
    using assms(1) sc(1,2,5,6,7) by (simp add: inputs_ok_def list_all_length alloc_inv_def same_wiring_def charger_ok_def)
  moreover have "\<forall>i<length (res_allocs r). allocated_phases (res_allocs r ! i) = 0
      \<longrightarrow> int (allocated_current (res_allocs r ! i)) = 0"
    using sc(1,2,5) by (simp add: alloc_inv_def)
  then have "\<forall>a \<in> set (res_allocs r). allocated_phases a = 0 \<longrightarrow> allocated_current a = 0"
    by (auto simp: in_set_conv_nth)
  moreover have "at_phase (lim_raw (sc_limits sc)) g = at_phase (lim_raw limits) g - load (cfg_charger_count cfg) sc g
      \<and> load (cfg_charger_count cfg) sc g \<le> max 0 (at_phase (lim_raw limits) g)"
    using sc(1) assms(2) unfolding alloc_inv_def by blast
  ultimately show ?thesis using sc(3,7) usage by simp
qed

text \<open>Chargers that are off, silent or without a vehicle that wants to charge and, with a faulty one among them, all
  chargers get nothing.\<close>

lemma stopped_in_allocation:
  assumes "inputs_ok fo cfg chargers allocs"
    and "r = allocate_current fo clock now cfg limits cpd chargers ca allocs decisions"
  shows "res_code r = (if \<exists>i<cfg_charger_count cfg. faulty now (chargers ! i) (allocs ! i) then 2 else 1)
    \<and> (\<forall>i<cfg_charger_count cfg. stopped (chargers ! i) \<or> silent now (chargers ! i) \<or> res_code r = 2 \<longrightarrow>
         allocated_current (res_allocs r ! i) = 0 \<and> allocated_phases (res_allocs r ! i) = 0)"
proof -
  let ?N = "cfg_charger_count cfg"
  obtain sc where sc: "alloc_inv ?N (lim_raw limits) sc" "off_idle ?N sc" "idle_rest ?N sc"
    "res_code r = (if \<exists>i<?N. faulty now (chargers ! i) (allocs ! i) then 2 else 1)"
    "\<forall>i<?N. charger_states sc ! i = (chargers ! i)\<lparr>off := off (chargers ! i) \<or> silent now (chargers ! i)
       \<or> (\<exists>j<?N. faulty now (chargers ! j) (allocs ! j))\<rparr>"
    "\<forall>i<?N. int (allocated_current (res_allocs r ! i)) = current_allocation sc ! i
       \<and> allocated_phases (res_allocs r ! i) = phase_allocation sc ! i"
    by (rule run_of_allocate[OF assms(1) refl assms(2)])
  have "allocated_current (res_allocs r ! i) = 0 \<and> allocated_phases (res_allocs r ! i) = 0"
    if i: "i < ?N" and off: "stopped (chargers ! i) \<or> silent now (chargers ! i) \<or> res_code r = 2" for i
  proof -
    have "off (charger_states sc ! i) \<or> \<not> willing (charger_states sc ! i)"
      using off sc(4,5) i by (auto simp: stopped_def willing_def split: if_splits)
    then have "phase_allocation sc ! i = 0" using sc(2,3) i unfolding off_idle_def idle_rest_def by blast
    moreover from this have "current_allocation sc ! i = 0" using sc(1) i unfolding alloc_inv_def by blast
    ultimately have "int (allocated_current (res_allocs r ! i)) = 0" "allocated_phases (res_allocs r ! i) = 0"
      using sc(6) i by simp_all
    then show ?thesis by simp
  qed
  then show ?thesis using sc(4) by blast
qed

subsection \<open>Rotation with several waiting chargers\<close>

text \<open>
  Chargers that wait with three phases are counted on each phase, and a charger with a single known phase is
  only shut down for them if the count of its phase is one: with two of them waiting it stays active.
\<close>

definition waits_on_all :: "'f StageContext \<Rightarrow> nat \<Rightarrow> bool" where
  "waits_on_all sc i \<longleftrightarrow> (let state = charger_states sc ! i in \<not> off state \<and> wants_to_charge state
     \<and> phase_allocation sc ! i = 0 \<and> elapsed sc (last_plug_in state + allocation_interval (sc_cfg sc)) \<and> phases state = 3)"

lemma b1_counted:
  assumes "waits_on_all (snd bs) i"
  shows "b1_on_phase (fst (b1_charger act i bs)) = b1_on_phase (fst bs) + Cost 0 1 1 1"
    "waits_on_all (snd (b1_charger act i bs)) j = waits_on_all (snd bs) j"
  using assms by (simp_all add: b1_charger_def waits_on_all_def Let_def split_def set_zero_decision_def
      update_decision_def elapsed_def)

lemma rotation_misses_several_waiting:
  assumes wait: "waits_on_all sc i" "waits_on_all sc j"
    and b: "b = fst (b1_charger act j (b1_charger act i
      (\<lparr>have_b1 = False, b1_on_phase = Cost 0 0 0 0, highest_seen = 0\<rparr>, sc)))"
    and c: "st = charger_states s ! k" "is_active (phase_allocation s ! k) st" "phases st = 1" "charger_ok st"
      "phase_rotation st \<noteq> RotUnknown" "\<not> off st" "phase_switch_supported st"
      "highest_seen b \<le> get_highest_charge_mode_bit st"
  shows "rotate_charger True b k s = s"
proof -
  have "b1_on_phase b = Cost 0 2 2 2"
    using b1_counted[of "(\<lparr>have_b1 = False, b1_on_phase = Cost 0 0 0 0, highest_seen = 0\<rparr>, sc)"] wait
    by (simp add: b b1_counted plus_Cost_def)
  moreover have "get_phase (phase_rotation st) 1 \<in> {L1, L2, L3}"
    using c(4) by (intro get_phase_known) (simp_all add: charger_ok_def)
  ultimately have "at_phase (b1_on_phase b) (get_phase (phase_rotation st) 1) = 2" by auto
  then show ?thesis using c(2-) unfolding rotate_charger_def Let_def c(1)[symmetric] by simp
qed

subsection \<open>Decisions of chargers behind one that is off\<close>

text \<open>The last step of a run goes through the first \<open>charger_count\<close> chargers in their own order, where the count is
  that of the chargers that are not off: decisions of chargers with a higher index are not cleaned up.\<close>

lemma postprocess_other: "j \<noteq> i \<Longrightarrow> charger_decisions (postprocess_charger j sc) ! i = charger_decisions sc ! i"
  by (simp add: postprocess_charger_def Let_def set_zero_decision_def set_one_decision_def set_three_decision_def
      update_decision_def)

lemma postprocess_skips_high_indices:
  fixes sc :: "'a StageContext"
  assumes "charger_count sc \<le> i"
  shows "charger_decisions (decision_postprocess sc) ! i = charger_decisions sc ! i"
proof -
  have "i \<notin> set js \<Longrightarrow> charger_decisions (fold postprocess_charger js s) ! i = charger_decisions s ! i"
    for js and s :: "'a StageContext"
    by (induction js arbitrary: s) (simp_all add: postprocess_other)
  from this[of "[0..<charger_count sc]" sc] show ?thesis using assms by (simp add: decision_postprocess_def)
qed

end
