(* ===== verification/Charge_Update.thy ===== *)
theory Charge_Update
  imports Charge_Examples
begin

section \<open>Charge manager: what a charger reports\<close>

text \<open>
  \<^verbatim>\<open>update_from_client_packet\<close> takes over the state that a charger sent, split into the parts it has in the
  code. The packets are those of \<^verbatim>\<open>cm_networking_defs.h\<close>; log output is left out. The flag at the end of the
  result is the one that blocks firmware updates in the builds that have it.
\<close>

record 'f cm_state_v1 =
  v1_feature_flags :: nat
  v1_esp32_uid :: nat
  v1_evse_uptime :: nat
  v1_car_stopped_charging :: nat
  v1_allowed_charging_current :: nat
  v1_supported_current :: nat
  v1_iec61851_state :: nat
  v1_charger_state :: nat
  v1_error_state :: nat
  v1_state_flags :: nat
  v1_line_voltages :: "'f list"
  v1_line_currents :: "'f list"
  v1_line_power_factors :: "'f list"
  v1_power_total :: 'f
  v1_energy_rel :: 'f
  v1_energy_abs :: 'f

record cm_state_v2 =
  v2_time_since_state_change :: nat

record cm_state_v3 =
  v3_phases :: nat

definition CM_FEATURE_FLAGS_CP_DISCONNECT_IS_SET :: "nat \<Rightarrow> bool" where
  "CM_FEATURE_FLAGS_CP_DISCONNECT_IS_SET flags \<longleftrightarrow> flags AND 2 ^ 6 \<noteq> 0"

definition CM_FEATURE_FLAGS_METER_IS_SET :: "nat \<Rightarrow> bool" where
  "CM_FEATURE_FLAGS_METER_IS_SET flags \<longleftrightarrow> flags AND 2 ^ 1 \<noteq> 0"

definition CM_STATE_FLAGS_CP_DISCONNECTED_IS_SET :: "nat \<Rightarrow> bool" where
  "CM_STATE_FLAGS_CP_DISCONNECTED_IS_SET flags \<longleftrightarrow> flags AND 2 ^ 6 \<noteq> 0"

definition CM_STATE_V3_PHASES_CONNECTED_GET :: "nat \<Rightarrow> nat" where
  "CM_STATE_V3_PHASES_CONNECTED_GET ph = ph AND 3"

definition CM_STATE_V3_CAN_PHASE_SWITCH_IS_SET :: "nat \<Rightarrow> bool" where
  "CM_STATE_V3_CAN_PHASE_SWITCH_IS_SET ph \<longleftrightarrow> ph AND 2 ^ 2 \<noteq> 0"

definition CM_STATE_V3_CURRENTLY_SWITCHING_IS_SET :: "nat \<Rightarrow> bool" where
  "CM_STATE_V3_CURRENTLY_SWITCHING_IS_SET ph \<longleftrightarrow> ph AND 2 ^ 3 \<noteq> 0"

subsection \<open>The parts of the update\<close>

definition get_charge_state :: "nat \<Rightarrow> nat \<Rightarrow> nat \<Rightarrow> CASState" where
  "get_charge_state cs supported car_stopped =
    (if cs = 0 then NoVehicle
     else if cs = 3 then Charging
     else if cs = 4 then CASStateError
     else if cs = 1 \<and> supported = 0 then UserBlocked
     else if cs = 1 \<and> supported \<noteq> 0 then if car_stopped = 0 then ManagerBlocked else Charged
     else if cs = 2 then CarBlocked
     else CASStateError)"

definition note_wants :: "'f CurrentAllocatorConfig \<Rightarrow> int \<Rightarrow> 'f cm_state_v1 \<Rightarrow> 'f ChargerState \<Rightarrow> 'f ChargerState" where
  "note_wants cfg now v1 c =
    (let blocked = (v1_charger_state v1 = 1 \<or> v1_charger_state v1 = 2);
         wants = ((v1_car_stopped_charging v1 = 0 \<and> v1_supported_current v1 \<noteq> 0 \<and> blocked \<or> v1_charger_state v1 = 3)
                  \<and> user_current c > 0);
         low_prio = (v1_car_stopped_charging v1 \<noteq> 0 \<and> v1_supported_current v1 \<noteq> 0 \<and> blocked \<and> user_current c > 0);
         wakeup = (if \<not> wants_to_charge_low_priority c \<and> low_prio then now - wakeup_time cfg else last_wakeup c);
         wakeup = (if v1_charger_state v1 \<noteq> 1 \<and> v1_charger_state v1 \<noteq> 2 then 0 else wakeup)
     in c\<lparr>wants_to_charge := wants, wants_to_charge_low_priority := low_prio,
          is_charging := (v1_charger_state v1 = 3 \<and> user_current c > 0), last_wakeup := wakeup\<rparr>)"

definition reset_energy :: "'f float_ops \<Rightarrow> 'f cm_state_v1 \<Rightarrow> 'f ChargerState \<Rightarrow> 'f ChargerState" where
  "reset_energy fo v1 c =
    (if v1_charger_state v1 = 0 then c\<lparr>allocated_energy := f_of_int fo 0, allocated_average_power := f_of_int fo 0\<rparr> else c)"

definition reset_allocation :: "'f cm_state_v1 \<Rightarrow> ChargerAllocationState \<Rightarrow> ChargerAllocationState" where
  "reset_allocation v1 a = (if v1_charger_state v1 = 0 then a\<lparr>allocated_current := 0, allocated_phases := 0\<rparr> else a)"

definition note_currents :: "'f cm_state_v1 \<Rightarrow> 'f ChargerState \<Rightarrow> 'f ChargerState" where
  "note_currents v1 c = c\<lparr>allowed_current := v1_allowed_charging_current v1, supported_current := v1_supported_current v1,
     cp_disconnect_supported := CM_FEATURE_FLAGS_CP_DISCONNECT_IS_SET (v1_feature_flags v1),
     cp_disconnect_state := CM_STATE_FLAGS_CP_DISCONNECTED_IS_SET (v1_state_flags v1)\<rparr>"

definition note_plug :: "'f CurrentAllocatorConfig \<Rightarrow> int \<Rightarrow> 'f cm_state_v1 \<Rightarrow> 'f ChargerState \<Rightarrow> 'f ChargerState" where
  "note_plug cfg now v1 c =
    (let old = charger_state c; new = v1_charger_state v1;
         plugged_in = (old = 0 \<and> new \<noteq> 0);
         plug_in = (if plugged_in then now else last_plug_in c);
         just_in = (if plugged_in \<and> last_update c \<noteq> 0 \<and> plug_in_time cfg \<noteq> 0 then now else just_plugged_in_timestamp c);
         plug_out = (if new = 0 \<and> (old \<noteq> 0 \<or> last_update c = 0) then now else last_plug_out c);
         switch = (if old \<noteq> new \<and> new = 3 then now else last_phase_switch c);
         switch = (if old = 3 \<and> new = 2 then now else switch);
         c = c\<lparr>last_plug_in := plug_in, just_plugged_in_timestamp := just_in, last_plug_out := plug_out,
               last_phase_switch := switch\<rparr>;
         c = (if new = 0 then c\<lparr>last_phase_switch := - global_hysteresis cfg, time_in_state_c := 0, last_plug_in := 0,
                last_switch_on := 0\<rparr> else c)
     in c\<lparr>charger_state := new, last_update := now\<rparr>)"

text \<open>The loop over the line currents ends at the first one that is not a number.\<close>

fun line_current_loop :: "'f float_ops \<Rightarrow> 'f list \<Rightarrow> int \<Rightarrow> int" where
  "line_current_loop fo [] m = m"
| "line_current_loop fo (x # xs) m =
    (if f_isnan fo x then 32000 else line_current_loop fo xs (max m (f_trunc fo (f_mul fo x (f_of_int fo 1000)))))"

definition reported_current ::
  "'f float_ops \<Rightarrow> 'f CurrentAllocatorConfig \<Rightarrow> 'f cm_state_v1 \<Rightarrow> cm_state_v2 option \<Rightarrow> nat" where
  "reported_current fo cfg v1 v2 =
    (case v2 of
       Some v2 \<Rightarrow>
         if v1_charger_state v1 = 3 \<and> int (v2_time_since_state_change v2) \<ge> requested_current_threshold cfg * 1000
         then let m = line_current_loop fo (take 3 (v1_line_currents v1)) (- 1);
                  m = (if m = 0 then 32000 else m);
                  m = m + requested_current_margin cfg;
                  m = max 6000 (min 32000 m)
              in min (v1_supported_current v1) (nat (m mod 2 ^ 16))
         else v1_supported_current v1
     | None \<Rightarrow> v1_supported_current v1)"

definition note_meter :: "'f float_ops \<Rightarrow> 'f cm_state_v1 \<Rightarrow> 'f ChargerState \<Rightarrow> 'f ChargerState" where
  "note_meter fo v1 c =
    (let c = c\<lparr>meter_supported := CM_FEATURE_FLAGS_METER_IS_SET (v1_feature_flags v1)\<rparr>;
         c = (if \<not> f_isnan fo (v1_power_total v1)
              then c\<lparr>power_total_sum := f_add fo (power_total_sum c) (v1_power_total v1),
                     power_total_count := (power_total_count c + 1) mod 2 ^ 32\<rparr> else c)
     in if \<not> f_isnan fo (v1_energy_abs v1) then c\<lparr>energy_abs := v1_energy_abs v1\<rparr> else c)"

definition note_error :: "'f cm_state_v1 \<Rightarrow> nat \<Rightarrow> ChargerAllocationState \<Rightarrow> ChargerAllocationState" where
  "note_error v1 user a =
    (let a = (if v1_error_state v1 \<noteq> 0 then a\<lparr>cas_error := (CASError_ClientErrorOK + v1_error_state v1) mod 256\<rparr> else a);
         a = (if cas_error a < CASError_ClientErrorOK \<or> cas_error a = CASError_EVSEUnreachable
              then a\<lparr>cas_error := CASError_OK\<rparr> else a)
     in if cas_error a = CASError_OK \<or> cas_error a \<ge> CASError_ClientErrorOK
        then let a = a\<lparr>cas_state := get_charge_state (v1_charger_state v1) (v1_supported_current v1)
                         (v1_car_stopped_charging v1)\<rparr>
             in if user = 0 \<and> v1_charger_state v1 \<noteq> 0 then a\<lparr>cas_state := Unauthorized\<rparr> else a
        else a)"

definition note_phases :: "cm_state_v3 option \<Rightarrow> 'f ChargerState \<Rightarrow> 'f ChargerState" where
  "note_phases v3 c =
    (case v3 of
       Some v3 \<Rightarrow> c\<lparr>phases := CM_STATE_V3_PHASES_CONNECTED_GET (v3_phases v3),
         phase_switch_supported := CM_STATE_V3_CAN_PHASE_SWITCH_IS_SET (v3_phases v3),
         currently_switching_phases := CM_STATE_V3_CURRENTLY_SWITCHING_IS_SET (v3_phases v3)\<rparr>
     | None \<Rightarrow> c\<lparr>phases := 3, phase_switch_supported := False\<rparr>)"

text \<open>The pointer to the array of allocations is dereferenced for \<^verbatim>\<open>last_sent_config\<close>, which is the entry of the
  first charger, not the one of the charger that sent the packet.\<close>

definition fake_sent_config :: "int \<Rightarrow> ChargerAllocationState list \<Rightarrow> ChargerAllocationState list" where
  "fake_sent_config now allocs =
    (if last_sent_config (allocs ! 0) = 0 then allocs[0 := (allocs ! 0)\<lparr>last_sent_config := now\<rparr>] else allocs)"

definition update_from_client_packet ::
  "'f float_ops \<Rightarrow> int \<Rightarrow> nat \<Rightarrow> 'f cm_state_v1 \<Rightarrow> cm_state_v2 option \<Rightarrow> cm_state_v3 option
    \<Rightarrow> 'f CurrentAllocatorConfig \<Rightarrow> 'f ChargerState list \<Rightarrow> ChargerAllocationState list \<Rightarrow> bool
    \<Rightarrow> 'f ChargerState list \<times> ChargerAllocationState list \<times> bool" where
  "update_from_client_packet fo now client_id v1 v2 v3 cfg chargers allocs fw_vehicle_connected =
    (let c = (chargers ! client_id)\<lparr>uptime := v1_evse_uptime v1\<rparr>;
         allocs = fake_sent_config now allocs;
         fw_vehicle_connected = (fw_vehicle_connected \<or> v1_charger_state v1 \<noteq> 0);
         c = note_wants cfg now v1 c;
         c = reset_energy fo v1 c;
         a = reset_allocation v1 (allocs ! client_id);
         c = note_currents v1 c;
         c = note_plug cfg now v1 c;
         c = c\<lparr>requested_current := reported_current fo cfg v1 v2\<rparr>;
         c = note_meter fo v1 c;
         a = note_error v1 (user_current c) a;
         c = note_phases v3 c
     in (chargers[client_id := c], allocs[client_id := a], fw_vehicle_connected))"

subsection \<open>What the update guarantees\<close>

lemma reported_current_bounds:
  "reported_current fo cfg v1 v2 \<le> v1_supported_current v1"
  "min 6000 (v1_supported_current v1) \<le> reported_current fo cfg v1 v2"
proof -
  have "6000 \<le> nat (max 6000 (min 32000 m) mod 2 ^ 16)" for m :: int
    by (cases "m \<le> 32000"; cases "m \<ge> 6000") (simp_all add: min_def max_def)
  moreover have "reported_current fo cfg v1 v2 = v1_supported_current v1
      \<or> (\<exists>m. reported_current fo cfg v1 v2 = min (v1_supported_current v1) (nat (max 6000 (min 32000 m) mod 2 ^ 16)))"
    unfolding reported_current_def Let_def by (cases v2) (auto simp del: min_def max_def)
  ultimately have "reported_current fo cfg v1 v2 = v1_supported_current v1
      \<or> (\<exists>x \<ge> 6000. reported_current fo cfg v1 v2 = min (v1_supported_current v1) x)" by metis
  then show "reported_current fo cfg v1 v2 \<le> v1_supported_current v1"
    "min 6000 (v1_supported_current v1) \<le> reported_current fo cfg v1 v2" by auto
qed

text \<open>What the later parts leave alone.\<close>

lemma update_keeps [simp]:
  "user_current (note_wants cfg now v1 c) = user_current c"
  "user_current (reset_energy fo v1 c) = user_current c"
  "user_current (note_currents v1 c) = user_current c"
  "user_current (note_plug cfg now v1 c) = user_current c"
  "user_current (note_meter fo v1 c) = user_current c"
  "wants_to_charge (reset_energy fo v1 c) = wants_to_charge c"
  "wants_to_charge (note_currents v1 c) = wants_to_charge c"
  "wants_to_charge (note_plug cfg now v1 c) = wants_to_charge c"
  "wants_to_charge (note_meter fo v1 c) = wants_to_charge c"
  "wants_to_charge (note_phases v3 c) = wants_to_charge c"
  "wants_to_charge_low_priority (reset_energy fo v1 c) = wants_to_charge_low_priority c"
  "wants_to_charge_low_priority (note_currents v1 c) = wants_to_charge_low_priority c"
  "wants_to_charge_low_priority (note_plug cfg now v1 c) = wants_to_charge_low_priority c"
  "wants_to_charge_low_priority (note_meter fo v1 c) = wants_to_charge_low_priority c"
  "wants_to_charge_low_priority (note_phases v3 c) = wants_to_charge_low_priority c"
  "is_charging (reset_energy fo v1 c) = is_charging c"
  "is_charging (note_currents v1 c) = is_charging c"
  "is_charging (note_plug cfg now v1 c) = is_charging c"
  "is_charging (note_meter fo v1 c) = is_charging c"
  "is_charging (note_phases v3 c) = is_charging c"
  "requested_current (note_meter fo v1 c) = requested_current c"
  "requested_current (note_phases v3 c) = requested_current c"
  by (simp_all add: note_wants_def reset_energy_def note_currents_def note_plug_def note_meter_def note_phases_def Let_def
      split: option.split)

lemma note_error_keeps [simp]:
  "allocated_current (note_error v1 u a) = allocated_current a"
  "allocated_phases (note_error v1 u a) = allocated_phases a"
  "last_sent_config (note_error v1 u a) = last_sent_config a"
  by (simp_all add: note_error_def Let_def)

lemma reset_allocation_keeps [simp]: "last_sent_config (reset_allocation v1 a) = last_sent_config a"
  by (simp add: reset_allocation_def)

lemma fake_sent_config_others: "j \<noteq> 0 \<Longrightarrow> fake_sent_config now allocs ! j = allocs ! j"
  "length (fake_sent_config now allocs) = length allocs"
  by (simp_all add: fake_sent_config_def)

text \<open>
  A packet changes the state of the charger that sent it and of no other one; of the allocations of the
  others it changes at most the time of the last packet to the first charger. Afterwards the charger's requested
  current is at most what it supports and at least the smaller of this and 6 A, it does not want to charge with
  normal and low priority at once and not at all without authorization, and without a vehicle it neither
  wants to charge nor has any current or phase.
\<close>

lemma client_packet_update:
  assumes "client_id < length chargers" "client_id < length allocs"
    and "update_from_client_packet fo now client_id v1 v2 v3 cfg chargers allocs fw = (cs, as, fw')"
  shows "list_all (\<lambda>j. j = client_id \<or> cs ! j = chargers ! j) [0..<length chargers] \<and> length cs = length chargers
    \<and> list_all (\<lambda>j. j = client_id \<or> as ! j = allocs ! j \<or> j = 0 \<and> last_sent_config (allocs ! j) = 0
          \<and> as ! j = (allocs ! j)\<lparr>last_sent_config := now\<rparr>) [0..<length allocs] \<and> length as = length allocs
    \<and> requested_current (cs ! client_id) \<le> v1_supported_current v1
    \<and> min 6000 (v1_supported_current v1) \<le> requested_current (cs ! client_id)
    \<and> \<not> (wants_to_charge (cs ! client_id) \<and> wants_to_charge_low_priority (cs ! client_id))
    \<and> (if user_current (chargers ! client_id) = 0 \<or> v1_charger_state v1 = 0
       then \<not> wants_to_charge (cs ! client_id) \<and> \<not> wants_to_charge_low_priority (cs ! client_id)
         \<and> \<not> is_charging (cs ! client_id)
       else True)
    \<and> (if v1_charger_state v1 = 0
       then allocated_current (as ! client_id) = 0 \<and> allocated_phases (as ! client_id) = 0 else True)"
proof -
  define c where "c = cs ! client_id"
  define a where "a = as ! client_id"
  have cs: "cs = chargers[client_id := c]" and as: "as = (fake_sent_config now allocs)[client_id := a]"
    using assms by (auto simp: update_from_client_packet_def Let_def c_def a_def fake_sent_config_others)
  have fields: "requested_current c = reported_current fo cfg v1 v2"
      "wants_to_charge c = wants_to_charge (note_wants cfg now v1 ((chargers ! client_id)\<lparr>uptime := v1_evse_uptime v1\<rparr>))"
      "wants_to_charge_low_priority c
        = wants_to_charge_low_priority (note_wants cfg now v1 ((chargers ! client_id)\<lparr>uptime := v1_evse_uptime v1\<rparr>))"
      "is_charging c = is_charging (note_wants cfg now v1 ((chargers ! client_id)\<lparr>uptime := v1_evse_uptime v1\<rparr>))"
      "allocated_current a = allocated_current (reset_allocation v1 (fake_sent_config now allocs ! client_id))"
      "allocated_phases a = allocated_phases (reset_allocation v1 (fake_sent_config now allocs ! client_id))"
    using assms by (auto simp: update_from_client_packet_def Let_def c_def a_def fake_sent_config_others)
  have wants: "\<not> (wants_to_charge c \<and> wants_to_charge_low_priority c)"
      "user_current (chargers ! client_id) = 0 \<or> v1_charger_state v1 = 0
        \<Longrightarrow> \<not> wants_to_charge c \<and> \<not> wants_to_charge_low_priority c \<and> \<not> is_charging c"
    unfolding fields by (auto simp: note_wants_def Let_def)
  have alloc: "v1_charger_state v1 = 0 \<Longrightarrow> allocated_current a = 0 \<and> allocated_phases a = 0"
    unfolding fields by (simp add: reset_allocation_def)
  have others: "as ! j = allocs ! j \<or> j = 0 \<and> last_sent_config (allocs ! j) = 0
      \<and> as ! j = (allocs ! j)\<lparr>last_sent_config := now\<rparr>" if "j \<noteq> client_id" "j < length allocs" for j
    using that by (cases "j = 0") (simp_all add: as fake_sent_config_def)
  have "cs ! j = chargers ! j" if "j \<noteq> client_id" for j using that by (simp add: cs)
  then have lists: "list_all (\<lambda>j. j = client_id \<or> cs ! j = chargers ! j) [0..<length chargers]"
    unfolding list_all_iff by blast
  have lens: "length cs = length chargers" "length as = length allocs" by (simp_all add: cs as fake_sent_config_others)
  have "list_all (\<lambda>j. j = client_id \<or> as ! j = allocs ! j \<or> j = 0 \<and> last_sent_config (allocs ! j) = 0
          \<and> as ! j = (allocs ! j)\<lparr>last_sent_config := now\<rparr>) [0..<length allocs]"
    unfolding list_all_iff using others by force
  then show ?thesis
    unfolding c_def[symmetric] a_def[symmetric] fields(1)
    using wants alloc lists lens reported_current_bounds by (intro conjI) (simp_all only: if_True split: if_split, blast+)
qed

definition demo_packet :: "int cm_state_v1" where
  "demo_packet = \<lparr>v1_feature_flags = 0, v1_esp32_uid = 1, v1_evse_uptime = 2, v1_car_stopped_charging = 0,
     v1_allowed_charging_current = 0, v1_supported_current = 16000, v1_iec61851_state = 0, v1_charger_state = 0,
     v1_error_state = 0, v1_state_flags = 0, v1_line_voltages = [230, 230, 230], v1_line_currents = [0, 0, 0],
     v1_line_power_factors = [1, 1, 1], v1_power_total = 0, v1_energy_rel = 0, v1_energy_abs = 0\<rparr>"

lemma client_packet_update_witness:
  "case update_from_client_packet int_ops 1001000000 1 demo_packet None None (demo_config 2) demo_chargers
      [demo_alloc, demo_alloc] False of (cs, as, fw) \<Rightarrow>
    requested_current (cs ! 1) \<le> 16000 \<and> 6000 \<le> requested_current (cs ! 1) \<and> \<not> wants_to_charge (cs ! 1)
    \<and> allocated_current (as ! 1) = 0"
proof -
  obtain cs as fw where u: "update_from_client_packet int_ops 1001000000 1 demo_packet None None (demo_config 2)
      demo_chargers [demo_alloc, demo_alloc] False = (cs, as, fw)" by (metis prod_cases3)
  have "1 < length demo_chargers" "1 < length [demo_alloc, demo_alloc]" by (simp_all add: demo_chargers_def)
  then show ?thesis
    using client_packet_update[OF _ _ u] u by (simp add: demo_packet_def)
qed

text \<open>A charger other than the first one to which nothing was sent yet stays without a faked time.\<close>

lemma sent_config_not_faked:
  assumes "0 < client_id" "client_id < length allocs"
    and "update_from_client_packet fo now client_id v1 v2 v3 cfg chargers allocs fw = (cs, as, fw')"
  shows "last_sent_config (as ! client_id) = last_sent_config (allocs ! client_id)"
  using assms by (auto simp: update_from_client_packet_def Let_def fake_sent_config_others)

end
