(* ===== verification/Charge_Manager.thy ===== *)
theory Charge_Manager
  imports Charge_Run Charge_Update
begin

section \<open>Charge manager: charge modes and the run of the allocator\<close>

text \<open>
  The part of \<^verbatim>\<open>charge_manager.cpp\<close> around the allocator: configured phase rotations and charge modes, the
  translation of a charge mode into what the allocator reads, the detection of stale packets, and
  \<^verbatim>\<open>run_allocator\<close>, which applies the limit of the grid operator and runs the allocation on a copy of the
  limits. The decisions of the eco module and the limit of the grid operator are parameters; what
  is written for the frontend is left out but for the allocated currents and the result.
\<close>

subsection \<open>Configuration\<close>

datatype CMPhaseRotation = CMUnknown | CML123 | CML132 | CML231 | CML213 | CML321 | CML312

fun convert_phase_rotation :: "CMPhaseRotation \<Rightarrow> PhaseRotation" where
  "convert_phase_rotation CMUnknown = RotUnknown"
| "convert_phase_rotation CML123 = L123"
| "convert_phase_rotation CML132 = L132"
| "convert_phase_rotation CML231 = L231"
| "convert_phase_rotation CML213 = L213"
| "convert_phase_rotation CML321 = L321"
| "convert_phase_rotation CML312 = L312"

datatype ConfigChargeMode = ModeFast | ModeOff | ModePV | ModeMinPV | ModeDefault | ModeMin | ModeEco | ModeEcoPV
  | ModeEcoMin | ModeEcoMinPV

fun mode_bits :: "ConfigChargeMode \<Rightarrow> nat option" where
  "mode_bits ModeFast = Some ChargeMode_Fast"
| "mode_bits ModeOff = Some 0"
| "mode_bits ModePV = Some ChargeMode_PV"
| "mode_bits ModeMinPV = Some (ChargeMode_Min OR ChargeMode_PV)"
| "mode_bits ModeDefault = None"
| "mode_bits ModeMin = Some ChargeMode_Min"
| "mode_bits ModeEco = Some ChargeMode_Eco"
| "mode_bits ModeEcoPV = Some (ChargeMode_Eco OR ChargeMode_PV)"
| "mode_bits ModeEcoMin = Some (ChargeMode_Eco OR ChargeMode_Min)"
| "mode_bits ModeEcoMinPV = Some (ChargeMode_Eco OR ChargeMode_Min OR ChargeMode_PV)"

text \<open>The default mode is looked up once; with a default that is \<open>ModeDefault\<close> again, the recursion of the code would
  not end, which is the result \<open>None\<close>.\<close>

definition config_cm_to_cm :: "ConfigChargeMode \<Rightarrow> ConfigChargeMode \<Rightarrow> nat option" where
  "config_cm_to_cm default_mode mode = mode_bits (if mode = ModeDefault then default_mode else mode)"

definition cm_to_config_cm :: "nat \<Rightarrow> ConfigChargeMode" where
  "cm_to_config_cm mode =
    (if mode = 0 then ModeOff
     else if mode = ChargeMode_PV then ModePV
     else if mode = ChargeMode_Min then ModeMin
     else if mode = ChargeMode_Min OR ChargeMode_PV then ModeMinPV
     else if mode = ChargeMode_Eco then ModeEco
     else if mode = ChargeMode_Eco OR ChargeMode_PV then ModeEcoPV
     else if mode = ChargeMode_Eco OR ChargeMode_Min then ModeEcoMin
     else if mode = ChargeMode_Eco OR ChargeMode_Min OR ChargeMode_PV then ModeEcoMinPV
     else ModeFast)"

lemma charge_mode_roundtrip:
  "mode \<noteq> ModeDefault \<Longrightarrow> map_option cm_to_config_cm (config_cm_to_cm d mode) = Some mode"
  by (cases mode) (simp_all add: config_cm_to_cm_def cm_to_config_cm_def)

subsection \<open>Packets and modes\<close>

definition is_packet_stale :: "int \<Rightarrow> nat \<Rightarrow> 'f cm_state_v1 \<Rightarrow> 'f ChargerState list \<Rightarrow> ChargerAllocationState list
    \<Rightarrow> bool \<times> ChargerAllocationState list" where
  "is_packet_stale now client_id v1 chargers allocs =
    (if uptime (chargers ! client_id) = v1_evse_uptime v1
     then (True, if last_update (chargers ! client_id) + 10000000 < now
                 then allocs[client_id := (allocs ! client_id)\<lparr>cas_state := CASStateError,
                        cas_error := CASError_EVSEUnreachable\<rparr>]
                 else allocs)
     else (False, allocs))"

fun from_mode_loop :: "int \<Rightarrow> bool \<Rightarrow> nat list \<Rightarrow> 'f ChargerState \<Rightarrow> 'f ChargerState" where
  "from_mode_loop guaranteed eco [] c = c"
| "from_mode_loop guaranteed eco (m # ms) c =
    (let bit = charge_mode c AND m in
     if bit = ChargeMode_Fast then c\<lparr>off := False, observe_pv_limit := False\<rparr>
     else if bit = ChargeMode_Eco
     then if eco then c\<lparr>off := False, observe_pv_limit := False, eco_fast := True\<rparr>
          else from_mode_loop guaranteed eco ms c
     else if bit = ChargeMode_Min
     then from_mode_loop guaranteed eco ms (c\<lparr>off := False, guaranteed_pv_current := guaranteed, observe_pv_limit := True\<rparr>)
     else if bit = ChargeMode_PV then c\<lparr>off := False, observe_pv_limit := True\<rparr>
     else from_mode_loop guaranteed eco ms c)"

definition update_charger_state_from_mode :: "int \<Rightarrow> bool \<Rightarrow> 'f ChargerState \<Rightarrow> 'f ChargerState" where
  "update_charger_state_from_mode guaranteed eco c = from_mode_loop guaranteed eco [8, 4, 2, 1]
     (c\<lparr>off := True, observe_pv_limit := False, eco_fast := False, guaranteed_pv_current := 0\<rparr>)"

subsection \<open>The run\<close>

record 'f ChargeManager =
  cm_limits :: CurrentLimits
  cm_limits_post :: CurrentLimits
  cm_guaranteed_pv_current :: int
  cm_config :: "'f CurrentAllocatorConfig"
  cm_chargers :: "'f ChargerState list"
  cm_ca_state :: CurrentAllocatorState
  cm_allocs :: "ChargerAllocationState list"
  cm_decisions :: "ChargerDecision list"
  cm_state_alloc :: Cost
  cm_state_result :: int
  fast_charger_in_c :: bool

text \<open>The limit in watts becomes milliamperes per phase; in \<^verbatim>\<open>double\<close> arithmetic this is exactly the rounded
  quotient. Zero means that there is no limit.\<close>

definition p14_limit_mA :: "nat \<Rightarrow> int" where
  "p14_limit_mA w = int (w * 1000 div (3 * 230))"

definition limit_phases :: "int \<Rightarrow> Cost \<Rightarrow> Cost" where
  "limit_phases m c = Cost (pv c) (min (l1 c) m) (min (l2 c) m) (min (l3 c) m)"

definition apply_p14_limit :: "nat \<Rightarrow> CurrentLimits \<Rightarrow> CurrentLimits" where
  "apply_p14_limit w limits =
    (if w \<noteq> 0 then limits\<lparr>lim_raw := limit_phases (p14_limit_mA w) (lim_raw limits),
       lim_min := limit_phases (p14_limit_mA w) (lim_min limits),
       lim_spread := limit_phases (p14_limit_mA w) (lim_spread limits)\<rparr> else limits)"

definition fast_in_c :: "'f ChargerState \<Rightarrow> bool" where
  "fast_in_c c \<longleftrightarrow> is_charging c
     \<and> (charge_mode c AND ChargeMode_Fast \<noteq> 0 \<or> charge_mode c AND ChargeMode_Eco \<noteq> 0 \<and> eco_fast c)"

definition run_allocator ::
  "'f float_ops \<Rightarrow> (int \<times> int) option \<Rightarrow> int \<Rightarrow> nat \<Rightarrow> (nat \<Rightarrow> bool) \<Rightarrow> bool \<Rightarrow> 'f ChargeManager \<Rightarrow> 'f ChargeManager" where
  "run_allocator fo clock now p14_limit_w eco cp_disconnect_requested cm =
    (let n = cfg_charger_count (cm_config cm);
         limits = apply_p14_limit p14_limit_w (cm_limits cm);
         chargers = map (\<lambda>i. update_charger_state_from_mode (cm_guaranteed_pv_current cm) (eco i) (cm_chargers cm ! i)) [0..<n];
         r = allocate_current fo clock now (cm_config cm) limits cp_disconnect_requested chargers (cm_ca_state cm)
               (cm_allocs cm) (cm_decisions cm)
     in cm\<lparr>cm_limits_post := res_limits r, cm_chargers := res_chargers r, cm_ca_state := res_ca_state r,
          cm_allocs := res_allocs r, cm_decisions := res_decisions r,
          cm_state_alloc := lim_raw limits - lim_raw (res_limits r), cm_state_result := res_code r,
          fast_charger_in_c := list_ex fast_in_c (res_chargers r)\<rparr>)"

text \<open>Until all chargers were seen, the manager takes what they report for their allocation.\<close>

definition adopt_charger :: "nat \<Rightarrow> 'f ChargeManager \<Rightarrow> 'f ChargeManager" where
  "adopt_charger i cm =
    (let c = cm_chargers cm ! i;
         cost = get_cost (int (allowed_current c)) (phases c) (phase_rotation c) 0 0
     in cm\<lparr>cm_allocs := (cm_allocs cm)[i := (cm_allocs cm ! i)\<lparr>allocated_current := allowed_current c,
               allocated_phases := phases c\<rparr>],
           cm_limits_post := apply_cost cost (cm_limits_post cm)\<rparr>)"

definition adopt_reported :: "'f ChargeManager \<Rightarrow> 'f ChargeManager" where
  "adopt_reported cm = fold adopt_charger [0..<cfg_charger_count (cm_config cm)] (cm\<lparr>cm_limits_post := cm_limits cm\<rparr>)"

text \<open>What the chargers that charge now may use.\<close>

definition used_step :: "int \<Rightarrow> 'f ChargerState \<Rightarrow> Cost \<Rightarrow> Cost" where
  "used_step now c used =
    (if charger_state c \<noteq> 3 \<or> currently_switching_phases c \<or> last_update c < now - CHARGER_UNREACHABLE_TIMEOUT then used
     else used + get_cost (int (allowed_current c)) (phases c) (phase_rotation c) 0 0)"

definition update_allocated_currents :: "int \<Rightarrow> 'f ChargeManager \<Rightarrow> Cost" where
  "update_allocated_currents now cm =
    fold (\<lambda>i. used_step now (cm_chargers cm ! i)) [0..<cfg_charger_count (cm_config cm)] (Cost 0 0 0 0)"

definition skip_global_hysteresis :: "int \<Rightarrow> 'f ChargeManager \<Rightarrow> 'f ChargeManager" where
  "skip_global_hysteresis now cm = cm\<lparr>cm_ca_state := (cm_ca_state cm)\<lparr>last_hysteresis_reset :=
     now - global_hysteresis (cm_config cm) - 1\<rparr>\<rparr>"

subsection \<open>Charge modes\<close>

text \<open>A charger is off when no mode applies to it now.\<close>

definition mode_off :: "bool \<Rightarrow> nat \<Rightarrow> bool" where
  "mode_off eco mode \<longleftrightarrow> \<not> bit mode 3 \<and> \<not> (bit mode 2 \<and> eco) \<and> \<not> bit mode 1 \<and> \<not> bit mode 0"

lemma and_power_bit: "(mode :: nat) AND 2 ^ k = (if bit mode k then 2 ^ k else 0)"
  by (rule bit_eqI) (auto simp: bit_simps)

lemma mode_bit_values:
  "(mode :: nat) AND 8 = (if bit mode 3 then 8 else 0)" "mode AND 4 = (if bit mode 2 then 4 else 0)"
  "mode AND 2 = (if bit mode 1 then 2 else 0)" "mode AND 1 = (if bit mode 0 then 1 else 0)"
  using and_power_bit[of mode 3] and_power_bit[of mode 2] and_power_bit[of mode 1] and_power_bit[of mode 0] by simp_all

lemma from_mode_spec:
  "off (update_charger_state_from_mode g eco c) = mode_off eco (charge_mode c)"
  "same_wiring c (update_charger_state_from_mode g eco c)"
  "last_update (update_charger_state_from_mode g eco c) = last_update c"
  "does_not_obey now (update_charger_state_from_mode g eco c) a = does_not_obey now c a"
  "willing (update_charger_state_from_mode g eco c) = willing c"
  by (simp_all add: willing_def update_charger_state_from_mode_def Let_def mode_bit_values mode_off_def same_wiring_def does_not_obey_def
      bit_0 odd_iff_mod_2_eq_one)

lemma modes_ok:
  assumes "inputs_ok fo cfg chargers allocs"
  shows "inputs_ok fo cfg (map (\<lambda>i. update_charger_state_from_mode g (eco i) (chargers ! i)) [0..<cfg_charger_count cfg]) allocs"
  using assms from_mode_spec(2)[of "chargers ! i" g "eco i" for i]
  by (simp add: inputs_ok_def list_all_length charger_ok_def same_wiring_def)

subsection \<open>The properties of a run\<close>

definition manager_ok :: "'f float_ops \<Rightarrow> 'f ChargeManager \<Rightarrow> bool" where
  "manager_ok fo cm \<longleftrightarrow> inputs_ok fo (cm_config cm) (cm_chargers cm) (cm_allocs cm)"

text \<open>The conditions hold when the manager starts with what the chargers report.\<close>

lemma convert_phase_rotation_known: "convert_phase_rotation rot \<noteq> RotNotApplicable"
  by (cases rot) simp_all

lemma adopt_fold:
  "n \<le> length (cm_allocs cm) \<Longrightarrow>
    length (cm_allocs (fold adopt_charger [0..<n] cm)) = length (cm_allocs cm)
    \<and> cm_chargers (fold adopt_charger [0..<n] cm) = cm_chargers cm
    \<and> cm_config (fold adopt_charger [0..<n] cm) = cm_config cm
    \<and> (\<forall>i<n. allocated_phases (cm_allocs (fold adopt_charger [0..<n] cm) ! i) = phases (cm_chargers cm ! i))"
proof (induction n)
  case (Suc n)
  then show ?case by (auto simp: adopt_charger_def Let_def less_Suc_eq nth_list_update)
qed simp

lemma adopt_reported_ok:
  assumes "config_ok fo (cm_config cm)" "list_all charger_ok (cm_chargers cm)"
    "length (cm_chargers cm) = cfg_charger_count (cm_config cm)" "length (cm_allocs cm) = cfg_charger_count (cm_config cm)"
  shows "manager_ok fo (adopt_reported cm)"
  using adopt_fold[of "cfg_charger_count (cm_config cm)" "cm\<lparr>cm_limits_post := cm_limits cm\<rparr>"] assms
  by (auto simp: adopt_reported_def manager_ok_def inputs_ok_def list_all_length charger_ok_def)

lemma phase_usage_cong:
  "(\<And>i. i < length allocs \<Longrightarrow> phase_rotation (cs ! i) = phase_rotation (ds ! i)) \<Longrightarrow>
    phase_usage cs allocs g = phase_usage ds allocs g"
  unfolding phase_usage_def by (rule sum.cong) simp_all

definition demo_manager :: "int ChargeManager" where
  "demo_manager = \<lparr>cm_limits = demo_limits 20000, cm_limits_post = demo_limits 20000, cm_guaranteed_pv_current = 0,
     cm_config = demo_config 2, cm_chargers = demo_chargers, cm_ca_state = demo_state,
     cm_allocs = [demo_alloc, demo_alloc], cm_decisions = [demo_decision, demo_decision], cm_state_alloc = Cost 0 0 0 0,
     cm_state_result = 0, fast_charger_in_c = False\<rparr>"

lemma demo_manager_ok: "manager_ok int_ops demo_manager"
  using demo_inputs_ok by (simp add: manager_ok_def demo_manager_def)

text \<open>
  After each run of the allocator the chargers together may draw no more on a grid phase than the limit of
  this phase, and no more than the limit of the grid operator when there is one (and nothing if the limit is
  negative); a charger whose rotation is not known counts on every phase. What the manager reports as
  allocated is what was given away, the limits for the next run are unchanged, and the next run can rely on
  the same conditions.
\<close>

lemma run_allocator_limits:
  assumes "manager_ok fo cm" "g \<in> {L1, L2, L3}"
    and "cm' = run_allocator fo clock now p14_w eco cpd cm"
  shows "phase_usage (cm_chargers cm) (cm_allocs cm') g \<le> max 0 (at_phase (lim_raw (cm_limits cm)) g)
    \<and> (if p14_w = 0 then True else phase_usage (cm_chargers cm) (cm_allocs cm') g \<le> int (p14_w * 1000 div 690))
    \<and> at_phase (cm_state_alloc cm') g = phase_usage (cm_chargers cm) (cm_allocs cm') g
    \<and> cm_limits cm' = cm_limits cm \<and> manager_ok fo cm' \<and> cm_config cm' = cm_config cm
    \<and> (\<forall>i<cfg_charger_count (cm_config cm). same_wiring (cm_chargers cm ! i) (cm_chargers cm' ! i))"
proof -
  let ?n = "cfg_charger_count (cm_config cm)" and ?limits = "apply_p14_limit p14_w (cm_limits cm)"
  define chargers where "chargers = map (\<lambda>i. update_charger_state_from_mode (cm_guaranteed_pv_current cm) (eco i)
    (cm_chargers cm ! i)) [0..<?n]"
  define r where "r = allocate_current fo clock now (cm_config cm) ?limits cpd chargers (cm_ca_state cm)
    (cm_allocs cm) (cm_decisions cm)"
  have ok: "inputs_ok fo (cm_config cm) chargers (cm_allocs cm)"
    unfolding chargers_def using assms(1) by (intro modes_ok) (simp add: manager_ok_def)
  note a = allocation_in_limits[OF ok assms(2) r_def]
  have cm': "cm_allocs cm' = res_allocs r" "cm_chargers cm' = res_chargers r" "cm_limits cm' = cm_limits cm"
      "cm_config cm' = cm_config cm" "cm_state_alloc cm' = lim_raw ?limits - lim_raw (res_limits r)"
    unfolding assms(3) run_allocator_def Let_def chargers_def[symmetric] r_def[symmetric] by simp_all
  have len: "length (res_allocs r) = ?n" using a by (simp add: inputs_ok_def)
  have usage: "phase_usage (cm_chargers cm) (res_allocs r) g = phase_usage chargers (res_allocs r) g"
    by (rule phase_usage_cong) (simp add: chargers_def len from_mode_spec(2)[unfolded same_wiring_def])
  have raw: "at_phase (lim_raw ?limits) g \<le> at_phase (lim_raw (cm_limits cm)) g"
      "p14_w \<noteq> 0 \<Longrightarrow> at_phase (lim_raw ?limits) g \<le> int (p14_w * 1000 div 690)"
    using assms(2) by (auto simp: apply_p14_limit_def limit_phases_def p14_limit_mA_def)
  have wired: "same_wiring (cm_chargers cm ! i) (res_chargers r ! i)" if "i < ?n" for i
    using a that from_mode_spec(2)[of "cm_chargers cm ! i" "cm_guaranteed_pv_current cm" "eco i"] by (simp add: same_wiring_def chargers_def)
  have "0 \<le> int (p14_w * 1000 div 690)" by simp
  then show ?thesis using a usage raw wired unfolding manager_ok_def cm' by auto
qed

text \<open>
  A run switches off every charger that no charge mode applies to, whose vehicle neither charges nor wants
  to, or that has not answered for 32 seconds, and all of them when one of the chargers reports an error of its EVSE
  or does not obey its allocation: these chargers get no phase and no current. In the last case, and only then, the
  manager is in the error state 2.
\<close>

lemma run_allocator_stops:
  assumes "manager_ok fo cm" "cm' = run_allocator fo clock now p14_w eco cpd cm"
  shows "cm_state_result cm' = (if list_ex (\<lambda>i. faulty now (cm_chargers cm ! i) (cm_allocs cm ! i))
        [0..<cfg_charger_count (cm_config cm)] then 2 else 1)
    \<and> list_all (\<lambda>i. if mode_off (eco i) (charge_mode (cm_chargers cm ! i)) \<or> silent now (cm_chargers cm ! i)
            \<or> \<not> willing (cm_chargers cm ! i) \<or> cm_state_result cm' = 2
         then allocated_current (cm_allocs cm' ! i) = 0 \<and> allocated_phases (cm_allocs cm' ! i) = 0 else True)
       [0..<cfg_charger_count (cm_config cm)]"
proof -
  let ?n = "cfg_charger_count (cm_config cm)" and ?limits = "apply_p14_limit p14_w (cm_limits cm)"
  define chargers where "chargers = map (\<lambda>i. update_charger_state_from_mode (cm_guaranteed_pv_current cm) (eco i)
    (cm_chargers cm ! i)) [0..<?n]"
  define r where "r = allocate_current fo clock now (cm_config cm) ?limits cpd chargers (cm_ca_state cm)
    (cm_allocs cm) (cm_decisions cm)"
  have ok: "inputs_ok fo (cm_config cm) chargers (cm_allocs cm)"
    unfolding chargers_def using assms(1) by (intro modes_ok) (simp add: manager_ok_def)
  note s = stopped_in_allocation[OF ok r_def]
  have cm': "cm_allocs cm' = res_allocs r" "cm_state_result cm' = res_code r"
    unfolding assms(2) run_allocator_def Let_def chargers_def[symmetric] r_def[symmetric] by simp_all
  have ch: "faulty now (chargers ! i) (cm_allocs cm ! i) = faulty now (cm_chargers cm ! i) (cm_allocs cm ! i)"
      "silent now (chargers ! i) = silent now (cm_chargers cm ! i)"
      "stopped (chargers ! i) \<longleftrightarrow> mode_off (eco i) (charge_mode (cm_chargers cm ! i)) \<or> \<not> willing (cm_chargers cm ! i)"
    if "i < ?n" for i
    using that by (simp_all add: chargers_def faulty_def silent_def stopped_def from_mode_spec)
  have "(\<exists>i<?n. faulty now (chargers ! i) (cm_allocs cm ! i)) = list_ex (\<lambda>i. faulty now (cm_chargers cm ! i) (cm_allocs cm ! i)) [0..<?n]"
    using ch(1) by (auto simp: list_ex_iff)
  then have "res_code r = (if list_ex (\<lambda>i. faulty now (cm_chargers cm ! i) (cm_allocs cm ! i)) [0..<?n] then 2 else 1)"
    using s by simp
  moreover have "allocated_current (res_allocs r ! i) = 0 \<and> allocated_phases (res_allocs r ! i) = 0"
    if "i < ?n" "mode_off (eco i) (charge_mode (cm_chargers cm ! i)) \<or> silent now (cm_chargers cm ! i)
      \<or> \<not> willing (cm_chargers cm ! i) \<or> res_code r = 2" for i
    using that s ch by blast
  ultimately show ?thesis unfolding cm' list_all_iff by simp
qed

end
