(* ===== verification/Charge_Auth.thy ===== *)
theory Charge_Auth
  imports Charge_Manager
begin

section \<open>Charge manager: who may charge\<close>

text \<open>
  With central management a charger gets current only for an authorized user (\<^verbatim>\<open>update_authentication\<close> of
  \<^verbatim>\<open>charge_manager.cpp\<close>). A charger reports the last three NFC tags and vehicles it has seen; the tags, vehicles
  and users that are configured decide whose they are (\<^verbatim>\<open>charge_authorization.cpp\<close>, \<^verbatim>\<open>nfc.cpp\<close>, \<^verbatim>\<open>ev.cpp\<close>,
  \<^verbatim>\<open>users.cpp\<close>). The configuration is the record \<open>auth_env\<close>. The members of \<^verbatim>\<open>ChargerState\<close> that only this part
  uses are the record \<open>ChargerAuth\<close>; the current of the user is \<open>user_current\<close> of the charger.
\<close>

subsection \<open>Tags and vehicles\<close>

text \<open>The bytes of the union behind the time are kept as they are: type, length and up to 10 bytes of a tag, or the
  6 bytes of a MAC address.\<close>

record cm_auth_info =
  auth_method :: nat
  last_seen_s :: nat
  auth_data :: "byte list"

abbreviation (input) CMAuthType_NFC :: nat where "CMAuthType_NFC \<equiv> 2"
abbreviation (input) CMAuthType_InjectedNFC :: nat where "CMAuthType_InjectedNFC \<equiv> 3"
abbreviation (input) CMAuthType_EV :: nat where "CMAuthType_EV \<equiv> 4"
abbreviation (input) CMAuthType_InjectedEV :: nat where "CMAuthType_InjectedEV \<equiv> 5"

definition auth_info_differs :: "cm_auth_info \<Rightarrow> cm_auth_info \<Rightarrow> bool" where
  "auth_info_differs a b \<longleftrightarrow> auth_method a \<noteq> auth_method b \<or> last_seen_s a > last_seen_s b \<or> auth_data a \<noteq> auth_data b"

record tag_t =
  tag_type :: byte
  id_length :: byte
  id_bytes :: "byte list"

definition tag_eq :: "tag_t \<Rightarrow> tag_t \<Rightarrow> bool" where
  "tag_eq a b \<longleftrightarrow> tag_type a = tag_type b \<and> id_length a = id_length b
     \<and> take (unat (id_length a)) (id_bytes a) = take (unat (id_length a)) (id_bytes b)"

fun nfc_get_user_id :: "(nat \<times> tag_t) list \<Rightarrow> tag_t \<Rightarrow> int" where
  "nfc_get_user_id [] tag = - 1"
| "nfc_get_user_id ((user_id, t) # ts) tag =
    (if tag_eq t tag then (if user_id = 0 then - 1 else int user_id) else nfc_get_user_id ts tag)"

definition hex_nibble :: "char \<Rightarrow> nat option" where
  "hex_nibble c =
    (let n = of_char c :: nat in
     if of_char (CHR ''0'') \<le> n \<and> n \<le> of_char (CHR ''9'') then Some (n - of_char (CHR ''0''))
     else if of_char (CHR ''A'') \<le> n \<and> n \<le> of_char (CHR ''F'') then Some (n - of_char (CHR ''A'') + 10)
     else if of_char (CHR ''a'') \<le> n \<and> n \<le> of_char (CHR ''f'') then Some (n - of_char (CHR ''a'') + 10)
     else None)"

text \<open>One byte of a pattern with its mask, from its two digits; \<open>i\<close> is the number of bytes that are left.\<close>

definition parse_mac_byte :: "char \<Rightarrow> char \<Rightarrow> (byte \<times> byte) option" where
  "parse_mac_byte hi lo =
    (if (hi = CHR ''x'' \<or> hi = CHR ''X'') \<and> (lo = CHR ''x'' \<or> lo = CHR ''X'') then Some (0, 0)
     else case (hex_nibble hi, hex_nibble lo) of
       (Some h, Some l) \<Rightarrow> Some (of_nat (push_bit 4 h OR l), 0xFF)
     | _ \<Rightarrow> None)"

fun parse_mac_loop :: "nat \<Rightarrow> string \<Rightarrow> (byte \<times> byte) list option" where
  "parse_mac_loop 0 str = Some []"
| "parse_mac_loop (Suc i) str =
    (if i > 0 \<and> str ! 2 \<noteq> CHR '':'' then None
     else case parse_mac_byte (str ! 0) (str ! 1) of
       None \<Rightarrow> None
     | Some b \<Rightarrow> map_option (Cons b) (parse_mac_loop i (drop 3 str)))"

definition parse_mac :: "string \<Rightarrow> (byte \<times> byte) list option" where
  "parse_mac str = (if length str \<noteq> 17 then None else parse_mac_loop 6 str)"

definition mac_matches :: "byte list \<Rightarrow> (byte \<times> byte) list \<Rightarrow> bool" where
  "mac_matches mac pattern \<longleftrightarrow> list_all2 (\<lambda>m (p, mask). m AND mask = p AND mask) (take 6 mac) pattern"

text \<open>The vehicles are pairs of a pattern and a user; the first one that matches counts.\<close>

fun ev_get_user_id :: "(string \<times> nat) list \<Rightarrow> byte list \<Rightarrow> int" where
  "ev_get_user_id [] mac = - 1"
| "ev_get_user_id ((mac_str, user_id) # evs) mac =
    (if mac_str = [] then ev_get_user_id evs mac
     else case parse_mac mac_str of
       None \<Rightarrow> ev_get_user_id evs mac
     | Some pattern \<Rightarrow> if mac_matches mac pattern then int user_id else ev_get_user_id evs mac)"

subsection \<open>Users\<close>

record auth_env =
  env_users :: "(nat \<times> nat) list"
  env_tags :: "(nat \<times> tag_t) list"
  env_evs :: "(string \<times> nat) list"
  env_deadtime :: int
  env_central :: bool
  env_elapsed :: "int \<Rightarrow> int \<Rightarrow> bool"

definition get_user_current :: "auth_env \<Rightarrow> nat \<Rightarrow> nat" where
  "get_user_current env user_id = (case map_of (env_users env) user_id of Some c \<Rightarrow> c | None \<Rightarrow> 0)"

definition find_user :: "auth_env \<Rightarrow> cm_auth_info \<Rightarrow> int" where
  "find_user env info =
    (if auth_method info = CMAuthType_NFC \<or> auth_method info = CMAuthType_InjectedNFC
     then nfc_get_user_id (env_tags env) \<lparr>tag_type = auth_data info ! 0, id_length = auth_data info ! 1,
            id_bytes = drop 2 (auth_data info)\<rparr>
     else if auth_method info = CMAuthType_EV \<or> auth_method info = CMAuthType_InjectedEV
     then ev_get_user_id (env_evs env) (take 6 (auth_data info))
     else - 1)"

abbreviation (input) NOT_AUTHORIZED :: int where "NOT_AUTHORIZED \<equiv> - 1"
abbreviation (input) UNKNOWN_NFC_TAG :: int where "UNKNOWN_NFC_TAG \<equiv> - 2"
abbreviation (input) AUTHD_ANONYMOUSLY :: int where "AUTHD_ANONYMOUSLY \<equiv> 0"

record ChargerAuth =
  charger_uid :: nat
  last_send_was_urgent :: bool
  authenticated_user_id :: int
  last_auth_success_timestamp :: int
  last_auth_fail_timestamp :: int
  auth_infos :: "cm_auth_info list"

text \<open>The user id is handed over as a byte, also when it is -1.\<close>

definition set_user :: "auth_env \<Rightarrow> int \<Rightarrow> ChargerAuth \<times> 'f ChargerState \<Rightarrow> ChargerAuth \<times> 'f ChargerState" where
  "set_user env user = (\<lambda>(t, c). (t\<lparr>authenticated_user_id := user\<rparr>,
     c\<lparr>user_current := get_user_current env (nat (user mod 256))\<rparr>))"

definition on_auth_success ::
  "auth_env \<Rightarrow> int \<Rightarrow> ChargerAuth \<times> 'f ChargerState \<Rightarrow> bool \<times> ChargerAuth \<times> 'f ChargerState" where
  "on_auth_success env new_user_id tc =
    (let old = authenticated_user_id (fst tc) in
     if old = NOT_AUTHORIZED \<or> old = UNKNOWN_NFC_TAG then (True, set_user env new_user_id tc)
     else if old \<noteq> new_user_id then (False, tc)
     else (True, set_user env NOT_AUTHORIZED tc))"

text \<open>The loop over the tags, the newest one last; it ends with the first success.\<close>

fun auth_loop ::
  "auth_env \<Rightarrow> int \<Rightarrow> cm_auth_info list \<Rightarrow> int \<Rightarrow> ChargerAuth \<times> 'f ChargerState \<Rightarrow> int \<times> ChargerAuth \<times> 'f ChargerState" where
  "auth_loop env now [] latest_auth_fail tc = (latest_auth_fail, tc)"
| "auth_loop env now (info # infos) latest_auth_fail tc =
    (if last_seen_s info \<noteq> 0 \<and> last_seen_s info < 2 then
       let tag_auth = find_user env info;
           tag_auth = (if tag_auth = - 1 then UNKNOWN_NFC_TAG else tag_auth);
           seen_at = now - int (last_seen_s info) * 1000000;
           (ok, tc') = (if tag_auth \<ge> AUTHD_ANONYMOUSLY then on_auth_success env (tag_auth mod 256) tc else (False, tc))
       in if ok then (latest_auth_fail, (fst tc')\<lparr>last_auth_success_timestamp := seen_at\<rparr>, snd tc')
          else auth_loop env now infos (if tag_auth = UNKNOWN_NFC_TAG then seen_at else latest_auth_fail) tc'
     else auth_loop env now infos latest_auth_fail tc)"

definition unauthorize :: "ChargerAuth \<times> 'f ChargerState \<Rightarrow> ChargerAuth \<times> 'f ChargerState" where
  "unauthorize = (\<lambda>(t, c). (t\<lparr>authenticated_user_id := NOT_AUTHORIZED\<rparr>, c\<lparr>user_current := 0\<rparr>))"

definition note_auth_info :: "cm_auth_info list option \<Rightarrow> ChargerAuth \<Rightarrow> bool \<times> ChargerAuth" where
  "note_auth_info v5 t =
    (case v5 of
       None \<Rightarrow> (False, t\<lparr>auth_infos := replicate 3 \<lparr>auth_method = 0, last_seen_s = 0, auth_data = replicate 12 0\<rparr>\<rparr>)
     | Some infos \<Rightarrow> (auth_info_differs (auth_infos t ! 0) (infos ! 0), t\<lparr>auth_infos := infos\<rparr>))"

text \<open>The changes of user before tags are looked at: plugging out and expiry.\<close>

definition expire_auth ::
  "auth_env \<Rightarrow> int \<Rightarrow> 'f cm_state_v1 \<Rightarrow> ChargerAuth \<times> 'f ChargerState \<Rightarrow> ChargerAuth \<times> 'f ChargerState" where
  "expire_auth env now v1 tc =
    (let tc = (if v1_charger_state v1 = 0 \<and> charger_state (snd tc) \<noteq> 0
               then case unauthorize tc of (t, c) \<Rightarrow> (t\<lparr>last_auth_success_timestamp := - env_deadtime env\<rparr>, c)
               else tc);
         success = last_auth_success_timestamp (fst tc)
     in if success \<noteq> 0 \<and> env_elapsed env now (success + 30000000) \<and> v1_charger_state v1 = 0 then unauthorize tc else tc)"

definition update_authentication ::
  "auth_env \<Rightarrow> int \<Rightarrow> 'f cm_state_v1 \<Rightarrow> cm_auth_info list option \<Rightarrow> ChargerAuth \<times> 'f ChargerState
    \<Rightarrow> bool \<times> ChargerAuth \<times> 'f ChargerState" where
  "update_authentication env now v1 v5 tc =
    (let (auth_info_changed, t) = note_auth_info v5 (fst tc);
         tc = (t, snd tc)
     in if \<not> env_central env then (auth_info_changed, set_user env AUTHD_ANONYMOUSLY tc)
        else
          let tc = expire_auth env now v1 tc;
              success = last_auth_success_timestamp (fst tc)
          in if success \<noteq> 0 \<and> \<not> env_elapsed env now (success + env_deadtime env) then (auth_info_changed, tc)
             else case v5 of
               None \<Rightarrow> (auth_info_changed, tc)
             | Some infos \<Rightarrow>
                 let (latest_auth_fail, t, c) = auth_loop env now (rev infos) 0 tc
                 in (auth_info_changed,
                     if latest_auth_fail \<noteq> 0 then t\<lparr>last_auth_fail_timestamp := latest_auth_fail\<rparr> else t, c))"

text \<open>The command of the web interface; the result is the message of an error.\<close>

definition authorize_charger ::
  "auth_env \<Rightarrow> nat \<Rightarrow> nat \<Rightarrow> int \<Rightarrow> ChargerAuth list \<times> 'f ChargerState list
    \<Rightarrow> string + ChargerAuth list \<times> 'f ChargerState list" where
  "authorize_charger env n charger_idx user_id = (\<lambda>(ts, cs).
    if charger_idx \<ge> n then Inl ''Invalid charger index''
    else if \<not> env_central env then Inl ''Central authorization is not enabled''
    else if user_id \<le> 0 then Inl ''Invalid user ID''
    else case set_user env user_id (ts ! charger_idx, cs ! charger_idx) of
           (t, c) \<Rightarrow> Inr (ts[charger_idx := t], cs[charger_idx := c]))"

subsection \<open>Current only for an authorized user\<close>

text \<open>The current of a charger is the one of its user, and none without a user.\<close>

definition auth_synced :: "auth_env \<Rightarrow> ChargerAuth \<Rightarrow> 'f ChargerState \<Rightarrow> bool" where
  "auth_synced env t c \<longleftrightarrow> - 2 \<le> authenticated_user_id t \<and> user_current c
     = (if authenticated_user_id t < 0 then 0 else get_user_current env (nat (authenticated_user_id t mod 256)))"

definition fresh :: "cm_auth_info \<Rightarrow> bool" where
  "fresh info \<longleftrightarrow> last_seen_s info \<noteq> 0 \<and> last_seen_s info < 2"

lemma auth_synced_update [simp]:
  "auth_synced env (t\<lparr>last_auth_success_timestamp := x\<rparr>) c = auth_synced env t c"
  "auth_synced env (t\<lparr>last_auth_fail_timestamp := x\<rparr>) c = auth_synced env t c"
  "auth_synced env (t\<lparr>auth_infos := xs\<rparr>) c = auth_synced env t c"
  by (simp_all add: auth_synced_def)

lemma auth_synced_set_user:
  "0 \<le> u \<Longrightarrow> auth_synced env (fst (set_user env u tc)) (snd (set_user env u tc))"
  "get_user_current env 255 = 0 \<Longrightarrow> auth_synced env (fst (set_user env NOT_AUTHORIZED tc)) (snd (set_user env NOT_AUTHORIZED tc))"
  by (simp_all add: set_user_def auth_synced_def split_def)

lemma authenticated_set_user [simp]: "authenticated_user_id (fst (set_user env u tc)) = u"
  by (simp add: set_user_def split_def)

text \<open>What the loop over the tags does to the user, if anything: a known user gets in, or the user leaves.\<close>

lemma auth_loop_effect:
  assumes "auth_loop env now infos fail tc = (fail', tc')"
  shows "tc' = tc \<or> (\<exists>info \<in> set infos. \<exists>x. fresh info \<and> 0 \<le> find_user env info
    \<and> (authenticated_user_id (fst tc) \<in> {- 1, - 2} \<and> tc' = apfst (last_auth_success_timestamp_update (\<lambda>_. x))
          (set_user env (find_user env info mod 256) tc)
      \<or> authenticated_user_id (fst tc) = find_user env info mod 256
          \<and> tc' = apfst (last_auth_success_timestamp_update (\<lambda>_. x)) (set_user env NOT_AUTHORIZED tc)))"
  using assms
proof (induction infos arbitrary: fail)
  case (Cons info infos)
  let ?u = "find_user env info"
  show ?case
  proof (cases "fresh info \<and> 0 \<le> ?u \<and> fst (on_auth_success env (?u mod 256) tc)")
    case True
    then have "tc' = apfst (last_auth_success_timestamp_update (\<lambda>_. now - int (last_seen_s info) * 1000000))
        (snd (on_auth_success env (?u mod 256) tc))"
      using Cons.prems by (auto simp: fresh_def Let_def split_def apfst_def map_prod_def)
    moreover have "authenticated_user_id (fst tc) \<in> {- 1, - 2}
          \<and> snd (on_auth_success env (?u mod 256) tc) = set_user env (?u mod 256) tc
        \<or> authenticated_user_id (fst tc) = ?u mod 256
          \<and> snd (on_auth_success env (?u mod 256) tc) = set_user env NOT_AUTHORIZED tc"
      using True by (auto simp: on_auth_success_def Let_def split: if_splits)
    ultimately show ?thesis using True by auto
  next
    case False
    then obtain fail2 where "auth_loop env now infos fail2 tc = (fail', tc')"
      using Cons.prems by (auto simp: fresh_def Let_def split_def on_auth_success_def split: if_splits)
    then show ?thesis using Cons.IH[of fail2] by auto
  qed
qed simp

lemma expire_auth_effect:
  assumes "auth_synced env t c" and e: "expire_auth env now v1 (t, c) = (t1, c1)"
  shows "auth_synced env t1 c1" "authenticated_user_id t1 \<in> {authenticated_user_id t, - 1}"
    "v1_charger_state v1 \<noteq> 0 \<Longrightarrow> (t1, c1) = (t, c)"
    "v1_charger_state v1 = 0 \<Longrightarrow> charger_state c \<noteq> 0 \<Longrightarrow> authenticated_user_id t1 = - 1"
  using assms by (auto simp: expire_auth_def unauthorize_def Let_def auth_synced_def split: if_splits)

lemma authentication_cases:
  assumes "env_central env" and u: "update_authentication env now v1 v5 (t, c) = (changed, t', c')"
  obtains (same) t1 c1 xs where "expire_auth env now v1 (t\<lparr>auth_infos := xs\<rparr>, c) = (t1, c1)"
      "authenticated_user_id t' = authenticated_user_id t1" "\<And>env. auth_synced env t' c' = auth_synced env t1 c1" "c' = c1"
  | (tag) t1 c1 xs infos info where "expire_auth env now v1 (t\<lparr>auth_infos := xs\<rparr>, c) = (t1, c1)"
      "v5 = Some infos" "info \<in> set infos" "fresh info" "0 \<le> find_user env info"
      "authenticated_user_id t1 \<in> {- 1, - 2} \<and> authenticated_user_id t' = find_user env info mod 256
         \<and> auth_synced env t' c'
       \<or> authenticated_user_id t1 = find_user env info mod 256 \<and> authenticated_user_id t' = - 1
         \<and> (get_user_current env 255 = 0 \<longrightarrow> auth_synced env t' c')"
proof -
  obtain ch xs where n: "note_auth_info v5 t = (ch, t\<lparr>auth_infos := xs\<rparr>)"
    using that by (cases v5) (auto simp: note_auth_info_def)
  obtain t1 c1 where e: "expire_auth env now v1 (t\<lparr>auth_infos := xs\<rparr>, c) = (t1, c1)" by fastforce
  show thesis
  proof (cases "(last_auth_success_timestamp t1 \<noteq> 0
      \<and> \<not> env_elapsed env now (last_auth_success_timestamp t1 + env_deadtime env)) \<or> v5 = None")
    case True
    then have "(t', c') = (t1, c1)"
      using u n e assms(1) by (cases v5) (auto simp: update_authentication_def Let_def split: if_splits)
    then show thesis using same[OF e] by simp
  next
    case False
    then obtain infos where v5: "v5 = Some infos" by auto
    obtain fail t2 c2 where l: "auth_loop env now (rev infos) 0 (t1, c1) = (fail, t2, c2)" by (metis prod_cases3)
    have r: "t' = (if fail \<noteq> 0 then t2\<lparr>last_auth_fail_timestamp := fail\<rparr> else t2)" "c' = c2"
      using u n e assms(1) False l v5 by (auto simp: update_authentication_def Let_def)
    then have r': "authenticated_user_id t' = authenticated_user_id t2" "\<And>env. auth_synced env t' c' = auth_synced env t2 c2"
      by simp_all
    from auth_loop_effect[OF l] show thesis
    proof (elim disjE bexE exE conjE)
      assume "(t2, c2) = (t1, c1)"
      then show thesis using same[OF e] r r' by simp
    next
      fix info x
      assume i: "info \<in> set (rev infos)" "fresh info" "0 \<le> find_user env info"
        "authenticated_user_id (fst (t1, c1)) \<in> {- 1, - 2}"
        "(t2, c2) = apfst (last_auth_success_timestamp_update (\<lambda>_. x)) (set_user env (find_user env info mod 256) (t1, c1))"
      then have "authenticated_user_id t2 = find_user env info mod 256 \<and> auth_synced env t2 c2"
        using auth_synced_set_user(1)[of "find_user env info mod 256" env "(t1, c1)"]
        by (simp add: set_user_def)
      then show thesis by (intro tag[OF e v5 _ i(2,3)]) (use i(1,4) r' in auto)
    next
      fix info x
      assume i: "info \<in> set (rev infos)" "fresh info" "0 \<le> find_user env info"
        "authenticated_user_id (fst (t1, c1)) = find_user env info mod 256"
        "(t2, c2) = apfst (last_auth_success_timestamp_update (\<lambda>_. x)) (set_user env NOT_AUTHORIZED (t1, c1))"
      then have "authenticated_user_id t2 = - 1 \<and> (get_user_current env 255 = 0 \<longrightarrow> auth_synced env t2 c2)"
        using auth_synced_set_user(2)[of env "(t1, c1)"] by (simp add: set_user_def)
      then show thesis by (intro tag[OF e v5 _ i(2,3)]) (use i(1,4) r' in auto)
    qed
  qed
qed


definition demo_env :: auth_env where
  "demo_env = \<lparr>env_users = [(1, 16000)],
     env_tags = [(1, \<lparr>tag_type = 0, id_length = 4, id_bytes = [1, 2, 3, 4, 0, 0, 0, 0, 0, 0]\<rparr>)], env_evs = [],
     env_deadtime = 30000000, env_central = True, env_elapsed = (\<lambda>now deadline. deadline < now)\<rparr>"

definition demo_auth :: ChargerAuth where
  "demo_auth = \<lparr>charger_uid = 7, last_send_was_urgent = False, authenticated_user_id = - 1,
     last_auth_success_timestamp = 0, last_auth_fail_timestamp = 0,
     auth_infos = replicate 3 \<lparr>auth_method = 0, last_seen_s = 0, auth_data = replicate 12 0\<rparr>\<rparr>"

definition demo_infos :: "cm_auth_info list" where
  "demo_infos = [\<lparr>auth_method = CMAuthType_NFC, last_seen_s = 1, auth_data = [0, 4, 1, 2, 3, 4, 0, 0, 0, 0, 0, 0]\<rparr>,
     \<lparr>auth_method = 0, last_seen_s = 0, auth_data = replicate 12 0\<rparr>, \<lparr>auth_method = 0, last_seen_s = 0, auth_data = replicate 12 0\<rparr>]"

lemma demo_authenticated:
  "update_authentication demo_env 1000000000 demo_packet (Some demo_infos) (demo_auth, demo_charger\<lparr>user_current := 0\<rparr>)
   = (True, demo_auth\<lparr>authenticated_user_id := 1, last_auth_success_timestamp := 999000000, auth_infos := demo_infos\<rparr>,
       demo_charger\<lparr>user_current := 16000\<rparr>)"
  by (simp add: update_authentication_def note_auth_info_def expire_auth_def unauthorize_def auth_info_differs_def demo_env_def
      demo_auth_def demo_infos_def demo_packet_def demo_charger_def find_user_def tag_eq_def on_auth_success_def set_user_def
      get_user_current_def)


text \<open>With a user 255 the end of an authorization leaves the current of this user, although no user is authorized.\<close>

lemma user_255_after_deauthorization:
  assumes "0 \<le> u" "authenticated_user_id t = u" "on_auth_success env u (t, c) = (ok, t', c')"
  shows "authenticated_user_id t' = NOT_AUTHORIZED" "user_current c' = get_user_current env 255"
  using assms by (auto simp: on_auth_success_def set_user_def)

end
