(* ===== verification/Charge_Events.thy ===== *)
theory Charge_Events
  imports Charge_Auth
begin

section \<open>Charge manager: packets, commands and tasks\<close>

text \<open>
  The charge manager reacts to packets of the chargers, to commands of the web interface and to timers
  (\<^verbatim>\<open>start_manager_task\<close>, \<^verbatim>\<open>setup\<close> and \<^verbatim>\<open>register_urls\<close> of \<^verbatim>\<open>charge_manager.cpp\<close>). All of this runs in one
  task, so each reaction is one function of the state \<open>System\<close>. The charge tracker, which keeps the records on
  flash, is a parameter with its own state.
\<close>

subsection \<open>State\<close>

text \<open>The key of a charger is its UID, or nothing for the charger the manager runs on.\<close>

record ('f, 'w) tracker_ops =
  tr_current :: "nat option \<Rightarrow> 'w \<Rightarrow> nat option"
  tr_start :: "nat option \<Rightarrow> int \<Rightarrow> 'f \<Rightarrow> int \<Rightarrow> nat \<Rightarrow> 'w \<Rightarrow> 'w"
  tr_end :: "nat option \<Rightarrow> int \<Rightarrow> 'f \<Rightarrow> 'w \<Rightarrow> 'w"

record ('f, 'w) System =
  sys_mgr :: "'f ChargeManager"
  sys_auth :: "ChargerAuth list"
  pm_default_charge_mode :: ConfigChargeMode
  pm_charge_mode :: ConfigChargeMode
  all_chargers_seen :: bool
  allocator_scheduled :: bool
  auth_info_chargers_seen :: u64
  auth_info_changed :: bool
  auth_changed :: bool
  override_next_client_send :: int
  next_client_send :: nat
  last_allocator_run_override :: int
  firmware_vehicle_connected :: bool
  sys_tracker :: 'w

abbreviation (input) sys_count :: "('f, 'w) System \<Rightarrow> nat" where
  "sys_count s \<equiv> cfg_charger_count (cm_config (sys_mgr s))"

definition set_charger :: "nat \<Rightarrow> ChargerAuth \<times> 'f ChargerState \<Rightarrow> ('f, 'w) System \<Rightarrow> ('f, 'w) System" where
  "set_charger i tc s = s\<lparr>sys_auth := (sys_auth s)[i := fst tc],
     sys_mgr := (sys_mgr s)\<lparr>cm_chargers := (cm_chargers (sys_mgr s))[i := snd tc]\<rparr>\<rparr>"

subsection \<open>Charge modes\<close>

definition get_default_mode :: "('f, 'w) System \<Rightarrow> ConfigChargeMode" where
  "get_default_mode s =
    (if pm_default_charge_mode s \<noteq> ModeDefault then pm_default_charge_mode s else pm_charge_mode s)"

definition config_mode_of_code :: "nat \<Rightarrow> ConfigChargeMode option" where
  "config_mode_of_code n = map_of (enumerate 0 [ModeFast, ModeOff, ModePV, ModeMinPV, ModeDefault, ModeMin, ModeEco,
     ModeEcoPV, ModeEcoMin, ModeEcoMinPV]) n"

text \<open>A number that is no mode falls through the cases of \<^verbatim>\<open>config_cm_to_cm\<close> and turns the charger off.\<close>

definition update_charge_mode ::
  "ConfigChargeMode \<Rightarrow> 'f cm_state_v1 \<Rightarrow> nat option \<Rightarrow> 'f ChargerState \<Rightarrow> 'f ChargerState option" where
  "update_charge_mode default_mode v1 v4 c =
    Option.bind
      (case v4 of
         None \<Rightarrow> Some c
       | Some code \<Rightarrow>
           if config_mode_of_code code = Some ModeDefault then Some c
           else map_option (\<lambda>m. c\<lparr>charge_mode := m\<rparr>)
                  (case config_mode_of_code code of None \<Rightarrow> Some 0 | Some mode \<Rightarrow> config_cm_to_cm default_mode mode))
      (\<lambda>c. if v1_charger_state v1 = 0 \<and> charger_state c \<noteq> 0
           then map_option (\<lambda>m. c\<lparr>charge_mode := m\<rparr>) (config_cm_to_cm default_mode ModeDefault)
           else Some c)"

text \<open>The mode that is restored at startup. The condition on the restored mode is the one of the code.\<close>

definition restore_charge_mode :: "ConfigChargeMode \<Rightarrow> ConfigChargeMode option \<Rightarrow> ConfigChargeMode" where
  "restore_charge_mode pm_default restored =
    (if pm_default = ModeDefault then
       let mode = (case restored of Some m \<Rightarrow> m | None \<Rightarrow> ModeFast)
       in if restored \<noteq> None then ModeFast else mode
     else pm_default)"

definition charge_modes_command :: "(nat \<Rightarrow> ConfigChargeMode) \<Rightarrow> ('f, 'w) System \<Rightarrow> ('f, 'w) System option" where
  "charge_modes_command modes s =
    (let new = map (\<lambda>i. config_cm_to_cm (get_default_mode s) (modes i)) [0..<sys_count s] in
     if list_all (\<lambda>m. m \<noteq> None) new
     then Some (s\<lparr>sys_mgr := (sys_mgr s)\<lparr>cm_chargers :=
            map2 (\<lambda>m c. c\<lparr>charge_mode := the m\<rparr>) new (cm_chargers (sys_mgr s))\<rparr>\<rparr>)
     else None)"

definition charge_mode_command :: "ConfigChargeMode \<Rightarrow> ('f, 'w) System \<Rightarrow> ('f, 'w) System option" where
  "charge_mode_command new_ccm s =
    (let mode_is_persistent = (pm_default_charge_mode s = ModeDefault) in
     if new_ccm = ModeDefault \<and> mode_is_persistent then Some s
     else
       let new_ccm = (if new_ccm = ModeDefault then pm_default_charge_mode s else new_ccm) in
       charge_modes_command (\<lambda>_. new_ccm) (s\<lparr>pm_charge_mode := new_ccm\<rparr>))"

definition update_supported_charge_modes :: "bool \<Rightarrow> bool \<Rightarrow> ConfigChargeMode list" where
  "update_supported_charge_modes has_pv has_eco =
    (if \<not> has_pv \<and> has_eco then [ModeOff, ModeEco, ModeEcoMin, ModeFast]
     else if has_pv \<and> has_eco then [ModeOff, ModePV, ModeEcoPV, ModeFast]
     else if has_pv then [ModeOff, ModePV, ModeMinPV, ModeFast]
     else [ModeOff, ModeFast])"

text \<open>The modes as the bits of two bytes, numbered as in \<open>config_mode_of_code\<close>.\<close>

fun config_mode_code :: "ConfigChargeMode \<Rightarrow> nat" where
  "config_mode_code ModeFast = 0"
| "config_mode_code ModeOff = 1"
| "config_mode_code ModePV = 2"
| "config_mode_code ModeMinPV = 3"
| "config_mode_code ModeDefault = 4"
| "config_mode_code ModeMin = 5"
| "config_mode_code ModeEco = 6"
| "config_mode_code ModeEcoPV = 7"
| "config_mode_code ModeEcoMin = 8"
| "config_mode_code ModeEcoMinPV = 9"

fun supported_bitmask :: "ConfigChargeMode list \<Rightarrow> byte list \<Rightarrow> byte list" where
  "supported_bitmask [] bytes = bytes"
| "supported_bitmask (m # ms) bytes =
    (let mode = config_mode_code m
     in supported_bitmask ms (bytes[mode div 8 := bytes ! (mode div 8) OR push_bit (mode mod 8) 1]))"

lemma config_mode_code_inverse: "config_mode_of_code (config_mode_code m) = Some m"
  by (cases m) (simp_all add: config_mode_of_code_def)

lemma supported_bitmask_exact:
  "bit (supported_bitmask (update_supported_charge_modes has_pv has_eco) [0, 0] ! (config_mode_code m div 8)) (config_mode_code m mod 8)
    \<longleftrightarrow> m \<in> set (update_supported_charge_modes has_pv has_eco)"
  by (cases has_pv; cases has_eco; cases m; simp add: update_supported_charge_modes_def bit_simps)

lemma persistent_mode_is_lost: "restore_charge_mode ModeDefault (Some m) = ModeFast"
  by (simp add: restore_charge_mode_def)

subsection \<open>Packets of the chargers\<close>

text \<open>Charges are recorded for the user that is authorized. After a restart the record of a charge that still runs
  gives the user back.\<close>

definition tracker_key :: "nat \<Rightarrow> nat \<Rightarrow> nat option" where
  "tracker_key own_uid uid = (if uid = own_uid then None else Some uid)"

definition resume_tracking ::
  "auth_env \<Rightarrow> ('f, 'w) tracker_ops \<Rightarrow> nat \<Rightarrow> 'f cm_state_v1 \<Rightarrow> 'w \<times> ChargerAuth \<times> 'f ChargerState
    \<Rightarrow> 'w \<times> ChargerAuth \<times> 'f ChargerState" where
  "resume_tracking env tr own_uid v1 = (\<lambda>(w, t, c).
    if last_update c \<noteq> 0 then (w, t, c)
    else let key = tracker_key own_uid (charger_uid t) in
      case tr_current tr key w of
        None \<Rightarrow> (w, t, c)
      | Some user \<Rightarrow>
          if v1_charger_state v1 \<noteq> 0 \<and> (authenticated_user_id t < 0 \<or> authenticated_user_id t = int user)
          then (w, set_user env (int user) (t, c))
          else (tr_end tr key 0 (v1_energy_abs v1) w, t, c))"

definition update_charge_tracking ::
  "auth_env \<Rightarrow> ('f, 'w) tracker_ops \<Rightarrow> nat \<Rightarrow> int \<Rightarrow> int \<Rightarrow> 'f cm_state_v1 \<Rightarrow> 'w \<times> ChargerAuth \<times> 'f ChargerState
    \<Rightarrow> 'w \<times> ChargerAuth \<times> 'f ChargerState" where
  "update_charge_tracking env tr own_uid minutes now v1 wtc =
    (if \<not> env_central env then wtc
     else
       let (w, t, c) = resume_tracking env tr own_uid v1 wtc;
           key = tracker_key own_uid (charger_uid t);
           w = (if v1_charger_state v1 \<noteq> 0 \<and> authenticated_user_id t \<noteq> NOT_AUTHORIZED
                   \<and> authenticated_user_id t \<noteq> UNKNOWN_NFC_TAG \<and> tr_current tr key w = None
                then tr_start tr key minutes (v1_energy_abs v1) (authenticated_user_id t) (v1_evse_uptime v1) w else w);
           w = (if v1_charger_state v1 = 0 \<and> tr_current tr key w \<noteq> None
                then tr_end tr key ((now - last_plug_in c) sdiv 1000000) (v1_energy_abs v1) w else w)
       in (w, t, c))"

definition CM_FEATURE_FLAGS_URGENT_IS_SET :: "nat \<Rightarrow> bool" where
  "CM_FEATURE_FLAGS_URGENT_IS_SET flags \<longleftrightarrow> flags AND 2 ^ 31 \<noteq> 0"

definition CM_FEATURE_FLAGS_REQUEST_REALLOCATION_IS_SET :: "nat \<Rightarrow> bool" where
  "CM_FEATURE_FLAGS_REQUEST_REALLOCATION_IS_SET flags \<longleftrightarrow> flags AND 2 ^ 30 \<noteq> 0"

text \<open>The task itself is a step of its own; it only gets rescheduled here.\<close>

definition trigger_allocator_run :: "auth_env \<Rightarrow> int \<Rightarrow> bool \<Rightarrow> ('f, 'w) System \<Rightarrow> ('f, 'w) System" where
  "trigger_allocator_run env now force s =
    (if \<not> force \<and> \<not> env_elapsed env now (last_allocator_run_override s + 5000000) then s
     else s\<lparr>last_allocator_run_override := now\<rparr>)"

text \<open>Changes of the authentication infos are reported once all chargers have sent a packet.\<close>

definition collect_auth_changes :: "nat \<Rightarrow> bool \<Rightarrow> ('f, 'w) System \<Rightarrow> ('f, 'w) System" where
  "collect_auth_changes i changed s =
    (let changed = (auth_info_changed s \<or> changed);
         seen = auth_info_chargers_seen s OR push_bit i 1;
         all_chargers_mask = (if sys_count s = 64 then - 1 else push_bit (sys_count s) 1 - 1)
     in if seen = all_chargers_mask
        then s\<lparr>auth_changed := changed, auth_info_changed := False, auth_info_chargers_seen := 0\<rparr>
        else s\<lparr>auth_info_changed := changed, auth_info_chargers_seen := seen\<rparr>)"

record 'f client_packet =
  pkt_v1 :: "'f cm_state_v1"
  pkt_v2 :: "cm_state_v2 option"
  pkt_v3 :: "cm_state_v3 option"
  pkt_v4 :: "nat option"
  pkt_v5 :: "cm_auth_info list option"

text \<open>What the packet says about the charger itself, once mode and user are known.\<close>

definition take_over_packet :: "'f float_ops \<Rightarrow> int \<Rightarrow> nat \<Rightarrow> 'f client_packet \<Rightarrow> ('f, 'w) System \<Rightarrow> ('f, 'w) System" where
  "take_over_packet fo now i p s =
    (case update_from_client_packet fo now i (pkt_v1 p) (pkt_v2 p) (pkt_v3 p) (cm_config (sys_mgr s))
            (cm_chargers (sys_mgr s)) (cm_allocs (sys_mgr s)) (firmware_vehicle_connected s) of
       (chargers, allocs, fw) \<Rightarrow> s\<lparr>sys_mgr := (sys_mgr s)\<lparr>cm_chargers := chargers, cm_allocs := allocs,
         fast_charger_in_c := (fast_charger_in_c (sys_mgr s) \<or> fast_in_c (chargers ! i))\<rparr>,
         firmware_vehicle_connected := fw\<rparr>)"

definition note_urgent :: "nat \<Rightarrow> 'f cm_state_v1 \<Rightarrow> ('f, 'w) System \<Rightarrow> ('f, 'w) System" where
  "note_urgent i v1 s =
    (if CM_FEATURE_FLAGS_URGENT_IS_SET (v1_feature_flags v1) \<and> \<not> last_send_was_urgent (sys_auth s ! i)
     then s\<lparr>sys_auth := (sys_auth s)[i := (sys_auth s ! i)\<lparr>last_send_was_urgent := True\<rparr>],
            override_next_client_send := int i\<rparr>
     else s)"

definition on_client_update ::
  "auth_env \<Rightarrow> ('f, 'w) tracker_ops \<Rightarrow> 'f float_ops \<Rightarrow> nat \<Rightarrow> int \<Rightarrow> int \<Rightarrow> nat \<Rightarrow> 'f client_packet
    \<Rightarrow> ('f, 'w) System \<Rightarrow> ('f, 'w) System option" where
  "on_client_update env tr fo own_uid minutes now i p s =
    (let v1 = pkt_v1 p; (stale, allocs) = is_packet_stale now i v1 (cm_chargers (sys_mgr s)) (cm_allocs (sys_mgr s)) in
     if stale then Some (s\<lparr>sys_mgr := (sys_mgr s)\<lparr>cm_allocs := allocs\<rparr>\<rparr>)
     else
       let t = (sys_auth s ! i)\<lparr>charger_uid := v1_esp32_uid v1\<rparr> in
       map_option
         (\<lambda>c. let (changed, tc) = update_authentication env now v1 (pkt_v5 p) (t, c);
                  s = collect_auth_changes i changed s;
                  (w, tc) = update_charge_tracking env tr own_uid minutes now v1 (sys_tracker s, tc);
                  s = take_over_packet fo now i p (set_charger i tc (s\<lparr>sys_tracker := w\<rparr>));
                  s = note_urgent i v1 s
              in if CM_FEATURE_FLAGS_REQUEST_REALLOCATION_IS_SET (v1_feature_flags v1)
                 then trigger_allocator_run env now False s else s)
         (update_charge_mode (get_default_mode s) v1 (pkt_v4 p) (cm_chargers (sys_mgr s) ! i)))"

definition on_client_error :: "nat \<Rightarrow> nat \<Rightarrow> ('f, 'w) System \<Rightarrow> ('f, 'w) System" where
  "on_client_error i error s = s\<lparr>sys_mgr := (sys_mgr s)\<lparr>cm_allocs := (cm_allocs (sys_mgr s))[i :=
     (cm_allocs (sys_mgr s) ! i)\<lparr>cas_state := CASStateError, cas_error := error\<rparr>]\<rparr>\<rparr>"

subsection \<open>Packets to the chargers\<close>

datatype CMAuthFeedback = FeedbackNone | FeedbackNack | FeedbackNag | FeedbackAck

record manager_update =
  upd_client :: nat
  upd_ignore_allocation :: bool
  upd_current :: nat
  upd_cp_disconnect :: bool
  upd_phases :: nat
  upd_charge_mode :: ConfigChargeMode
  upd_auth_feedback :: CMAuthFeedback
  upd_central :: bool

definition auth_feedback :: "auth_env \<Rightarrow> int \<Rightarrow> ChargerAuth \<Rightarrow> 'f ChargerState \<Rightarrow> CMAuthFeedback" where
  "auth_feedback env now t c =
    (if \<not> env_central env then FeedbackNone
     else if \<not> env_elapsed env now (last_auth_success_timestamp t + 2000000) then FeedbackAck
     else if \<not> env_elapsed env now (last_auth_fail_timestamp t + 2000000) then FeedbackNack
     else if charger_state c = 1 \<and> authenticated_user_id t = NOT_AUTHORIZED then FeedbackNag
     else FeedbackNone)"

text \<open>A charger that was never seen is told to ignore the allocation.\<close>

definition send_client_packet :: "auth_env \<Rightarrow> int \<Rightarrow> nat \<Rightarrow> ('f, 'w) System \<Rightarrow> manager_update" where
  "send_client_packet env now i s =
    (let a = cm_allocs (sys_mgr s) ! i; c = cm_chargers (sys_mgr s) ! i;
         u = \<lparr>upd_client = i, upd_ignore_allocation = False, upd_current = allocated_current a,
               upd_cp_disconnect = cp_disconnect a, upd_phases = allocated_phases a,
               upd_charge_mode = cm_to_config_cm (charge_mode c),
               upd_auth_feedback = auth_feedback env now (sys_auth s ! i) c, upd_central = env_central env\<rparr>
     in if \<not> all_chargers_seen s \<or> last_update c = 0
        then u\<lparr>upd_ignore_allocation := True, upd_charge_mode := ModeDefault, upd_current := 65535,
               upd_cp_disconnect := False, upd_phases := 0\<rparr>
        else u)"

text \<open>The task that sends: what it sends, and its state afterwards if \<open>sent\<close> is the result of the network.\<close>

definition send_task ::
  "auth_env \<Rightarrow> int \<Rightarrow> (manager_update \<Rightarrow> bool) \<Rightarrow> ('f, 'w) System \<Rightarrow> manager_update \<times> ('f, 'w) System" where
  "send_task env now sent s =
    (if override_next_client_send s \<noteq> - 1 then
       let u = send_client_packet env now (nat (override_next_client_send s mod 256)) s
       in (u, if sent u then s\<lparr>override_next_client_send := - 1\<rparr> else s)
     else
       let i = next_client_send s;
           s = s\<lparr>sys_auth := (sys_auth s)[i := (sys_auth s ! i)\<lparr>last_send_was_urgent := False\<rparr>]\<rparr>;
           u = send_client_packet env now i s
       in (u, if sent u then s\<lparr>next_client_send := (if i + 1 \<ge> sys_count s then 0 else i + 1)\<rparr> else s))"

subsection \<open>Startup, timers and commands\<close>

text \<open>After 30 seconds the manager no longer waits; chargers it has not seen get the default mode.\<close>

definition seen_all_chargers :: "int \<Rightarrow> ('f, 'w) System \<Rightarrow> (bool \<times> ('f, 'w) System) option" where
  "seen_all_chargers now s =
    (if now > 30000000 then
       map_option
         (\<lambda>m. (True, s\<lparr>sys_mgr := (sys_mgr s)\<lparr>cm_chargers :=
            map (\<lambda>c. if last_update c \<noteq> 0 then c else c\<lparr>charge_mode := m\<rparr>) (cm_chargers (sys_mgr s))\<rparr>\<rparr>))
         (config_cm_to_cm (get_default_mode s) (get_default_mode s))
     else Some (list_all (\<lambda>c. last_update c \<noteq> 0) (cm_chargers (sys_mgr s)), s))"

definition wait_for_chargers :: "int \<Rightarrow> ('f, 'w) System \<Rightarrow> ('f, 'w) System option" where
  "wait_for_chargers now s =
    map_option (\<lambda>(seen, s). s\<lparr>all_chargers_seen := seen, sys_mgr := adopt_reported (sys_mgr s), allocator_scheduled := seen\<rparr>)
      (seen_all_chargers now s)"

definition available_current_update :: "int \<Rightarrow> ('f, 'w) System \<Rightarrow> ('f, 'w) System" where
  "available_current_update current s =
    (let limits = cm_limits (sys_mgr s);
         set = (\<lambda>c. Cost (pv c) current current current)
     in s\<lparr>sys_mgr := (sys_mgr s)\<lparr>cm_limits := limits\<lparr>lim_raw := set (lim_raw limits), lim_min := set (lim_min limits),
          lim_spread := set (lim_spread limits)\<rparr>\<rparr>\<rparr>)"

definition authorize_charger_command :: "auth_env \<Rightarrow> nat \<Rightarrow> int \<Rightarrow> ('f, 'w) System \<Rightarrow> string + ('f, 'w) System" where
  "authorize_charger_command env i user_id s =
    (case authorize_charger env (sys_count s) i user_id (sys_auth s, cm_chargers (sys_mgr s)) of
       Inl e \<Rightarrow> Inl e
     | Inr (ts, cs) \<Rightarrow> Inr (s\<lparr>sys_auth := ts, sys_mgr := (sys_mgr s)\<lparr>cm_chargers := cs\<rparr>\<rparr>))"

definition enable_fast_single_charger_mode :: "bool \<Rightarrow> ('f, 'w) System \<Rightarrow> ('f, 'w) System" where
  "enable_fast_single_charger_mode enabled s =
    (if \<not> enabled then s
     else if sys_count s \<noteq> 1 then s
     else s\<lparr>sys_mgr := (sys_mgr s)\<lparr>cm_config := (cm_config (sys_mgr s))\<lparr>allocation_interval := 5000000\<rparr>\<rparr>\<rparr>)"

definition run_allocator_task ::
  "'f float_ops \<Rightarrow> (int \<times> int) option \<Rightarrow> int \<Rightarrow> nat \<Rightarrow> (nat \<Rightarrow> bool) \<Rightarrow> bool \<Rightarrow> ('f, 'w) System \<Rightarrow> ('f, 'w) System" where
  "run_allocator_task fo clock now p14_w eco cpd s = s\<lparr>sys_mgr := run_allocator fo clock now p14_w eco cpd (sys_mgr s)\<rparr>"

text \<open>\<^verbatim>\<open>setup\<close> allocates the chargers zeroed and sets what is not zero; \<^verbatim>\<open>register_urls\<close> sets the modes.\<close>

definition new_charger :: "'f float_ops \<Rightarrow> 'f CurrentAllocatorConfig \<Rightarrow> nat \<Rightarrow> CMPhaseRotation \<Rightarrow> 'f ChargerState" where
  "new_charger fo cfg mode rot = \<lparr>last_update = 0, uptime = 0, power_total_count = 0, power_total_sum = f_of_int fo 0,
     energy_abs = f_of_int fo 0, supported_current = 0, allowed_current = 0, requested_current = 0, user_current = 0,
     charger_state = 0, wants_to_charge = False, wants_to_charge_low_priority = False, is_charging = False,
     cp_disconnect_supported = False, cp_disconnect_state = False, meter_supported = False,
     phase_switch_supported = False, currently_switching_phases = False, phases = 0,
     phase_rotation = convert_phase_rotation rot, allocated_energy = f_of_int fo 0,
     allocated_average_power = f_of_int fo 0, last_switch_on = 0, last_phase_switch = - global_hysteresis cfg,
     just_plugged_in_timestamp = 0, last_plug_in = 0, last_plug_out = 0, last_wakeup = 0, use_supported_current = 0,
     time_in_state_c = 0, charge_mode = mode, off = False, observe_pv_limit = False, eco_fast = False,
     guaranteed_pv_current = 0\<rparr>"

definition new_alloc :: ChargerAllocationState where
  "new_alloc = \<lparr>last_sent_config = 0, allocated_current = 0, allocated_phases = 0, cp_disconnect = False,
     cas_error = CASError_OK, cas_state = NoVehicle\<rparr>"

definition new_auth :: ChargerAuth where
  "new_auth = \<lparr>charger_uid = 0, last_send_was_urgent = False, authenticated_user_id = NOT_AUTHORIZED,
     last_auth_success_timestamp = 0, last_auth_fail_timestamp = 0,
     auth_infos = replicate 3 \<lparr>auth_method = 0, last_seen_s = 0, auth_data = replicate 12 0\<rparr>\<rparr>"

definition start_limits :: "int \<Rightarrow> CurrentLimits" where
  "start_limits current = \<lparr>min_expiration_ts = (\<lambda>_. 0), max_pv_expiration_ts = 0, lim_raw = Cost 0 current current current,
     lim_min = Cost 0 current current current, lim_spread = Cost 0 current current current, lim_max_pv = 0\<rparr>"

definition setup_system ::
  "'f float_ops \<Rightarrow> 'f CurrentAllocatorConfig \<Rightarrow> CMPhaseRotation list \<Rightarrow> int \<Rightarrow> int \<Rightarrow> ConfigChargeMode
    \<Rightarrow> ConfigChargeMode option \<Rightarrow> 'w \<Rightarrow> ('f, 'w) System option" where
  "setup_system fo cfg rots default_current guaranteed_pv pm_default restored w =
    (let mode = restore_charge_mode pm_default restored;
         cfg = cfg\<lparr>cfg_charger_count := length rots\<rparr>
     in map_option
          (\<lambda>m. \<lparr>sys_mgr = \<lparr>cm_limits = start_limits default_current, cm_limits_post = start_limits 0,
                  cm_guaranteed_pv_current = guaranteed_pv, cm_config = cfg, cm_chargers = map (new_charger fo cfg m) rots,
                  cm_ca_state = \<lparr>global_hysteresis_elapsed = False, last_hysteresis_reset = 0, next_rotation = 0,
                    control_window_min = Cost 0 0 0 0, control_window_max = Cost 0 0 0 0\<rparr>,
                  cm_allocs = replicate (length rots) new_alloc,
                  cm_decisions = replicate (length rots)
                    \<lparr>d_zero = ZeroNone, d_one = OneNone, d_three = ThreeNone, d_current = CurNone\<rparr>,
                  cm_state_alloc = Cost 0 0 0 0, cm_state_result = 1, fast_charger_in_c = False\<rparr>,
                sys_auth = replicate (length rots) new_auth, pm_default_charge_mode = pm_default, pm_charge_mode = mode,
                all_chargers_seen = False, allocator_scheduled = False, auth_info_chargers_seen = 0,
                auth_info_changed = False, auth_changed = False, override_next_client_send = 0, next_client_send = 0,
                last_allocator_run_override = 0, firmware_vehicle_connected = False, sys_tracker = w\<rparr>)
          (config_cm_to_cm (if pm_default \<noteq> ModeDefault then pm_default else mode) mode))"

end
