(* ===== verification/Charge_System.thy ===== *)
theory Charge_System
  imports Charge_Events
begin

section \<open>Charge manager: all reactions together\<close>

text \<open>
  The reactions of the charge manager as one step relation, and what holds after any sequence of them: the conditions
  the properties of a run need are an invariant, so the limits are respected and the chargers without authorization
  are stopped in every run. Tags, vehicles and users may change between the steps; who may charge is decided with
  central management, or at the chargers, once and for all.
\<close>

subsection \<open>Invariant\<close>

definition place_ok :: "bool \<Rightarrow> ChargerAuth \<Rightarrow> 'f ChargerState \<Rightarrow> ChargerAllocationState \<Rightarrow> bool" where
  "place_ok central t c a \<longleftrightarrow> charger_ok c \<and> allocated_phases a \<in> {0, 1, 3}
    \<and> (central \<and> authenticated_user_id t < 0 \<longrightarrow> user_current c = 0 \<and> \<not> willing c)"

definition sys_ok :: "'f float_ops \<Rightarrow> bool \<Rightarrow> ('f, 'w) System \<Rightarrow> bool" where
  "sys_ok fo central s \<longleftrightarrow> config_ok fo (cm_config (sys_mgr s)) \<and> length (cm_chargers (sys_mgr s)) = sys_count s
    \<and> length (cm_allocs (sys_mgr s)) = sys_count s \<and> length (sys_auth s) = sys_count s \<and> get_default_mode s \<noteq> ModeDefault
    \<and> (\<forall>i < sys_count s. place_ok central (sys_auth s ! i) (cm_chargers (sys_mgr s) ! i) (cm_allocs (sys_mgr s) ! i))"

lemma sys_ok_manager: "sys_ok fo central s \<Longrightarrow> manager_ok fo (sys_mgr s)"
  by (simp add: sys_ok_def manager_ok_def inputs_ok_def list_all_length place_ok_def)

definition env_ok :: "bool \<Rightarrow> auth_env \<Rightarrow> bool" where
  "env_ok central env \<longleftrightarrow> env_central env = central \<and> (\<forall>u. get_user_current env u < 2 ^ 16)
    \<and> get_user_current env 255 = 0"

text \<open>A charger has one or three phases, or none yet; two are not used.\<close>

definition packet_ok :: "'f client_packet \<Rightarrow> bool" where
  "packet_ok p \<longleftrightarrow> (case pkt_v3 p of None \<Rightarrow> True | Some v3 \<Rightarrow> CM_STATE_V3_PHASES_CONNECTED_GET (v3_phases v3) \<noteq> 2)"

subsection \<open>Steps\<close>

inductive reaction ::
  "'f float_ops \<Rightarrow> ('f, 'w) tracker_ops \<Rightarrow> nat \<Rightarrow> bool \<Rightarrow> ('f, 'w) System \<Rightarrow> ('f, 'w) System \<Rightarrow> bool"
  for fo tr own_uid central where
  packet: "env_ok central env \<Longrightarrow> packet_ok p \<Longrightarrow> i < sys_count s
    \<Longrightarrow> on_client_update env tr fo own_uid minutes now i p s = Some s' \<Longrightarrow> reaction fo tr own_uid central s s'"
| error: "reaction fo tr own_uid central s (on_client_error i e s)"
| wait: "\<not> allocator_scheduled s \<Longrightarrow> wait_for_chargers now s = Some s' \<Longrightarrow> reaction fo tr own_uid central s s'"
| run: "allocator_scheduled s
    \<Longrightarrow> reaction fo tr own_uid central s (run_allocator_task fo clock now p14_w eco cpd s)"
| modes: "charge_modes_command ms s = Some s' \<Longrightarrow> reaction fo tr own_uid central s s'"
| mode: "charge_mode_command m s = Some s' \<Longrightarrow> reaction fo tr own_uid central s s'"
| authorize: "env_ok central env \<Longrightarrow> authorize_charger_command env i user_id s = Inr s'
    \<Longrightarrow> reaction fo tr own_uid central s s'"
| available: "reaction fo tr own_uid central s (available_current_update current s)"
| limits: "reaction fo tr own_uid central s (s\<lparr>sys_mgr := (sys_mgr s)\<lparr>cm_limits := l\<rparr>\<rparr>)"
| hysteresis: "reaction fo tr own_uid central s (s\<lparr>sys_mgr := skip_global_hysteresis now (sys_mgr s)\<rparr>)"
| single: "reaction fo tr own_uid central s (enable_fast_single_charger_mode enabled s)"

inductive sys_reachable ::
  "'f float_ops \<Rightarrow> ('f, 'w) tracker_ops \<Rightarrow> nat \<Rightarrow> bool \<Rightarrow> ('f, 'w) System \<Rightarrow> bool"
  for fo tr own_uid central where
  start: "config_ok fo cfg
    \<Longrightarrow> setup_system fo cfg rots default_current guaranteed_pv pm_default restored w = Some s
    \<Longrightarrow> sys_reachable fo tr own_uid central s"
| react: "sys_reachable fo tr own_uid central s \<Longrightarrow> reaction fo tr own_uid central s s'
    \<Longrightarrow> sys_reachable fo tr own_uid central s'"
| send: "sys_reachable fo tr own_uid central s
    \<Longrightarrow> sys_reachable fo tr own_uid central (snd (send_task env now sent s))"

subsection \<open>The modes never recurse\<close>

lemma mode_bits_some: "m \<noteq> ModeDefault \<Longrightarrow> mode_bits m \<noteq> None"
  by (cases m) simp_all

lemma config_cm_to_cm_some: "d \<noteq> ModeDefault \<Longrightarrow> \<exists>n. config_cm_to_cm d m = Some n"
  using mode_bits_some[of d] mode_bits_some[of m] by (auto simp: config_cm_to_cm_def)

lemma restored_mode: "restore_charge_mode pm_default restored \<noteq> ModeDefault"
  by (cases restored) (auto simp: restore_charge_mode_def Let_def)

lemma update_charge_mode_some:
  assumes "d \<noteq> ModeDefault"
  shows "\<exists>m. update_charge_mode d v1 v4 c = Some (c\<lparr>charge_mode := m\<rparr>)"
proof -
  obtain n where n: "config_cm_to_cm d ModeDefault = Some n" using config_cm_to_cm_some[OF assms] by blast
  have "\<exists>m. (case v4 of None \<Rightarrow> Some c | Some code \<Rightarrow>
       if config_mode_of_code code = Some ModeDefault then Some c
       else map_option (\<lambda>m. c\<lparr>charge_mode := m\<rparr>)
              (case config_mode_of_code code of None \<Rightarrow> Some 0 | Some mode \<Rightarrow> config_cm_to_cm d mode))
      = Some (c\<lparr>charge_mode := m\<rparr>)"
  proof (cases v4)
    case None
    show ?thesis by (rule exI[of _ "charge_mode c"]) (simp add: None)
  next
    case (Some code)
    have keep: "\<exists>m. Some c = Some (c\<lparr>charge_mode := m\<rparr>)" by (rule exI[of _ "charge_mode c"]) simp
    obtain m where m: "(case config_mode_of_code code of None \<Rightarrow> Some 0
        | Some mode \<Rightarrow> config_cm_to_cm d mode) = Some m"
      using config_cm_to_cm_some[OF assms] by (cases "config_mode_of_code code") fastforce+
    show ?thesis unfolding Some option.case m using keep by auto
  qed
  then show ?thesis using n by (auto simp: update_charge_mode_def)
qed

text \<open>The mode of a charger does not matter for the invariant.\<close>

lemma place_ok_mode [simp]: "place_ok central t (c\<lparr>charge_mode := m\<rparr>) a = place_ok central t c a"
  by (simp add: place_ok_def charger_ok_def willing_def)

subsection \<open>Authorization keeps current and user together\<close>

definition entitled :: "bool \<Rightarrow> ChargerAuth \<times> 'f ChargerState \<Rightarrow> bool" where
  "entitled central tc \<longleftrightarrow> charger_ok (snd tc)
    \<and> (central \<and> authenticated_user_id (fst tc) < 0 \<longrightarrow> user_current (snd tc) = 0)"

lemma place_ok_entitled: "place_ok central t c a \<Longrightarrow> entitled central (t, c)"
  by (simp add: place_ok_def entitled_def)

lemma entitled_fields [simp]:
  "entitled central (t\<lparr>charger_uid := n\<rparr>, c) = entitled central (t, c)"
  "entitled central (t\<lparr>auth_infos := xs\<rparr>, c) = entitled central (t, c)"
  "entitled central (t\<lparr>last_auth_success_timestamp := x\<rparr>, c) = entitled central (t, c)"
  "entitled central (t\<lparr>last_auth_fail_timestamp := x\<rparr>, c) = entitled central (t, c)"
  by (simp_all add: entitled_def)

lemma entitled_set_user:
  "env_ok central env \<Longrightarrow> entitled central tc \<Longrightarrow> - 1 \<le> u \<Longrightarrow> entitled central (set_user env u tc)"
  by (cases "u = - 1") (auto simp: entitled_def set_user_def env_ok_def charger_ok_def split_def)

lemma entitled_on_auth_success:
  "env_ok central env \<Longrightarrow> entitled central tc \<Longrightarrow> 0 \<le> u \<Longrightarrow> entitled central (snd (on_auth_success env u tc))"
  by (simp add: on_auth_success_def Let_def entitled_set_user)

lemma entitled_auth_loop:
  "env_ok central env \<Longrightarrow> entitled central tc \<Longrightarrow> entitled central (snd (auth_loop env now infos fail tc))"
proof (induction infos arbitrary: fail tc)
  case (Cons info infos)
  have "entitled central (snd (on_auth_success env (find_user env info mod 256) tc))"
    using entitled_on_auth_success[OF Cons.prems] by simp
  then show ?case using Cons
    by (auto simp: Let_def split_def)
qed simp

lemma entitled_unauthorize: "entitled central tc \<Longrightarrow> entitled central (unauthorize tc)"
  by (cases tc) (simp add: unauthorize_def entitled_def charger_ok_def)

lemma entitled_expire_auth: "entitled central tc \<Longrightarrow> entitled central (expire_auth env now v1 tc)"
  using entitled_unauthorize[of central tc] entitled_unauthorize[of central "expire_auth env now v1 tc"]
  by (auto simp: expire_auth_def Let_def split_def entitled_unauthorize)

lemma entitled_update_authentication:
  assumes "env_ok central env" "entitled central tc" "update_authentication env now v1 v5 tc = (changed, tc')"
  shows "entitled central tc'"
proof -
  obtain t c where tc: "tc = (t, c)" by fastforce
  obtain ch xs where n: "note_auth_info v5 t = (ch, t\<lparr>auth_infos := xs\<rparr>)"
    by (cases v5) (auto simp: note_auth_info_def)
  define tc1 where "tc1 = expire_auth env now v1 (t\<lparr>auth_infos := xs\<rparr>, c)"
  have e: "entitled central tc1" unfolding tc1_def using assms(2) tc by (intro entitled_expire_auth) simp
  have l: "entitled central (snd (auth_loop env now (rev infos) 0 tc1))" for infos
    by (rule entitled_auth_loop[OF assms(1) e])
  have u: "entitled central (set_user env 0 (t\<lparr>auth_infos := xs\<rparr>, c))"
    by (rule entitled_set_user[OF assms(1)]) (use assms(2) tc in simp_all)
  show ?thesis
    using assms(3) e u l unfolding tc update_authentication_def fst_conv snd_conv n Let_def prod.case tc1_def[symmetric]
    by (auto simp: split_def split: if_splits option.splits)
qed

lemma entitled_tracking:
  assumes "env_ok central env" "entitled central tc"
    and "update_charge_tracking env tr own_uid minutes now v1 (w, tc) = (w', tc')"
  shows "entitled central tc'"
proof -
  have "entitled central (snd (resume_tracking env tr own_uid v1 (w, tc)))"
    using entitled_set_user[OF assms(1,2)] assms(2)
    by (auto simp: resume_tracking_def Let_def split_def split: option.split)
  then show ?thesis using assms(2,3) by (auto simp: update_charge_tracking_def Let_def split_def split: if_splits)
qed

subsection \<open>Each reaction keeps the invariant\<close>

lemma fake_sent_config_phases [simp]:
  "allocated_phases (fake_sent_config now allocs ! j) = allocated_phases (allocs ! j)"
  by (cases allocs) (auto simp: fake_sent_config_def nth_Cons')

lemma and_3_cases: "(n :: nat) AND 3 \<in> {0, 1, 2, 3}"
proof -
  have "n AND 3 = take_bit 2 n" by (simp add: take_bit_eq_mask mask_eq_exp_minus_1)
  also have "\<dots> = n mod 4" by (simp add: take_bit_eq_mod)
  finally show ?thesis by auto
qed

lemma update_keeps_rotation [simp]:
  "phase_rotation (note_wants cfg now v1 c) = phase_rotation c"
  "phase_rotation (reset_energy fo v1 c) = phase_rotation c"
  "phase_rotation (note_currents v1 c) = phase_rotation c"
  "phase_rotation (note_plug cfg now v1 c) = phase_rotation c"
  "phase_rotation (note_meter fo v1 c) = phase_rotation c"
  "phase_rotation (note_phases v3 c) = phase_rotation c"
  "user_current (note_phases v3 c) = user_current c"
  by (simp_all add: note_wants_def reset_energy_def note_currents_def note_plug_def note_meter_def note_phases_def Let_def
      split: option.split)

lemma packet_taken_over:
  assumes "update_from_client_packet fo now i v1 v2 v3 cfg chargers allocs fw = (cs, as, fw')"
    and "i < length chargers" "i < length allocs" "charger_ok (chargers ! i)"
    and "case v3 of None \<Rightarrow> True | Some v3 \<Rightarrow> CM_STATE_V3_PHASES_CONNECTED_GET (v3_phases v3) \<noteq> 2"
  obtains c where "cs = chargers[i := c]" "charger_ok c" "user_current c = user_current (chargers ! i)"
    "user_current c = 0 \<Longrightarrow> \<not> willing c" "length as = length allocs"
    "\<And>j. allocated_phases (as ! j) \<in> {0, allocated_phases (allocs ! j)}"
proof
  define c0 where "c0 = note_wants cfg now v1 ((chargers ! i)\<lparr>uptime := v1_evse_uptime v1\<rparr>)"
  define c1 where "c1 = note_plug cfg now v1 (note_currents v1 (reset_energy fo v1 c0))"
  define c where "c = note_phases v3 (note_meter fo v1 (c1\<lparr>requested_current := reported_current fo cfg v1 v2\<rparr>))"
  define a where "a = as ! i"
  have cs: "cs = chargers[i := c]" and as: "as = (fake_sent_config now allocs)[i := a]"
    using assms(1-3) by (auto simp: update_from_client_packet_def Let_def fake_sent_config_others c_def c1_def c0_def a_def)
  show "cs = chargers[i := c]" by (rule cs)
  show "length as = length allocs" by (simp add: as fake_sent_config_others)
  have "phase_rotation c = phase_rotation (chargers ! i)" "user_current c = user_current (chargers ! i)"
    by (simp_all add: c_def c1_def c0_def)
  moreover have "phases c \<in> {0, 1, 3}"
    using assms(5) and_3_cases[of "v3_phases (the v3)"]
    by (cases v3) (auto simp: c_def note_phases_def CM_STATE_V3_PHASES_CONNECTED_GET_def)
  ultimately show "charger_ok c" and user: "user_current c = user_current (chargers ! i)"
    using assms(4) by (simp_all add: charger_ok_def)
  have "wants_to_charge c = wants_to_charge c0" "wants_to_charge_low_priority c = wants_to_charge_low_priority c0"
      "is_charging c = is_charging c0"
    by (simp_all add: c_def c1_def)
  then show "\<not> willing c" if "user_current c = 0"
    using that user by (simp add: willing_def c0_def note_wants_def Let_def)
  have "allocated_phases a = allocated_phases (reset_allocation v1 (fake_sent_config now allocs ! i))"
    using assms(1-3) by (auto simp: update_from_client_packet_def Let_def fake_sent_config_others a_def)
  then have "allocated_phases a \<in> {0, allocated_phases (allocs ! i)}" by (simp add: reset_allocation_def)
  then show "allocated_phases (as ! j) \<in> {0, allocated_phases (allocs ! j)}" for j
    using assms(3) by (subst as, cases "j = i") (simp_all add: fake_sent_config_others)
qed

lemma default_mode_keeps [simp]:
  "get_default_mode (s\<lparr>sys_mgr := m\<rparr>) = get_default_mode s" "get_default_mode (s\<lparr>sys_auth := t\<rparr>) = get_default_mode s"
  "get_default_mode (s\<lparr>sys_tracker := w\<rparr>) = get_default_mode s"
  "get_default_mode (s\<lparr>all_chargers_seen := b\<rparr>) = get_default_mode s"
  "get_default_mode (s\<lparr>allocator_scheduled := b\<rparr>) = get_default_mode s"
  "get_default_mode (s\<lparr>auth_changed := b\<rparr>) = get_default_mode s"
  "get_default_mode (s\<lparr>auth_info_changed := b\<rparr>) = get_default_mode s"
  "get_default_mode (s\<lparr>auth_info_chargers_seen := x\<rparr>) = get_default_mode s"
  "get_default_mode (s\<lparr>override_next_client_send := i\<rparr>) = get_default_mode s"
  "get_default_mode (s\<lparr>next_client_send := n\<rparr>) = get_default_mode s"
  "get_default_mode (s\<lparr>last_allocator_run_override := i\<rparr>) = get_default_mode s"
  "get_default_mode (s\<lparr>firmware_vehicle_connected := b\<rparr>) = get_default_mode s"
  by (simp_all add: get_default_mode_def)

text \<open>A reaction that changes one charger.\<close>

lemma sys_ok_charger:
  assumes "sys_ok fo central s" "i < sys_count s"
    and "entitled central (t, c)" "central \<and> authenticated_user_id t < 0 \<longrightarrow> \<not> willing c"
    and "cm_config (sys_mgr s') = cm_config (sys_mgr s)" "sys_auth s' = (sys_auth s)[i := t]"
      "cm_chargers (sys_mgr s') = (cm_chargers (sys_mgr s))[i := c]" "get_default_mode s' = get_default_mode s"
      "length (cm_allocs (sys_mgr s')) = sys_count s"
    and a: "\<And>j. allocated_phases (cm_allocs (sys_mgr s') ! j) \<in> {0, allocated_phases (cm_allocs (sys_mgr s) ! j)}"
  shows "sys_ok fo central s'"
proof -
  have "place_ok central (sys_auth s' ! j) (cm_chargers (sys_mgr s') ! j) (cm_allocs (sys_mgr s') ! j)"
    if "j < sys_count s" for j
    using that assms(1-4) a[of j] by (cases "j = i") (auto simp: assms(6,7) sys_ok_def place_ok_def entitled_def)
  then show ?thesis using assms(1,5-9) by (simp add: sys_ok_def)
qed

text \<open>A reaction that leaves alone what the invariant is about.\<close>

lemma sys_ok_unchanged:
  assumes "sys_ok fo central s" "cm_config (sys_mgr s') = cm_config (sys_mgr s)" "sys_auth s' = sys_auth s"
    "cm_chargers (sys_mgr s') = cm_chargers (sys_mgr s)" "get_default_mode s' = get_default_mode s"
    "length (cm_allocs (sys_mgr s')) = sys_count s"
    "\<And>j. j < sys_count s \<Longrightarrow> allocated_phases (cm_allocs (sys_mgr s') ! j) \<in> {0, 1, 3}"
  shows "sys_ok fo central s'"
  using assms by (simp add: sys_ok_def place_ok_def)

lemma allocated_phases_list_update:
  "allocated_phases x = allocated_phases (as ! i) \<Longrightarrow> allocated_phases (as[i := x] ! j) = allocated_phases (as ! j)"
  by (cases "j = i"; cases "i < length as"; simp add: list_update_beyond)

lemma is_packet_stale_allocs:
  "allocated_phases (snd (is_packet_stale now i v1 cs as) ! j) = allocated_phases (as ! j)"
  "length (snd (is_packet_stale now i v1 cs as)) = length as"
  by (simp_all add: is_packet_stale_def allocated_phases_list_update)

lemma collect_auth_changes_effect:
  "\<exists>a b d. collect_auth_changes i ch s = s\<lparr>auth_changed := a, auth_info_changed := b, auth_info_chargers_seen := d\<rparr>"
proof -
  have both: "P x \<Longrightarrow> P y \<Longrightarrow> P (if q then x else y)" for P :: "('a, 'b) System \<Rightarrow> bool" and q x y by simp
  have keep: "s\<lparr>auth_info_changed := b, auth_info_chargers_seen := d\<rparr>
      = s\<lparr>auth_changed := auth_changed s, auth_info_changed := b, auth_info_chargers_seen := d\<rparr>" for b d by simp
  show ?thesis unfolding collect_auth_changes_def Let_def by (rule both) (use keep in blast)+
qed

lemma collect_auth_changes_keeps [simp]:
  "sys_mgr (collect_auth_changes i ch s) = sys_mgr s" "sys_auth (collect_auth_changes i ch s) = sys_auth s"
  "sys_tracker (collect_auth_changes i ch s) = sys_tracker s"
  "get_default_mode (collect_auth_changes i ch s) = get_default_mode s"
  using collect_auth_changes_effect[of i ch s] by auto

lemma urgent_keeps [simp]:
  "authenticated_user_id (ts[i := (ts ! i)\<lparr>last_send_was_urgent := b\<rparr>] ! j) = authenticated_user_id (ts ! j)"
  by (cases "j = i"; cases "i < length ts"; simp add: list_update_beyond)

lemma trigger_allocator_run_keeps [simp]: "sys_ok fo central (trigger_allocator_run env now f s) = sys_ok fo central s"
  by (simp add: trigger_allocator_run_def sys_ok_def)

lemma note_urgent_ok: "sys_ok fo central s \<Longrightarrow> sys_ok fo central (note_urgent i v1 s)"
  by (auto simp: note_urgent_def sys_ok_def place_ok_def)

lemma on_client_update_ok:
  assumes "sys_ok fo central s" "env_ok central env" "packet_ok p" "i < sys_count s"
    and u: "on_client_update env tr fo own_uid minutes now i p s = Some s'"
  shows "sys_ok fo central s'"
proof -
  let ?v1 = "pkt_v1 p" and ?cs = "cm_chargers (sys_mgr s)" and ?as = "cm_allocs (sys_mgr s)"
  obtain stale as0 where st: "is_packet_stale now i ?v1 ?cs ?as = (stale, as0)" by fastforce
  have as0: "length as0 = length ?as" "\<And>j. allocated_phases (as0 ! j) = allocated_phases (?as ! j)"
    using is_packet_stale_allocs[of now i ?v1 ?cs ?as] st by simp_all
  have len: "length ?cs = sys_count s" "length ?as = sys_count s" "length (sys_auth s) = sys_count s"
    using assms(1) by (simp_all add: sys_ok_def)
  show ?thesis
  proof (cases stale)
    case True
    then have "s' = s\<lparr>sys_mgr := (sys_mgr s)\<lparr>cm_allocs := as0\<rparr>\<rparr>" using u st by (simp add: on_client_update_def Let_def)
    then show ?thesis using assms(1) as0 by (auto simp: sys_ok_def place_ok_def)
  next
    case False
    define t where "t = (sys_auth s ! i)\<lparr>charger_uid := v1_esp32_uid ?v1\<rparr>"
    obtain m where m: "update_charge_mode (get_default_mode s) ?v1 (pkt_v4 p) (?cs ! i) = Some ((?cs ! i)\<lparr>charge_mode := m\<rparr>)"
      using update_charge_mode_some assms(1) unfolding sys_ok_def by metis
    obtain ch tc1 where a: "update_authentication env now ?v1 (pkt_v5 p) (t, (?cs ! i)\<lparr>charge_mode := m\<rparr>) = (ch, tc1)"
      by (metis surj_pair)
    obtain w t2 c2 where k: "update_charge_tracking env tr own_uid minutes now ?v1 (sys_tracker s, tc1) = (w, t2, c2)"
      by (metis prod_cases3)
    have "entitled central (t, (?cs ! i)\<lparr>charge_mode := m\<rparr>)"
      using assms(1,4) place_ok_entitled[of central "sys_auth s ! i" "(?cs ! i)\<lparr>charge_mode := m\<rparr>" "?as ! i"]
      by (simp add: sys_ok_def t_def)
    then have e2: "entitled central (t2, c2)"
      using entitled_update_authentication[OF assms(2) _ a] entitled_tracking[OF assms(2) _ k] by blast
    define s1 where "s1 = set_charger i (t2, c2) ((collect_auth_changes i ch s)\<lparr>sys_tracker := w\<rparr>)"
    define s2 where "s2 = take_over_packet fo now i p s1"
    have s': "s' = (if CM_FEATURE_FLAGS_REQUEST_REALLOCATION_IS_SET (v1_feature_flags ?v1)
        then trigger_allocator_run env now False (note_urgent i ?v1 s2) else note_urgent i ?v1 s2)"
      using u st False m a k by (auto simp: on_client_update_def Let_def t_def s1_def s2_def)
    have s1: "cm_config (sys_mgr s1) = cm_config (sys_mgr s)" "sys_auth s1 = (sys_auth s)[i := t2]"
        "cm_chargers (sys_mgr s1) = ?cs[i := c2]" "cm_allocs (sys_mgr s1) = ?as" "get_default_mode s1 = get_default_mode s"
      by (simp_all add: s1_def set_charger_def)
    obtain cs as fw where f: "update_from_client_packet fo now i ?v1 (pkt_v2 p) (pkt_v3 p) (cm_config (sys_mgr s))
        (?cs[i := c2]) ?as (firmware_vehicle_connected s1) = (cs, as, fw)" by (metis prod_cases3)
    have s2: "cm_config (sys_mgr s2) = cm_config (sys_mgr s)" "sys_auth s2 = (sys_auth s)[i := t2]"
        "cm_chargers (sys_mgr s2) = cs" "cm_allocs (sys_mgr s2) = as" "get_default_mode s2 = get_default_mode s"
      using s1 f by (simp_all add: s2_def take_over_packet_def)
    obtain c where c: "cs = (?cs[i := c2])[i := c]" "charger_ok c" "user_current c = user_current c2"
        "user_current c = 0 \<Longrightarrow> \<not> willing c" "length as = length ?as"
        "\<And>j. allocated_phases (as ! j) \<in> {0, allocated_phases (?as ! j)}"
      by (rule packet_taken_over[OF f]) (use assms(3,4) len e2 in \<open>auto simp: entitled_def packet_ok_def\<close>)
    have "sys_ok fo central s2"
      by (rule sys_ok_charger[OF assms(1,4), of t2 c]) (use s2 c len e2 in \<open>auto simp: entitled_def\<close>)
    then show ?thesis using note_urgent_ok[of fo central s2] by (simp add: s')
  qed
qed

lemma on_client_error_ok: "sys_ok fo central s \<Longrightarrow> sys_ok fo central (on_client_error i e s)"
  by (rule sys_ok_unchanged) (auto simp: on_client_error_def allocated_phases_list_update sys_ok_def place_ok_def)

lemma wait_ok:
  assumes "sys_ok fo central s" "wait_for_chargers now s = Some s'"
  shows "sys_ok fo central s'"
proof -
  obtain seen s1 where w: "seen_all_chargers now s = Some (seen, s1)"
      "s' = s1\<lparr>all_chargers_seen := seen, sys_mgr := adopt_reported (sys_mgr s1), allocator_scheduled := seen\<rparr>"
    using assms(2) by (auto simp: wait_for_chargers_def)
  have s1: "sys_ok fo central s1"
    using w(1) assms(1) by (auto simp: seen_all_chargers_def sys_ok_def split: if_splits)
  then have "manager_ok fo (adopt_reported (sys_mgr s1))"
    by (intro adopt_reported_ok) (simp_all add: sys_ok_def place_ok_def list_all_length)
  moreover have "cm_chargers (adopt_reported (sys_mgr s1)) = cm_chargers (sys_mgr s1)"
      "cm_config (adopt_reported (sys_mgr s1)) = cm_config (sys_mgr s1)"
    using adopt_fold[of "sys_count s1" "(sys_mgr s1)\<lparr>cm_limits_post := cm_limits (sys_mgr s1)\<rparr>"] s1
    by (simp_all add: adopt_reported_def sys_ok_def)
  ultimately show ?thesis
    by (intro sys_ok_unchanged[OF s1]) (auto simp: w(2) manager_ok_def inputs_ok_def list_all_length)
qed

lemma run_ok:
  assumes "sys_ok fo central s"
  shows "sys_ok fo central (run_allocator_task fo clock now p14_w eco cpd s)"
proof -
  define cm' where "cm' = run_allocator fo clock now p14_w eco cpd (sys_mgr s)"
  note r = run_allocator_limits[OF sys_ok_manager[OF assms], of L1, OF _ cm'_def]
  have "place_ok central (sys_auth s ! i) (cm_chargers cm' ! i) (cm_allocs cm' ! i)" if "i < sys_count s" for i
    using assms r that by (auto simp: sys_ok_def place_ok_def same_wiring_def manager_ok_def inputs_ok_def list_all_length)
  then show ?thesis using assms r
    by (simp add: run_allocator_task_def cm'_def[symmetric] sys_ok_def manager_ok_def inputs_ok_def)
qed

lemma send_ok: "sys_ok fo central s \<Longrightarrow> sys_ok fo central (snd (send_task env now sent s))"
proof -
  have urgent: "authenticated_user_id (ts[i := (ts ! i)\<lparr>last_send_was_urgent := b\<rparr>] ! j) = authenticated_user_id (ts ! j)"
    for ts i b j by simp
  show "sys_ok fo central s \<Longrightarrow> ?thesis" by (auto simp: send_task_def Let_def sys_ok_def place_ok_def)
qed

lemma modes_command_ok:
  assumes "sys_ok fo central s" "charge_modes_command ms s = Some s'"
  shows "sys_ok fo central s'"
  using assms by (auto simp: charge_modes_command_def Let_def sys_ok_def split: if_splits)

lemma mode_command_ok:
  assumes "sys_ok fo central s" "charge_mode_command m s = Some s'"
  shows "sys_ok fo central s'"
proof (cases "m = ModeDefault \<and> pm_default_charge_mode s = ModeDefault")
  case True
  then show ?thesis using assms by (simp add: charge_mode_command_def)
next
  case False
  define n where "n = (if m = ModeDefault then pm_default_charge_mode s else m)"
  have n: "n \<noteq> ModeDefault" using False by (auto simp: n_def)
  have "sys_ok fo central (s\<lparr>pm_charge_mode := n\<rparr>)" using assms(1) n by (auto simp: sys_ok_def get_default_mode_def)
  then show ?thesis
    by (rule modes_command_ok) (use assms(2) False in \<open>simp add: charge_mode_command_def n_def Let_def\<close>)
qed

lemma authorize_command_ok:
  assumes "sys_ok fo central s" "env_ok central env" "authorize_charger_command env i user_id s = Inr s'"
  shows "sys_ok fo central s'"
proof -
  have i: "i < sys_count s" "0 < user_id"
    using assms(3) by (auto simp: authorize_charger_command_def authorize_charger_def split: if_splits)
  obtain t c where u: "set_user env user_id (sys_auth s ! i, cm_chargers (sys_mgr s) ! i) = (t, c)" by fastforce
  have s': "s' = s\<lparr>sys_auth := (sys_auth s)[i := t], sys_mgr := (sys_mgr s)\<lparr>cm_chargers := (cm_chargers (sys_mgr s))[i := c]\<rparr>\<rparr>"
    using assms(3) u by (auto simp: authorize_charger_command_def authorize_charger_def split: if_splits)
  have "entitled central (sys_auth s ! i, cm_chargers (sys_mgr s) ! i)"
    using assms(1) i by (intro place_ok_entitled[of _ _ _ "cm_allocs (sys_mgr s) ! i"]) (simp add: sys_ok_def)
  then have "entitled central (t, c)" using entitled_set_user[OF assms(2), of _ user_id] i u by (metis less_imp_le order_trans zero_le_one neg_le_0_iff_le)
  moreover have "0 \<le> authenticated_user_id t" using u i by (auto simp: set_user_def)
  ultimately show ?thesis
    by (intro sys_ok_charger[OF assms(1) i(1), of t c]) (use assms(1) s' in \<open>auto simp: sys_ok_def\<close>)
qed

text \<open>The interval of the allocation is not part of the invariant.\<close>

lemma config_ok_interval [simp]: "config_ok fo (cfg\<lparr>allocation_interval := x\<rparr>) = config_ok fo cfg"
  by (simp add: config_ok_def scales_ok_def)

lemma reaction_ok:
  assumes "reaction fo tr own_uid central s s'" "sys_ok fo central s"
  shows "sys_ok fo central s'"
  using assms
proof (induction rule: reaction.induct)
  case (packet env p i s minutes now s')
  then show ?case using on_client_update_ok by blast
next
  case (single s enabled)
  then show ?case by (simp add: enable_fast_single_charger_mode_def sys_ok_def)
next
  case (available s current)
  then show ?case by (simp add: available_current_update_def Let_def sys_ok_def)
next
  case (limits s l)
  then show ?case by (simp add: sys_ok_def)
next
  case (hysteresis s now)
  then show ?case by (simp add: skip_global_hysteresis_def sys_ok_def)
qed (blast intro: on_client_error_ok wait_ok run_ok modes_command_ok mode_command_ok authorize_command_ok)+

lemma start_ok:
  assumes "config_ok fo cfg" "setup_system fo cfg rots default_current guaranteed_pv pm_default restored w = Some s"
  shows "sys_ok fo central s"
proof -
  have c: "config_ok fo (cfg\<lparr>cfg_charger_count := n\<rparr>) = config_ok fo cfg" for n
    by (simp add: config_ok_def scales_ok_def)
  have "charger_ok (new_charger fo cfg m rot) \<and> \<not> willing (new_charger fo cfg m rot) \<and> user_current (new_charger fo cfg m rot) = 0"
    for cfg m rot using convert_phase_rotation_known[of rot] by (simp add: charger_ok_def new_charger_def willing_def)
  then show ?thesis
    using assms restored_mode[of pm_default restored]
    by (auto simp: setup_system_def Let_def sys_ok_def get_default_mode_def c place_ok_def new_alloc_def new_auth_def)
qed

theorem reachable_ok: "sys_reachable fo tr own_uid central s \<Longrightarrow> sys_ok fo central s"
  by (induction rule: sys_reachable.induct) (auto intro: start_ok reaction_ok send_ok)

subsection \<open>Every reaction returns\<close>

lemma seen_all_chargers_some: "get_default_mode s \<noteq> ModeDefault \<Longrightarrow> \<exists>r. seen_all_chargers now s = Some r"
  using config_cm_to_cm_some[of "get_default_mode s" "get_default_mode s"] by (auto simp: seen_all_chargers_def)

lemma charge_modes_command_some: "get_default_mode s \<noteq> ModeDefault \<Longrightarrow> \<exists>s'. charge_modes_command ms s = Some s'"
  using config_cm_to_cm_some[of "get_default_mode s"] by (fastforce simp: charge_modes_command_def Let_def list_all_iff)

lemma charge_mode_command_some:
  assumes "get_default_mode s \<noteq> ModeDefault"
  shows "\<exists>s'. charge_mode_command m s = Some s'"
proof (cases "m = ModeDefault \<and> pm_default_charge_mode s = ModeDefault")
  case False
  define n where "n = (if m = ModeDefault then pm_default_charge_mode s else m)"
  have "n \<noteq> ModeDefault" using False by (auto simp: n_def)
  then have "get_default_mode (s\<lparr>pm_charge_mode := n\<rparr>) \<noteq> ModeDefault" using assms by (auto simp: get_default_mode_def)
  from charge_modes_command_some[OF this] show ?thesis
    using False by (simp add: charge_mode_command_def n_def[symmetric] Let_def)
qed (simp add: charge_mode_command_def)

lemma on_client_update_some:
  assumes "get_default_mode s \<noteq> ModeDefault"
  shows "\<exists>s'. on_client_update env tr fo own_uid minutes now i p s = Some s'"
proof -
  obtain m where "update_charge_mode (get_default_mode s) (pkt_v1 p) (pkt_v4 p) (cm_chargers (sys_mgr s) ! i)
      = Some ((cm_chargers (sys_mgr s) ! i)\<lparr>charge_mode := m\<rparr>)"
    using update_charge_mode_some[OF assms] by blast
  then show ?thesis by (simp add: on_client_update_def Let_def split_def)
qed

lemma setup_system_some: "\<exists>s. setup_system fo cfg rots default_current guaranteed_pv pm_default restored w = Some s"
proof -
  let ?mode = "restore_charge_mode pm_default restored"
  have "(if pm_default \<noteq> ModeDefault then pm_default else ?mode) \<noteq> ModeDefault"
    using restored_mode[of pm_default restored] by presburger
  from config_cm_to_cm_some[OF this, of ?mode] show ?thesis
    unfolding setup_system_def Let_def by (auto simp del: not_None_eq)
qed

lemmas reactions_some = on_client_update_some charge_modes_command_some charge_mode_command_some setup_system_some

subsection \<open>Turns and urgent packets\<close>

text \<open>How many urgent packets can still go first: one for each charger that has not asked for it since its last turn,
  and the one that waits.\<close>

definition urgent_budget :: "('f, 'w) System \<Rightarrow> nat" where
  "urgent_budget s = length (filter (\<lambda>t. \<not> last_send_was_urgent t) (sys_auth s))
     + (if override_next_client_send s = - 1 then 0 else 1)"

lemma length_filter_update:
  assumes "i < length xs"
  shows "length (filter P (xs[i := x])) + (if P (xs ! i) then 1 else 0) = length (filter P xs) + (if P x then 1 else 0)"
proof -
  have "xs = take i xs @ xs ! i # drop (Suc i) xs" by (rule id_take_nth_drop[OF assms])
  then have "length (filter P xs) = length (filter P (take i xs @ xs ! i # drop (Suc i) xs))" by simp
  then show ?thesis by (simp add: upd_conv_take_nth_drop[OF assms])
qed

lemma urgent_same [simp]:
  "last_send_was_urgent (fst (set_user env u tc)) = last_send_was_urgent (fst tc)"
  "last_send_was_urgent (fst (unauthorize tc)) = last_send_was_urgent (fst tc)"
  "last_send_was_urgent (fst (snd (on_auth_success env u tc))) = last_send_was_urgent (fst tc)"
  by (simp_all add: set_user_def unauthorize_def on_auth_success_def split_def Let_def)

lemma urgent_auth_loop [simp]:
  "last_send_was_urgent (fst (snd (auth_loop env now infos fail tc))) = last_send_was_urgent (fst tc)"
  by (induction infos arbitrary: fail tc) (auto simp: Let_def split_def)

lemma urgent_expire_auth [simp]: "last_send_was_urgent (fst (expire_auth env now v1 tc)) = last_send_was_urgent (fst tc)"
  by (auto simp: expire_auth_def Let_def split_def)

lemma urgent_update_authentication:
  "last_send_was_urgent (fst (snd (update_authentication env now v1 v5 tc))) = last_send_was_urgent (fst tc)"
proof -
  obtain ch xs where n: "note_auth_info v5 (fst tc) = (ch, (fst tc)\<lparr>auth_infos := xs\<rparr>)"
    by (cases v5) (auto simp: note_auth_info_def)
  show ?thesis unfolding update_authentication_def n Let_def prod.case
    by (auto simp: split_def split: option.split)
qed

lemma urgent_update_charge_tracking:
  "last_send_was_urgent (fst (snd (update_charge_tracking env tr own_uid minutes now v1 wtc)))
    = last_send_was_urgent (fst (snd wtc))"
proof -
  have "last_send_was_urgent (fst (snd (resume_tracking env tr own_uid v1 wtc))) = last_send_was_urgent (fst (snd wtc))"
    by (auto simp: resume_tracking_def split_def Let_def split: option.split)
  then show ?thesis by (simp add: update_charge_tracking_def Let_def split_def)
qed

lemma urgent_flags_update:
  "last_send_was_urgent t = last_send_was_urgent (ts ! i)
    \<Longrightarrow> length (filter (\<lambda>t. \<not> last_send_was_urgent t) (ts[i := t])) = length (filter (\<lambda>t. \<not> last_send_was_urgent t) ts)"
  using length_filter_update[of i ts "\<lambda>t. \<not> last_send_was_urgent t" t] by (cases "i < length ts") (auto simp: list_update_beyond split: if_splits)

text \<open>What is not about allocations and users.\<close>

definition same_turn :: "('f, 'w) System \<Rightarrow> ('f, 'w) System \<Rightarrow> bool" where
  "same_turn s s' \<longleftrightarrow> sys_count s' = sys_count s \<and> next_client_send s' = next_client_send s
    \<and> urgent_budget s' \<le> urgent_budget s"

lemma same_turn_trans: "same_turn s s' \<Longrightarrow> same_turn s' s'' \<Longrightarrow> same_turn s s''"
  by (simp add: same_turn_def)

lemma note_urgent_turn:
  assumes "i < length (sys_auth s)"
  shows "same_turn s (note_urgent i v1 s)"
proof (cases "CM_FEATURE_FLAGS_URGENT_IS_SET (v1_feature_flags v1) \<and> \<not> last_send_was_urgent (sys_auth s ! i)")
  case True
  then show ?thesis
    using length_filter_update[OF assms, of "\<lambda>t. \<not> last_send_was_urgent t" "(sys_auth s ! i)\<lparr>last_send_was_urgent := True\<rparr>"]
    by (auto simp: same_turn_def note_urgent_def urgent_budget_def)
qed (auto simp: same_turn_def note_urgent_def)

text \<open>The parts a packet is not about.\<close>

lemma on_client_update_frame:
  assumes "i < sys_count s" "length (sys_auth s) = sys_count s"
    and u: "on_client_update env tr fo own_uid minutes now i p s = Some s'"
  shows "same_turn s s'" "allocator_scheduled s' = allocator_scheduled s"
proof -
  let ?v1 = "pkt_v1 p" and ?cs = "cm_chargers (sys_mgr s)" and ?as = "cm_allocs (sys_mgr s)"
  define t where "t = (sys_auth s ! i)\<lparr>charger_uid := v1_esp32_uid ?v1\<rparr>"
  show "same_turn s s'" "allocator_scheduled s' = allocator_scheduled s"
  proof (atomize (full), cases "fst (is_packet_stale now i ?v1 ?cs ?as)")
    case True
    then show "same_turn s s' \<and> allocator_scheduled s' = allocator_scheduled s"
      using u by (auto simp: on_client_update_def Let_def split_def same_turn_def urgent_budget_def)
  next
    case False
    then obtain c where c: "update_charge_mode (get_default_mode s) ?v1 (pkt_v4 p) (?cs ! i) = Some c"
      using u by (auto simp: on_client_update_def Let_def split_def)
    define a where "a = update_authentication env now ?v1 (pkt_v5 p) (t, c)"
    define s0 where "s0 = collect_auth_changes i (fst a) s"
    define k where "k = update_charge_tracking env tr own_uid minutes now ?v1 (sys_tracker s0, snd a)"
    define s1 where "s1 = set_charger i (snd k) (s0\<lparr>sys_tracker := fst k\<rparr>)"
    define s2 where "s2 = take_over_packet fo now i p s1"
    have s': "s' = (if CM_FEATURE_FLAGS_REQUEST_REALLOCATION_IS_SET (v1_feature_flags ?v1)
        then trigger_allocator_run env now False (note_urgent i ?v1 s2) else note_urgent i ?v1 s2)"
      using u False c by (auto simp add: on_client_update_def Let_def split_def t_def[symmetric] a_def[symmetric] s0_def[symmetric]
          k_def[symmetric] s1_def[symmetric] s2_def[symmetric])
    have s0: "next_client_send s0 = next_client_send s" "override_next_client_send s0 = override_next_client_send s"
        "allocator_scheduled s0 = allocator_scheduled s" "sys_auth s0 = sys_auth s" "sys_mgr s0 = sys_mgr s"
      using collect_auth_changes_effect[of i "fst a" s] by (auto simp: s0_def)
    have "last_send_was_urgent (fst (snd k)) = last_send_was_urgent (sys_auth s ! i)"
      by (simp add: k_def a_def t_def urgent_update_charge_tracking urgent_update_authentication)
    note flags = urgent_flags_update[OF this]
    have s2: "sys_auth s2 = (sys_auth s)[i := fst (snd k)]" "next_client_send s2 = next_client_send s"
        "override_next_client_send s2 = override_next_client_send s" "allocator_scheduled s2 = allocator_scheduled s"
        "cm_config (sys_mgr s2) = cm_config (sys_mgr s)"
      by (simp_all add: s2_def s1_def take_over_packet_def set_charger_def s0 split: prod.split)
    then have "same_turn s s2" using flags by (simp add: same_turn_def urgent_budget_def)
    moreover have "same_turn s2 (note_urgent i ?v1 s2)"
      using s2(1) assms by (intro note_urgent_turn) simp
    moreover have "same_turn x (trigger_allocator_run env now False x)" for x :: "('a, 'b) System"
      by (simp add: same_turn_def trigger_allocator_run_def urgent_budget_def)
    moreover have "allocator_scheduled (trigger_allocator_run env now False x) = allocator_scheduled x" for x :: "('a, 'b) System"
      by (simp add: trigger_allocator_run_def)
    moreover have "allocator_scheduled (note_urgent i ?v1 s2) = allocator_scheduled s2"
      by (simp add: note_urgent_def)
    ultimately show "same_turn s s' \<and> allocator_scheduled s' = allocator_scheduled s"
      using s2(4) by (auto simp: s' intro: same_turn_trans)
  qed
qed

subsection \<open>An example\<close>

definition demo_tracker :: "('f, nat option \<Rightarrow> nat option) tracker_ops" where
  "demo_tracker = \<lparr>tr_current = (\<lambda>key w. w key), tr_start = (\<lambda>key _ _ user _ w. w(key := Some (nat user))),
     tr_end = (\<lambda>key _ _ w. w(key := None))\<rparr>"

definition demo_client_packet :: "int client_packet" where
  "demo_client_packet = \<lparr>pkt_v1 = demo_packet\<lparr>v1_charger_state := 1, v1_evse_uptime := 5\<rparr>, pkt_v2 = None,
     pkt_v3 = Some \<lparr>v3_phases = 3\<rparr>, pkt_v4 = None, pkt_v5 = Some demo_infos\<rparr>"

definition demo_start :: "(int, nat option \<Rightarrow> nat option) System" where
  "demo_start = the (setup_system int_ops (demo_config 2) [CML123, CMUnknown] 20000 0 ModeFast None (\<lambda>_. None))"

definition demo_seen :: "(int, nat option \<Rightarrow> nat option) System" where
  "demo_seen = the (on_client_update demo_env demo_tracker int_ops 1 0 20000000 1 demo_client_packet
     (the (on_client_update demo_env demo_tracker int_ops 1 0 20000000 0 demo_client_packet demo_start)))"

definition demo_running :: "(int, nat option \<Rightarrow> nat option) System" where
  "demo_running = the (wait_for_chargers 31000000 demo_seen)"

lemma demo_reachable:
  "sys_reachable int_ops demo_tracker 1 True demo_start" "sys_reachable int_ops demo_tracker 1 True demo_running"
proof -
  have cfg: "config_ok int_ops (demo_config 2)" using demo_inputs_ok by (simp add: inputs_ok_def)
  have env: "env_ok True demo_env" by (simp add: env_ok_def demo_env_def get_user_current_def)
  have pkt: "packet_ok demo_client_packet"
    by (simp add: packet_ok_def demo_client_packet_def CM_STATE_V3_PHASES_CONNECTED_GET_def)
  have mode: "get_default_mode s \<noteq> ModeDefault" if "sys_reachable int_ops demo_tracker 1 True s" for s
    using reachable_ok[OF that] by (simp add: sys_ok_def)
  have "setup_system int_ops (demo_config 2) [CML123, CMUnknown] 20000 0 ModeFast None (\<lambda>_. None) = Some demo_start"
    unfolding demo_start_def using setup_system_some by (metis option.sel)
  then show r0: "sys_reachable int_ops demo_tracker 1 True demo_start" by (rule sys_reachable.start[OF cfg])
  have packet: "sys_reachable int_ops demo_tracker 1 True
      (the (on_client_update demo_env demo_tracker int_ops 1 0 20000000 i demo_client_packet s))"
    if "sys_reachable int_ops demo_tracker 1 True s" "i < sys_count s" for s i
    using on_client_update_some[OF mode[OF that(1)], of demo_env demo_tracker int_ops 1 0 20000000 i demo_client_packet]
      sys_reachable.react[OF that(1) reaction.packet[OF env pkt that(2)]] by (metis option.sel)
  have n: "sys_count demo_start = 2"
    by (simp add: demo_start_def setup_system_def restore_charge_mode_def config_cm_to_cm_def Let_def)
  let ?s1 = "the (on_client_update demo_env demo_tracker int_ops 1 0 20000000 0 demo_client_packet demo_start)"
  have r1: "sys_reachable int_ops demo_tracker 1 True ?s1" by (rule packet[OF r0]) (simp add: n)
  have len: "length (sys_auth s) = sys_count s" if "sys_reachable int_ops demo_tracker 1 True s" for s
    using reachable_ok[OF that] by (simp add: sys_ok_def)
  have frame: "sys_count s' = sys_count s" "allocator_scheduled s' = allocator_scheduled s"
    if "i < sys_count s" "sys_reachable int_ops demo_tracker 1 True s"
      "s' = the (on_client_update demo_env demo_tracker int_ops 1 0 20000000 i demo_client_packet s)" for s s' i
    using on_client_update_some[OF mode[OF that(2)], of demo_env demo_tracker int_ops 1 0 20000000 i demo_client_packet]
      on_client_update_frame[OF that(1) len[OF that(2)]] that(3) by (auto simp: same_turn_def)
  have "\<not> allocator_scheduled demo_start"
    by (simp add: demo_start_def setup_system_def restore_charge_mode_def config_cm_to_cm_def Let_def)
  then have c1: "sys_count ?s1 = 2" "\<not> allocator_scheduled ?s1"
    using frame[OF _ r0 refl, of 0] n by auto
  then have r2: "sys_reachable int_ops demo_tracker 1 True demo_seen"
    unfolding demo_seen_def using c1 by (intro packet[OF r1]) simp
  have "\<not> allocator_scheduled demo_seen"
    unfolding demo_seen_def using frame(2)[OF _ r1 refl, of 1] c1 by simp
  moreover have "wait_for_chargers 31000000 demo_seen = Some demo_running"
    unfolding demo_running_def wait_for_chargers_def using seen_all_chargers_some[OF mode[OF r2]] by fastforce
  ultimately show "sys_reachable int_ops demo_tracker 1 True demo_running"
    by (intro sys_reachable.react[OF r2] reaction.wait)
qed

subsection \<open>The properties\<close>

text \<open>
  Claim C1. In every state the charge manager can reach, a run of the allocator gives the chargers together no more on
  a grid phase than the limit of this phase, and no more than the limit of the grid operator when there is one (and
  nothing if the limit is negative); a charger whose rotation is not known counts on every phase. What the manager
  reports as allocated is what was given away, and the limits for the next run are unchanged. No charger may report
  two phases, no user has the id 255, and the currents of users fit into 16 bits.
\<close>

theorem system_respects_limits:
  assumes "sys_reachable fo tr own_uid central s" "g \<in> {L1, L2, L3}"
    and "cm' = sys_mgr (run_allocator_task fo clock now p14_w eco cpd s)"
  shows "phase_usage (cm_chargers (sys_mgr s)) (cm_allocs cm') g \<le> max 0 (at_phase (lim_raw (cm_limits (sys_mgr s))) g)
    \<and> (if p14_w = 0 then True else phase_usage (cm_chargers (sys_mgr s)) (cm_allocs cm') g \<le> int (p14_w * 1000 div 690))
    \<and> at_phase (cm_state_alloc cm') g = phase_usage (cm_chargers (sys_mgr s)) (cm_allocs cm') g
    \<and> cm_limits cm' = cm_limits (sys_mgr s)"
proof -
  have "cm' = run_allocator fo clock now p14_w eco cpd (sys_mgr s)" using assms(3) by (simp add: run_allocator_task_def)
  from run_allocator_limits[OF sys_ok_manager[OF reachable_ok[OF assms(1)]] assms(2) this] show ?thesis by blast
qed

theorem system_respects_limits_witness:
  "phase_usage (cm_chargers (sys_mgr demo_running))
     (cm_allocs (sys_mgr (run_allocator_task int_ops None 32000000 11000 (\<lambda>_. False) False demo_running))) L2 \<le> 15942"
  using system_respects_limits[OF demo_reachable(2), of L2 _ None 32000000 11000 "\<lambda>_. False" False, OF _ refl] by simp



end
