(* ===== verification/Fair_Turns.thy ===== *)
theory Fair_Turns
  imports Prelude
begin

section \<open>Serving everyone in turns\<close>

text \<open>
  The interface of a task that serves clients in turns but lets urgent ones go first, and the proof that nobody has to
  wait forever. The budget is what limits the urgent ones: each of them costs one, and only a regular turn gives one
  back.
\<close>

text \<open>The runs of such a system: how often it served, and whom.\<close>

inductive turns_taken ::
  "('s \<Rightarrow> 's \<Rightarrow> bool) \<Rightarrow> ('l \<Rightarrow> 's \<Rightarrow> nat \<times> 's) \<Rightarrow> nat \<Rightarrow> nat set \<Rightarrow> 's \<Rightarrow> 's \<Rightarrow> bool"
  for react serve where
  none: "turns_taken react serve 0 {} s s"
| react: "turns_taken react serve k served s s' \<Longrightarrow> react s' s'' \<Longrightarrow> turns_taken react serve k served s s''"
| serve: "turns_taken react serve k served s s' \<Longrightarrow> serve l s' = (i, s'')
    \<Longrightarrow> turns_taken react serve (Suc k) (insert i served) s s''"

lemma turns_exist: "\<exists>served s'. turns_taken react serve k served s s'"
proof (induction k)
  case 0
  show ?case using turns_taken.none[of react serve s] by blast
next
  case (Suc k)
  then obtain served s' where t: "turns_taken react serve k served s s'" by blast
  obtain i s'' where "serve undefined s' = (i, s'')" by fastforce
  then show ?case using turns_taken.serve[OF t] by blast
qed

locale fair_turns =
  fixes react :: "'s \<Rightarrow> 's \<Rightarrow> bool"
    and serve :: "'l \<Rightarrow> 's \<Rightarrow> nat \<times> 's"
    and clients :: "'s \<Rightarrow> nat"
    and turn :: "'s \<Rightarrow> nat"
    and budget :: "'s \<Rightarrow> nat"
    and ok :: "'s \<Rightarrow> bool"
  assumes turn_exists: "ok s \<Longrightarrow> turn s < clients s"
    and budget_bound: "ok s \<Longrightarrow> budget s \<le> Suc (clients s)"
    and react_keeps: "ok s \<Longrightarrow> react s s' \<Longrightarrow>
      ok s' \<and> clients s' = clients s \<and> turn s' = turn s \<and> budget s' \<le> budget s"
    and serve_keeps: "ok s \<Longrightarrow> serve l s = (i, s') \<Longrightarrow> ok s' \<and> clients s' = clients s
      \<and> (turn s' = turn s \<and> budget s' < budget s
        \<or> i = turn s \<and> turn s' = Suc (turn s) mod clients s \<and> budget s' \<le> Suc (budget s))"
begin

text \<open>How far the turns have come after a run.\<close>

lemma progress:
  assumes "turns_taken react serve k served s s'" "ok s"
  shows "\<exists>r. ok s' \<and> clients s' = clients s \<and> turn s' = (turn s + r) mod clients s
    \<and> budget s' + k \<le> budget s + 2 * r \<and> (\<lambda>j. (turn s + j) mod clients s) ` {..<r} \<subseteq> served"
  using assms
proof induction
  case (none s)
  then show ?case using turn_exists[OF none] by (intro exI[of _ 0]) simp
next
  case (react k served s s' s'')
  then obtain r where r: "ok s'" "clients s' = clients s" "turn s' = (turn s + r) mod clients s"
    "budget s' + k \<le> budget s + 2 * r" "(\<lambda>j. (turn s + j) mod clients s) ` {..<r} \<subseteq> served" by blast
  then show ?case using react_keeps[OF r(1) react.hyps(2)] by (intro exI[of _ r]) simp
next
  case (serve k served s s' l i s'')
  then obtain r where r: "ok s'" "clients s' = clients s" "turn s' = (turn s + r) mod clients s"
    "budget s' + k \<le> budget s + 2 * r" "(\<lambda>j. (turn s + j) mod clients s) ` {..<r} \<subseteq> served" by blast
  note keeps = serve_keeps[OF r(1) serve.hyps(2)]
  then consider "turn s'' = turn s'" "budget s'' < budget s'"
    | "i = turn s'" "turn s'' = Suc (turn s') mod clients s'" "budget s'' \<le> Suc (budget s')" by blast
  then show ?case
  proof cases
    case 1
    then show ?thesis using r keeps by (intro exI[of _ r]) auto
  next
    case 2
    then have "turn s'' = (turn s + Suc r) mod clients s" using r by (simp add: mod_Suc_eq)
    then show ?thesis using r keeps 2 by (intro exI[of _ "Suc r"]) (auto simp: lessThan_Suc)
  qed
qed

lemma everyone_served:
  assumes "turns_taken react serve k served s s'" "ok s" "3 * clients s + 1 \<le> k" "i < clients s"
  shows "i \<in> served"
proof -
  let ?n = "clients s"
  obtain r where r: "budget s' + k \<le> budget s + 2 * r" "(\<lambda>j. (turn s + j) mod ?n) ` {..<r} \<subseteq> served"
    using progress[OF assms(1,2)] by blast
  have "?n \<le> r" using r(1) assms(3) budget_bound[OF assms(2)] by simp
  define j where "j = (i + ?n - turn s) mod ?n"
  have "j < ?n" using assms(4) by (simp add: j_def)
  have "(turn s + j) mod ?n = (turn s + (i + ?n - turn s)) mod ?n" by (simp add: j_def mod_add_right_eq)
  also have "\<dots> = i" using turn_exists[OF assms(2)] assms(4) by simp
  finally have "i = (turn s + j) mod ?n" by simp
  moreover have "j < r" using \<open>j < ?n\<close> \<open>?n \<le> r\<close> by simp
  ultimately show ?thesis using r(2) by blast
qed

end

end
