(* ===== verification/Charge_Turns.thy ===== *)
theory Charge_Turns
  imports Charge_System Fair_Turns
begin

section \<open>Charge manager: every charger gets its packets\<close>

text \<open>
  The task that sends is an instance of \<open>fair_turns\<close>: chargers take turns, and a charger that asked for an urgent packet
  goes first. All reactions of the manager may happen in between.
\<close>

definition send_turn :: "auth_env \<times> int \<Rightarrow> ('f, 'w) System \<Rightarrow> nat \<times> ('f, 'w) System" where
  "send_turn l s = (case send_task (fst l) (snd l) (\<lambda>_. True) s of (u, s') \<Rightarrow> (upd_client u, s'))"

definition turn_ok :: "'f float_ops \<Rightarrow> bool \<Rightarrow> ('f, 'w) System \<Rightarrow> bool" where
  "turn_ok fo central s \<longleftrightarrow> sys_ok fo central s \<and> next_client_send s < sys_count s"

lemma budget_le: "length (sys_auth s) = sys_count s \<Longrightarrow> urgent_budget s \<le> Suc (sys_count s)"
  using length_filter_le[of "\<lambda>t. \<not> last_send_was_urgent t" "sys_auth s"] by (simp add: urgent_budget_def)

lemma same_turn_refl [simp]: "same_turn s s"
  by (simp add: same_turn_def)

text \<open>No other reaction touches the turns.\<close>

lemma reaction_turn:
  assumes "reaction fo tr own_uid central s s'" "sys_ok fo central s"
  shows "same_turn s s'"
  using assms
proof (induction rule: reaction.induct)
  case (packet env p i s minutes now s')
  then show ?case using on_client_update_frame(1) by (auto simp: sys_ok_def)
next
  case (wait s now s')
  have "cm_config (adopt_reported m) = cm_config m" if "length (cm_allocs m) = cfg_charger_count (cm_config m)" for m :: "'a ChargeManager"
    using adopt_fold[of "cfg_charger_count (cm_config m)" "m\<lparr>cm_limits_post := cm_limits m\<rparr>"] that
    by (simp add: adopt_reported_def)
  then show ?case using wait
    by (auto simp: wait_for_chargers_def seen_all_chargers_def same_turn_def urgent_budget_def sys_ok_def split: if_splits)
next
  case (run s clock now p14_w eco cpd)
  have "cm_config (run_allocator fo clock now p14_w eco cpd (sys_mgr s)) = cm_config (sys_mgr s)"
    by (simp add: run_allocator_def Let_def)
  then show ?case by (simp add: run_allocator_task_def same_turn_def urgent_budget_def)
next
  case (modes ms s s')
  then show ?case
    by (auto simp: charge_modes_command_def Let_def same_turn_def urgent_budget_def split: if_splits)
next
  case (mode m s s')
  then show ?case
    by (auto simp: charge_mode_command_def charge_modes_command_def Let_def same_turn_def urgent_budget_def split: if_splits)
next
  case (authorize env i user_id s s')
  then obtain t c where u: "set_user env user_id (sys_auth s ! i, cm_chargers (sys_mgr s) ! i) = (t, c)"
      "sys_auth s' = (sys_auth s)[i := t]" "cm_config (sys_mgr s') = cm_config (sys_mgr s)"
      "next_client_send s' = next_client_send s" "override_next_client_send s' = override_next_client_send s"
    by (auto simp: authorize_charger_command_def authorize_charger_def split: if_splits prod.splits)
  have "last_send_was_urgent t = last_send_was_urgent (sys_auth s ! i)"
    using urgent_same(1)[of env user_id "(sys_auth s ! i, cm_chargers (sys_mgr s) ! i)"] u(1) by simp
  then show ?case using u urgent_flags_update[of t "sys_auth s" i] by (simp add: same_turn_def urgent_budget_def)
qed (simp_all add: same_turn_def urgent_budget_def on_client_error_def available_current_update_def
    skip_global_hysteresis_def enable_fast_single_charger_mode_def Let_def)

lemma send_turn_effect:
  assumes "turn_ok fo central s" "send_turn l s = (i, s')"
  shows "turn_ok fo central s' \<and> sys_count s' = sys_count s
    \<and> (next_client_send s' = next_client_send s \<and> urgent_budget s' < urgent_budget s
      \<or> i = next_client_send s \<and> next_client_send s' = Suc (next_client_send s) mod sys_count s
        \<and> urgent_budget s' \<le> Suc (urgent_budget s))"
proof -
  obtain env now where l: "l = (env, now)" by fastforce
  have s': "s' = snd (send_task env now (\<lambda>_. True) s)" "i = upd_client (fst (send_task env now (\<lambda>_. True) s))"
    using assms(2) by (auto simp: send_turn_def l split: prod.splits)
  have ok: "sys_ok fo central s'" using send_ok assms(1) unfolding s' turn_ok_def by blast
  have n: "next_client_send s < sys_count s" "length (sys_auth s) = sys_count s"
    using assms(1) by (simp_all add: turn_ok_def sys_ok_def)
  have client: "upd_client (send_client_packet env now j s) = j" for j and s :: "('a, 'b) System"
    by (simp add: send_client_packet_def Let_def)
  show ?thesis
  proof (cases "override_next_client_send s = - 1")
    case False
    then have "s' = s\<lparr>override_next_client_send := - 1\<rparr>" by (simp add: s' send_task_def)
    then show ?thesis using n ok False by (simp add: turn_ok_def urgent_budget_def)
  next
    case True
    let ?j = "next_client_send s"
    have e: "s' = s\<lparr>sys_auth := (sys_auth s)[?j := (sys_auth s ! ?j)\<lparr>last_send_was_urgent := False\<rparr>],
        next_client_send := (if ?j + 1 \<ge> sys_count s then 0 else ?j + 1)\<rparr>" "i = ?j"
      using True by (simp_all add: s' send_task_def Let_def client)
    have turn: "(if ?j + 1 \<ge> sys_count s then 0 else ?j + 1) = Suc ?j mod sys_count s"
      using n(1) by (cases "?j + 1 = sys_count s") simp_all
    have "length (filter (\<lambda>t. \<not> last_send_was_urgent t) (sys_auth s'))
        \<le> Suc (length (filter (\<lambda>t. \<not> last_send_was_urgent t) (sys_auth s)))"
      using length_filter_update[of ?j "sys_auth s" "\<lambda>t. \<not> last_send_was_urgent t" "(sys_auth s ! ?j)\<lparr>last_send_was_urgent := False\<rparr>"] n
      by (simp add: e split: if_splits)
    then show ?thesis using n ok True turn by (simp add: e turn_ok_def urgent_budget_def)
  qed
qed

interpretation sending: fair_turns "reaction fo tr own_uid central" send_turn sys_count next_client_send urgent_budget "turn_ok fo central"
proof unfold_locales
  fix s s' :: "('a, 'b) System"
  show "turn_ok fo central s \<Longrightarrow> next_client_send s < sys_count s" by (simp add: turn_ok_def)
  show "turn_ok fo central s \<Longrightarrow> urgent_budget s \<le> Suc (sys_count s)"
    by (rule budget_le) (simp add: turn_ok_def sys_ok_def)
  show "turn_ok fo central s' \<and> sys_count s' = sys_count s \<and> next_client_send s' = next_client_send s
      \<and> urgent_budget s' \<le> urgent_budget s"
    if "turn_ok fo central s" "reaction fo tr own_uid central s s'"
    using that reaction_ok[OF that(2)] reaction_turn[OF that(2)] by (simp add: turn_ok_def same_turn_def)
next
  fix s s' :: "('a, 'b) System" and l i
  assume "turn_ok fo central s" "send_turn l s = (i, s')"
  from send_turn_effect[OF this] show "turn_ok fo central s' \<and> sys_count s' = sys_count s
    \<and> (next_client_send s' = next_client_send s \<and> urgent_budget s' < urgent_budget s
      \<or> i = next_client_send s \<and> next_client_send s' = Suc (next_client_send s) mod sys_count s
        \<and> urgent_budget s' \<le> Suc (urgent_budget s))" .
qed

lemma send_task_turn:
  "sys_count (snd (send_task env now sent s)) = sys_count s"
  "next_client_send s < sys_count s \<Longrightarrow> next_client_send (snd (send_task env now sent s)) < sys_count s"
  by (simp_all add: send_task_def Let_def)

lemma reachable_turn: "sys_reachable fo tr own_uid central s \<Longrightarrow> sys_count s = 0 \<or> next_client_send s < sys_count s"
proof (induction rule: sys_reachable.induct)
  case (start cfg rots default_current guaranteed_pv pm_default restored w s)
  then show ?case by (auto simp: setup_system_def Let_def)
next
  case (react s s')
  then show ?case using reaction_turn[OF react.hyps(2) reachable_ok[OF react.hyps(1)]] by (auto simp: same_turn_def)
next
  case (send s env now sent)
  then show ?case using send_task_turn by metis
qed

text \<open>
  Claim C9. As long as the network takes the packets, no charger is left out: whatever packets, commands and timers
  come in between, and however often chargers ask for urgent packets, among any 3n + 1 packets that the manager sends
  to n chargers there is one for each of them.
\<close>

theorem every_charger_is_served:
  assumes "sys_reachable fo tr own_uid central s" "i < sys_count s"
    and "turns_taken (reaction fo tr own_uid central) send_turn k served s s'" "3 * sys_count s + 1 \<le> k"
  shows "i \<in> served"
proof -
  have "turn_ok fo central s" using reachable_ok[OF assms(1)] reachable_turn[OF assms(1)] assms(2) by (auto simp: turn_ok_def)
  then show ?thesis by (rule sending.everyone_served[OF assms(3) _ assms(4,2)])
qed

theorem every_charger_is_served_witness:
  "\<exists>served s'. turns_taken (reaction int_ops demo_tracker 1 True) send_turn 7 served demo_start s' \<and> 0 \<in> served \<and> 1 \<in> served"
proof -
  obtain served s' where t: "turns_taken (reaction int_ops demo_tracker 1 True) send_turn 7 served demo_start s'"
    using turns_exist[of "reaction int_ops demo_tracker 1 True" send_turn 7 demo_start] by blast
  have "sys_count demo_start = 2"
    by (simp add: demo_start_def setup_system_def restore_charge_mode_def config_cm_to_cm_def Let_def)
  then have "i \<in> served" if "i < 2" for i
    using every_charger_is_served[OF demo_reachable(1) _ t] that by simp
  then show ?thesis using t by auto
qed

text \<open>
  Claim C31. No reaction of the charge manager recurses forever: in every state it can reach, packets, the commands
  for charge modes and the start of the allocation return, and so does the setup.
\<close>

theorem reactions_return:
  assumes "sys_reachable fo tr own_uid central s"
  shows "on_client_update env tr fo own_uid minutes now i p s \<noteq> None \<and> wait_for_chargers now s \<noteq> None
    \<and> charge_modes_command ms s \<noteq> None \<and> charge_mode_command m s \<noteq> None
    \<and> setup_system fo cfg rots default_current guaranteed_pv pm_default restored w \<noteq> None"
proof -
  have "get_default_mode s \<noteq> ModeDefault" using reachable_ok[OF assms] by (simp add: sys_ok_def)
  note some = reactions_some(1-3)[OF this] seen_all_chargers_some[OF this] reactions_some(4)
  then show ?thesis by (simp add: wait_for_chargers_def)
qed

theorem reactions_return_witness: "charge_mode_command ModeDefault demo_running \<noteq> None"
  using reactions_return[OF demo_reachable(2), THEN conjunct2, THEN conjunct2, THEN conjunct2, THEN conjunct1] .

end
