(* ===== verification/Cm_Packets.thy ===== *)
theory Cm_Packets
  imports Endian_Convert Charge_Events
begin

unbundle bit_operations_syntax

section \<open>Charge manager networking: packets\<close>

text \<open>
  The packets that charge manager and chargers exchange over UDP (\<^verbatim>\<open>cm_networking_defs.h\<close>) and the checks of their
  headers (\<^verbatim>\<open>cm_protocol.cpp\<close>). The structs are sent as they lie in memory, little endian. Newer versions of a packet
  append members or use what was padding, so one record with all members stands for every version; a float is its
  bit pattern.
\<close>

subsection \<open>Structs\<close>

abbreviation (input) CM_COMMAND_VERSION :: nat where "CM_COMMAND_VERSION \<equiv> 4"
abbreviation (input) CM_STATE_VERSION :: nat where "CM_STATE_VERSION \<equiv> 5"
abbreviation (input) CM_COMMAND_VERSION_MIN :: nat where "CM_COMMAND_VERSION_MIN \<equiv> 1"
abbreviation (input) CM_STATE_VERSION_MIN :: nat where "CM_STATE_VERSION_MIN \<equiv> 1"
abbreviation (input) CM_PACKET_MAGIC :: u16 where "CM_PACKET_MAGIC \<equiv> 34127"
abbreviation (input) CM_COMMAND_PACKET_LENGTH :: nat where "CM_COMMAND_PACKET_LENGTH \<equiv> 20"
abbreviation (input) CM_STATE_PACKET_LENGTH :: nat where "CM_STATE_PACKET_LENGTH \<equiv> 136"

record cm_packet_header =
  pkh_magic :: u16
  pkh_length :: u16
  pkh_seq_num :: u16
  pkh_version :: byte
  pkh_padding :: byte

text \<open>The union of \<^verbatim>\<open>cm_command_v1\<close> and \<^verbatim>\<open>cm_command_v2\<close>, then \<^verbatim>\<open>cm_command_v3\<close> and \<^verbatim>\<open>cm_command_v4\<close>.\<close>

record cm_command_packet =
  cmd_header :: cm_packet_header
  cmd_allocated_current :: u16
  cmd_flags :: byte
  cmd_allocated_phases :: byte
  cmd_charge_mode :: byte
  cmd_supported_charge_modes :: "byte list"
  cmd_padding_v3 :: byte
  cmd_auth_feedback :: byte
  cmd_padding_v4 :: "byte list"

text \<open>The first byte of the first \<open>wire_auth\<close> is the requested charge mode of \<^verbatim>\<open>cm_state_v4\<close>.\<close>

record wire_auth =
  wa_first :: byte
  wa_method :: byte
  wa_last_seen_s :: u16
  wa_data :: "byte list"

record cm_state_packet =
  st_header :: cm_packet_header
  st_feature_flags :: u32
  st_esp32_uid :: u32
  st_evse_uptime :: u32
  st_car_stopped_charging :: u32
  st_allowed_charging_current :: u16
  st_supported_current :: u16
  st_iec61851_state :: byte
  st_charger_state :: byte
  st_error_state :: byte
  st_state_flags :: byte
  st_floats :: "u32 list"
  st_time_since_state_change :: u32
  st_phases :: byte
  st_padding_v3 :: "byte list"
  st_auth_info :: "wire_auth list"

subsection \<open>How they lie in memory\<close>

definition header_bytes :: "cm_packet_header \<Rightarrow> byte list" where
  "header_bytes h = le_bytes 2 (pkh_magic h) @ le_bytes 2 (pkh_length h) @ le_bytes 2 (pkh_seq_num h)
     @ [pkh_version h, pkh_padding h]"

definition get_u16 :: "nat \<Rightarrow> byte list \<Rightarrow> u16" where
  "get_u16 pos bs = le_word (take 2 (drop pos bs))"

definition get_u32 :: "nat \<Rightarrow> byte list \<Rightarrow> u32" where
  "get_u32 pos bs = le_word (take 4 (drop pos bs))"

definition header_of_bytes :: "byte list \<Rightarrow> cm_packet_header" where
  "header_of_bytes bs = \<lparr>pkh_magic = get_u16 0 bs, pkh_length = get_u16 2 bs, pkh_seq_num = get_u16 4 bs,
     pkh_version = bs ! 6, pkh_padding = bs ! 7\<rparr>"

definition command_bytes :: "cm_command_packet \<Rightarrow> byte list" where
  "command_bytes p = header_bytes (cmd_header p) @ le_bytes 2 (cmd_allocated_current p)
     @ [cmd_flags p, cmd_allocated_phases p, cmd_charge_mode p] @ cmd_supported_charge_modes p
     @ [cmd_padding_v3 p, cmd_auth_feedback p] @ cmd_padding_v4 p"

definition command_of_bytes :: "byte list \<Rightarrow> cm_command_packet" where
  "command_of_bytes bs = \<lparr>cmd_header = header_of_bytes bs, cmd_allocated_current = get_u16 8 bs, cmd_flags = bs ! 10,
     cmd_allocated_phases = bs ! 11, cmd_charge_mode = bs ! 12, cmd_supported_charge_modes = take 2 (drop 13 bs),
     cmd_padding_v3 = bs ! 15, cmd_auth_feedback = bs ! 16, cmd_padding_v4 = take 3 (drop 17 bs)\<rparr>"

definition auth_bytes :: "wire_auth \<Rightarrow> byte list" where
  "auth_bytes a = [wa_first a, wa_method a] @ le_bytes 2 (wa_last_seen_s a) @ wa_data a"

definition auth_of_bytes :: "byte list \<Rightarrow> wire_auth" where
  "auth_of_bytes bs = \<lparr>wa_first = bs ! 0, wa_method = bs ! 1, wa_last_seen_s = get_u16 2 bs, wa_data = take 12 (drop 4 bs)\<rparr>"

definition state_bytes :: "cm_state_packet \<Rightarrow> byte list" where
  "state_bytes p = header_bytes (st_header p)
     @ (le_bytes 4 (st_feature_flags p) @ le_bytes 4 (st_esp32_uid p) @ le_bytes 4 (st_evse_uptime p)
        @ le_bytes 4 (st_car_stopped_charging p) @ le_bytes 2 (st_allowed_charging_current p)
        @ le_bytes 2 (st_supported_current p)
        @ [st_iec61851_state p, st_charger_state p, st_error_state p, st_state_flags p])
     @ concat (map (le_bytes 4) (st_floats p))
     @ (le_bytes 4 (st_time_since_state_change p) @ [st_phases p] @ st_padding_v3 p)
     @ concat (map auth_bytes (st_auth_info p))"

definition state_of_bytes :: "byte list \<Rightarrow> cm_state_packet" where
  "state_of_bytes bs = \<lparr>st_header = header_of_bytes bs, st_feature_flags = get_u32 8 bs, st_esp32_uid = get_u32 12 bs,
     st_evse_uptime = get_u32 16 bs, st_car_stopped_charging = get_u32 20 bs, st_allowed_charging_current = get_u16 24 bs,
     st_supported_current = get_u16 26 bs, st_iec61851_state = bs ! 28, st_charger_state = bs ! 29,
     st_error_state = bs ! 30, st_state_flags = bs ! 31, st_floats = map (\<lambda>i. get_u32 (32 + 4 * i) bs) [0..<12],
     st_time_since_state_change = get_u32 80 bs, st_phases = bs ! 84, st_padding_v3 = take 3 (drop 85 bs),
     st_auth_info = map (\<lambda>i. auth_of_bytes (take 16 (drop (88 + 16 * i) bs))) [0..<3]\<rparr>"

subsection \<open>Codecs\<close>

context byte_codec
begin

lemma nth_concat:
  assumes "\<forall>v \<in> set vs. valid v" "i < length vs"
  shows "take width (drop (width * i) (concat (map enc vs) @ rest)) = enc (vs ! i)"
  using assms
proof (induction vs arbitrary: i)
  case (Cons v vs)
  then have v: "length (enc v) = width" by (simp add: length_enc)
  show ?case
  proof (cases i)
    case (Suc j)
    then have "drop (width * i) (concat (map enc (v # vs)) @ rest) = drop (width * j) (concat (map enc vs) @ rest)"
      by (simp add: v)
    then show ?thesis using Cons Suc by simp
  qed (simp add: v)
qed simp

lemma length_concat: "\<forall>v \<in> set vs. valid v \<Longrightarrow> length (concat (map enc vs)) = width * length vs"
  by (induction vs) (simp_all add: length_enc)

end

lemma length_header_bytes [simp]: "length (header_bytes h) = 8"
  by (simp add: header_bytes_def)

lemma header_codec: "header_of_bytes (header_bytes h @ rest) = h"
  by (simp add: header_of_bytes_def header_bytes_def get_u16_def u16_codec.dec_enc nth_append)

definition command_valid :: "cm_command_packet \<Rightarrow> bool" where
  "command_valid p \<longleftrightarrow> length (cmd_supported_charge_modes p) = 2 \<and> length (cmd_padding_v4 p) = 3"

definition auth_valid :: "wire_auth \<Rightarrow> bool" where
  "auth_valid a \<longleftrightarrow> length (wa_data a) = 12"

definition state_valid :: "cm_state_packet \<Rightarrow> bool" where
  "state_valid p \<longleftrightarrow> length (st_floats p) = 12 \<and> length (st_padding_v3 p) = 3 \<and> length (st_auth_info p) = 3
     \<and> list_all auth_valid (st_auth_info p)"

interpretation command_codec: byte_codec command_bytes command_of_bytes 20 command_valid
proof unfold_locales
  fix p
  assume v: "command_valid p"
  then obtain a b c d e where "cmd_supported_charge_modes p = [a, b]" "cmd_padding_v4 p = [c, d, e]"
    by (auto simp: command_valid_def numeral_eq_Suc length_Suc_conv)
  then show "length (command_bytes p) = 20" "command_of_bytes (command_bytes p) = p"
    by (simp_all add: command_bytes_def command_of_bytes_def header_codec get_u16_def u16_codec.dec_enc nth_append)
qed

interpretation auth_codec: byte_codec auth_bytes auth_of_bytes 16 auth_valid
  by unfold_locales
    (simp_all add: auth_valid_def auth_bytes_def auth_of_bytes_def get_u16_def u16_codec.dec_enc)

interpretation state_codec: byte_codec state_bytes state_of_bytes 136 state_valid
proof unfold_locales
  fix p
  assume v: "state_valid p"
  let ?fl = "concat (map (le_bytes 4) (st_floats p))" and ?au = "concat (map auth_bytes (st_auth_info p))"
  have lf: "length ?fl = 48" using u32_codec.length_concat[of "st_floats p"] v by (simp add: state_valid_def)
  have av: "\<forall>a \<in> set (st_auth_info p). auth_valid a" using v by (simp add: state_valid_def list_all_iff)
  have la: "length ?au = 48" using auth_codec.length_concat[OF av] v by (simp add: state_valid_def)
  show "length (state_bytes p) = 136" using v lf la by (simp add: state_bytes_def state_valid_def)
  define pre where "pre = header_bytes (st_header p)
     @ (le_bytes 4 (st_feature_flags p) @ le_bytes 4 (st_esp32_uid p) @ le_bytes 4 (st_evse_uptime p)
        @ le_bytes 4 (st_car_stopped_charging p) @ le_bytes 2 (st_allowed_charging_current p)
        @ le_bytes 2 (st_supported_current p)
        @ [st_iec61851_state p, st_charger_state p, st_error_state p, st_state_flags p])"
  define mid where "mid = le_bytes 4 (st_time_since_state_change p) @ [st_phases p] @ st_padding_v3 p"
  have b: "state_bytes p = pre @ ?fl @ mid @ ?au" by (simp add: state_bytes_def pre_def mid_def)
  have lp: "length pre = 32" "length mid = 8" using v by (simp_all add: pre_def mid_def state_valid_def)
  have "map (\<lambda>i. get_u32 (32 + 4 * i) (state_bytes p)) [0..<12] = st_floats p"
  proof (rule nth_equalityI)
    fix i
    assume "i < length (map (\<lambda>i. get_u32 (32 + 4 * i) (state_bytes p)) [0..<12])"
    then have i: "i < 12" by simp
    have "take 4 (drop (4 * i) (?fl @ mid @ ?au)) = le_bytes 4 (st_floats p ! i)"
      using u32_codec.nth_concat[of "st_floats p" i "mid @ ?au"] i v by (simp add: state_valid_def)
    moreover have "drop (32 + 4 * i) (state_bytes p) = drop (4 * i) (?fl @ mid @ ?au)" using lp by (simp add: b)
    ultimately show "map (\<lambda>i. get_u32 (32 + 4 * i) (state_bytes p)) [0..<12] ! i = st_floats p ! i"
      using i by (simp add: get_u32_def u32_codec.dec_enc del: drop_append)
  qed (use v in \<open>simp add: state_valid_def\<close>)
  moreover have "map (\<lambda>i. auth_of_bytes (take 16 (drop (88 + 16 * i) (state_bytes p)))) [0..<3] = st_auth_info p"
  proof (rule nth_equalityI)
    fix i
    assume "i < length (map (\<lambda>i. auth_of_bytes (take 16 (drop (88 + 16 * i) (state_bytes p)))) [0..<3])"
    then have i: "i < length (st_auth_info p)" "i < 3" using v by (simp_all add: state_valid_def)
    have "take 16 (drop (16 * i) (?au @ [])) = auth_bytes (st_auth_info p ! i)" by (rule auth_codec.nth_concat[OF av i(1)])
    then show "map (\<lambda>i. auth_of_bytes (take 16 (drop (88 + 16 * i) (state_bytes p)))) [0..<3] ! i = st_auth_info p ! i"
      using i lp lf av by (simp add: b auth_codec.dec_enc)
  qed (use v in \<open>simp add: state_valid_def\<close>)
  moreover have "header_of_bytes (state_bytes p) = st_header p" by (simp add: state_bytes_def header_codec)
  moreover have "get_u32 8 (state_bytes p) = st_feature_flags p" "get_u32 12 (state_bytes p) = st_esp32_uid p"
    "get_u32 16 (state_bytes p) = st_evse_uptime p" "get_u32 20 (state_bytes p) = st_car_stopped_charging p"
    "get_u16 24 (state_bytes p) = st_allowed_charging_current p" "get_u16 26 (state_bytes p) = st_supported_current p"
    by (simp_all add: b pre_def get_u16_def get_u32_def u16_codec.dec_enc u32_codec.dec_enc)
  moreover have "state_bytes p ! 28 = st_iec61851_state p" "state_bytes p ! 29 = st_charger_state p"
    "state_bytes p ! 30 = st_error_state p" "state_bytes p ! 31 = st_state_flags p"
    by (simp_all add: b pre_def nth_append)
  moreover have "get_u32 80 (state_bytes p) = st_time_since_state_change p" "state_bytes p ! 84 = st_phases p"
    "take 3 (drop 85 (state_bytes p)) = st_padding_v3 p"
    using lp lf v by (simp_all add: b mid_def get_u32_def u32_codec.dec_enc nth_append state_valid_def)
  ultimately show "state_of_bytes (state_bytes p) = p" by (simp add: state_of_bytes_def)
qed

subsection \<open>Received packets\<close>

text \<open>A datagram is cut to the size of the struct; what it does not fill is whatever was in the struct before.\<close>

definition received :: "nat \<Rightarrow> byte list \<Rightarrow> byte list \<Rightarrow> byte list" where
  "received n junk datagram = take n datagram @ drop (length datagram) junk"

datatype header_error = HeaderTruncated | MagicInvalid | VersionTooOld | LengthInvalid | PacketTruncated
  | FutureLengthInvalid | FuturePacketTruncated

definition cm_command_packet_length_versions :: "nat list" where
  "cm_command_packet_length_versions = [8, 8 + 4, 8 + 4, 8 + 4 + 4, 8 + 4 + 4 + 4]"

definition cm_state_packet_length_versions :: "nat list" where
  "cm_state_packet_length_versions = [8, 8 + 72, 8 + 72 + 4, 8 + 72 + 4 + 4, 8 + 72 + 4 + 4 + 4, 8 + 72 + 4 + 4 + 48]"

definition validate_packet_header_common :: "cm_packet_header \<Rightarrow> nat \<Rightarrow> header_error option" where
  "validate_packet_header_common h recv_length =
    (if recv_length < 8 then Some HeaderTruncated
     else if pkh_magic h \<noteq> CM_PACKET_MAGIC then Some MagicInvalid
     else None)"

definition validate_protocol_version ::
  "cm_packet_header \<Rightarrow> nat \<Rightarrow> nat \<Rightarrow> nat list \<Rightarrow> nat \<Rightarrow> header_error option" where
  "validate_protocol_version h min_version max_known_version packet_length_versions recv_length =
    (let version = unat (pkh_version h); len = unat (pkh_length h) in
     if version < min_version then Some VersionTooOld
     else if version \<le> max_known_version
     then if len \<noteq> packet_length_versions ! version then Some LengthInvalid
          else if recv_length \<noteq> len then Some PacketTruncated else None
     else if len < packet_length_versions ! max_known_version then Some FutureLengthInvalid
          else if recv_length \<noteq> packet_length_versions ! max_known_version then Some FuturePacketTruncated
          else None)"

definition validate_command_packet_header :: "cm_command_packet \<Rightarrow> nat \<Rightarrow> header_error option" where
  "validate_command_packet_header pkt recv_length =
    (case validate_packet_header_common (cmd_header pkt) recv_length of
       Some e \<Rightarrow> Some e
     | None \<Rightarrow> validate_protocol_version (cmd_header pkt) CM_COMMAND_VERSION_MIN CM_COMMAND_VERSION
         cm_command_packet_length_versions recv_length)"

definition validate_state_packet_header :: "cm_state_packet \<Rightarrow> nat \<Rightarrow> header_error option" where
  "validate_state_packet_header pkt recv_length =
    (case validate_packet_header_common (st_header pkt) recv_length of
       Some e \<Rightarrow> Some e
     | None \<Rightarrow> validate_protocol_version (st_header pkt) CM_STATE_VERSION_MIN CM_STATE_VERSION
         cm_state_packet_length_versions recv_length)"

text \<open>Packets are numbered; a number just behind the last one is stale. The numbers wrap.\<close>

definition seq_num_invalid :: "u16 \<Rightarrow> u16 \<Rightarrow> bool" where
  "seq_num_invalid received_sn last_seen_sn \<longleftrightarrow> received_sn \<le> last_seen_sn \<and> unat last_seen_sn - unat received_sn < 5"

lemma next_seq_num_valid: "\<not> seq_num_invalid (n + 1) n"
proof (cases "n = - 1")
  case True
  then show ?thesis by (simp add: seq_num_invalid_def unsigned_minus_1_eq_mask mask_eq_exp_minus_1)
next
  case False
  then have "n < n + 1" by (simp add: word_less_nat_alt) (metis add_diff_cancel_right' diff_0 lessI unat_eq_zero unat_1 unatSuc add.commute)
  then show ?thesis by (auto simp: seq_num_invalid_def)
qed

lemma repeated_seq_num_invalid: "seq_num_invalid n n"
  by (simp add: seq_num_invalid_def)

lemma stale_at_wrap_accepted: "\<not> seq_num_invalid 65535 0"
  by (simp add: seq_num_invalid_def)

text \<open>After validation all members of the version were in the datagram.\<close>

lemma validated_length:
  assumes "validate_protocol_version h min_version (length lens - 1) lens n = None" "lens \<noteq> []" "sorted lens"
  shows "lens ! min (unat (pkh_version h)) (length lens - 1) \<le> n \<and> min_version \<le> unat (pkh_version h)"
  using assms by (auto simp: validate_protocol_version_def Let_def min_def split: if_splits)

end
