(* ===== verification/Cm_Networking.thy ===== *)
theory Cm_Networking
  imports Cm_Packets
begin

unbundle bit_operations_syntax

section \<open>Charge manager networking: both ends\<close>

text \<open>
  Sending and receiving the packets (\<^verbatim>\<open>cm_protocol.cpp\<close>, the states of resolving host names of \<^verbatim>\<open>cm_mdns.cpp\<close>): the
  manager with its list of chargers, and the charger, which follows one manager. What the sockets deliver is an
  argument of the tasks; log output is left out.
\<close>

subsection \<open>The charger: receiving commands\<close>

record 'a cm_client =
  last_manager_addr_change :: int
  manager_addr_valid :: bool
  manager_addr :: "'a option"
  cl_last_seen_seq_num :: u16
  last_successful_recv :: int

text \<open>The callback gets the members of a packet, or zeros that block charging.\<close>

datatype client_event = CommandAccepted cm_command_packet | ChargingBlocked

definition client_accept :: "int \<Rightarrow> cm_command_packet \<Rightarrow> 'a cm_client \<Rightarrow> 'a cm_client \<times> client_event option" where
  "client_accept now pkt c = (c\<lparr>last_successful_recv := now\<rparr>, Some (CommandAccepted pkt))"

definition client_task ::
  "(int \<Rightarrow> int \<Rightarrow> bool) \<Rightarrow> int \<Rightarrow> byte list \<Rightarrow> ('a \<times> byte list) option \<Rightarrow> 'a cm_client
    \<Rightarrow> 'a cm_client \<times> client_event option" where
  "client_task deadline now junk r c =
    (case r of
       None \<Rightarrow> (if manager_addr_valid c \<and> deadline now (last_successful_recv c + 60000000)
                then c\<lparr>manager_addr_valid := False\<rparr> else c, None)
     | Some (from_addr, datagram) \<Rightarrow>
         let pkt = command_of_bytes (received 20 junk datagram) in
         if validate_command_packet_header pkt (min 20 (length datagram)) \<noteq> None then (c, None)
         else if seq_num_invalid (pkh_seq_num (cmd_header pkt)) (cl_last_seen_seq_num c) then (c, None)
         else
           let c = c\<lparr>cl_last_seen_seq_num := pkh_seq_num (cmd_header pkt)\<rparr>;
               quiet = deadline now (last_manager_addr_change c + 60000000)
           in if manager_addr c \<noteq> Some from_addr
              then let c = c\<lparr>manager_addr_valid := quiet, manager_addr := Some from_addr, last_manager_addr_change := now\<rparr>
                   in if \<not> quiet then (c, Some ChargingBlocked) else client_accept now pkt c
              else if \<not> manager_addr_valid c
              then if quiet then client_accept now pkt (c\<lparr>manager_addr_valid := True\<rparr>) else (c, Some ChargingBlocked)
              else client_accept now pkt c)"

definition new_client :: "int \<Rightarrow> 'a cm_client" where
  "new_client now = \<lparr>last_manager_addr_change = - 60000000, manager_addr_valid = False, manager_addr = None,
     cl_last_seen_seq_num = 255, last_successful_recv = now\<rparr>"

record manager_command =
  mc_current :: nat
  mc_ignore_allocation :: bool
  mc_cp_disconnect :: bool
  mc_phases :: int
  mc_charge_mode :: nat
  mc_supported_modes :: "nat list"
  mc_auth_feedback :: nat

definition client_callback :: "client_event \<Rightarrow> manager_command" where
  "client_callback e =
    (case e of
       ChargingBlocked \<Rightarrow> \<lparr>mc_current = 0, mc_ignore_allocation = False, mc_cp_disconnect = False, mc_phases = 0,
         mc_charge_mode = config_mode_code ModeOff, mc_supported_modes = [], mc_auth_feedback = 0\<rparr>
     | CommandAccepted pkt \<Rightarrow>
         let version = unat (pkh_version (cmd_header pkt)) in
         \<lparr>mc_current = unat (cmd_allocated_current pkt),
          mc_ignore_allocation = (version \<ge> 3 \<and> bit (cmd_flags pkt) 7),
          mc_cp_disconnect = bit (cmd_flags pkt) 6,
          mc_phases = (if version \<ge> 2 then sint (cmd_allocated_phases pkt) else 0),
          mc_charge_mode = (if version \<ge> 3 then unat (cmd_charge_mode pkt) else config_mode_code ModeDefault),
          mc_supported_modes = (if version \<ge> 3
            then filter (\<lambda>i. bit (cmd_supported_charge_modes pkt ! (i div 8)) (i mod 8)) [0..<9] else []),
          mc_auth_feedback = (if version \<ge> 4 then unat (cmd_auth_feedback pkt) else 0)\<rparr>)"

definition central_user_management :: "cm_command_packet \<Rightarrow> bool" where
  "central_user_management pkt = bit (cmd_flags pkt) 5"

subsection \<open>The manager: sending commands\<close>

fun feedback_code :: "CMAuthFeedback \<Rightarrow> nat" where
  "feedback_code FeedbackNone = 0"
| "feedback_code FeedbackNack = 1"
| "feedback_code FeedbackNag = 2"
| "feedback_code FeedbackAck = 3"

definition flag :: "bool \<Rightarrow> nat \<Rightarrow> 'a::len word" where
  "flag b n = (if b then push_bit n 1 else 0)"

text \<open>The struct is on the stack; what is not set is arbitrary.\<close>

definition manager_update_packet :: "cm_command_packet \<Rightarrow> u16 \<Rightarrow> byte list \<Rightarrow> manager_update \<Rightarrow> cm_command_packet" where
  "manager_update_packet junk next_seq_num supported u = junk\<lparr>
     cmd_header := (cmd_header junk)\<lparr>pkh_magic := CM_PACKET_MAGIC, pkh_length := of_nat CM_COMMAND_PACKET_LENGTH,
       pkh_seq_num := next_seq_num, pkh_version := of_nat CM_COMMAND_VERSION\<rparr>,
     cmd_allocated_current := of_nat (upd_current u),
     cmd_flags := flag (upd_ignore_allocation u) 7 OR flag (upd_cp_disconnect u) 6 OR flag (upd_central u) 5
       OR flag (upd_central u) 4,
     cmd_allocated_phases := of_nat (upd_phases u),
     cmd_charge_mode := of_nat (config_mode_code (upd_charge_mode u)),
     cmd_supported_charge_modes := supported,
     cmd_auth_feedback := of_nat (feedback_code (upd_auth_feedback u)),
     cmd_padding_v4 := [0, 0, 0]\<rparr>"


subsection \<open>The manager: receiving states\<close>

text \<open>An IPv6 address is 16 bytes; an IPv4 address is kept as \<^verbatim>\<open>::ffff:x.x.x.x\<close>.\<close>

datatype ip_addr_t = IPv4 "byte list" | IPv6 "byte list" | IPOther

fun sin6_addr_of :: "ip_addr_t \<Rightarrow> byte list option" where
  "sin6_addr_of (IPv4 a) = Some (replicate 10 0 @ [255, 255] @ a)"
| "sin6_addr_of (IPv6 a) = Some a"
| "sin6_addr_of IPOther = None"

datatype HostAddressType = HostIP | HostMDNS | HostDNS
datatype ResolveState = ResolveUnknown | NotResolved | Resolved | Stale

record managed_device =
  dev_hostname :: string
  mdns_hostname_len :: nat
  host_address_type :: HostAddressType
  resolve_state :: ResolveState
  dev_addr :: "byte list"
  dev_last_seen_seq_num :: u16

record networking =
  has_socket :: bool
  connected :: bool
  dns_resolver_active :: bool
  mdns_scan_active :: bool
  devices :: "managed_device list"

abbreviation (input) CHARGE_MANAGEMENT_PORT :: u16 where "CHARGE_MANAGEMENT_PORT \<equiv> 34128"

definition endswith :: "string \<Rightarrow> string \<Rightarrow> bool" where
  "endswith haystack needle \<longleftrightarrow> length needle \<le> length haystack
     \<and> drop (length haystack - length needle) haystack = needle"

text \<open>\<open>aton\<close> reads an address literal, as \<^verbatim>\<open>ipaddr_aton\<close> of lwIP does.\<close>

definition register_device :: "(string \<Rightarrow> ip_addr_t option) \<Rightarrow> string \<Rightarrow> managed_device" where
  "register_device aton hostname =
    (let d = \<lparr>dev_hostname = hostname, mdns_hostname_len = 0, host_address_type = HostDNS, resolve_state = ResolveUnknown,
       dev_addr = replicate 16 0, dev_last_seen_seq_num = - 1\<rparr>
     in case Option.bind (aton hostname) sin6_addr_of of
          Some a \<Rightarrow> d\<lparr>dev_addr := a, host_address_type := HostIP, resolve_state := Resolved\<rparr>
        | None \<Rightarrow> if endswith hostname ''.local''
                  then d\<lparr>host_address_type := HostMDNS, resolve_state := NotResolved,
                         mdns_hostname_len := length hostname - 6\<rparr>
                  else d)"

definition register_manager :: "(string \<Rightarrow> ip_addr_t option) \<Rightarrow> bool \<Rightarrow> string list \<Rightarrow> networking" where
  "register_manager aton sock_ok hosts = \<lparr>has_socket = sock_ok, connected = False, dns_resolver_active = False, mdns_scan_active = False,
     devices = map (register_device aton) hosts\<rparr>"

text \<open>The charger a datagram comes from is the first one with its address.\<close>

fun find_device :: "byte list \<times> u16 \<Rightarrow> managed_device list \<Rightarrow> nat option" where
  "find_device source [] = None"
| "find_device source (d # ds) =
    (if source = (dev_addr d, CHARGE_MANAGEMENT_PORT) then Some 0 else map_option Suc (find_device source ds))"

datatype ClientError = ClientOK | ClientInvalidHeader | ClientNotManaged

fun client_error_code :: "ClientError \<Rightarrow> nat" where
  "client_error_code ClientOK = 0"
| "client_error_code ClientInvalidHeader = 2"
| "client_error_code ClientNotManaged = 3"

datatype manager_event = ClientUpdate nat cm_state_packet | ClientErrorSeen nat ClientError

text \<open>One datagram: the new list, what is reported, and whether the next datagram is read at once.\<close>

definition receive_state ::
  "byte list \<Rightarrow> byte list \<times> u16 \<Rightarrow> nat \<Rightarrow> managed_device list \<Rightarrow> managed_device list \<times> manager_event list \<times> bool" where
  "receive_state buf source len ds =
    (case find_device source ds of
       None \<Rightarrow> (ds, [], False)
     | Some i \<Rightarrow>
         let pkt = state_of_bytes buf; sn = pkh_seq_num (st_header pkt) in
         if validate_state_packet_header pkt len \<noteq> None then (ds, [ClientErrorSeen i ClientInvalidHeader], False)
         else if seq_num_invalid sn (dev_last_seen_seq_num (ds ! i)) then (ds, [], False)
         else let ds = ds[i := (ds ! i)\<lparr>dev_last_seen_seq_num := sn\<rparr>] in
           if \<not> bit (st_state_flags pkt) 7 then (ds, [ClientErrorSeen i ClientNotManaged], False)
           else (ds, [ClientUpdate i pkt], True))"

text \<open>The task reads up to \<open>fuel\<close> = 10 datagrams into the same buffer.\<close>

fun manager_poll ::
  "nat \<Rightarrow> byte list \<Rightarrow> ((byte list \<times> u16) \<times> byte list) list \<Rightarrow> managed_device list
    \<Rightarrow> managed_device list \<times> manager_event list" where
  "manager_poll (Suc fuel) buf ((source, datagram) # rs) ds =
    (let buf = received 136 buf datagram;
         (ds, es, more) = receive_state buf source (min 136 (length datagram)) ds
     in if more then let (ds, es') = manager_poll fuel buf rs ds in (ds, es @ es') else (ds, es))"
| "manager_poll _ _ _ ds = (ds, [])"

subsection \<open>The manager: a packet for its charger\<close>

definition is_resolved :: "networking \<Rightarrow> nat \<Rightarrow> bool" where
  "is_resolved s i \<longleftrightarrow> i < length (devices s)
     \<and> (resolve_state (devices s ! i) = Resolved \<or> resolve_state (devices s ! i) = Stale)"

datatype send_result = SentBytes nat | WouldBlock | SendFailed

text \<open>The phase switcher of the energy manager may change the packet; other devices have none. The result says
  whether the next charger is next.\<close>

definition send_command_packet ::
  "(nat \<Rightarrow> cm_command_packet \<Rightarrow> 'p \<Rightarrow> cm_command_packet \<times> 'p) \<Rightarrow> (byte list \<Rightarrow> byte list \<Rightarrow> send_result) \<Rightarrow> networking
    \<Rightarrow> nat \<Rightarrow> cm_command_packet \<Rightarrow> 'p \<Rightarrow> bool \<times> (byte list \<times> byte list) option \<times> 'p" where
  "send_command_packet filter_command sendto s i pkt ps =
    (if \<not> has_socket s \<or> \<not> is_resolved s i then (True, None, ps)
     else let (pkt, ps) = filter_command i pkt ps; addr = dev_addr (devices s ! i) in
       case sendto addr (command_bytes pkt) of
         WouldBlock \<Rightarrow> (False, None, ps)
       | SendFailed \<Rightarrow> (True, None, ps)
       | SentBytes n \<Rightarrow> (True, Some (addr, take n (command_bytes pkt)), ps))"

text \<open>The packets are numbered, also those that are not sent.\<close>

definition send_manager_update ::
  "(nat \<Rightarrow> cm_command_packet \<Rightarrow> 'p \<Rightarrow> cm_command_packet \<times> 'p) \<Rightarrow> (byte list \<Rightarrow> byte list \<Rightarrow> send_result) \<Rightarrow> networking
    \<Rightarrow> cm_command_packet \<Rightarrow> byte list \<Rightarrow> manager_update \<Rightarrow> u16 \<times> 'p \<Rightarrow> bool \<times> (byte list \<times> byte list) option \<times> u16 \<times> 'p" where
  "send_manager_update filter_command sendto s junk supported u = (\<lambda>(next_seq_num, ps).
    case send_command_packet filter_command sendto s (upd_client u) (manager_update_packet junk next_seq_num supported u) ps of
      (sent, out, ps) \<Rightarrow> (sent, out, next_seq_num + 1, ps))"

text \<open>As a proxy, an energy manager passes on the commands it gets.\<close>

definition forward_command ::
  "(nat \<Rightarrow> cm_command_packet \<Rightarrow> 'p \<Rightarrow> cm_command_packet \<times> 'p) \<Rightarrow> (byte list \<Rightarrow> byte list \<Rightarrow> send_result) \<Rightarrow> networking
    \<Rightarrow> client_event \<Rightarrow> 'p \<Rightarrow> (byte list \<times> byte list) option \<times> 'p" where
  "forward_command filter_command sendto s e ps =
    (case e of
       CommandAccepted pkt \<Rightarrow> snd (send_command_packet filter_command sendto s 0 pkt ps)
     | ChargingBlocked \<Rightarrow> (None, ps))"

definition no_filter :: "nat \<Rightarrow> cm_command_packet \<Rightarrow> unit \<Rightarrow> cm_command_packet \<times> unit" where
  "no_filter i pkt ps = (pkt, ps)"

subsection \<open>The charger: sending its state\<close>

record auth_entry =
  ae_seen_at :: int
  ae_method :: nat
  ae_tag_type :: byte
  ae_text :: string

definition to_nibble :: "char \<Rightarrow> byte" where
  "to_nibble ch =
    (let c = of_char ch :: byte in
     if 48 \<le> c \<and> c \<le> 57 then c - 48
     else let c = c OR 32 in if 97 \<le> c \<and> c \<le> 102 then c - 97 + 10 else 0)"

definition hex_bytes :: "nat \<Rightarrow> string \<Rightarrow> byte list" where
  "hex_bytes n str = map
     (\<lambda>b. push_bit 4 (to_nibble (str ! (3 * b)))
       OR to_nibble (if 3 * b + 1 < length str then str ! (3 * b + 1) else CHR 0x00))
     [0..<min n ((length str + 2) div 3)]"

definition auth_info_of :: "int \<Rightarrow> auth_entry \<Rightarrow> wire_auth" where
  "auth_info_of now e =
    (let zero = \<lparr>wa_first = 0, wa_method = 0, wa_last_seen_s = 0, wa_data = replicate 12 0\<rparr>;
         last_seen = now - ae_seen_at e;
         secs = (of_int (last_seen sdiv 1000000) :: u16);
         seen = zero\<lparr>wa_method := of_nat (ae_method e), wa_last_seen_s := (if secs = 0 then 1 else secs)\<rparr>
     in if ae_seen_at e = 0 \<or> last_seen \<ge> 3600000000 then zero
        else if ae_method e = CMAuthType_NFC \<or> ae_method e = CMAuthType_InjectedNFC
        then let bytes = hex_bytes 10 (ae_text e)
             in seen\<lparr>wa_data := ae_tag_type e # of_nat (length bytes) # bytes @ replicate (10 - length bytes) 0\<rparr>
        else if ae_method e = CMAuthType_EV \<or> ae_method e = CMAuthType_InjectedEV
        then let bytes = hex_bytes 6 (ae_text e) in seen\<lparr>wa_data := bytes @ replicate (12 - length bytes) 0\<rparr>
        else zero)"

text \<open>The arguments of \<^verbatim>\<open>send_client_update\<close>.\<close>

record client_report =
  cr_esp32_uid :: u32
  cr_iec61851_state :: byte
  cr_charger_state :: byte
  cr_time_since_state_change :: u32
  cr_error_state :: byte
  cr_uptime :: u32
  cr_car_stopped_charging :: u32
  cr_allowed_charging_current :: u16
  cr_supported_current :: u16
  cr_managed :: bool
  cr_cp_disconnected_state :: bool
  cr_phases :: byte
  cr_can_switch_phases_now :: bool
  cr_currently_switching_phases :: bool
  cr_requested_charge_mode :: ConfigChargeMode
  cr_urgent :: bool
  cr_request_reallocation :: bool

text \<open>What it asks other modules for: the features in the order of their bits from 0 on, the phases of the meter from L3
  active to L1 connected, and the values of the meters.\<close>

record charger_api =
  api_features :: "bool list"
  api_meter_phases :: "bool list"
  api_line_voltages :: "u32 list"
  api_line_currents :: "u32 list"
  api_line_power_factors :: "u32 list"
  api_meter_values :: "u32 list"
  api_authentications :: "auth_entry list"

abbreviation (input) FEATURE_METER :: nat where "FEATURE_METER \<equiv> 1"
abbreviation (input) FEATURE_METER_PHASES :: nat where "FEATURE_METER_PHASES \<equiv> 2"
abbreviation (input) FEATURE_METER_ALL_VALUES :: nat where "FEATURE_METER_ALL_VALUES \<equiv> 3"

abbreviation (input) NAN_BITS :: u32 where "NAN_BITS \<equiv> 0x7FC00000"
abbreviation (input) MINUS_1_MA_BITS :: u32 where "MINUS_1_MA_BITS \<equiv> 0xBA83126F"

fun flags :: "nat \<Rightarrow> bool list \<Rightarrow> 'a::len word" where
  "flags n [] = 0"
| "flags n (b # bs) = flag b n OR flags (Suc n) bs"

text \<open>\<open>mA\<close> scales a float to mA and truncates it.\<close>

definition state_floats :: "(u32 \<Rightarrow> int) \<Rightarrow> charger_api \<Rightarrow> u32 list" where
  "state_floats mA api =
    (if api_features api ! FEATURE_METER_ALL_VALUES
     then api_line_voltages api @ map (\<lambda>x. if mA x = 0 then MINUS_1_MA_BITS else x) (api_line_currents api)
       @ api_line_power_factors api
     else replicate 9 NAN_BITS)
    @ (if api_features api ! FEATURE_METER then api_meter_values api else replicate 3 NAN_BITS)"

definition client_update_packet ::
  "(u32 \<Rightarrow> int) \<Rightarrow> int \<Rightarrow> cm_state_packet \<Rightarrow> u16 \<Rightarrow> charger_api \<Rightarrow> client_report \<Rightarrow> cm_state_packet" where
  "client_update_packet mA now junk next_seq_num api r = \<lparr>
     st_header = (st_header junk)\<lparr>pkh_magic := CM_PACKET_MAGIC, pkh_length := of_nat CM_STATE_PACKET_LENGTH,
       pkh_seq_num := next_seq_num, pkh_version := of_nat CM_STATE_VERSION\<rparr>,
     st_feature_flags = flag (cr_urgent r) 31 OR flag (cr_request_reallocation r) 30 OR flags 0 (api_features api),
     st_esp32_uid = cr_esp32_uid r,
     st_evse_uptime = cr_uptime r,
     st_car_stopped_charging = cr_car_stopped_charging r,
     st_allowed_charging_current = cr_allowed_charging_current r,
     st_supported_current = cr_supported_current r,
     st_iec61851_state = cr_iec61851_state r,
     st_charger_state = cr_charger_state r,
     st_error_state = cr_error_state r,
     st_state_flags = flag (cr_managed r) 7 OR flag (cr_cp_disconnected_state r) 6
       OR (if api_features api ! FEATURE_METER_PHASES then flags 0 (api_meter_phases api) else 0),
     st_floats = state_floats mA api,
     st_time_since_state_change = cr_time_since_state_change r,
     st_phases = cr_phases r OR flag (cr_can_switch_phases_now r) 2 OR flag (cr_currently_switching_phases r) 3,
     st_padding_v3 = st_padding_v3 junk,
     st_auth_info = (let as = map (auth_info_of now) (api_authentications api)
       in as[0 := (as ! 0)\<lparr>wa_first := of_nat (config_mode_code (cr_requested_charge_mode r))\<rparr>])\<rparr>"

definition send_state_packet ::
  "('a \<Rightarrow> byte list \<Rightarrow> send_result) \<Rightarrow> 'a cm_client \<Rightarrow> cm_state_packet \<Rightarrow> bool \<times> ('a \<times> byte list) option" where
  "send_state_packet sendto c pkt =
    (if \<not> manager_addr_valid c then (False, None)
     else case manager_addr c of
       None \<Rightarrow> (False, None)
     | Some addr \<Rightarrow>
         (case sendto addr (state_bytes pkt) of
            SentBytes n \<Rightarrow> (n = CM_STATE_PACKET_LENGTH, Some (addr, take n (state_bytes pkt)))
          | _ \<Rightarrow> (False, None)))"

text \<open>Without a manager nothing is sent and no number is used.\<close>

definition send_client_update ::
  "(u32 \<Rightarrow> int) \<Rightarrow> ('a \<Rightarrow> byte list \<Rightarrow> send_result) \<Rightarrow> int \<Rightarrow> cm_state_packet \<Rightarrow> charger_api \<Rightarrow> client_report \<Rightarrow> 'a cm_client
    \<Rightarrow> u16 \<Rightarrow> bool \<times> ('a \<times> byte list) option \<times> u16" where
  "send_client_update mA sendto now junk api r c next_seq_num =
    (if \<not> manager_addr_valid c then (False, None, next_seq_num)
     else case send_state_packet sendto c (client_update_packet mA now junk next_seq_num api r) of
       (sent, out) \<Rightarrow> (sent, out, next_seq_num + 1))"

text \<open>As a proxy, an energy manager passes on the states it gets.\<close>

definition forward_state ::
  "('a \<Rightarrow> byte list \<Rightarrow> send_result) \<Rightarrow> 'a cm_client \<Rightarrow> manager_event \<Rightarrow> ('a \<times> byte list) option" where
  "forward_state sendto c e =
    (case e of ClientUpdate i pkt \<Rightarrow> snd (send_state_packet sendto c pkt) | ClientErrorSeen i err \<Rightarrow> None)"

text \<open>What of a packet the charge manager gets; \<open>dec\<close> reads the bits of a float.\<close>

definition auth_info_wire :: "wire_auth \<Rightarrow> cm_auth_info" where
  "auth_info_wire a = \<lparr>auth_method = unat (wa_method a), last_seen_s = unat (wa_last_seen_s a), auth_data = wa_data a\<rparr>"

definition client_packet_of :: "(u32 \<Rightarrow> 'f) \<Rightarrow> cm_state_packet \<Rightarrow> 'f client_packet" where
  "client_packet_of dec p =
    (let version = unat (pkh_version (st_header p)); f = \<lambda>i. dec (st_floats p ! i) in
     \<lparr>pkt_v1 = \<lparr>v1_feature_flags = unat (st_feature_flags p), v1_esp32_uid = unat (st_esp32_uid p),
        v1_evse_uptime = unat (st_evse_uptime p), v1_car_stopped_charging = unat (st_car_stopped_charging p),
        v1_allowed_charging_current = unat (st_allowed_charging_current p),
        v1_supported_current = unat (st_supported_current p), v1_iec61851_state = unat (st_iec61851_state p),
        v1_charger_state = unat (st_charger_state p), v1_error_state = unat (st_error_state p),
        v1_state_flags = unat (st_state_flags p), v1_line_voltages = map f [0..<3], v1_line_currents = map f [3..<6],
        v1_line_power_factors = map f [6..<9], v1_power_total = f 9, v1_energy_rel = f 10, v1_energy_abs = f 11\<rparr>,
      pkt_v2 = (if version \<ge> 2 then Some \<lparr>v2_time_since_state_change = unat (st_time_since_state_change p)\<rparr> else None),
      pkt_v3 = (if version \<ge> 3 then Some \<lparr>v3_phases = unat (st_phases p)\<rparr> else None),
      pkt_v4 = (if version \<ge> 4 then Some (unat (wa_first (st_auth_info p ! 0))) else None),
      pkt_v5 = (if version \<ge> 5 then Some (map auth_info_wire (st_auth_info p)) else None)\<rparr>)"

text \<open>The task of the charge manager and its client, composed.\<close>

definition on_manager_event ::
  "auth_env \<Rightarrow> ('f, 'w) tracker_ops \<Rightarrow> 'f float_ops \<Rightarrow> (u32 \<Rightarrow> 'f) \<Rightarrow> nat \<Rightarrow> int \<Rightarrow> int \<Rightarrow> manager_event
    \<Rightarrow> ('f, 'w) System \<Rightarrow> ('f, 'w) System option" where
  "on_manager_event env tr fo dec own_uid minutes now e s =
    (case e of
       ClientUpdate i pkt \<Rightarrow> on_client_update env tr fo own_uid minutes now i (client_packet_of dec pkt) s
     | ClientErrorSeen i err \<Rightarrow> Some (on_client_error i (client_error_code err) s))"

end
