(* ===== verification/Cm_Exchange.thy ===== *)
theory Cm_Exchange
  imports Cm_Networking "HOL-Library.Sublist"
begin

unbundle bit_operations_syntax

section \<open>Charge manager networking: what arrives\<close>

text \<open>
  What one end sends is what the other end reads, what was not received is never read, and a charger follows one
  manager at a time.
\<close>

subsection \<open>Flags\<close>

lemma bit_flag [bit_simps]: "bit (flag b n :: 'a::len word) k \<longleftrightarrow> b \<and> k = n \<and> k < LENGTH('a)"
  by (auto simp: flag_def bit_simps)

lemma bit_flags: "bit (flags n bs :: 'a::len word) k \<longleftrightarrow> n \<le> k \<and> k < n + length bs \<and> bs ! (k - n) \<and> k < LENGTH('a)"
proof (induction bs arbitrary: n k)
  case (Cons b bs)
  show ?case
  proof (cases "k = n")
    case False
    then have "n < k \<Longrightarrow> (b # bs) ! (k - n) = bs ! (k - Suc n)" by (simp add: nth_Cons')
    then show ?thesis using False by (auto simp: Cons.IH bit_simps)
  qed (auto simp: Cons.IH bit_simps)
qed (simp add: bit_simps)

lemma received_complete: "length datagram = n \<Longrightarrow> length junk = n \<Longrightarrow> received n junk datagram = datagram"
  by (simp add: received_def)

subsection \<open>From the manager to the charger\<close>

definition update_in_range :: "manager_update \<Rightarrow> bool" where
  "update_in_range u \<longleftrightarrow> upd_current u < 2 ^ 16 \<and> upd_phases u < 2 ^ 7"

lemma config_mode_code_less: "config_mode_code m < 10"
  by (cases m) simp_all

lemma feedback_code_less: "feedback_code f < 4"
  by (cases f) simp_all

definition told :: "byte list \<Rightarrow> manager_update \<Rightarrow> manager_command" where
  "told supported u = \<lparr>mc_current = upd_current u, mc_ignore_allocation = upd_ignore_allocation u,
     mc_cp_disconnect = upd_cp_disconnect u, mc_phases = int (upd_phases u), mc_charge_mode = config_mode_code (upd_charge_mode u),
     mc_supported_modes = filter (\<lambda>i. bit (supported ! (i div 8)) (i mod 8)) [0..<9],
     mc_auth_feedback = feedback_code (upd_auth_feedback u)\<rparr>"

lemma sent_command_valid:
  "command_valid (manager_update_packet junk sn supported u) \<longleftrightarrow> length supported = 2"
  by (simp add: manager_update_packet_def command_valid_def)

lemma sent_command_header:
  "validate_command_packet_header (manager_update_packet junk sn supported u) 20 = None"
  by (simp add: validate_command_packet_header_def validate_packet_header_common_def validate_protocol_version_def
      manager_update_packet_def cm_command_packet_length_versions_def)

lemma sent_seq_num: "pkh_seq_num (cmd_header (manager_update_packet junk sn supported u)) = sn"
  by (simp add: manager_update_packet_def)

lemma sint_small: "n < 2 ^ 7 \<Longrightarrow> sint (of_nat n :: byte) = int n"
  by (simp add: signed_of_nat signed_take_bit_int_eq_self)

lemma callback_told:
  assumes "update_in_range u"
  shows "client_callback (CommandAccepted (manager_update_packet junk sn supported u)) = told supported u"
  using assms config_mode_code_less[of "upd_charge_mode u"] feedback_code_less[of "upd_auth_feedback u"]
  by (simp add: client_callback_def told_def manager_update_packet_def update_in_range_def sint_small bit_simps
      unat_of_nat take_bit_nat_eq_self Let_def)


text \<open>The charger takes what is not stale from the manager it follows.\<close>

definition follows :: "'a \<Rightarrow> u16 \<Rightarrow> 'a cm_client \<Rightarrow> bool" where
  "follows addr sn c \<longleftrightarrow> manager_addr_valid c \<and> manager_addr c = Some addr \<and> \<not> seq_num_invalid sn (cl_last_seen_seq_num c)"

lemma client_task_accepts:
  assumes "command_valid p" "validate_command_packet_header p 20 = None" "follows addr (pkh_seq_num (cmd_header p)) c"
    "length junk = 20"
  shows "client_task deadline now junk (Some (addr, command_bytes p)) c =
    (c\<lparr>cl_last_seen_seq_num := pkh_seq_num (cmd_header p), last_successful_recv := now\<rparr>, Some (CommandAccepted p))"
  using assms by (simp add: client_task_def received_complete command_codec.length_enc command_codec.dec_enc
      follows_def client_accept_def Let_def)

text \<open>The modes that the manager offers are the modes that the charger gets.\<close>

lemma supported_bitmask_length [simp]: "length (supported_bitmask ms bytes) = length bytes"
  by (induction ms bytes rule: supported_bitmask.induct) (simp_all add: Let_def)

lemma supported_told:
  "set (filter (\<lambda>i. bit (supported_bitmask (update_supported_charge_modes has_pv has_eco) [0, 0] ! (i div 8)) (i mod 8)) [0..<9])
    = config_mode_code ` set (update_supported_charge_modes has_pv has_eco)"
  by (cases has_pv; cases has_eco; simp add: update_supported_charge_modes_def upt_rec bit_simps)
    (auto simp: eval_nat_numeral)

text \<open>
  Claim C13. What the manager decides for a charger is what the charger is told, after the packet has been written into
  20 bytes, sent and read again: current, phases, control pilot, mode, the modes that can be chosen and the
  answer to a tag.
\<close>

theorem command_roundtrip:
  assumes "update_in_range u" "follows addr sn c" "length junk' = 20" "has_socket s" "is_resolved s (upd_client u)"
    "\<forall>dest bytes. sendto dest bytes = SentBytes (length bytes)"
  shows "\<exists>bytes c' e. send_manager_update no_filter sendto s junk (supported_bitmask (update_supported_charge_modes has_pv has_eco) [0, 0]) u (sn, ())
             = (True, Some (dev_addr (devices s ! upd_client u), bytes), sn + 1, ())
         \<and> client_task deadline now junk' (Some (addr, bytes)) c = (c', Some e) \<and> follows addr (sn + 1) c'
         \<and> client_callback e = told (supported_bitmask (update_supported_charge_modes has_pv has_eco) [0, 0]) u
         \<and> set (mc_supported_modes (client_callback e)) = config_mode_code ` set (update_supported_charge_modes has_pv has_eco)"
proof -
  define modes where "modes = update_supported_charge_modes has_pv has_eco"
  let ?p = "manager_update_packet junk sn (supported_bitmask modes [0, 0]) u"
  have f: "follows addr (pkh_seq_num (cmd_header ?p)) c" using assms(2) by (simp add: sent_seq_num)
  have "send_manager_update no_filter sendto s junk (supported_bitmask modes [0, 0]) u (sn, ())
      = (True, Some (dev_addr (devices s ! upd_client u), command_bytes ?p), sn + 1, ())"
    using assms(4-6) by (simp add: send_manager_update_def send_command_packet_def no_filter_def)
  moreover have "client_task deadline now junk' (Some (addr, command_bytes ?p)) c
      = (c\<lparr>cl_last_seen_seq_num := sn, last_successful_recv := now\<rparr>, Some (CommandAccepted ?p))"
    using client_task_accepts[OF _ sent_command_header f assms(3), of deadline now] by (simp add: sent_command_valid sent_seq_num)
  moreover have "follows addr (sn + 1) (c\<lparr>cl_last_seen_seq_num := sn, last_successful_recv := now\<rparr>)"
    using assms(2) next_seq_num_valid[of sn] by (simp add: follows_def)
  moreover have "client_callback (CommandAccepted ?p) = told (supported_bitmask modes [0, 0]) u"
    by (rule callback_told[OF assms(1)])
  moreover have "set (mc_supported_modes (told (supported_bitmask modes [0, 0]) u)) = config_mode_code ` set modes"
    using supported_told[of has_pv has_eco] by (simp add: told_def modes_def)
  ultimately show ?thesis unfolding modes_def by metis
qed

definition demo_update :: manager_update where
  "demo_update = \<lparr>upd_client = 0, upd_ignore_allocation = False, upd_current = 16000, upd_cp_disconnect = False,
     upd_phases = 3, upd_charge_mode = ModePV, upd_auth_feedback = FeedbackAck, upd_central = True\<rparr>"

definition demo_command_packet :: cm_command_packet where
  "demo_command_packet = \<lparr>cmd_header = \<lparr>pkh_magic = 0, pkh_length = 0, pkh_seq_num = 0, pkh_version = 0, pkh_padding = 0\<rparr>,
     cmd_allocated_current = 0, cmd_flags = 0, cmd_allocated_phases = 0, cmd_charge_mode = 0,
     cmd_supported_charge_modes = [0, 0], cmd_padding_v3 = 0, cmd_auth_feedback = 0, cmd_padding_v4 = [0, 0, 0]\<rparr>"

definition demo_client :: "nat cm_client" where
  "demo_client = \<lparr>last_manager_addr_change = 0, manager_addr_valid = True, manager_addr = Some 7, cl_last_seen_seq_num = 4,
     last_successful_recv = 0\<rparr>"

definition demo_network :: networking where
  "demo_network = register_manager (\<lambda>_. Some (IPv4 [10, 0, 0, 2])) True [''10.0.0.2'']"

theorem command_roundtrip_witness:
  "\<exists>bytes c' e. send_manager_update no_filter (\<lambda>dest bytes. SentBytes (length bytes)) demo_network demo_command_packet
       (supported_bitmask (update_supported_charge_modes True False) [0, 0]) demo_update (5, ())
         = (True, Some (replicate 10 0 @ [255, 255, 10, 0, 0, 2], bytes), 6, ())
     \<and> client_task (\<lambda>now t. t \<le> now) 1 (replicate 20 0) (Some (7, bytes)) demo_client = (c', Some e)
     \<and> mc_current (client_callback e) = 16000"
proof -
  have "update_in_range demo_update" "follows 7 5 demo_client"
    by (simp_all add: demo_update_def update_in_range_def demo_client_def follows_def seq_num_invalid_def)
  moreover have "has_socket demo_network" "is_resolved demo_network (upd_client demo_update)"
    "dev_addr (devices demo_network ! upd_client demo_update) = replicate 10 0 @ [255, 255, 10, 0, 0, 2]"
    by (simp_all add: demo_network_def register_manager_def register_device_def is_resolved_def demo_update_def)
  ultimately show ?thesis
    using command_roundtrip[of demo_update 7 5 demo_client "replicate 20 0" demo_network "\<lambda>dest bytes. SentBytes (length bytes)"
        demo_command_packet True False "\<lambda>now t. t \<le> now" 1]
    by (fastforce simp: told_def demo_update_def)
qed

subsection \<open>From the charger to the manager\<close>

lemma mask_set_iff_bit: "unat (w :: 'a::len word) AND 2 ^ k \<noteq> 0 \<longleftrightarrow> bit w k"
  by (simp add: and_exp_eq_0_iff_not_bit bit_simps)

lemmas reads_bit = CM_FEATURE_FLAGS_URGENT_IS_SET_def CM_FEATURE_FLAGS_REQUEST_REALLOCATION_IS_SET_def
  CM_FEATURE_FLAGS_CP_DISCONNECT_IS_SET_def CM_FEATURE_FLAGS_METER_IS_SET_def CM_STATE_FLAGS_CP_DISCONNECTED_IS_SET_def
  CM_STATE_V3_CAN_PHASE_SWITCH_IS_SET_def CM_STATE_V3_CURRENTLY_SWITCHING_IS_SET_def

definition api_ok :: "charger_api \<Rightarrow> bool" where
  "api_ok api \<longleftrightarrow> length (api_features api) = 8 \<and> length (api_meter_phases api) = 6 \<and> length (api_line_voltages api) = 3
     \<and> length (api_line_currents api) = 3 \<and> length (api_line_power_factors api) = 3 \<and> length (api_meter_values api) = 3
     \<and> length (api_authentications api) = 3"

lemma hex_bytes_length: "length (hex_bytes n str) \<le> n"
  by (simp add: hex_bytes_def)

lemma auth_info_of_valid: "auth_valid (auth_info_of now e)"
  using hex_bytes_length[of 10 "ae_text e"] hex_bytes_length[of 6 "ae_text e"]
  by (simp add: auth_info_of_def auth_valid_def Let_def)

lemma sent_state_valid:
  assumes "api_ok api" "state_valid junk"
  shows "state_valid (client_update_packet mA now junk sn api r)"
proof -
  obtain a b c where "api_authentications api = [a, b, c]"
    using assms(1) by (auto simp: api_ok_def numeral_eq_Suc length_Suc_conv)
  moreover have "auth_valid (a\<lparr>wa_first := x\<rparr>) = auth_valid a" for a x by (simp add: auth_valid_def)
  ultimately show ?thesis
    using assms by (simp add: state_valid_def client_update_packet_def state_floats_def api_ok_def auth_info_of_valid)
qed

lemma sent_state_header: "validate_state_packet_header (client_update_packet mA now junk sn api r) 136 = None"
  by (simp add: validate_state_packet_header_def validate_packet_header_common_def validate_protocol_version_def
      client_update_packet_def cm_state_packet_length_versions_def)

lemma receive_sent_state:
  assumes "find_device source ds = Some i" "\<not> seq_num_invalid sn (dev_last_seen_seq_num (ds ! i))" "cr_managed r"
    "api_ok api" "state_valid junk"
  shows "receive_state (state_bytes (client_update_packet mA now junk sn api r)) source 136 ds =
    (ds[i := (ds ! i)\<lparr>dev_last_seen_seq_num := sn\<rparr>], [ClientUpdate i (client_update_packet mA now junk sn api r)], True)"
proof -
  have "pkh_seq_num (st_header (client_update_packet mA now junk sn api r)) = sn"
    "bit (st_state_flags (client_update_packet mA now junk sn api r)) 7"
    using assms(3) by (simp_all add: client_update_packet_def bit_simps)
  then show ?thesis
    using assms by (simp add: receive_state_def state_codec.dec_enc sent_state_valid sent_state_header Let_def)
qed

lemma unat_and_3: "unat (w AND 3 :: byte) = unat w AND 3"
  by (simp add: unsigned_and_eq)

lemma read_flags:
  assumes "api_ok api" "cr_phases r < 4"
  shows "CM_FEATURE_FLAGS_URGENT_IS_SET (unat (st_feature_flags (client_update_packet mA now junk sn api r))) = cr_urgent r"
    "CM_FEATURE_FLAGS_REQUEST_REALLOCATION_IS_SET (unat (st_feature_flags (client_update_packet mA now junk sn api r)))
      = cr_request_reallocation r"
    "CM_FEATURE_FLAGS_CP_DISCONNECT_IS_SET (unat (st_feature_flags (client_update_packet mA now junk sn api r)))
      = api_features api ! 6"
    "CM_FEATURE_FLAGS_METER_IS_SET (unat (st_feature_flags (client_update_packet mA now junk sn api r)))
      = api_features api ! FEATURE_METER"
    "CM_STATE_FLAGS_CP_DISCONNECTED_IS_SET (unat (st_state_flags (client_update_packet mA now junk sn api r)))
      = cr_cp_disconnected_state r"
    "CM_STATE_V3_CAN_PHASE_SWITCH_IS_SET (unat (st_phases (client_update_packet mA now junk sn api r)))
      = cr_can_switch_phases_now r"
    "CM_STATE_V3_CURRENTLY_SWITCHING_IS_SET (unat (st_phases (client_update_packet mA now junk sn api r)))
      = cr_currently_switching_phases r"
    "CM_STATE_V3_PHASES_CONNECTED_GET (unat (st_phases (client_update_packet mA now junk sn api r))) = unat (cr_phases r)"
proof -
  have high: "\<not> bit (cr_phases r) n" if "n \<ge> 2" for n
    using no_high_bits[of "cr_phases r" 2 n] assms(2) that by (simp add: word_less_nat_alt)
  show "CM_FEATURE_FLAGS_URGENT_IS_SET (unat (st_feature_flags (client_update_packet mA now junk sn api r))) = cr_urgent r"
    "CM_FEATURE_FLAGS_REQUEST_REALLOCATION_IS_SET (unat (st_feature_flags (client_update_packet mA now junk sn api r)))
      = cr_request_reallocation r"
    "CM_FEATURE_FLAGS_CP_DISCONNECT_IS_SET (unat (st_feature_flags (client_update_packet mA now junk sn api r)))
      = api_features api ! 6"
    "CM_FEATURE_FLAGS_METER_IS_SET (unat (st_feature_flags (client_update_packet mA now junk sn api r)))
      = api_features api ! FEATURE_METER"
    "CM_STATE_FLAGS_CP_DISCONNECTED_IS_SET (unat (st_state_flags (client_update_packet mA now junk sn api r)))
      = cr_cp_disconnected_state r"
    "CM_STATE_V3_CAN_PHASE_SWITCH_IS_SET (unat (st_phases (client_update_packet mA now junk sn api r)))
      = cr_can_switch_phases_now r"
    "CM_STATE_V3_CURRENTLY_SWITCHING_IS_SET (unat (st_phases (client_update_packet mA now junk sn api r)))
      = cr_currently_switching_phases r"
    unfolding reads_bit mask_set_iff_bit
    using assms(1) high by (simp_all add: client_update_packet_def api_ok_def bit_simps bit_flags)
  have three: "(3 :: byte) = mask 2" by (simp add: mask_eq_exp_minus_1)
  have "st_phases (client_update_packet mA now junk sn api r) AND 3 = cr_phases r"
    unfolding three
    by (rule bit_word_eqI) (use high in \<open>auto simp: client_update_packet_def bit_simps linorder_not_less [symmetric]\<close>)
  then show "CM_STATE_V3_PHASES_CONNECTED_GET (unat (st_phases (client_update_packet mA now junk sn api r))) = unat (cr_phases r)"
    by (metis CM_STATE_V3_PHASES_CONNECTED_GET_def unat_and_3)
qed


text \<open>What the readers of the charge manager find in a packet is what the charger reports.\<close>

definition v1_reported :: "charger_api \<Rightarrow> (u32 \<Rightarrow> int) \<Rightarrow> (u32 \<Rightarrow> 'f) \<Rightarrow> client_report \<Rightarrow> 'f cm_state_v1 \<Rightarrow> bool" where
  "v1_reported api mA dec r v1 \<longleftrightarrow>
     CM_FEATURE_FLAGS_URGENT_IS_SET (v1_feature_flags v1) = cr_urgent r
     \<and> CM_FEATURE_FLAGS_REQUEST_REALLOCATION_IS_SET (v1_feature_flags v1) = cr_request_reallocation r
     \<and> CM_FEATURE_FLAGS_CP_DISCONNECT_IS_SET (v1_feature_flags v1) = api_features api ! 6
     \<and> CM_FEATURE_FLAGS_METER_IS_SET (v1_feature_flags v1) = api_features api ! FEATURE_METER
     \<and> CM_STATE_FLAGS_CP_DISCONNECTED_IS_SET (v1_state_flags v1) = cr_cp_disconnected_state r
     \<and> v1_esp32_uid v1 = unat (cr_esp32_uid r) \<and> v1_evse_uptime v1 = unat (cr_uptime r)
     \<and> v1_car_stopped_charging v1 = unat (cr_car_stopped_charging r) \<and> v1_charger_state v1 = unat (cr_charger_state r)
     \<and> v1_iec61851_state v1 = unat (cr_iec61851_state r) \<and> v1_error_state v1 = unat (cr_error_state r)
     \<and> v1_allowed_charging_current v1 = unat (cr_allowed_charging_current r)
     \<and> v1_supported_current v1 = unat (cr_supported_current r)
     \<and> (api_features api ! FEATURE_METER_ALL_VALUES
         \<longrightarrow> v1_line_currents v1 = map (\<lambda>x. dec (if mA x = 0 then MINUS_1_MA_BITS else x)) (api_line_currents api))
     \<and> (api_features api ! FEATURE_METER \<longrightarrow> [v1_power_total v1, v1_energy_rel v1, v1_energy_abs v1] = map dec (api_meter_values api))"

definition v3_reported :: "client_report \<Rightarrow> cm_state_v3 \<Rightarrow> bool" where
  "v3_reported r v3 \<longleftrightarrow> CM_STATE_V3_PHASES_CONNECTED_GET (v3_phases v3) = unat (cr_phases r)
     \<and> CM_STATE_V3_CAN_PHASE_SWITCH_IS_SET (v3_phases v3) = cr_can_switch_phases_now r
     \<and> CM_STATE_V3_CURRENTLY_SWITCHING_IS_SET (v3_phases v3) = cr_currently_switching_phases r"

definition reported :: "charger_api \<Rightarrow> (u32 \<Rightarrow> int) \<Rightarrow> (u32 \<Rightarrow> 'f) \<Rightarrow> client_report \<Rightarrow> 'f client_packet \<Rightarrow> bool" where
  "reported api mA dec r q \<longleftrightarrow> v1_reported api mA dec r (pkt_v1 q)
     \<and> pkt_v2 q = Some \<lparr>v2_time_since_state_change = unat (cr_time_since_state_change r)\<rparr>
     \<and> (\<exists>v3. pkt_v3 q = Some v3 \<and> v3_reported r v3)
     \<and> Option.bind (pkt_v4 q) config_mode_of_code = Some (cr_requested_charge_mode r)
     \<and> map_option length (pkt_v5 q) = Some 3"

lemma mode_of_sent_code: "config_mode_of_code (unat (of_nat (config_mode_code m) :: byte)) = Some m"
  using config_mode_code_less[of m] config_mode_code_inverse[of m] by (simp add: unat_of_nat take_bit_nat_eq_self)

lemma list_of_3: "length xs = 3 \<Longrightarrow> map f [0..<3] = xs \<longleftrightarrow> f 0 = xs ! 0 \<and> f 1 = xs ! 1 \<and> f 2 = xs ! 2"
  by (auto simp: list_eq_iff_nth_eq less_Suc_eq numeral_eq_Suc)

lemma sent_v1_reported:
  assumes "api_ok api" "cr_phases r < 4"
  shows "v1_reported api mA dec r (pkt_v1 (client_packet_of dec (client_update_packet mA now junk sn api r)))"
proof -
  obtain a b c d e f g h i where l: "api_line_currents api = [a, b, c]" "api_line_voltages api = [d, e, f]" "api_meter_values api = [g, h, i]"
    using assms(1) by (auto simp: api_ok_def numeral_eq_Suc length_Suc_conv)
  obtain j k m where p: "api_line_power_factors api = [j, k, m]"
    using assms(1) by (auto simp: api_ok_def numeral_eq_Suc length_Suc_conv)
  show ?thesis
    unfolding v1_reported_def
    by (intro conjI impI; simp add: client_packet_of_def Let_def read_flags[OF assms])
      (simp_all add: client_update_packet_def state_floats_def l p upt_rec nth_append)
qed

lemma sent_reported:
  assumes "api_ok api" "cr_phases r < 4"
  shows "reported api mA dec r (client_packet_of dec (client_update_packet mA now junk sn api r))"
proof -
  have a: "length (api_authentications api) = 3" using assms(1) by (simp add: api_ok_def)
  then have first: "api_authentications api \<noteq> []" by auto
  show ?thesis
    unfolding reported_def
    by (intro conjI sent_v1_reported[OF assms]; simp add: client_packet_of_def Let_def v3_reported_def read_flags[OF assms])
      (simp_all add: client_update_packet_def Let_def a first mode_of_sent_code)
qed

text \<open>
  Claim C14. What a charger reports is what the charge manager takes over: the packet it sends is read back from its 136
  bytes as version 5, is attributed to this charger, and the manager's own readers find the urgency, the features,
  the phases, the currents, the measured values (an exact zero current as -1 mA) and the requested mode that
  were reported.
\<close>

theorem state_roundtrip:
  assumes "api_ok api" "state_valid junk" "length buf = 136" "cr_managed r" "cr_phases r < 4"
    "manager_addr_valid c" "manager_addr c = Some m" "\<forall>dest bytes. sendto dest bytes = SentBytes (length bytes)"
    "find_device source ds = Some i" "\<not> seq_num_invalid sn (dev_last_seen_seq_num (ds ! i))"
  shows "\<exists>bytes p. send_client_update mA sendto now junk api r c sn = (True, Some (m, bytes), sn + 1)
    \<and> manager_poll 10 buf [(source, bytes)] ds = (ds[i := (ds ! i)\<lparr>dev_last_seen_seq_num := sn\<rparr>], [ClientUpdate i p])
    \<and> reported api mA dec r (client_packet_of dec p)"
proof -
  let ?p = "client_update_packet mA now junk sn api r"
  have len: "length (state_bytes ?p) = 136" using sent_state_valid[OF assms(1,2)] by (simp add: state_codec.length_enc)
  then have poll: "manager_poll (Suc n) buf [(source, state_bytes ?p)] ds
      = (ds[i := (ds ! i)\<lparr>dev_last_seen_seq_num := sn\<rparr>], [ClientUpdate i ?p])" for n
    using receive_sent_state[OF assms(9,10,4,1,2)] assms(3) by (simp add: received_complete)
  have "send_client_update mA sendto now junk api r c sn = (True, Some (m, state_bytes ?p), sn + 1)"
    using assms(6-8) len by (simp add: send_client_update_def send_state_packet_def)
  then show ?thesis using poll[of 9] sent_reported[OF assms(1,5)] by fastforce
qed

definition demo_api :: charger_api where
  "demo_api = \<lparr>api_features = [True, True, True, True, True, True, True, False], api_meter_phases = replicate 6 True,
     api_line_voltages = [1, 2, 3], api_line_currents = [0, 5, 6], api_line_power_factors = [7, 8, 9],
     api_meter_values = [10, 11, 12],
     api_authentications = replicate 3 \<lparr>ae_seen_at = 5, ae_method = 2, ae_tag_type = 1, ae_text = ''AB:CD''\<rparr>\<rparr>"

definition demo_report :: client_report where
  "demo_report = \<lparr>cr_esp32_uid = 77, cr_iec61851_state = 2, cr_charger_state = 3, cr_time_since_state_change = 9,
     cr_error_state = 0, cr_uptime = 1000, cr_car_stopped_charging = 0, cr_allowed_charging_current = 16000,
     cr_supported_current = 32000, cr_managed = True, cr_cp_disconnected_state = False, cr_phases = 3,
     cr_can_switch_phases_now = True, cr_currently_switching_phases = False, cr_requested_charge_mode = ModeEcoPV,
     cr_urgent = True, cr_request_reallocation = False\<rparr>"

definition demo_state_packet :: cm_state_packet where
  "demo_state_packet = \<lparr>st_header = \<lparr>pkh_magic = 0, pkh_length = 0, pkh_seq_num = 0, pkh_version = 0, pkh_padding = 0\<rparr>,
     st_feature_flags = 0, st_esp32_uid = 0, st_evse_uptime = 0, st_car_stopped_charging = 0, st_allowed_charging_current = 0,
     st_supported_current = 0, st_iec61851_state = 0, st_charger_state = 0, st_error_state = 0, st_state_flags = 0,
     st_floats = replicate 12 0, st_time_since_state_change = 0, st_phases = 0, st_padding_v3 = [0, 0, 0],
     st_auth_info = replicate 3 \<lparr>wa_first = 0, wa_method = 0, wa_last_seen_s = 0, wa_data = replicate 12 0\<rparr>\<rparr>"

definition demo_devices :: "managed_device list" where
  "demo_devices = [register_device (\<lambda>_. None) ''a.local'', register_device (\<lambda>_. Some (IPv4 [10, 0, 0, 2])) ''10.0.0.2'']"

lemma demo_state_ok:
  "api_ok demo_api" "state_valid demo_state_packet" "cr_managed demo_report" "cr_phases demo_report < 4"
  "find_device (replicate 10 0 @ [255, 255, 10, 0, 0, 2], CHARGE_MANAGEMENT_PORT) demo_devices = Some 1"
  "\<not> seq_num_invalid 6 (dev_last_seen_seq_num (demo_devices ! 1))"
  by (simp_all add: api_ok_def demo_api_def state_valid_def auth_valid_def demo_state_packet_def demo_report_def demo_devices_def
      register_device_def Let_def seq_num_invalid_def unsigned_minus_1_eq_mask mask_eq_exp_minus_1)
    (simp_all add: numeral_eq_Suc auth_valid_def)

theorem state_roundtrip_witness:
  "\<exists>bytes p. send_client_update uint (\<lambda>dest bytes. SentBytes (length bytes)) 20 demo_state_packet demo_api demo_report demo_client 6
       = (True, Some (7, bytes), 7)
     \<and> snd (manager_poll 10 (replicate 136 0) [((replicate 10 0 @ [255, 255, 10, 0, 0, 2], CHARGE_MANAGEMENT_PORT), bytes)] demo_devices)
       = [ClientUpdate 1 p]
     \<and> reported demo_api uint uint demo_report (client_packet_of uint p)"
proof -
  have "manager_addr_valid demo_client" "manager_addr demo_client = Some 7" by (simp_all add: demo_client_def)
  then show ?thesis
    using state_roundtrip[OF demo_state_ok(1,2) _ demo_state_ok(3,4) _ _ _ demo_state_ok(5,6), of "replicate 136 0" demo_client 7
        "\<lambda>dest bytes. SentBytes (length bytes)" uint 20 uint] by fastforce
qed

subsection \<open>What was not received is not read\<close>

lemma same_part:
  assumes "take n bs = take n bs'" "pos + k \<le> n"
  shows "take k (drop pos bs) = take k (drop pos bs')"
proof -
  have "take (pos + k) bs = take (pos + k) bs'" using assms by (metis min.absorb1 take_take)
  then show ?thesis by (metis add.commute drop_take take_drop)
qed

lemma same_nth: "take n bs = take n bs' \<Longrightarrow> i < n \<Longrightarrow> bs ! i = bs' ! i"
  by (metis nth_take)

lemma same_get:
  assumes "take n bs = take n bs'"
  shows "pos + 2 \<le> n \<Longrightarrow> get_u16 pos bs = get_u16 pos bs'" "pos + 4 \<le> n \<Longrightarrow> get_u32 pos bs = get_u32 pos bs'"
  using same_part[OF assms] by (simp_all add: get_u16_def get_u32_def)

lemma same_header:
  assumes "take n bs = take n bs'" "8 \<le> n"
  shows "header_of_bytes bs = header_of_bytes bs'"
  using assms(2) same_get[OF assms(1)] same_nth[OF assms(1)] by (simp add: header_of_bytes_def)

text \<open>The length of a packet that passes the checks is the one of its version.\<close>

lemma validated_state_length:
  assumes "validate_state_packet_header p n = None"
  shows "8 \<le> n" "1 \<le> unat (pkh_version (st_header p))"
    "n = cm_state_packet_length_versions ! min (unat (pkh_version (st_header p))) 5"
  using assms by (auto simp: validate_state_packet_header_def validate_packet_header_common_def validate_protocol_version_def
      Let_def split: if_splits option.splits)

lemma same_client_packet:
  assumes "take n bs = take n bs'" "validate_state_packet_header (state_of_bytes bs) n = None"
  shows "client_packet_of dec (state_of_bytes bs) = client_packet_of dec (state_of_bytes bs')"
proof -
  define v where "v = unat (pkh_version (header_of_bytes bs))"
  have h: "st_header (state_of_bytes b) = header_of_bytes b" for b by (simp add: state_of_bytes_def)
  have n: "8 \<le> n" "1 \<le> v" "n = cm_state_packet_length_versions ! min v 5"
    using validated_state_length[OF assms(2)] by (simp_all add: h v_def)
  have same: "header_of_bytes bs = header_of_bytes bs'" by (rule same_header[OF assms(1) n(1)])
  have len: "80 \<le> n" "2 \<le> v \<Longrightarrow> 84 \<le> n" "3 \<le> v \<Longrightarrow> 88 \<le> n" "4 \<le> v \<Longrightarrow> 92 \<le> n" "5 \<le> v \<Longrightarrow> 136 \<le> n"
    using n(2,3) by (auto simp: cm_state_packet_length_versions_def nth_Cons split: nat.splits)
  have floats: "st_floats (state_of_bytes bs) = st_floats (state_of_bytes bs')"
    using len(1) by (auto simp: state_of_bytes_def intro!: map_cong same_get[OF assms(1)])
  have auth: "st_auth_info (state_of_bytes bs) = st_auth_info (state_of_bytes bs')" if "5 \<le> v"
    using len(5)[OF that] by (auto simp: state_of_bytes_def intro!: map_cong arg_cong[where f = auth_of_bytes] same_part[OF assms(1)])
  have mode: "wa_first (st_auth_info (state_of_bytes bs) ! 0) = wa_first (st_auth_info (state_of_bytes bs') ! 0)" if "4 \<le> v"
  proof -
    have "take 1 (take 16 (drop 88 bs)) = take 1 (take 16 (drop 88 bs'))"
      using same_part[OF assms(1), of 88 1] len(4)[OF that] by simp
    then have "take 16 (drop 88 bs) ! 0 = take 16 (drop 88 bs') ! 0" by (metis less_numeral_extra(1) nth_take)
    then show ?thesis by (simp add: state_of_bytes_def auth_of_bytes_def)
  qed
  have v2: "2 \<le> v \<Longrightarrow> get_u32 80 bs = get_u32 80 bs'" using len(2) same_get[OF assms(1)] by simp
  have v3: "3 \<le> v \<Longrightarrow> bs ! 84 = bs' ! 84" using len(3) same_nth[OF assms(1)] by simp
  have vs: "unat (pkh_version (st_header (state_of_bytes bs))) = v" "unat (pkh_version (st_header (state_of_bytes bs'))) = v"
    using same by (simp_all add: h v_def)
  let ?p = "client_packet_of dec (state_of_bytes bs)" and ?p' = "client_packet_of dec (state_of_bytes bs')"
  have "pkt_v1 ?p = pkt_v1 ?p'"
    using len(1) same_get[OF assms(1)] same_nth[OF assms(1)] floats
    by (simp add: client_packet_of_def Let_def) (simp add: state_of_bytes_def)
  moreover have "pkt_v2 ?p = pkt_v2 ?p'" "pkt_v3 ?p = pkt_v3 ?p'"
    using v2 v3 by (simp_all add: client_packet_of_def Let_def vs) (simp_all add: state_of_bytes_def)
  moreover have "pkt_v4 ?p = pkt_v4 ?p'" "pkt_v5 ?p = pkt_v5 ?p'"
    using mode auth by (simp_all add: client_packet_of_def Let_def vs)
  ultimately show ?thesis by simp
qed

text \<open>What the callbacks of the charge manager get to see.\<close>

fun visible :: "(u32 \<Rightarrow> 'f) \<Rightarrow> manager_event \<Rightarrow> nat \<times> ('f client_packet + ClientError)" where
  "visible dec (ClientUpdate i p) = (i, Inl (client_packet_of dec p))"
| "visible dec (ClientErrorSeen i e) = (i, Inr e)"

lemma same_validation:
  assumes "take n bs = take n bs'"
  shows "validate_state_packet_header (state_of_bytes bs) n = validate_state_packet_header (state_of_bytes bs') n"
  using same_header[OF assms]
  by (simp add: validate_state_packet_header_def validate_packet_header_common_def state_of_bytes_def)

lemma same_receive:
  assumes "take n bs = take n bs'"
  shows "fst (receive_state bs source n ds) = fst (receive_state bs' source n ds)"
    "map (visible dec) (fst (snd (receive_state bs source n ds))) = map (visible dec) (fst (snd (receive_state bs' source n ds)))"
    "snd (snd (receive_state bs source n ds)) = snd (snd (receive_state bs' source n ds))"
proof -
  have seq: "pkh_seq_num (st_header (state_of_bytes bs)) = pkh_seq_num (st_header (state_of_bytes bs'))"
    and flags: "st_state_flags (state_of_bytes bs) = st_state_flags (state_of_bytes bs')"
    and packet: "client_packet_of dec (state_of_bytes bs) = client_packet_of dec (state_of_bytes bs')"
    if v: "validate_state_packet_header (state_of_bytes bs) n = None"
  proof -
    have n: "8 \<le> n" "80 \<le> n"
      using validated_state_length[OF v] by (auto simp: cm_state_packet_length_versions_def nth_Cons split: nat.splits)
    show "pkh_seq_num (st_header (state_of_bytes bs)) = pkh_seq_num (st_header (state_of_bytes bs'))"
      using same_header[OF assms n(1)] by (simp add: state_of_bytes_def)
    show "st_state_flags (state_of_bytes bs) = st_state_flags (state_of_bytes bs')"
      using same_nth[OF assms, of 31] n(2) by (simp add: state_of_bytes_def)
  qed (rule same_client_packet[OF assms v])
  then show "fst (receive_state bs source n ds) = fst (receive_state bs' source n ds)"
    "map (visible dec) (fst (snd (receive_state bs source n ds))) = map (visible dec) (fst (snd (receive_state bs' source n ds)))"
    "snd (snd (receive_state bs source n ds)) = snd (snd (receive_state bs' source n ds))"
    by (auto simp: receive_state_def Let_def same_validation[OF assms, symmetric] split: option.splits)
qed

lemma received_same:
  "take (min m (length datagram)) (received m buf datagram) = take (min m (length datagram)) (received m buf' datagram)"
  by (auto simp: received_def min_def)

lemma received_length: "length buf = m \<Longrightarrow> length (received m buf datagram) = m"
  by (auto simp: received_def min_def)




subsection \<open>One manager at a time\<close>

text \<open>A run of the task of a charger, and who it took commands from at which time.\<close>

type_synonym 'a receptions = "(int \<times> byte list \<times> ('a \<times> byte list) option) list"

definition accepted :: "int \<Rightarrow> ('a \<times> byte list) option \<Rightarrow> client_event option \<Rightarrow> (int \<times> 'a) list" where
  "accepted now r e = (case (r, e) of (Some (from_addr, _), Some (CommandAccepted _)) \<Rightarrow> [(now, from_addr)] | _ \<Rightarrow> [])"

fun accepted_run :: "(int \<Rightarrow> int \<Rightarrow> bool) \<Rightarrow> 'a receptions \<Rightarrow> 'a cm_client \<Rightarrow> (int \<times> 'a) list" where
  "accepted_run deadline [] c = []"
| "accepted_run deadline ((now, junk, r) # rs) c =
    (case client_task deadline now junk r c of (c', e) \<Rightarrow> accepted now r e @ accepted_run deadline rs c')"

lemma client_task_cases:
  assumes "client_task deadline now junk r c = (c', e)"
  obtains
    (rejected) "accepted now r e = []" "manager_addr c' = manager_addr c" "last_manager_addr_change c' = last_manager_addr_change c"
      "manager_addr_valid c' \<Longrightarrow> manager_addr_valid c"
  | (conflict) x where "accepted now r e = []" "manager_addr c' = Some x" "last_manager_addr_change c' = now" "\<not> manager_addr_valid c'"
  | (changed) x where "accepted now r e = [(now, x)]" "manager_addr c' = Some x" "last_manager_addr_change c' = now"
      "deadline now (last_manager_addr_change c + 60000000)"
  | (followed) x where "accepted now r e = [(now, x)]" "manager_addr c = Some x" "manager_addr c' = Some x"
      "last_manager_addr_change c' = last_manager_addr_change c"
      "manager_addr_valid c \<or> deadline now (last_manager_addr_change c + 60000000)"
proof -
  note task = client_task_def client_accept_def accepted_def Let_def
  show thesis
  proof (cases r)
    case None
    then show thesis using assms rejected by (auto simp: task split: if_splits)
  next
    case (Some fd)
    obtain x d where r: "r = Some (x, d)" using Some by (cases fd) simp
    let ?p = "command_of_bytes (received 20 junk d)"
    consider (bad) "validate_command_packet_header ?p (min 20 (length d)) \<noteq> None
        \<or> seq_num_invalid (pkh_seq_num (cmd_header ?p)) (cl_last_seen_seq_num c)"
      | (ok) "validate_command_packet_header ?p (min 20 (length d)) = None"
          "\<not> seq_num_invalid (pkh_seq_num (cmd_header ?p)) (cl_last_seen_seq_num c)" by blast
    then show thesis
    proof cases
      case bad
      then show thesis using assms rejected by (auto simp: task r split: if_splits)
    next
      case ok
      show thesis
      proof (cases "manager_addr c = Some x")
        case True
        then show thesis using assms ok rejected followed[of x] by (auto simp: task r split: if_splits)
      next
        case False
        then show thesis using assms ok conflict[of x] changed[of x] by (auto simp: task r split: if_splits)
      qed
    qed
  qed
qed

text \<open>While the followed manager is new or in doubt, nobody else gets through for a minute.\<close>

definition timed :: "int \<Rightarrow> 'a receptions \<Rightarrow> bool" where
  "timed t rs \<longleftrightarrow> sorted_wrt (\<le>) (t # map fst rs)"

lemma timed_Cons: "timed t ((now, junk, r) # rs) \<longleftrightarrow> t \<le> now \<and> timed now rs"
  by (auto simp: timed_def)

lemma timed_mono: "timed t rs \<Longrightarrow> s \<le> t \<Longrightarrow> timed s rs"
  by (auto simp: timed_def)

lemma accepted_run_time: "timed t rs \<Longrightarrow> (u, x) \<in> set (accepted_run deadline rs c) \<Longrightarrow> t \<le> u"
  by (induction deadline rs c arbitrary: t rule: accepted_run.induct)
    (fastforce simp: timed_Cons accepted_def split: option.splits client_event.splits prod.splits)+

lemma quiet_minute:
  assumes "\<forall>now t. deadline now t \<longrightarrow> t \<le> now" "timed (last_manager_addr_change c) rs"
    "(u, y) \<in> set (accepted_run deadline rs c)" "manager_addr c \<noteq> Some y \<or> \<not> manager_addr_valid c"
  shows "last_manager_addr_change c + 60000000 \<le> u"
  using assms(2-4)
proof (induction rs arbitrary: c)
  case (Cons ev rs)
  obtain now junk r where ev: "ev = (now, junk, r)" by (metis prod_cases3)
  obtain c' e where task: "client_task deadline now junk r c = (c', e)" by fastforce
  have t: "last_manager_addr_change c \<le> now" "timed now rs" using Cons.prems(1) by (simp_all add: ev timed_Cons)
  have mem: "(u, y) \<in> set (accepted now r e) \<or> (u, y) \<in> set (accepted_run deadline rs c')"
    using Cons.prems(2) by (simp add: ev task)
  from task show ?case
  proof (cases rule: client_task_cases)
    case rejected
    then show ?thesis using Cons.IH[of c'] Cons.prems(3) mem timed_mono[OF t(2,1)] by auto
  next
    case (conflict x)
    then show ?thesis using Cons.IH[of c'] mem t by auto
  next
    case (changed x)
    then show ?thesis using mem accepted_run_time[OF t(2), of u y deadline c'] assms(1) by fastforce
  next
    case (followed x)
    show ?thesis
    proof (cases "deadline now (last_manager_addr_change c + 60000000)")
      case True
      then show ?thesis using mem followed(1) accepted_run_time[OF t(2), of u y deadline c'] assms(1) by fastforce
    next
      case False
      then show ?thesis using followed Cons.IH[of c'] Cons.prems(3) mem timed_mono[OF t(2,1)] by auto
    qed
  qed
qed simp

lemma second_change:
  assumes "\<forall>now t. deadline now t \<longrightarrow> t \<le> now" "timed t rs" "last_manager_addr_change c \<le> t" "manager_addr c = Some x"
    "subseq [(u, y), (v, z)] (accepted_run deadline rs c)" "y \<noteq> x" "z \<noteq> y"
  shows "t + 60000000 \<le> v"
  using assms(2-5,6)
proof (induction rs arbitrary: c t x)
  case (Cons ev rs)
  obtain now junk r where ev: "ev = (now, junk, r)" by (metis prod_cases3)
  obtain c' e where task: "client_task deadline now junk r c = (c', e)" by fastforce
  have t: "t \<le> now" "timed now rs" using Cons.prems(1) by (simp_all add: ev timed_Cons)
  have sub: "subseq [(u, y), (v, z)] (accepted now r e @ accepted_run deadline rs c')" using Cons.prems(4) by (simp add: ev task)
  have later: "now + 60000000 \<le> v"
    if "last_manager_addr_change c' = now" "manager_addr c' = Some w" "subseq [(u, y), (v, z)] (accepted_run deadline rs c')" for w
  proof (cases "w = y")
    case True
    have "(v, z) \<in> set (accepted_run deadline rs c')" using that(3) by (auto dest: list_emb_set)
    then show ?thesis using quiet_minute[OF assms(1), of c' rs v z] that(1,2) True assms(7) t(2) by simp
  next
    case False
    then show ?thesis using Cons.IH[OF t(2) _ that(2,3)] that(1) by auto
  qed
  from task show ?case
  proof (cases rule: client_task_cases)
    case rejected
    then show ?thesis using Cons.IH[OF timed_mono[OF t(2,1)], of c' x] Cons.prems sub by simp
  next
    case (conflict w)
    then show ?thesis using later[of w] sub t by simp
  next
    case (changed w)
    show ?thesis
    proof (cases "(u, y) = (now, w)")
      case True
      then have "(v, z) \<in> set (accepted_run deadline rs c')" using sub changed(1) by (auto dest: list_emb_set)
      then show ?thesis using quiet_minute[OF assms(1), of c' rs v z] changed True assms(7) t by simp
    next
      case False
      then show ?thesis using later[of w] changed sub t by (simp add: subseq_Cons2_iff split: if_splits)
    qed
  next
    case (followed w)
    then have "(u, y) \<noteq> (now, w)" using Cons.prems(3,5) by auto
    then show ?thesis using followed Cons.IH[OF timed_mono[OF t(2,1)], of c' x] Cons.prems sub
      by (simp split: if_splits)
  qed
qed simp

text \<open>
  Claim C12. A charger is not driven by several managers in turn. When it takes a command from x, later one from another
  sender y and then one from somebody other than y, at least a minute lies between the first and the last of them: each
  change of the manager needs a minute without another change, and until then charging is blocked.
\<close>

theorem one_manager_per_minute:
  assumes "\<forall>now t. deadline now t \<longrightarrow> t \<le> now" "timed (last_manager_addr_change c) rs"
    "subseq [(t, x), (u, y), (v, z)] (accepted_run deadline rs c)" "y \<noteq> x" "z \<noteq> y"
  shows "t + 60000000 \<le> v"
  using assms(2,3)
proof (induction rs arbitrary: c)
  case (Cons ev rs)
  obtain now junk r where ev: "ev = (now, junk, r)" by (metis prod_cases3)
  obtain c' e where task: "client_task deadline now junk r c = (c', e)" by fastforce
  have n: "last_manager_addr_change c \<le> now" "timed now rs" using Cons.prems(1) by (simp_all add: ev timed_Cons)
  have c': "last_manager_addr_change c' \<le> now
      \<and> (accepted now r e = [] \<or> (\<exists>w. accepted now r e = [(now, w)] \<and> manager_addr c' = Some w))"
    using task n(1) by (cases rule: client_task_cases) simp_all
  have sub: "subseq [(t, x), (u, y), (v, z)] (accepted now r e @ accepted_run deadline rs c')"
    using Cons.prems(2) by (simp add: ev task)
  show ?case
  proof (cases "accepted now r e = [(t, x)]")
    case True
    then show ?thesis using second_change[OF assms(1) n(2), of c' x u y v z] c' sub assms(4,5) by auto
  next
    case False
    then have "subseq [(t, x), (u, y), (v, z)] (accepted_run deadline rs c')" using sub c' by (auto split: if_splits)
    then show ?thesis using Cons.IH[OF timed_mono[OF n(2)], of c'] c' by simp
  qed
qed simp

text \<open>Three managers that send once a minute.\<close>

definition demo_receptions :: "nat receptions" where
  "demo_receptions = map (\<lambda>k. (60000000 * int k, replicate 20 0, Some (k, command_bytes
     (manager_update_packet demo_command_packet (of_nat k) [0, 0] demo_update)))) [1, 2, 3]"

theorem one_manager_per_minute_witness:
  "accepted_run (\<lambda>now t. t \<le> now) demo_receptions (new_client 0 :: nat cm_client) = [(60000000, 1), (120000000, 2), (180000000, 3)]
    \<and> (60000000 :: int) + 60000000 \<le> 180000000"
proof -
  have run: "accepted_run (\<lambda>now t. t \<le> now) demo_receptions (new_client 0 :: nat cm_client)
      = [(60000000, 1), (120000000, 2), (180000000, 3)]"
    by (simp add: demo_receptions_def new_client_def client_task_def received_complete command_codec.length_enc
        command_codec.dec_enc sent_command_valid sent_command_header sent_seq_num client_accept_def accepted_def
        seq_num_invalid_def word_le_nat_alt Let_def)
  have timed: "timed (last_manager_addr_change (new_client 0 :: nat cm_client)) demo_receptions"
    by (simp add: timed_def demo_receptions_def new_client_def)
  show ?thesis
    using one_manager_per_minute[of "\<lambda>now t. t \<le> now" "new_client 0 :: nat cm_client" demo_receptions 60000000 1 120000000 2 180000000 3] run timed
    by simp
qed

end
