(* ===== verification/Cm_Resolving.thy ===== *)
theory Cm_Resolving
  imports Cm_Networking "HOL-Library.Multiset"
begin

section \<open>Charge manager networking: resolving host names\<close>

text \<open>
  How the manager finds the addresses of its chargers (\<^verbatim>\<open>cm_mdns.cpp\<close>): chargers with a DNS name are looked up one
  after the other, again and again until each has an address; chargers with a local name are found by scans.
  What a function starts (a lookup, a later retry, a scan) is a list of requests; a lookup that is answered at once is
  answered by the argument \<open>q\<close>, which gives nothing if the answer comes later.
\<close>

subsection \<open>Lookups\<close>

datatype lookup_result = FoundAddr ip_addr_t | HostUnknown | NoDnsServer | LookupFailed

datatype request = Lookup nat | Retry nat | Scan

definition update_device :: "nat \<Rightarrow> (managed_device \<Rightarrow> managed_device) \<Rightarrow> networking \<Rightarrow> networking" where
  "update_device i f s = s\<lparr>devices := (devices s)[i := f (devices s ! i)]\<rparr>"

definition dns_resolved :: "ip_addr_t \<Rightarrow> managed_device \<Rightarrow> managed_device" where
  "dns_resolved ip d =
    (case sin6_addr_of ip of
       None \<Rightarrow> d
     | Some a \<Rightarrow> let d = d\<lparr>resolve_state := Resolved\<rparr> in if dev_addr d \<noteq> a then d\<lparr>dev_addr := a\<rparr> else d)"

definition lookup_done :: "lookup_result \<Rightarrow> managed_device \<Rightarrow> managed_device" where
  "lookup_done r d =
    (case r of
       FoundAddr ip \<Rightarrow> dns_resolved ip d
     | HostUnknown \<Rightarrow> if resolve_state d = ResolveUnknown then d\<lparr>resolve_state := NotResolved\<rparr> else d
     | _ \<Rightarrow> d)"

definition needs_lookup :: "managed_device \<Rightarrow> bool" where
  "needs_lookup d \<longleftrightarrow> host_address_type d = HostDNS \<and> resolve_state d \<noteq> Resolved"

text \<open>The loop goes once around the list, starting behind the current charger and ending with it.\<close>

definition next_unresolved :: "nat \<Rightarrow> networking \<Rightarrow> nat option" where
  "next_unresolved current s =
    find (\<lambda>i. needs_lookup (devices s ! i)) ([current + 1..<length (devices s)] @ [0..<current + 1])"

lemma length_devices [simp]: "length (devices (update_device i f s)) = length (devices s)"
  by (simp add: update_device_def)

lemma next_unresolved_SomeD:
  assumes "next_unresolved i s = Some j" "i < length (devices s)"
  shows "j < length (devices s)" "needs_lookup (devices s ! j)"
  using assms by (auto simp: next_unresolved_def find_Some_iff nth_append split: if_splits)

lemma next_unresolved_None: "i < length (devices s) \<Longrightarrow> next_unresolved i s = None \<longleftrightarrow> (\<forall>j < length (devices s). \<not> needs_lookup (devices s ! j))"
  by (auto simp: next_unresolved_def find_None_iff)

text \<open>A round of lookups that are all answered at once ends at the end of the list.\<close>

lemma next_unresolved_less: "next_unresolved i s = Some j \<Longrightarrow> i < j \<Longrightarrow> j < length (devices s)"
  by (auto simp: next_unresolved_def find_Some_iff nth_append split: if_splits)

function dns_lookup :: "(nat \<Rightarrow> lookup_result option) \<Rightarrow> nat \<Rightarrow> networking \<Rightarrow> networking \<times> request list" where
  "dns_lookup q i s =
    (case q i of
       None \<Rightarrow> (s, [Lookup i])
     | Some r \<Rightarrow>
         let s = update_device i (lookup_done r) s in
         case next_unresolved i s of
           None \<Rightarrow> (s\<lparr>dns_resolver_active := False\<rparr>, [])
         | Some j \<Rightarrow> if j \<le> i then (s, [Retry j]) else dns_lookup q j s)"
  by pat_completeness auto
termination
  by (relation "measure (\<lambda>(q, i, s). length (devices s) - i)") (auto dest!: next_unresolved_less)

declare dns_lookup.simps [simp del]

text \<open>The end of a lookup as a function of its own.\<close>

definition resolve_next_dns :: "(nat \<Rightarrow> lookup_result option) \<Rightarrow> nat \<Rightarrow> networking \<Rightarrow> networking \<times> request list" where
  "resolve_next_dns q i s =
    (case next_unresolved i s of
       None \<Rightarrow> (s\<lparr>dns_resolver_active := False\<rparr>, [])
     | Some j \<Rightarrow> if j \<le> i then (s, [Retry j]) else dns_lookup q j s)"

lemma dns_lookup_next:
  "dns_lookup q i s = (case q i of None \<Rightarrow> (s, [Lookup i]) | Some r \<Rightarrow> resolve_next_dns q i (update_device i (lookup_done r) s))"
  by (cases "q i") (simp_all add: dns_lookup.simps[of q i s] resolve_next_dns_def Let_def)

definition resolve_hostname_dns ::
  "(nat \<Rightarrow> lookup_result option) \<Rightarrow> nat \<Rightarrow> bool \<Rightarrow> networking \<Rightarrow> networking \<times> request list" where
  "resolve_hostname_dns q i initial_request s =
    (if dns_resolver_active s then if initial_request then (s, []) else dns_lookup q i s
     else dns_lookup q i (s\<lparr>dns_resolver_active := True\<rparr>))"

text \<open>The answer to a lookup that came later.\<close>

definition lookup_answered ::
  "(nat \<Rightarrow> lookup_result option) \<Rightarrow> nat \<Rightarrow> lookup_result \<Rightarrow> networking \<Rightarrow> networking \<times> request list" where
  "lookup_answered q i r s = resolve_next_dns q i (update_device i (lookup_done r) s)"

subsection \<open>Scans\<close>

text \<open>\<open>started\<close> says whether mDNS could start the scan.\<close>

definition start_mdns_scan :: "bool \<Rightarrow> networking \<Rightarrow> networking \<times> request list" where
  "start_mdns_scan started s =
    (if mdns_scan_active s then (s, []) else (s\<lparr>mdns_scan_active := True\<rparr>, if started then [Scan] else []))"

record mdns_result =
  res_hostname :: "string option"
  res_addrs :: "ip_addr_t list"
  res_txt :: "(string \<times> string) list"

definition has_txt :: "string \<Rightarrow> mdns_result \<Rightarrow> bool" where
  "has_txt key e \<longleftrightarrow> list_ex (\<lambda>(k, v). k = key \<and> v \<noteq> []) (res_txt e)"

definition mdns_result_is_charger :: "mdns_result \<Rightarrow> bool" where
  "mdns_result_is_charger e \<longleftrightarrow> length (res_txt e) \<ge> 3 \<and> has_txt ''enabled'' e \<and> has_txt ''display_name'' e \<and> has_txt ''version'' e"

text \<open>The first charger with the name gets the first address.\<close>

fun resolve_via_mdns :: "string \<Rightarrow> ip_addr_t list \<Rightarrow> managed_device list \<Rightarrow> managed_device list" where
  "resolve_via_mdns name addrs [] = []"
| "resolve_via_mdns name addrs (d # ds) =
    (if host_address_type d \<noteq> HostMDNS \<or> take (mdns_hostname_len d) (dev_hostname d) \<noteq> name
     then d # resolve_via_mdns name addrs ds
     else case find (\<lambda>a. sin6_addr_of a \<noteq> None) addrs of
            None \<Rightarrow> d # resolve_via_mdns name addrs ds
          | Some a \<Rightarrow> (if dev_addr d \<noteq> the (sin6_addr_of a)
                       then d\<lparr>dev_addr := the (sin6_addr_of a), resolve_state := Resolved\<rparr> else d) # ds)"

definition add_scan_result_entry :: "mdns_result \<Rightarrow> managed_device list \<Rightarrow> managed_device list" where
  "add_scan_result_entry e ds =
    (case res_hostname e of
       None \<Rightarrow> ds
     | Some name \<Rightarrow> if mdns_result_is_charger e \<and> res_addrs e \<noteq> [] then resolve_via_mdns name (res_addrs e) ds else ds)"

text \<open>Nothing means that the results are not ready; they are asked for again.\<close>

definition check_mdns_results :: "mdns_result list option \<Rightarrow> networking \<Rightarrow> networking \<times> request list" where
  "check_mdns_results results s =
    (case results of
       None \<Rightarrow> (s, [Scan])
     | Some rs \<Rightarrow> (s\<lparr>mdns_scan_active := False, devices := fold add_scan_result_entry rs (devices s)\<rparr>, []))"

subsection \<open>Requests to resolve\<close>

record lookup_env =
  le_answer :: "nat \<Rightarrow> lookup_result option"
  le_mdns_started :: bool
  le_scan_starts :: bool

definition resolve_hostname :: "lookup_env \<Rightarrow> nat \<Rightarrow> networking \<Rightarrow> networking \<times> request list" where
  "resolve_hostname le i s =
    (case host_address_type (devices s ! i) of
       HostIP \<Rightarrow> (s, [])
     | HostMDNS \<Rightarrow> if le_mdns_started le then start_mdns_scan (le_scan_starts le) s else (s, [])
     | HostDNS \<Rightarrow> resolve_hostname_dns (le_answer le) i True s)"

fun resolve_each :: "(nat \<Rightarrow> lookup_env) \<Rightarrow> nat list \<Rightarrow> networking \<Rightarrow> networking \<times> request list" where
  "resolve_each les [] s = (s, [])"
| "resolve_each les (i # is) s =
    (let (s, rs) = resolve_hostname (les i) i s; (s, rs') = resolve_each les is s in (s, rs @ rs'))"

definition resolve_all :: "(nat \<Rightarrow> lookup_env) \<Rightarrow> networking \<Rightarrow> networking \<times> request list" where
  "resolve_all les s = resolve_each les [0..<length (devices s)] s"

definition network_connected :: "(nat \<Rightarrow> lookup_env) \<Rightarrow> bool \<Rightarrow> networking \<Rightarrow> networking \<times> request list" where
  "network_connected les c s = (let s = s\<lparr>connected := c\<rparr> in if c then resolve_all les s else (s, []))"

definition notify_charger_unresponsive :: "lookup_env \<Rightarrow> nat \<Rightarrow> networking \<Rightarrow> networking \<times> request list" where
  "notify_charger_unresponsive le i s =
    (if \<not> connected s then (s, [])
     else resolve_hostname le i (update_device i
       (\<lambda>d. if resolve_state d = Resolved \<and> host_address_type d \<noteq> HostIP then d\<lparr>resolve_state := Stale\<rparr> else d) s))"

subsection \<open>Steps\<close>

text \<open>What happens, and which requests are pending. The web interface walks through the results of a scan again.\<close>

inductive net_step :: "networking \<times> request multiset \<Rightarrow> networking \<times> request multiset \<Rightarrow> bool" where
  connect: "network_connected les c s = (s', rs) \<Longrightarrow> net_step (s, pending) (s', pending + mset rs)"
| unresponsive: "i < length (devices s) \<Longrightarrow> notify_charger_unresponsive le i s = (s', rs)
    \<Longrightarrow> net_step (s, pending) (s', pending + mset rs)"
| answer: "Lookup i \<in># pending \<Longrightarrow> lookup_answered q i r s = (s', rs)
    \<Longrightarrow> net_step (s, pending) (s', pending - {#Lookup i#} + mset rs)"
| retry: "Retry i \<in># pending \<Longrightarrow> resolve_hostname_dns q i False s = (s', rs)
    \<Longrightarrow> net_step (s, pending) (s', pending - {#Retry i#} + mset rs)"
| scanned: "Scan \<in># pending \<Longrightarrow> check_mdns_results results s = (s', rs)
    \<Longrightarrow> net_step (s, pending) (s', pending - {#Scan#} + mset rs)"
| web: "net_step (s, pending) (s\<lparr>devices := fold add_scan_result_entry results (devices s)\<rparr>, pending)"
| user_scan: "start_mdns_scan started s = (s', rs) \<Longrightarrow> net_step (s, pending) (s', pending + mset rs)"

subsection \<open>One lookup at a time, until all are resolved\<close>

text \<open>Either somebody is being looked up, or nobody has to be.\<close>

definition settled :: "networking \<Rightarrow> bool" where
  "settled s \<longleftrightarrow> dns_resolver_active s \<or> (\<forall>d \<in> set (devices s). \<not> needs_lookup d)"

definition is_dns :: "request \<Rightarrow> bool" where
  "is_dns r \<longleftrightarrow> r \<noteq> Scan"

definition dns_open :: "request multiset \<Rightarrow> nat" where
  "dns_open pending = size (filter_mset is_dns pending)"

fun request_ok :: "nat \<Rightarrow> request \<Rightarrow> bool" where
  "request_ok n (Lookup i) = (i < n)"
| "request_ok n (Retry i) = (i < n)"
| "request_ok n Scan = True"

definition net_ok :: "networking \<Rightarrow> request multiset \<Rightarrow> bool" where
  "net_ok s pending \<longleftrightarrow> dns_open pending = of_bool (dns_resolver_active s) \<and> (\<forall>r \<in># pending. request_ok (length (devices s)) r)
     \<and> count pending Scan \<le> of_bool (mdns_scan_active s)"

lemma dns_open_simps [simp]:
  "dns_open {#} = 0" "dns_open (add_mset r pending) = of_bool (is_dns r) + dns_open pending"
  "dns_open (pending + pending') = dns_open pending + dns_open pending'"
  by (simp_all add: dns_open_def)

lemma is_dns_simps [simp]: "is_dns (Lookup i)" "is_dns (Retry i)" "\<not> is_dns Scan"
  by (simp_all add: is_dns_def)

text \<open>What a round of lookups leaves behind.\<close>

definition round_result :: "networking \<Rightarrow> networking \<times> request list \<Rightarrow> bool" where
  "round_result s res \<longleftrightarrow> (case res of (s', rs) \<Rightarrow>
     length (devices s') = length (devices s) \<and> connected s' = connected s \<and> mdns_scan_active s' = mdns_scan_active s
     \<and> ((\<exists>i < length (devices s). rs = [Lookup i] \<or> rs = [Retry i]) \<and> dns_resolver_active s' = dns_resolver_active s
         \<or> rs = [] \<and> \<not> dns_resolver_active s' \<and> settled s'))"

lemma round_result_update: "round_result (update_device i f s) res \<longleftrightarrow> round_result s res"
  by (simp add: round_result_def update_device_def)

lemma next_round:
  assumes "i < length (devices s)" "\<And>j. next_unresolved i s = Some j \<Longrightarrow> i < j \<Longrightarrow> round_result s (dns_lookup q j s)"
  shows "round_result s (resolve_next_dns q i s)"
proof (cases "next_unresolved i s")
  case None
  then have "settled (s\<lparr>dns_resolver_active := False\<rparr>)"
    using assms(1) by (auto simp: settled_def next_unresolved_None in_set_conv_nth)
  then show ?thesis using None by (simp add: resolve_next_dns_def round_result_def)
next
  case (Some j)
  then show ?thesis
    using assms(2)[OF Some] next_unresolved_SomeD(1)[OF Some assms(1)]
    by (simp add: resolve_next_dns_def) (simp add: round_result_def)
qed

lemma lookup_round:
  "i < length (devices s) \<Longrightarrow> round_result s (dns_lookup q i s)"
  "i < length (devices s) \<Longrightarrow> round_result s (resolve_next_dns q i s)"
proof -
  have lookup: "i < length (devices s) \<Longrightarrow> round_result s (dns_lookup q i s)" for i s
  proof (induction q i s rule: dns_lookup.induct)
    case (1 q i s)
    show ?case
    proof (cases "q i")
      case None
      then show ?thesis using 1(2) by (simp add: dns_lookup_next round_result_def)
    next
      case (Some r)
      let ?s = "update_device i (lookup_done r) s"
      have "round_result ?s (resolve_next_dns q i ?s)"
        by (rule next_round) (use 1 Some next_unresolved_less[of i ?s] in auto)
      then show ?thesis using Some by (simp add: dns_lookup_next round_result_update)
    qed
  qed
  then show "i < length (devices s) \<Longrightarrow> round_result s (dns_lookup q i s)" .
  show "i < length (devices s) \<Longrightarrow> round_result s (resolve_next_dns q i s)"
    by (rule next_round) (auto intro: lookup next_unresolved_less)
qed

lemma round_ok:
  assumes "round_result s (s', rs)" "dns_resolver_active s" "dns_open pending = 0" "\<forall>r \<in># pending. request_ok (length (devices s)) r"
    "count pending Scan \<le> of_bool (mdns_scan_active s)"
  shows "net_ok s' (pending + mset rs)" "settled s'"
  using assms by (auto simp: round_result_def net_ok_def settled_def)

definition keeps :: "networking \<Rightarrow> networking \<times> request list \<Rightarrow> bool" where
  "keeps s res \<longleftrightarrow> (case res of (s', rs) \<Rightarrow>
     length (devices s') = length (devices s) \<and> connected s' = connected s
     \<and> (\<forall>pending. net_ok s pending \<longrightarrow> net_ok s' (pending + mset rs)))"

lemma keepsD:
  assumes "keeps s (s', rs)"
  shows "length (devices s') = length (devices s)" "connected s' = connected s" "net_ok s pending \<Longrightarrow> net_ok s' (pending + mset rs)"
  using assms by (simp_all add: keeps_def)

lemma resolve_hostname_dns_keeps:
  assumes "i < length (devices s)" "resolve_hostname_dns q i True s = (s', rs)"
  shows "keeps s (s', rs) \<and> settled s'"
proof (cases "dns_resolver_active s")
  case True
  then show ?thesis using assms(2) by (auto simp: resolve_hostname_dns_def keeps_def settled_def)
next
  case False
  let ?s = "s\<lparr>dns_resolver_active := True\<rparr>"
  have r: "round_result ?s (s', rs)"
    using assms False lookup_round(1)[of i ?s q] by (simp add: resolve_hostname_dns_def)
  have "net_ok s' (pending + mset rs)" if "net_ok s pending" for pending
    using round_ok(1)[OF r, of pending] that False by (simp add: net_ok_def)
  moreover have "settled s'" using r by (auto simp: round_result_def settled_def)
  ultimately show ?thesis using r by (simp add: keeps_def round_result_def)
qed

lemma start_mdns_scan_keeps:
  assumes "start_mdns_scan started s = (s', rs)"
  shows "keeps s (s', rs)" "devices s' = devices s" "dns_resolver_active s' = dns_resolver_active s"
  using assms by (auto simp: start_mdns_scan_def keeps_def net_ok_def split: if_splits)

lemma resolve_hostname_keeps:
  assumes "i < length (devices s)" "resolve_hostname le i s = (s', rs)"
  shows "keeps s (s', rs)" "settled s' \<or> devices s' = devices s \<and> dns_resolver_active s' = dns_resolver_active s"
    "host_address_type (devices s ! i) = HostDNS \<Longrightarrow> settled s'"
proof -
  have refl: "keeps s (s, [])" by (simp add: keeps_def)
  have "keeps s (s', rs) \<and> (settled s' \<or> devices s' = devices s \<and> dns_resolver_active s' = dns_resolver_active s)
      \<and> (host_address_type (devices s ! i) = HostDNS \<longrightarrow> settled s')"
    using assms refl start_mdns_scan_keeps[of "le_scan_starts le" s s' rs] resolve_hostname_dns_keeps[OF assms(1), of "le_answer le" s' rs]
    by (auto simp: resolve_hostname_def split: HostAddressType.splits if_splits)
  then show "keeps s (s', rs)" "settled s' \<or> devices s' = devices s \<and> dns_resolver_active s' = dns_resolver_active s"
    "host_address_type (devices s ! i) = HostDNS \<Longrightarrow> settled s'" by blast+
qed

lemma settled_cong: "devices s' = devices s \<Longrightarrow> dns_resolver_active s' = dns_resolver_active s \<Longrightarrow> settled s' = settled s"
  by (simp add: settled_def)

lemma resolve_each_keeps:
  assumes "\<forall>i \<in> set is. i < length (devices s)" "resolve_each les is s = (s', rs)"
  shows "keeps s (s', rs) \<and> (settled s' \<or> devices s' = devices s \<and> dns_resolver_active s' = dns_resolver_active s
      \<and> (\<forall>i \<in> set is. host_address_type (devices s ! i) \<noteq> HostDNS))"
  using assms
proof (induction "is" arbitrary: s s' rs)
  case (Cons i "is")
  obtain s1 rs1 s2 rs2 where r: "resolve_hostname (les i) i s = (s1, rs1)" "resolve_each les is s1 = (s2, rs2)"
    by (metis surj_pair)
  then have s': "s' = s2" "rs = rs1 @ rs2" using Cons.prems(2) by simp_all
  note first = resolve_hostname_keeps[OF _ r(1)]
  have i: "i < length (devices s)" using Cons.prems(1) by simp
  have len: "length (devices s1) = length (devices s)" using first(1)[OF i] by (simp add: keeps_def)
  note rest = Cons.IH[OF _ r(2)]
  have "keeps s (s', rs)" using first(1)[OF i] rest Cons.prems(1) len by (auto simp: keeps_def s' simp flip: add.assoc)
  moreover have "settled s' \<or> devices s' = devices s \<and> dns_resolver_active s' = dns_resolver_active s
      \<and> (\<forall>j \<in> set (i # is). host_address_type (devices s ! j) \<noteq> HostDNS)"
    using first(2,3)[OF i] rest Cons.prems(1) len settled_cong[of s' s1] by (auto simp: s')
  ultimately show ?case by simp
qed (simp add: keeps_def)

lemma resolve_all_keeps:
  assumes "resolve_all les s = (s', rs)"
  shows "keeps s (s', rs)" "settled s'"
proof -
  have r: "resolve_each les [0..<length (devices s)] s = (s', rs)" using assms by (simp add: resolve_all_def)
  have "\<forall>i \<in> set [0..<length (devices s)]. i < length (devices s)" by simp
  from resolve_each_keeps[OF this r] show "keeps s (s', rs)" "settled s'"
    by (auto simp: settled_def needs_lookup_def in_set_conv_nth)
qed

text \<open>The invariant of the steps.\<close>

definition net_safe :: "networking \<times> request multiset \<Rightarrow> bool" where
  "net_safe st \<longleftrightarrow> net_ok (fst st) (snd st) \<and> (connected (fst st) \<longrightarrow> settled (fst st))"

lemma net_ok_pending:
  assumes "net_ok s pending" "r \<in># pending" "is_dns r"
  shows "dns_resolver_active s" "dns_open (pending - {#r#}) = 0" "count (pending - {#r#}) Scan \<le> of_bool (mdns_scan_active s)"
    "\<forall>r' \<in># pending - {#r#}. request_ok (length (devices s)) r'" "request_ok (length (devices s)) r"
proof -
  obtain p where p: "pending = add_mset r p" using assms(2) by (metis mset_add)
  then show "dns_resolver_active s" "dns_open (pending - {#r#}) = 0" "count (pending - {#r#}) Scan \<le> of_bool (mdns_scan_active s)"
    "\<forall>r' \<in># pending - {#r#}. request_ok (length (devices s)) r'" "request_ok (length (devices s)) r"
    using assms(1,3) by (auto simp: net_ok_def is_dns_def of_bool_def split: if_splits)
qed

lemma round_step:
  assumes "net_ok s pending" "r \<in># pending" "is_dns r" "round_result s (s', rs)"
  shows "net_safe (s', pending - {#r#} + mset rs)"
  using round_ok[OF assms(4) net_ok_pending(1,2)[OF assms(1-3)] net_ok_pending(4,3)[OF assms(1-3)]] by (simp add: net_safe_def)

lemma resolve_via_mdns_same:
  "length (resolve_via_mdns name addrs ds) = length ds"
  "map needs_lookup (resolve_via_mdns name addrs ds) = map needs_lookup ds"
  by (induction ds) (auto simp: needs_lookup_def split: option.splits)

lemma add_scan_result_same: "map needs_lookup (add_scan_result_entry e ds) = map needs_lookup ds"
  by (simp add: add_scan_result_entry_def resolve_via_mdns_same split: option.splits)

lemma scan_results_same: "map needs_lookup (fold add_scan_result_entry es ds) = map needs_lookup ds"
  by (induction es arbitrary: ds) (simp_all add: add_scan_result_same)

lemma settled_map:
  "settled s \<longleftrightarrow> dns_resolver_active s \<or> True \<notin> set (map needs_lookup (devices s))"
  by (auto simp: settled_def)

lemma net_step_safe:
  assumes "net_step st st'" "net_safe st"
  shows "net_safe st'"
  using assms
proof (cases rule: net_step.cases)
  case (connect les c s s' rs pending)
  have ok: "net_ok (s\<lparr>connected := c\<rparr>) pending" using assms(2) connect by (simp add: net_safe_def net_ok_def)
  show ?thesis
  proof (cases c)
    case True
    then show ?thesis
      using connect resolve_all_keeps[of les "s\<lparr>connected := c\<rparr>" s' rs] ok
      by (simp add: network_connected_def net_safe_def keeps_def)
  next
    case False
    then show ?thesis using connect ok by (auto simp: network_connected_def net_safe_def)
  qed
next
  case (unresponsive i s le s' rs pending)
  show ?thesis
  proof (cases "connected s")
    case True
    define s1 where "s1 = update_device i (\<lambda>d. if resolve_state d = Resolved \<and> host_address_type d \<noteq> HostIP
      then d\<lparr>resolve_state := Stale\<rparr> else d) s"
    have r: "resolve_hostname le i s1 = (s', rs)" and i: "i < length (devices s1)"
      using unresponsive True by (simp_all add: notify_charger_unresponsive_def s1_def)
    have ok: "net_ok s1 pending" using assms(2) unresponsive by (simp add: net_safe_def net_ok_def s1_def update_device_def)
    have "settled s'"
    proof (cases "host_address_type (devices s1 ! i) = HostDNS")
      case False
      then have "needs_lookup (devices s1 ! j) = needs_lookup (devices s ! j)" if "j < length (devices s)" for j
        using that False i by (cases "j = i") (auto simp: s1_def update_device_def needs_lookup_def split: if_splits)
      then have "map needs_lookup (devices s1) = map needs_lookup (devices s)"
        by (intro nth_equalityI) (simp_all add: s1_def)
      then have "settled s1 = settled s" by (simp add: settled_map s1_def update_device_def)
      then have "settled s1" using assms(2) unresponsive True by (simp add: net_safe_def)
      then show ?thesis using resolve_hostname_keeps(2)[OF i r] settled_cong[of s' s1] by auto
    qed (rule resolve_hostname_keeps(3)[OF i r])
    then show ?thesis using resolve_hostname_keeps(1)[OF i r] ok unresponsive by (simp add: net_safe_def keeps_def)
  next
    case False
    then show ?thesis using unresponsive assms(2) by (simp add: notify_charger_unresponsive_def)
  qed
next
  case (answer i pending q r s s' rs)
  have ok: "net_ok s pending" using assms(2) answer by (simp add: net_safe_def)
  have i: "i < length (devices s)" using net_ok_pending(5)[OF ok answer(3)] by simp
  have "round_result s (s', rs)"
    using lookup_round(2)[of i "update_device i (lookup_done r) s" q] i answer(4)
    by (simp add: lookup_answered_def round_result_update)
  then show ?thesis using round_step[OF ok answer(3)] answer(2) by simp
next
  case (retry i pending q s s' rs)
  have ok: "net_ok s pending" using assms(2) retry by (simp add: net_safe_def)
  have i: "i < length (devices s)" "dns_resolver_active s" using net_ok_pending(1,5)[OF ok retry(3)] by simp_all
  have "round_result s (s', rs)"
    using lookup_round(1)[of i s q] i retry(4) by (simp add: resolve_hostname_dns_def)
  then show ?thesis using round_step[OF ok retry(3)] retry(2) by simp
next
  case (scanned pending results s s' rs)
  obtain p where p: "pending = add_mset Scan p" using scanned(3) by (metis mset_add)
  have len: "length (fold add_scan_result_entry es ds) = length ds" for es and ds :: "managed_device list"
    using arg_cong[OF scan_results_same, of length] by simp
  have none: "Scan \<notin># p"
    using assms(2) scanned(1) by (cases "mdns_scan_active s") (auto simp: p net_safe_def net_ok_def not_in_iff)
  have ok: "net_ok s pending" "connected s \<Longrightarrow> settled s" using assms(2) scanned(1) by (simp_all add: net_safe_def)
  show ?thesis
  proof (cases results)
    case None
    then have "s' = s" "rs = [Scan]" using scanned(4) by (simp_all add: check_mdns_results_def)
    then show ?thesis using scanned(2) ok by (simp add: p net_safe_def)
  next
    case (Some es)
    then have s': "s' = s\<lparr>mdns_scan_active := False, devices := fold add_scan_result_entry es (devices s)\<rparr>" "rs = []"
      using scanned(4) by (simp_all add: check_mdns_results_def)
    have "settled s' = settled s" unfolding settled_map by (simp add: s' scan_results_same del: set_map)
    then show ?thesis using ok none scanned(2) by (simp add: p s' net_safe_def net_ok_def len not_in_iff)
  qed
next
  case (web s pending results)
  have "length (fold add_scan_result_entry results (devices s)) = length (devices s)"
    using arg_cong[OF scan_results_same, of length] by simp
  moreover have "settled (s\<lparr>devices := fold add_scan_result_entry results (devices s)\<rparr>) = settled s"
    unfolding settled_map by (simp add: scan_results_same del: set_map)
  ultimately show ?thesis using assms(2) web by (simp add: net_safe_def net_ok_def)
next
  case (user_scan started s s' rs pending)
  then show ?thesis
    using start_mdns_scan_keeps[OF user_scan(3)] assms(2) settled_cong[of s' s] by (simp add: net_safe_def keeps_def)
qed

lemma net_steps_safe: "net_step\<^sup>*\<^sup>* st st' \<Longrightarrow> net_safe st \<Longrightarrow> net_safe st'"
  by (induction rule: rtranclp_induct) (auto intro: net_step_safe)

lemma start_safe: "net_safe (register_manager aton sock_ok hosts, {#})"
  by (simp add: net_safe_def net_ok_def register_manager_def)

text \<open>
  Claim C16. The lookups of host names neither pile up nor stall: at most one lookup or retry is pending at any time, and
  while the network is connected and some charger with a DNS name has no address (or does not answer), exactly one is.
\<close>

theorem lookups_never_stall:
  assumes "net_step\<^sup>*\<^sup>* (register_manager aton sock_ok hosts, {#}) (s, pending)"
  shows "dns_open pending \<le> 1 \<and> (connected s \<and> list_ex needs_lookup (devices s) \<longrightarrow> dns_open pending = 1)"
  using net_steps_safe[OF assms start_safe]
  by (auto simp: net_safe_def net_ok_def settled_def list_ex_iff)

text \<open>One charger with a DNS name, whose lookup is not answered yet.\<close>

definition demo_net :: networking where
  "demo_net = register_manager (\<lambda>_. None) True [''charger'']"

definition demo_lookups :: "nat \<Rightarrow> lookup_env" where
  "demo_lookups i = \<lparr>le_answer = \<lambda>_. None, le_mdns_started = True, le_scan_starts = True\<rparr>"

theorem lookups_never_stall_witness:
  "connected (fst (network_connected demo_lookups True demo_net))
    \<and> list_ex needs_lookup (devices (fst (network_connected demo_lookups True demo_net)))
    \<and> dns_open (mset (snd (network_connected demo_lookups True demo_net))) = 1"
proof -
  let ?r = "network_connected demo_lookups True demo_net"
  have dev: "devices demo_net = [register_device (\<lambda>_. None) ''charger'']" by (simp add: demo_net_def register_manager_def)
  have type: "host_address_type (register_device (\<lambda>_. None) ''charger'') = HostDNS" by code_simp
  have state: "resolve_state (register_device (\<lambda>_. None) ''charger'') \<noteq> Resolved" by code_simp
  have r: "?r = (demo_net\<lparr>connected := True, dns_resolver_active := True\<rparr>, [Lookup 0])"
    using type by (simp add: network_connected_def resolve_all_def dev resolve_hostname_def resolve_hostname_dns_def
        demo_lookups_def) (simp add: demo_net_def register_manager_def dns_lookup.simps)
  have "net_step (demo_net, {#}) (fst ?r, {#} + mset (snd ?r))" by (rule net_step.connect) simp
  then have "net_step\<^sup>*\<^sup>* (register_manager (\<lambda>_. None) True [''charger''], {#}) (fst ?r, mset (snd ?r))"
    by (auto simp flip: demo_net_def)
  from lookups_never_stall[OF this] show ?thesis using type state by (auto simp: r dev needs_lookup_def)
qed

subsection \<open>A scan that could not be started\<close>

text \<open>The flag that a scan is running is set before the scan is started, and only its results reset it.\<close>

lemma resolve_hostname_scanning:
  assumes "mdns_scan_active s" "resolve_hostname le i s = (s', rs)" "i < length (devices s)"
  shows "mdns_scan_active s'" "Scan \<notin> set rs"
proof -
  have "mdns_scan_active s' \<and> Scan \<notin> set rs"
    using assms lookup_round(1)[of i "s\<lparr>dns_resolver_active := True\<rparr>" "le_answer le"]
    by (auto simp: resolve_hostname_def start_mdns_scan_def resolve_hostname_dns_def round_result_def
        split: HostAddressType.splits if_splits)
  then show "mdns_scan_active s'" "Scan \<notin> set rs" by simp_all
qed

lemma resolve_each_scanning:
  assumes "mdns_scan_active s" "resolve_each les is s = (s', rs)" "\<forall>i \<in> set is. i < length (devices s)"
  shows "mdns_scan_active s' \<and> Scan \<notin> set rs"
  using assms
proof (induction "is" arbitrary: s s' rs)
  case (Cons i "is")
  obtain s1 rs1 s2 rs2 where r: "resolve_hostname (les i) i s = (s1, rs1)" "resolve_each les is s1 = (s2, rs2)"
    by (metis surj_pair)
  have i: "i < length (devices s)" using Cons.prems(3) by simp
  have "length (devices s1) = length (devices s)" using resolve_hostname_keeps(1)[OF i r(1)] by (simp add: keeps_def)
  then show ?case
    using Cons.IH[OF resolve_hostname_scanning(1)[OF Cons.prems(1) r(1) i] r(2)]
      resolve_hostname_scanning(2)[OF Cons.prems(1) r(1) i] Cons.prems(2,3) r by auto
qed simp

definition scan_lost :: "networking \<times> request multiset \<Rightarrow> bool" where
  "scan_lost st \<longleftrightarrow> mdns_scan_active (fst st) \<and> Scan \<notin># snd st \<and> net_safe st"

lemma net_step_scan_lost:
  assumes "net_step st st'" "scan_lost st"
  shows "scan_lost st'"
proof -
  have "net_safe st'" using net_step_safe[OF assms(1)] assms(2) by (simp add: scan_lost_def)
  moreover have "mdns_scan_active (fst st') \<and> Scan \<notin># snd st'"
    using assms
  proof (cases rule: net_step.cases)
    case (connect les c s s' rs pending)
    have "\<forall>i \<in> set [0..<length (devices s)]. i < length (devices s)" by simp
    then show ?thesis
      using connect assms(2) resolve_each_scanning[of "s\<lparr>connected := c\<rparr>" les "[0..<length (devices s)]" s' rs]
      by (auto simp: network_connected_def resolve_all_def scan_lost_def Let_def split: if_splits)
  next
    case (unresponsive i s le s' rs pending)
    then show ?thesis
      using assms(2) resolve_hostname_scanning[of "update_device i (\<lambda>d. if resolve_state d = Resolved
        \<and> host_address_type d \<noteq> HostIP then d\<lparr>resolve_state := Stale\<rparr> else d) s" le i s' rs]
      by (auto simp: notify_charger_unresponsive_def scan_lost_def update_device_def split: if_splits)
  next
    case (answer i pending q r s s' rs)
    have ok: "net_ok s pending" using assms(2) answer by (simp add: scan_lost_def net_safe_def)
    have "round_result s (s', rs)"
      using lookup_round(2)[of i "update_device i (lookup_done r) s" q] net_ok_pending(5)[OF ok answer(3)] answer(4)
      by (simp add: lookup_answered_def round_result_update)
    then show ?thesis using answer assms(2) by (auto simp: scan_lost_def round_result_def dest: in_diffD)
  next
    case (retry i pending q s s' rs)
    have ok: "net_ok s pending" using assms(2) retry by (simp add: scan_lost_def net_safe_def)
    have "round_result s (s', rs)"
      using lookup_round(1)[of i s q] net_ok_pending(1,5)[OF ok retry(3)] retry(4) by (simp add: resolve_hostname_dns_def)
    then show ?thesis using retry assms(2) by (auto simp: scan_lost_def round_result_def dest: in_diffD)
  next
    case (scanned pending results s s' rs)
    then show ?thesis using assms(2) by (simp add: scan_lost_def)
  next
    case (web s pending results)
    then show ?thesis using assms(2) by (simp add: scan_lost_def)
  next
    case (user_scan started s s' rs pending)
    then show ?thesis using assms(2) by (auto simp: scan_lost_def start_mdns_scan_def)
  qed
  ultimately show ?thesis by (simp add: scan_lost_def)
qed

text \<open>
  Claim C40. When a scan for chargers cannot be started (mDNS has no memory for it, for example), no scan is started ever
  again: whatever happens afterwards, the scan counts as running and no result of a scan is waited for. Chargers with a
  local name that have no address yet are never found.
\<close>

theorem failed_scan_is_final:
  assumes "net_step\<^sup>*\<^sup>* (register_manager aton sock_ok hosts, {#}) (s, pending)" "\<not> mdns_scan_active s"
    "start_mdns_scan False s = (s1, rs)" "net_step\<^sup>*\<^sup>* (s1, pending + mset rs) (s2, pending')"
  shows "mdns_scan_active s2 \<and> Scan \<notin># pending'"
proof -
  have "net_step (s, pending) (s1, pending + mset rs)" by (rule net_step.user_scan[OF assms(3)])
  then have "net_safe (s1, pending + mset rs)" by (rule net_step_safe) (rule net_steps_safe[OF assms(1) start_safe])
  moreover have "Scan \<notin># pending"
    using net_steps_safe[OF assms(1) start_safe] assms(2) by (simp add: net_safe_def net_ok_def not_in_iff)
  ultimately have lost: "scan_lost (s1, pending + mset rs)"
    using assms(2,3) by (auto simp: scan_lost_def start_mdns_scan_def)
  from assms(4) lost have "scan_lost (s2, pending')"
    by (induction rule: rtranclp_induct) (auto intro: net_step_scan_lost)
  then show ?thesis by (simp add: scan_lost_def)
qed

theorem failed_scan_is_final_witness:
  "mdns_scan_active (fst (start_mdns_scan False demo_net)) \<and> Scan \<notin># mset (snd (start_mdns_scan False demo_net))"
  using failed_scan_is_final[of "\<lambda>_. None" True "[''charger'']" demo_net "{#}" "fst (start_mdns_scan False demo_net)"
      "snd (start_mdns_scan False demo_net)" "fst (start_mdns_scan False demo_net)" "mset (snd (start_mdns_scan False demo_net))"]
  by (simp add: demo_net_def register_manager_def)

end
