(* ===== verification/Power_Filters.thy ===== *)
theory Power_Filters
  imports Charge_Types "HOL-Library.Monad_Syntax"
begin

section \<open>Filters of the power manager\<close>

text \<open>
  The power manager smooths what the meters measure (\<^verbatim>\<open>power_manager.cpp\<close>): \<open>MinMaxFilter\<close> keeps the smallest
  and the largest of the last values in a ring buffer without searching it at every update, and \<open>MavgFilter\<close> is
  a moving average. Values are \<^verbatim>\<open>int32_t\<close>: arithmetic that can leave the type is written with \<open>i32\<close>,
  whose result is \<open>None\<close> where the C code overflows, and a division by zero is \<open>None\<close> too. Memory that
  was allocated and not yet written has any contents. The time of an update is an argument.
\<close>

subsection \<open>Arithmetic of int32\<close>

abbreviation (input) INT32_MAX :: int where "INT32_MAX \<equiv> 2147483647"
abbreviation (input) INT32_MIN :: int where "INT32_MIN \<equiv> - 2147483648"

definition i32 :: "int \<Rightarrow> int option" where
  "i32 n = (if INT32_MIN \<le> n \<and> n \<le> INT32_MAX then Some n else None)"

definition div32 :: "int \<Rightarrow> int \<Rightarrow> int option" where
  "div32 a b = (if b = 0 then None else i32 (a sdiv b))"

lemma i32_Some: "\<bar>n\<bar> \<le> INT32_MAX \<Longrightarrow> i32 n = Some n"
  by (auto simp: i32_def)

lemma abs_sdiv: "\<bar>(a :: int) sdiv b\<bar> = \<bar>a\<bar> div \<bar>b\<bar>"
proof (cases "a = 0 \<or> b = 0")
  case False
  then have "0 \<le> \<bar>a\<bar> div \<bar>b\<bar>" by (simp add: pos_imp_zdiv_nonneg_iff)
  with False show ?thesis by (simp add: signed_divide_int_def abs_mult abs_sgn_eq)
qed auto

lemma abs_sdiv_le: "\<bar>(a :: int) sdiv b\<bar> \<le> \<bar>a\<bar>"
  using zdiv_mono2[of "\<bar>a\<bar>" 1 "\<bar>b\<bar>"] by (cases "b = 0") (auto simp: abs_sdiv)

lemma abs_sdiv_bound: "0 < b \<Longrightarrow> \<bar>a\<bar> \<le> B * b \<Longrightarrow> \<bar>(a :: int) sdiv b\<bar> \<le> B"
  using zdiv_mono1[of "\<bar>a\<bar>" "B * b" b] by (simp add: abs_sdiv)

lemma sdiv_pos: "0 < (b :: int) \<Longrightarrow> 0 \<le> a \<Longrightarrow> a sdiv b = a div b"
  by (auto simp: signed_divide_int_def sgn_if)

lemma div32_Some: "0 < b \<Longrightarrow> \<bar>a\<bar> \<le> INT32_MAX \<Longrightarrow> div32 a b = Some (a sdiv b)"
  using abs_sdiv_le[of a b] by (simp add: div32_def i32_Some)

subsection \<open>Smallest and largest value\<close>

datatype FilterType = MinOnly | MaxOnly | MinMax

text \<open>The value, its position in the ring buffer and the time it expires, for the minimum and the maximum.\<close>

record extreme =
  ex_value :: int
  ex_pos :: nat
  ex_expiration :: int

record MinMaxFilter =
  f_type :: FilterType
  history_values :: "int list"
  history_length :: nat
  history_pos :: nat
  f_min :: extreme
  f_max :: extreme

definition new_minmax :: MinMaxFilter where
  "new_minmax = \<lparr>f_type = MinOnly, history_values = [], history_length = 0, history_pos = 0,
     f_min = \<lparr>ex_value = INT32_MAX, ex_pos = 0, ex_expiration = 0\<rparr>,
     f_max = \<lparr>ex_value = INT32_MAX, ex_pos = 0, ex_expiration = 0\<rparr>\<rparr>"

definition minmax_init :: "nat \<Rightarrow> FilterType \<Rightarrow> (nat \<Rightarrow> int) \<Rightarrow> MinMaxFilter \<Rightarrow> MinMaxFilter" where
  "minmax_init values_count filter_type mem f =
    (let n = if values_count = 0 then 1 else values_count in
     f\<lparr>history_length := n, history_values := map mem [0..<n], f_type := filter_type\<rparr>)"

definition PM_TASK_DELAY_MS :: int where
  "PM_TASK_DELAY_MS = 500"

definition samples_us :: "int \<Rightarrow> int" where
  "samples_us n = n * PM_TASK_DELAY_MS * 1000"

definition calculate_minmax_filter_expiration_timestamp :: "int \<Rightarrow> nat \<Rightarrow> nat \<Rightarrow> nat \<Rightarrow> int" where
  "calculate_minmax_filter_expiration_timestamp now value_pos current_pos len =
    (let d = int value_pos - int current_pos; d = if d < 0 then d + int len else d in now + samples_us d)"

text \<open>The two searches and the two branches of an update differ only in the comparison and the value they
  start with. The search reads the older values first, then the newer ones.\<close>

definition search_extreme :: "(int \<Rightarrow> int \<Rightarrow> bool) \<Rightarrow> int \<Rightarrow> int list \<Rightarrow> nat list \<Rightarrow> int \<times> nat" where
  "search_extreme le worst values is =
    fold (\<lambda>i (v, p). if le (values ! i) v then (values ! i, i) else (v, p)) is (worst, 0)"

definition update_extreme ::
  "(int \<Rightarrow> int \<Rightarrow> bool) \<Rightarrow> int \<Rightarrow> int \<Rightarrow> int \<Rightarrow> int list \<Rightarrow> nat \<Rightarrow> nat \<Rightarrow> extreme \<Rightarrow> extreme" where
  "update_extreme le worst now new_value values pos len e =
    (if le new_value (ex_value e)
     then \<lparr>ex_value = new_value, ex_pos = pos, ex_expiration = now + samples_us (int len)\<rparr>
     else if ex_pos e = pos
     then (case search_extreme le worst values ([Suc pos..<len] @ [0..<Suc pos]) of (v, p) \<Rightarrow>
       \<lparr>ex_value = v, ex_pos = p,
        ex_expiration = calculate_minmax_filter_expiration_timestamp now p pos len\<rparr>)
     else e)"

text \<open>An update of a filter that was not set up aborts.\<close>

definition minmax_update :: "int \<Rightarrow> int \<Rightarrow> MinMaxFilter \<Rightarrow> MinMaxFilter option" where
  "minmax_update now new_value f =
    (let n = history_length f; pos = history_pos f in
     if ex_value (f_min f) = INT32_MAX
     then if n = 0 then None
       else let t = now + samples_us (int n) in
         Some (f\<lparr>f_min := \<lparr>ex_value = new_value, ex_pos = 0, ex_expiration = t\<rparr>,
                 f_max := \<lparr>ex_value = if f_type f = MinOnly then - 1 else new_value, ex_pos = 0, ex_expiration = t\<rparr>,
                 history_pos := if n = 1 then 0 else 1, history_values := (history_values f)[0 := new_value]\<rparr>)
     else let values = (history_values f)[pos := new_value] in
       Some (f\<lparr>history_values := values,
               f_min := if f_type f \<noteq> MaxOnly then update_extreme (\<le>) INT32_MAX now new_value values pos n (f_min f)
                        else f_min f,
               f_max := if f_type f \<noteq> MinOnly then update_extreme (\<ge>) INT32_MIN now new_value values pos n (f_max f)
                        else f_max f,
               history_pos := if Suc pos \<ge> n then 0 else Suc pos\<rparr>))"

text \<open>Several updates, each with its time.\<close>

fun minmax_feed :: "(int \<times> int) list \<Rightarrow> MinMaxFilter \<Rightarrow> MinMaxFilter option" where
  "minmax_feed [] f = Some f"
| "minmax_feed ((now, v) # obs) f = do { f \<leftarrow> minmax_update now v f; minmax_feed obs f }"

subsection \<open>Moving average\<close>

record MavgFilter =
  filtered_val :: int
  mavg_values :: "int list"
  mavg_total :: int
  mavg_values_count :: nat
  mavg_position :: nat

definition new_mavg :: MavgFilter where
  "new_mavg = \<lparr>filtered_val = INT32_MAX, mavg_values = [], mavg_total = 0, mavg_values_count = 0, mavg_position = 0\<rparr>"

definition mavg_init :: "nat \<Rightarrow> (nat \<Rightarrow> int) \<Rightarrow> MavgFilter \<Rightarrow> MavgFilter" where
  "mavg_init values_count mem f =
    (let n = if values_count = 0 then 1 else values_count in
     f\<lparr>mavg_values_count := n, mavg_values := map mem [0..<n]\<rparr>)"

definition mavg_update :: "int \<Rightarrow> MavgFilter \<Rightarrow> (int \<times> MavgFilter) option" where
  "mavg_update v f =
    (let n = mavg_values_count f; pos = mavg_position f in
     if filtered_val f = INT32_MAX
     then do {
       total \<leftarrow> i32 (v * int n);
       Some (v, f\<lparr>filtered_val := v, mavg_total := total, mavg_values := replicate n v\<rparr>) }
     else do {
       total \<leftarrow> i32 (mavg_total f - mavg_values f ! pos);
       total \<leftarrow> i32 (total + v);
       avg \<leftarrow> div32 total (int n);
       Some (avg, f\<lparr>mavg_total := total, mavg_values := (mavg_values f)[pos := v],
         mavg_position := if Suc pos \<ge> n then 0 else Suc pos, filtered_val := avg\<rparr>) })"

fun mavg_feed :: "int list \<Rightarrow> MavgFilter \<Rightarrow> MavgFilter option" where
  "mavg_feed [] f = Some f"
| "mavg_feed (v # vs) f = do { (_, f) \<leftarrow> mavg_update v f; mavg_feed vs f }"

subsection \<open>The ring buffer\<close>

text \<open>\<open>window n xs\<close> are the last \<open>n\<close> values of \<open>xs\<close>; the ring buffer holds each of them at
  its number modulo \<open>n\<close>.\<close>

definition window :: "nat \<Rightarrow> 'a list \<Rightarrow> 'a list" where
  "window n xs = drop (length xs - n) xs"

definition ring :: "nat \<Rightarrow> 'a list \<Rightarrow> 'a list \<Rightarrow> bool" where
  "ring n xs values \<longleftrightarrow> length values = n \<and> (\<forall>j < length xs. length xs \<le> j + n \<longrightarrow> values ! (j mod n) = xs ! j)"

lemma ring_nth: "ring n xs values \<Longrightarrow> j < length xs \<Longrightarrow> length xs \<le> j + n \<Longrightarrow> values ! (j mod n) = xs ! j"
  by (simp add: ring_def)

lemma set_window: "set (window n xs) = {xs ! j |j. j < length xs \<and> length xs \<le> j + n}" (is "?l = ?r")
proof
  show "?l \<subseteq> ?r"
  proof
    fix x assume "x \<in> ?l"
    then obtain i where "i < length (window n xs)" "window n xs ! i = x" by (auto simp: in_set_conv_nth)
    then show "x \<in> ?r" by (auto simp: window_def intro!: exI[of _ "length xs - n + i"])
  qed
  show "?r \<subseteq> ?l"
  proof
    fix x assume "x \<in> ?r"
    then obtain j where "j < length xs" "length xs \<le> j + n" "x = xs ! j" by blast
    then show "x \<in> ?l" unfolding in_set_conv_nth window_def by (intro exI[of _ "j - (length xs - n)"]) auto
  qed
qed

lemma window_snoc: "0 < n \<Longrightarrow> n \<le> length xs \<Longrightarrow> window n (xs @ [x]) = tl (window n xs) @ [x]"
  by (simp add: window_def Suc_diff_le drop_Suc flip: tl_drop)

lemma mod_neq: "j < k \<Longrightarrow> k < j + n \<Longrightarrow> j mod n \<noteq> k mod (n :: nat)"
  by (metis add_diff_cancel_left' le_add_diff_inverse less_imp_le mod_eq_dvd_iff_nat nat_dvd_not_less
      nat_add_left_cancel_less zero_less_diff)

lemma ring_snoc: "0 < n \<Longrightarrow> ring n xs values \<Longrightarrow> ring n (xs @ [x]) (values[length xs mod n := x])"
  unfolding ring_def by (auto simp: nth_append nth_list_update less_Suc_eq mod_neq dest: mod_neq[of _ "length xs" n])

lemma ring_covers:
  fixes k :: nat
  assumes "i < n" "n \<le> k"
  shows "\<exists>j < k. k \<le> j + n \<and> j mod n = i"
proof (intro exI conjI)
  define d where "d = k - 1 - i"
  let ?j = "k - 1 - d mod n"
  have k: "k - 1 = i + d" using assms by (simp add: d_def)
  have "d = n * (d div n) + d mod n" by simp
  then have "?j = i + n * (d div n)" using k by linarith
  then show "?j mod n = i" using assms by simp
  show "?j < k" using assms by simp
  have "d mod n < n" using assms by simp
  then show "k \<le> ?j + n" by linarith
qed

lemma ring_set:
  assumes "ring n xs values" "n \<le> length xs"
  shows "set values = set (window n xs)"
proof
  show "set values \<subseteq> set (window n xs)"
  proof
    fix x assume "x \<in> set values"
    then obtain i where i: "i < n" "x = values ! i" using assms(1) by (auto simp: ring_def in_set_conv_nth)
    obtain j where "j < length xs" "length xs \<le> j + n" "j mod n = i" using ring_covers[OF i(1) assms(2)] by blast
    then show "x \<in> set (window n xs)" using assms(1) i(2) unfolding set_window ring_def by blast
  qed
  show "set (window n xs) \<subseteq> set values"
  proof
    fix x assume "x \<in> set (window n xs)"
    then obtain j where j: "j < length xs" "length xs \<le> j + n" "x = xs ! j" unfolding set_window by blast
    then have "values ! (j mod n) = x" "length values = n" using assms(1) unfolding ring_def by blast+
    moreover have "j mod n < n" using j by (intro mod_less_divisor) linarith
    ultimately show "x \<in> set values" by (metis nth_mem)
  qed
qed

subsection \<open>An extreme value of the window\<close>

text \<open>What the filter needs of the comparison. \<open>tracks n xs e\<close>: after the values \<open>xs\<close>, \<open>e\<close> is a value
  of the last \<open>n\<close> that no other one is better than, and its position in the ring buffer.\<close>

definition in_i32 :: "int \<Rightarrow> bool" where
  "in_i32 n \<longleftrightarrow> INT32_MIN \<le> n \<and> n \<le> INT32_MAX"

locale extreme_order =
  fixes le :: "int \<Rightarrow> int \<Rightarrow> bool" and worst :: int
  assumes le_trans: "le x y \<Longrightarrow> le y z \<Longrightarrow> le x z"
    and le_total: "le x y \<or> le y x"
    and le_worst: "in_i32 x \<Longrightarrow> le x worst"
begin

lemma search_step:
  "search_extreme le worst values (is @ [i]) =
    (case search_extreme le worst values is of (v, p) \<Rightarrow> if le (values ! i) v then (values ! i, i) else (v, p))"
  by (simp add: search_extreme_def)

lemma search_best:
  assumes "\<forall>i \<in> set is. in_i32 (values ! i)" "search_extreme le worst values is = (v, p)"
  shows "(\<forall>i \<in> set is. le v (values ! i)) \<and> (if is = [] then v = worst else p \<in> set is \<and> values ! p = v)"
  using assms
proof (induction "is" arbitrary: v p rule: rev_induct)
  case Nil
  then show ?case by (simp add: search_extreme_def)
next
  case (snoc i "is")
  obtain v0 p0 where s: "search_extreme le worst values is = (v0, p0)" by fastforce
  have IH: "(\<forall>i \<in> set is. le v0 (values ! i)) \<and> (if is = [] then v0 = worst else p0 \<in> set is \<and> values ! p0 = v0)"
    using snoc.IH[OF _ s] snoc.prems(1) by simp
  show ?case
  proof (cases "le (values ! i) v0")
    case True
    then have vp: "v = values ! i" "p = i" using snoc.prems(2) by (auto simp: search_step s)
    have "le (values ! i) (values ! j)" if "j \<in> set is" for j using that IH le_trans[OF True] by blast
    then show ?thesis unfolding vp using le_total[of "values ! i" "values ! i"] by auto
  next
    case False
    then have "v = v0" "p = p0" using snoc.prems(2) by (auto simp: search_step s)
    moreover have "is \<noteq> []" using False IH snoc.prems(1) le_worst by fastforce
    ultimately show ?thesis using False IH le_total[of v0 "values ! i"] by auto
  qed
qed

lemma search_bound:
  assumes "\<forall>i \<in> set is. le b (values ! i)" "le b worst" "search_extreme le worst values is = (v, p)"
  shows "le b v"
  using assms
proof (induction "is" arbitrary: v p rule: rev_induct)
  case Nil
  then show ?case by (simp add: search_extreme_def)
next
  case (snoc i "is")
  obtain v0 p0 where s: "search_extreme le worst values is = (v0, p0)" by fastforce
  show ?case using snoc.IH[OF _ _ s] snoc.prems by (auto simp: search_step s split: if_splits)
qed

definition tracks :: "nat \<Rightarrow> int list \<Rightarrow> extreme \<Rightarrow> bool" where
  "tracks n xs e \<longleftrightarrow> (\<exists>m < length xs. length xs \<le> m + n \<and> xs ! m = ex_value e \<and> ex_pos e = m mod n)
    \<and> (\<forall>j < length xs. length xs \<le> j + n \<longrightarrow> le (ex_value e) (xs ! j))"

lemma tracks_best:
  assumes "tracks n xs e"
  shows "ex_value e \<in> set (window n xs)" "x \<in> set (window n xs) \<Longrightarrow> le (ex_value e) x"
proof -
  obtain m where "m < length xs" "length xs \<le> m + n" "xs ! m = ex_value e" using assms unfolding tracks_def by blast
  then show "ex_value e \<in> set (window n xs)" unfolding set_window by force
  assume "x \<in> set (window n xs)"
  then obtain j where "j < length xs" "length xs \<le> j + n" "x = xs ! j" unfolding set_window by blast
  then show "le (ex_value e) x" using assms unfolding tracks_def by blast
qed

lemma tracks_single: "0 < n \<Longrightarrow> ex_value e = x \<Longrightarrow> ex_pos e = 0 \<Longrightarrow> tracks n [x] e"
  using le_total[of x x] by (auto simp: tracks_def)

lemma tracks_update:
  assumes n: "0 < n" and t: "tracks n xs e" and r: "ring n (xs @ [v]) values"
    and i32: "\<forall>x \<in> set (xs @ [v]). in_i32 x"
  shows "tracks n (xs @ [v]) (update_extreme le worst now v values (length xs mod n) n e)"
proof -
  let ?pos = "length xs mod n"
  obtain m where m: "m < length xs" "length xs \<le> m + n" "xs ! m = ex_value e" "ex_pos e = m mod n"
    and best: "\<forall>j < length xs. length xs \<le> j + n \<longrightarrow> le (ex_value e) (xs ! j)"
    using t by (auto simp: tracks_def)
  have vv: "le v v" using le_total by blast
  consider "le v (ex_value e)" | "\<not> le v (ex_value e)" "ex_pos e = ?pos" | "\<not> le v (ex_value e)" "ex_pos e \<noteq> ?pos" by blast
  then show ?thesis
  proof cases
    case 1
    then show ?thesis using vv n le_trans[OF 1] best
      by (auto simp: update_extreme_def tracks_def nth_append less_Suc_eq intro!: exI[of _ "length xs"])
  next
    case 2
    have full: "n \<le> length xs" using m 2(2) mod_neq[of m "length xs" n] by fastforce
    let ?is = "[Suc ?pos..<n] @ [0..<Suc ?pos]"
    have pn: "?pos < n" using n by simp
    then have is_set: "set ?is = {..<n}" by auto
    have l: "length values = n" using r by (simp add: ring_def)
    have sv: "set values = set (window n (xs @ [v]))" using ring_set[OF r] full by simp
    have sub: "set (window n (xs @ [v])) \<subseteq> set (xs @ [v])" unfolding window_def by (rule set_drop_subset)
    obtain w p where s: "search_extreme le worst values ?is = (w, p)" by fastforce
    have "\<forall>i \<in> set ?is. in_i32 (values ! i)"
      using is_set l sv sub i32 by (metis (no_types, lifting) lessThan_iff nth_mem subsetD)
    from search_best[OF this s] have w: "\<forall>i < n. le w (values ! i)" "p < n" "values ! p = w" unfolding is_set by auto
    obtain j where j: "j < length (xs @ [v])" "length (xs @ [v]) \<le> j + n" "j mod n = p"
      using ring_covers[OF w(2), of "length (xs @ [v])"] full by auto
    have "(xs @ [v]) ! j = w" using ring_nth[OF r j(1,2)] j(3) w(3) by simp
    moreover have "le w ((xs @ [v]) ! j')" if "j' < length (xs @ [v])" "length (xs @ [v]) \<le> j' + n" for j'
      using ring_nth[OF r that] w(1) n by (metis mod_less_divisor)
    moreover have "update_extreme le worst now v values ?pos n e = \<lparr>ex_value = w, ex_pos = p,
        ex_expiration = calculate_minmax_filter_expiration_timestamp now p ?pos n\<rparr>"
      using 2 s by (simp add: update_extreme_def)
    ultimately show ?thesis using j unfolding tracks_def by auto
  next
    case 3
    have "length xs < m + n" using m 3(2) by (cases "length xs = m + n") auto
    moreover have "le (ex_value e) v" using 3(1) le_total by blast
    ultimately show ?thesis using 3 m best
      by (auto simp: update_extreme_def tracks_def nth_append less_Suc_eq intro!: exI[of _ m])
  qed
qed

end

interpretation lo: extreme_order "(\<le>)" INT32_MAX
  by unfold_locales (auto simp: in_i32_def)

interpretation hi: extreme_order "(\<ge>)" INT32_MIN
  by unfold_locales (auto simp: in_i32_def)

subsection \<open>The filter after some updates\<close>

definition minmax_ok :: "nat \<Rightarrow> FilterType \<Rightarrow> int list \<Rightarrow> MinMaxFilter \<Rightarrow> bool" where
  "minmax_ok n ty xs f \<longleftrightarrow> 0 < n \<and> xs \<noteq> [] \<and> f_type f = ty \<and> history_length f = n \<and> history_pos f = length xs mod n
    \<and> ring n xs (history_values f) \<and> ex_value (f_min f) \<noteq> INT32_MAX
    \<and> (ty \<noteq> MaxOnly \<longrightarrow> lo.tracks n xs (f_min f)) \<and> (ty \<noteq> MinOnly \<longrightarrow> hi.tracks n xs (f_max f))"

lemma Suc_mod_wrap: "0 < n \<Longrightarrow> (if Suc (k mod n) \<ge> n then 0 else Suc (k mod n)) = Suc k mod n"
  by (simp add: mod_Suc) (metis Suc_lessI mod_less_divisor not_le)

lemma minmax_first:
  assumes "0 < history_length f" "length (history_values f) = history_length f" "ex_value (f_min f) = INT32_MAX" "v \<noteq> INT32_MAX"
  shows "\<exists>f'. minmax_update now v f = Some f' \<and> minmax_ok (history_length f) (f_type f) [v] f'"
  using assms
  by (auto simp: minmax_update_def minmax_ok_def ring_def Let_def intro!: lo.tracks_single hi.tracks_single)

lemma minmax_next:
  assumes ok: "minmax_ok n ty xs f" and "\<forall>x \<in> set (xs @ [v]). in_i32 x" and v: "v \<noteq> INT32_MAX"
  shows "\<exists>f'. minmax_update now v f = Some f' \<and> minmax_ok n ty (xs @ [v]) f'"
proof -
  let ?vals = "(history_values f)[length xs mod n := v]"
  have r: "ring n (xs @ [v]) ?vals" using ok by (intro ring_snoc) (simp_all add: minmax_ok_def)
  have n: "0 < n" using ok by (simp add: minmax_ok_def)
  obtain f' where f': "minmax_update now v f = Some f'" using ok by (simp add: minmax_update_def minmax_ok_def Let_def)
  let ?e = "update_extreme (\<le>) INT32_MAX now v ?vals (length xs mod n) n (f_min f)"
  let ?g = "update_extreme (\<ge>) INT32_MIN now v ?vals (length xs mod n) n (f_max f)"
  have lo: "lo.tracks n (xs @ [v]) ?e" if "ty \<noteq> MaxOnly"
    using ok that assms(2) by (intro lo.tracks_update[OF n _ r]) (auto simp: minmax_ok_def)
  have hi: "hi.tracks n (xs @ [v]) ?g" if "ty \<noteq> MinOnly"
    using ok that assms(2) by (intro hi.tracks_update[OF n _ r]) (auto simp: minmax_ok_def)
  have "ex_value ?e \<noteq> INT32_MAX" if "ty \<noteq> MaxOnly"
  proof -
    have "v \<in> set (window n (xs @ [v]))" using n by (auto simp: set_window intro!: exI[of _ "length xs"])
    from lo.tracks_best(2)[OF lo[OF that] this] have "ex_value ?e \<le> v" .
    moreover have "v < INT32_MAX" using v assms(2) by (auto simp: in_i32_def)
    ultimately show ?thesis by simp
  qed
  then show ?thesis using ok f' r n lo hi Suc_mod_wrap[OF n]
    by (cases ty) (auto simp: minmax_update_def minmax_ok_def Let_def)
qed

definition sample_ok :: "int \<Rightarrow> bool" where
  "sample_ok v \<longleftrightarrow> INT32_MIN \<le> v \<and> v < INT32_MAX"

lemma sample_ok_i32: "sample_ok v \<Longrightarrow> in_i32 v \<and> v \<noteq> INT32_MAX"
  by (simp add: sample_ok_def in_i32_def)

lemma minmax_feed_append: "minmax_feed (as @ bs) f = Option.bind (minmax_feed as f) (minmax_feed bs)"
  by (induction as f rule: minmax_feed.induct) (auto simp: bind_eq_None_conv split: bind_splits)

lemma minmax_feed_ok:
  assumes "minmax_ok n ty xs f" "\<forall>x \<in> set xs \<union> snd ` set obs. sample_ok x"
  shows "\<exists>f'. minmax_feed obs f = Some f' \<and> minmax_ok n ty (xs @ map snd obs) f'"
  using assms
proof (induction obs arbitrary: xs f)
  case (Cons o1 obs)
  obtain now v where o1: "o1 = (now, v)" by fastforce
  have "\<forall>x \<in> set (xs @ [v]). in_i32 x" "v \<noteq> INT32_MAX" using Cons.prems(2) sample_ok_i32 by (auto simp: o1)
  from minmax_next[OF Cons.prems(1) this, of now]
  obtain f1 where f1: "minmax_update now v f = Some f1" "minmax_ok n ty (xs @ [v]) f1" by blast
  from Cons.IH[OF f1(2)] Cons.prems(2) show ?case by (auto simp: o1 f1(1))
qed simp

lemma minmax_init_first:
  assumes "sample_ok v"
  shows "\<exists>f'. minmax_update now v (minmax_init n ty mem new_minmax) = Some f' \<and> minmax_ok (max 1 n) ty [v] f'"
  using minmax_first[of "minmax_init n ty mem new_minmax" v now] sample_ok_i32[OF assms]
  by (cases "n = 0") (auto simp: minmax_init_def new_minmax_def max_def Let_def)

lemma minmax_feed_init:
  assumes "obs \<noteq> []" "\<forall>x \<in> snd ` set obs. sample_ok x"
  shows "\<exists>f'. minmax_feed obs (minmax_init n ty mem new_minmax) = Some f' \<and> minmax_ok (max 1 n) ty (map snd obs) f'"
proof -
  obtain now v obs' where o: "obs = (now, v) # obs'" using assms(1) by (cases obs) auto
  obtain f1 where f1: "minmax_update now v (minmax_init n ty mem new_minmax) = Some f1" "minmax_ok (max 1 n) ty [v] f1"
    using minmax_init_first assms(2) o by fastforce
  from minmax_feed_ok[OF f1(2), of obs'] assms(2) show ?thesis by (auto simp: o f1(1))
qed

lemma minmax_ok_min:
  assumes "minmax_ok n ty xs f" "ty \<noteq> MaxOnly"
  shows "ex_value (f_min f) = Min (set (window n xs))"
  using assms lo.tracks_best[of n xs "f_min f"] by (intro Min_eqI[symmetric]) (auto simp: minmax_ok_def)

lemma minmax_ok_max:
  assumes "minmax_ok n ty xs f" "ty \<noteq> MinOnly"
  shows "ex_value (f_max f) = Max (set (window n xs))"
  using assms hi.tracks_best[of n xs "f_max f"] by (intro Max_eqI[symmetric]) (auto simp: minmax_ok_def)

text \<open>Claim C18. Whatever the memory of its buffer held, the filter never aborts, and its values are the smallest and the
  largest of the last \<open>n\<close> inputs, or of all if there were fewer.\<close>

theorem minmax_is_window_extreme:
  assumes "obs \<noteq> []" "\<forall>x \<in> snd ` set obs. INT32_MIN \<le> x \<and> x < INT32_MAX"
  shows "\<exists>f'. minmax_feed obs (minmax_init n ty mem new_minmax) = Some f'
    \<and> (ty \<noteq> MaxOnly \<longrightarrow> ex_value (f_min f') = Min (set (window (max 1 n) (map snd obs))))
    \<and> (ty \<noteq> MinOnly \<longrightarrow> ex_value (f_max f') = Max (set (window (max 1 n) (map snd obs))))"
proof -
  have "\<forall>x \<in> snd ` set obs. sample_ok x" using assms(2) unfolding sample_ok_def by blast
  from minmax_feed_init[OF assms(1) this] show ?thesis using minmax_ok_min minmax_ok_max by meson
qed

theorem minmax_is_window_extreme_witness:
  "\<exists>f'. minmax_feed [(0, 5), (1, 3), (2, 7), (3, 8)] (minmax_init 2 MinMax (\<lambda>_. 0) new_minmax) = Some f'
    \<and> ex_value (f_min f') = 7 \<and> ex_value (f_max f') = 8"
  using minmax_is_window_extreme[of "[(0, 5), (1, 3), (2, 7), (3, 8)]" 2 MinMax "\<lambda>_. 0"] by (simp add: window_def)

lemma minmax_keeps_min:
  assumes "minmax_ok n ty xs f" "ty \<noteq> MaxOnly" "ex_value (f_min f) < v" "ex_pos (f_min f) \<noteq> length xs mod n"
    "minmax_update now v f = Some f'"
  shows "f_min f' = f_min f"
  using assms by (auto simp: minmax_update_def minmax_ok_def update_extreme_def Let_def)

lemma minmax_feed_keeps_min:
  assumes "minmax_ok n ty xs f" "ty \<noteq> MaxOnly" "length xs mod n = Suc k" "k + length obs < n" "ex_pos (f_min f) = 0"
    "\<forall>x \<in> set xs \<union> snd ` set obs. sample_ok x" "\<forall>x \<in> snd ` set obs. ex_value (f_min f) < x"
  shows "\<exists>f'. minmax_feed obs f = Some f' \<and> f_min f' = f_min f"
  using assms
proof (induction obs arbitrary: xs f k)
  case (Cons o1 obs)
  obtain now v where o1: "o1 = (now, v)" by fastforce
  have "\<forall>x \<in> set (xs @ [v]). in_i32 x" "v \<noteq> INT32_MAX" using Cons.prems(6) sample_ok_i32 by (auto simp: o1)
  from minmax_next[OF Cons.prems(1) this, of now]
  obtain f1 where f1: "minmax_update now v f = Some f1" "minmax_ok n ty (xs @ [v]) f1" by blast
  have same: "f_min f1 = f_min f" using Cons.prems f1(1) by (intro minmax_keeps_min) (auto simp: o1)
  show ?case
  proof (cases "obs = []")
    case True
    then show ?thesis using f1 same by (simp add: o1)
  next
    case False
    then have "Suc (Suc k) < n" using Cons.prems(4) by (cases obs) auto
    then have "length (xs @ [v]) mod n = Suc (Suc k)" using Cons.prems(3) by (simp add: mod_Suc)
    from Cons.IH[OF f1(2) Cons.prems(2) this] Cons.prems show ?thesis by (auto simp: o1 f1(1) same)
  qed
qed simp

lemma minmax_replaces_min:
  assumes "minmax_ok n ty xs f" "ty \<noteq> MaxOnly" "length xs = n" "ex_pos (f_min f) = 0" "ex_value (f_min f) < v"
    "\<forall>x \<in> set (tl xs). v \<le> x" "v \<le> INT32_MAX" "minmax_update now v f = Some f'"
  shows "f_min f' = \<lparr>ex_value = v, ex_pos = 0, ex_expiration = now\<rparr>"
proof -
  let ?vals = "(history_values f)[0 := v]"
  have r: "ring n xs (history_values f)" and n: "0 < n" using assms(1) by (simp_all add: minmax_ok_def)
  have ge: "\<forall>i \<in> set [Suc 0..<n]. v \<le> ?vals ! i"
  proof
    fix i assume "i \<in> set [Suc 0..<n]"
    then have i: "0 < i" "i < n" by auto
    then have "?vals ! i = xs ! i" using ring_nth[OF r, of i] assms(3) by simp
    also have "xs ! i = tl xs ! (i - 1)" using i assms(3) by (simp add: nth_tl)
    also have "\<dots> \<in> set (tl xs)" using i assms(3) by simp
    finally show "v \<le> ?vals ! i" using assms(6) by simp
  qed
  obtain w p where s: "search_extreme (\<le>) INT32_MAX ?vals [Suc 0..<n] = (w, p)" by fastforce
  have "v \<le> w" by (rule lo.search_bound[OF ge assms(7) s])
  moreover have "length (history_values f) = n" using r by (simp add: ring_def)
  ultimately have "search_extreme (\<le>) INT32_MAX ?vals ([Suc 0..<n] @ [0]) = (v, 0)"
    using n by (simp add: lo.search_step s)
  then show ?thesis using assms n
    by (auto simp: minmax_update_def minmax_ok_def update_extreme_def Let_def
        calculate_minmax_filter_expiration_timestamp_def samples_us_def)
qed



subsection \<open>The moving average is a mean\<close>

text \<open>Before the first value the window counts as filled with it.\<close>

definition mavg_ok :: "nat \<Rightarrow> int \<Rightarrow> int list \<Rightarrow> MavgFilter \<Rightarrow> bool" where
  "mavg_ok n B xs f \<longleftrightarrow> 0 < n \<and> n \<le> length xs \<and> mavg_values_count f = n \<and> mavg_position f = length xs mod n
    \<and> ring n xs (mavg_values f) \<and> mavg_total f = sum_list (window n xs) \<and> (\<forall>x \<in> set xs. \<bar>x\<bar> \<le> B)
    \<and> \<bar>filtered_val f\<bar> \<le> B"

definition mavg_fresh :: "nat \<Rightarrow> MavgFilter \<Rightarrow> bool" where
  "mavg_fresh n f \<longleftrightarrow> 0 < n \<and> mavg_values_count f = n \<and> length (mavg_values f) = n \<and> mavg_position f = 0
    \<and> filtered_val f = INT32_MAX"

lemma mavg_init_fresh: "mavg_fresh (max 1 n) (mavg_init n mem new_mavg)"
  by (auto simp: mavg_fresh_def mavg_init_def new_mavg_def Let_def)

lemma ring_replicate: "0 < n \<Longrightarrow> ring n (replicate n x) (replicate n x)"
  by (simp add: ring_def)

lemma abs_sum_list_le: "\<forall>x \<in> set xs. \<bar>x\<bar> \<le> (B :: int) \<Longrightarrow> \<bar>sum_list xs\<bar> \<le> int (length xs) * B"
  by (induction xs) (auto simp: algebra_simps)

lemma length_window: "n \<le> length xs \<Longrightarrow> length (window n xs) = n"
  by (simp add: window_def)

lemma set_window_subset: "set (window n xs) \<subseteq> set xs"
  unfolding window_def by (rule set_drop_subset)

lemma sum_window:
  assumes "n \<le> length xs" "\<forall>x \<in> set xs. \<bar>x\<bar> \<le> (B :: int)"
  shows "\<bar>sum_list (window n xs)\<bar> \<le> B * int n"
  using abs_sum_list_le[of "window n xs" B] set_window_subset[of n xs] assms by (auto simp: length_window mult.commute)

lemma mavg_first:
  assumes "mavg_fresh n f" "\<bar>v\<bar> \<le> B" "B * int n \<le> INT32_MAX"
  shows "\<exists>f'. mavg_update v f = Some (v, f') \<and> mavg_ok n B (replicate n v) f'"
proof -
  have n: "0 < n" using assms(1) by (simp add: mavg_fresh_def)
  have "\<bar>v * int n\<bar> \<le> INT32_MAX" using assms(2,3) mult_right_mono[of "\<bar>v\<bar>" B "int n"] by (simp add: abs_mult)
  then show ?thesis using assms n ring_replicate[OF n, of v]
    by (auto simp: mavg_update_def mavg_fresh_def mavg_ok_def i32_Some window_def sum_list_replicate Let_def)
qed

lemma mavg_next:
  assumes ok: "mavg_ok n B xs f" and v: "\<bar>v\<bar> \<le> B" and B: "B * int n + B \<le> INT32_MAX" "B < INT32_MAX"
  shows "\<exists>f'. mavg_update v f = Some (sum_list (window n (xs @ [v])) sdiv int n, f') \<and> mavg_ok n B (xs @ [v]) f'"
proof -
  let ?w = "window n xs" and ?w' = "window n (xs @ [v])"
  have n: "0 < n" "n \<le> length xs" and xs: "\<forall>x \<in> set (xs @ [v]). \<bar>x\<bar> \<le> B" and f: "filtered_val f \<noteq> INT32_MAX"
    using ok v B(2) by (auto simp: mavg_ok_def)
  have w': "?w' = tl ?w @ [v]" using n by (rule window_snoc)
  have ne: "?w \<noteq> []" using n length_window[of n xs] by auto
  have "length xs - n < length xs" using n by simp
  then have "mavg_values f ! (length xs mod n) = hd ?w"
    using ok ring_nth[of n xs "mavg_values f" "length xs - n"] n
    by (simp add: mavg_ok_def window_def hd_drop_conv_nth le_mod_geq[of n "length xs"])
  then have old: "mavg_total f - mavg_values f ! (length xs mod n) = sum_list (tl ?w)"
    using ok ne by (cases ?w) (auto simp: mavg_ok_def)
  have "\<bar>sum_list (tl ?w)\<bar> \<le> B * int n + B"
    using sum_window[of n "xs @ [v]" B] xs n(2) v w' by simp
  then have 1: "i32 (mavg_total f - mavg_values f ! (length xs mod n)) = Some (sum_list (tl ?w))"
    using B by (simp add: old i32_Some)
  have s': "\<bar>sum_list ?w'\<bar> \<le> B * int n" using sum_window[of n "xs @ [v]" B] xs n(2) by simp
  have B0: "0 \<le> B" using v by simp
  have 2: "i32 (sum_list (tl ?w) + v) = Some (sum_list ?w')" using s' B B0 by (simp add: i32_Some w')
  have 3: "div32 (sum_list ?w') (int n) = Some (sum_list ?w' sdiv int n)" using s' B B0 n by (intro div32_Some) auto
  have avg: "\<bar>sum_list ?w' sdiv int n\<bar> \<le> B" using s' n by (intro abs_sdiv_bound) auto
  have r: "ring n (xs @ [v]) ((mavg_values f)[length xs mod n := v])"
    using ok n by (intro ring_snoc) (auto simp: mavg_ok_def)
  show ?thesis using ok f 1 2 3 avg r xs Suc_mod_wrap[OF n(1)] by (auto simp: mavg_update_def mavg_ok_def Let_def)
qed

end
