(* ===== verification/Power_Manager.thy ===== *)
theory Power_Manager
  imports Power_Filters
begin

unbundle bit_operations_syntax

section \<open>Power manager: limits from measured power and currents\<close>

text \<open>
  The power manager (\<^verbatim>\<open>power_manager.cpp\<close>) turns what the meters at the grid connection and at the battery
  measure into the limits the charge manager allocates from: twice a second it reads the meters, adjusts the power that is
  left for PV charging with a proportional controller, and does the same for the current of each phase, whose
  measured value it smooths first. This theory models its configuration and setup, the task, the actions of automation
  rules and the external control of the phase switch.

  \<^verbatim>\<open>int32_t\<close> arithmetic goes through \<open>i32\<close>, so a step is \<open>None\<close> where the C code overflows,
  divides by zero, aborts or dereferences a null pointer. \<^verbatim>\<open>float\<close> is a parameter as in \<open>float_ops\<close>.
  The meters, the time and the allocated currents are arguments; the limits the charge manager reads are part of
  the state. Messages in the event log and values that are only displayed are left out.
\<close>

subsection \<open>Configuration\<close>

datatype BatteryPriority = PreferChargers | PreferBattery | TargetSOC

datatype CloudFilter = CLOUD_FILTER_OFF | CLOUD_FILTER_LIGHT | CLOUD_FILTER_MEDIUM | CLOUD_FILTER_STRONG

abbreviation (input) PHASE_SWITCHING_EXTERNAL_CONTROL :: nat where "PHASE_SWITCHING_EXTERNAL_CONTROL \<equiv> 3"

record pm_config =
  phase_switching_mode :: nat
  excess_charging_enable :: bool
  meter_slot_grid_power :: nat
  meter_slot_battery_power :: nat
  battery_mode :: BatteryPriority
  battery_target_soc :: nat
  battery_inverted :: bool
  battery_deadzone :: nat
  target_power_from_grid :: int
  cloud_filter_mode :: CloudFilter

record pm_load_config =
  dl_enabled :: bool
  current_limit :: nat
  largest_consumer_current :: nat
  safety_margin_pct :: nat

definition pm_config_invalid :: "pm_config \<Rightarrow> string option" where
  "pm_config_invalid cfg =
    (if phase_switching_mode cfg = PHASE_SWITCHING_EXTERNAL_CONTROL \<and> excess_charging_enable cfg
     then Some ''Can't enable excess charging when external control is enabled for phase switching.''
     else if excess_charging_enable cfg \<and> meter_slot_grid_power cfg = meter_slot_battery_power cfg
     then Some ''Grid and battery storage cannot use the same power meter''
     else None)"

definition pm_load_config_invalid :: "pm_load_config \<Rightarrow> string option" where
  "pm_load_config_invalid cfg =
    (if \<not> dl_enabled cfg then None
     else if current_limit cfg < 16000 then Some ''Invalid grid current limit. Must be at least 16A.''
     else if current_limit cfg > 524287 then Some ''Invalid grid current limit. Must be at most 524A.''
     else if largest_consumer_current cfg > current_limit cfg
     then Some ''Largest consumer current cannot be above grid current limit.''
     else None)"

subsection \<open>Constants of the current controller\<close>

record pm_constants =
  target_phase_current_ma :: int
  phase_current_max_increase_ma :: int
  preproc_mavg_limit :: int
  preproc_interpolate_limit :: int
  preproc_interpolate_interval_quantized :: int

definition PREPROC_QUANTIZATION :: int where
  "PREPROC_QUANTIZATION = 128"

definition pm_constants_of :: "pm_load_config \<Rightarrow> pm_constants option" where
  "pm_constants_of cfg = do {
     let limit = int (current_limit cfg);
     let margin = int (safety_margin_pct cfg);
     x \<leftarrow> i32 (limit * 7);
     trip_point \<leftarrow> div32 x 5;
     max_possible \<leftarrow> i32 (trip_point - int (largest_consumer_current cfg));
     x \<leftarrow> i32 (min max_possible limit * (100 - margin));
     target \<leftarrow> div32 x 100;
     increase \<leftarrow> div32 target 2;
     x \<leftarrow> i32 (target * 11);
     mavg_limit \<leftarrow> div32 x 10;
     x \<leftarrow> i32 (target * 6);
     interpolate_limit \<leftarrow> div32 x 5;
     x \<leftarrow> i32 (interpolate_limit - mavg_limit);
     interval \<leftarrow> div32 x PREPROC_QUANTIZATION;
     Some \<lparr>target_phase_current_ma = target, phase_current_max_increase_ma = increase, preproc_mavg_limit = mavg_limit,
       preproc_interpolate_limit = interpolate_limit, preproc_interpolate_interval_quantized = interval\<rparr> }"

subsection \<open>State\<close>

text \<open>What the manager keeps for a phase.\<close>

record pm_phase =
  current_at_meter_raw_ma :: int
  preproc_max_ma :: MinMaxFilter
  preproc_mavg_ma :: MavgFilter
  phase_min_ma :: MinMaxFilter
  phase_floating_min_ma :: int
  phase_long_min_ma :: MinMaxFilter

record 'f pm_state =
  pm_cfg :: pm_config
  dynamic_load_enabled :: bool
  pm_const :: pm_constants
  supply_cable_max_current_ma :: int
  have_battery :: bool
  max_current_limited_ma :: int
  charging_blocked :: "bool list"
  power_available_w :: int
  current_long_min_iterations :: nat
  power_at_meter_raw_w :: 'f
  power_at_battery_raw_w :: 'f
  battery_soc_raw :: 'f
  pv_floating_min_ma :: int
  pv_minmax_ma :: MinMaxFilter
  pv_long_min_ma :: MinMaxFilter
  pm_phases :: "GridPhase \<Rightarrow> pm_phase"
  cm_allocator_trigger_hysteresis :: int
  pm_cm_limits :: CurrentLimits
  automation_drawing_power_last :: "bool option"
  config_error_flags :: nat

definition zero_limits :: CurrentLimits where
  "zero_limits = \<lparr>min_expiration_ts = (\<lambda>_. 0), max_pv_expiration_ts = 0, lim_raw = Cost 0 0 0 0, lim_min = Cost 0 0 0 0,
     lim_spread = Cost 0 0 0 0, lim_max_pv = 0\<rparr>"

definition set_max_current_limit :: "int \<Rightarrow> 'f pm_state \<Rightarrow> 'f pm_state" where
  "set_max_current_limit limit_ma s =
    s\<lparr>max_current_limited_ma :=
      if limit_ma > supply_cable_max_current_ma s then supply_cable_max_current_ma s else limit_ma\<rparr>"

definition reset_max_current_limit :: "'f pm_state \<Rightarrow> 'f pm_state" where
  "reset_max_current_limit s = set_max_current_limit INT32_MAX s"

subsection \<open>Reading the meters\<close>

datatype MeterValueAvailability = MvFresh | MvStale | MvUnavailable | MvCurrentlyUnknown

text \<open>What the meters answer when a task run asks them for values that are not too old.\<close>

record 'f pm_input =
  pi_now :: int
  pi_elapsed :: "int \<Rightarrow> bool"
  grid_power :: "MeterValueAvailability \<times> 'f"
  battery_power :: "MeterValueAvailability \<times> 'f"
  battery_soc :: "MeterValueAvailability \<times> 'f"
  grid_currents :: "MeterValueAvailability \<times> (GridPhase \<Rightarrow> 'f)"

definition fresh_or :: "'f \<Rightarrow> MeterValueAvailability \<times> 'f \<Rightarrow> 'f" where
  "fresh_or nan reading = (if fst reading = MvFresh then snd reading else nan)"

definition update_battery :: "'f float_ops \<Rightarrow> 'f \<Rightarrow> 'f pm_input \<Rightarrow> 'f pm_state \<Rightarrow> 'f pm_state" where
  "update_battery fo nan inp s =
    (if \<not> have_battery s then s
     else let p = fresh_or nan (battery_power inp) in
       s\<lparr>power_at_battery_raw_w :=
           if \<not> f_isnan fo p \<and> battery_inverted (pm_cfg s) then f_mul fo p (f_of_int fo (- 1)) else p,
         battery_soc_raw := fresh_or nan (battery_soc inp)\<rparr>)"

text \<open>A change between drawing and feeding power triggers the rules of the automation.\<close>

definition update_drawing_power :: "'f float_ops \<Rightarrow> bool \<Rightarrow> 'f pm_state \<Rightarrow> 'f pm_state \<times> bool" where
  "update_drawing_power fo after_setup s =
    (let p = power_at_meter_raw_w s; drawing = f_less fo (f_of_int fo 0) p in
     if \<not> f_isnan fo p \<and> Some drawing \<noteq> automation_drawing_power_last s \<and> after_setup
     then (s\<lparr>automation_drawing_power_last := Some drawing\<rparr>, True) else (s, False))"

definition has_triggered :: "'f float_ops \<Rightarrow> bool \<Rightarrow> 'f pm_state \<Rightarrow> bool" where
  "has_triggered fo drawing_power s \<longleftrightarrow> f_less fo (f_of_int fo 0) (power_at_meter_raw_w s) = drawing_power"

definition meter_current_ma :: "'f float_ops \<Rightarrow> 'f \<Rightarrow> 'f pm_input \<Rightarrow> GridPhase \<Rightarrow> int" where
  "meter_current_ma fo nan inp g =
    (let a = fresh_or nan (fst (grid_currents inp), snd (grid_currents inp) g) in
     if f_isnan fo a then INT32_MAX else f_trunc fo (f_mul fo a (f_of_int fo 1000)))"

definition update_data ::
  "'f float_ops \<Rightarrow> 'f \<Rightarrow> bool \<Rightarrow> 'f pm_input \<Rightarrow> 'f pm_state \<Rightarrow> 'f pm_state \<times> bool" where
  "update_data fo nan after_setup inp s =
    (case update_drawing_power fo after_setup
        (update_battery fo nan inp (s\<lparr>power_at_meter_raw_w := fresh_or nan (grid_power inp)\<rparr>)) of
      (s, triggered) \<Rightarrow>
        (if dynamic_load_enabled s
         then s\<lparr>pm_phases := \<lambda>g. (pm_phases s g)\<lparr>current_at_meter_raw_ma := meter_current_ma fo nan inp g\<rparr>\<rparr>
         else s, triggered))"

subsection \<open>Power left for PV charging\<close>

definition battery_share_w :: "'f float_ops \<Rightarrow> 'f pm_state \<Rightarrow> int" where
  "battery_share_w fo s =
    (let w = f_trunc fo (power_at_battery_raw_w s); soc = battery_soc_raw s in
     if w > 0
     then (case battery_mode (pm_cfg s) of
         PreferBattery \<Rightarrow> 0
       | TargetSOC \<Rightarrow> if f_isnan fo soc then 0
           else if f_trunc fo soc < int (battery_target_soc (pm_cfg s)) then 0 else w
       | PreferChargers \<Rightarrow> w)
     else w)"

definition without_deadzone :: "int \<Rightarrow> int \<Rightarrow> int" where
  "without_deadzone dz grid =
    (if grid > 0 then if grid > dz then grid - dz else 0
     else if grid < 0 then if grid < - dz then grid + dz else 0
     else grid)"

definition power_error_w :: "'f float_ops \<Rightarrow> 'f pm_state \<Rightarrow> int option" where
  "power_error_w fo s = do {
     let grid = f_trunc fo (power_at_meter_raw_w s);
     combined \<leftarrow> if have_battery s
       then i32 (without_deadzone (int (battery_deadzone (pm_cfg s))) grid - battery_share_w fo s) else Some grid;
     i32 (target_power_from_grid (pm_cfg s) - combined) }"

text \<open>The factor of the controller is smaller for small errors.\<close>

definition power_adjust_w :: "int \<Rightarrow> int option" where
  "power_adjust_w p_error = do {
     a \<leftarrow> i32 \<bar>p_error\<bar>;
     if a < 1000 then div32 p_error 2
     else if a < 1500 then do { x \<leftarrow> i32 (p_error * 3); div32 x 4 }
     else do { x \<leftarrow> i32 (p_error * 7); div32 x 8 } }"

definition power_values_missing :: "'f float_ops \<Rightarrow> 'f pm_state \<Rightarrow> bool" where
  "power_values_missing fo s \<longleftrightarrow> f_isnan fo (power_at_meter_raw_w s)
     \<or> have_battery s \<and> f_isnan fo (power_at_battery_raw_w s)"

definition update_power_available :: "'f float_ops \<Rightarrow> Cost \<Rightarrow> 'f pm_state \<Rightarrow> 'f pm_state option" where
  "update_power_available fo allocated s =
    (if \<not> excess_charging_enable (pm_cfg s) \<or> power_values_missing fo s
     then Some (s\<lparr>power_available_w := INT32_MAX\<rparr>)
     else do {
       p_error \<leftarrow> power_error_w fo s;
       x \<leftarrow> i32 (pv allocated * 230);
       allocated_w \<leftarrow> div32 x 1000;
       adjust \<leftarrow> if allocated_w \<le> 0 then Some p_error else power_adjust_w p_error;
       available \<leftarrow> i32 (max 0 allocated_w + adjust);
       Some (s\<lparr>power_available_w := available\<rparr>) })"

text \<open>At the start of a minute the smallest value of the last minute enters the long filter.\<close>

definition update_long_min :: "int \<Rightarrow> nat \<Rightarrow> int \<Rightarrow> int \<Rightarrow> MinMaxFilter \<Rightarrow> (int \<times> MinMaxFilter) option" where
  "update_long_min now iterations v floating filt =
    (if iterations = 0 then do { filt \<leftarrow> minmax_update now floating filt; Some (v, filt) }
     else Some (if v < floating then v else floating, filt))"

definition set_limits :: "GridPhase \<Rightarrow> int \<Rightarrow> int \<Rightarrow> int \<Rightarrow> int \<Rightarrow> CurrentLimits \<Rightarrow> CurrentLimits" where
  "set_limits g raw mn spread expiration l =
    l\<lparr>lim_raw := set_phase g raw (lim_raw l), lim_min := set_phase g mn (lim_min l),
      lim_spread := set_phase g spread (lim_spread l), min_expiration_ts := (min_expiration_ts l)(g := expiration)\<rparr>"

definition update_pv_limits :: "int \<Rightarrow> 'f pm_state \<Rightarrow> 'f pm_state option" where
  "update_pv_limits now s =
    (if power_available_w s = INT32_MAX
     then Some (s\<lparr>pm_cm_limits := (set_limits GridPV 0 0 0 0 (pm_cm_limits s))\<lparr>lim_max_pv := 0, max_pv_expiration_ts := 0\<rparr>\<rparr>)
     else do {
       x \<leftarrow> i32 (power_available_w s * 1000);
       raw \<leftarrow> div32 x 230;
       minmax \<leftarrow> minmax_update now raw (pv_minmax_ma s);
       (floating, long) \<leftarrow> update_long_min now (current_long_min_iterations s) raw (pv_floating_min_ma s) (pv_long_min_ma s);
       Some (s\<lparr>pv_minmax_ma := minmax, pv_floating_min_ma := floating, pv_long_min_ma := long,
         pm_cm_limits := (set_limits GridPV raw (ex_value (f_min minmax)) (min floating (ex_value (f_min long)))
             (ex_expiration (f_min minmax)) (pm_cm_limits s))
           \<lparr>lim_max_pv := ex_value (f_max minmax), max_pv_expiration_ts := ex_expiration (f_max minmax)\<rparr>\<rparr>) })"

subsection \<open>Current left on a phase\<close>

text \<open>The measured current, smoothed more the closer it is to the target.\<close>

definition interpolate_ma :: "pm_constants \<Rightarrow> int \<Rightarrow> int \<Rightarrow> int \<Rightarrow> int option" where
  "interpolate_ma k meter max_mavg mavg = do {
     let interval = preproc_interpolate_interval_quantized k;
     x \<leftarrow> i32 (meter - preproc_mavg_limit k);
     interval_max \<leftarrow> div32 x PREPROC_QUANTIZATION;
     interval_mavg \<leftarrow> i32 (interval - interval_max);
     x \<leftarrow> i32 (max_mavg * interval_max);
     part_max \<leftarrow> div32 x interval;
     x \<leftarrow> i32 (mavg * interval_mavg);
     part_mavg \<leftarrow> div32 x interval;
     i32 (part_mavg + part_max) }"

definition preprocess_current :: "int \<Rightarrow> pm_constants \<Rightarrow> pm_phase \<Rightarrow> (int \<times> pm_phase) option" where
  "preprocess_current now k ph = do {
     let meter = current_at_meter_raw_ma ph;
     pmax \<leftarrow> minmax_update now meter (preproc_max_ma ph);
     (mavg, pmavg) \<leftarrow> mavg_update meter (preproc_mavg_ma ph);
     x \<leftarrow> i32 (ex_value (f_max pmax) + mavg);
     max_mavg \<leftarrow> div32 x 2;
     preproc \<leftarrow> if meter < preproc_mavg_limit k then Some mavg
       else if meter > preproc_interpolate_limit k then Some max_mavg
       else interpolate_ma k meter max_mavg mavg;
     Some (preproc, ph\<lparr>preproc_max_ma := pmax, preproc_mavg_ma := pmavg\<rparr>) }"

definition current_adjust_ma :: "pm_constants \<Rightarrow> int \<Rightarrow> int \<Rightarrow> int option" where
  "current_adjust_ma k allocated err =
    (if allocated \<le> 0 then Some err
     else if err < 0 then i32 (err - err sdiv 16)
     else Some (min (err sdiv 2) (phase_current_max_increase_ma k)))"

definition phase_limit_ma :: "pm_constants \<Rightarrow> int \<Rightarrow> int \<Rightarrow> int \<Rightarrow> int option" where
  "phase_limit_ma k max_current allocated preproc = do {
     err \<leftarrow> i32 (target_phase_current_ma k - preproc);
     adjust \<leftarrow> current_adjust_ma k allocated err;
     raw \<leftarrow> i32 (max 0 allocated + adjust);
     Some (min raw max_current) }"

text \<open>Exceeding the limit too much triggers a run of the allocator, at most every five seconds.\<close>

definition trigger_on_overload :: "'f pm_input \<Rightarrow> int \<Rightarrow> 'f pm_state \<Rightarrow> 'f pm_state \<times> bool" where
  "trigger_on_overload inp meter s =
    (if meter > preproc_interpolate_limit (pm_const s) \<and> \<not> meter < preproc_mavg_limit (pm_const s)
        \<and> pi_elapsed inp (cm_allocator_trigger_hysteresis s)
     then (s\<lparr>cm_allocator_trigger_hysteresis := pi_now inp + 5000000\<rparr>, True) else (s, False))"

definition update_phase_limits ::
  "'f pm_input \<Rightarrow> Cost \<Rightarrow> GridPhase \<Rightarrow> 'f pm_state \<Rightarrow> ('f pm_state \<times> bool) option" where
  "update_phase_limits inp allocated g s =
    (let now = pi_now inp; limited = max_current_limited_ma s; ph = pm_phases s g in
     if \<not> dynamic_load_enabled s
     then Some (s\<lparr>pm_cm_limits := set_limits g limited limited limited 0 (pm_cm_limits s)\<rparr>, False)
     else if current_at_meter_raw_ma ph = INT32_MAX
     then Some (s\<lparr>pm_cm_limits := set_limits g 0 0 0 0 (pm_cm_limits s)\<rparr>, False)
     else do {
       (preproc, ph) \<leftarrow> preprocess_current now (pm_const s) ph;
       (s, trigger) \<leftarrow> Some (trigger_on_overload inp (current_at_meter_raw_ma ph) s);
       raw \<leftarrow> phase_limit_ma (pm_const s) limited (at_phase allocated g) preproc;
       minf \<leftarrow> minmax_update now raw (phase_min_ma ph);
       (floating, long) \<leftarrow> update_long_min now (current_long_min_iterations s) raw (phase_floating_min_ma ph)
         (phase_long_min_ma ph);
       let ph = ph\<lparr>phase_min_ma := minf, phase_floating_min_ma := floating, phase_long_min_ma := long\<rparr>;
       Some (s\<lparr>pm_phases := (pm_phases s)(g := ph),
           pm_cm_limits := set_limits g raw (ex_value (f_min minf)) (min floating (ex_value (f_min long)))
             (ex_expiration (f_min minf)) (pm_cm_limits s)\<rparr>, trigger) })"

fun update_phases :: "'f pm_input \<Rightarrow> Cost \<Rightarrow> GridPhase list \<Rightarrow> 'f pm_state \<Rightarrow> ('f pm_state \<times> bool) option" where
  "update_phases inp allocated [] s = Some (s, False)"
| "update_phases inp allocated (g # gs) s = do {
     (s, t1) \<leftarrow> update_phase_limits inp allocated g s;
     (s, t2) \<leftarrow> update_phases inp allocated gs s;
     Some (s, t1 \<or> t2) }"

subsection \<open>The task\<close>

definition next_iteration :: "nat \<Rightarrow> nat" where
  "next_iteration n = (if int (Suc n) > 60 * (1000 div PM_TASK_DELAY_MS) then 0 else Suc n)"

definition is_blocked :: "'f pm_state \<Rightarrow> bool" where
  "is_blocked s \<longleftrightarrow> True \<in> set (charging_blocked s)"

definition apply_charging_blocked :: "'f pm_state \<Rightarrow> 'f pm_state" where
  "apply_charging_blocked s = (if is_blocked s then s\<lparr>pm_cm_limits := zero_limits\<rparr> else s)"

text \<open>The result says whether the allocator is triggered.\<close>

definition update_energy ::
  "'f float_ops \<Rightarrow> 'f pm_input \<Rightarrow> Cost \<Rightarrow> 'f pm_state \<Rightarrow> ('f pm_state \<times> bool) option" where
  "update_energy fo inp allocated s = do {
     s \<leftarrow> update_power_available fo allocated s;
     s \<leftarrow> update_pv_limits (pi_now inp) s;
     (s, trigger) \<leftarrow> update_phases inp allocated [L1, L2, L3] s;
     let s = s\<lparr>current_long_min_iterations := next_iteration (current_long_min_iterations s)\<rparr>;
     Some (apply_charging_blocked s, trigger) }"

definition pm_task ::
  "'f float_ops \<Rightarrow> 'f \<Rightarrow> 'f pm_input \<Rightarrow> Cost \<Rightarrow> 'f pm_state \<Rightarrow> ('f pm_state \<times> bool) option" where
  "pm_task fo nan inp allocated s = update_energy fo inp allocated (fst (update_data fo nan True inp s))"

subsection \<open>Setup\<close>

text \<open>The lengths of the filters, in samples.\<close>

definition power_values_count :: "CloudFilter \<Rightarrow> nat" where
  "power_values_count m =
    (let span_s = (case m of CLOUD_FILTER_OFF \<Rightarrow> 0 | CLOUD_FILTER_LIGHT \<Rightarrow> 120 | CLOUD_FILTER_MEDIUM \<Rightarrow> 240 | CLOUD_FILTER_STRONG \<Rightarrow> 480)
     in if span_s = 0 then 1 else nat (span_s * 1000 div PM_TASK_DELAY_MS))"

definition VALUES_COUNT_LONG_MIN :: nat where "VALUES_COUNT_LONG_MIN = 60"
definition MIN_FILTER_LENGTH :: nat where "MIN_FILTER_LENGTH = nat (4 * 60 * 1000 div PM_TASK_DELAY_MS)"
definition PREPROC_FILTER_LENGTH :: nat where "PREPROC_FILTER_LENGTH = nat (10 * 1000 div PM_TASK_DELAY_MS)"

text \<open>\<open>mem\<close> is what is in the memory allocated for the filters.\<close>

definition initial_phase :: "bool \<Rightarrow> (nat \<Rightarrow> int) \<Rightarrow> pm_phase" where
  "initial_phase enabled mem =
    \<lparr>current_at_meter_raw_ma = INT32_MAX,
     preproc_max_ma = if enabled then minmax_init PREPROC_FILTER_LENGTH MaxOnly mem new_minmax else new_minmax,
     preproc_mavg_ma = if enabled then mavg_init PREPROC_FILTER_LENGTH mem new_mavg else new_mavg,
     phase_min_ma = if enabled then minmax_init MIN_FILTER_LENGTH MinOnly mem new_minmax else new_minmax,
     phase_floating_min_ma = INT32_MAX,
     phase_long_min_ma = if enabled then minmax_init VALUES_COUNT_LONG_MIN MinOnly mem new_minmax else new_minmax\<rparr>"

definition initial_pm ::
  "'f \<Rightarrow> (nat \<Rightarrow> int) \<Rightarrow> pm_config \<Rightarrow> pm_load_config \<Rightarrow> int \<Rightarrow> 'f pm_state option" where
  "initial_pm nan mem cfg dl supply = do {
     k \<leftarrow> if dl_enabled dl then pm_constants_of dl else Some \<lparr>target_phase_current_ma = 0, phase_current_max_increase_ma = 0,
       preproc_mavg_limit = 0, preproc_interpolate_limit = 0, preproc_interpolate_interval_quantized = 0\<rparr>;
     let pv = excess_charging_enable cfg;
     Some \<lparr>pm_cfg = cfg, dynamic_load_enabled = dl_enabled dl, pm_const = k, supply_cable_max_current_ma = supply,
       have_battery = False, max_current_limited_ma = 0, charging_blocked = replicate 4 False, power_available_w = 0,
       current_long_min_iterations = 0, power_at_meter_raw_w = nan, power_at_battery_raw_w = nan, battery_soc_raw = nan,
       pv_floating_min_ma = INT32_MAX,
       pv_minmax_ma = if pv then minmax_init (power_values_count (cloud_filter_mode cfg)) MinMax mem new_minmax else new_minmax,
       pv_long_min_ma = if pv then minmax_init VALUES_COUNT_LONG_MIN MinOnly mem new_minmax else new_minmax,
       pm_phases = (\<lambda>_. initial_phase (dl_enabled dl) mem), cm_allocator_trigger_hysteresis = 0,
       pm_cm_limits = zero_limits, automation_drawing_power_last = None, config_error_flags = 0\<rparr> }"

definition EXCESS_NO_METER_BIT_POS :: nat where "EXCESS_NO_METER_BIT_POS = 3"
definition DLM_NO_METER_BIT_POS :: nat where "DLM_NO_METER_BIT_POS = 4"
definition NO_CHARGERS_BIT_POS :: nat where "NO_CHARGERS_BIT_POS = 2"
definition NO_MAX_CURRENT_BIT_POS :: nat where "NO_MAX_CURRENT_BIT_POS = 1"

definition set_config_error :: "nat \<Rightarrow> 'f pm_state \<Rightarrow> 'f pm_state" where
  "set_config_error b s = s\<lparr>config_error_flags := config_error_flags s OR 2 ^ b\<rparr>"

text \<open>The manager runs when a feature that needs it is configured.\<close>

definition pm_enabled :: "pm_config \<Rightarrow> pm_load_config \<Rightarrow> bool \<Rightarrow> bool" where
  "pm_enabled cfg dl automation_has_action \<longleftrightarrow> excess_charging_enable cfg \<or> dl_enabled dl \<or> automation_has_action"

text \<open>What the meters say about the configured slots when the manager is set up.\<close>

record pm_meters =
  power_slot :: MeterValueAvailability
  battery_slot :: MeterValueAvailability
  currents_slot :: MeterValueAvailability

definition setup_battery :: "'f float_ops \<Rightarrow> pm_meters \<Rightarrow> 'f pm_state \<Rightarrow> 'f pm_state" where
  "setup_battery fo mtr s =
    (let have = meter_slot_battery_power (pm_cfg s) < 255 \<and> battery_slot mtr \<noteq> MvUnavailable in
     s\<lparr>have_battery := have, power_at_battery_raw_w := if have then power_at_battery_raw_w s else f_of_int fo 0\<rparr>)"

text \<open>The result says whether the task was scheduled.\<close>

definition pm_setup ::
  "'f float_ops \<Rightarrow> 'f \<Rightarrow> (nat \<Rightarrow> int) \<Rightarrow> pm_config \<Rightarrow> pm_load_config \<Rightarrow> int \<Rightarrow> 'f pm_input \<Rightarrow> pm_meters
    \<Rightarrow> ('f pm_state \<times> bool) option" where
  "pm_setup fo nan mem cfg dl supply inp mtr = do {
     s \<leftarrow> initial_pm nan mem cfg dl supply;
     let s = setup_battery fo mtr (fst (update_data fo nan False inp s));
     let s = (if excess_charging_enable cfg \<and> power_slot mtr = MvUnavailable
              then set_config_error EXCESS_NO_METER_BIT_POS s else s);
     let s = (if dl_enabled dl \<and> currents_slot mtr = MvUnavailable then set_config_error DLM_NO_METER_BIT_POS s else s);
     Some (if supply = 0 then (set_config_error NO_MAX_CURRENT_BIT_POS s, False) else (reset_max_current_limit s, True)) }"

definition pm_check_chargers :: "bool \<Rightarrow> nat \<Rightarrow> 'f pm_state \<Rightarrow> 'f pm_state" where
  "pm_check_chargers cm_enabled n s =
    (if cm_enabled \<and> n = 0 then set_config_error NO_CHARGERS_BIT_POS s else s)"

subsection \<open>Actions of automation rules\<close>

text \<open>The manager that is not enabled has no runtime data; the first action does not check that.\<close>

definition limit_max_current_action :: "int \<Rightarrow> 'f pm_state option \<Rightarrow> 'f pm_state option option" where
  "limit_max_current_action current rt =
    (case rt of None \<Rightarrow> None
     | Some s \<Rightarrow> Some (Some (if current = - 1 then reset_max_current_limit s else set_max_current_limit current s)))"

definition block_charge_action :: "nat \<Rightarrow> bool \<Rightarrow> 'f pm_state option \<Rightarrow> 'f pm_state option option" where
  "block_charge_action slot block rt =
    Some (map_option (\<lambda>s. s\<lparr>charging_blocked := (charging_blocked s)[slot := block]\<rparr>) rt)"

definition on_config_applied :: "bool \<Rightarrow> bool \<Rightarrow> bool \<Rightarrow> 'f pm_state option \<Rightarrow> 'f pm_state option option" where
  "on_config_applied enabled has_limit_rule has_block_rule rt =
    (if \<not> enabled then Some rt
     else case rt of None \<Rightarrow> None
       | Some s \<Rightarrow>
         let s = (if has_limit_rule then s else reset_max_current_limit s) in
         Some (Some (if has_block_rule then s else s\<lparr>charging_blocked := replicate 4 False\<rparr>)))"

subsection \<open>Runs of the manager\<close>

text \<open>What happens after the setup: the task runs, and the automation calls the actions or applies a new configuration.\<close>

datatype 'f pm_event = TaskRun "'f pm_input" Cost | LimitMaxCurrent int | BlockCharge nat bool | ConfigApplied bool bool

fun pm_step :: "'f float_ops \<Rightarrow> 'f \<Rightarrow> 'f pm_event \<Rightarrow> 'f pm_state \<Rightarrow> 'f pm_state option" where
  "pm_step fo nan (TaskRun inp allocated) s = map_option fst (pm_task fo nan inp allocated s)"
| "pm_step fo nan (LimitMaxCurrent current) s = Option.bind (limit_max_current_action current (Some s)) id"
| "pm_step fo nan (BlockCharge slot block) s = Option.bind (block_charge_action slot block (Some s)) id"
| "pm_step fo nan (ConfigApplied has_limit has_block) s = Option.bind (on_config_applied True has_limit has_block (Some s)) id"

fun pm_run :: "'f float_ops \<Rightarrow> 'f \<Rightarrow> 'f pm_event list \<Rightarrow> 'f pm_state \<Rightarrow> 'f pm_state option" where
  "pm_run fo nan [] s = Some s"
| "pm_run fo nan (ev # evs) s = do { s \<leftarrow> pm_step fo nan ev s; pm_run fo nan evs s }"

end
