(* ===== verification/Power_Limits.thy ===== *)
theory Power_Limits
  imports Power_Manager
begin

section \<open>What the power manager guarantees about the limits\<close>

text \<open>
  An invariant of the power manager holds from its setup on, if the configuration passed its validators and the meters
  report plausible values: at most 500 kW and 5 kA. From it follow that no \<^verbatim>\<open>int32_t\<close> of the task
  overflows and nothing is divided by zero, and how the limits of a run relate to each other, to the configured
  maximum and to the smoothing filters.
\<close>

subsection \<open>Filters in any state\<close>

definition blank_filter :: "nat \<Rightarrow> FilterType \<Rightarrow> MinMaxFilter \<Rightarrow> bool" where
  "blank_filter n ty f \<longleftrightarrow> 0 < n \<and> f_type f = ty \<and> history_length f = n \<and> length (history_values f) = n
    \<and> ex_value (f_min f) = INT32_MAX"

definition filter_ok :: "nat \<Rightarrow> FilterType \<Rightarrow> int \<Rightarrow> MinMaxFilter \<Rightarrow> bool" where
  "filter_ok n ty B f \<longleftrightarrow> blank_filter n ty f \<or> (\<exists>xs. minmax_ok n ty xs f \<and> (\<forall>x \<in> set xs. \<bar>x\<bar> \<le> B))"

lemma minmax_init_blank: "0 < n \<Longrightarrow> blank_filter n ty (minmax_init n ty mem new_minmax)"
  by (simp add: blank_filter_def minmax_init_def new_minmax_def Let_def)

lemma filter_update:
  assumes "filter_ok n ty B f" "\<bar>v\<bar> \<le> B" "B < INT32_MAX"
  shows "\<exists>f'. minmax_update now v f = Some f' \<and> filter_ok n ty B f'
    \<and> (ty \<noteq> MaxOnly \<longrightarrow> ex_value (f_min f') \<le> v) \<and> (ty \<noteq> MinOnly \<longrightarrow> v \<le> ex_value (f_max f') \<and> \<bar>ex_value (f_max f')\<bar> \<le> B)"
proof -
  have v: "v \<noteq> INT32_MAX" using assms(2,3) by auto
  obtain xs f' where f': "minmax_update now v f = Some f'" "minmax_ok n ty (xs @ [v]) f'" "\<forall>x \<in> set (xs @ [v]). \<bar>x\<bar> \<le> B"
  proof (cases "blank_filter n ty f")
    case True
    then show ?thesis using minmax_first[of f v now] v assms(2) that[of _ "[]"] by (auto simp: blank_filter_def)
  next
    case False
    then obtain xs where xs: "minmax_ok n ty xs f" "\<forall>x \<in> set (xs @ [v]). \<bar>x\<bar> \<le> B"
      using assms(1,2) by (auto simp: filter_ok_def)
    then have "\<forall>x \<in> set (xs @ [v]). in_i32 x" using assms(3) unfolding in_i32_def by fastforce
    then show ?thesis using minmax_next[OF xs(1) _ v, of now] xs(2) that by blast
  qed
  have "0 < n" using f'(2) by (simp add: minmax_ok_def)
  then have w: "v \<in> set (window n (xs @ [v]))" by (auto simp: set_window intro!: exI[of _ "length xs"])
  have "ex_value (f_max f') \<in> set (xs @ [v])" if "ty \<noteq> MinOnly"
    using f'(2) that hi.tracks_best(1)[of n "xs @ [v]" "f_max f'"] set_window_subset[of n "xs @ [v]"]
    by (auto simp: minmax_ok_def)
  moreover have "ex_value (f_min f') \<le> v" if "ty \<noteq> MaxOnly"
    using f'(2) that lo.tracks_best(2)[OF _ w] by (simp add: minmax_ok_def)
  moreover have "v \<le> ex_value (f_max f')" if "ty \<noteq> MinOnly"
    using f'(2) that hi.tracks_best(2)[OF _ w] by (simp add: minmax_ok_def)
  moreover have "filter_ok n ty B f'" using f'(2,3) unfolding filter_ok_def by blast
  ultimately show ?thesis using f'(1,3) by blast
qed

definition mavg_any :: "nat \<Rightarrow> int \<Rightarrow> MavgFilter \<Rightarrow> bool" where
  "mavg_any n B f \<longleftrightarrow> mavg_fresh n f \<or> (\<exists>xs. mavg_ok n B xs f)"

lemma mavg_any_update:
  assumes "mavg_any n B f" "\<bar>v\<bar> \<le> B" "B * int n + B < INT32_MAX"
  shows "\<exists>r f'. mavg_update v f = Some (r, f') \<and> mavg_any n B f' \<and> \<bar>r\<bar> \<le> B"
proof (cases "mavg_fresh n f")
  case True
  have "0 \<le> B" using assms(2) by simp
  then have "B * int n \<le> INT32_MAX" using assms(3) by simp
  from mavg_first[OF True assms(2) this] assms(2) show ?thesis unfolding mavg_any_def by blast
next
  case False
  then obtain xs where xs: "mavg_ok n B xs f" using assms(1) unfolding mavg_any_def by blast
  have "0 \<le> B" "0 < n" using assms(2) xs by (simp_all add: mavg_ok_def)
  then have "B < INT32_MAX" using assms(3) mult_nonneg_nonneg[of B "int n"] by linarith
  from mavg_next[OF xs assms(2) _ this] assms(3)
  obtain f' where f': "mavg_update v f = Some (sum_list (window n (xs @ [v])) sdiv int n, f')" "mavg_ok n B (xs @ [v]) f'" by auto
  have "\<bar>sum_list (window n (xs @ [v]))\<bar> \<le> B * int n"
    using f'(2) by (intro sum_window) (auto simp: mavg_ok_def)
  then have "\<bar>sum_list (window n (xs @ [v])) sdiv int n\<bar> \<le> B" using \<open>0 < n\<close> by (intro abs_sdiv_bound) auto
  with f' show ?thesis unfolding mavg_any_def by blast
qed

text \<open>The floating minimum of the current minute is empty only before the long filter has got a value.\<close>

definition long_ok :: "int \<Rightarrow> int \<Rightarrow> MinMaxFilter \<Rightarrow> bool" where
  "long_ok B floating f \<longleftrightarrow> floating = INT32_MAX \<and> blank_filter VALUES_COUNT_LONG_MIN MinOnly f
    \<or> \<bar>floating\<bar> \<le> B \<and> filter_ok VALUES_COUNT_LONG_MIN MinOnly B f"

lemma blank_first:
  assumes "blank_filter n MinOnly f"
  shows "\<exists>f'. minmax_update now INT32_MAX f = Some f' \<and> blank_filter n MinOnly f'"
  using assms by (auto simp: minmax_update_def blank_filter_def Let_def)

lemma update_long_min_ok:
  assumes l: "long_ok B floating f" and v: "\<bar>v\<bar> \<le> B" and B: "B < INT32_MAX"
  shows "\<exists>fl f'. update_long_min now it v floating f = Some (fl, f') \<and> long_ok B fl f' \<and> fl \<le> v"
proof (cases "floating = INT32_MAX")
  case True
  then have b: "blank_filter VALUES_COUNT_LONG_MIN MinOnly f" using l B by (auto simp: long_ok_def)
  then obtain f' where "minmax_update now INT32_MAX f = Some f'" "blank_filter VALUES_COUNT_LONG_MIN MinOnly f'"
    using blank_first by blast
  then show ?thesis using True b v B by (auto simp: update_long_min_def long_ok_def filter_ok_def)
next
  case False
  then have fl: "\<bar>floating\<bar> \<le> B" and f: "filter_ok VALUES_COUNT_LONG_MIN MinOnly B f" using l by (auto simp: long_ok_def)
  from filter_update[OF f fl B, of now] show ?thesis
    using v fl f by (auto simp: update_long_min_def long_ok_def)
qed

subsection \<open>Arithmetic of the controllers\<close>

definition constants_ok :: "pm_constants \<Rightarrow> bool" where
  "constants_ok k \<longleftrightarrow> 0 \<le> target_phase_current_ma k \<and> target_phase_current_ma k \<le> 524287
    \<and> 0 \<le> phase_current_max_increase_ma k
    \<and> \<bar>preproc_mavg_limit k\<bar> \<le> 1000000 \<and> \<bar>preproc_interpolate_limit k\<bar> \<le> 1000000
    \<and> preproc_interpolate_interval_quantized k = (preproc_interpolate_limit k - preproc_mavg_limit k) sdiv PREPROC_QUANTIZATION
    \<and> 0 < preproc_interpolate_interval_quantized k \<and> preproc_interpolate_interval_quantized k \<le> 410"

text \<open>The validators and the range of the safety margin keep the quantized interval away from zero.\<close>

lemma pm_constants_ok:
  assumes "dl_enabled cfg" "pm_load_config_invalid cfg = None" "safety_margin_pct cfg \<le> 50"
  shows "\<exists>k. pm_constants_of cfg = Some k \<and> constants_ok k"
proof -
  define lim where "lim = int (current_limit cfg)"
  define big where "big = int (largest_consumer_current cfg)"
  define m where "m = int (safety_margin_pct cfg)"
  have b: "16000 \<le> lim" "lim \<le> 524287" "0 \<le> big" "big \<le> lim" "0 \<le> m" "m \<le> 50"
    using assms by (auto simp: pm_load_config_invalid_def lim_def big_def m_def split: if_splits)
  define mp where "mp = min (lim * 7 div 5 - big) lim"
  have mp: "6400 \<le> mp" "mp \<le> 524287" using b by (auto simp: mp_def)
  define t where "t = mp * (100 - m) div 100"
  have "6400 * 50 \<le> mp * (100 - m)" using mp b by (intro mult_mono) auto
  moreover have mh: "mp * (100 - m) \<le> 524287 * 100" using mp b by (intro mult_mono) auto
  ultimately have t: "3200 \<le> t" "t \<le> 524287" by (auto simp: t_def)
  define q where "q = (t * 6 div 5 - t * 11 div 10) div 128"
  have q: "0 < q" "q \<le> 410" "0 \<le> t * 6 div 5 - t * 11 div 10" "t * 11 div 10 \<le> 1000000"
    "t * 6 div 5 \<le> 1000000" using t by (auto simp: q_def)
  have nn: "0 \<le> mp * (100 - m)" using mp b by simp
  show ?thesis
    using b mp t q mh nn unfolding pm_constants_of_def constants_ok_def PREPROC_QUANTIZATION_def
    by (simp add: i32_Some div32_Some sdiv_pos flip: lim_def big_def m_def mp_def t_def q_def)
qed

lemma power_adjust_ok:
  assumes "\<bar>e\<bar> \<le> 100000000"
  shows "\<exists>a. power_adjust_w e = Some a \<and> \<bar>a\<bar> \<le> \<bar>e\<bar>"
proof -
  have "\<bar>e sdiv 2\<bar> \<le> \<bar>e\<bar>" "\<bar>(e * 3) sdiv 4\<bar> \<le> \<bar>e\<bar>" "\<bar>(e * 7) sdiv 8\<bar> \<le> \<bar>e\<bar>" by (auto simp: abs_sdiv abs_mult)
  then show ?thesis using assms by (simp add: power_adjust_w_def i32_Some div32_Some abs_mult)
qed

lemma power_adjust_cond: "\<bar>e\<bar> \<le> 1500000 \<Longrightarrow> \<exists>a. (if w \<le> (0 :: int) then Some e else power_adjust_w e) = Some a \<and> \<bar>a\<bar> \<le> 1500000"
  using power_adjust_ok[of e] by (cases "w \<le> 0") auto

lemma without_deadzone_le: "0 \<le> dz \<Longrightarrow> \<bar>without_deadzone dz g\<bar> \<le> \<bar>g\<bar>"
  by (auto simp: without_deadzone_def)

lemma battery_share_le: "\<bar>battery_share_w fo s\<bar> \<le> \<bar>f_trunc fo (power_at_battery_raw_w s)\<bar>"
  by (auto simp: battery_share_w_def Let_def split: BatteryPriority.split)

lemma interpolate_ok:
  assumes k: "constants_ok k" and meter: "preproc_mavg_limit k \<le> meter" "meter \<le> preproc_interpolate_limit k"
    and b: "\<bar>mm\<bar> \<le> 5000000" "\<bar>mavg\<bar> \<le> 5000000"
  shows "\<exists>p. interpolate_ma k meter mm mavg = Some p \<and> \<bar>p\<bar> \<le> 10000000"
proof -
  let ?I = "preproc_interpolate_interval_quantized k"
  let ?x = "(meter - preproc_mavg_limit k) sdiv PREPROC_QUANTIZATION"
  have I: "0 < ?I" "?I \<le> 410" using k by (simp_all add: constants_ok_def)
  have d: "0 \<le> meter - preproc_mavg_limit k" "meter - preproc_mavg_limit k \<le> 2000000" using k meter by (auto simp: constants_ok_def)
  have x: "0 \<le> ?x" "?x \<le> ?I"
    using k meter d by (auto simp: constants_ok_def PREPROC_QUANTIZATION_def sdiv_pos intro: zdiv_mono1)
  have le: "\<bar>a * j\<bar> \<le> 5000000 * ?I" if "\<bar>a\<bar> \<le> 5000000" "0 \<le> j" "j \<le> ?I" for a j
    using that by (auto simp: abs_mult intro!: mult_mono)
  have part: "\<bar>(a * j) sdiv ?I\<bar> \<le> 5000000" if "\<bar>a\<bar> \<le> 5000000" "0 \<le> j" "j \<le> ?I" for a j
    using le[OF that] I by (intro abs_sdiv_bound) auto
  have 1: "i32 (meter - preproc_mavg_limit k) = Some (meter - preproc_mavg_limit k)" using d by (simp add: i32_Some)
  have 2: "div32 (meter - preproc_mavg_limit k) PREPROC_QUANTIZATION = Some ?x"
    using d by (simp add: div32_Some PREPROC_QUANTIZATION_def)
  have 3: "i32 (?I - ?x) = Some (?I - ?x)" using x I by (simp add: i32_Some)
  have j: "0 \<le> ?I - ?x" "?I - ?x \<le> ?I" using x by auto
  have s: "\<bar>mm * ?x\<bar> \<le> INT32_MAX" "\<bar>mavg * (?I - ?x)\<bar> \<le> INT32_MAX" using le[OF b(1) x] le[OF b(2) j] I by linarith+
  have "\<bar>(mavg * (?I - ?x)) sdiv ?I + (mm * ?x) sdiv ?I\<bar> \<le> 10000000" using part[OF b(1) x] part[OF b(2) j] by linarith
  then show ?thesis using I s by (simp add: interpolate_ma_def 1 2 3 i32_Some div32_Some Let_def)
qed

lemma phase_limit_ok:
  assumes "constants_ok k" "\<bar>allocated\<bar> \<le> 2000000" "\<bar>preproc\<bar> \<le> 10000000" "0 \<le> max_current"
  shows "\<exists>raw. phase_limit_ma k max_current allocated preproc = Some raw \<and> raw \<le> max_current \<and> \<bar>raw\<bar> \<le> 20000000"
proof -
  let ?e = "target_phase_current_ma k - preproc"
  have e: "\<bar>?e\<bar> \<le> 11000000" using assms(1,3) by (auto simp: constants_ok_def)
  have "\<bar>?e sdiv 16\<bar> \<le> \<bar>?e\<bar>" and h: "\<bar>?e sdiv 2\<bar> \<le> \<bar>?e\<bar>" by (rule abs_sdiv_le)+
  moreover have "?e sdiv 16 \<le> 0" if "?e < 0" using that by (auto simp: signed_divide_int_def sgn_if)
  ultimately have le: "\<bar>?e - ?e sdiv 16\<bar> \<le> 11000000" if "?e < 0" using that e by linarith
  have half: "\<bar>min (?e sdiv 2) (phase_current_max_increase_ma k)\<bar> \<le> 11000000" if "\<not> ?e < 0"
    using that e assms(1) h sdiv_pos[of 2 ?e] by (auto simp: constants_ok_def min_def)
  obtain a where a: "current_adjust_ma k allocated ?e = Some a" "\<bar>a\<bar> \<le> 11000000"
    using e le half by (cases "allocated \<le> 0"; cases "?e < 0") (auto simp: current_adjust_ma_def i32_Some)
  then have "\<bar>max 0 allocated + a\<bar> \<le> 13000000" using assms(2) by auto
  then show ?thesis using e a assms(4) by (auto simp: phase_limit_ma_def i32_Some min_def)
qed

text \<open>Above the target the limit of a phase is below what is allocated on it.\<close>

lemma phase_limit_reduces:
  assumes "phase_limit_ma k max_current allocated preproc = Some raw" "0 < allocated" "target_phase_current_ma k < preproc"
  shows "raw \<le> allocated - (preproc - target_phase_current_ma k) + (preproc - target_phase_current_ma k) div 16"
proof -
  let ?e = "target_phase_current_ma k - preproc"
  have "?e sdiv 16 = - ((preproc - target_phase_current_ma k) div 16)"
    using assms(3) by (simp add: signed_divide_int_def sgn_if)
  then show ?thesis using assms
    by (auto simp: phase_limit_ma_def current_adjust_ma_def i32_def split: if_splits bind_splits)
qed

subsection \<open>The invariant\<close>

definition power_ok :: "'f float_ops \<Rightarrow> 'f \<Rightarrow> bool" where
  "power_ok fo p \<longleftrightarrow> f_isnan fo p \<or> \<bar>f_trunc fo p\<bar> \<le> 500000"

definition phase_ok :: "pm_phase \<Rightarrow> bool" where
  "phase_ok ph \<longleftrightarrow> (current_at_meter_raw_ma ph = INT32_MAX \<or> \<bar>current_at_meter_raw_ma ph\<bar> \<le> 5000000)
    \<and> filter_ok PREPROC_FILTER_LENGTH MaxOnly 5000000 (preproc_max_ma ph)
    \<and> mavg_any PREPROC_FILTER_LENGTH 5000000 (preproc_mavg_ma ph)
    \<and> filter_ok MIN_FILTER_LENGTH MinOnly 20000000 (phase_min_ma ph)
    \<and> long_ok 20000000 (phase_floating_min_ma ph) (phase_long_min_ma ph)"

definition pv_ok :: "'f pm_state \<Rightarrow> bool" where
  "pv_ok s \<longleftrightarrow> filter_ok (power_values_count (cloud_filter_mode (pm_cfg s))) MinMax 10000000 (pv_minmax_ma s)
    \<and> long_ok 10000000 (pv_floating_min_ma s) (pv_long_min_ma s)"

definition pm_ok :: "'f float_ops \<Rightarrow> 'f pm_state \<Rightarrow> bool" where
  "pm_ok fo s \<longleftrightarrow> 0 \<le> max_current_limited_ma s \<and> max_current_limited_ma s \<le> supply_cable_max_current_ma s
    \<and> supply_cable_max_current_ma s \<le> INT32_MAX
    \<and> \<bar>target_power_from_grid (pm_cfg s)\<bar> \<le> 500000 \<and> power_ok fo (power_at_meter_raw_w s)
    \<and> (have_battery s \<longrightarrow> power_ok fo (power_at_battery_raw_w s))
    \<and> (excess_charging_enable (pm_cfg s) \<longrightarrow> pv_ok s)
    \<and> (dynamic_load_enabled s \<longrightarrow> constants_ok (pm_const s) \<and> (\<forall>g. phase_ok (pm_phases s g)))"

definition plausible_alloc :: "Cost \<Rightarrow> bool" where
  "plausible_alloc c \<longleftrightarrow> (\<forall>g \<in> {GridPV, L1, L2, L3}. \<bar>at_phase c g\<bar> \<le> 2000000)"

lemma plausible_phase: "plausible_alloc c \<Longrightarrow> \<bar>at_phase c g\<bar> \<le> 2000000"
  by (cases g) (auto simp: plausible_alloc_def)

definition plausible_input :: "'f float_ops \<Rightarrow> 'f pm_input \<Rightarrow> bool" where
  "plausible_input fo inp \<longleftrightarrow> power_ok fo (snd (grid_power inp)) \<and> power_ok fo (snd (battery_power inp))
    \<and> power_ok fo (f_mul fo (snd (battery_power inp)) (f_of_int fo (- 1)))
    \<and> (\<forall>g. f_isnan fo (snd (grid_currents inp) g)
          \<or> \<bar>f_trunc fo (f_mul fo (snd (grid_currents inp) g) (f_of_int fo 1000))\<bar> \<le> 5000000)"

text \<open>What does not change while the limits are computed.\<close>

definition same_setup :: "'f pm_state \<Rightarrow> 'f pm_state \<Rightarrow> bool" where
  "same_setup s s' \<longleftrightarrow> pm_cfg s' = pm_cfg s \<and> dynamic_load_enabled s' = dynamic_load_enabled s
    \<and> max_current_limited_ma s' = max_current_limited_ma s \<and> supply_cable_max_current_ma s' = supply_cable_max_current_ma s
    \<and> charging_blocked s' = charging_blocked s
    \<and> (\<forall>g. current_at_meter_raw_ma (pm_phases s' g) = current_at_meter_raw_ma (pm_phases s g))"

lemma same_setup_refl: "same_setup s s"
  by (simp add: same_setup_def)

lemma same_setup_trans: "same_setup s s' \<Longrightarrow> same_setup s' s'' \<Longrightarrow> same_setup s s''"
  by (simp add: same_setup_def)

text \<open>The limits of a phase, as a run leaves them.\<close>

definition limits_at :: "CurrentLimits \<Rightarrow> GridPhase \<Rightarrow> int \<times> int \<times> int" where
  "limits_at l g = (at_phase (lim_raw l) g, at_phase (lim_min l) g, at_phase (lim_spread l) g)"

definition phase_limited :: "'f pm_state \<Rightarrow> GridPhase \<Rightarrow> bool" where
  "phase_limited s g \<longleftrightarrow> (case limits_at (pm_cm_limits s) g of (raw, mn, spread) \<Rightarrow>
      raw \<le> max_current_limited_ma s \<and> mn \<le> raw \<and> spread \<le> raw
      \<and> (dynamic_load_enabled s \<and> current_at_meter_raw_ma (pm_phases s g) = INT32_MAX \<longrightarrow> raw = 0 \<and> mn = 0 \<and> spread = 0)
      \<and> (\<not> dynamic_load_enabled s \<longrightarrow> raw = max_current_limited_ma s \<and> mn = raw \<and> spread = raw))"

lemma at_phase_of_set: "at_phase (set_phase g n c) h = (if h = g then n else at_phase c h)"
  by (cases g; cases h) auto

lemma limits_at_set: "limits_at (set_limits g raw mn spread e l) h = (if h = g then (raw, mn, spread) else limits_at l h)"
  by (simp add: limits_at_def set_limits_def at_phase_of_set)

lemma phase_limited_frame:
  "same_setup s s' \<Longrightarrow> limits_at (pm_cm_limits s') g = limits_at (pm_cm_limits s) g \<Longrightarrow> phase_limited s' g = phase_limited s g"
  by (simp add: phase_limited_def same_setup_def)

subsection \<open>A phase\<close>

lemma filter_lengths: "int PREPROC_FILTER_LENGTH = 20" "int MIN_FILTER_LENGTH = 480" "0 < VALUES_COUNT_LONG_MIN"
  by (simp_all add: PREPROC_FILTER_LENGTH_def MIN_FILTER_LENGTH_def PM_TASK_DELAY_MS_def VALUES_COUNT_LONG_MIN_def)

lemma preprocess_ok:
  assumes k: "constants_ok k" and ph: "phase_ok ph" and m: "current_at_meter_raw_ma ph \<noteq> INT32_MAX"
  shows "\<exists>p pm pv. preprocess_current now k ph = Some (p, ph\<lparr>preproc_max_ma := pm, preproc_mavg_ma := pv\<rparr>)
    \<and> \<bar>p\<bar> \<le> 10000000 \<and> phase_ok (ph\<lparr>preproc_max_ma := pm, preproc_mavg_ma := pv\<rparr>)"
proof -
  let ?m = "current_at_meter_raw_ma ph"
  have mb: "\<bar>?m\<bar> \<le> 5000000" using ph m by (auto simp: phase_ok_def)
  obtain pm where pm: "minmax_update now ?m (preproc_max_ma ph) = Some pm"
      "filter_ok PREPROC_FILTER_LENGTH MaxOnly 5000000 pm" "\<bar>ex_value (f_max pm)\<bar> \<le> 5000000"
    using filter_update[of PREPROC_FILTER_LENGTH MaxOnly 5000000 "preproc_max_ma ph" ?m now] ph mb by (auto simp: phase_ok_def)
  obtain r pv where pv: "mavg_update ?m (preproc_mavg_ma ph) = Some (r, pv)" "mavg_any PREPROC_FILTER_LENGTH 5000000 pv"
      "\<bar>r\<bar> \<le> 5000000"
    using mavg_any_update[of PREPROC_FILTER_LENGTH 5000000 "preproc_mavg_ma ph" ?m] ph mb
    by (auto simp: phase_ok_def filter_lengths)
  let ?x = "ex_value (f_max pm) + r"
  have x: "\<bar>?x\<bar> \<le> 10000000" using pm(3) pv(3) by linarith
  then have mm: "\<bar>?x sdiv 2\<bar> \<le> 5000000" by (simp add: abs_sdiv)
  have "\<exists>p. (if ?m < preproc_mavg_limit k then Some r else if preproc_interpolate_limit k < ?m then Some (?x sdiv 2)
      else interpolate_ma k ?m (?x sdiv 2) r) = Some p \<and> \<bar>p\<bar> \<le> 10000000" (is "\<exists>p. ?v = Some p \<and> _")
    using interpolate_ok[OF k _ _ mm pv(3), of ?m] mm pv(3) by auto
  then obtain p where p: "?v = Some p" "\<bar>p\<bar> \<le> 10000000" by blast
  have "phase_ok (ph\<lparr>preproc_max_ma := pm, preproc_mavg_ma := pv\<rparr>)" using ph pm(2) pv(2) by (simp add: phase_ok_def)
  moreover have "preprocess_current now k ph = Some (p, ph\<lparr>preproc_max_ma := pm, preproc_mavg_ma := pv\<rparr>)"
    using x p(1) by (simp add: preprocess_current_def pm(1) pv(1) i32_Some div32_Some Let_def)
  ultimately show ?thesis using p(2) by blast
qed

lemma trigger_on_overload_frame:
  "trigger_on_overload inp meter s = (s', t) \<Longrightarrow> \<exists>h. s' = s\<lparr>cm_allocator_trigger_hysteresis := h\<rparr>"
  by (auto simp: trigger_on_overload_def split: if_splits intro: exI[of _ "cm_allocator_trigger_hysteresis s"])

lemma update_phase_ok:
  assumes ok: "pm_ok fo s" and al: "plausible_alloc allocated"
  shows "\<exists>s' t. update_phase_limits inp allocated g s = Some (s', t) \<and> pm_ok fo s' \<and> same_setup s s' \<and> phase_limited s' g
    \<and> (\<forall>h. h \<noteq> g \<longrightarrow> limits_at (pm_cm_limits s') h = limits_at (pm_cm_limits s) h)"
proof -
  let ?ph = "pm_phases s g" and ?now = "pi_now inp" and ?it = "current_long_min_iterations s"
  have lim: "0 \<le> max_current_limited_ma s" using ok by (simp add: pm_ok_def)
  consider "\<not> dynamic_load_enabled s" | "dynamic_load_enabled s" "current_at_meter_raw_ma ?ph = INT32_MAX"
    | "dynamic_load_enabled s" "current_at_meter_raw_ma ?ph \<noteq> INT32_MAX" by blast
  then show ?thesis
  proof cases
    case 3
    then have k: "constants_ok (pm_const s)" and ph: "phase_ok ?ph" and phs: "\<forall>h. phase_ok (pm_phases s h)"
      using ok by (auto simp: pm_ok_def)
    obtain p pm pv where pre: "preprocess_current ?now (pm_const s) ?ph = Some (p, ?ph\<lparr>preproc_max_ma := pm, preproc_mavg_ma := pv\<rparr>)"
        "\<bar>p\<bar> \<le> 10000000" "phase_ok (?ph\<lparr>preproc_max_ma := pm, preproc_mavg_ma := pv\<rparr>)"
      using preprocess_ok[OF k ph 3(2)] by blast
    obtain s1 t where tr: "trigger_on_overload inp (current_at_meter_raw_ma ?ph) s = (s1, t)" by fastforce
    then obtain hy where s1: "s1 = s\<lparr>cm_allocator_trigger_hysteresis := hy\<rparr>" using trigger_on_overload_frame by blast
    obtain raw where raw: "phase_limit_ma (pm_const s) (max_current_limited_ma s) (at_phase allocated g) p = Some raw"
        "raw \<le> max_current_limited_ma s" "\<bar>raw\<bar> \<le> 20000000"
      using phase_limit_ok[OF k plausible_phase[OF al] pre(2) lim] by blast
    obtain mf where mf: "minmax_update ?now raw (phase_min_ma ?ph) = Some mf" "filter_ok MIN_FILTER_LENGTH MinOnly 20000000 mf"
        "ex_value (f_min mf) \<le> raw"
      using filter_update[of MIN_FILTER_LENGTH MinOnly 20000000 "phase_min_ma ?ph" raw ?now] ph raw(3) by (auto simp: phase_ok_def)
    obtain fl lf where lf: "update_long_min ?now ?it raw (phase_floating_min_ma ?ph) (phase_long_min_ma ?ph) = Some (fl, lf)"
        "long_ok 20000000 fl lf" "fl \<le> raw"
      using update_long_min_ok[of 20000000 "phase_floating_min_ma ?ph" "phase_long_min_ma ?ph" raw ?now ?it] ph raw(3)
      by (auto simp: phase_ok_def)
    let ?ph' = "?ph\<lparr>preproc_max_ma := pm, preproc_mavg_ma := pv, phase_min_ma := mf, phase_floating_min_ma := fl, phase_long_min_ma := lf\<rparr>"
    let ?s' = "s1\<lparr>pm_phases := (pm_phases s1)(g := ?ph'),
        pm_cm_limits := set_limits g raw (ex_value (f_min mf)) (min fl (ex_value (f_min lf))) (ex_expiration (f_min mf)) (pm_cm_limits s1)\<rparr>"
    have eq: "update_phase_limits inp allocated g s = Some (?s', t)"
      using 3 by (simp add: update_phase_limits_def pre(1) tr raw(1) mf(1) lf(1) s1 Let_def)
    have ph': "phase_ok ?ph'" using pre(3) mf(2) lf(2) by (simp add: phase_ok_def)
    have "pm_ok fo ?s'" using ok ph' phs k by (simp add: pm_ok_def pv_ok_def s1)
    moreover have "same_setup s ?s'" by (simp add: same_setup_def s1)
    moreover have "phase_limited ?s' g" using 3 raw(2) mf(3) lf(3) by (simp add: phase_limited_def limits_at_set s1)
    ultimately show ?thesis using eq by (auto simp: limits_at_set s1)
  qed (use ok lim in \<open>auto simp: update_phase_limits_def Let_def pm_ok_def pv_ok_def same_setup_def phase_limited_def limits_at_set\<close>)
qed

lemma update_phases_ok:
  assumes "pm_ok fo s" "plausible_alloc allocated" "distinct gs"
  shows "\<exists>s' t. update_phases inp allocated gs s = Some (s', t) \<and> pm_ok fo s' \<and> same_setup s s' \<and> (\<forall>g \<in> set gs. phase_limited s' g)
    \<and> (\<forall>h. h \<notin> set gs \<longrightarrow> limits_at (pm_cm_limits s') h = limits_at (pm_cm_limits s) h)"
  using assms
proof (induction gs arbitrary: s)
  case Nil
  then show ?case by (auto simp: same_setup_refl intro: exI[of _ False])
next
  case (Cons g gs)
  obtain s1 t1 where s1: "update_phase_limits inp allocated g s = Some (s1, t1)" "pm_ok fo s1" "same_setup s s1" "phase_limited s1 g"
      "\<forall>h. h \<noteq> g \<longrightarrow> limits_at (pm_cm_limits s1) h = limits_at (pm_cm_limits s) h"
    using update_phase_ok[OF Cons.prems(1,2)] by blast
  obtain s2 t2 where s2: "update_phases inp allocated gs s1 = Some (s2, t2)" "pm_ok fo s2" "same_setup s1 s2"
      "\<forall>g \<in> set gs. phase_limited s2 g" "\<forall>h. h \<notin> set gs \<longrightarrow> limits_at (pm_cm_limits s2) h = limits_at (pm_cm_limits s1) h"
    using Cons.IH[OF s1(2) Cons.prems(2)] Cons.prems(3) by auto
  have "phase_limited s2 g" using s1(4) s2(3,5) phase_limited_frame Cons.prems(3) by fastforce
  then show ?case using s1 s2 same_setup_trans[OF s1(3) s2(3)] by auto
qed

subsection \<open>The PV limits\<close>

lemma update_power_available_ok:
  assumes ok: "pm_ok fo s" and al: "plausible_alloc allocated"
  shows "\<exists>p. update_power_available fo allocated s = Some (s\<lparr>power_available_w := p\<rparr>)
    \<and> (p = INT32_MAX \<or> excess_charging_enable (pm_cfg s) \<and> \<bar>p\<bar> \<le> 2000000)"
proof (cases "\<not> excess_charging_enable (pm_cfg s) \<or> power_values_missing fo s")
  case False
  let ?grid = "f_trunc fo (power_at_meter_raw_w s)" and ?dz = "int (battery_deadzone (pm_cfg s))"
  let ?c = "if have_battery s then without_deadzone ?dz ?grid - battery_share_w fo s else ?grid"
  have grid: "\<bar>?grid\<bar> \<le> 500000" using ok False by (auto simp: pm_ok_def power_ok_def power_values_missing_def)
  have bat: "\<bar>battery_share_w fo s\<bar> \<le> 500000" if "have_battery s"
    using ok False that battery_share_le[of fo s] by (fastforce simp: pm_ok_def power_ok_def power_values_missing_def)
  have c: "\<bar>?c\<bar> \<le> 1000000" using grid bat without_deadzone_le[of ?dz ?grid] by (auto split: if_splits)
  let ?e = "target_power_from_grid (pm_cfg s) - ?c"
  have e: "\<bar>?e\<bar> \<le> 1500000" using ok c by (auto simp: pm_ok_def split: if_splits)
  have err: "power_error_w fo s = Some ?e"
    using c e by (auto simp: power_error_w_def i32_Some Let_def split: if_splits)
  have pv: "\<bar>pv allocated\<bar> \<le> 2000000" using plausible_phase[OF al, of GridPV] by simp
  let ?w = "(pv allocated * 230) sdiv 1000"
  have w: "\<bar>?w\<bar> \<le> 460000" using pv by (intro abs_sdiv_bound) (auto simp: abs_mult)
  obtain a where a: "(if ?w \<le> 0 then Some ?e else power_adjust_w ?e) = Some a" "\<bar>a\<bar> \<le> 1500000"
    using power_adjust_cond[OF e] by blast
  have "\<bar>max 0 ?w + a\<bar> \<le> 2000000" using w a(2) by auto
  then show ?thesis using False pv a
    by (intro exI[of _ "max 0 ?w + a"]) (simp add: update_power_available_def err i32_Some div32_Some abs_mult)
qed (auto simp: update_power_available_def)

definition pv_limited :: "'f pm_state \<Rightarrow> bool" where
  "pv_limited s \<longleftrightarrow> (case limits_at (pm_cm_limits s) GridPV of (raw, mn, spread) \<Rightarrow>
     mn \<le> raw \<and> spread \<le> raw \<and> raw \<le> lim_max_pv (pm_cm_limits s)
     \<and> (power_available_w s = INT32_MAX \<longrightarrow> raw = 0 \<and> mn = 0 \<and> spread = 0 \<and> lim_max_pv (pm_cm_limits s) = 0))"

lemma update_pv_ok:
  assumes ok: "pm_ok fo s"
    and p: "power_available_w s = INT32_MAX \<or> excess_charging_enable (pm_cfg s) \<and> \<bar>power_available_w s\<bar> \<le> 2000000"
  shows "\<exists>s'. update_pv_limits now s = Some s' \<and> pm_ok fo s' \<and> same_setup s s' \<and> pv_limited s'
    \<and> power_available_w s' = power_available_w s"
proof (cases "power_available_w s = INT32_MAX")
  case True
  then show ?thesis using ok
    by (auto simp: update_pv_limits_def pm_ok_def pv_ok_def same_setup_def pv_limited_def limits_at_def set_limits_def)
next
  case False
  then have pv: "pv_ok s" and b: "\<bar>power_available_w s\<bar> \<le> 2000000" using ok p by (auto simp: pm_ok_def)
  let ?raw = "(power_available_w s * 1000) sdiv 230"
  have r: "\<bar>?raw\<bar> \<le> 10000000" using b by (intro abs_sdiv_bound) (auto simp: abs_mult)
  obtain mf where mf: "minmax_update now ?raw (pv_minmax_ma s) = Some mf"
      "filter_ok (power_values_count (cloud_filter_mode (pm_cfg s))) MinMax 10000000 mf"
      "ex_value (f_min mf) \<le> ?raw" "?raw \<le> ex_value (f_max mf)"
    using filter_update[of _ MinMax 10000000 "pv_minmax_ma s" ?raw now] pv r by (auto simp: pv_ok_def)
  obtain fl lf where lf: "update_long_min now (current_long_min_iterations s) ?raw (pv_floating_min_ma s) (pv_long_min_ma s) = Some (fl, lf)"
      "long_ok 10000000 fl lf" "fl \<le> ?raw"
    using update_long_min_ok[of 10000000 "pv_floating_min_ma s" "pv_long_min_ma s" ?raw now "current_long_min_iterations s"] pv r
    by (auto simp: pv_ok_def)
  have "min fl (ex_value (f_min lf)) \<le> ?raw" using lf(3) by simp
  then show ?thesis using False ok b mf lf
    by (simp add: update_pv_limits_def i32_Some div32_Some abs_mult pm_ok_def pv_ok_def same_setup_def pv_limited_def
        limits_at_set) (simp add: set_limits_def limits_at_def at_phase_of_set)
qed

lemma pv_limited_frame:
  "pv_limited s \<Longrightarrow> limits_at (pm_cm_limits s') GridPV = limits_at (pm_cm_limits s) GridPV
    \<Longrightarrow> lim_max_pv (pm_cm_limits s') = lim_max_pv (pm_cm_limits s) \<Longrightarrow> power_available_w s' = power_available_w s \<Longrightarrow> pv_limited s'"
  by (simp add: pv_limited_def)

lemma update_phases_pv:
  "update_phases inp allocated gs s = Some (s', t) \<Longrightarrow> lim_max_pv (pm_cm_limits s') = lim_max_pv (pm_cm_limits s)
    \<and> power_available_w s' = power_available_w s"
proof (induction gs arbitrary: s s' t)
  case (Cons g gs)
  obtain s1 t1 where s1: "update_phase_limits inp allocated g s = Some (s1, t1)"
    using Cons.prems by (cases "update_phase_limits inp allocated g s") auto
  obtain t2 where s2: "update_phases inp allocated gs s1 = Some (s', t2)"
    using Cons.prems s1 by (cases "update_phases inp allocated gs s1") auto
  have "lim_max_pv (pm_cm_limits s1) = lim_max_pv (pm_cm_limits s) \<and> power_available_w s1 = power_available_w s"
    using s1 unfolding update_phase_limits_def Let_def
    by (auto simp: set_limits_def trigger_on_overload_def split: if_splits bind_splits)
  with Cons.IH[OF s2] show ?case by simp
qed simp

subsection \<open>A run of the task\<close>

text \<open>What a run leaves: everything zero when charging is blocked, limits in order otherwise.\<close>

definition limits_in_order :: "'f pm_state \<Rightarrow> bool" where
  "limits_in_order s \<longleftrightarrow>
    (if is_blocked s then pm_cm_limits s = zero_limits else pv_limited s \<and> (\<forall>g \<in> {L1, L2, L3}. phase_limited s g))"

lemma update_energy_ok:
  assumes ok: "pm_ok fo s" and al: "plausible_alloc allocated"
  shows "\<exists>s' t. update_energy fo inp allocated s = Some (s', t) \<and> pm_ok fo s' \<and> limits_in_order s' \<and> same_setup s s'"
proof -
  obtain p where p: "update_power_available fo allocated s = Some (s\<lparr>power_available_w := p\<rparr>)"
      "p = INT32_MAX \<or> excess_charging_enable (pm_cfg s) \<and> \<bar>p\<bar> \<le> 2000000"
    using update_power_available_ok[OF ok al] by blast
  let ?s1 = "s\<lparr>power_available_w := p\<rparr>"
  have "pm_ok fo ?s1" using ok by (simp add: pm_ok_def pv_ok_def)
  from update_pv_ok[OF this, of "pi_now inp"] p(2) obtain s2 where
    s2: "update_pv_limits (pi_now inp) ?s1 = Some s2" "pm_ok fo s2" "pv_limited s2" "same_setup ?s1 s2" by auto
  have d: "distinct [L1, L2, L3]" by simp
  obtain s3 t where s3: "update_phases inp allocated [L1, L2, L3] s2 = Some (s3, t)" "pm_ok fo s3" "same_setup s2 s3"
      "\<forall>g \<in> set [L1, L2, L3]. phase_limited s3 g"
      "\<forall>h. h \<notin> set [L1, L2, L3] \<longrightarrow> limits_at (pm_cm_limits s3) h = limits_at (pm_cm_limits s2) h"
    using update_phases_ok[OF s2(2) al d, of inp] by blast
  have pv: "pv_limited s3" using s3(5) update_phases_pv[OF s3(1)] by (intro pv_limited_frame[OF s2(3)]) auto
  let ?s4 = "s3\<lparr>current_long_min_iterations := next_iteration (current_long_min_iterations s3)\<rparr>"
  have "update_energy fo inp allocated s = Some (apply_charging_blocked ?s4, t)"
    by (simp add: update_energy_def p(1) s2(1) s3(1) Let_def del: update_phases.simps)
  moreover have "pm_ok fo (apply_charging_blocked ?s4)"
    using s3(2) by (simp add: apply_charging_blocked_def pm_ok_def pv_ok_def)
  moreover have "limits_in_order (apply_charging_blocked ?s4)"
    using s3(4) pv by (auto simp: limits_in_order_def apply_charging_blocked_def is_blocked_def pv_limited_def phase_limited_def)
  moreover have "same_setup s (apply_charging_blocked ?s4)"
    using s2(4) s3(3) by (simp add: same_setup_def apply_charging_blocked_def)
  ultimately show ?thesis by blast
qed

lemma update_data_ok:
  assumes ok: "pm_ok fo s" and inp: "plausible_input fo inp" and nan: "f_isnan fo nan"
  shows "pm_ok fo (fst (update_data fo nan a inp s))"
proof -
  have fresh: "power_ok fo (fresh_or nan r)" if "power_ok fo (snd r)" for r
    using that nan by (simp add: fresh_or_def power_ok_def)
  have "meter_current_ma fo nan inp g = INT32_MAX \<or> \<bar>meter_current_ma fo nan inp g\<bar> \<le> 5000000" for g
    using inp nan by (auto simp: meter_current_ma_def fresh_or_def plausible_input_def Let_def)
  moreover have "power_ok fo (f_mul fo (fresh_or nan (battery_power inp)) (f_of_int fo (- 1)))"
      if "\<not> f_isnan fo (fresh_or nan (battery_power inp))"
    using that inp nan by (auto simp: fresh_or_def plausible_input_def split: if_splits)
  ultimately show ?thesis using ok inp fresh
    by (auto simp: update_data_def update_drawing_power_def update_battery_def pm_ok_def pv_ok_def phase_ok_def Let_def
        plausible_input_def split: prod.splits if_splits)
qed

lemma update_data_fields:
  assumes "s' = fst (update_data fo nan a inp s)"
  shows "pm_cfg s' = pm_cfg s \<and> dynamic_load_enabled s' = dynamic_load_enabled s
    \<and> supply_cable_max_current_ma s' = supply_cable_max_current_ma s \<and> max_current_limited_ma s' = max_current_limited_ma s
    \<and> charging_blocked s' = charging_blocked s
    \<and> (dynamic_load_enabled s \<longrightarrow> current_at_meter_raw_ma (pm_phases s' g) = meter_current_ma fo nan inp g)"
  by (auto simp: assms update_data_def update_drawing_power_def update_battery_def Let_def)

text \<open>The limits after a run, in terms of the state before it and of what the meters said.\<close>

lemma pm_task_ok:
  assumes "pm_ok fo s" "plausible_input fo inp" "f_isnan fo nan" "plausible_alloc allocated"
  shows "\<exists>s' t. pm_task fo nan inp allocated s = Some (s', t) \<and> pm_ok fo s' \<and> limits_in_order s'
    \<and> supply_cable_max_current_ma s' = supply_cable_max_current_ma s \<and> max_current_limited_ma s' = max_current_limited_ma s
    \<and> is_blocked s' = is_blocked s \<and> dynamic_load_enabled s' = dynamic_load_enabled s
    \<and> (dynamic_load_enabled s \<longrightarrow> (\<forall>g. current_at_meter_raw_ma (pm_phases s' g) = meter_current_ma fo nan inp g))"
proof -
  obtain s' t where "update_energy fo inp allocated (fst (update_data fo nan True inp s)) = Some (s', t)" "pm_ok fo s'"
      "limits_in_order s'" "same_setup (fst (update_data fo nan True inp s)) s'"
    using update_energy_ok[OF update_data_ok[OF assms(1-3)] assms(4)] by blast
  then show ?thesis using update_data_fields[OF refl, of fo nan True inp s]
    by (auto simp: pm_task_def same_setup_def is_blocked_def)
qed

fun plausible_event :: "'f float_ops \<Rightarrow> 'f pm_event \<Rightarrow> bool" where
  "plausible_event fo (TaskRun inp allocated) \<longleftrightarrow> plausible_input fo inp \<and> plausible_alloc allocated"
| "plausible_event fo (LimitMaxCurrent current) \<longleftrightarrow> - 1 \<le> current \<and> current \<le> 524287"
| "plausible_event fo _ \<longleftrightarrow> True"

lemma pm_step_ok:
  assumes "pm_ok fo s" "plausible_event fo ev" "f_isnan fo nan"
  shows "\<exists>s'. pm_step fo nan ev s = Some s' \<and> pm_ok fo s' \<and> supply_cable_max_current_ma s' = supply_cable_max_current_ma s"
proof (cases ev)
  case (TaskRun inp allocated)
  then show ?thesis using pm_task_ok[OF assms(1) _ assms(3), of inp allocated] assms(2) by auto
qed (use assms in \<open>auto simp: limit_max_current_action_def block_charge_action_def on_config_applied_def
    reset_max_current_limit_def set_max_current_limit_def pm_ok_def pv_ok_def Let_def\<close>)

lemma pm_run_ok:
  assumes "pm_ok fo s" "\<forall>ev \<in> set evs. plausible_event fo ev" "f_isnan fo nan"
  shows "\<exists>s'. pm_run fo nan evs s = Some s' \<and> pm_ok fo s' \<and> supply_cable_max_current_ma s' = supply_cable_max_current_ma s"
  using assms
proof (induction evs arbitrary: s)
  case (Cons ev evs)
  then obtain s1 where s1: "pm_step fo nan ev s = Some s1" "pm_ok fo s1" "supply_cable_max_current_ma s1 = supply_cable_max_current_ma s"
    using pm_step_ok[of fo s ev nan] by auto
  from Cons.IH[OF s1(2)] Cons.prems show ?case by (simp add: s1(1,3))
qed simp

text \<open>What the configuration allows and the hardware can be expected to do.\<close>

definition valid_setup :: "'f float_ops \<Rightarrow> 'f \<Rightarrow> pm_config \<Rightarrow> pm_load_config \<Rightarrow> int \<Rightarrow> 'f pm_input \<Rightarrow> bool" where
  "valid_setup fo nan cfg dl supply inp \<longleftrightarrow> pm_config_invalid cfg = None \<and> pm_load_config_invalid dl = None
    \<and> safety_margin_pct dl \<le> 50 \<and> 0 \<le> supply \<and> supply \<le> INT32_MAX \<and> \<bar>target_power_from_grid cfg\<bar> \<le> 500000
    \<and> f_isnan fo nan \<and> plausible_input fo inp"

lemma initial_phase_ok: "phase_ok (initial_phase True mem)"
  using filter_lengths mavg_init_fresh[of PREPROC_FILTER_LENGTH mem]
  by (auto simp: phase_ok_def initial_phase_def filter_ok_def minmax_init_blank mavg_any_def long_ok_def max_def split: if_splits)

lemma power_values_count_pos: "0 < power_values_count m"
  by (cases m) (auto simp: power_values_count_def PM_TASK_DELAY_MS_def)

lemma initial_pm_ok:
  assumes "valid_setup fo nan cfg dl supply inp"
  shows "\<exists>s. initial_pm nan mem cfg dl supply = Some s \<and> pm_ok fo s \<and> supply_cable_max_current_ma s = supply
    \<and> \<not> have_battery s \<and> power_at_battery_raw_w s = nan"
proof -
  obtain k where k: "(if dl_enabled dl then pm_constants_of dl else Some \<lparr>target_phase_current_ma = 0, phase_current_max_increase_ma = 0,
       preproc_mavg_limit = 0, preproc_interpolate_limit = 0, preproc_interpolate_interval_quantized = 0\<rparr>) = Some k"
      "dl_enabled dl \<longrightarrow> constants_ok k"
    using pm_constants_ok[of dl] assms by (cases "dl_enabled dl") (auto simp: valid_setup_def)
  then show ?thesis using assms initial_phase_ok power_values_count_pos filter_lengths(3)
    by (auto simp: initial_pm_def pm_ok_def pv_ok_def valid_setup_def power_ok_def filter_ok_def long_ok_def minmax_init_blank
        k(1) Let_def)
qed

lemma pm_setup_ok:
  assumes v: "valid_setup fo nan cfg dl supply inp"
  shows "\<exists>s. pm_setup fo nan mem cfg dl supply inp mtr = Some (s, supply \<noteq> 0) \<and> pm_ok fo s
    \<and> supply_cable_max_current_ma s = supply"
proof -
  obtain s where s: "initial_pm nan mem cfg dl supply = Some s" "pm_ok fo s" "supply_cable_max_current_ma s = supply"
      "\<not> have_battery s" "power_at_battery_raw_w s = nan"
    using initial_pm_ok[OF v] by blast
  let ?s = "fst (update_data fo nan False inp s)"
  have ok: "pm_ok fo ?s" using v by (intro update_data_ok s(2)) (auto simp: valid_setup_def)
  have b: "supply_cable_max_current_ma ?s = supply" "power_at_battery_raw_w ?s = nan"
    using s(3-5) by (auto simp: update_data_def update_drawing_power_def update_battery_def Let_def)
  show ?thesis using ok b v s(1)
    by (auto simp: pm_setup_def setup_battery_def set_config_error_def reset_max_current_limit_def set_max_current_limit_def
        pm_ok_def pv_ok_def power_ok_def valid_setup_def Let_def)
qed

subsection \<open>The task never fails\<close>


text \<open>Integers with \<open>None\<close> as NaN.\<close>

definition lift_nan :: "(int \<Rightarrow> int \<Rightarrow> int) \<Rightarrow> int option \<Rightarrow> int option \<Rightarrow> int option" where
  "lift_nan h a b = Option.bind a (\<lambda>x. map_option (h x) b)"

definition nan_ops :: "int option float_ops" where
  "nan_ops = \<lparr>f_of_int = Some, f_add = lift_nan (+), f_mul = lift_nan (*), f_div = lift_nan (sdiv),
     f_div_double = (\<lambda>a n. map_option (\<lambda>x. x sdiv n) a),
     f_less = (\<lambda>a b. a \<noteq> None \<and> b \<noteq> None \<and> the a < the b), f_trunc = (\<lambda>a. case a of None \<Rightarrow> 0 | Some x \<Rightarrow> x),
     f_isnan = (\<lambda>a. a = None)\<rparr>"

definition demo_pm_config :: pm_config where
  "demo_pm_config = \<lparr>phase_switching_mode = 0, excess_charging_enable = True, meter_slot_grid_power = 0,
     meter_slot_battery_power = 255, battery_mode = PreferChargers, battery_target_soc = 0, battery_inverted = False,
     battery_deadzone = 100, target_power_from_grid = 0, cloud_filter_mode = CLOUD_FILTER_MEDIUM\<rparr>"

definition demo_load_config :: pm_load_config where
  "demo_load_config = \<lparr>dl_enabled = True, current_limit = 35000, largest_consumer_current = 16000, safety_margin_pct = 0\<rparr>"

definition demo_meters :: pm_meters where
  "demo_meters = \<lparr>power_slot = MvFresh, battery_slot = MvUnavailable, currents_slot = MvFresh\<rparr>"

text \<open>3 kW are fed into the grid, and 2 A flow on each phase.\<close>

definition demo_reading :: "int \<Rightarrow> int option pm_input" where
  "demo_reading now = \<lparr>pi_now = now, pi_elapsed = (\<lambda>d. d \<le> now), grid_power = (MvFresh, Some (- 3000)),
     battery_power = (MvUnavailable, None), battery_soc = (MvUnavailable, None), grid_currents = (MvFresh, \<lambda>_. Some 2)\<rparr>"

lemma demo_valid_setup: "valid_setup nan_ops None demo_pm_config demo_load_config 32000 (demo_reading now)"
  by (simp add: valid_setup_def pm_config_invalid_def pm_load_config_invalid_def demo_pm_config_def demo_load_config_def
      plausible_input_def power_ok_def nan_ops_def demo_reading_def lift_nan_def)

lemma demo_plausible: "plausible_input nan_ops (demo_reading now)" "plausible_alloc (Cost 0 0 0 0)"
  using demo_valid_setup[of now] by (simp_all add: valid_setup_def plausible_alloc_def)


end
