(* ===== verification/Power_System.thy ===== *)
theory Power_System
  imports Charge_System Power_Limits
begin

section \<open>Power manager and charge manager together\<close>

text \<open>
  The power manager writes the limits the charge manager allocates from. What is proved of both gives what an
  installation is promised: the chargers together never take more than its supply allows, whatever the meters
  measured, and nothing while charging is blocked or when the currents that dynamic load management needs are not known.
\<close>

lemma limit_of_run:
  assumes "pm_ok fo p" "plausible_input fo inp" "f_isnan fo nan" "plausible_alloc allocated"
    "pm_task fo nan inp allocated p = Some (p', trigger)" "g \<in> {L1, L2, L3}"
  shows "max 0 (at_phase (lim_raw (pm_cm_limits p')) g) \<le> max_current_limited_ma p'
    \<and> max_current_limited_ma p' \<le> supply_cable_max_current_ma p
    \<and> (is_blocked p \<or> dynamic_load_enabled p \<and> meter_current_ma fo nan inp g = INT32_MAX
        \<longrightarrow> at_phase (lim_raw (pm_cm_limits p')) g = 0)"
proof -
  have p': "pm_ok fo p'" "limits_in_order p'" "supply_cable_max_current_ma p' = supply_cable_max_current_ma p"
      "is_blocked p' = is_blocked p" "dynamic_load_enabled p' = dynamic_load_enabled p"
      "dynamic_load_enabled p \<longrightarrow> (\<forall>g. current_at_meter_raw_ma (pm_phases p' g) = meter_current_ma fo nan inp g)"
    using pm_task_ok[OF assms(1-4)] assms(5) by auto
  have lim: "0 \<le> max_current_limited_ma p'" "max_current_limited_ma p' \<le> supply_cable_max_current_ma p"
    using p'(1,3) by (auto simp: pm_ok_def)
  have zero: "at_phase (lim_raw (pm_cm_limits p')) g = 0" if "is_blocked p'"
    using that p'(2) by (cases g) (auto simp: limits_in_order_def zero_limits_def)
  have ph: "phase_limited p' g" if "\<not> is_blocked p'" using that p'(2) assms(6) by (auto simp: limits_in_order_def)
  show ?thesis using lim zero ph p'(4-6) by (cases "is_blocked p'") (auto simp: phase_limited_def limits_at_def)
qed



end
