(* ===== verification/Phase_Switcher.thy ===== *)
theory Phase_Switcher
  imports Cm_Networking
begin

unbundle bit_operations_syntax

section \<open>Phase switcher of the energy manager\<close>

text \<open>
  An energy manager can switch a charger between one and three phases with a contactor in front of it
  (\<^verbatim>\<open>em_phase_switcher.cpp\<close>). It sits between charge manager and charger, and changes their packets: the charger
  appears to be able to switch phases, and for a switch it is stopped and its control pilot disconnected. What the
  hardware says at a call is the record \<open>em_input\<close>; a call that sets the contactor is part of the result.
\<close>

subsection \<open>State\<close>

datatype SwitchingState = SwIdle | SwStopping | SwDisconnectingCP | SwDisconnectingCPSettle | SwTogglingContactor
  | SwWaitUntilSwitched | SwWaitUntilCPReconnect | SwPostSwitchStateFaking

datatype BackendState = BackendReady | BackendBusy | BackendError

record phase_switcher =
  phase_switch_deadtime :: int
  last_state_packet :: int
  next_state_change_after :: int
  switching_state :: SwitchingState
  charger_usable :: bool
  allocated_current_after_last_disconnect :: bool
  skip_cp_disconnect :: bool
  controlled_charger_idx :: nat
  last_iec61851_state :: byte
  last_charger_state :: byte
  external_phase_override :: byte

definition new_phase_switcher :: "int \<Rightarrow> nat \<Rightarrow> byte \<Rightarrow> phase_switcher" where
  "new_phase_switcher next_change idx override = \<lparr>phase_switch_deadtime = 0, last_state_packet = - 3600000000,
     next_state_change_after = next_change, switching_state = SwIdle, charger_usable = False,
     allocated_current_after_last_disconnect = True, skip_cp_disconnect = False, controlled_charger_idx = idx,
     last_iec61851_state = 255, last_charger_state = 255, external_phase_override = override\<rparr>"

text \<open>The setup: the configured charger must be the one the charge manager knows. It says how the switcher takes part.\<close>

datatype SwitcherRole = RoleNone | RoleProxy | RoleBackend

definition switcher_setup ::
  "nat \<Rightarrow> bool \<Rightarrow> string \<Rightarrow> bool \<Rightarrow> string list \<Rightarrow> bool \<Rightarrow> nat \<Rightarrow> phase_switcher \<Rightarrow> SwitcherRole \<times> phase_switcher" where
  "switcher_setup idx proxy_mode host only_proxy hosts external_control em_phases ps =
    (let ps = ps\<lparr>controlled_charger_idx := idx\<rparr> in
     if idx = 255 then (RoleNone, ps)
     else if (if proxy_mode then idx \<noteq> 0 \<or> \<not> only_proxy else idx \<ge> length hosts) then (RoleNone, ps)
     else if host \<noteq> hosts ! idx then (RoleNone, ps\<lparr>controlled_charger_idx := 255\<rparr>)
     else (if proxy_mode then RoleProxy else RoleBackend,
           if external_control then ps\<lparr>external_phase_override := of_nat em_phases\<rparr> else ps))"

text \<open>\<open>in_elapsed\<close> is \<^verbatim>\<open>deadline_elapsed\<close> at the time of the call.\<close>

record em_input =
  in_now :: int
  in_elapsed :: "int \<Rightarrow> bool"
  contactor_installed :: bool
  contactor_error :: bool
  contactor_value :: bool

definition get_phases :: "em_input \<Rightarrow> nat" where
  "get_phases e = (if contactor_value e then 3 else 1)"

definition get_phase_switching_state_internal ::
  "em_input \<Rightarrow> bool \<Rightarrow> phase_switcher \<Rightarrow> BackendState \<times> phase_switcher" where
  "get_phase_switching_state_internal e ignore_contactor_error ps =
    (if \<not> contactor_installed e then (BackendReady, ps)
     else if \<not> ignore_contactor_error \<and> contactor_error e then (BackendError, ps)
     else if phase_switch_deadtime ps = 0 then (BackendReady, ps)
     else if \<not> in_elapsed e (phase_switch_deadtime ps) then (BackendBusy, ps)
     else (BackendReady, ps\<lparr>phase_switch_deadtime := 0\<rparr>))"

definition can_switch_phases_now :: "em_input \<Rightarrow> nat \<Rightarrow> phase_switcher \<Rightarrow> bool \<times> phase_switcher" where
  "can_switch_phases_now e phases_wanted ps =
    (if \<not> contactor_installed e then (False, ps)
     else case get_phase_switching_state_internal e (phases_wanted = 1) ps of (st, ps) \<Rightarrow> (st = BackendReady, ps))"

text \<open>A request from outside; the charge manager then skips its hysteresis.\<close>

definition switch_phases :: "em_input \<Rightarrow> nat \<Rightarrow> phase_switcher \<Rightarrow> bool \<times> phase_switcher" where
  "switch_phases e phases_wanted ps =
    (if phases_wanted > 3 \<or> \<not> contactor_installed e then (False, ps)
     else case get_phase_switching_state_internal e False ps of (st, ps) \<Rightarrow>
       if st \<noteq> BackendReady then (False, ps) else (True, ps\<lparr>external_phase_override := of_nat phases_wanted\<rparr>))"

text \<open>Whether the contactor is set, and to what.\<close>

definition switch_phases_internal :: "em_input \<Rightarrow> nat \<Rightarrow> phase_switcher \<Rightarrow> bool option \<times> phase_switcher" where
  "switch_phases_internal e phases_wanted ps =
    (if \<not> contactor_installed e then (None, ps)
     else case get_phase_switching_state_internal e (phases_wanted = 1) ps of (st, ps) \<Rightarrow>
       if st \<noteq> BackendReady then (None, ps)
       else (Some (phases_wanted > 1), ps\<lparr>phase_switch_deadtime := in_now e + 2000000\<rparr>))"

subsection \<open>Commands to the charger\<close>

definition wanted_phases :: "em_input \<Rightarrow> cm_command_packet \<Rightarrow> nat" where
  "wanted_phases e pkt =
    (let n = sint (cmd_allocated_phases pkt) in
     if contactor_error e \<or> n = 0 then 1 else if n = 2 then 3 else if n < 0 \<or> n > 3 then 1 else nat n)"

definition no_current :: "cm_command_packet \<Rightarrow> cm_command_packet" where
  "no_current pkt = pkt\<lparr>cmd_allocated_current := 0\<rparr>"

definition disconnect_cp :: "cm_command_packet \<Rightarrow> cm_command_packet" where
  "disconnect_cp pkt = pkt\<lparr>cmd_flags := cmd_flags pkt OR flag True 6\<rparr>"

text \<open>What a state of the switch does to a command: the packet, the new state and the contactor; nothing if the
  function returns at once.\<close>

definition command_in_idle ::
  "em_input \<Rightarrow> nat \<Rightarrow> cm_command_packet \<Rightarrow> phase_switcher \<Rightarrow> (cm_command_packet \<times> phase_switcher \<times> bool option) option \<times> phase_switcher" where
  "command_in_idle e wanted pkt ps =
    (if wanted = get_phases e \<or> \<not> contactor_installed e then (Some (pkt, ps, None), ps)
     else case can_switch_phases_now e wanted ps of (can, ps) \<Rightarrow>
       if \<not> can \<or> \<not> in_elapsed e (last_state_packet ps - 3500000) then (None, ps)
       else if allocated_current_after_last_disconnect ps
       then (Some (no_current pkt, ps\<lparr>skip_cp_disconnect := False, switching_state := SwStopping\<rparr>, None), ps)
       else (Some (no_current pkt, ps\<lparr>skip_cp_disconnect := True, switching_state := SwTogglingContactor\<rparr>, None), ps))"

definition stopped_command :: "phase_switcher \<Rightarrow> cm_command_packet \<Rightarrow> cm_command_packet" where
  "stopped_command ps pkt = (if skip_cp_disconnect ps then no_current pkt else disconnect_cp (no_current pkt))"

definition command_while_switching ::
  "em_input \<Rightarrow> nat \<Rightarrow> cm_command_packet \<Rightarrow> phase_switcher \<Rightarrow> cm_command_packet \<times> phase_switcher \<times> bool option" where
  "command_while_switching e wanted pkt ps =
    (case switching_state ps of
       SwTogglingContactor \<Rightarrow>
         (case switch_phases_internal e wanted ps of (contactor, ps) \<Rightarrow>
           (stopped_command ps pkt, if contactor \<noteq> None then ps\<lparr>switching_state := SwWaitUntilSwitched\<rparr> else ps, contactor))
     | SwWaitUntilSwitched \<Rightarrow>
         (case get_phase_switching_state_internal e (wanted = 1) ps of (st, ps) \<Rightarrow>
           (stopped_command ps pkt,
            if st \<noteq> BackendReady then ps
            else ps\<lparr>switching_state :=
              if get_phases e = wanted then if skip_cp_disconnect ps then SwIdle else SwWaitUntilCPReconnect
              else SwTogglingContactor\<rparr>, None))
     | SwWaitUntilCPReconnect \<Rightarrow>
         if in_elapsed e (next_state_change_after ps)
         then (pkt, ps\<lparr>switching_state := SwPostSwitchStateFaking,
                 next_state_change_after := next_state_change_after ps + 25000000\<rparr>, None)
         else (disconnect_cp (no_current pkt), ps, None)
     | SwPostSwitchStateFaking \<Rightarrow>
         (pkt, if in_elapsed e (next_state_change_after ps) \<or> cmd_allocated_phases pkt = 0
               then ps\<lparr>switching_state := SwIdle\<rparr> else ps, None)
     | SwStopping \<Rightarrow> (no_current pkt, ps, None)
     | _ \<Rightarrow> (disconnect_cp (no_current pkt), ps, None))"

text \<open>Whether current was allocated since it was safe.\<close>

definition note_current :: "SwitchingState \<Rightarrow> cm_command_packet \<Rightarrow> phase_switcher \<Rightarrow> phase_switcher" where
  "note_current old_state pkt ps =
    (if last_charger_state ps = 0 \<and> cmd_allocated_current pkt = 0
     then ps\<lparr>allocated_current_after_last_disconnect := False\<rparr>
     else if old_state = SwIdle \<and> last_charger_state ps \<ge> 2 \<or> cmd_allocated_current pkt \<noteq> 0
     then ps\<lparr>allocated_current_after_last_disconnect := True\<rparr>
     else ps)"

definition is_filtered :: "nat \<Rightarrow> cm_command_packet \<Rightarrow> phase_switcher \<Rightarrow> bool" where
  "is_filtered i pkt ps \<longleftrightarrow> i = controlled_charger_idx ps \<and> \<not> bit (cmd_flags pkt) 7 \<and> charger_usable ps"

definition filter_command_packet ::
  "em_input \<Rightarrow> nat \<Rightarrow> cm_command_packet \<Rightarrow> phase_switcher \<Rightarrow> cm_command_packet \<times> phase_switcher \<times> bool option" where
  "filter_command_packet e i pkt ps =
    (if \<not> is_filtered i pkt ps then (pkt, ps, None)
     else
       let wanted = wanted_phases e pkt; pkt = (if contactor_error e then no_current pkt else pkt) in
       case (if switching_state ps = SwIdle then command_in_idle e wanted pkt ps
             else (Some (command_while_switching e wanted pkt ps), ps)) of
         (None, ps) \<Rightarrow> (pkt, ps, None)
       | (Some (pkt, ps', contactor), _) \<Rightarrow> (pkt, note_current (switching_state ps) pkt ps', contactor))"

text \<open>As the filter of \<open>send_command_packet\<close>.\<close>

definition switcher_filter ::
  "em_input \<Rightarrow> nat \<Rightarrow> cm_command_packet \<Rightarrow> phase_switcher \<times> bool option \<Rightarrow> cm_command_packet \<times> phase_switcher \<times> bool option" where
  "switcher_filter e i pkt st = filter_command_packet e i pkt (fst st)"

subsection \<open>States of the charger\<close>

definition fake_phases :: "em_input \<Rightarrow> phase_switcher \<Rightarrow> cm_state_packet \<Rightarrow> cm_state_packet" where
  "fake_phases e ps pkt =
    (let kept = st_phases pkt AND NOT 3 in
     if external_phase_override ps \<noteq> 0 then pkt\<lparr>st_phases := kept OR external_phase_override ps\<rparr>
     else pkt\<lparr>st_feature_flags := st_feature_flags pkt OR flag True 7,
              st_phases := kept OR of_nat (get_phases e) OR flag True 2\<rparr>)"

definition fake_state :: "phase_switcher \<Rightarrow> cm_state_packet \<Rightarrow> cm_state_packet" where
  "fake_state ps pkt = pkt\<lparr>st_iec61851_state := last_iec61851_state ps, st_charger_state := last_charger_state ps\<rparr>"

definition usable :: "cm_state_packet \<Rightarrow> bool" where
  "usable pkt \<longleftrightarrow> pkh_version (st_header pkt) \<ge> 3 \<and> \<not> bit (st_feature_flags pkt) 7 \<and> bit (st_feature_flags pkt) 6
     \<and> bit (st_state_flags pkt) 7"

definition state_while_switching ::
  "em_input \<Rightarrow> cm_state_packet \<Rightarrow> phase_switcher \<Rightarrow> cm_state_packet \<times> phase_switcher" where
  "state_while_switching e pkt ps =
    (case switching_state ps of
       SwIdle \<Rightarrow> (pkt, ps\<lparr>last_iec61851_state := st_iec61851_state pkt, last_charger_state := st_charger_state pkt\<rparr>)
     | SwStopping \<Rightarrow>
         (fake_state ps pkt, if st_allowed_charging_current pkt = 0 then ps\<lparr>switching_state := SwDisconnectingCP\<rparr> else ps)
     | SwDisconnectingCP \<Rightarrow>
         (fake_state ps pkt, if bit (st_state_flags pkt) 6
           then ps\<lparr>next_state_change_after := in_now e + 5000000, switching_state := SwDisconnectingCPSettle,
                   allocated_current_after_last_disconnect := False\<rparr>
           else ps)
     | SwDisconnectingCPSettle \<Rightarrow> (fake_state ps pkt, ps\<lparr>switching_state := SwTogglingContactor\<rparr>)
     | SwPostSwitchStateFaking \<Rightarrow>
         if st_iec61851_state pkt = 1 then (fake_state ps pkt, ps) else (pkt, ps\<lparr>switching_state := SwIdle\<rparr>)
     | _ \<Rightarrow> (fake_state ps pkt, ps))"

definition filter_state_packet ::
  "em_input \<Rightarrow> nat \<Rightarrow> cm_state_packet \<Rightarrow> phase_switcher \<Rightarrow> cm_state_packet \<times> phase_switcher" where
  "filter_state_packet e i pkt ps =
    (if i \<noteq> controlled_charger_idx ps then (pkt, ps)
     else
       let ps = ps\<lparr>last_state_packet := in_now e, charger_usable := usable pkt\<rparr> in
       if usable pkt then state_while_switching e (fake_phases e ps pkt) ps else (pkt, ps))"

subsection \<open>The contactor is switched without current\<close>

text \<open>
  \<open>hot\<close> says that current was allocated since it was last known to be off: since a command without current while no
  vehicle was plugged in, or since the charger reported its control pilot disconnected. Commands that the charger is told to
  ignore do not count.
\<close>

definition hot_after_command :: "nat \<Rightarrow> cm_command_packet \<Rightarrow> phase_switcher \<Rightarrow> bool \<Rightarrow> bool" where
  "hot_after_command i sent ps hot =
    (if i \<noteq> controlled_charger_idx ps \<or> bit (cmd_flags sent) 7 then hot
     else cmd_allocated_current sent \<noteq> 0 \<or> hot \<and> last_charger_state ps \<noteq> 0)"

definition hot_after_state :: "nat \<Rightarrow> cm_state_packet \<Rightarrow> phase_switcher \<Rightarrow> bool \<Rightarrow> bool" where
  "hot_after_state i pkt ps hot \<longleftrightarrow> hot \<and> \<not> (i = controlled_charger_idx ps \<and> bit (st_state_flags pkt) 6)"

definition input_ok :: "bool \<Rightarrow> em_input \<Rightarrow> phase_switcher \<Rightarrow> bool" where
  "input_ok installed e ps \<longleftrightarrow> contactor_installed e = installed \<and> last_state_packet ps \<le> in_now e
     \<and> (\<forall>t. in_elapsed e t \<longleftrightarrow> t \<le> in_now e)"

text \<open>The steps that are considered: once the charger can be used, it remains usable.\<close>

inductive ps_step :: "bool \<Rightarrow> phase_switcher \<times> bool \<Rightarrow> phase_switcher \<times> bool \<Rightarrow> bool" for installed where
  command: "input_ok installed e ps \<Longrightarrow> filter_command_packet e i pkt ps = (sent, ps', contactor)
    \<Longrightarrow> ps_step installed (ps, hot) (ps', hot_after_command i sent ps hot)"
| state: "input_ok installed e ps \<Longrightarrow> filter_state_packet e i pkt ps = (seen, ps') \<Longrightarrow> i = controlled_charger_idx ps \<longrightarrow> usable pkt
    \<Longrightarrow> ps_step installed (ps, hot) (ps', hot_after_state i pkt ps hot)"
| external: "input_ok installed e ps \<Longrightarrow> switch_phases e n ps = (ok, ps') \<Longrightarrow> ps_step installed (ps, hot) (ps', hot)"

definition dark_state :: "SwitchingState \<Rightarrow> bool" where
  "dark_state st \<longleftrightarrow> st \<in> {SwDisconnectingCPSettle, SwTogglingContactor, SwWaitUntilSwitched, SwWaitUntilCPReconnect}"

definition ps_safe :: "bool \<Rightarrow> phase_switcher \<times> bool \<Rightarrow> bool" where
  "ps_safe installed st \<longleftrightarrow> (case st of (ps, hot) \<Rightarrow>
     (hot \<longrightarrow> allocated_current_after_last_disconnect ps \<and> \<not> dark_state (switching_state ps))
     \<and> (phase_switch_deadtime ps \<noteq> 0 \<longrightarrow> switching_state ps = SwWaitUntilSwitched)
     \<and> (\<not> charger_usable ps \<longrightarrow> switching_state ps = SwIdle \<and> allocated_current_after_last_disconnect ps)
     \<and> (\<not> installed \<longrightarrow> switching_state ps = SwIdle))"

lemma backend_cases:
  assumes "get_phase_switching_state_internal e ignore_error ps = (st, ps')"
  shows "ps' = ps \<or> ps' = ps\<lparr>phase_switch_deadtime := 0\<rparr>"
    "phase_switch_deadtime ps = 0 \<Longrightarrow> ps' = ps"
    "st = BackendReady \<Longrightarrow> contactor_installed e \<Longrightarrow> phase_switch_deadtime ps' = 0"
  using assms by (auto simp: get_phase_switching_state_internal_def split: if_splits)

lemma no_current_simps [simp]:
  "cmd_allocated_current (no_current pkt) = 0" "cmd_flags (no_current pkt) = cmd_flags pkt"
  "cmd_allocated_current (disconnect_cp pkt) = cmd_allocated_current pkt"
  "bit (cmd_flags (disconnect_cp pkt)) 7 = bit (cmd_flags pkt) 7"
  "cmd_allocated_current (stopped_command ps pkt) = 0" "bit (cmd_flags (stopped_command ps pkt)) 7 = bit (cmd_flags pkt) 7"
  by (simp_all add: no_current_def disconnect_cp_def stopped_command_def bit_simps flag_def)

lemma note_current_simps [simp]:
  "switching_state (note_current old pkt ps) = switching_state ps"
  "phase_switch_deadtime (note_current old pkt ps) = phase_switch_deadtime ps"
  "charger_usable (note_current old pkt ps) = charger_usable ps"
  "last_charger_state (note_current old pkt ps) = last_charger_state ps"
  by (simp_all add: note_current_def)

text \<open>In the idle state the switch is always possible, so a command with current is never let through unnoticed.\<close>

lemma idle_command_result:
  assumes "input_ok installed e ps" "phase_switch_deadtime ps = 0" "wanted = 1 \<or> \<not> contactor_error e"
  obtains pkt' ps' where "command_in_idle e wanted pkt ps = (Some (pkt', ps', None), ps)"
    "ps' = ps \<and> pkt' = pkt
     \<or> installed \<and> pkt' = no_current pkt \<and> allocated_current_after_last_disconnect ps
        \<and> ps' = ps\<lparr>skip_cp_disconnect := False, switching_state := SwStopping\<rparr>
     \<or> installed \<and> pkt' = no_current pkt \<and> \<not> allocated_current_after_last_disconnect ps
        \<and> ps' = ps\<lparr>skip_cp_disconnect := True, switching_state := SwTogglingContactor\<rparr>"
proof (cases "wanted = get_phases e \<or> \<not> contactor_installed e")
  case True
  then show thesis using that[of pkt ps] by (simp add: command_in_idle_def)
next
  case False
  then have can: "can_switch_phases_now e wanted ps = (True, ps)"
    using assms(2,3) by (auto simp: can_switch_phases_now_def get_phase_switching_state_internal_def)
  have el: "in_elapsed e (last_state_packet ps - 3500000)" "installed"
    using assms(1) False by (auto simp: input_ok_def)
  show thesis
  proof (cases "allocated_current_after_last_disconnect ps")
    case True
    then show thesis
      using that[of "no_current pkt" "ps\<lparr>skip_cp_disconnect := False, switching_state := SwStopping\<rparr>"] False can el
      by (simp add: command_in_idle_def)
  next
    case unused: False
    then show thesis
      using that[of "no_current pkt" "ps\<lparr>skip_cp_disconnect := True, switching_state := SwTogglingContactor\<rparr>"] False can el
      by (simp add: command_in_idle_def)
  qed
qed

lemma wanted_phases_ok: "wanted_phases e pkt = 1 \<or> \<not> contactor_error e"
  by (simp add: wanted_phases_def Let_def)

text \<open>While the switch is at work, a command carries no current, unless the faking begins or is on.\<close>

lemma switching_command_result:
  assumes "command_while_switching e wanted pkt ps = (pkt', ps', contactor)" "switching_state ps \<noteq> SwIdle"
    "phase_switch_deadtime ps \<noteq> 0 \<longrightarrow> switching_state ps = SwWaitUntilSwitched" "contactor_installed e"
  shows "phase_switch_deadtime ps' \<noteq> 0 \<longrightarrow> switching_state ps' = SwWaitUntilSwitched"
    "switching_state ps' \<noteq> SwPostSwitchStateFaking \<Longrightarrow> switching_state ps \<noteq> SwPostSwitchStateFaking \<Longrightarrow> cmd_allocated_current pkt' = 0"
    "dark_state (switching_state ps') \<Longrightarrow> dark_state (switching_state ps)"
    "contactor \<noteq> None \<Longrightarrow> switching_state ps = SwTogglingContactor"
    "allocated_current_after_last_disconnect ps' = allocated_current_after_last_disconnect ps"
    "charger_usable ps' = charger_usable ps" "last_charger_state ps' = last_charger_state ps"
    "bit (cmd_flags pkt') 7 = bit (cmd_flags pkt) 7"
  using assms
  by (auto simp: command_while_switching_def switch_phases_internal_def get_phase_switching_state_internal_def dark_state_def
      split: SwitchingState.splits if_splits prod.splits)

lemma noted_safe:
  assumes "hot \<longrightarrow> allocated_current_after_last_disconnect ps1"
    "dark_state (switching_state ps1) \<longrightarrow> \<not> hot \<and> cmd_allocated_current pkt = 0"
    "phase_switch_deadtime ps1 \<noteq> 0 \<longrightarrow> switching_state ps1 = SwWaitUntilSwitched" "charger_usable ps1"
    "installed \<or> switching_state ps1 = SwIdle" "last_charger_state ps1 = last_charger_state ps"
    "i = controlled_charger_idx ps" "\<not> bit (cmd_flags pkt) 7"
  shows "ps_safe installed (note_current old pkt ps1, hot_after_command i pkt ps hot)"
  using assms by (auto simp: ps_safe_def hot_after_command_def) (auto simp: note_current_def)

lemma command_step_safe:
  assumes "input_ok installed e ps" "filter_command_packet e i pkt ps = (sent, ps', contactor)" "ps_safe installed (ps, hot)"
  shows "ps_safe installed (ps', hot_after_command i sent ps hot)" "contactor \<noteq> None \<Longrightarrow> \<not> hot"
proof -
  have inst: "contactor_installed e = installed" using assms(1) by (simp add: input_ok_def)
  let ?pkt = "if contactor_error e then no_current pkt else pkt" and ?w = "wanted_phases e pkt"
  have "ps_safe installed (ps', hot_after_command i sent ps hot) \<and> (contactor \<noteq> None \<longrightarrow> \<not> hot)"
  proof (cases "is_filtered i pkt ps")
    case False
    then have same: "ps' = ps" "sent = pkt" "contactor = None" using assms(2) by (simp_all add: filter_command_packet_def)
    then show ?thesis
      using False assms(3) by (auto simp: ps_safe_def hot_after_command_def is_filtered_def dark_state_def split: if_splits)
  next
    case True
    then have f: "i = controlled_charger_idx ps" "\<not> bit (cmd_flags pkt) 7" "charger_usable ps" by (simp_all add: is_filtered_def)
    show ?thesis
    proof (cases "switching_state ps = SwIdle")
      case idle: True
      have dead: "phase_switch_deadtime ps = 0" using assms(3) idle by (auto simp: ps_safe_def)
      obtain pkt1 ps1 where
        r: "command_in_idle e ?w ?pkt ps = (Some (pkt1, ps1, None), ps)"
        and ps1: "ps1 = ps \<and> pkt1 = ?pkt
          \<or> installed \<and> pkt1 = no_current ?pkt \<and> allocated_current_after_last_disconnect ps
             \<and> ps1 = ps\<lparr>skip_cp_disconnect := False, switching_state := SwStopping\<rparr>
          \<or> installed \<and> pkt1 = no_current ?pkt \<and> \<not> allocated_current_after_last_disconnect ps
             \<and> ps1 = ps\<lparr>skip_cp_disconnect := True, switching_state := SwTogglingContactor\<rparr>"
        by (rule idle_command_result[OF assms(1) dead wanted_phases_ok[of e pkt], of ?pkt])
      have out: "sent = pkt1" "ps' = note_current SwIdle pkt1 ps1" "contactor = None"
        using assms(2) True idle r by (auto simp: filter_command_packet_def Let_def)
      have flags: "bit (cmd_flags pkt1) 7 = bit (cmd_flags pkt) 7" using ps1 by (auto split: if_splits)
      have "ps_safe installed (note_current SwIdle pkt1 ps1, hot_after_command i pkt1 ps hot)"
        using ps1 assms(3) f idle flags by (intro noted_safe) (auto simp: ps_safe_def dark_state_def)
      then show ?thesis by (simp add: out)
    next
      case busy: False
      obtain pkt1 ps1 co where r: "command_while_switching e ?w ?pkt ps = (pkt1, ps1, co)" by (metis prod_cases3)
      have out: "sent = pkt1" "ps' = note_current (switching_state ps) pkt1 ps1" "contactor = co"
        using assms(2) True busy r by (auto simp: filter_command_packet_def Let_def)
      have "installed" "phase_switch_deadtime ps \<noteq> 0 \<longrightarrow> switching_state ps = SwWaitUntilSwitched"
        using assms(3) busy by (auto simp: ps_safe_def)
      note res = switching_command_result[OF r busy this(2)] this(1)
      have flags: "bit (cmd_flags pkt1) 7 = bit (cmd_flags pkt) 7" using res inst by (auto split: if_splits)
      have hot: "hot \<longrightarrow> allocated_current_after_last_disconnect ps \<and> \<not> dark_state (switching_state ps)"
        using assms(3) by (simp add: ps_safe_def)
      have dark: "dark_state (switching_state ps1) \<longrightarrow> \<not> hot \<and> cmd_allocated_current pkt1 = 0"
        using res(2,3) hot inst res(9) by (auto simp: dark_state_def)
      have "ps_safe installed (note_current (switching_state ps) pkt1 ps1, hot_after_command i pkt1 ps hot)"
        by (rule noted_safe) (use res inst f flags hot dark in simp_all)
      moreover have "\<not> hot" if "co \<noteq> None"
        using res(4)[OF _ that] res(9) inst hot by (auto simp: dark_state_def)
      ultimately show ?thesis by (simp add: out)
    qed
  qed
  then show "ps_safe installed (ps', hot_after_command i sent ps hot)" "contactor \<noteq> None \<Longrightarrow> \<not> hot" by simp_all
qed

lemma state_step_safe:
  assumes "filter_state_packet e i pkt ps = (seen, ps')" "i = controlled_charger_idx ps \<longrightarrow> usable pkt" "ps_safe installed (ps, hot)"
  shows "ps_safe installed (ps', hot_after_state i pkt ps hot)"
proof (cases "i = controlled_charger_idx ps")
  case True
  let ?ps = "ps\<lparr>last_state_packet := in_now e, charger_usable := True\<rparr>" and ?pkt = "fake_phases e ps pkt"
  have step: "state_while_switching e (fake_phases e ?ps pkt) ?ps = (seen, ps')"
    using assms(1,2) True by (simp add: filter_state_packet_def Let_def)
  have kept: "st_state_flags (fake_phases e ?ps pkt) = st_state_flags pkt" by (simp add: fake_phases_def Let_def)
  show ?thesis
    using assms(3) step True
    by (auto simp: ps_safe_def state_while_switching_def hot_after_state_def dark_state_def kept
        split: SwitchingState.splits if_splits)
next
  case False
  then show ?thesis using assms(1,3) by (simp add: filter_state_packet_def hot_after_state_def)
qed

lemma external_step_safe:
  assumes "input_ok installed e ps" "switch_phases e n ps = (done, ps')" "ps_safe installed (ps, hot)"
  shows "ps_safe installed (ps', hot)"
  using assms by (auto simp: switch_phases_def get_phase_switching_state_internal_def ps_safe_def split: if_splits)

lemma ps_steps_safe: "(ps_step installed)\<^sup>*\<^sup>* st st' \<Longrightarrow> ps_safe installed st \<Longrightarrow> ps_safe installed st'"
proof (induction rule: rtranclp_induct)
  case (step y z)
  from step(2,3,4) show ?case
    by (cases rule: ps_step.cases) (auto intro: command_step_safe state_step_safe external_step_safe)
qed

lemma new_phase_switcher_safe: "ps_safe installed (new_phase_switcher next_change idx override, hot)"
  by (simp add: ps_safe_def new_phase_switcher_def dark_state_def)

lemma switch_phases_keeps_skip:
  "switch_phases_internal e n ps = (contactor, ps') \<Longrightarrow> skip_cp_disconnect ps' = skip_cp_disconnect ps"
  by (auto simp: switch_phases_internal_def get_phase_switching_state_internal_def split: if_splits)

lemma contactor_command:
  assumes "filter_command_packet e i pkt ps = (sent, ps', Some three_phases)"
  shows "switching_state ps = SwTogglingContactor" "cmd_allocated_current sent = 0"
    "skip_cp_disconnect ps \<or> bit (cmd_flags sent) 6"
proof -
  have filtered: "is_filtered i pkt ps" using assms by (auto simp: filter_command_packet_def split: if_splits)
  have busy: "switching_state ps \<noteq> SwIdle"
    using assms filtered by (auto simp: filter_command_packet_def command_in_idle_def Let_def split: if_splits prod.splits)
  let ?pkt = "if contactor_error e then no_current pkt else pkt"
  obtain ps1 where r: "command_while_switching e (wanted_phases e pkt) ?pkt ps = (sent, ps1, Some three_phases)"
    using assms filtered busy by (auto simp: filter_command_packet_def Let_def split: prod.splits)
  have sent: "bit (cmd_flags (disconnect_cp p)) 6" for p by (simp add: disconnect_cp_def flag_def bit_simps)
  show "switching_state ps = SwTogglingContactor" "cmd_allocated_current sent = 0" "skip_cp_disconnect ps \<or> bit (cmd_flags sent) 6"
    using r sent
    by (auto dest: switch_phases_keeps_skip simp: command_while_switching_def stopped_command_def split: SwitchingState.splits if_splits prod.splits)
qed

text \<open>
  Claim C11. The contactor is switched without load: as long as the charger stays one that can be used, whenever the
  contactor is set, no current has been allocated since the charger was last known to have no vehicle and no current, or since
  it reported its control pilot disconnected; and the command that goes out at that moment allocates no current and
  keeps the control pilot disconnected, unless it was decided that this is not needed.
\<close>

theorem contactor_switched_without_load:
  assumes "(ps_step installed)\<^sup>*\<^sup>* (new_phase_switcher next_change idx override, hot\<^sub>0) (ps, hot)" "input_ok installed e ps"
    "filter_command_packet e i pkt ps = (sent, ps', Some three_phases)"
  shows "\<not> hot \<and> cmd_allocated_current sent = 0 \<and> (skip_cp_disconnect ps \<or> bit (cmd_flags sent) 6)"
proof -
  have safe: "ps_safe installed (ps, hot)" by (rule ps_steps_safe[OF assms(1) new_phase_switcher_safe])
  show ?thesis using contactor_command[OF assms(3)] command_step_safe(2)[OF assms(2,3) safe] by simp
qed

text \<open>Nobody is there, then three phases are wanted.\<close>

definition switch_input :: "int \<Rightarrow> bool \<Rightarrow> em_input" where
  "switch_input now three = \<lparr>in_now = now, in_elapsed = \<lambda>t. t \<le> now, contactor_installed = True, contactor_error = False,
     contactor_value = three\<rparr>"

definition switch_header :: "nat \<Rightarrow> cm_packet_header" where
  "switch_header version = \<lparr>pkh_magic = CM_PACKET_MAGIC, pkh_length = 0, pkh_seq_num = 0, pkh_version = of_nat version, pkh_padding = 0\<rparr>"

definition switch_command :: "u16 \<Rightarrow> byte \<Rightarrow> cm_command_packet" where
  "switch_command current ph = \<lparr>cmd_header = switch_header 4, cmd_allocated_current = current, cmd_flags = 0,
     cmd_allocated_phases = ph, cmd_charge_mode = 0, cmd_supported_charge_modes = [0, 0], cmd_padding_v3 = 0,
     cmd_auth_feedback = 0, cmd_padding_v4 = [0, 0, 0]\<rparr>"

definition charger_report_packet :: "bool \<Rightarrow> byte \<Rightarrow> cm_state_packet" where
  "charger_report_packet cp_ok charger = \<lparr>st_header = switch_header 5, st_feature_flags = flag cp_ok 6,
     st_esp32_uid = 1, st_evse_uptime = 1, st_car_stopped_charging = 0, st_allowed_charging_current = 0, st_supported_current = 16000,
     st_iec61851_state = 0, st_charger_state = charger, st_error_state = 0, st_state_flags = flag True 7,
     st_floats = replicate 12 0, st_time_since_state_change = 0, st_phases = 1, st_padding_v3 = [0, 0, 0],
     st_auth_info = replicate 3 \<lparr>wa_first = 0, wa_method = 0, wa_last_seen_s = 0, wa_data = replicate 12 0\<rparr>\<rparr>"

definition switch_seen :: phase_switcher where
  "switch_seen = snd (filter_state_packet (switch_input 1000000 False) 0 (charger_report_packet True 0) (new_phase_switcher 0 0 0))"

definition switch_noted :: phase_switcher where
  "switch_noted = fst (snd (filter_command_packet (switch_input 1000001 False) 0 (switch_command 0 1) switch_seen))"

definition switch_toggling :: phase_switcher where
  "switch_toggling = fst (snd (filter_command_packet (switch_input 1000002 False) 0 (switch_command 6000 3) switch_noted))"

lemma switch_input_ok: "last_state_packet ps \<le> now \<Longrightarrow> input_ok True (switch_input now three) ps"
  by (simp add: input_ok_def switch_input_def)

lemma switch_demo_times: "last_state_packet (new_phase_switcher 0 0 0) \<le> 1000000" "last_state_packet switch_seen \<le> 1000001"
  "last_state_packet switch_noted \<le> 1000002" "last_state_packet switch_toggling \<le> 1000003"
  "usable (charger_report_packet True 0)" "last_charger_state switch_seen = 0" "controlled_charger_idx switch_seen = 0"
  "last_charger_state switch_noted = 0" "controlled_charger_idx switch_noted = 0"
  "cmd_allocated_current (fst (filter_command_packet (switch_input 1000001 False) 0 (switch_command 0 1) switch_seen)) = 0"
  "cmd_flags (fst (filter_command_packet (switch_input 1000001 False) 0 (switch_command 0 1) switch_seen)) = 0"
  by code_simp+

lemma switch_demo_steps:
  obtains hot where "(ps_step True)\<^sup>*\<^sup>* (new_phase_switcher 0 0 0, True) (switch_toggling, hot)"
proof -
  have "ps_step True (new_phase_switcher 0 0 0, True)
      (switch_seen, hot_after_state 0 (charger_report_packet True 0) (new_phase_switcher 0 0 0) True)"
    by (rule ps_step.state[of True "switch_input 1000000 False" _ 0 "charger_report_packet True 0"
        "fst (filter_state_packet (switch_input 1000000 False) 0 (charger_report_packet True 0) (new_phase_switcher 0 0 0))"])
      (simp_all add: switch_input_ok switch_demo_times switch_seen_def)
  moreover have "\<exists>h'. ps_step True (switch_seen, h) (switch_noted, h')" for h
    using ps_step.command[of True "switch_input 1000001 False" switch_seen 0 "switch_command 0 1"]
    by (metis switch_input_ok switch_demo_times(2) switch_noted_def prod.collapse)
  moreover have "\<exists>h'. ps_step True (switch_noted, h) (switch_toggling, h')" for h
    using ps_step.command[of True "switch_input 1000002 False" switch_noted 0 "switch_command 6000 3"]
    by (metis switch_input_ok switch_demo_times(3) switch_toggling_def prod.collapse)
  ultimately show thesis using that by (meson converse_rtranclp_into_rtranclp rtranclp.rtrancl_refl)
qed

theorem contactor_switched_without_load_witness:
  "\<exists>hot sent ps'. filter_command_packet (switch_input 1000003 False) 0 (switch_command 6000 3) switch_toggling = (sent, ps', Some True)
    \<and> \<not> hot \<and> cmd_allocated_current sent = 0 \<and> (skip_cp_disconnect switch_toggling \<or> bit (cmd_flags sent) 6)"
proof -
  obtain hot where steps: "(ps_step True)\<^sup>*\<^sup>* (new_phase_switcher 0 0 0, True) (switch_toggling, hot)" by (rule switch_demo_steps)
  obtain sent ps' c where r: "filter_command_packet (switch_input 1000003 False) 0 (switch_command 6000 3) switch_toggling = (sent, ps', c)"
    by (metis prod_cases3)
  have "snd (snd (filter_command_packet (switch_input 1000003 False) 0 (switch_command 6000 3) switch_toggling)) = Some True"
    by code_simp
  then have c: "filter_command_packet (switch_input 1000003 False) 0 (switch_command 6000 3) switch_toggling = (sent, ps', Some True)"
    using r by simp
  from contactor_switched_without_load[OF steps switch_input_ok[OF switch_demo_times(4)] c] c show ?thesis by blast
qed

subsection \<open>A charger that cannot be used for a moment\<close>

text \<open>
  While the charger cannot be used, its packets are passed on unchanged, but what they allocate is not noted.
  No vehicle, then a packet without the feature, a vehicle that charges with 16 A, and the feature again: the contactor is
  switched while the vehicle charges.
\<close>

definition switch_gap :: "phase_switcher \<times> (cm_command_packet \<times> bool option) list" where
  "switch_gap =
    (let ps = new_phase_switcher 0 0 0;
         (_, ps) = filter_state_packet (switch_input 1000000 False) 0 (charger_report_packet True 0) ps;
         (_, ps, _) = filter_command_packet (switch_input 1000001 False) 0 (switch_command 0 1) ps;
         (_, ps) = filter_state_packet (switch_input 2000000 False) 0 (charger_report_packet False 0) ps;
         (c1, ps, s1) = filter_command_packet (switch_input 2000001 False) 0 (switch_command 16000 1) ps;
         (_, ps) = filter_state_packet (switch_input 3000000 False) 0 (charger_report_packet True 3) ps;
         (c2, ps, s2) = filter_command_packet (switch_input 3000001 False) 0 (switch_command 16000 3) ps;
         (c3, ps, s3) = filter_command_packet (switch_input 3000002 False) 0 (switch_command 16000 3) ps
     in (ps, [(c1, s1), (c2, s2), (c3, s3)]))"

lemma switched_under_load:
  "map (\<lambda>(c, s). (cmd_allocated_current c, bit (cmd_flags c) 6, s)) (snd switch_gap)
    = [(16000, False, None), (0, False, None), (0, False, Some True)]"
  by code_simp

end
