(* ===== verification/Power_External.thy ===== *)
theory Power_External
  imports Power_Manager Phase_Switcher
begin

section \<open>External control of the phase switch\<close>

text \<open>
  Besides the power manager itself, an external controller or an automation rule may ask for one or three phases
  (\<^verbatim>\<open>switch_phases\<close> of \<^verbatim>\<open>power_manager.cpp\<close>). The hardware that switches is a back-end, an
  abstract class in the code and a record of its operations here; \<open>em_backend\<close> is the phase switcher of the
  energy manager. Its operations may change the state \<open>'b\<close> of the back-end. A manager that is not enabled has no
  runtime data; where the code reads it nevertheless the result is \<open>None\<close>.
\<close>

record 'b phase_backend =
  bk_priority :: nat
  bk_capable :: "'b \<Rightarrow> bool"
  bk_allowed :: "'b \<Rightarrow> bool"
  bk_phases :: "'b \<Rightarrow> nat"
  bk_state :: "'b \<Rightarrow> BackendState \<times> 'b"
  bk_switch :: "nat \<Rightarrow> 'b \<Rightarrow> bool \<times> 'b"

definition em_backend :: "em_input \<Rightarrow> nat \<Rightarrow> phase_switcher phase_backend" where
  "em_backend e chargers = \<lparr>bk_priority = 8, bk_capable = (\<lambda>_. contactor_installed e), bk_allowed = (\<lambda>_. chargers = 1),
     bk_phases = (\<lambda>_. get_phases e), bk_state = get_phase_switching_state_internal e False, bk_switch = switch_phases e\<rparr>"

text \<open>The back-end with the highest priority is used, the first of several equal ones.\<close>

definition register_phase_switcher_backend ::
  "bool \<Rightarrow> 'b phase_backend \<Rightarrow> 'b phase_backend option \<Rightarrow> 'b phase_backend option option" where
  "register_phase_switcher_backend after_setup b registered =
    (if after_setup then None
     else Some (case registered of None \<Rightarrow> Some b | Some r \<Rightarrow> if bk_priority b > bk_priority r then Some b else Some r))"

datatype ExternalControlState = ExtAvailable | ExtDisabled | ExtUnavailable | ExtSwitching

record external_control =
  external_control_state :: ExternalControlState
  ext_phases_wanted :: nat
  last_phase_switch_start :: int

definition new_external_control :: external_control where
  "new_external_control = \<lparr>external_control_state = ExtDisabled, ext_phases_wanted = 0, last_phase_switch_start = 0\<rparr>"

definition external_request_invalid :: "nat \<Rightarrow> string option" where
  "external_request_invalid n =
    (if n \<noteq> 1 \<and> n \<noteq> 3 then Some ''Invalid value for phases_wanted! Only 1 or 3 are allowed.'' else None)"

definition mode_allows_external :: "bool \<Rightarrow> 'f pm_state \<Rightarrow> bool" where
  "mode_allows_external em_v1 s \<longleftrightarrow> em_v1 \<and> \<not> excess_charging_enable (pm_cfg s)
     \<and> phase_switching_mode (pm_cfg s) = PHASE_SWITCHING_EXTERNAL_CONTROL"

definition external_control_enabled ::
  "bool \<Rightarrow> 'f pm_state option \<Rightarrow> 'b phase_backend option \<Rightarrow> 'b \<Rightarrow> bool" where
  "external_control_enabled em_v1 rt backend st =
    (case backend of None \<Rightarrow> False
     | Some b \<Rightarrow> (case rt of None \<Rightarrow> True | Some s \<Rightarrow> mode_allows_external em_v1 s) \<and> bk_allowed b st \<and> bk_capable b st)"

text \<open>The result is the message of an error; a request that is already carried out, or under way, is none.\<close>

definition PHASE_SWITCH_TIMEOUT :: int where
  "PHASE_SWITCH_TIMEOUT = 120000000"

definition pm_switch_phases ::
  "bool \<Rightarrow> 'f pm_state option \<Rightarrow> 'b phase_backend option \<Rightarrow> int \<Rightarrow> (int \<Rightarrow> bool) \<Rightarrow> nat \<Rightarrow> external_control \<Rightarrow> 'b
    \<Rightarrow> string option \<times> external_control \<times> 'b" where
  "pm_switch_phases em_v1 rt backend now is_elapsed wanted x st =
    (case backend of
       None \<Rightarrow> (Some ''Ignoring external control phase change request: External control is not enabled.'', x, st)
     | Some b \<Rightarrow>
       if \<not> external_control_enabled em_v1 rt backend st
       then (Some ''Ignoring external control phase change request: External control is not enabled.'', x, st)
       else case bk_state b st of (sw, st) \<Rightarrow>
         (case sw of
            BackendError \<Rightarrow> (Some ''Ignoring external control phase change request: Phase switching in error state.'', x, st)
          | BackendBusy \<Rightarrow>
              (if ext_phases_wanted x \<noteq> wanted \<or> is_elapsed (last_phase_switch_start x + PHASE_SWITCH_TIMEOUT)
               then Some ''Ignoring external control phase change request: Phase switching in progress.'' else None, x, st)
          | BackendReady \<Rightarrow>
              if wanted = ext_phases_wanted x \<and> wanted = bk_phases b st then (None, x, st)
              else let x = x\<lparr>ext_phases_wanted := wanted\<rparr> in
                case bk_switch b wanted st of (ok, st) \<Rightarrow>
                  (None, if ok then x\<lparr>last_phase_switch_start := now, external_control_state := ExtSwitching\<rparr> else x, st)))"

text \<open>The task that shows the state of the back-end.\<close>

definition external_state_task :: "'b phase_backend \<Rightarrow> external_control \<Rightarrow> 'b \<Rightarrow> external_control \<times> 'b" where
  "external_state_task b x st =
    (case bk_state b st of (sw, st) \<Rightarrow>
      (x\<lparr>external_control_state := (case sw of BackendError \<Rightarrow> ExtUnavailable | BackendBusy \<Rightarrow> ExtSwitching
         | BackendReady \<Rightarrow> ExtAvailable)\<rparr>, st))"

text \<open>What the setup and a run of the task do to the shown state.\<close>

definition external_after_setup :: "'f pm_state \<Rightarrow> external_control \<Rightarrow> external_control" where
  "external_after_setup s x =
    (if phase_switching_mode (pm_cfg s) = PHASE_SWITCHING_EXTERNAL_CONTROL
     then x\<lparr>external_control_state := ExtUnavailable\<rparr> else x)"

definition external_after_task :: "'f pm_state \<Rightarrow> external_control \<Rightarrow> external_control" where
  "external_after_task s x =
    (if is_blocked s \<and> phase_switching_mode (pm_cfg s) = PHASE_SWITCHING_EXTERNAL_CONTROL
     then x\<lparr>external_control_state := ExtUnavailable\<rparr> else x)"

text \<open>Whether \<^verbatim>\<open>register_urls\<close> offers the command; it then takes the phases of the back-end for the last request
  and, without dynamic load management, lets the allocator run more often. A disabled manager has no runtime data.\<close>

definition external_command_offered ::
  "bool \<Rightarrow> bool \<Rightarrow> 'f pm_state option \<Rightarrow> 'b phase_backend option \<Rightarrow> 'b \<Rightarrow> bool option" where
  "external_command_offered em_v1 enabled rt backend st =
    (case backend of None \<Rightarrow> Some False
     | Some b \<Rightarrow> do {
         mode \<leftarrow> (if em_v1 then map_option (mode_allows_external True) rt else Some False);
         Some ((mode \<or> \<not> enabled) \<and> bk_allowed b st \<and> bk_capable b st) })"

definition register_external_control ::
  "bool \<Rightarrow> bool \<Rightarrow> 'f pm_state option \<Rightarrow> 'b phase_backend option \<Rightarrow> 'b \<Rightarrow> external_control
    \<Rightarrow> (external_control \<times> bool) option" where
  "register_external_control em_v1 enabled rt backend st x = do {
     offered \<leftarrow> external_command_offered em_v1 enabled rt backend st;
     case backend of
       Some b \<Rightarrow> if offered then do {
           fast \<leftarrow> (if em_v1 then map_option (\<lambda>s. \<not> dynamic_load_enabled s) rt else Some False);
           Some (x\<lparr>ext_phases_wanted := bk_phases b st\<rparr>, fast) }
         else Some (x, False)
     | None \<Rightarrow> Some (x, False) }"

subsection \<open>What holds of it\<close>

text \<open>On the energy manager with its phase switcher, a power manager that is not enabled reads its missing runtime data
  when it registers its interface, before it looks whether it is enabled.\<close>

lemma disabled_manager_reads_null:
  "register_external_control True False None (Some b) st x = None"
  by (simp add: register_external_control_def external_command_offered_def)

lemma registers_without_energy_manager:
  "\<exists>r. register_external_control False enabled rt backend st x = Some r"
  by (cases backend) (auto simp: register_external_control_def external_command_offered_def)

text \<open>Before every other use the runtime data is checked, and a request reaches the back-end only when external control is
  enabled and the back-end is ready.\<close>

lemma request_needs_ready_backend:
  assumes "pm_switch_phases em_v1 rt (Some b) now is_elapsed wanted x st = (msg, x', st')" "x' \<noteq> x"
  shows "external_control_enabled em_v1 rt (Some b) st \<and> fst (bk_state b st) = BackendReady \<and> ext_phases_wanted x' = wanted"
  using assms
  by (auto simp: pm_switch_phases_def Let_def split: if_splits prod.splits BackendState.splits)

text \<open>With the phase switcher of the energy manager an accepted request is what the switcher then gives the charger.\<close>

lemma accepted_request_overrides:
  assumes "pm_switch_phases em_v1 rt (Some (em_backend e n)) now is_elapsed wanted x ps = (msg, x', ps')"
    and "last_phase_switch_start x' \<noteq> last_phase_switch_start x"
  shows "external_phase_override ps' = of_nat wanted \<and> contactor_installed e \<and> n = 1"
  using assms
  by (auto simp: pm_switch_phases_def em_backend_def external_control_enabled_def switch_phases_def Let_def
      split: if_splits prod.splits BackendState.splits option.splits)

end
