(* ===== verification/Spec2Isabelle.thy ===== *)
theory Spec2Isabelle
  imports Pearson_Hash Base58 Spitfp_Delivery Hal_Tick Net_Lifecycle Streaming Charge_Turns Cm_Exchange Cm_Resolving Power_System Power_External
begin

text \<open>
  Verification of the protocol stack, the charge manager and the power manager of the Tinkerforge ESP32 firmware.

  \<^bold>\<open>The program.\<close> An ESP32 brick talks to the Bricklets on its ports over SPI and offers them to TCP
  clients. Four layers do this, all in C, under \<^verbatim>\<open>software/src/bindings\<close> and
  \<^verbatim>\<open>software/src/net_arduino_esp32\<close>:

  \<^item> the link layer SPITFP (\<^verbatim>\<open>spitfp.c\<close>), one state machine per port, which frames packets, checks
    them, acknowledges and repeats them. It receives into a ring buffer (\<^verbatim>\<open>packet_buffer.c\<close>) and uses a
    Pearson hash as checksum (\<^verbatim>\<open>pearson_hash.c\<close>);
  \<^item> the packet layer TFP (\<^verbatim>\<open>tfp.c\<close>, \<^verbatim>\<open>tfp_header.c\<close>, \<^verbatim>\<open>endian_convert.c\<close>, \<^verbatim>\<open>base58.c\<close>), which builds
    requests, matches responses with them and hands everything else to callbacks or to the network
    side. Long values go through \<^verbatim>\<open>streaming.c\<close> in chunks;
  \<^item> the hardware abstraction (\<^verbatim>\<open>hal_common.c\<close>, \<^verbatim>\<open>local.c\<close>, the discovery object of
    \<^verbatim>\<open>bricklet_unknown.c\<close>), which keeps the inventory of devices and whose tick drives all ports and
    the exchange with the network side;
  \<^item> the TCP server (\<^verbatim>\<open>net_arduino_esp32.cpp\<close>), which authenticates clients, reassembles their packets
    and sends responses and callbacks to them.

  A call goes down from a device function through \<^verbatim>\<open>tf_tfp_send_packet\<close> to \<^verbatim>\<open>tf_spitfp_tick\<close>; a received
  packet goes up from \<^verbatim>\<open>process_packets\<close> through \<^verbatim>\<open>tf_tfp_filter_received_packet\<close> to the caller, a
  callback handler, or \<^verbatim>\<open>tf_net_send_packet\<close>; \<^verbatim>\<open>tf_hal_tick\<close> takes the packets of the TCP clients from
  the server and injects them into the ports.

  On top of the firmware's infrastructure the charge manager (\<^verbatim>\<open>software/src/modules/charge_manager\<close>)
  distributes the current of a connection over several electric vehicle chargers. Chargers report their
  state and the tags and vehicles they see in packets; the manager decides who may charge
  (\<^verbatim>\<open>update_authentication\<close>, with the lookups of \<^verbatim>\<open>charge_authorization.cpp\<close>, \<^verbatim>\<open>nfc.cpp\<close>, \<^verbatim>\<open>ev.cpp\<close> and
  \<^verbatim>\<open>users.cpp\<close>), keeps records of charges and takes over the rest (\<^verbatim>\<open>update_from_client_packet\<close>). In turns it
  sends its decisions to the chargers (\<^verbatim>\<open>start_manager_task\<close>); every few seconds \<^verbatim>\<open>run_allocator\<close> of
  \<^verbatim>\<open>charge_manager.cpp\<close> applies the charge mode of every charger and calls \<^verbatim>\<open>allocate_current\<close> of
  \<^verbatim>\<open>current_allocator.cpp\<close>. This checks that the chargers answer and obey, decides in stages 1 to 5 which
  chargers are active on one or three phases, and gives them current in stages 6 to 9 within the limits of
  the three grid phases and of the solar excess. Chargers are kept in an index array which every stage
  filters and sorts. Both directions go over UDP (\<^verbatim>\<open>cm_networking\<close>): \<^verbatim>\<open>cm_protocol.cpp\<close> has both ends of the exchange,
  \<^verbatim>\<open>cm_mdns.cpp\<close> finds the addresses of the chargers. In an energy manager the phase switcher
  (\<^verbatim>\<open>em_phase_switcher.cpp\<close>) changes the packets of one charger on their way, to switch it between one and three
  phases with a contactor. The limits the allocator works with come from the power manager (\<^verbatim>\<open>power_manager.cpp\<close>):
  twice a second it reads the meters, filters what they measured and adjusts the power of the solar excess and the
  current of each phase.

  \<^bold>\<open>Conventions.\<close> Integers are words of the width C gives them, so arithmetic wraps as in C. A struct
  is a record with the names of its members; a C array is a list of the declared capacity. Functions
  that report an error return its code as an integer, as in C. The result \<open>None\<close> stands for what C
  leaves undefined (an access out of bounds, a call of a null pointer) and, in loops that carry fuel,
  for running out of it, so that a theorem with the result \<open>Some\<close> shows that neither happens. Code
  outside of the repository (the SPI driver, sockets, the clock, random numbers, HMAC) is a record of
  functions given as argument: \<open>hal_ops\<close>, \<open>net_ops\<close> and \<open>sock_ops\<close>, each over an arbitrary
  world type. What the proofs need of them is a predicate on the record (\<open>hal_wf\<close>, \<open>net_ok\<close>,
  \<open>sock_ok\<close>, \<open>net_clock\<close>), for instance that a transfer returns as many bytes as it was given.

  The charge manager computes with the C type int far below its range, so a \<open>Cost\<close> (solar excess and three
  phases) has integer components; what is stored in 16 bits is reduced there. Times are integers in
  microseconds. Single precision floats are an argument \<open>float_ops\<close> of the model, with the operations the
  code uses; the wall clock is an argument too. The index array and the arrays of chargers are lists, and
  all stages pass the record \<open>StageContext\<close> of \<^verbatim>\<open>current_allocator_private.h\<close> along. \<^verbatim>\<open>std::stable_sort\<close> is
  insertion sort, which gives the only stable result when the comparison is a strict weak order. The power manager
  multiplies what meters measure, so its arithmetic on \<^verbatim>\<open>int32_t\<close> is checked: \<open>i32\<close> is \<open>None\<close> for an
  overflow and \<open>div32\<close> for a division by zero.

  \<^bold>\<open>Theories.\<close>

  \<^item> \<open>Prelude\<close>: machine types, error codes and limits (\<^verbatim>\<open>errors.h\<close>, \<^verbatim>\<open>macros.h\<close>), shared facts.
  \<^item> \<open>Pearson_Hash\<close>: the checksum; it detects each corruption of one byte.
  \<^item> \<open>Base58\<close>: UID strings; overflow is detected exactly, decoding inverts encoding.
  \<^item> \<open>Endian_Convert\<close>: the wire format for both byte orders; the interface \<open>byte_codec\<close>.
  \<^item> \<open>Packet_Buffer\<close>: every operation of the ring buffer, its refinement to lists and the
    interface \<open>byte_fifo\<close>, interpreted on the operations.
  \<^item> \<open>Tfp_Header\<close>: the packet header as a \<open>byte_codec\<close>.
  \<^item> \<open>Hal_Interface\<close>: the functions a board provides, time and deadlines.
  \<^item> \<open>Spitfp\<close>, \<open>Spitfp_Framing\<close>, \<open>Spitfp_Tick\<close>, \<open>Spitfp_Delivery\<close>: the link layer; its refinement of an
    abstract scanner of byte streams, its invariant and termination, its step relation, and what the
    results of a tick mean.
  \<^item> \<open>Local\<close>: the brick as a device of its own.
  \<^item> \<open>Hal_State\<close>, \<open>Hal_Inventory\<close>: the state of the HAL, discovery packets and lookups.
  \<^item> \<open>Tfp\<close>, \<open>Tfp_Routing\<close>: requests, responses and the routing of packets.
  \<^item> \<open>Hal_Common\<close>, \<open>Hal_Tick\<close>: discovery of the ports and the tick; every operation keeps the invariant
    \<open>hal_inv\<close> of the whole stack.
  \<^item> \<open>Net_Server\<close>, \<open>Net_Clients\<close>, \<open>Net_Lifecycle\<close>: the TCP server, its invariant, authentication,
    and the life of a client slot.
  \<^item> \<open>Streaming\<close>: long values in chunks (\<^verbatim>\<open>streaming.c\<close>) in both directions, and the messages of the RS485
    Bricklet built from callbacks.
  \<^item> \<open>Charge_Types\<close>: costs, limits, decisions and the records of the charge manager; costs form a group.
  \<^item> \<open>Charge_Basics\<close>: filtering and sorting of chargers, costs and the bookkeeping of decisions.
  \<^item> \<open>Charge_Activation\<close>: rotation, welcome charge, the control window, and stages 3 to 5.
  \<^item> \<open>Charge_Distribution\<close>: stages 6 to 9, which give current to active chargers.
  \<^item> \<open>Charge_Allocator\<close>: the checks of the chargers, the order of the stages, and the result of a run.
  \<^item> \<open>Charge_Examples\<close>: two chargers and a configuration, used by the witnesses.
  \<^item> \<open>Charge_Steps\<close>, \<open>Charge_Planning\<close>: the stages as sequences of steps of two relations, \<open>plan_step\<close>
    for changes of the phases and \<open>dist_step\<close> for changes of the currents, and what these steps keep.
  \<^item> \<open>Charge_Safety\<close>: the account of the allocator: limits plus what has been given away stay the same.
    The locale \<open>limited_stage\<close> proves it once for a stage that asks \<open>cost_exceeds_limits\<close> or takes the
    remaining capacity; it is interpreted on stages 6, 8 and 9.
  \<^item> \<open>Charge_Run\<close>: one call of \<open>allocate_current\<close>; chargers that are off or unreachable.
  \<^item> \<open>Charge_Update\<close>: the packets of the chargers.
  \<^item> \<open>Charge_Manager\<close>: charge modes and a whole run of the manager.
  \<^item> \<open>Charge_Auth\<close>: tags, vehicles and users, and who may charge.
  \<^item> \<open>Charge_Events\<close>: the state of the charge manager and its reactions to packets, commands and timers.
  \<^item> \<open>Charge_System\<close>: the reactions as the relation \<open>reaction\<close>, the states \<open>sys_reachable\<close> they lead to, and the
    invariant \<open>sys_ok\<close> of these states.
  \<^item> \<open>Fair_Turns\<close>, \<open>Charge_Turns\<close>: the locale \<open>fair_turns\<close> for tasks that serve clients in turns with urgent ones
    first, and its interpretation on the task that sends to the chargers.

  \<^item> \<open>Cm_Packets\<close>: the packets as structs and as bytes, each an interpretation of \<open>byte_codec\<close>, and their checks.
  \<^item> \<open>Cm_Networking\<close>: the tasks of a charger and of the manager that receive and send, with \<open>on_manager_event\<close> as
    the connection to \<open>Charge_Events\<close>. \<open>Cm_Exchange\<close>: what arrives, and whom a charger follows.
  \<^item> \<open>Cm_Resolving\<close>: lookups and scans, with \<open>net_step\<close> as the relation of what can happen.
  \<^item> \<open>Phase_Switcher\<close>: both filters of the phase switcher and when its contactor is set.
  \<^item> \<open>Power_Filters\<close>: the filters of the power manager, with the locale \<open>extreme_order\<close> for what minimum and
    maximum share. \<open>Power_Manager\<close>: configuration, setup, task and actions. \<open>Power_Limits\<close>: its invariant
    \<open>pm_ok\<close>. \<open>Power_System\<close>: power manager and charge manager together. \<open>Power_External\<close>: requests
    for a phase switch from outside.

  \<^bold>\<open>What is shown.\<close> For each layer: its operations keep its invariant and never leave their buffers,
  whatever the other side sends; loops end; what is written is read back (headers, frames, UIDs,
  streams); the layer refines a simpler description of it (queue of bytes, stream scanner, step
  relation of a port); and the errors it reports are the right ones. The top of the stack is that a tick
  of the HAL keeps the joint invariant, and that a tick of the TCP server ends within all bounds. For
  the charge manager: a run never gives away more than a phase or the grid operator allows, counting a
  charger of unknown phase rotation on each phase, and reports what it gave; chargers without a charge
  mode, without an authorized user or a vehicle that wants to charge, silent ones, and all chargers in case
  of a fault get nothing; a user is only authorized by an own tag or vehicle; packets change only their own
  charger; each reaction returns; and no charger is left out when the manager sends. The first two hold in
  every state that \<^verbatim>\<open>setup\<close> and any sequence of reactions lead to. The conditions of the invariant are that
  packets report zero, one or three phases, that minimum currents are from 0 to 32 A, that currents of users
  fit their 16 bits and no user has the id 255, and that scaling by a float maps 0 to 0 and keeps enable
  currents within 16 bits. Some
  theorems state where the code does something it does not mean to: an error code taken for an
  acknowledgement, an acknowledgement taken for a packet, a packet removed with eight bytes of the next
  one, a null handler that is called, and three ways in which the slots of TCP clients get mixed up;
  in the charge manager, single-phase chargers that are not rotated out when several chargers wait, a
  time that is set for the first charger instead of the sender, decisions that are not cleaned up, a stored
  charge mode that is lost at every start, and a current that stays after the end of an authorization when
  there is a user 255.

  For the exchange of the charge manager with its chargers: decisions and reports survive the way over the network,
  bytes that were not received are never used, a charger is not driven by two managers in turn, and lookups
  neither pile up nor stop while a charger has no address. The contactor of the phase switcher is set without load
  as long as the charger stays one that can be used. Three things go wrong here: a scan that could not be started
  ends all scans, the age of a state is not checked before a switch, and commands to a charger that cannot be used for
  a moment are not noted.

  For the power manager: its filters hold the extreme values of their window, whatever was in their memory; neither setup
  nor task overflow or divide by zero, if the configuration is valid and meters report at most 500 kW and 5 kA; and
  with the limits it writes, the charge manager never gives away more than the supply allows, and nothing while charging
  is blocked. Three mistakes were found: a new minimum that is found by the search expires at once, and at two places
  a disabled power manager uses its missing runtime data.

  \<^bold>\<open>Bounds and fuel.\<close> Loops over an array are bounded by its length. \<open>process_packets\<close> runs with one more
  step than there are bytes in the receive buffer, which is enough because each step that does not
  return removes a byte. The waiting loops of SPITFP and TFP run with an arbitrary number of steps;
  theorems about them either hold for every number (what is reached is safe) or show that enough steps
  give a result, from \<open>hal_clock\<close>: reading the time takes time, and 32-bit deadlines are compared
  correctly as long as no call takes longer than \<open>2 ^ 28\<close> microseconds. The send loop of the TCP
  server ends after 20 attempts without progress or with the timeout. The loops of \<open>Streaming\<close> are partial
  functions; that they return is part of the theorems. The receiving task of the manager reads at most 10 packets at a
  time; a round of lookups ends because each goes on with a later charger.

  \<^bold>\<open>Not modelled.\<close> Log output (\<^verbatim>\<open>tf_hal_printf\<close>, debug prints), the table of device names, the generated
  getters and setters of the single Bricklets (all follow the pattern of \<^verbatim>\<open>tf_unknown_comcu_enumerate\<close>),
  the SPI driver and sockets themselves, and most application modules under \<^verbatim>\<open>software/src/modules\<close>,
  which are glue around the ESP-IDF, JSON configuration and floating point measurements. Of the charge
  manager, the watchdog and automation triggers, configuration files, the file of charger names and the JSON
  answers of the web interface are left out, and so are trace output and the texts shown for a charger; of its
  networking, the creation of sockets, the announcement of services and the list of found chargers; of the power manager,
  the trace log and values that are only displayed. The charge tracker is a parameter with its own
  state. Concurrency is not modelled because the stack and the
  charge manager with the power manager each run in one task.
\<close>

end
